(* ===== verification/Jfx_Prelude.thy ===== *)
theory Jfx_Prelude
  imports Complex_Main "HOL-Library.Word" "HOL-Library.Sublist"
begin

text \<open>
  Shared vocabulary of the development: machine integers of the native code, the part of the
  C and C++ standard library the sources use (\<^verbatim>\<open>strstr\<close>, \<^verbatim>\<open>string::find\<close>, the conversion of a
  \<^verbatim>\<open>double\<close> to an integer), and the collections of simplification rules that the component
  theories fill.  \<^verbatim>\<open>float\<close> and \<^verbatim>\<open>double\<close> values are idealised as real numbers.
\<close>

named_theorems jfx_ops "definitions of primitive operations on the pipeline object"
named_theorems jfx_frame "what an operation leaves unchanged"
named_theorems jfx_lock "lock discipline of the operations"

text \<open>Outcome of code that may touch memory it does not own (a dangling or \<^verbatim>\<open>NULL\<close> pointer, an
  access outside an array): C++ gives it no meaning, the model gives it the value \<open>Faults\<close>.\<close>

datatype 'a outcome = Returns 'a | Faults

subsection \<open>Machine integers\<close>

type_synonym u32 = "32 word"
type_synonym ulong = "64 word"
type_synonym u64 = "64 word"

text \<open>\<^verbatim>\<open>UINT_MAX\<close> / \<^verbatim>\<open>G_MAXUINT\<close>: the largest \<^verbatim>\<open>unsigned int\<close>.\<close>

definition UINT_MAX :: u32 where
  "UINT_MAX = 0xFFFFFFFF"

lemma UINT_MAX_max: "UINT_MAX = - 1"
  by (simp add: UINT_MAX_def)

lemma unat_UINT_MAX [simp]: "unat UINT_MAX = 2 ^ 32 - 1"
  by (simp add: UINT_MAX_def)

lemma u32_le_UINT_MAX [simp]: "a \<le> UINT_MAX"
  by (simp add: UINT_MAX_max)

lemma unat_u32_less: "unat (a :: u32) < 2 ^ 32"
  using unsigned_less [of a] by simp

text \<open>The overflow test \<^verbatim>\<open>b > 0 && a <= UINT_MAX / b\<close> is exactly "the product fits".\<close>

lemma mult_fits_iff:
  fixes a b :: u32
  assumes "0 < b"
  shows "a \<le> UINT_MAX div b \<longleftrightarrow> unat a * unat b < 2 ^ 32"
proof -
  have pos: "0 < unat b" using assms by (simp add: word_less_nat_alt)
  have "a \<le> UINT_MAX div b \<longleftrightarrow> unat a \<le> (2 ^ 32 - 1) div unat b"
    by (simp add: word_le_nat_alt unat_div)
  also have "\<dots> \<longleftrightarrow> unat a * unat b \<le> 2 ^ 32 - 1"
    using pos by (rule less_eq_div_iff_mult_less_eq)
  also have "\<dots> \<longleftrightarrow> unat a * unat b < 2 ^ 32"
    by simp presburger
  finally show ?thesis .
qed

lemma unat_mult_fits: "unat a * unat b < 2 ^ 32 \<Longrightarrow> unat (a * b :: u32) = unat a * unat b"
  by (simp add: unat_word_ariths)

lemma unat_add_fits: "unat a + unat b < 2 ^ LENGTH('l) \<Longrightarrow> unat (a + b :: 'l::len word) = unat a + unat b"
  by (simp add: unat_word_ariths)

lemma unat_ucast_u32_ulong [simp]: "unat (ucast (a :: u32) :: ulong) = unat a"
  by (simp add: unsigned_ucast_eq take_bit_nat_eq_self unat_u32_less less_trans [OF unat_u32_less])

subsection \<open>Conversions\<close>

text \<open>The C conversion of a floating-point value to an integer type discards the fraction.\<close>

definition trunc_int :: "real \<Rightarrow> int" where
  "trunc_int x = (if 0 \<le> x then \<lfloor>x\<rfloor> else \<lceil>x\<rceil>)"

lemma trunc_int_of_int [simp]: "trunc_int (of_int n) = n"
  by (simp add: trunc_int_def)

lemma trunc_int_mono: "x \<le> y \<Longrightarrow> trunc_int x \<le> trunc_int y"
  by (auto simp: trunc_int_def floor_mono ceiling_mono intro: order_trans [of _ 0])

lemma trunc_int_nonneg [simp]: "0 \<le> x \<Longrightarrow> 0 \<le> trunc_int x"
  by (simp add: trunc_int_def)

lemma trunc_int_le: "0 \<le> x \<Longrightarrow> of_int (trunc_int x) \<le> x"
  by (simp add: trunc_int_def)

subsection \<open>Strings\<close>

text \<open>\<^verbatim>\<open>string::find\<close>: the first position at which the pattern occurs, \<open>None\<close> for \<^verbatim>\<open>npos\<close>.\<close>

fun str_find :: "string \<Rightarrow> string \<Rightarrow> nat option" where
  "str_find pat s =
     (if prefix pat s then Some 0
      else case s of [] \<Rightarrow> None | _ # s' \<Rightarrow> map_option Suc (str_find pat s'))"

declare str_find.simps [simp del]

lemma str_find_prefix [simp]: "prefix pat s \<Longrightarrow> str_find pat s = Some 0"
  by (simp add: str_find.simps)

lemma str_find_Nil [simp]: "str_find pat [] = (if pat = [] then Some 0 else None)"
  by (simp add: str_find.simps)

lemma str_find_Cons [simp]:
  "str_find pat (c # s) = (if prefix pat (c # s) then Some 0 else map_option Suc (str_find pat s))"
  by (simp add: str_find.simps)

lemma str_find_None_iff: "str_find pat s = None \<longleftrightarrow> \<not> sublist pat s"
  by (induction s) (auto simp: sublist_Cons_right)

lemma str_find_Some_prefix: "str_find pat s = Some i \<Longrightarrow> prefix pat (drop i s)"
  by (induction s arbitrary: i) (auto split: if_splits)

lemma str_find_0_iff: "str_find pat s = Some 0 \<longleftrightarrow> prefix pat s"
  by (cases s) (auto split: if_splits)

text \<open>\<^verbatim>\<open>strstr(s, pat) != NULL\<close> and \<^verbatim>\<open>s.find(pat) != string::npos\<close>.\<close>

definition str_contains :: "string \<Rightarrow> string \<Rightarrow> bool" where
  "str_contains pat s \<longleftrightarrow> str_find pat s \<noteq> None"

lemma str_contains_iff: "str_contains pat s \<longleftrightarrow> sublist pat s"
  by (simp add: str_contains_def str_find_None_iff)

end
