(* ===== verification/Media_Types.thy ===== *)
theory Media_Types
  imports Jfx_Prelude
begin

text \<open>
  The data of the media engine that several components share: the error codes of
  \<^verbatim>\<open>jfxmedia_errors.h\<close> the sources return, the player and GStreamer states, the target
  platform selected by \<^verbatim>\<open>TARGET_OS_*\<close>, the MIME types of \<^verbatim>\<open>MediaTypes.h\<close>, the element
  container (\<^verbatim>\<open>GstElementContainer\<close>), the pipeline options (\<^verbatim>\<open>CPipelineOptions\<close>) and the caps
  structures that GStreamer hands to the engine.
\<close>

subsection \<open>Error codes and states\<close>

datatype (plugins only: code size) errcode =
    ERROR_NONE
  | ERROR_MANAGER_NULL | ERROR_MANAGER_CREATION | ERROR_MANAGER_ENGINEINIT_FAIL
  | ERROR_MANAGER_RUNLOOP_FAIL
  | ERROR_MEDIA_NULL | ERROR_MEDIA_CREATION | ERROR_MEDIA_INVALID | ERROR_MEDIA_VIDEO_FORMAT_UNSUPPORTED
  | ERROR_MEDIA_AUDIO_FORMAT_UNSUPPORTED | ERROR_MEDIA_AAC_FORMAT_UNSUPPORTED
  | ERROR_MEDIA_H264_FORMAT_UNSUPPORTED | ERROR_MEDIA_H265_FORMAT_UNSUPPORTED
  | ERROR_MEDIA_HLS_FORMAT_UNSUPPORTED | ERROR_MEDIA_CORRUPTED
  | ERROR_PIPELINE_NULL | ERROR_PIPELINE_CREATION | ERROR_FACTORY_NULL | ERROR_JNI_UNEXPECTED
  | ERROR_LOCATOR_NULL | ERROR_LOCATOR_UNSUPPORTED_TYPE | ERROR_LOCATOR_UNSUPPORTED_MEDIA_FORMAT
  | ERROR_LOCATOR_CONNECTION_LOST | ERROR_LOCATOR_CONTENT_TYPE_NULL
  | ERROR_GSTREAMER_PIPELINE_CREATION | ERROR_GSTREAMER_AUDIO_DECODER_SINK_PAD
  | ERROR_GSTREAMER_AUDIO_DECODER_SRC_PAD | ERROR_GSTREAMER_VIDEO_DECODER_SINK_PAD
  | ERROR_GSTREAMER_PIPELINE_STATE_CHANGE | ERROR_GSTREAMER_PIPELINE_SEEK
  | ERROR_GSTREAMER_PIPELINE_QUERY_LENGTH | ERROR_GSTREAMER_AUDIO_SINK_CREATE
  | ERROR_GSTREAMER_CREATE_GHOST_PAD | ERROR_GSTREAMER_ELEMENT_ADD_PAD
  | ERROR_GSTREAMER_ELEMENT_LINK | ERROR_GSTREAMER_ELEMENT_LINK_AUDIO_BIN
  | ERROR_GSTREAMER_ELEMENT_LINK_VIDEO_BIN | ERROR_GSTREAMER_ELEMENT_CREATE
  | ERROR_GSTREAMER_VIDEO_SINK_CREATE | ERROR_GSTREAMER_BIN_CREATE
  | ERROR_GSTREAMER_BIN_ADD_ELEMENT | ERROR_GSTREAMER_ELEMENT_GET_PAD
  | ERROR_GSTREAMER_MAIN_LOOP_CREATE | ERROR_GSTREAMER_BUS_SOURCE_ATTACH
  | ERROR_GSTREAMER_PIPELINE_SET_RATE_ZERO
  | ERROR_MEMORY_ALLOCATION | ERROR_OS_UNSUPPORTED | ERROR_PLATFORM_UNSUPPORTED
  | ERROR_FUNCTION_PARAM_NULL
  | ERROR_JNI_SEND_PLAYER_HALT_EVENT | ERROR_JNI_SEND_PLAYER_STATE_EVENT
  | ERROR_JNI_SEND_NEW_FRAME_EVENT | ERROR_JNI_SEND_FRAME_SIZE_CHANGED_EVENT
  | ERROR_JNI_SEND_AUDIO_TRACK_EVENT | ERROR_JNI_SEND_VIDEO_TRACK_EVENT
  | ERROR_JNI_SEND_BUFFER_PROGRESS_EVENT | ERROR_JNI_SEND_DURATION_UPDATE_EVENT
  | ERROR_JNI_SEND_AUDIO_SPECTRUM_EVENT
  | ERROR_MISSING_LIBSWSCALE | ERROR_INVALID_LIBSWSCALE

datatype warncode =
    WARNING_GSTREAMER_PIPELINE_WARNING
  | WARNING_GSTREAMER_PIPELINE_INFO_ERROR
  | WARNING_GSTREAMER_PIPELINE_FRAME_SIZE
  | WARNING_GSTREAMER_INVALID_FRAME

text \<open>\<^verbatim>\<open>CPipeline::PlayerState\<close>.\<close>

datatype PlayerState =
    Unknown | Ready | Playing | Paused | Stopped | Stalled | Finished | Error

text \<open>\<^verbatim>\<open>GstState\<close> of the GStreamer API.\<close>

datatype GstState =
    GST_STATE_VOID_PENDING | GST_STATE_NULL | GST_STATE_READY | GST_STATE_PAUSED | GST_STATE_PLAYING

text \<open>The platform the preprocessor selects (\<^verbatim>\<open>TARGET_OS_WIN32\<close>, \<^verbatim>\<open>TARGET_OS_MAC\<close>,
  \<^verbatim>\<open>TARGET_OS_LINUX\<close> or none of them).\<close>

datatype target_os = TARGET_OS_WIN32 | TARGET_OS_MAC | TARGET_OS_LINUX | TARGET_OS_OTHER

subsection \<open>MIME types\<close>

definition CONTENT_TYPE_AIFF :: string where "CONTENT_TYPE_AIFF = ''audio/x-aiff''"
definition CONTENT_TYPE_MP3 :: string where "CONTENT_TYPE_MP3 = ''audio/mp3''"
definition CONTENT_TYPE_MPA :: string where "CONTENT_TYPE_MPA = ''audio/mpeg''"
definition CONTENT_TYPE_WAV :: string where "CONTENT_TYPE_WAV = ''audio/x-wav''"
definition CONTENT_TYPE_MP4 :: string where "CONTENT_TYPE_MP4 = ''video/mp4''"
definition CONTENT_TYPE_M4A :: string where "CONTENT_TYPE_M4A = ''audio/x-m4a''"
definition CONTENT_TYPE_M4V :: string where "CONTENT_TYPE_M4V = ''video/x-m4v''"
definition CONTENT_TYPE_M3U8 :: string where "CONTENT_TYPE_M3U8 = ''application/vnd.apple.mpegurl''"
definition CONTENT_TYPE_M3U :: string where "CONTENT_TYPE_M3U = ''audio/mpegurl''"
definition CONTENT_TYPE_MP2T :: string where "CONTENT_TYPE_MP2T = ''video/MP2T''"
definition CONTENT_TYPE_FMP4 :: string where "CONTENT_TYPE_FMP4 = ''video/quicktime''"
definition CONTENT_TYPE_AAC :: string where "CONTENT_TYPE_AAC = ''audio/aac''"

lemmas content_type_defs =
  CONTENT_TYPE_AIFF_def CONTENT_TYPE_MP3_def CONTENT_TYPE_MPA_def CONTENT_TYPE_WAV_def
  CONTENT_TYPE_MP4_def CONTENT_TYPE_M4A_def CONTENT_TYPE_M4V_def CONTENT_TYPE_M3U8_def
  CONTENT_TYPE_M3U_def CONTENT_TYPE_MP2T_def CONTENT_TYPE_FMP4_def CONTENT_TYPE_AAC_def

subsection \<open>GStreamer objects\<close>

text \<open>A \<^verbatim>\<open>GstElement*\<close>, \<^verbatim>\<open>GstPad*\<close> or \<^verbatim>\<open>GstClock*\<close> is \<open>None\<close> for \<^verbatim>\<open>NULL\<close>
  and otherwise the identity of an object.\<close>

type_synonym gobj = nat
type_synonym gptr = "gobj option"

text \<open>A caps structure: its media type and its typed fields.\<close>

record gst_structure =
  st_name :: string
  st_int :: "string \<rightharpoonup> int"
  st_bool :: "string \<rightharpoonup> bool"
  st_string :: "string \<rightharpoonup> string"
  st_fraction :: "string \<rightharpoonup> int \<times> int"

type_synonym gst_caps = "gst_structure list"

text \<open>\<^verbatim>\<open>gst_caps_get_structure(caps, 0)\<close>: the first structure, \<^verbatim>\<open>NULL\<close> when there is none.\<close>

definition gst_caps_get_structure0 :: "gst_caps \<Rightarrow> gst_structure option" where
  "gst_caps_get_structure0 caps = (case caps of [] \<Rightarrow> None | s # _ \<Rightarrow> Some s)"

text \<open>\<^verbatim>\<open>gst_structure_get_int(s, field, &v)\<close> leaves \<open>v\<close> alone when the field is missing.\<close>

definition st_int_or :: "gst_structure \<Rightarrow> string \<Rightarrow> int \<Rightarrow> int" where
  "st_int_or s f d = (case st_int s f of None \<Rightarrow> d | Some v \<Rightarrow> v)"

definition st_has_int :: "gst_structure \<Rightarrow> string \<Rightarrow> bool" where
  "st_has_int s f \<longleftrightarrow> st_int s f \<noteq> None"

subsection \<open>GstElementContainer\<close>

datatype (plugins only: code size) ElementRole =
    PIPELINE | SOURCE | AUDIO_SOURCE | SOURCE_BUFFER | AUDIO_SOURCE_BUFFER | AUDIO_QUEUE
  | AUDIO_PARSER | AUDIO_DECODER | AUDIO_BALANCE | AUDIO_EQUALIZER | AUDIO_SPECTRUM
  | AUDIO_VOLUME | AUDIO_SINK | AV_DEMUXER | AUDIO_BIN | VIDEO_BIN | VIDEO_DECODER
  | VIDEO_SINK | VIDEO_QUEUE

text \<open>\<^verbatim>\<open>std::map<ElementRole, GstElement*>\<close>: a stored pointer may itself be \<^verbatim>\<open>NULL\<close>.\<close>

record GstElementContainer =
  m_Map :: "ElementRole \<rightharpoonup> gptr"

definition GstElementContainer_new :: GstElementContainer where
  "GstElementContainer_new = \<lparr>m_Map = Map.empty\<rparr>"

definition container_Dispose :: "GstElementContainer \<Rightarrow> GstElementContainer" where
  "container_Dispose c = c\<lparr>m_Map := Map.empty\<rparr>"

definition container_add :: "ElementRole \<Rightarrow> gptr \<Rightarrow> GstElementContainer \<Rightarrow> GstElementContainer" where
  "container_add role element c = c\<lparr>m_Map := (m_Map c)(role \<mapsto> element)\<rparr>"

definition container_get :: "GstElementContainer \<Rightarrow> ElementRole \<Rightarrow> gptr" where
  "container_get c role = (case m_Map c role of None \<Rightarrow> None | Some e \<Rightarrow> e)"

lemma container_get_new [simp]: "container_get GstElementContainer_new r = None"
  by (simp add: container_get_def GstElementContainer_new_def)

lemma container_get_Dispose [simp]: "container_get (container_Dispose c) r = None"
  by (simp add: container_get_def container_Dispose_def)

lemma container_get_add [simp]:
  "container_get (container_add r e c) r' = (if r' = r then e else container_get c r')"
  by (simp add: container_get_def container_add_def)

subsection \<open>CPipelineOptions\<close>

datatype pipeline_type = kSingleSourcePipeline | kAudioSourcePipeline

record CPipelineOptions =
  m_PipelineType :: pipeline_type
  m_bBufferingEnabled :: bool
  m_ContentType :: string
  m_StreamMimeType :: int
  m_AudioStreamMimeType :: int
  m_bHLSModeEnabled :: bool
  m_audioFlags :: int
  m_StreamParser :: string
  m_AudioStreamParser :: string
  m_AudioDecoder :: string
  m_VideoDecoder :: string

definition CPipelineOptions_new :: CPipelineOptions where
  "CPipelineOptions_new =
     \<lparr>m_PipelineType = kSingleSourcePipeline, m_bBufferingEnabled = False, m_ContentType = [],
      m_StreamMimeType = -1, m_AudioStreamMimeType = -1, m_bHLSModeEnabled = False, m_audioFlags = 0,
      m_StreamParser = [], m_AudioStreamParser = [], m_AudioDecoder = [], m_VideoDecoder = []\<rparr>"

text \<open>\<^verbatim>\<open>GetCharFromString\<close>: the empty string is reported as \<^verbatim>\<open>NULL\<close>.\<close>

definition GetCharFromString :: "string \<Rightarrow> string option" where
  "GetCharFromString str = (if str = [] then None else Some str)"

definition GetStreamParser :: "CPipelineOptions \<Rightarrow> string option" where
  "GetStreamParser opts = GetCharFromString (m_StreamParser opts)"

definition GetAudioStreamParser :: "CPipelineOptions \<Rightarrow> string option" where
  "GetAudioStreamParser opts = GetCharFromString (m_AudioStreamParser opts)"

definition GetVideoDecoder :: "CPipelineOptions \<Rightarrow> string option" where
  "GetVideoDecoder opts = GetCharFromString (m_VideoDecoder opts)"

definition GetAudioDecoder :: "CPipelineOptions \<Rightarrow> string option" where
  "GetAudioDecoder opts = GetCharFromString (m_AudioDecoder opts)"

definition ForceDefaultTrackID :: "CPipelineOptions \<Rightarrow> bool" where
  "ForceDefaultTrackID opts \<longleftrightarrow> m_PipelineType opts = kAudioSourcePipeline"

lemmas option_getters =
  GetStreamParser_def GetAudioStreamParser_def GetVideoDecoder_def GetAudioDecoder_def
  GetCharFromString_def ForceDefaultTrackID_def

end
