(* ===== verification/Video_Frame.thy ===== *)
theory Video_Frame
  imports Media_Types
begin

text \<open>
  The base class of the video frames (\<^verbatim>\<open>PipelineManagement/VideoFrame.cpp\<close>): the plane table and
  the overflow-checked size and pointer arithmetic that all frame classes use.  The three
  checked operations share one contract, stated as the locale \<open>checked_chain\<close>: once the
  validity flag is cleared nothing sets it again, and a cleared flag makes the operation return
  its neutral value.  Addresses are natural numbers, \<^verbatim>\<open>unsigned int\<close> has 32 bits and
  \<^verbatim>\<open>unsigned long\<close> has 64 bits.
\<close>

datatype FrameType = UNKNOWN | ARGB | BGRA_PRE | YCbCr_420p | YCbCr_422 | YCbCr_422_rev

abbreviation MAX_PLANE_COUNT :: nat where "MAX_PLANE_COUNT \<equiv> 4"

type_synonym addr = nat
type_synonym dataptr = "addr option"

record CVideoFrame =
  m_uiWidth :: u32
  m_uiHeight :: u32
  m_uiEncodedWidth :: u32
  m_uiEncodedHeight :: u32
  m_typeFrame :: FrameType
  m_bHasAlpha :: bool
  m_dTime :: real
  m_FrameDirty :: bool
  m_pvPlaneData :: "dataptr list"
  m_pulPlaneSize :: "ulong list"
  m_puiPlaneStrides :: "u32 list"
  m_uiPlaneCount :: u32

subsection \<open>The plane table\<close>

definition Reset :: "'a CVideoFrame_scheme \<Rightarrow> 'a CVideoFrame_scheme" where
  "Reset f = f\<lparr>m_uiPlaneCount := 0,
     m_puiPlaneStrides := replicate MAX_PLANE_COUNT 0,
     m_pulPlaneSize := replicate MAX_PLANE_COUNT 0,
     m_pvPlaneData := replicate MAX_PLANE_COUNT None\<rparr>"

text \<open>The constructor; every field is initialised, the plane table by \<open>Reset\<close>.\<close>

definition CVideoFrame_new :: CVideoFrame where
  "CVideoFrame_new = Reset
     \<lparr>m_uiWidth = 0, m_uiHeight = 0, m_uiEncodedWidth = 0, m_uiEncodedHeight = 0,
      m_typeFrame = UNKNOWN, m_bHasAlpha = False, m_dTime = 0, m_FrameDirty = False,
      m_pvPlaneData = [], m_pulPlaneSize = [], m_puiPlaneStrides = [], m_uiPlaneCount = 0\<rparr>"

definition HasAlpha :: "'a CVideoFrame_scheme \<Rightarrow> bool" where
  "HasAlpha f = m_bHasAlpha f"

definition SetPlaneCount :: "u32 \<Rightarrow> 'a CVideoFrame_scheme \<Rightarrow> 'a CVideoFrame_scheme" where
  "SetPlaneCount count f =
     (if count \<le> of_nat MAX_PLANE_COUNT then f\<lparr>m_uiPlaneCount := count\<rparr>
      else f\<lparr>m_uiPlaneCount := of_nat MAX_PLANE_COUNT\<rparr>)"

definition GetDataForPlane :: "u32 \<Rightarrow> 'a CVideoFrame_scheme \<Rightarrow> dataptr" where
  "GetDataForPlane planeIndex f =
     (if planeIndex < of_nat MAX_PLANE_COUNT then m_pvPlaneData f ! unat planeIndex else None)"

definition GetSizeForPlane :: "u32 \<Rightarrow> 'a CVideoFrame_scheme \<Rightarrow> ulong" where
  "GetSizeForPlane planeIndex f =
     (if planeIndex < of_nat MAX_PLANE_COUNT then m_pulPlaneSize f ! unat planeIndex else 0)"

definition GetStrideForPlane :: "u32 \<Rightarrow> 'a CVideoFrame_scheme \<Rightarrow> u32" where
  "GetStrideForPlane planeIndex f =
     (if planeIndex < of_nat MAX_PLANE_COUNT then m_puiPlaneStrides f ! unat planeIndex else 0)"

text \<open>Exchanging two entries of an array, as the three temporaries of \<^verbatim>\<open>SwapPlanes\<close> do.\<close>

definition swap_at :: "nat \<Rightarrow> nat \<Rightarrow> 'v list \<Rightarrow> 'v list" where
  "swap_at i j xs = (let t = xs ! i in (xs[i := xs ! j])[j := t])"

definition SwapPlanes :: "u32 \<Rightarrow> u32 \<Rightarrow> 'a CVideoFrame_scheme \<Rightarrow> 'a CVideoFrame_scheme" where
  "SwapPlanes aa bb f =
     (if aa \<noteq> bb \<and> aa < m_uiPlaneCount f \<and> bb < m_uiPlaneCount f then
        f\<lparr>m_puiPlaneStrides := swap_at (unat aa) (unat bb) (m_puiPlaneStrides f),
          m_pulPlaneSize := swap_at (unat aa) (unat bb) (m_pulPlaneSize f),
          m_pvPlaneData := swap_at (unat aa) (unat bb) (m_pvPlaneData f)\<rparr>
      else f)"

lemma length_swap_at [simp]: "length (swap_at i j xs) = length xs"
  by (simp add: swap_at_def Let_def)

lemma swap_at_swap_at [simp]:
  "i < length xs \<Longrightarrow> j < length xs \<Longrightarrow> swap_at i j (swap_at i j xs) = xs"
  by (auto simp: swap_at_def Let_def list_eq_iff_nth_eq nth_list_update)

lemma nth_swap_at:
  "i < length xs \<Longrightarrow> j < length xs \<Longrightarrow> k < length xs \<Longrightarrow>
   swap_at i j xs ! k = (if k = j then xs ! i else if k = i then xs ! j else xs ! k)"
  by (auto simp: swap_at_def Let_def nth_list_update)

text \<open>The table invariant: arrays of \<^verbatim>\<open>MAX_PLANE_COUNT\<close> entries, count within them.\<close>

definition planes_wf :: "'a CVideoFrame_scheme \<Rightarrow> bool" where
  "planes_wf f \<longleftrightarrow>
     length (m_pvPlaneData f) = MAX_PLANE_COUNT \<and> length (m_pulPlaneSize f) = MAX_PLANE_COUNT \<and>
     length (m_puiPlaneStrides f) = MAX_PLANE_COUNT \<and> m_uiPlaneCount f \<le> of_nat MAX_PLANE_COUNT"

lemma planes_wf_Reset [simp]: "planes_wf (Reset f)"
  by (simp add: planes_wf_def Reset_def)

lemma planes_wf_new: "planes_wf CVideoFrame_new"
  by (simp add: CVideoFrame_new_def)

lemma planes_wf_SetPlaneCount [simp]: "planes_wf f \<Longrightarrow> planes_wf (SetPlaneCount n f)"
  by (simp add: planes_wf_def SetPlaneCount_def)

lemma planes_wf_SwapPlanes [simp]: "planes_wf f \<Longrightarrow> planes_wf (SwapPlanes a b f)"
  by (simp add: planes_wf_def SwapPlanes_def)

lemma SwapPlanes_twice: "planes_wf f \<Longrightarrow> SwapPlanes a b (SwapPlanes a b f) = f"
proof -
  assume wf: "planes_wf f"
  show ?thesis
  proof (cases "a \<noteq> b \<and> a < m_uiPlaneCount f \<and> b < m_uiPlaneCount f")
    case True
    with wf have "unat a < MAX_PLANE_COUNT" "unat b < MAX_PLANE_COUNT"
      by (auto simp: planes_wf_def word_less_nat_alt word_le_nat_alt)
    with True wf show ?thesis by (simp add: SwapPlanes_def planes_wf_def)
  next
    case False
    then show ?thesis by (auto simp: SwapPlanes_def)
  qed
qed

subsection \<open>Checked arithmetic\<close>

text \<open>The flag argument \<^verbatim>\<open>bool *pbValid\<close> is \<open>None\<close> for a \<^verbatim>\<open>NULL\<close> pointer; the functions return
  the result and what the flag holds afterwards.\<close>

definition CalcSize :: "u32 \<Rightarrow> u32 \<Rightarrow> bool option \<Rightarrow> ulong \<times> bool option" where
  "CalcSize a b pbValid =
     (if pbValid = None \<or> pbValid = Some False then (0, pbValid)
      else if 0 < b \<and> a \<le> UINT_MAX div b then (ucast (a * b), pbValid)
      else (0, Some False))"

definition AddSize :: "ulong \<Rightarrow> ulong \<Rightarrow> bool option \<Rightarrow> ulong \<times> bool option" where
  "AddSize a b pbValid =
     (if pbValid = None \<or> pbValid = Some False then (0, pbValid)
      else if a \<le> ucast UINT_MAX \<and> b \<le> ucast UINT_MAX \<and> a \<le> ucast UINT_MAX - b then (a + b, pbValid)
      else (0, Some False))"

definition CalcPlanePointer ::
  "addr \<Rightarrow> u32 \<Rightarrow> ulong \<Rightarrow> ulong \<Rightarrow> bool option \<Rightarrow> dataptr \<times> bool option" where
  "CalcPlanePointer baseAddress offset planeSize baseSize pbValid =
     (if pbValid = None \<or> pbValid = Some False then (None, pbValid)
      else let (endOfPlane, pbValid) = AddSize (ucast offset) planeSize pbValid in
           if pbValid = Some True \<and> endOfPlane \<le> baseSize
           then (Some (baseAddress + unat offset), pbValid)
           else (None, Some False))"

subsection \<open>The contract of the checked operations\<close>

text \<open>
  \<open>fits\<close> says when the exact mathematical result is representable (and in range), \<open>result\<close> is
  that exact result.  A chain of calls that all receive the same flag needs one test at the end.
\<close>

locale checked_chain =
  fixes calc :: "'x \<Rightarrow> bool option \<Rightarrow> 'r \<times> bool option"
    and neutral :: 'r
    and fits :: "'x \<Rightarrow> bool"
    and result :: "'x \<Rightarrow> 'r"
  assumes skipped: "v = None \<or> v = Some False \<Longrightarrow> calc x v = (neutral, v)"
    and done_ok: "fits x \<Longrightarrow> calc x (Some True) = (result x, Some True)"
    and done_bad: "\<not> fits x \<Longrightarrow> calc x (Some True) = (neutral, Some False)"
begin

lemma flag_cases: "snd (calc x v) = (if v = Some True \<and> \<not> fits x then Some False else v)"
proof (cases "v = Some True")
  case True
  then show ?thesis by (simp add: done_ok done_bad)
next
  case False
  then have "v = None \<or> v = Some False" by (cases v) auto
  then show ?thesis by (auto simp: skipped)
qed

lemma flag_never_set: "snd (calc x v) = Some True \<Longrightarrow> v = Some True"
  by (simp add: flag_cases split: if_splits)

lemma valid_exact: "snd (calc x v) = Some True \<Longrightarrow> fits x \<and> fst (calc x v) = result x"
  by (auto simp: flag_cases done_ok split: if_splits)

fun run_chain :: "'x list \<Rightarrow> bool option \<Rightarrow> bool option" where
  "run_chain [] v = v"
| "run_chain (x # xs) v = run_chain xs (snd (calc x v))"

lemma run_chain_valid: "run_chain xs (Some True) = Some True \<longleftrightarrow> (\<forall>x \<in> set xs. fits x)"
proof -
  have "run_chain xs (Some b) = Some True \<longleftrightarrow> b \<and> (\<forall>x \<in> set xs. fits x)" for b
    by (induction xs arbitrary: b) (auto simp: flag_cases)
  then show ?thesis by simp
qed

end

definition calc_size_fits :: "u32 \<times> u32 \<Rightarrow> bool" where
  "calc_size_fits = (\<lambda>(a, b). 0 < b \<and> unat a * unat b < 2 ^ 32)"

definition calc_size_result :: "u32 \<times> u32 \<Rightarrow> ulong" where
  "calc_size_result = (\<lambda>(a, b). of_nat (unat a * unat b))"

lemma word_of_nat_unat_ulong: "of_nat (unat (w :: ulong)) = w"
  by simp

interpretation calc_size: checked_chain "\<lambda>(a, b). CalcSize a b" 0 calc_size_fits calc_size_result
proof (unfold_locales, goal_cases)
  case (1 v x)
  then show ?case by (cases x) (auto simp: CalcSize_def)
next
  case (2 x)
  obtain a b where x: "x = (a, b)" by (cases x)
  with 2 have b: "0 < b" and fit: "unat a * unat b < 2 ^ 32"
    by (auto simp: calc_size_fits_def)
  have "ucast (a * b) = (of_nat (unat a * unat b) :: ulong)"
    using unat_mult_fits [OF fit] word_of_nat_unat_ulong [of "ucast (a * b)"] by simp
  with x b fit mult_fits_iff [OF b, of a] show ?case
    by (simp add: CalcSize_def calc_size_result_def)
next
  case (3 x)
  then show ?case by (cases x) (auto simp: CalcSize_def calc_size_fits_def mult_fits_iff)
qed

definition add_size_fits :: "ulong \<times> ulong \<Rightarrow> bool" where
  "add_size_fits = (\<lambda>(a, b). unat a + unat b < 2 ^ 32)"

lemma AddSize_test:
  "(a \<le> ucast UINT_MAX \<and> b \<le> ucast UINT_MAX \<and> a \<le> ucast UINT_MAX - (b :: ulong)) \<longleftrightarrow>
   unat a + unat b < 2 ^ 32"
proof -
  have m: "unat (ucast UINT_MAX :: ulong) = 2 ^ 32 - 1" by simp
  show ?thesis
  proof (cases "b \<le> ucast UINT_MAX")
    case True
    then have "unat (ucast UINT_MAX - b) = (2 ^ 32 - 1) - unat b"
      using m by (simp add: unat_sub)
    with True m show ?thesis by (auto simp: word_le_nat_alt)
  next
    case False
    then show ?thesis using m by (auto simp: word_le_nat_alt)
  qed
qed

interpretation add_size: checked_chain "\<lambda>(a, b). AddSize a b" 0 add_size_fits "\<lambda>(a, b). a + b"
  by unfold_locales (auto simp: AddSize_def add_size_fits_def AddSize_test)

text \<open>\<^verbatim>\<open>(base, offset, planeSize, baseSize)\<close>: the bytes \<open>offset ..< offset + planeSize\<close> lie in the buffer.\<close>

definition plane_fits :: "addr \<times> u32 \<times> ulong \<times> ulong \<Rightarrow> bool" where
  "plane_fits = (\<lambda>(base, off, sz, bsz). unat off + unat sz < 2 ^ 32 \<and> unat off + unat sz \<le> unat bsz)"

lemma CalcPlanePointer_valid:
  "CalcPlanePointer base off sz bsz (Some True) =
     (if plane_fits (base, off, sz, bsz) then (Some (base + unat off), Some True) else (None, Some False))"
proof (cases "add_size_fits (ucast off, sz)")
  case True
  then have e: "AddSize (ucast off) sz (Some True) = (ucast off + sz, Some True)"
    using add_size.done_ok [OF True] by simp
  have s: "unat (ucast off + sz) = unat off + unat sz"
    using True by (simp add: add_size_fits_def unat_add_fits)
  from True e s show ?thesis
    by (simp add: CalcPlanePointer_def plane_fits_def add_size_fits_def word_le_nat_alt)
next
  case False
  then have "AddSize (ucast off) sz (Some True) = (0, Some False)"
    using add_size.done_bad [OF False] by simp
  with False show ?thesis
    by (simp add: CalcPlanePointer_def plane_fits_def add_size_fits_def)
qed

interpretation plane_pointer: checked_chain
  "\<lambda>(base, off, sz, bsz). CalcPlanePointer base off sz bsz" None plane_fits
  "\<lambda>(base, off, sz, bsz). Some (base + unat off)"
  by unfold_locales (auto simp: CalcPlanePointer_valid, auto simp: CalcPlanePointer_def)

end
