(* ===== verification/Gst_Video_Frame.thy ===== *)
theory Gst_Video_Frame
  imports Video_Frame
begin

text \<open>
  \<^verbatim>\<open>platform/gstreamer/GstVideoFrame.cpp\<close>: the frame that wraps a GStreamer sample, how it derives
  its plane layout from the caps, and its conversions to RGB.  \<^verbatim>\<open>CGstVideoFrame\<close> declares a second
  member \<^verbatim>\<open>m_bHasAlpha\<close> that hides the one of \<^verbatim>\<open>CVideoFrame\<close>; the model keeps both
  (\<open>gst_m_bHasAlpha\<close> is the derived one).  GStreamer and the allocator are parameters: the record
  \<open>frame_env\<close> holds their answers.  The colour converter that a conversion calls is its function
  \<open>fe_color_convert\<close>, because it depends on the build; the theory \<open>Frame_Pixels\<close> instantiates it with the portable
  converter of \<^verbatim>\<open>ColorConverter.c\<close>.
\<close>

unbundle bit_operations_syntax

subsection \<open>Samples and frames\<close>

text \<open>A mapped buffer: base address, size in bytes, and the metadata a conversion copies.\<close>

record gst_buffer =
  buf_base :: addr
  buf_size :: ulong
  buf_pts :: u64
  buf_offset :: u64
  buf_duration :: u64
  buf_discont :: bool
  buf_map_ok :: bool

record gst_sample =
  smp_buffer :: "gst_buffer option"
  smp_caps :: "gst_caps option"

definition GST_CLOCK_TIME_NONE :: u64 where
  "GST_CLOCK_TIME_NONE = - 1"

definition GST_BUFFER_TIMESTAMP_IS_VALID :: "gst_buffer \<Rightarrow> bool" where
  "GST_BUFFER_TIMESTAMP_IS_VALID b \<longleftrightarrow> buf_pts b \<noteq> GST_CLOCK_TIME_NONE"

abbreviation GST_SECOND :: int where "GST_SECOND \<equiv> 1000000000"

text \<open>\<open>sample_refs\<close> counts the references to the sample that the frame took and has not given back.\<close>

record CGstVideoFrame = CVideoFrame +
  m_bIsValid :: bool
  gst_m_bHasAlpha :: bool
  m_pSample :: "gst_sample option"
  m_pBuffer :: "gst_buffer option"
  m_pvBufferBaseAddress :: addr
  m_ulBufferSize :: ulong
  m_bIsI420 :: bool
  sample_refs :: int

text \<open>The constructor leaves \<^verbatim>\<open>m_bHasAlpha\<close>, the base address and the buffer size uninitialised:
  their first values are the parameters.\<close>

definition CGstVideoFrame_new :: "bool \<Rightarrow> addr \<Rightarrow> ulong \<Rightarrow> CGstVideoFrame" where
  "CGstVideoFrame_new alpha0 base0 size0 = CVideoFrame.extend CVideoFrame_new
     \<lparr>m_bIsValid = False, gst_m_bHasAlpha = alpha0, m_pSample = None, m_pBuffer = None,
      m_pvBufferBaseAddress = base0, m_ulBufferSize = size0, m_bIsI420 = False, sample_refs = 0\<rparr>"

subsection \<open>Reading the caps\<close>

text \<open>\<^verbatim>\<open>gst_structure_get_int(str, field, (int*)&v)\<close> into an unsigned variable.\<close>

definition get_u32 :: "gst_structure \<Rightarrow> string \<Rightarrow> u32 \<Rightarrow> u32" where
  "get_u32 str f v = (case st_int str f of None \<Rightarrow> v | Some i \<Rightarrow> word_of_int i)"

text \<open>\<^verbatim>\<open>g_ascii_strcasecmp(a, b) == 0\<close>.\<close>

definition g_ascii_tolower :: "char \<Rightarrow> char" where
  "g_ascii_tolower c =
     (if 65 \<le> (of_char c :: nat) \<and> (of_char c :: nat) \<le> 90 then char_of ((of_char c :: nat) + 32) else c)"

definition g_ascii_strcaseeq :: "string \<Rightarrow> string \<Rightarrow> bool" where
  "g_ascii_strcaseeq a b \<longleftrightarrow> map g_ascii_tolower a = map g_ascii_tolower b"

definition FOURCC_I420 :: string where "FOURCC_I420 = ''I420''"
definition FOURCC_UYVY :: string where "FOURCC_UYVY = ''UYVY''"

definition fourcc_is :: "gst_structure \<Rightarrow> string \<Rightarrow> bool" where
  "fourcc_is str cc \<longleftrightarrow>
     (case st_string str ''format'' of None \<Rightarrow> False | Some s \<Rightarrow> g_ascii_strcaseeq s cc)"

text \<open>The first part of \<^verbatim>\<open>SetFrameCaps\<close>: the frame type and the alpha flag; the second component
  is \<open>True\<close> when the method returns early.\<close>

definition classify_caps :: "gst_structure \<Rightarrow> CGstVideoFrame \<Rightarrow> CGstVideoFrame \<times> bool" where
  "classify_caps str f =
     (let f = f\<lparr>m_bIsValid := True\<rparr> in
      if st_name str = ''video/x-raw-yvua420p'' then
        (f\<lparr>m_typeFrame := YCbCr_420p, gst_m_bHasAlpha := True\<rparr>, False)
      else if st_name str = ''video/x-raw-ycbcr422'' then
        (f\<lparr>m_typeFrame := YCbCr_422, gst_m_bHasAlpha := False\<rparr>, False)
      else if st_name str = ''video/x-raw-yuv'' then
        (let f = (if fourcc_is str FOURCC_UYVY then f\<lparr>m_typeFrame := YCbCr_422\<rparr>
                  else (let f = (if fourcc_is str FOURCC_I420 then f\<lparr>m_bIsI420 := True\<rparr> else f)
                        in f\<lparr>m_typeFrame := YCbCr_420p\<rparr>))
         in (f\<lparr>gst_m_bHasAlpha := False\<rparr>, False))
      else if st_name str = ''video/x-raw-rgb'' then
        (case (st_int str ''red_mask'', st_int str ''green_mask'', st_int str ''blue_mask'') of
           (Some r, Some g, Some b) \<Rightarrow>
             (let r = (word_of_int r :: u32); g = (word_of_int g :: u32); b = (word_of_int b :: u32) in
              if 0x00ff0000 = r \<or> 0x0000ff00 = g \<or> 0x000000ff = b then
                (f\<lparr>m_typeFrame := ARGB, gst_m_bHasAlpha := True\<rparr>, False)
              else if 0x0000ff00 = r \<or> 0x00ff0000 = g \<or> 0xff000000 = b then
                (f\<lparr>m_typeFrame := BGRA_PRE, gst_m_bHasAlpha := True\<rparr>, False)
              else (f\<lparr>m_bIsValid := False\<rparr>, True))
         | _ \<Rightarrow> (f\<lparr>m_bIsValid := False\<rparr>, True))
      else (f\<lparr>m_typeFrame := UNKNOWN, gst_m_bHasAlpha := False, m_bIsValid := False\<rparr>, False))"

definition read_dimensions :: "gst_structure \<Rightarrow> CGstVideoFrame \<Rightarrow> CGstVideoFrame" where
  "read_dimensions str f =
     (let f = (case st_int str ''width'' of
                 None \<Rightarrow> f\<lparr>m_uiWidth := 0, m_bIsValid := False\<rparr> | Some i \<Rightarrow> f\<lparr>m_uiWidth := word_of_int i\<rparr>);
          f = (case st_int str ''height'' of
                 None \<Rightarrow> f\<lparr>m_uiHeight := 0, m_bIsValid := False\<rparr> | Some i \<Rightarrow> f\<lparr>m_uiHeight := word_of_int i\<rparr>)
      in f\<lparr>m_uiEncodedWidth := get_u32 str ''encoded-width'' (m_uiWidth f),
           m_uiEncodedHeight := get_u32 str ''encoded-height'' (m_uiHeight f)\<rparr>)"

text \<open>The statement pair repeated for every plane: \<^verbatim>\<open>m_pulPlaneSize[i] = CalcSize(stride, height)\<close>
  and \<^verbatim>\<open>m_pvPlaneData[i] = CalcPlanePointer(base, offset, size, bufferSize)\<close>.\<close>

definition set_plane :: "nat \<Rightarrow> u32 \<Rightarrow> u32 \<Rightarrow> CGstVideoFrame \<Rightarrow> CGstVideoFrame" where
  "set_plane i height offset f =
     (let (size, v) = CalcSize (m_puiPlaneStrides f ! i) height (Some (m_bIsValid f));
          (ptr, v) = CalcPlanePointer (m_pvBufferBaseAddress f) offset size (m_ulBufferSize f) v
      in f\<lparr>m_pulPlaneSize := (m_pulPlaneSize f)[i := size],
           m_pvPlaneData := (m_pvPlaneData f)[i := ptr],
           m_bIsValid := (v = Some True)\<rparr>)"

definition set_stride :: "nat \<Rightarrow> u32 \<Rightarrow> CGstVideoFrame \<Rightarrow> CGstVideoFrame" where
  "set_stride i s f = f\<lparr>m_puiPlaneStrides := (m_puiPlaneStrides f)[i := s]\<rparr>"

text \<open>\<^verbatim>\<open>offset += m_pulPlaneSize[i]\<close> on an \<^verbatim>\<open>unsigned int\<close>, then \<^verbatim>\<open>gst_structure_get_int(str, field, &offset)\<close>.\<close>

definition next_offset :: "gst_structure \<Rightarrow> string \<Rightarrow> u32 \<Rightarrow> nat \<Rightarrow> CGstVideoFrame \<Rightarrow> u32" where
  "next_offset str field offset i f = get_u32 str field (ucast (ucast offset + m_pulPlaneSize f ! i :: ulong))"

text \<open>The three planes Y, V, U in YV12 order; returns the offset of the last one as well.\<close>

definition ycc_planes :: "gst_structure \<Rightarrow> CGstVideoFrame \<Rightarrow> u32 \<times> CGstVideoFrame" where
  "ycc_planes str f =
     (let f = SetPlaneCount 3 f;
          f = set_stride 0 (get_u32 str ''stride-y'' (m_uiEncodedWidth f)) f;
          f = set_stride 1 (get_u32 str ''stride-v'' (m_uiEncodedWidth f div 2)) f;
          f = set_stride 2 (get_u32 str ''stride-u'' (m_puiPlaneStrides f ! 1)) f;
          offset = get_u32 str ''offset-y'' 0;
          f = set_plane 0 (m_uiEncodedHeight f) offset f;
          offset = next_offset str ''offset-v'' offset 0 f;
          f = set_plane 1 (m_uiEncodedHeight f div 2) offset f;
          offset = next_offset str ''offset-u'' offset 1 f
      in (offset, set_plane 2 (m_uiEncodedHeight f div 2) offset f))"

definition alpha_plane :: "gst_structure \<Rightarrow> u32 \<Rightarrow> CGstVideoFrame \<Rightarrow> CGstVideoFrame" where
  "alpha_plane str offset f =
     (if gst_m_bHasAlpha f then
        (let f = SetPlaneCount (m_uiPlaneCount f + 1) f;
             f = set_stride 3 (get_u32 str ''stride-a'' (m_puiPlaneStrides f ! 0)) f;
             offset = next_offset str ''offset-a'' offset 2 f
         in set_plane 3 (m_uiEncodedHeight f) offset f)
      else f)"

definition layout_420p :: "gst_structure \<Rightarrow> CGstVideoFrame \<Rightarrow> CGstVideoFrame" where
  "layout_420p str f =
     (let (offset, f) = ycc_planes str f; f = alpha_plane str offset f
      in if m_bIsI420 f then SwapPlanes 1 2 f else f)"

definition layout_packed :: "gst_structure \<Rightarrow> CGstVideoFrame \<Rightarrow> CGstVideoFrame" where
  "layout_packed str f =
     (let f = SetPlaneCount 1 f;
          f = set_stride 0 (get_u32 str ''line_stride''
                (if m_typeFrame f = YCbCr_422 then m_uiEncodedWidth f * 2 else m_uiEncodedWidth f * 4)) f
      in set_plane 0 (m_uiEncodedHeight f) 0 f)"

definition SetFrameCaps :: "gst_structure \<Rightarrow> CGstVideoFrame \<Rightarrow> CGstVideoFrame" where
  "SetFrameCaps str f =
     (let (f, returned) = classify_caps str f in
      if returned then f
      else let f = Reset (read_dimensions str f) in
           if m_typeFrame f = YCbCr_420p then layout_420p str f else layout_packed str f)"

text \<open>\<^verbatim>\<open>Init(sample)\<close>.  A \<^verbatim>\<open>NULL\<close> structure answers every query of the GStreamer API negatively.\<close>

definition null_structure :: gst_structure where
  "null_structure = \<lparr>st_name = [], st_int = Map.empty, st_bool = Map.empty, st_string = Map.empty,
     st_fraction = Map.empty\<rparr>"

definition caps_structure :: "gst_caps \<Rightarrow> gst_structure" where
  "caps_structure caps = (case gst_caps_get_structure0 caps of None \<Rightarrow> null_structure | Some s \<Rightarrow> s)"

definition frame_Init :: "gst_sample \<Rightarrow> CGstVideoFrame \<Rightarrow> bool \<times> CGstVideoFrame" where
  "frame_Init sample f =
     (let f = f\<lparr>m_pSample := Some sample, sample_refs := sample_refs f + 1,
                m_pBuffer := smp_buffer sample\<rparr> in
      case smp_buffer sample of
        None \<Rightarrow> (False, f)
      | Some b \<Rightarrow>
          if \<not> buf_map_ok b then (False, f\<lparr>m_pBuffer := None\<rparr>)
          else
            let f = f\<lparr>m_ulBufferSize := buf_size b, m_pvBufferBaseAddress := buf_base b\<rparr>;
                f = (if GST_BUFFER_TIMESTAMP_IS_VALID b
                     then f\<lparr>m_dTime := real (unat (buf_pts b)) / of_int GST_SECOND\<rparr>
                     else f\<lparr>m_dTime := 0, m_bIsValid := False\<rparr>)
            in case smp_caps sample of
                 None \<Rightarrow> (False, f)
               | Some caps \<Rightarrow> (True, SetFrameCaps (caps_structure caps) f))"

definition IsValid :: "CGstVideoFrame \<Rightarrow> bool" where
  "IsValid f = m_bIsValid f"

definition frame_Dispose :: "CGstVideoFrame \<Rightarrow> CGstVideoFrame" where
  "frame_Dispose f =
     (let f = (if m_pBuffer f \<noteq> None then f\<lparr>m_pBuffer := None\<rparr> else f) in
      if m_pSample f \<noteq> None then f\<lparr>sample_refs := sample_refs f - 1, m_pSample := None\<rparr> else f)"

text \<open>The destructor.\<close>

definition CGstVideoFrame_delete :: "CGstVideoFrame \<Rightarrow> CGstVideoFrame" where
  "CGstVideoFrame_delete f = (if m_pBuffer f \<noteq> None then frame_Dispose f else f)"

subsection \<open>What the caps do not touch\<close>

text \<open>A member of the frame that \<^verbatim>\<open>SetFrameCaps\<close> never assigns.\<close>

locale caps_field =
  fixes F :: "CGstVideoFrame \<Rightarrow> 'v"
  assumes F_valid: "F (f\<lparr>m_bIsValid := v\<rparr>) = F f"
    and F_type: "F (f\<lparr>m_typeFrame := t\<rparr>) = F f" "F (f\<lparr>gst_m_bHasAlpha := b\<rparr>) = F f" "F (f\<lparr>m_bIsI420 := b\<rparr>) = F f"
    and F_size: "F (f\<lparr>m_uiWidth := w\<rparr>) = F f" "F (f\<lparr>m_uiHeight := w\<rparr>) = F f"
      "F (f\<lparr>m_uiEncodedWidth := w\<rparr>) = F f" "F (f\<lparr>m_uiEncodedHeight := w\<rparr>) = F f"
    and F_planes: "F (f\<lparr>m_pvPlaneData := pd\<rparr>) = F f" "F (f\<lparr>m_pulPlaneSize := ps\<rparr>) = F f"
      "F (f\<lparr>m_puiPlaneStrides := st\<rparr>) = F f" "F (f\<lparr>m_uiPlaneCount := n\<rparr>) = F f"
begin

lemmas F_simps = F_valid F_type F_size F_planes

lemma F_steps:
  "F (set_plane i h off f) = F f" "F (set_stride i s f) = F f" "F (SetPlaneCount n f) = F f"
  "F (SwapPlanes a b f) = F f" "F (Reset f) = F f"
  by (simp_all add: set_plane_def set_stride_def SetPlaneCount_def SwapPlanes_def Reset_def F_simps Let_def split_beta)

lemma F_read_dimensions: "F (read_dimensions str f) = F f"
  by (simp add: read_dimensions_def F_simps Let_def split: option.split)

lemma F_classify: "F (fst (classify_caps str f)) = F f"
  by (auto simp: classify_caps_def F_simps Let_def split: option.splits)

lemma F_SetFrameCaps [simp]: "F (SetFrameCaps str f) = F f"
  by (simp add: SetFrameCaps_def layout_420p_def layout_packed_def ycc_planes_def alpha_plane_def
      F_steps F_read_dimensions F_classify Let_def split_beta)

end

interpretation cf_time: caps_field m_dTime
  by unfold_locales simp_all

interpretation cf_alpha: caps_field m_bHasAlpha
  by unfold_locales simp_all

interpretation cf_buffer: caps_field m_pBuffer
  by unfold_locales simp_all

interpretation cf_sample: caps_field m_pSample
  by unfold_locales simp_all

interpretation cf_refs: caps_field sample_refs
  by unfold_locales simp_all

subsection \<open>Plane bounds\<close>

text \<open>Plane \<open>i\<close> of the frame lies inside the mapped buffer.\<close>

definition plane_in_buffer :: "CGstVideoFrame \<Rightarrow> nat \<Rightarrow> bool" where
  "plane_in_buffer f i \<longleftrightarrow>
     m_pvPlaneData f ! i \<noteq> None \<and> m_pvBufferBaseAddress f \<le> the (m_pvPlaneData f ! i) \<and>
     the (m_pvPlaneData f ! i) + unat (m_pulPlaneSize f ! i)
       \<le> m_pvBufferBaseAddress f + unat (m_ulBufferSize f)"

definition tables_ok :: "CGstVideoFrame \<Rightarrow> bool" where
  "tables_ok f \<longleftrightarrow> length (m_pvPlaneData f) = 4 \<and> length (m_pulPlaneSize f) = 4 \<and>
     length (m_puiPlaneStrides f) = 4"

lemma set_plane_valid:
  assumes "m_bIsValid (set_plane i h off f)"
  defines "psz \<equiv> calc_size_result (m_puiPlaneStrides f ! i, h)"
  shows "m_bIsValid f \<and> calc_size_fits (m_puiPlaneStrides f ! i, h) \<and>
    plane_fits (m_pvBufferBaseAddress f, off, psz, m_ulBufferSize f) \<and>
    set_plane i h off f = f\<lparr>m_pulPlaneSize := (m_pulPlaneSize f)[i := psz],
      m_pvPlaneData := (m_pvPlaneData f)[i := Some (m_pvBufferBaseAddress f + unat off)]\<rparr>"
proof -
  obtain sz v where cs: "CalcSize (m_puiPlaneStrides f ! i) h (Some (m_bIsValid f)) = (sz, v)"
    by fastforce
  obtain ptr v' where cp:
    "CalcPlanePointer (m_pvBufferBaseAddress f) off sz (m_ulBufferSize f) v = (ptr, v')"
    by fastforce
  from assms(1) cs cp have v': "v' = Some True" by (simp add: set_plane_def)
  with cp plane_pointer.flag_never_set
    [of "(m_pvBufferBaseAddress f, off, sz, m_ulBufferSize f)" v] have v: "v = Some True"
    by simp
  with cp v' plane_pointer.valid_exact
    [of "(m_pvBufferBaseAddress f, off, sz, m_ulBufferSize f)" v]
  have ptr: "plane_fits (m_pvBufferBaseAddress f, off, sz, m_ulBufferSize f)"
    "ptr = Some (m_pvBufferBaseAddress f + unat off)" by simp_all
  from cs v calc_size.flag_never_set [of "(m_puiPlaneStrides f ! i, h)" "Some (m_bIsValid f)"]
    calc_size.valid_exact [of "(m_puiPlaneStrides f ! i, h)" "Some (m_bIsValid f)"]
  have "m_bIsValid f" "calc_size_fits (m_puiPlaneStrides f ! i, h)" "sz = psz"
    by (simp_all add: psz_def)
  with ptr cs cp v' show ?thesis by (simp add: set_plane_def psz_def)
qed

lemma set_plane_fields [simp]:
  "m_pvBufferBaseAddress (set_plane i h off f) = m_pvBufferBaseAddress f"
  "m_ulBufferSize (set_plane i h off f) = m_ulBufferSize f"
  "m_puiPlaneStrides (set_plane i h off f) = m_puiPlaneStrides f"
  "m_uiPlaneCount (set_plane i h off f) = m_uiPlaneCount f"
  "m_bIsI420 (set_plane i h off f) = m_bIsI420 f"
  "gst_m_bHasAlpha (set_plane i h off f) = gst_m_bHasAlpha f"
  "m_uiEncodedHeight (set_plane i h off f) = m_uiEncodedHeight f"
  "m_uiEncodedWidth (set_plane i h off f) = m_uiEncodedWidth f"
  "m_bHasAlpha (set_plane i h off f) = m_bHasAlpha f"
  "m_typeFrame (set_plane i h off f) = m_typeFrame f"
  by (simp_all add: set_plane_def split_beta Let_def)

lemma tables_ok_updates [simp]:
  "tables_ok (set_plane i h off f) = tables_ok f"
  "tables_ok (set_stride i s f) = tables_ok f"
  "tables_ok (SetPlaneCount n f) = tables_ok f"
  "tables_ok (Reset f)"
  by (simp_all add: tables_ok_def set_plane_def set_stride_def SetPlaneCount_def Reset_def split_beta Let_def)

lemma plane_in_buffer_other [simp]:
  "plane_in_buffer (set_stride i s f) j = plane_in_buffer f j"
  "plane_in_buffer (SetPlaneCount n f) j = plane_in_buffer f j"
  by (simp_all add: plane_in_buffer_def set_stride_def SetPlaneCount_def)

lemma valid_other [simp]:
  "m_bIsValid (set_stride i s f) = m_bIsValid f"
  "m_bIsValid (SetPlaneCount n f) = m_bIsValid f"
  by (simp_all add: set_stride_def SetPlaneCount_def)

text \<open>Setting a valid plane puts that plane in the buffer and keeps the planes set before it.\<close>

lemma set_plane_in_buffer:
  assumes "m_bIsValid (set_plane i h off f)" "tables_ok f" "i < 4"
  shows "plane_in_buffer (set_plane i h off f) j \<longleftrightarrow> j = i \<or> plane_in_buffer f j"
proof (cases "j = i")
  case True
  with set_plane_valid [OF assms(1)] assms(2,3) show ?thesis
    by (auto simp: plane_in_buffer_def tables_ok_def plane_fits_def)
next
  case False
  with set_plane_valid [OF assms(1)] show ?thesis
    by (auto simp: plane_in_buffer_def)
qed

lemma set_plane_valid_before: "m_bIsValid (set_plane i h off f) \<Longrightarrow> m_bIsValid f"
  using set_plane_valid by blast

lemma less_planes_cases:
  "i < (1::nat) \<longleftrightarrow> i = 0" "i < (3::nat) \<longleftrightarrow> i = 0 \<or> i = 1 \<or> i = 2"
  "i < (4::nat) \<longleftrightarrow> i = 0 \<or> i = 1 \<or> i = 2 \<or> i = 3"
  by auto

lemma SwapPlanes_in_buffer:
  assumes "tables_ok f" "m_uiPlaneCount f = 3 \<or> m_uiPlaneCount f = 4"
  shows "plane_in_buffer (SwapPlanes 1 2 f) i =
    plane_in_buffer f (if i = 1 then 2 else if i = 2 then 1 else i)"
  using assms by (auto simp: SwapPlanes_def plane_in_buffer_def tables_ok_def swap_at_def Let_def)

lemma plane_count_simps [simp]:
  "m_uiPlaneCount (SetPlaneCount n f) = (if n \<le> 4 then n else 4)"
  "m_uiPlaneCount (set_stride i s f) = m_uiPlaneCount f"
  "gst_m_bHasAlpha (SetPlaneCount n f) = gst_m_bHasAlpha f"
  "gst_m_bHasAlpha (set_stride i s f) = gst_m_bHasAlpha f"
  by (simp_all add: SetPlaneCount_def set_stride_def)

lemma ycc_planes_in_buffer:
  assumes "ycc_planes str f = (off, f')" "m_bIsValid f'" "tables_ok f"
  shows "tables_ok f' \<and> m_uiPlaneCount f' = 3 \<and> (\<forall>i < 3. plane_in_buffer f' i)"
proof -
  from assms(1) obtain f0 h0 h1 o0 o1 where
    f': "f' = set_plane 2 h1 off (set_plane 1 h1 o1 (set_plane 0 h0 o0 f0))"
    and f0: "tables_ok f0 \<longleftrightarrow> tables_ok f" "m_uiPlaneCount f0 = 3"
    by (auto simp: ycc_planes_def Let_def)
  from assms(2) f' have v: "m_bIsValid (set_plane 1 h1 o1 (set_plane 0 h0 o0 f0))"
    "m_bIsValid (set_plane 0 h0 o0 f0)"
    by (blast dest: set_plane_valid_before)+
  show ?thesis
    unfolding f' less_planes_cases using v assms(2) [unfolded f'] f0 assms(3)
    by (auto simp: set_plane_in_buffer)
qed

lemma alpha_plane_in_buffer:
  assumes "m_bIsValid (alpha_plane str off f)" "tables_ok f" "m_uiPlaneCount f = 3"
    and "\<forall>i < 3. plane_in_buffer f i"
  shows "tables_ok (alpha_plane str off f) \<and>
    (m_uiPlaneCount (alpha_plane str off f) = 3 \<or> m_uiPlaneCount (alpha_plane str off f) = 4) \<and>
    (\<forall>i < unat (m_uiPlaneCount (alpha_plane str off f)). plane_in_buffer (alpha_plane str off f) i)"
proof (cases "gst_m_bHasAlpha f")
  case True
  with assms(3) obtain s h o' where a: "alpha_plane str off f =
      set_plane 3 h o' (set_stride 3 s (SetPlaneCount 4 f))"
    by (auto simp: alpha_plane_def Let_def)
  show ?thesis
    using assms(1,2,4) unfolding a by (auto simp: set_plane_in_buffer less_planes_cases)
next
  case False
  then have a: "alpha_plane str off f = f" by (simp add: alpha_plane_def)
  show ?thesis
    unfolding a using assms by simp
qed

lemma alpha_plane_valid_before: "m_bIsValid (alpha_plane str off f) \<Longrightarrow> m_bIsValid f"
  by (auto simp: alpha_plane_def Let_def split: if_splits dest: set_plane_valid_before)

lemma SwapPlanes_fields [simp]:
  "m_bIsValid (SwapPlanes a b f) = m_bIsValid f"
  "m_uiPlaneCount (SwapPlanes a b f) = m_uiPlaneCount f"
  by (simp_all add: SwapPlanes_def)

lemma layout_420p_in_buffer:
  assumes "m_bIsValid (layout_420p str f)" "tables_ok f" "i < unat (m_uiPlaneCount (layout_420p str f))"
  shows "plane_in_buffer (layout_420p str f) i"
proof -
  obtain off f1 where y: "ycc_planes str f = (off, f1)" by fastforce
  define f2 where "f2 = alpha_plane str off f1"
  have l: "layout_420p str f = (if m_bIsI420 f2 then SwapPlanes 1 2 f2 else f2)"
    by (simp add: layout_420p_def y f2_def Let_def)
  with assms(1) have v2: "m_bIsValid f2" by (simp split: if_splits)
  then have "m_bIsValid f1" unfolding f2_def by (rule alpha_plane_valid_before)
  with y assms(2) have "tables_ok f1" "m_uiPlaneCount f1 = 3" "\<forall>i < 3. plane_in_buffer f1 i"
    by (auto dest: ycc_planes_in_buffer)
  with v2 have r: "tables_ok f2" "m_uiPlaneCount f2 = 3 \<or> m_uiPlaneCount f2 = 4"
    "\<forall>i < unat (m_uiPlaneCount f2). plane_in_buffer f2 i"
    unfolding f2_def by (auto dest: alpha_plane_in_buffer)
  with assms(3) l show ?thesis
    by (auto simp: SwapPlanes_in_buffer split: if_splits)
qed

lemma layout_packed_in_buffer:
  assumes "m_bIsValid (layout_packed str f)" "tables_ok f" "i < unat (m_uiPlaneCount (layout_packed str f))"
  shows "plane_in_buffer (layout_packed str f) i"
proof -
  obtain s h where p: "layout_packed str f = set_plane 0 h 0 (set_stride 0 s (SetPlaneCount 1 f))"
    by (simp add: layout_packed_def Let_def)
  show ?thesis
    using assms unfolding p by (auto simp: set_plane_in_buffer)
qed

lemma classify_caps_returned: "classify_caps str f = (f', True) \<Longrightarrow> \<not> m_bIsValid f'"
  by (auto simp: classify_caps_def Let_def split: if_splits option.splits prod.splits)

lemma SetFrameCaps_planes:
  assumes "m_bIsValid (SetFrameCaps str f)" "i < unat (m_uiPlaneCount (SetFrameCaps str f))"
  shows "plane_in_buffer (SetFrameCaps str f) i"
proof -
  obtain f1 ret where c: "classify_caps str f = (f1, ret)" by fastforce
  from assms(1) c have "\<not> ret"
    using classify_caps_returned [of str f f1] by (auto simp: SetFrameCaps_def)
  with c assms show ?thesis
    by (auto simp: SetFrameCaps_def Let_def split: if_splits
        intro: layout_420p_in_buffer layout_packed_in_buffer)
qed

text \<open>Whatever the caps of a sample say (negative or huge strides, offsets and sizes included), a
  frame that \<^verbatim>\<open>SetFrameCaps\<close> leaves valid has every one of its planes inside the mapped buffer.\<close>

theorem SetFrameCaps_in_bounds:
  assumes "IsValid (SetFrameCaps str f)" and "i < unat (m_uiPlaneCount (SetFrameCaps str f))"
  shows "\<exists>a. m_pvPlaneData (SetFrameCaps str f) ! i = Some a \<and>
    m_pvBufferBaseAddress (SetFrameCaps str f) \<le> a \<and>
    a + unat (m_pulPlaneSize (SetFrameCaps str f) ! i)
      \<le> m_pvBufferBaseAddress (SetFrameCaps str f) + unat (m_ulBufferSize (SetFrameCaps str f))"
  using assms SetFrameCaps_planes [of str f i] by (auto simp: IsValid_def plane_in_buffer_def)

text \<open>A 4 by 2 I420 frame in a 12 byte buffer at address 4096.\<close>

definition demo_yuv :: gst_structure where
  "demo_yuv = \<lparr>st_name = ''video/x-raw-yuv'',
     st_int = [''width'' \<mapsto> 4, ''height'' \<mapsto> 2], st_bool = Map.empty,
     st_string = [''format'' \<mapsto> ''I420''], st_fraction = Map.empty\<rparr>"

definition demo_frame :: CGstVideoFrame where
  "demo_frame = (CGstVideoFrame_new False 0 0)\<lparr>m_pvBufferBaseAddress := 4096, m_ulBufferSize := 12\<rparr>"

lemmas frame_eval =
  SetFrameCaps_def classify_caps_def read_dimensions_def layout_420p_def layout_packed_def
  ycc_planes_def alpha_plane_def set_plane_def set_stride_def next_offset_def get_u32_def
  SetPlaneCount_def SwapPlanes_def swap_at_def Reset_def CalcSize_def CalcPlanePointer_def
  AddSize_def fourcc_is_def g_ascii_strcaseeq_def g_ascii_tolower_def FOURCC_I420_def
  FOURCC_UYVY_def UINT_MAX_def CGstVideoFrame_new_def CVideoFrame_new_def CVideoFrame.defs

theorem SetFrameCaps_in_bounds_witness:
  "\<exists>a. m_pvPlaneData (SetFrameCaps demo_yuv demo_frame) ! 2 = Some a \<and> 4096 \<le> a \<and>
     a + unat (m_pulPlaneSize (SetFrameCaps demo_yuv demo_frame) ! 2) \<le> 4108"
proof -
  have "IsValid (SetFrameCaps demo_yuv demo_frame)"
    and "2 < unat (m_uiPlaneCount (SetFrameCaps demo_yuv demo_frame))"
    and "m_pvBufferBaseAddress (SetFrameCaps demo_yuv demo_frame) = 4096"
    and "m_ulBufferSize (SetFrameCaps demo_yuv demo_frame) = 12"
    by (simp_all add: IsValid_def demo_yuv_def demo_frame_def frame_eval)
  with SetFrameCaps_in_bounds [of demo_yuv demo_frame 2] show ?thesis by simp
qed

end
