(* ===== verification/Frame_Convert.thy ===== *)
theory Frame_Convert
  imports Gst_Video_Frame
begin

text \<open>
  The conversions of \<^verbatim>\<open>GstVideoFrame.cpp\<close>: the 16-byte aligned allocation, the checked size of the
  RGB destination, the caps of the new frame, and the byte-swapping loops.  The result of a
  conversion carries the net number of GStreamer references the call leaks (positive) or gives back
  without owning them (negative).
\<close>

unbundle bit_operations_syntax

subsection \<open>The environment of a conversion\<close>

datatype cc_routine =
    YCbCr420p_to_ARGB32 | YCbCr420p_to_ARGB32_no_alpha
  | YCbCr420p_to_BGRA32 | YCbCr420p_to_BGRA32_no_alpha
  | YCbCr422p_to_ARGB32_no_alpha | YCbCr422p_to_BGRA32_no_alpha

text \<open>The arguments of a call of \<^verbatim>\<open>ColorConvert_*\<close>, in the order of its parameters.\<close>

record cc_call =
  cc_fn :: cc_routine
  cc_dst :: addr
  cc_dst_stride :: u32
  cc_width :: u32
  cc_height :: u32
  cc_src :: "dataptr list"
  cc_src_strides :: "u32 list"

record frame_env =
  fe_malloc :: "u32 \<Rightarrow> addr option"
  fe_map_ok :: bool
  fe_sample_ok :: bool
  fe_color_convert :: "cc_call \<Rightarrow> int"
  fe_uninit :: "bool \<times> addr \<times> ulong"

record conv_result =
  cr_frame :: "CGstVideoFrame option"
  cr_refs :: int
  cr_pixels :: "u32 list"

abbreviation conv_null :: "int \<Rightarrow> conv_result outcome" where
  "conv_null refs \<equiv> Returns \<lparr>cr_frame = None, cr_refs = refs, cr_pixels = []\<rparr>"

subsection \<open>Helpers of the conversions\<close>

definition swap_uint32 :: "u32 \<Rightarrow> u32" where
  "swap_uint32 x =
     push_bit 24 (x AND 0x000000ff) OR push_bit 8 (x AND 0x0000ff00) OR
     drop_bit 8 (x AND 0x00ff0000) OR drop_bit 24 (x AND 0xff000000)"

definition align16 :: "addr \<Rightarrow> addr" where
  "align16 newData = nat ((int newData + 15) AND (NOT 15))"

text \<open>Returns the aligned address handed to \<^verbatim>\<open>gst_buffer_new_wrapped_full\<close>, with the raw block.\<close>

definition alloc_aligned_buffer :: "frame_env \<Rightarrow> u32 \<Rightarrow> (addr \<times> addr) option" where
  "alloc_aligned_buffer E sz =
     (if sz \<le> UINT_MAX - 16 then
        (case fe_malloc E (sz + 16) of None \<Rightarrow> None | Some newData \<Rightarrow> Some (align16 newData, newData))
      else None)"

definition create_RGB_caps ::
  "FrameType \<Rightarrow> u32 \<Rightarrow> u32 \<Rightarrow> u32 \<Rightarrow> u32 \<Rightarrow> u32 \<Rightarrow> gst_caps option" where
  "create_RGB_caps type width height encodedWidth encodedHeight stride =
     (let caps = (\<lambda>a r g b.
        [\<lparr>st_name = ''video/x-raw-rgb'',
          st_int = [''bpp'' \<mapsto> 32, ''depth'' \<mapsto> 32,
                    ''red_mask'' \<mapsto> sint (r :: u32), ''green_mask'' \<mapsto> sint (g :: u32),
                    ''blue_mask'' \<mapsto> sint (b :: u32), ''alpha_mask'' \<mapsto> sint (a :: u32),
                    ''width'' \<mapsto> sint width, ''height'' \<mapsto> sint height,
                    ''encoded-width'' \<mapsto> sint encodedWidth, ''encoded-height'' \<mapsto> sint encodedHeight,
                    ''line_stride'' \<mapsto> sint stride],
          st_bool = Map.empty, st_string = Map.empty, st_fraction = Map.empty\<rparr>])
      in if type = ARGB then Some (caps 0xFF000000 0x00FF0000 0x0000FF00 0x000000FF)
         else if type = BGRA_PRE then Some (caps 0x000000FF 0x0000FF00 0x00FF0000 0xFF000000)
         else None)"

text \<open>The three overflow checks both YCbCr conversions start with: stride and allocation size.\<close>

definition checked_rgb_size :: "u32 \<Rightarrow> u32 \<Rightarrow> (u32 \<times> u32) option" where
  "checked_rgb_size encodedWidth encodedHeight =
     (if encodedWidth \<le> UINT_MAX div 4 then
        let stride = encodedWidth * 4 in
        if stride \<le> UINT_MAX - 16 then
          let stride = (stride + 15) AND (NOT 15) in
          if 0 < encodedHeight \<and> stride \<le> UINT_MAX div encodedHeight
          then Some (stride, stride * encodedHeight)
          else None
        else None
      else None)"

subsection \<open>Conversions from YCbCr\<close>

text \<open>The tail both conversions share: caps, sample, and the new frame initialised from the sample.\<close>

definition finish_convert ::
  "frame_env \<Rightarrow> FrameType \<Rightarrow> CGstVideoFrame \<Rightarrow> gst_buffer \<Rightarrow> addr \<Rightarrow> u32 \<Rightarrow> u32 \<Rightarrow> int \<Rightarrow> conv_result outcome" where
  "finish_convert E destType f src base stride alloc status =
     (case create_RGB_caps destType (m_uiWidth f) (m_uiHeight f) (m_uiEncodedWidth f) (m_uiEncodedHeight f) stride of
        None \<Rightarrow> conv_null 0
      | Some caps \<Rightarrow>
          if \<not> fe_sample_ok E then conv_null 0
          else if status = 0 then
            let destBuffer = \<lparr>buf_base = base, buf_size = ucast alloc, buf_pts = buf_pts src,
                  buf_offset = buf_offset src, buf_duration = buf_duration src, buf_discont = False,
                  buf_map_ok = fe_map_ok E\<rparr>;
                (a0, b0, s0) = fe_uninit E;
                (ok, newFrame) = frame_Init \<lparr>smp_buffer = Some destBuffer, smp_caps = Some caps\<rparr>
                                   (CGstVideoFrame_new a0 b0 s0)
            in if ok \<and> IsValid newFrame
               then Returns \<lparr>cr_frame = Some newFrame, cr_refs = 0, cr_pixels = []\<rparr>
               else Returns \<lparr>cr_frame = None, cr_refs = sample_refs (CGstVideoFrame_delete newFrame), cr_pixels = []\<rparr>
          else conv_null 2)"

text \<open>The call of the colour converter each conversion makes: the routine for the destination type and
  the alpha flag, the destination, and the source planes in the order Y, V, U (, A).\<close>

definition call_420p :: "FrameType \<Rightarrow> addr \<Rightarrow> u32 \<Rightarrow> CGstVideoFrame \<Rightarrow> cc_call" where
  "call_420p destType base stride f =
     (let (u_index, v_index) = (if m_bIsI420 f then (1, 2) else (2, 1 :: nat));
          pd = m_pvPlaneData f; ps = m_puiPlaneStrides f;
          yvu = [pd ! 0, pd ! v_index, pd ! u_index];
          yvus = [ps ! 0, ps ! v_index, ps ! u_index]
      in \<lparr>cc_fn = (if destType = ARGB
                   then if gst_m_bHasAlpha f then YCbCr420p_to_ARGB32 else YCbCr420p_to_ARGB32_no_alpha
                   else if gst_m_bHasAlpha f then YCbCr420p_to_BGRA32 else YCbCr420p_to_BGRA32_no_alpha),
          cc_dst = base, cc_dst_stride = stride,
          cc_width = m_uiEncodedWidth f, cc_height = m_uiEncodedHeight f,
          cc_src = (if gst_m_bHasAlpha f then yvu @ [pd ! 3] else yvu),
          cc_src_strides = (if gst_m_bHasAlpha f then yvus @ [ps ! 3] else yvus)\<rparr>)"

definition call_422 :: "FrameType \<Rightarrow> addr \<Rightarrow> u32 \<Rightarrow> CGstVideoFrame \<Rightarrow> cc_call" where
  "call_422 destType base stride f =
     (let p0 = m_pvPlaneData f ! 0; s0 = m_puiPlaneStrides f ! 0
      in \<lparr>cc_fn = (if destType = ARGB then YCbCr422p_to_ARGB32_no_alpha else YCbCr422p_to_BGRA32_no_alpha),
          cc_dst = base, cc_dst_stride = stride,
          cc_width = m_uiEncodedWidth f, cc_height = m_uiEncodedHeight f,
          cc_src = [map_option (\<lambda>a. a + 1) p0, map_option (\<lambda>a. a + 2) p0, p0],
          cc_src_strides = [s0, s0]\<rparr>)"

definition ConvertFromYCbCr420p :: "frame_env \<Rightarrow> FrameType \<Rightarrow> CGstVideoFrame \<Rightarrow> conv_result outcome" where
  "ConvertFromYCbCr420p E destType f =
     (case checked_rgb_size (m_uiEncodedWidth f) (m_uiEncodedHeight f) of
        None \<Rightarrow> conv_null 0
      | Some (stride, alloc_size) \<Rightarrow>
          (case alloc_aligned_buffer E alloc_size of
             None \<Rightarrow> conv_null 0
           | Some (base, _) \<Rightarrow>
               (case m_pBuffer f of
                  None \<Rightarrow> Faults
                | Some src \<Rightarrow>
                    if \<not> fe_map_ok E then conv_null 0
                    else finish_convert E destType f src base stride alloc_size
                           (fe_color_convert E (call_420p destType base stride f)))))"

definition ConvertFromYCbCr422 :: "frame_env \<Rightarrow> FrameType \<Rightarrow> CGstVideoFrame \<Rightarrow> conv_result outcome" where
  "ConvertFromYCbCr422 E destType f =
     (if gst_m_bHasAlpha f then conv_null 0
      else case checked_rgb_size (m_uiEncodedWidth f) (m_uiEncodedHeight f) of
        None \<Rightarrow> conv_null 0
      | Some (stride, alloc_size) \<Rightarrow>
          (case alloc_aligned_buffer E alloc_size of
             None \<Rightarrow> conv_null 0
           | Some (base, _) \<Rightarrow>
               (case m_pBuffer f of
                  None \<Rightarrow> Faults
                | Some src \<Rightarrow>
                    if \<not> fe_map_ok E then conv_null 0
                    else finish_convert E destType f src base stride alloc_size
                           (fe_color_convert E (call_422 destType base stride f)))))"

subsection \<open>Byte swapping between ARGB and BGRA\<close>

text \<open>The loop for a stride that is a multiple of four: \<^verbatim>\<open>for (xx = 0; xx < size; xx += 4)\<close> over the
  words of both buffers, of which only whole words exist.\<close>

function swap_flat :: "nat \<Rightarrow> nat \<Rightarrow> u32 list \<Rightarrow> u32 list \<Rightarrow> u32 list outcome" where
  "swap_flat xx sz src dst =
     (if xx < sz then
        let k = xx div 4 in
        if k < length src \<and> k < length dst
        then swap_flat (xx + 4) sz src (dst[k := swap_uint32 (src ! k)])
        else Faults
      else Returns dst)"
  by pat_completeness auto
termination
  by (relation "measure (\<lambda>(xx, sz, src, dst). sz - xx)") auto

declare swap_flat.simps [simp del]

text \<open>One row of the other loop: \<^verbatim>\<open>dstData[xx] = swap_uint32(srcData[xx])\<close> for \<^verbatim>\<open>xx < m_uiWidth\<close>.\<close>

fun swap_row :: "nat \<Rightarrow> nat \<Rightarrow> u32 list \<Rightarrow> u32 list \<Rightarrow> u32 list outcome" where
  "swap_row 0 pos src dst = Returns dst"
| "swap_row (Suc n) pos src dst =
     (case swap_row n pos src dst of
        Faults \<Rightarrow> Faults
      | Returns dst \<Rightarrow>
          if pos + n < length src \<and> pos + n < length dst
          then Returns (dst[pos + n := swap_uint32 (src ! (pos + n))])
          else Faults)"

text \<open>The rows: \<^verbatim>\<open>dstData += m_puiPlaneStrides[0]\<close> advances a \<^verbatim>\<open>guint32*\<close> by the stride in words.\<close>

fun swap_rows :: "nat \<Rightarrow> nat \<Rightarrow> nat \<Rightarrow> nat \<Rightarrow> u32 list \<Rightarrow> u32 list \<Rightarrow> u32 list outcome" where
  "swap_rows 0 width stride pos src dst = Returns dst"
| "swap_rows (Suc rows) width stride pos src dst =
     (case swap_row width pos src dst of
        Faults \<Rightarrow> Faults
      | Returns dst \<Rightarrow> swap_rows rows width stride (pos + stride) src dst)"

text \<open>The masks \<^verbatim>\<open>gst_structure_set\<close> writes for the destination format.\<close>

definition swap_caps :: "FrameType \<Rightarrow> gst_structure \<Rightarrow> gst_structure" where
  "swap_caps destType str =
     (let masks = (\<lambda>r g b a. str\<lparr>st_int := (st_int str)(''red_mask'' \<mapsto> sint (r :: u32),
            ''green_mask'' \<mapsto> sint (g :: u32), ''blue_mask'' \<mapsto> sint (b :: u32),
            ''alpha_mask'' \<mapsto> sint (a :: u32))\<rparr>)
      in if destType = ARGB then masks 0x00FF0000 0x0000FF00 0x000000FF 0xFF000000
         else masks 0x0000FF00 0x00FF0000 0xFF000000 0x000000FF)"

definition swap_pixels :: "u32 \<Rightarrow> u32 list \<Rightarrow> u32 list \<Rightarrow> CGstVideoFrame \<Rightarrow> u32 list outcome" where
  "swap_pixels sz src dst f =
     (if m_puiPlaneStrides f ! 0 AND 3 = 0 then swap_flat 0 (unat sz) src dst
      else swap_rows (unat (m_uiHeight f)) (unat (m_uiWidth f)) (unat (m_puiPlaneStrides f ! 0)) 0 src dst)"

definition finish_swap :: "frame_env \<Rightarrow> addr \<Rightarrow> u32 \<Rightarrow> gst_structure \<Rightarrow> u32 list \<Rightarrow> conv_result" where
  "finish_swap E base sz str pixels =
     (let (a0, b0, s0) = fe_uninit E;
          (ok, newFrame) = frame_Init
            \<lparr>smp_buffer = Some \<lparr>buf_base = base, buf_size = ucast sz, buf_pts = GST_CLOCK_TIME_NONE,
               buf_offset = - 1, buf_duration = GST_CLOCK_TIME_NONE, buf_discont = False,
               buf_map_ok = fe_map_ok E\<rparr>,
             smp_caps = Some [str]\<rparr> (CGstVideoFrame_new a0 b0 s0)
      in if ok \<and> IsValid newFrame
         then \<lparr>cr_frame = Some newFrame, cr_refs = - 1, cr_pixels = pixels\<rparr>
         else \<lparr>cr_frame = None, cr_refs = sample_refs (CGstVideoFrame_delete newFrame) - 1, cr_pixels = pixels\<rparr>)"

text \<open>\<open>src\<close> and \<open>dst0\<close> are the whole 32-bit words of the source buffer and the fresh contents of the
  destination buffer; \<open>srcCaps\<close> is released although \<^verbatim>\<open>gst_sample_get_caps\<close> only lends it.\<close>

definition ConvertSwapRGB ::
  "frame_env \<Rightarrow> FrameType \<Rightarrow> u32 list \<Rightarrow> u32 list \<Rightarrow> CGstVideoFrame \<Rightarrow> conv_result outcome" where
  "ConvertSwapRGB E destType src dst0 f =
     (case (m_pBuffer f, m_pSample f) of
        (Some srcBuf, Some smp) \<Rightarrow>
          (let sz = ucast (buf_size srcBuf) :: u32 in
           case alloc_aligned_buffer E sz of
             None \<Rightarrow> conv_null 0
           | Some (base, _) \<Rightarrow>
               (case smp_caps smp of
                  None \<Rightarrow> Faults
                | Some srcCaps \<Rightarrow>
                    if destType \<noteq> ARGB \<and> destType \<noteq> BGRA_PRE then conv_null (- 1)
                    else if \<not> fe_sample_ok E then conv_null (- 1)
                    else if \<not> buf_map_ok srcBuf then conv_null (- 1)
                    else if \<not> fe_map_ok E then conv_null (- 1)
                    else case swap_pixels sz src dst0 f of
                           Faults \<Rightarrow> Faults
                         | Returns pixels \<Rightarrow>
                             Returns (finish_swap E base sz (swap_caps destType (caps_structure srcCaps)) pixels)))
      | _ \<Rightarrow> Faults)"

definition ConvertToFormat ::
  "frame_env \<Rightarrow> FrameType \<Rightarrow> u32 list \<Rightarrow> u32 list \<Rightarrow> CGstVideoFrame \<Rightarrow> conv_result outcome" where
  "ConvertToFormat E type src dst0 f =
     (if type = m_typeFrame f then Returns \<lparr>cr_frame = Some f, cr_refs = 0, cr_pixels = []\<rparr>
      else if type = YCbCr_422 \<or> type = YCbCr_420p then conv_null 0
      else case m_typeFrame f of
             ARGB \<Rightarrow> ConvertSwapRGB E type src dst0 f
           | BGRA_PRE \<Rightarrow> ConvertSwapRGB E type src dst0 f
           | YCbCr_420p \<Rightarrow> ConvertFromYCbCr420p E type f
           | YCbCr_422 \<Rightarrow> ConvertFromYCbCr422 E type f
           | _ \<Rightarrow> conv_null 0)"

subsection \<open>Bit-level facts\<close>

lemma mask4: "(15 :: int) = mask 4" "(15 :: u32) = mask 4"
  by (simp_all add: mask_eq_exp_minus_1)

lemma and_not_15_int: "(k :: int) AND NOT 15 = 16 * (k div 16)"
proof -
  have "k AND NOT (mask 4) = push_bit 4 (drop_bit 4 k)"
    by (rule bit_eqI) (auto simp: bit_simps)
  then show ?thesis unfolding mask4 by (simp add: push_bit_eq_mult drop_bit_eq_div)
qed

lemma unat_and_not_15: "unat ((k :: u32) AND NOT 15) = 16 * (unat k div 16)"
proof -
  have "k AND NOT (mask 4) = push_bit 4 (drop_bit 4 k)"
    by (rule bit_word_eqI) (auto simp: bit_simps)
  also have "unat \<dots> = take_bit 32 (push_bit 4 (unat (drop_bit 4 k)))"
    by (simp add: unsigned_push_bit_eq)
  also have "\<dots> = 16 * (unat k div 16)"
  proof -
    have "unat k div 16 * 16 < 2 ^ 32" using unat_u32_less [of k] by linarith
    moreover have "unat (drop_bit 4 k) = unat k div 16" by (simp add: drop_bit_eq_div unat_div)
    ultimately show ?thesis
      by (simp add: push_bit_eq_mult take_bit_nat_eq_self del: drop_bit_numeral_minus_bit1)
  qed
  finally show ?thesis unfolding mask4 .
qed

lemma swap_masks:
  "0x000000ff = (mask 8 :: u32)" "0x0000ff00 = push_bit 8 (mask 8 :: u32)"
  "0x00ff0000 = push_bit 16 (mask 8 :: u32)" "0xff000000 = push_bit 24 (mask 8 :: u32)"
  by (simp_all add: mask_eq_exp_minus_1 push_bit_eq_mult)

lemma bit_swap_uint32:
  "n < 32 \<Longrightarrow> bit (swap_uint32 x) n =
     bit x (if n < 8 then 24 + n else if n < 16 then 8 + n else if n < 24 then n - 8 else n - 24)"
  unfolding swap_uint32_def swap_masks by (auto simp: bit_simps)

lemma swap_uint32_twice [simp]: "swap_uint32 (swap_uint32 x) = x"
  by (rule bit_word_eqI) (auto simp: bit_swap_uint32)

subsection \<open>Allocation and sizes\<close>

lemma align16_eq: "align16 n = 16 * ((n + 15) div 16)"
  unfolding align16_def and_not_15_int by (simp add: nat_mult_distrib nat_div_distrib nat_add_distrib)

text \<open>The buffer \<^verbatim>\<open>alloc_aligned_buffer\<close> wraps is 16-byte aligned and its \<open>size\<close> bytes lie inside
  the block that \<^verbatim>\<open>g_try_malloc\<close> returned, whose requested length does not wrap around.\<close>

theorem alloc_aligned_buffer_in_block:
  assumes "alloc_aligned_buffer E sz = Some (base, raw)"
  shows "fe_malloc E (sz + 16) = Some raw \<and> unat (sz + 16) = unat sz + 16 \<and>
    16 dvd base \<and> raw \<le> base \<and> base + unat sz \<le> raw + unat (sz + 16)"
proof -
  from assms have le: "sz \<le> UINT_MAX - 16" and m: "fe_malloc E (sz + 16) = Some raw"
    and b: "base = align16 raw"
    by (auto simp: alloc_aligned_buffer_def split: if_splits option.splits)
  from le have "unat sz \<le> 2 ^ 32 - 17" by (simp add: UINT_MAX_def word_le_nat_alt)
  then have "unat (sz + 16) = unat sz + 16" by (simp add: unat_add_fits)
  with m b show ?thesis by (auto simp: align16_eq)
qed

definition demo_env :: frame_env where
  "demo_env = \<lparr>fe_malloc = (\<lambda>n. Some 1001), fe_map_ok = True, fe_sample_ok = True,
     fe_color_convert = (\<lambda>c. 0), fe_uninit = (False, 0, 0)\<rparr>"

theorem alloc_aligned_buffer_in_block_witness:
  "alloc_aligned_buffer demo_env 100 = Some (1008, 1001) \<and> 16 dvd (1008 :: nat) \<and>
   1008 + unat (100 :: u32) \<le> 1001 + unat (100 + 16 :: u32)"
proof -
  have "alloc_aligned_buffer demo_env 100 = Some (1008, 1001)"
    by (simp add: alloc_aligned_buffer_def demo_env_def align16_eq UINT_MAX_def)
  with alloc_aligned_buffer_in_block [of demo_env 100 1008 1001] show ?thesis by simp
qed

lemma div_UINT_MAX_4: "unat (w :: u32) * 4 < 2 ^ 32 \<longleftrightarrow> w \<le> UINT_MAX div 4"
  using mult_fits_iff [of 4 w] by simp

lemma checked_rgb_size_sound:
  assumes "checked_rgb_size w h = Some (stride, alloc)"
  shows "unat stride = 16 * ((4 * unat w + 15) div 16) \<and> unat alloc = unat stride * unat h \<and>
    0 < h \<and> unat stride * unat h < 2 ^ 32"
proof -
  from assms have w: "w \<le> UINT_MAX div 4" and w16: "w * 4 \<le> UINT_MAX - 16"
    and h: "0 < h" "stride \<le> UINT_MAX div h"
    and s: "stride = (w * 4 + 15) AND NOT 15" and a: "alloc = stride * h"
    by (auto simp: checked_rgb_size_def Let_def split: if_splits)
  from w have fit: "unat w * 4 < 2 ^ 32" using div_UINT_MAX_4 [of w] by blast
  then have uw: "unat (w * 4) = 4 * unat w" using unat_mult_fits [of w 4] by simp
  with w16 have "unat w * 4 \<le> 2 ^ 32 - 17" by (simp add: UINT_MAX_def word_le_nat_alt)
  then have w15: "unat (w * 4 + 15) = 4 * unat w + 15" using uw by (simp add: unat_add_fits)
  have us: "unat stride = 16 * ((4 * unat w + 15) div 16)"
    unfolding s unat_and_not_15 w15 by simp
  from h have "unat stride * unat h < 2 ^ 32" by (simp add: mult_fits_iff)
  with a have "unat alloc = unat stride * unat h" by (simp add: unat_mult_fits)
  with us h \<open>unat stride * unat h < 2 ^ 32\<close> show ?thesis by simp
qed

text \<open>The destination of a YCbCr conversion: when the checks pass, a row holds the four bytes of
  each pixel, rows start at multiples of 16 bytes, and the allocation is exactly rows times stride
  with no wrap-around.\<close>

theorem checked_rgb_size_layout:
  assumes "checked_rgb_size w h = Some (stride, alloc)"
  shows "4 * unat w \<le> unat stride \<and> unat stride < 4 * unat w + 16 \<and> 16 dvd unat stride \<and>
    unat alloc = unat stride * unat h \<and> 0 < unat h"
  using checked_rgb_size_sound [OF assms] by (auto simp: word_less_nat_alt)

theorem checked_rgb_size_layout_witness:
  "checked_rgb_size 5 3 = Some (32, 96) \<and> 4 * unat (5 :: u32) \<le> unat (32 :: u32)"
proof -
  have "checked_rgb_size 5 3 = Some (32, 96)"
    by (simp add: checked_rgb_size_def UINT_MAX_def)
  with checked_rgb_size_layout [of 5 3 32 96] show ?thesis by simp
qed

subsection \<open>The swapping loops\<close>

lemma swap_flat_from:
  assumes "length src = n" "length dst = n" "k \<le> n"
  shows "swap_flat (4 * k) (4 * n) src dst = Returns (take k dst @ map swap_uint32 (drop k src))"
  using assms
proof (induction "n - k" arbitrary: k dst)
  case 0
  then show ?case by (simp add: swap_flat.simps)
next
  case (Suc m)
  then have k: "k < n" by simp
  have "swap_flat (4 * k) (4 * n) src dst = swap_flat (4 * Suc k) (4 * n) src (dst[k := swap_uint32 (src ! k)])"
    using k Suc.prems by (subst swap_flat.simps) (simp add: Let_def add.commute)
  also have "\<dots> = Returns (take (Suc k) (dst[k := swap_uint32 (src ! k)]) @ map swap_uint32 (drop (Suc k) src))"
    using k Suc.hyps(2) Suc.prems by (intro Suc.hyps(1)) auto
  also have "\<dots> = Returns (take k dst @ map swap_uint32 (drop k src))"
    using k Suc.prems by (simp add: take_Suc_conv_app_nth Cons_nth_drop_Suc [symmetric])
  finally show ?case .
qed

lemma swap_flat_map:
  "length src = n \<Longrightarrow> length dst = n \<Longrightarrow> swap_flat 0 (4 * n) src dst = Returns (map swap_uint32 src)"
  using swap_flat_from [of src n dst 0] by simp

lemma swap_row_overrun:
  "0 < w \<Longrightarrow> length src < pos + w \<Longrightarrow> swap_row w pos src dst = Faults"
  by (cases w) (auto split: outcome.split)

lemma swap_rows_overrun:
  "0 < w \<Longrightarrow> length src < pos + r * stride + w \<Longrightarrow>
   swap_rows (Suc r) w stride pos src dst = Faults"
proof (induction r arbitrary: pos dst)
  case 0
  then show ?case by (simp add: swap_row_overrun)
next
  case (Suc r)
  then have "length src < (pos + stride) + r * stride + w" by (simp add: algebra_simps)
  with Suc.IH [OF Suc.prems(1) this] show ?case
    by (simp only: swap_rows.simps(2) [of "Suc r"]) (auto split: outcome.split)
qed

text \<open>What a call of \<^verbatim>\<open>ConvertSwapRGB\<close> gets from GStreamer when nothing fails.\<close>

definition swap_env_ok :: "frame_env \<Rightarrow> FrameType \<Rightarrow> CGstVideoFrame \<Rightarrow> bool" where
  "swap_env_ok E destType f \<longleftrightarrow>
     (case (m_pBuffer f, m_pSample f) of
        (Some b, Some s) \<Rightarrow> buf_map_ok b \<and> smp_caps s \<noteq> None \<and>
          alloc_aligned_buffer E (ucast (buf_size b)) \<noteq> None
      | _ \<Rightarrow> False) \<and> fe_sample_ok E \<and> fe_map_ok E \<and> (destType = ARGB \<or> destType = BGRA_PRE)"

lemma swap_env_okE:
  assumes "swap_env_ok E destType f"
  obtains b s caps base raw where "m_pBuffer f = Some b" "m_pSample f = Some s" "smp_caps s = Some caps"
    "buf_map_ok b" "alloc_aligned_buffer E (ucast (buf_size b)) = Some (base, raw)"
    "fe_sample_ok E" "fe_map_ok E" "destType = ARGB \<or> destType = BGRA_PRE"
  using assms by (auto simp: swap_env_ok_def split: option.splits)

lemma ConvertSwapRGB_loop:
  assumes "swap_env_ok E destType f"
  shows "\<exists>base str. ConvertSwapRGB E destType src dst0 f =
    (case swap_pixels (ucast (buf_size (the (m_pBuffer f)))) src dst0 f of
       Faults \<Rightarrow> Faults
     | Returns px \<Rightarrow> Returns (finish_swap E base (ucast (buf_size (the (m_pBuffer f)))) str px))"
proof -
  obtain b s caps base raw where e: "m_pBuffer f = Some b" "m_pSample f = Some s" "smp_caps s = Some caps"
    "buf_map_ok b" "alloc_aligned_buffer E (ucast (buf_size b)) = Some (base, raw)"
    "fe_sample_ok E" "fe_map_ok E" "destType = ARGB \<or> destType = BGRA_PRE"
    using assms by (rule swap_env_okE)
  from e(8) have d: "(destType \<noteq> ARGB \<and> destType \<noteq> BGRA_PRE) = False" by blast
  show ?thesis
    unfolding ConvertSwapRGB_def e(1,2) option.sel prod.case option.case Let_def e(3,5) d
    by (simp only: e(4,6,7) if_False not_True_eq_False) blast
qed

lemma finish_swap_pixels [simp]: "cr_pixels (finish_swap E base sz str px) = px"
  by (simp add: finish_swap_def split_beta Let_def)

text \<open>For a frame whose row stride is not a multiple of four bytes, with at least two rows and a
  buffer no longer than rows times stride, the row loop of \<^verbatim>\<open>ConvertSwapRGB\<close> leaves the buffer: it
  advances a \<^verbatim>\<open>guint32*\<close> by the stride in bytes.\<close>

theorem ConvertSwapRGB_unaligned_faults:
  assumes "swap_env_ok E destType f"
    and "m_puiPlaneStrides f ! 0 AND 3 \<noteq> 0"
    and "2 \<le> unat (m_uiHeight f)" "0 < unat (m_uiWidth f)"
    and "4 * length src \<le> unat (m_uiHeight f) * unat (m_puiPlaneStrides f ! 0)"
  shows "ConvertSwapRGB E destType src dst0 f = Faults"
proof -
  define s where "s = unat (m_puiPlaneStrides f ! 0)"
  define r where "r = unat (m_uiHeight f) - 2"
  with assms(3) have h: "unat (m_uiHeight f) = Suc (Suc r)" by simp
  have "Suc (Suc r) * s \<le> 4 * (Suc r * s)" by simp
  with assms(5) [folded s_def, unfolded h] have "length src \<le> Suc r * s" by linarith
  with assms(4) have "length src < 0 + Suc r * s + unat (m_uiWidth f)" by simp
  with assms(4) have "swap_rows (unat (m_uiHeight f)) (unat (m_uiWidth f)) s 0 src dst0 = Faults"
    unfolding h by (rule swap_rows_overrun)
  with assms(2) ConvertSwapRGB_loop [OF assms(1), of src dst0] show ?thesis
    by (auto simp: s_def swap_pixels_def)
qed


text \<open>A two by two frame of four-byte pixels with the given row stride.\<close>

definition demo_rgb_frame :: "u32 \<Rightarrow> CGstVideoFrame" where
  "demo_rgb_frame stride =
     (let b = \<lparr>buf_base = 64, buf_size = 16, buf_pts = 0, buf_offset = 0, buf_duration = 0,
               buf_discont = False, buf_map_ok = True\<rparr>
      in (CGstVideoFrame_new True 64 16)\<lparr>m_pBuffer := Some b,
           m_pSample := Some \<lparr>smp_buffer = Some b, smp_caps = Some [null_structure]\<rparr>,
           m_puiPlaneStrides := [stride, 0, 0, 0], m_uiWidth := 2, m_uiHeight := 2\<rparr>)"

lemmas demo_rgb_eval =
  demo_rgb_frame_def demo_env_def swap_env_ok_def alloc_aligned_buffer_def UINT_MAX_def
  CGstVideoFrame_new_def CVideoFrame_new_def CVideoFrame.defs Let_def

theorem ConvertSwapRGB_unaligned_faults_witness:
  "ConvertSwapRGB demo_env ARGB [1, 2, 3, 4] [0, 0, 0, 0] (demo_rgb_frame 9) = Faults"
  by (rule ConvertSwapRGB_unaligned_faults) (simp_all add: demo_rgb_eval)


subsection \<open>Conversions that succeed\<close>

text \<open>What both YCbCr conversions get from GStreamer, the allocator and the colour converter when
  nothing fails.\<close>

definition ycc_env_ok :: "frame_env \<Rightarrow> FrameType \<Rightarrow> CGstVideoFrame \<Rightarrow> u32 \<Rightarrow> u32 \<Rightarrow> addr \<Rightarrow> bool" where
  "ycc_env_ok E destType f stride alloc base \<longleftrightarrow>
     checked_rgb_size (m_uiEncodedWidth f) (m_uiEncodedHeight f) = Some (stride, alloc) \<and>
     (\<exists>raw. alloc_aligned_buffer E alloc = Some (base, raw)) \<and> m_pBuffer f \<noteq> None \<and>
     fe_map_ok E \<and> fe_sample_ok E \<and> (destType = ARGB \<or> destType = BGRA_PRE)"

text \<open>The frame a successful conversion hands out: one plane of the destination type that fills the
  new buffer.\<close>

definition converted :: "FrameType \<Rightarrow> CGstVideoFrame \<Rightarrow> u32 \<Rightarrow> u32 \<Rightarrow> addr \<Rightarrow> CGstVideoFrame \<Rightarrow> bool" where
  "converted destType f stride alloc base g \<longleftrightarrow>
     m_typeFrame g = destType \<and> IsValid g \<and> m_uiPlaneCount g = 1 \<and>
     m_pvPlaneData g ! 0 = Some base \<and> m_puiPlaneStrides g ! 0 = stride \<and>
     m_pulPlaneSize g ! 0 = ucast alloc \<and>
     m_uiWidth g = m_uiWidth f \<and> m_uiHeight g = m_uiHeight f \<and> sample_refs g = 1"

lemma finish_convert_ok:
  assumes sz: "checked_rgb_size (m_uiEncodedWidth f) (m_uiEncodedHeight f) = Some (stride, alloc)"
    and env: "fe_map_ok E" "fe_sample_ok E" "destType = ARGB \<or> destType = BGRA_PRE"
  shows "\<exists>g. finish_convert E destType f src base stride alloc 0 =
      Returns \<lparr>cr_frame = Some g, cr_refs = 0, cr_pixels = []\<rparr> \<and> converted destType f stride alloc base g"
proof -
  have s: "0 < m_uiEncodedHeight f" "unat stride * unat (m_uiEncodedHeight f) < 2 ^ 32"
    and al: "unat alloc = unat stride * unat (m_uiEncodedHeight f)"
    using checked_rgb_size_sound [OF sz] by auto
  then have "alloc = stride * m_uiEncodedHeight f"
    using unat_mult_fits [OF s(2)] by (simp add: word_unat_eq_iff)
  moreover have "CalcSize stride (m_uiEncodedHeight f) (Some True) = (ucast (stride * m_uiEncodedHeight f), Some True)"
    using s by (simp add: CalcSize_def mult_fits_iff)
  moreover have "CalcPlanePointer base 0 (ucast alloc) (ucast alloc) (Some True) = (Some base, Some True)"
    using unat_u32_less [of alloc] by (simp add: CalcPlanePointer_valid plane_fits_def)
  ultimately show ?thesis
    using env apply (elim disjE)
    by (simp_all add: finish_convert_def create_RGB_caps_def frame_Init_def caps_structure_def
        gst_caps_get_structure0_def SetFrameCaps_def classify_caps_def read_dimensions_def get_u32_def
        layout_packed_def set_stride_def set_plane_def SetPlaneCount_def Reset_def IsValid_def
        converted_def CGstVideoFrame_new_def CVideoFrame_new_def CVideoFrame.defs Let_def
        split: prod.splits)
qed

lemma finish_convert_failed:
  assumes "fe_sample_ok E" "destType = ARGB \<or> destType = BGRA_PRE" "status \<noteq> 0"
  shows "finish_convert E destType f src base stride alloc status = conv_null 2"
  using assms by (auto simp: finish_convert_def create_RGB_caps_def Let_def)

lemma finish_convert_result:
  assumes "ycc_env_ok E destType f stride alloc base"
  shows "if status = 0
    then \<exists>g. finish_convert E destType f src base stride alloc status =
           Returns \<lparr>cr_frame = Some g, cr_refs = 0, cr_pixels = []\<rparr> \<and> converted destType f stride alloc base g
    else finish_convert E destType f src base stride alloc status = conv_null 2"
proof (cases "status = 0")
  case True
  with assms show ?thesis unfolding ycc_env_ok_def by (simp add: finish_convert_ok)
next
  case False
  with assms show ?thesis unfolding ycc_env_ok_def by (simp add: finish_convert_failed)
qed

lemma convert_ycc_tail:
  assumes "ycc_env_ok E destType f stride alloc base"
  shows "\<exists>src. ConvertFromYCbCr420p E destType f =
      finish_convert E destType f src base stride alloc (fe_color_convert E (call_420p destType base stride f))"
    and "\<not> gst_m_bHasAlpha f \<Longrightarrow> \<exists>src. ConvertFromYCbCr422 E destType f =
      finish_convert E destType f src base stride alloc (fe_color_convert E (call_422 destType base stride f))"
  using assms by (auto simp: ycc_env_ok_def ConvertFromYCbCr420p_def ConvertFromYCbCr422_def)

text \<open>A planar YCbCr frame is converted for real: when the size checks pass and the allocation, the
  mapping and the colour converter succeed, the conversion returns a valid frame of the requested RGB
  type and of the same visible size, whose single plane is exactly the new buffer, with no reference
  lost.  When the colour converter reports a failure the result is \<^verbatim>\<open>NULL\<close> and two references
  (sample and buffer) are left behind.\<close>

theorem ConvertFromYCbCr420p_result:
  assumes "ycc_env_ok E destType f stride alloc base"
  shows "if fe_color_convert E (call_420p destType base stride f) = 0
    then \<exists>g. ConvertFromYCbCr420p E destType f = Returns \<lparr>cr_frame = Some g, cr_refs = 0, cr_pixels = []\<rparr> \<and>
           converted destType f stride alloc base g
    else ConvertFromYCbCr420p E destType f = conv_null 2"
proof -
  obtain src where r: "ConvertFromYCbCr420p E destType f = finish_convert E destType f src base stride alloc
      (fe_color_convert E (call_420p destType base stride f))"
    using convert_ycc_tail(1) [OF assms] by blast
  show ?thesis unfolding r by (rule finish_convert_result [OF assms(1)])
qed

text \<open>The same for packed YCbCr frames without alpha.\<close>

theorem ConvertFromYCbCr422_result:
  assumes "ycc_env_ok E destType f stride alloc base" "\<not> gst_m_bHasAlpha f"
  shows "if fe_color_convert E (call_422 destType base stride f) = 0
    then \<exists>g. ConvertFromYCbCr422 E destType f = Returns \<lparr>cr_frame = Some g, cr_refs = 0, cr_pixels = []\<rparr> \<and>
           converted destType f stride alloc base g
    else ConvertFromYCbCr422 E destType f = conv_null 2"
proof -
  obtain src where r: "ConvertFromYCbCr422 E destType f = finish_convert E destType f src base stride alloc
      (fe_color_convert E (call_422 destType base stride f))"
    using convert_ycc_tail(2) [OF assms] by blast
  show ?thesis unfolding r by (rule finish_convert_result [OF assms(1)])
qed

definition demo_ycc :: CGstVideoFrame where
  "demo_ycc = (demo_rgb_frame 8)\<lparr>m_uiEncodedWidth := 5, m_uiEncodedHeight := 3, gst_m_bHasAlpha := False\<rparr>"

lemma demo_ycc_ok: "ycc_env_ok demo_env BGRA_PRE demo_ycc 32 96 1008"
  by (simp add: ycc_env_ok_def demo_ycc_def demo_rgb_eval checked_rgb_size_def align16_eq)

theorem ConvertFromYCbCr420p_result_witness:
  "\<exists>g. ConvertFromYCbCr420p demo_env BGRA_PRE demo_ycc =
     Returns \<lparr>cr_frame = Some g, cr_refs = 0, cr_pixels = []\<rparr> \<and> converted BGRA_PRE demo_ycc 32 96 1008 g"
  using ConvertFromYCbCr420p_result [OF demo_ycc_ok] by (simp add: demo_env_def)

theorem ConvertFromYCbCr422_result_witness:
  "\<exists>g. ConvertFromYCbCr422 demo_env BGRA_PRE demo_ycc =
     Returns \<lparr>cr_frame = Some g, cr_refs = 0, cr_pixels = []\<rparr> \<and> converted BGRA_PRE demo_ycc 32 96 1008 g"
  using ConvertFromYCbCr422_result [OF demo_ycc_ok] by (simp add: demo_env_def demo_ycc_def)

subsection \<open>What a frame tells its consumer\<close>

lemma frame_Init_base_alpha: "m_bHasAlpha (snd (frame_Init s f)) = m_bHasAlpha f"
  by (simp add: frame_Init_def Let_def split: option.splits)

text \<open>A frame never reports an alpha channel: whatever sample it wraps, \<^verbatim>\<open>HasAlpha()\<close> of a frame
  that was constructed and initialised is false, because the caps are recorded in the member of
  \<^verbatim>\<open>CGstVideoFrame\<close> that hides the one \<^verbatim>\<open>HasAlpha\<close> reads.\<close>

theorem HasAlpha_never: "\<not> HasAlpha (snd (frame_Init s (CGstVideoFrame_new a0 b0 s0)))"
  unfolding HasAlpha_def frame_Init_base_alpha
  by (simp add: CGstVideoFrame_new_def CVideoFrame_new_def CVideoFrame.defs Reset_def)

text \<open>The validity and the time of the frame before \<^verbatim>\<open>SetFrameCaps\<close> do not influence it.\<close>

lemma classify_caps_forgets:
  "classify_caps str (f\<lparr>m_bIsValid := v\<rparr>) = classify_caps str f"
  by (simp add: classify_caps_def)

lemma SetFrameCaps_forgets_valid: "SetFrameCaps str (f\<lparr>m_bIsValid := v\<rparr>) = SetFrameCaps str f"
  by (simp add: SetFrameCaps_def classify_caps_forgets)

text \<open>\<^verbatim>\<open>Init\<close> marks a frame whose buffer has no valid timestamp as invalid, but the mark does not
  survive: the result is the one of \<^verbatim>\<open>SetFrameCaps\<close> on the unmarked frame, with time 0.\<close>

theorem frame_Init_bad_timestamp:
  assumes "smp_buffer s = Some b" "buf_map_ok b" "smp_caps s = Some caps"
    and "\<not> GST_BUFFER_TIMESTAMP_IS_VALID b"
  shows "frame_Init s f = (True, SetFrameCaps (caps_structure caps)
    (f\<lparr>m_pSample := Some s, sample_refs := sample_refs f + 1, m_pBuffer := Some b,
       m_ulBufferSize := buf_size b, m_pvBufferBaseAddress := buf_base b, m_dTime := 0\<rparr>))"
proof -
  have "SetFrameCaps str (g\<lparr>m_dTime := 0, m_bIsValid := False\<rparr>) = SetFrameCaps str (g\<lparr>m_dTime := 0\<rparr>)" for str g
    by (rule SetFrameCaps_forgets_valid)
  with assms show ?thesis by (simp add: frame_Init_def Let_def)
qed

definition demo_sample :: gst_sample where
  "demo_sample = \<lparr>smp_buffer = Some \<lparr>buf_base = 4096, buf_size = 12, buf_pts = GST_CLOCK_TIME_NONE,
     buf_offset = 0, buf_duration = 0, buf_discont = False, buf_map_ok = True\<rparr>,
   smp_caps = Some [demo_yuv]\<rparr>"

theorem frame_Init_bad_timestamp_witness:
  "let (ok, g) = frame_Init demo_sample demo_frame in ok \<and> IsValid g \<and> m_dTime g = 0"
  using frame_Init_bad_timestamp [of demo_sample "the (smp_buffer demo_sample)" "[demo_yuv]" demo_frame]
  by (simp add: demo_sample_def GST_BUFFER_TIMESTAMP_IS_VALID_def IsValid_def caps_structure_def
      gst_caps_get_structure0_def demo_yuv_def demo_frame_def frame_eval)

text \<open>The sample reference a frame takes is given back by its destructor, except when the buffer could
  not be mapped: then the destructor leaves it, and the sample leaks.\<close>

theorem frame_reference_balance:
  "sample_refs (CGstVideoFrame_delete (snd (frame_Init s (CGstVideoFrame_new a0 b0 s0)))) =
     (case smp_buffer s of None \<Rightarrow> 1 | Some b \<Rightarrow> if buf_map_ok b then 0 else 1)"
  by (simp add: frame_Init_def CGstVideoFrame_delete_def frame_Dispose_def CGstVideoFrame_new_def
      CVideoFrame_new_def CVideoFrame.defs Let_def split: option.split)

end
