(* ===== verification/Color_Converter.thy ===== *)
theory Color_Converter
  imports Color_Tables
begin

text \<open>
  \<^verbatim>\<open>Utils/ColorConverter.c\<close>, the portable implementation (the one compiled without SSE2, and the packed 4:2:2
  conversion of every build): a frame in planar or packed YCbCr becomes a BGRA image.  Memory is a function from
  addresses to bytes, so that reads and stores happen in the order of the source; the \<^verbatim>\<open>int32_t\<close> strides and
  sizes are integers, the products of strides and rows being assumed to fit.
\<close>

unbundle bit_operations_syntax

type_synonym byte = "8 word"
type_synonym mem = "int \<Rightarrow> byte"

subsection \<open>Clamping\<close>

definition TCLAMP_U8 :: "int \<Rightarrow> byte" where
  "TCLAMP_U8 val = word_of_int (color_tClip ! nat (288 * 2 + val))"

definition SCLAMP_U8 :: "int \<Rightarrow> byte" where
  "SCLAMP_U8 s =
     (let v = (word_of_int s :: 32 word);
          mask = signed_drop_bit 31 (v - 0x1fe)
      in ucast ((drop_bit 1 v OR NOT mask) AND NOT (signed_drop_bit 31 v)))"

text \<open>The tables are read at the value of a byte.\<close>

definition table :: "int list \<Rightarrow> byte \<Rightarrow> int" where
  "table t b = t ! unat b"

definition BBi :: int where "BBi = 554"
definition RRi :: int where "RRi = 446"

text \<open>\<^verbatim>\<open>sfr\<close>, \<^verbatim>\<open>sfg\<close> and \<^verbatim>\<open>sfb\<close> of a block, from its bytes \<^verbatim>\<open>sau[0]\<close> and \<^verbatim>\<open>sav[0]\<close>.\<close>

definition chroma :: "byte \<Rightarrow> byte \<Rightarrow> int \<times> int \<times> int" where
  "chroma sf1 sf2 = (table color_tRV sf2 - RRi, table color_tGU sf1 - table color_tGV sf2, table color_tBU sf1 - BBi)"

subsection \<open>Planar 4:2:0\<close>

text \<open>The pointers of one step of the inner loop: two rows of luma, chroma, two rows of the destination, two rows of
  alpha.\<close>

record ptr420 =
  say1 :: int
  say2 :: int
  sau :: int
  sav :: int
  da1 :: int
  da2 :: int
  a_col1 :: int
  a_col2 :: int

definition next_col420 :: "ptr420 \<Rightarrow> ptr420" where
  "next_col420 p = \<lparr>say1 = say1 p + 2, say2 = say2 p + 2, sau = sau p + 1, sav = sav p + 1, da1 = da1 p + 8,
     da2 = da2 p + 8, a_col1 = a_col1 p + 2, a_col2 = a_col2 p + 2\<rparr>"

definition next_row420 :: "int \<Rightarrow> int \<Rightarrow> int \<Rightarrow> int \<Rightarrow> int \<Rightarrow> ptr420 \<Rightarrow> ptr420" where
  "next_row420 bgra_stride y_stride u_stride v_stride a_stride p =
     \<lparr>say1 = say1 p + 2 * y_stride, say2 = say2 p + 2 * y_stride, sau = sau p + u_stride, sav = sav p + v_stride,
      da1 = da1 p + 2 * bgra_stride, da2 = da2 p + 2 * bgra_stride,
      a_col1 = a_col1 p + push_bit 1 a_stride, a_col2 = a_col2 p + push_bit 1 a_stride\<rparr>"

text \<open>The colours of four pixels.\<close>

definition colors420 :: "ptr420 \<Rightarrow> mem \<Rightarrow> mem" where
  "colors420 p m =
     (let (sfr, sfg, sfb) = chroma (m (sau p)) (m (sav p));
          sf01 = table color_tYY (m (say1 p));
          sf03 = table color_tYY (m (say1 p + 1));
          sf02 = table color_tYY (m (say2 p));
          sf04 = table color_tYY (m (say2 p + 1))
      in m(da1 p + 2 := TCLAMP_U8 (sf01 + sfr), da1 p + 1 := TCLAMP_U8 (sf01 + sfg), da1 p + 0 := SCLAMP_U8 (sf01 + sfb),
           da1 p + 6 := TCLAMP_U8 (sf03 + sfr), da1 p + 5 := TCLAMP_U8 (sf03 + sfg), da1 p + 4 := SCLAMP_U8 (sf03 + sfb),
           da2 p + 2 := TCLAMP_U8 (sf02 + sfr), da2 p + 1 := TCLAMP_U8 (sf02 + sfg), da2 p + 0 := SCLAMP_U8 (sf02 + sfb),
           da2 p + 6 := TCLAMP_U8 (sf04 + sfr), da2 p + 5 := SCLAMP_U8 (sf04 + sfg), da2 p + 4 := TCLAMP_U8 (sf04 + sfb)))"

definition copy_byte :: "int \<Rightarrow> int \<Rightarrow> mem \<Rightarrow> mem" where
  "copy_byte dst src m = m(dst := m src)"

definition block420_alpha :: "ptr420 \<Rightarrow> mem \<Rightarrow> mem" where
  "block420_alpha p m =
     copy_byte (da2 p + 7) (a_col2 p + 1) (copy_byte (da2 p + 3) (a_col2 p)
       (copy_byte (da1 p + 7) (a_col1 p + 1) (copy_byte (da1 p + 3) (a_col1 p) (colors420 p m))))"

definition block420 :: "ptr420 \<Rightarrow> mem \<Rightarrow> mem" where
  "block420 p m = (colors420 p m)(da2 p + 7 := 0xff, da2 p + 3 := 0xff, da1 p + 7 := 0xff, da1 p + 3 := 0xff)"

text \<open>\<^verbatim>\<open>for (i = 0; i < (width >> 1); i++)\<close> and \<^verbatim>\<open>for (j = 0; j < (height >> 1); j++)\<close>: the first argument counts the
  steps that remain.\<close>

fun cols420 :: "nat \<Rightarrow> (ptr420 \<Rightarrow> mem \<Rightarrow> mem) \<Rightarrow> ptr420 \<Rightarrow> mem \<Rightarrow> mem" where
  "cols420 0 block p m = m"
| "cols420 (Suc n) block p m = cols420 n block (next_col420 p) (block p m)"

fun rows420 :: "nat \<Rightarrow> nat \<Rightarrow> (ptr420 \<Rightarrow> ptr420) \<Rightarrow> (ptr420 \<Rightarrow> mem \<Rightarrow> mem) \<Rightarrow> ptr420 \<Rightarrow> mem \<Rightarrow> mem" where
  "rows420 0 w next block p m = m"
| "rows420 (Suc n) w next block p m = rows420 n w next block (next p) (cols420 w block p m)"

text \<open>The checks both variants start with; the pointer of the alpha plane is not among them.\<close>

definition args420_ok :: "int option \<Rightarrow> int \<Rightarrow> int \<Rightarrow> int option \<Rightarrow> int option \<Rightarrow> int option \<Rightarrow> bool" where
  "args420_ok bgra width height y v u \<longleftrightarrow>
     \<not> (bgra = None \<or> y = None \<or> u = None \<or> v = None) \<and> \<not> (width \<le> 0 \<or> height \<le> 0) \<and> (width OR height) AND 1 = 0"

definition start420 :: "int option \<Rightarrow> int \<Rightarrow> int option \<Rightarrow> int option \<Rightarrow> int option \<Rightarrow> int \<Rightarrow> int \<Rightarrow> int \<Rightarrow> ptr420" where
  "start420 bgra bgra_stride y v u a y_stride a_stride =
     \<lparr>say1 = the y, say2 = the y + y_stride, sau = the u, sav = the v, da1 = the bgra, da2 = the bgra + bgra_stride,
      a_col1 = a, a_col2 = a + a_stride\<rparr>"

definition ColorConvert_YCbCr420p_to_ARGB32 :: "mem \<Rightarrow> (int \<times> mem) outcome" where
  "ColorConvert_YCbCr420p_to_ARGB32 m = Returns (1, m)"

definition ColorConvert_YCbCr420p_to_ARGB32_no_alpha :: "mem \<Rightarrow> (int \<times> mem) outcome" where
  "ColorConvert_YCbCr420p_to_ARGB32_no_alpha m = Returns (1, m)"

definition ColorConvert_YCbCr420p_to_BGRA32 ::
  "int option \<Rightarrow> int \<Rightarrow> int \<Rightarrow> int \<Rightarrow> int option \<Rightarrow> int option \<Rightarrow> int option \<Rightarrow> int option \<Rightarrow> int \<Rightarrow> int \<Rightarrow> int \<Rightarrow> int
     \<Rightarrow> mem \<Rightarrow> (int \<times> mem) outcome" where
  "ColorConvert_YCbCr420p_to_BGRA32 bgra bgra_stride width height y v u a y_stride v_stride u_stride a_stride m =
     (if \<not> args420_ok bgra width height y v u then Returns (1, m)
      else case a of
        None \<Rightarrow> Faults
      | Some a \<Rightarrow> Returns (0, rows420 (nat (drop_bit 1 height)) (nat (drop_bit 1 width))
          (next_row420 bgra_stride y_stride u_stride v_stride a_stride) block420_alpha
          (start420 bgra bgra_stride y v u a y_stride a_stride) m))"

definition ColorConvert_YCbCr420p_to_BGRA32_no_alpha ::
  "int option \<Rightarrow> int \<Rightarrow> int \<Rightarrow> int \<Rightarrow> int option \<Rightarrow> int option \<Rightarrow> int option \<Rightarrow> int \<Rightarrow> int \<Rightarrow> int
     \<Rightarrow> mem \<Rightarrow> (int \<times> mem) outcome" where
  "ColorConvert_YCbCr420p_to_BGRA32_no_alpha bgra bgra_stride width height y v u y_stride v_stride u_stride m =
     (if \<not> args420_ok bgra width height y v u then Returns (1, m)
      else Returns (0, rows420 (nat (drop_bit 1 height)) (nat (drop_bit 1 width))
          (next_row420 bgra_stride y_stride u_stride v_stride 0) block420
          (start420 bgra bgra_stride y v u 0 y_stride 0) m))"

subsection \<open>Packed 4:2:2\<close>

record ptr422 =
  p_say1 :: int
  p_sau :: int
  p_sav :: int
  p_da1 :: int

definition next_col422 :: "ptr422 \<Rightarrow> ptr422" where
  "next_col422 p = \<lparr>p_say1 = p_say1 p + 4, p_sau = p_sau p + 4, p_sav = p_sav p + 4, p_da1 = p_da1 p + 8\<rparr>"

definition next_row422 :: "int \<Rightarrow> int \<Rightarrow> int \<Rightarrow> ptr422 \<Rightarrow> ptr422" where
  "next_row422 bgra_stride y_stride uv_stride p =
     \<lparr>p_say1 = p_say1 p + y_stride, p_sau = p_sau p + uv_stride, p_sav = p_sav p + uv_stride, p_da1 = p_da1 p + bgra_stride\<rparr>"

definition block422 :: "ptr422 \<Rightarrow> mem \<Rightarrow> mem" where
  "block422 p m =
     (let (sfr, sfg, sfb) = chroma (m (p_sau p)) (m (p_sav p));
          sf01 = table color_tYY (m (p_say1 p));
          sf03 = table color_tYY (m (p_say1 p + 2))
      in m(p_da1 p + 2 := TCLAMP_U8 (sf01 + sfr), p_da1 p + 1 := TCLAMP_U8 (sf01 + sfg), p_da1 p + 0 := SCLAMP_U8 (sf01 + sfb),
           p_da1 p + 6 := TCLAMP_U8 (sf03 + sfr), p_da1 p + 5 := TCLAMP_U8 (sf03 + sfg), p_da1 p + 4 := SCLAMP_U8 (sf03 + sfb),
           p_da1 p + 7 := 0xff, p_da1 p + 3 := 0xff))"

fun cols422 :: "nat \<Rightarrow> ptr422 \<Rightarrow> mem \<Rightarrow> mem" where
  "cols422 0 p m = m"
| "cols422 (Suc n) p m = cols422 n (next_col422 p) (block422 p m)"

fun rows422 :: "nat \<Rightarrow> nat \<Rightarrow> (ptr422 \<Rightarrow> ptr422) \<Rightarrow> ptr422 \<Rightarrow> mem \<Rightarrow> mem" where
  "rows422 0 w next p m = m"
| "rows422 (Suc n) w next p m = rows422 n w next (next p) (cols422 w p m)"

definition ColorConvert_YCbCr422p_to_ARGB32_no_alpha :: "mem \<Rightarrow> (int \<times> mem) outcome" where
  "ColorConvert_YCbCr422p_to_ARGB32_no_alpha m = Returns (1, m)"

definition ColorConvert_YCbCr422p_to_BGRA32_no_alpha ::
  "int option \<Rightarrow> int \<Rightarrow> int \<Rightarrow> int \<Rightarrow> int option \<Rightarrow> int option \<Rightarrow> int option \<Rightarrow> int \<Rightarrow> int \<Rightarrow> mem \<Rightarrow> (int \<times> mem) outcome" where
  "ColorConvert_YCbCr422p_to_BGRA32_no_alpha bgra bgra_stride width height y v u y_stride uv_stride m =
     (if bgra = None \<or> y = None \<or> u = None \<or> v = None then Returns (1, m)
      else if width \<le> 0 \<or> height \<le> 0 then Returns (1, m)
      else if width AND 1 \<noteq> 0 then Returns (1, m)
      else Returns (0, rows422 (nat height) (nat (drop_bit 1 width)) (next_row422 bgra_stride y_stride uv_stride)
          \<lparr>p_say1 = the y, p_sau = the u, p_sav = the v, p_da1 = the bgra\<rparr> m))"

end
