(* ===== verification/Color_Images.thy ===== *)
theory Color_Images
  imports Color_Converter
begin

text \<open>
  What the portable colour converter computes: both ways of clamping agree with a reference, the tables with the
  coefficients of the conversion, and the loops fill exactly the destination image with the reference colour of
  every pixel.  Loops of both layouts are handled by one locale of steps that write their own area.
\<close>

unbundle bit_operations_syntax
definition clamp8 :: "int \<Rightarrow> byte" where
  "clamp8 x = word_of_int (max 0 (min 255 x))"

lemma concat_pairs_nth:
  "i < 2 * n \<Longrightarrow> concat (map (\<lambda>k. [int k, int k]) [0..<n]) ! i = int (i div 2)"
proof (induction n)
  case (Suc n)
  have len: "length (concat (map (\<lambda>k. [int k, int k]) [0..<n])) = 2 * n"
    by (induction n) simp_all
  show ?case
  proof (cases "i < 2 * n")
    case True
    then show ?thesis using Suc len by (simp add: nth_append)
  next
    case False
    then have "i = 2 * n \<or> i = Suc (2 * n)" using Suc.prems by auto
    then show ?thesis using len by (auto simp: nth_append)
  qed
qed simp

lemma length_concat_pairs: "length (concat (map (\<lambda>k. [int k, int k]) [0..<n])) = 2 * n"
  by (induction n) simp_all

text \<open>The two clamping macros agree, and saturate half their argument, on the range the table covers.\<close>

lemma TCLAMP_clamp8:
  assumes "- 576 \<le> v" "v < 1088"
  shows "TCLAMP_U8 v = clamp8 (v div 2)"
proof -
  consider "v < 0" | "0 \<le> v" "v < 512" | "512 \<le> v" by linarith
  then show ?thesis
  proof cases
    case 1
    then have "nat (576 + v) < 576" using assms by simp
    then have "color_tClip ! nat (576 + v) = 0"
      unfolding color_tClip_runs by (simp add: nth_append del: upt_rec_numeral)
    with 1 show ?thesis by (simp add: TCLAMP_U8_def clamp8_def)
  next
    case 2
    then have n: "nat (576 + v) = 576 + nat v" by simp
    have "color_tClip ! nat (576 + v) = int (nat v div 2)"
      unfolding color_tClip_runs n using 2
      by (simp add: nth_append length_concat_pairs concat_pairs_nth del: upt_rec_numeral)
    with 2 show ?thesis by (simp add: TCLAMP_U8_def clamp8_def nat_div_distrib zdiv_int)
  next
    case 3
    then have n: "nat (576 + v) = 1088 + nat (v - 512)" using assms by simp
    have "color_tClip ! nat (576 + v) = 255"
      unfolding color_tClip_runs n using 3 assms
      by (simp add: nth_append length_concat_pairs del: upt_rec_numeral)
    with 3 show ?thesis by (simp add: TCLAMP_U8_def clamp8_def)
  qed
qed

lemma sign_mask: "signed_drop_bit 31 (w :: 32 word) = (if sint w < 0 then - 1 else 0)"
proof -
  have "- (2 ^ 31) \<le> sint w" "sint w < 2 ^ 31"
    using sint_greater_eq [of w] sint_less [of w] by simp_all
  then have "drop_bit 31 (sint w) = (if sint w < 0 then - 1 else 0)"
    by (auto simp: drop_bit_eq_div div_eq_minus1 div_pos_pos_trivial)
  then have "sint (signed_drop_bit 31 w) = sint (if sint w < 0 then - 1 else 0 :: 32 word)"
    by (simp add: sint_signed_drop_bit_eq)
  then show ?thesis by (simp add: signed_word_eqI)
qed

lemma SCLAMP_clamp8:
  assumes "- (2 ^ 30) \<le> v" "v < 2 ^ 30"
  shows "SCLAMP_U8 v = clamp8 (v div 2)"
proof -
  have small: "sint (word_of_int w :: 32 word) = w" if "- (2 ^ 31) \<le> w" "w < 2 ^ 31" for w
    using that by (simp add: int_word_sint)
  have s: "sint (word_of_int v :: 32 word) = v"
    by (rule small) (use assms in simp_all)
  have "(word_of_int v - 0x1fe :: 32 word) = word_of_int (v - 510)"
    by simp
  moreover have "sint (word_of_int (v - 510) :: 32 word) = v - 510"
    by (rule small) (use assms in simp_all)
  ultimately have s': "sint (word_of_int v - 0x1fe :: 32 word) = v - 510"
    by (simp only:)
  consider "v < 0" | "0 \<le> v" "v < 510" | "510 \<le> v" by linarith
  then show ?thesis
  proof cases
    case 1
    then show ?thesis by (simp add: SCLAMP_U8_def Let_def sign_mask s s' clamp8_def)
  next
    case 2
    then have "ucast (drop_bit 1 (word_of_int v :: 32 word)) = (word_of_int (v div 2) :: byte)"
    proof -
      have "uint (drop_bit 1 (word_of_int v :: 32 word)) = v div 2"
        using 2 by (simp add: drop_bit_eq_div uint_div unsigned_of_int take_bit_int_eq_self)
      then show ?thesis by (metis ucast_eq)
    qed
    with 2 show ?thesis by (simp add: SCLAMP_U8_def Let_def sign_mask s s' clamp8_def)
  next
    case 3
    moreover have "ucast (- 1 :: 32 word) = (255 :: byte)" by code_simp
    ultimately show ?thesis by (simp add: SCLAMP_U8_def Let_def sign_mask s s' clamp8_def)
  qed
qed

subsection \<open>The colour of a pixel\<close>

lemma unat_byte: "unat (b :: byte) < 256"
proof -
  have "unat b < 2 ^ LENGTH(8)" by (rule unsigned_less)
  then show ?thesis by simp
qed

lemma uint_byte: "0 \<le> uint (b :: byte)" "uint b \<le> 255"
proof -
  have "uint b < 2 ^ LENGTH(8)" by (rule unsigned_less)
  then show "uint b \<le> 255" by simp
qed simp

lemma table_map: "t = map f [0..<256] \<Longrightarrow> table t b = f (unat b)"
  unfolding table_def using unat_byte [of b] by (simp del: upt_rec_numeral)

lemmas tables_at = table_formulas [THEN table_map, unfolded uint_nat [symmetric]]

lemma table_in: "length t = 256 \<Longrightarrow> list_all P t \<Longrightarrow> P (table t b)"
  using unat_byte [of b] by (simp add: table_def list_all_length)

lemma table_range:
  "0 \<le> table color_tYY b" "table color_tYY b \<le> 594"
  "0 \<le> table color_tRV b" "table color_tRV b \<le> 814"
  "71 \<le> table color_tGU b" "table color_tGU b \<le> 271"
  "0 \<le> table color_tGV b" "table color_tGV b \<le> 415"
  "0 \<le> table color_tBU b" "table color_tBU b \<le> 1029"
  by (rule table_in; code_simp)+

text \<open>The channels of a pixel in half units, before they are clamped: blue, green, red.\<close>

definition half_channel :: "int \<Rightarrow> byte \<Rightarrow> byte \<Rightarrow> byte \<Rightarrow> int" where
  "half_channel c y u v = table color_tYY y +
     (if c = 0 then table color_tBU u - BBi else if c = 1 then table color_tGU u - table color_tGV v else table color_tRV v - RRi)"

lemma half_channel_range: "- 576 \<le> half_channel c y u v" "half_channel c y u v < 1088"
  using table_range [of y] table_range [of u] table_range [of v]
  unfolding half_channel_def BBi_def RRi_def by auto


text \<open>The reference: the colour a pixel has, channel by channel, and the coefficients it stands for.\<close>

definition pixel :: "int \<Rightarrow> byte \<Rightarrow> byte \<Rightarrow> byte \<Rightarrow> byte" where
  "pixel c y u v = clamp8 (half_channel c y u v div 2)"

definition bt601 :: "int \<Rightarrow> real \<Rightarrow> real \<Rightarrow> real \<Rightarrow> real" where
  "bt601 c y u v = 1.1644 * y +
     (if c = 0 then 2.0184 * u - 276.9856 else if c = 1 then 135.6352 - 0.3920 * u - 0.8132 * v else 1.5966 * v - 222.9952)"

lemma TCLAMP_pixel: "TCLAMP_U8 (half_channel c y u v) = pixel c y u v"
  and SCLAMP_pixel: "SCLAMP_U8 (half_channel c y u v) = pixel c y u v"
  using half_channel_range [of c y u v] by (simp_all add: pixel_def TCLAMP_clamp8 SCLAMP_clamp8)

lemma div_bounds: "(0 :: int) < d \<Longrightarrow> d * (n div d) \<le> n" "(0 :: int) < d \<Longrightarrow> n < d * (n div d) + d"
  by (simp_all add: minus_mod_eq_mult_div [symmetric])

lemma table_error:
  fixes b :: byte
  defines "x \<equiv> real_of_int (uint b)"
  shows "\<bar>real_of_int (table color_tYY b) - 2 * 1.1644 * x\<bar> \<le> 0.50000001"
    "\<bar>real_of_int (table color_tRV b) - 2 * 1.5966 * x\<bar> \<le> 0.50000001"
    "\<bar>real_of_int (table color_tGU b) - (2 * 135.6352 - 2 * 0.3920 * x)\<bar> \<le> 0.50000001"
    "\<bar>real_of_int (table color_tGV b) - 2 * 0.8132 * x\<bar> \<le> 0.50000001"
    "\<bar>real_of_int (table color_tBU b) - 2 * 2.0184 * x\<bar> \<le> 0.50000001"
proof -
  have r: "10 ^ 8 * real_of_int (n div 10 ^ 8) \<le> real_of_int n \<and> real_of_int n < 10 ^ 8 * real_of_int (n div 10 ^ 8) + 10 ^ 8" for n :: int
    using div_bounds [of "10 ^ 8" n] by auto
  show "\<bar>real_of_int (table color_tYY b) - 2 * 1.1644 * x\<bar> \<le> 0.50000001"
    using r [of "2 * 11644 * 10000 * uint b + 49999999"] unfolding tables_at x_def abs_le_iff by auto
  show "\<bar>real_of_int (table color_tRV b) - 2 * 1.5966 * x\<bar> \<le> 0.50000001"
    using r [of "2 * 15966 * 10000 * uint b + 49999999"] unfolding tables_at x_def abs_le_iff by auto
  show "\<bar>real_of_int (table color_tGU b) - (2 * 135.6352 - 2 * 0.3920 * x)\<bar> \<le> 0.50000001"
    using r [of "2 * 1356352 * 10000 - 2 * 3920 * 10000 * uint b + 49999999"] unfolding tables_at x_def abs_le_iff by auto
  show "\<bar>real_of_int (table color_tGV b) - 2 * 0.8132 * x\<bar> \<le> 0.50000001"
    using r [of "2 * 8132 * 10000 * uint b + 49999999"] unfolding tables_at x_def abs_le_iff by auto
  show "\<bar>real_of_int (table color_tBU b) - 2 * 2.0184 * x\<bar> \<le> 0.50000001"
    using r [of "2 * 20184 * 10000 * uint b + 49999999"] unfolding tables_at x_def abs_le_iff by auto
qed

lemma uint_clamp8: "uint (clamp8 x) = max 0 (min 255 x)"
  by (simp add: clamp8_def unsigned_of_int take_bit_int_eq_self)

lemma clamp_error: "\<bar>real_of_int k - x\<bar> \<le> e \<Longrightarrow> \<bar>real_of_int (max 0 (min 255 k)) - max 0 (min 255 x)\<bar> \<le> e"
  by (auto simp: max_def min_def abs_le_iff)

lemma pixel_error:
  "\<bar>real_of_int (uint (pixel c y u v)) - max 0 (min 255 (bt601 c (uint y) (uint u) (uint v)))\<bar> \<le> 1.27"
  unfolding pixel_def uint_clamp8
proof (rule clamp_error)
  define h where "h = half_channel c y u v"
  have "2 * (h div 2) \<le> h" "h < 2 * (h div 2) + 2"
    by (simp_all add: minus_mod_eq_mult_div [symmetric])
  then have q: "2 * real_of_int (h div 2) \<le> real_of_int h" "real_of_int h \<le> 2 * real_of_int (h div 2) + 1"
    by linarith+
  have "\<bar>real_of_int h - 2 * bt601 c (uint y) (uint u) (uint v)\<bar> \<le> 1.54"
    using table_error(1) [of y] table_error(5) [of u] table_error(3) [of u] table_error(4) [of v] table_error(2) [of v]
    unfolding h_def half_channel_def bt601_def BBi_def RRi_def abs_le_iff
    by (cases "c = 0"; cases "c = 1") simp_all
  with q show "\<bar>real_of_int (half_channel c y u v div 2) - bt601 c (uint y) (uint u) (uint v)\<bar> \<le> 1.27"
    unfolding h_def [symmetric] abs_le_iff by auto
qed

definition near :: "byte \<Rightarrow> real \<Rightarrow> bool" where
  "near b x \<longleftrightarrow> \<bar>real_of_int (uint b) - max 0 (min 255 x)\<bar> \<le> 1.27"

lemma near_channel:
  "near (TCLAMP_U8 (half_channel c y u v)) (bt601 c (uint y) (uint u) (uint v))"
  "near (SCLAMP_U8 (half_channel c y u v)) (bt601 c (uint y) (uint u) (uint v))"
  unfolding TCLAMP_pixel SCLAMP_pixel near_def by (rule pixel_error)+

text \<open>C35: Every channel the table-driven converter computes, with either clamping macro, is within 1.27 of the value that the conversion formula with
  its documented coefficients gives, saturated to a byte: the tables are the coefficients, no index leaves the clip
  table, and no intermediate value wraps around.\<close>

theorem pixel_accuracy:
  "case chroma u v of (sfr, sfg, sfb) \<Rightarrow>
     near (TCLAMP_U8 (table color_tYY y + sfr)) (bt601 2 (uint y) (uint u) (uint v)) \<and>
     near (TCLAMP_U8 (table color_tYY y + sfg)) (bt601 1 (uint y) (uint u) (uint v)) \<and>
     near (SCLAMP_U8 (table color_tYY y + sfg)) (bt601 1 (uint y) (uint u) (uint v)) \<and>
     near (TCLAMP_U8 (table color_tYY y + sfb)) (bt601 0 (uint y) (uint u) (uint v)) \<and>
     near (SCLAMP_U8 (table color_tYY y + sfb)) (bt601 0 (uint y) (uint u) (uint v))"
proof -
  have "table color_tYY y + (table color_tRV v - RRi) = half_channel 2 y u v"
    "table color_tYY y + (table color_tGU u - table color_tGV v) = half_channel 1 y u v"
    "table color_tYY y + (table color_tBU u - BBi) = half_channel 0 y u v"
    by (simp_all add: half_channel_def)
  then show ?thesis
    unfolding chroma_def prod.case by (simp only: near_channel simp_thms)
qed

subsection \<open>Loops that fill an image\<close>

text \<open>A step of a pixel loop writes the addresses of its area from the addresses it reads, and nothing else.\<close>

locale pixel_writer =
  fixes block :: "'p \<Rightarrow> mem \<Rightarrow> mem" and area :: "'p \<Rightarrow> int set" and reads :: "'p \<Rightarrow> int set"
  assumes outside: "a \<notin> area p \<Longrightarrow> block p m a = m a"
    and determined: "a \<in> area p \<Longrightarrow> (\<And>b. b \<in> reads p \<Longrightarrow> m b = m' b) \<Longrightarrow> block p m a = block p m' a"
begin

lemma fold_outside: "(\<And>p. p \<in> set ps \<Longrightarrow> a \<notin> area p) \<Longrightarrow> fold block ps m a = m a"
  by (induction ps arbitrary: m) (simp_all add: outside)

text \<open>When no two steps share an address and none reads what another writes, the order of the steps does not matter:
  every address holds what its own step writes into the memory at the start.\<close>

lemma fold_inside:
  assumes "p \<in> set ps" "a \<in> area p"
    and "\<And>p q. p \<in> set ps \<Longrightarrow> q \<in> set ps \<Longrightarrow> area p \<inter> area q \<noteq> {} \<Longrightarrow> p = q"
    and "\<And>p q. p \<in> set ps \<Longrightarrow> q \<in> set ps \<Longrightarrow> reads p \<inter> area q = {}"
  shows "fold block ps m a = block p m a"
  using assms
proof (induction ps arbitrary: m)
  case (Cons q qs)
  show ?case
  proof (cases "p \<in> set qs")
    case True
    have "fold block qs (block q m) a = block p (block q m) a"
      by (rule Cons.IH) (use True Cons.prems in auto)
    also have "\<dots> = block p m a"
    proof (rule determined)
      show "block q m b = m b" if "b \<in> reads p" for b
        using Cons.prems(4) [OF Cons.prems(1), of q] that by (auto intro: outside)
    qed (use Cons.prems in auto)
    finally show ?thesis by simp
  next
    case False
    then have "p = q" using Cons.prems(1) by simp
    moreover have "a \<notin> area r" if "r \<in> set qs" for r
      using Cons.prems(2) Cons.prems(3) [of p r] that False \<open>p = q\<close> by auto
    ultimately show ?thesis by (simp add: fold_outside)
  qed
qed simp

end


lemma upd_agree: "(a \<noteq> x \<Longrightarrow> f a = g a) \<Longrightarrow> v = w \<Longrightarrow> (f(x := v)) a = (g(x := w)) a"
  by simp

lemma copy_agree: "(a \<noteq> d \<Longrightarrow> f a = g a) \<Longrightarrow> f s = g s \<Longrightarrow> copy_byte d s f a = copy_byte d s g a"
  by (simp add: copy_byte_def)

definition area420 :: "ptr420 \<Rightarrow> int set" where
  "area420 p = {da1 p, da1 p + 1, da1 p + 2, da1 p + 3, da1 p + 4, da1 p + 5, da1 p + 6, da1 p + 7} \<union>
     {da2 p, da2 p + 1, da2 p + 2, da2 p + 3, da2 p + 4, da2 p + 5, da2 p + 6, da2 p + 7}"

definition reads420 :: "ptr420 \<Rightarrow> int set" where
  "reads420 p = {say1 p, say1 p + 1, say2 p, say2 p + 1, sau p, sav p}"

definition reads420_alpha :: "ptr420 \<Rightarrow> int set" where
  "reads420_alpha p = reads420 p \<union> {a_col1 p, a_col1 p + 1, a_col2 p, a_col2 p + 1}"

lemma colors420_agree:
  assumes "\<And>b. b \<in> reads420 p \<Longrightarrow> m b = m' b"
    and "a \<notin> {da1 p, da1 p + 1, da1 p + 2, da1 p + 4, da1 p + 5, da1 p + 6} \<Longrightarrow> a \<notin> {da2 p, da2 p + 1, da2 p + 2, da2 p + 4, da2 p + 5, da2 p + 6} \<Longrightarrow> m a = m' a"
  shows "colors420 p m a = colors420 p m' a"
proof -
  have eqs: "m (say1 p) = m' (say1 p)" "m (say1 p + 1) = m' (say1 p + 1)" "m (say2 p) = m' (say2 p)"
    "m (say2 p + 1) = m' (say2 p + 1)" "m (sau p) = m' (sau p)" "m (sav p) = m' (sav p)"
    using assms(1) by (simp_all add: reads420_def)
  show ?thesis
    unfolding colors420_def eqs Let_def split_beta
    by (intro upd_agree refl) (rule assms(2); simp)
qed

lemma colors420_outside: "a \<notin> area420 p \<Longrightarrow> colors420 p m a = m a"
  by (auto simp: area420_def colors420_def Let_def split_beta)

interpretation w420: pixel_writer block420 area420 reads420
proof
  show "block420 p m a = m a" if "a \<notin> area420 p" for a p m
    using that by (auto simp: block420_def colors420_outside area420_def)
  show "block420 p m a = block420 p m' a" if "a \<in> area420 p" "\<And>b. b \<in> reads420 p \<Longrightarrow> m b = m' b" for a p m m'
    unfolding block420_def using that
    by (intro upd_agree refl colors420_agree) (auto simp: area420_def)
qed

interpretation w420a: pixel_writer block420_alpha area420 reads420_alpha
proof
  show "block420_alpha p m a = m a" if "a \<notin> area420 p" for a p m
    using that by (auto simp: block420_alpha_def copy_byte_def colors420_outside area420_def)
  show "block420_alpha p m a = block420_alpha p m' a" if a: "a \<in> area420 p" and r: "\<And>b. b \<in> reads420_alpha p \<Longrightarrow> m b = m' b" for a p m m'
  proof -
    define agree where "agree f g \<longleftrightarrow> (\<forall>b \<in> reads420_alpha p. f b = (g b :: byte))" for f g
    have c: "agree (colors420 p m) (colors420 p m')"
      using r unfolding agree_def by (intro ballI colors420_agree) (auto simp: reads420_alpha_def)
    have copy: "agree (copy_byte d s f) (copy_byte d s g)" if "agree f g" "s \<in> reads420_alpha p" for d s f g
      using that unfolding agree_def by (intro ballI copy_agree) auto
    have s: "agree f g \<Longrightarrow> x \<in> reads420_alpha p \<Longrightarrow> f x = g x" for f g x
      by (simp add: agree_def)
    have srcs: "a_col1 p \<in> reads420_alpha p" "a_col1 p + 1 \<in> reads420_alpha p" "a_col2 p \<in> reads420_alpha p" "a_col2 p + 1 \<in> reads420_alpha p"
      by (simp_all add: reads420_alpha_def)
    show ?thesis
      unfolding block420_alpha_def
    proof (rule copy_agree, rule copy_agree, rule copy_agree, rule copy_agree, rule colors420_agree, goal_cases)
      case 1
      then show ?case using r by (simp add: reads420_alpha_def)
    next
      case 2
      then show ?case using a by (simp add: area420_def)
    qed (rule s; intro copy c srcs)+
  qed
qed


text \<open>What one step writes, in terms of the reference.\<close>

lemma pixel_T:
  "pixel 0 y u v = TCLAMP_U8 (table color_tYY y + (table color_tBU u - BBi))"
  "pixel 1 y u v = TCLAMP_U8 (table color_tYY y + (table color_tGU u - table color_tGV v))"
  "pixel 2 y u v = TCLAMP_U8 (table color_tYY y + (table color_tRV v - RRi))"
  using TCLAMP_pixel [of 0 y u v] TCLAMP_pixel [of 1 y u v] TCLAMP_pixel [of 2 y u v] by (simp_all add: half_channel_def)

lemma pixel_S:
  "SCLAMP_U8 (table color_tYY y + (table color_tBU u - BBi)) = TCLAMP_U8 (table color_tYY y + (table color_tBU u - BBi))"
  "SCLAMP_U8 (table color_tYY y + (table color_tGU u - table color_tGV v)) = TCLAMP_U8 (table color_tYY y + (table color_tGU u - table color_tGV v))"
  using SCLAMP_pixel [of 0 y u v] SCLAMP_pixel [of 1 y u v] by (simp_all add: half_channel_def pixel_T)

definition bgra :: "byte \<Rightarrow> int \<Rightarrow> byte \<Rightarrow> byte \<Rightarrow> byte \<Rightarrow> byte" where
  "bgra alpha c y u v = (if c = 3 then alpha else pixel c y u v)"

lemma four: "(0 :: int) \<le> c \<Longrightarrow> c < 4 \<Longrightarrow> c = 0 \<or> c = 1 \<or> c = 2 \<or> c = 3"
  and two: "(0 :: int) \<le> k \<Longrightarrow> k < 2 \<Longrightarrow> k = 0 \<or> k = 1"
  by linarith+

lemma colors420_at:
  assumes "da1 p + 8 \<le> da2 p"
  shows
  "colors420 p m (da1 p) = pixel 0 (m (say1 p)) (m (sau p)) (m (sav p))"
  "colors420 p m (da1 p + 1) = pixel 1 (m (say1 p)) (m (sau p)) (m (sav p))"
  "colors420 p m (da1 p + 2) = pixel 2 (m (say1 p)) (m (sau p)) (m (sav p))"
  "colors420 p m (da1 p + 4) = pixel 0 (m (say1 p + 1)) (m (sau p)) (m (sav p))"
  "colors420 p m (da1 p + 5) = pixel 1 (m (say1 p + 1)) (m (sau p)) (m (sav p))"
  "colors420 p m (da1 p + 6) = pixel 2 (m (say1 p + 1)) (m (sau p)) (m (sav p))"
  "colors420 p m (da2 p) = pixel 0 (m (say2 p)) (m (sau p)) (m (sav p))"
  "colors420 p m (da2 p + 1) = pixel 1 (m (say2 p)) (m (sau p)) (m (sav p))"
  "colors420 p m (da2 p + 2) = pixel 2 (m (say2 p)) (m (sau p)) (m (sav p))"
  "colors420 p m (da2 p + 4) = pixel 0 (m (say2 p + 1)) (m (sau p)) (m (sav p))"
  "colors420 p m (da2 p + 5) = pixel 1 (m (say2 p + 1)) (m (sau p)) (m (sav p))"
  "colors420 p m (da2 p + 6) = pixel 2 (m (say2 p + 1)) (m (sau p)) (m (sav p))"
  using assms by (simp_all add: colors420_def Let_def chroma_def pixel_S pixel_T)

lemma block420_value:
  assumes "da1 p + 8 \<le> da2 p" "0 \<le> k" "k < 2" "0 \<le> c" "c < 4"
  shows "block420 p m (da1 p + (4 * k + c)) = bgra 255 c (m (say1 p + k)) (m (sau p)) (m (sav p))"
    and "block420 p m (da2 p + (4 * k + c)) = bgra 255 c (m (say2 p + k)) (m (sau p)) (m (sav p))"
  using four [OF assms(4,5)] two [OF assms(2,3)] assms(1)
  by (elim disjE; simp add: block420_def colors420_at [OF assms(1)] bgra_def)+

lemma block420_alpha_value:
  assumes "da1 p + 8 \<le> da2 p" "0 \<le> k" "k < 2" "0 \<le> c" "c < 4" "reads420_alpha p \<inter> area420 p = {}"
  shows "block420_alpha p m (da1 p + (4 * k + c)) = bgra (m (a_col1 p + k)) c (m (say1 p + k)) (m (sau p)) (m (sav p))"
    and "block420_alpha p m (da2 p + (4 * k + c)) = bgra (m (a_col2 p + k)) c (m (say2 p + k)) (m (sau p)) (m (sav p))"
proof -
  have out: "x \<notin> area420 p" if "x \<in> {a_col1 p, a_col1 p + 1, a_col2 p, a_col2 p + 1}" for x
    using assms(6) that by (auto simp: reads420_alpha_def)
  have n: "colors420 p m x = m x" "x \<noteq> da1 p + 3" "x \<noteq> da1 p + 7" "x \<noteq> da2 p + 3" "x \<noteq> da2 p + 7"
    if "x \<in> {a_col1 p, a_col1 p + 1, a_col2 p, a_col2 p + 1}" for x
    using out [OF that] colors420_outside by (auto simp: area420_def)
  have nn: "colors420 p m (a_col1 p) = m (a_col1 p)" "colors420 p m (a_col1 p + 1) = m (a_col1 p + 1)"
    "colors420 p m (a_col2 p) = m (a_col2 p)" "colors420 p m (a_col2 p + 1) = m (a_col2 p + 1)"
    by (simp_all add: n)
  note dist = n(2-5) [of "a_col1 p"] n(2-5) [of "a_col1 p + 1"] n(2-5) [of "a_col2 p"] n(2-5) [of "a_col2 p + 1"]
  show "block420_alpha p m (da1 p + (4 * k + c)) = bgra (m (a_col1 p + k)) c (m (say1 p + k)) (m (sau p)) (m (sav p))"
    and "block420_alpha p m (da2 p + (4 * k + c)) = bgra (m (a_col2 p + k)) c (m (say2 p + k)) (m (sau p)) (m (sav p))"
    using four [OF assms(4,5)] two [OF assms(2,3)] assms(1) dist
    by (elim disjE; simp add: block420_alpha_def copy_byte_def bgra_def nn colors420_at [OF assms(1)])+
qed

text \<open>The pointers of step \<open>i\<close> of row pair \<open>j\<close>, and both loops as one sequence of steps.\<close>

definition at420 :: "int \<Rightarrow> int \<Rightarrow> int \<Rightarrow> int \<Rightarrow> int \<Rightarrow> ptr420 \<Rightarrow> nat \<Rightarrow> nat \<Rightarrow> ptr420" where
  "at420 ds ys us vs as p j i =
     \<lparr>say1 = say1 p + 2 * int j * ys + 2 * int i, say2 = say2 p + 2 * int j * ys + 2 * int i,
      sau = sau p + int j * us + int i, sav = sav p + int j * vs + int i,
      da1 = da1 p + 2 * int j * ds + 8 * int i, da2 = da2 p + 2 * int j * ds + 8 * int i,
      a_col1 = a_col1 p + 2 * int j * as + 2 * int i, a_col2 = a_col2 p + 2 * int j * as + 2 * int i\<rparr>"

lemma at420_simps [simp]:
  "at420 ds ys us vs as p 0 0 = p"
  "next_col420 (at420 ds ys us vs as p j i) = at420 ds ys us vs as p j (Suc i)"
  "next_row420 ds ys us vs as (at420 ds ys us vs as p j 0) = at420 ds ys us vs as p (Suc j) 0"
  by (simp_all add: at420_def next_col420_def next_row420_def push_bit_Suc algebra_simps)

lemma cols420_fold: "cols420 n block (at420 ds ys us vs as p j k) m = fold block (map (\<lambda>i. at420 ds ys us vs as p j (k + i)) [0..<n]) m"
  by (induction n arbitrary: k m) (simp_all add: map_upt_Suc del: upt_Suc)

lemma rows420_fold:
  "rows420 n w (next_row420 ds ys us vs as) block (at420 ds ys us vs as p j 0) m =
     fold block (concat (map (\<lambda>j'. map (at420 ds ys us vs as p (j + j')) [0..<w]) [0..<n])) m"
  by (induction n arbitrary: j m) (simp_all add: map_upt_Suc cols420_fold del: upt_Suc)

definition steps420 :: "int \<Rightarrow> int \<Rightarrow> int \<Rightarrow> int \<Rightarrow> int \<Rightarrow> ptr420 \<Rightarrow> nat \<Rightarrow> nat \<Rightarrow> ptr420 list" where
  "steps420 ds ys us vs as p n w = concat (map (\<lambda>j. map (at420 ds ys us vs as p j) [0..<w]) [0..<n])"

lemma rows420_steps: "rows420 n w (next_row420 ds ys us vs as) block p m = fold block (steps420 ds ys us vs as p n w) m"
  using rows420_fold [of n w ds ys us vs as block p 0 m] by (simp add: steps420_def)

lemma set_steps420: "set (steps420 ds ys us vs as p n w) = (\<Union>j \<in> {..<n}. at420 ds ys us vs as p j ` {..<w})"
  by (auto simp: steps420_def)

lemma area420_iff: "a \<in> area420 p \<longleftrightarrow> da1 p \<le> a \<and> a < da1 p + 8 \<or> da2 p \<le> a \<and> a < da2 p + 8"
  unfolding area420_def Un_iff insert_iff empty_iff by presburger

text \<open>Rows of a destination whose stride holds a row do not overlap.\<close>

lemma row_col:
  assumes "0 \<le> k" "k < (ds :: int)"
  shows "(r * ds + k) div ds = r" "(r * ds + k) mod ds = k"
  using assms by simp_all

lemma area_at420:
  assumes "da2 p = da1 p + ds" "a \<in> area420 (at420 ds ys us vs as p j i)"
  shows "\<exists>r k. a - da1 p = (2 * int j + r) * ds + (8 * int i + k) \<and> (r = 0 \<or> r = 1) \<and> 0 \<le> k \<and> k < 8"
proof -
  let ?q = "at420 ds ys us vs as p j i"
  consider "da1 ?q \<le> a \<and> a < da1 ?q + 8" | "da2 ?q \<le> a \<and> a < da2 ?q + 8"
    using assms(2) unfolding area420_iff by blast
  then show ?thesis
  proof cases
    case 1
    then have "a - da1 p = (2 * int j + 0) * ds + (8 * int i + (a - da1 ?q))" "0 \<le> a - da1 ?q" "a - da1 ?q < 8"
      by (simp_all add: at420_def)
    then show ?thesis by blast
  next
    case 2
    then have "a - da1 p = (2 * int j + 1) * ds + (8 * int i + (a - da2 ?q))" "0 \<le> a - da2 ?q" "a - da2 ?q < 8"
      by (simp_all add: at420_def assms(1) algebra_simps)
    then show ?thesis by blast
  qed
qed

lemma area_at420_div:
  assumes "da2 p = da1 p + ds" "8 * int w \<le> ds" "i < w" "a \<in> area420 (at420 ds ys us vs as p j i)"
  shows "(a - da1 p) div ds div 2 = int j" "(a - da1 p) mod ds div 8 = int i"
    "0 \<le> (a - da1 p) mod ds" "(a - da1 p) mod ds < 8 * int w"
proof -
  obtain r k where rk: "a - da1 p = (2 * int j + r) * ds + (8 * int i + k)" "r = 0 \<or> r = 1" "0 \<le> k" "k < 8"
    using area_at420 [OF assms(1,4)] by blast
  have "8 * int i + k < 8 * int w" using assms(3) rk(4) by linarith
  then have b: "0 \<le> 8 * int i + k" "8 * int i + k < ds" using assms(2) rk(3) by linarith+
  show "(a - da1 p) div ds div 2 = int j" "(a - da1 p) mod ds div 8 = int i"
    "0 \<le> (a - da1 p) mod ds" "(a - da1 p) mod ds < 8 * int w"
    unfolding rk(1) row_col [OF b] using rk(2-4) \<open>8 * int i + k < 8 * int w\<close> by auto
qed

lemma steps420_disjoint:
  assumes "da2 p = da1 p + ds" "8 * int w \<le> ds"
    and "q \<in> set (steps420 ds ys us vs as p n w)" "q' \<in> set (steps420 ds ys us vs as p n w)" "area420 q \<inter> area420 q' \<noteq> {}"
  shows "q = q'"
proof -
  obtain j i j' i' a where q: "q = at420 ds ys us vs as p j i" "i < w" and q': "q' = at420 ds ys us vs as p j' i'" "i' < w"
    and a: "a \<in> area420 q" "a \<in> area420 q'"
    using assms(3-5) unfolding set_steps420 by blast
  have "int j = int j'" "int i = int i'"
    using area_at420_div(1,2) [OF assms(1,2) q(2) a(1) [unfolded q(1)]] area_at420_div(1,2) [OF assms(1,2) q'(2) a(2) [unfolded q'(1)]]
    by simp_all
  then show ?thesis using q q' by simp
qed


definition rect :: "int \<Rightarrow> int \<Rightarrow> int \<Rightarrow> int \<Rightarrow> int set" where
  "rect base stride w h = {base + r * stride + k | r k. 0 \<le> r \<and> r < h \<and> 0 \<le> k \<and> k < w}"

lemma rectI: "0 \<le> r \<Longrightarrow> r < h \<Longrightarrow> 0 \<le> k \<Longrightarrow> k < w \<Longrightarrow> a = base + r * stride + k \<Longrightarrow> a \<in> rect base stride w h"
  by (auto simp: rect_def)

text \<open>The bytes of the three source planes, and of a plane of alpha values.\<close>

definition planes420 :: "int \<Rightarrow> int \<Rightarrow> int \<Rightarrow> int \<Rightarrow> int \<Rightarrow> int \<Rightarrow> int \<Rightarrow> int \<Rightarrow> int set" where
  "planes420 y ys u us v vs w h = rect y ys w h \<union> rect u us (w div 2) (h div 2) \<union> rect v vs (w div 2) (h div 2)"

lemma at420_area_rect:
  assumes "da2 p = da1 p + ds" "i < w" "j < n"
  shows "area420 (at420 ds ys us vs as p j i) \<subseteq> rect (da1 p) ds (8 * int w) (2 * int n)"
proof
  fix a assume "a \<in> area420 (at420 ds ys us vs as p j i)"
  then obtain r k where rk: "a - da1 p = (2 * int j + r) * ds + (8 * int i + k)" "r = 0 \<or> r = 1" "0 \<le> k" "k < 8"
    using area_at420 [OF assms(1)] by blast
  show "a \<in> rect (da1 p) ds (8 * int w) (2 * int n)"
    by (rule rectI [of "2 * int j + r" _ "8 * int i + k"]) (use rk assms in auto)
qed

lemma two_rows_rect:
  assumes "i < w" "j < n" "k = 0 \<or> k = 1"
  shows "b + 2 * int j * st + 2 * int i + k \<in> rect b st (2 * int w) (2 * int n)"
    "b + st + 2 * int j * st + 2 * int i + k \<in> rect b st (2 * int w) (2 * int n)"
proof -
  show "b + 2 * int j * st + 2 * int i + k \<in> rect b st (2 * int w) (2 * int n)"
    by (rule rectI [of "2 * int j" _ "2 * int i + k"]) (use assms in auto)
  show "b + st + 2 * int j * st + 2 * int i + k \<in> rect b st (2 * int w) (2 * int n)"
    by (rule rectI [of "2 * int j + 1" _ "2 * int i + k"]) (use assms in \<open>auto simp: algebra_simps\<close>)
qed

lemma at420_reads_rect:
  assumes "i < w" "j < n" "say2 p = say1 p + ys"
  shows "reads420 (at420 ds ys us vs as p j i) \<subseteq> planes420 (say1 p) ys (sau p) us (sav p) vs (2 * int w) (2 * int n)"
proof -
  have "sau p + int j * us + int i \<in> rect (sau p) us (int w) (int n)" "sav p + int j * vs + int i \<in> rect (sav p) vs (int w) (int n)"
    using assms by (auto intro: rectI [of "int j" _ "int i"])
  with two_rows_rect [OF assms(1,2), of 0 "say1 p" ys] two_rows_rect [OF assms(1,2), of 1 "say1 p" ys] show ?thesis
    by (simp add: reads420_def planes420_def at420_def assms(3))
qed

lemma at420_alpha_rect:
  fixes ds ys us vs :: int
  assumes "i < w" "j < n" "a_col2 p = a_col1 p + as"
  defines "q \<equiv> at420 ds ys us vs as p j i"
  shows "{a_col1 q, a_col1 q + 1, a_col2 q, a_col2 q + 1} \<subseteq> rect (a_col1 p) as (2 * int w) (2 * int n)"
  using two_rows_rect [OF assms(1,2), of 0 "a_col1 p" as] two_rows_rect [OF assms(1,2), of 1 "a_col1 p" as]
  by (simp add: q_def at420_def assms(3))

text \<open>The step that owns a byte of the image.\<close>

lemma owner420:
  fixes ys us vs as :: int
  assumes "da2 p = da1 p + ds" "0 \<le> r" "r < 2 * int n" "0 \<le> x" "x < 2 * int w" "0 \<le> c" "c < 4"
  defines "q \<equiv> at420 ds ys us vs as p (nat (r div 2)) (nat (x div 2))"
  shows "q \<in> set (steps420 ds ys us vs as p n w)"
    and "da1 p + r * ds + 4 * x + c = (if even r then da1 q else da2 q) + (4 * (x mod 2) + c)"
    and "da1 p + r * ds + 4 * x + c \<in> area420 q"
proof -
  have x4: "4 * x = 8 * (x div 2) + 4 * (x mod 2)" by presburger
  show "q \<in> set (steps420 ds ys us vs as p n w)"
    unfolding q_def set_steps420 by (rule UN_I [of "nat (r div 2)"]) (use assms(2-5) in auto)
  show e: "da1 p + r * ds + 4 * x + c = (if even r then da1 q else da2 q) + (4 * (x mod 2) + c)"
  proof (cases "even r")
    case True
    then show ?thesis using assms(2,4) x4 by (simp add: q_def at420_def even_iff_mod_2_eq_zero)
  next
    case False
    then have "r = 2 * (r div 2) + 1" by simp
    then have "r * ds = 2 * (r div 2) * ds + ds" by (metis distrib_right mult_1)
    then show ?thesis using assms(1,2,4) False x4 by (simp add: q_def at420_def)
  qed
  have "0 \<le> 4 * (x mod 2) + c" "4 * (x mod 2) + c < 8" using assms(6,7) by (auto simp: mod_2_eq_odd)
  then show "da1 p + r * ds + 4 * x + c \<in> area420 q"
    unfolding e area420_iff by auto
qed


text \<open>The image both loops leave, for a step that writes \<open>val\<close>.\<close>

definition image420 :: "(int \<Rightarrow> int \<Rightarrow> byte) \<Rightarrow> int \<Rightarrow> int \<Rightarrow> int \<Rightarrow> int \<Rightarrow> int \<Rightarrow> int \<Rightarrow> int \<Rightarrow> int \<Rightarrow> int \<Rightarrow> int \<Rightarrow> mem \<Rightarrow> mem \<Rightarrow> bool" where
  "image420 alpha d ds w h y ys u us v vs m m' \<longleftrightarrow>
     (\<forall>r x c. 0 \<le> r \<and> r < h \<and> 0 \<le> x \<and> x < w \<and> 0 \<le> c \<and> c < 4 \<longrightarrow>
        m' (d + r * ds + 4 * x + c) =
        bgra (alpha r x) c (m (y + r * ys + x)) (m (u + r div 2 * us + x div 2)) (m (v + r div 2 * vs + x div 2))) \<and>
     (\<forall>a. a \<notin> rect d ds (4 * w) h \<longrightarrow> m' a = m a)"

lemma row_of_pair:
  fixes b st r x :: int
  shows "b + r * st + x = (if even r then b + 2 * (r div 2) * st + 2 * (x div 2) else b + st + 2 * (r div 2) * st + 2 * (x div 2)) + x mod 2"
proof (cases "even r")
  case False
  then have "r = 2 * (r div 2) + 1" by simp
  then have "r * st = 2 * (r div 2) * st + st" by (metis distrib_right mult_1)
  with False show ?thesis by simp
qed simp

lemma luma420:
  fixes ds us vs as :: int
  assumes "say2 p = say1 p + ys" "0 \<le> r" "0 \<le> x"
  defines "q \<equiv> at420 ds ys us vs as p (nat (r div 2)) (nat (x div 2))"
  shows "say1 p + r * ys + x = (if even r then say1 q else say2 q) + x mod 2"
    "sau p + r div 2 * us + x div 2 = sau q" "sav p + r div 2 * vs + x div 2 = sav q"
  using assms(1-3) row_of_pair [of "say1 p" r ys x] by (simp_all add: q_def at420_def split: if_splits)

lemma alpha420:
  fixes ds ys us vs :: int
  assumes "a_col2 p = a_col1 p + as" "0 \<le> r" "0 \<le> x"
  defines "q \<equiv> at420 ds ys us vs as p (nat (r div 2)) (nat (x div 2))"
  shows "a_col1 p + r * as + x = (if even r then a_col1 q else a_col2 q) + x mod 2"
  using assms(1-3) row_of_pair [of "a_col1 p" r as x] by (simp_all add: q_def at420_def split: if_splits)

lemma rows420_frame:
  assumes "da2 p = da1 p + ds" "a \<notin> rect (da1 p) ds (8 * int w) (2 * int n)" "q \<in> set (steps420 ds ys us vs as p n w)"
  shows "a \<notin> area420 q"
proof -
  from assms(3) obtain j i where "q = at420 ds ys us vs as p j i" "j < n" "i < w"
    unfolding set_steps420 by blast
  with at420_area_rect [OF assms(1)] assms(2) show ?thesis by blast
qed

lemma steps420_apart:
  assumes "da2 p = da1 p + ds" "say2 p = say1 p + ys"
    and "planes420 (say1 p) ys (sau p) us (sav p) vs (2 * int w) (2 * int n) \<inter> rect (da1 p) ds (8 * int w) (2 * int n) = {}"
    and "q \<in> set (steps420 ds ys us vs as p n w)" "q' \<in> set (steps420 ds ys us vs as p n w)"
  shows "reads420 q \<inter> area420 q' = {}"
proof -
  have "reads420 q \<subseteq> planes420 (say1 p) ys (sau p) us (sav p) vs (2 * int w) (2 * int n)"
    using assms(4) at420_reads_rect [OF _ _ assms(2)] unfolding set_steps420 by blast
  moreover have "area420 q' \<subseteq> rect (da1 p) ds (8 * int w) (2 * int n)"
    using assms(5) at420_area_rect [OF assms(1)] unfolding set_steps420 by blast
  ultimately show ?thesis using assms(3) by blast
qed

lemma rows420_image:
  assumes p: "da2 p = da1 p + ds" "say2 p = say1 p + ys" "8 * int w \<le> ds" "0 < w"
    and apart: "planes420 (say1 p) ys (sau p) us (sav p) vs (2 * int w) (2 * int n) \<inter> rect (da1 p) ds (8 * int w) (2 * int n) = {}"
  shows "image420 (\<lambda>_ _. 255) (da1 p) ds (2 * int w) (2 * int n) (say1 p) ys (sau p) us (sav p) vs m
     (fold block420 (steps420 ds ys us vs as p n w) m)"
  unfolding image420_def
proof (intro conjI allI impI)
  let ?S = "steps420 ds ys us vs as p n w"
  fix r x c :: int
  assume rxc: "0 \<le> r \<and> r < 2 * int n \<and> 0 \<le> x \<and> x < 2 * int w \<and> 0 \<le> c \<and> c < 4"
  define q where "q = at420 ds ys us vs as p (nat (r div 2)) (nat (x div 2))"
  have b: "0 \<le> r" "r < 2 * int n" "0 \<le> x" "x < 2 * int w" "0 \<le> c" "c < 4" using rxc by simp_all
  note o = owner420 [OF p(1) b, where ys = ys and us = us and vs = vs and as = as, folded q_def]
  have "da1 q + 8 \<le> da2 q"
    using p(1,3,4) by (simp add: q_def at420_def)
  note val = block420_value [OF this, of "x mod 2" c m]
  have "fold block420 ?S m (da1 p + r * ds + 4 * x + c) = block420 q m (da1 p + r * ds + 4 * x + c)"
    by (rule w420.fold_inside [OF o(1,3) steps420_disjoint [OF p(1,3)] steps420_apart [OF p(1,2) apart]])
  also have "\<dots> = bgra 255 c (m (say1 p + r * ys + x)) (m (sau p + r div 2 * us + x div 2)) (m (sav p + r div 2 * vs + x div 2))"
    unfolding o(2) luma420 [OF p(2) b(1,3), where ds = ds and us = us and vs = vs and as = as, folded q_def]
    using val b by simp
  finally show "fold block420 ?S m (da1 p + r * ds + 4 * x + c) =
      bgra 255 c (m (say1 p + r * ys + x)) (m (sau p + r div 2 * us + x div 2)) (m (sav p + r div 2 * vs + x div 2))" .
next
  fix a assume "a \<notin> rect (da1 p) ds (4 * (2 * int w)) (2 * int n)"
  then show "fold block420 (steps420 ds ys us vs as p n w) m a = m a"
    by (intro w420.fold_outside rows420_frame [OF p(1)]) simp_all
qed

lemma rows420_alpha_image:
  assumes p: "da2 p = da1 p + ds" "say2 p = say1 p + ys" "8 * int w \<le> ds" "0 < w" "a_col2 p = a_col1 p + as"
    and apart: "planes420 (say1 p) ys (sau p) us (sav p) vs (2 * int w) (2 * int n) \<inter> rect (da1 p) ds (8 * int w) (2 * int n) = {}"
      "rect (a_col1 p) as (2 * int w) (2 * int n) \<inter> rect (da1 p) ds (8 * int w) (2 * int n) = {}"
  shows "image420 (\<lambda>r x. m (a_col1 p + r * as + x)) (da1 p) ds (2 * int w) (2 * int n) (say1 p) ys (sau p) us (sav p) vs m
     (fold block420_alpha (steps420 ds ys us vs as p n w) m)"
  unfolding image420_def
proof (intro conjI allI impI)
  let ?S = "steps420 ds ys us vs as p n w"
  have reads: "reads420_alpha q \<inter> area420 q' = {}" if "q \<in> set ?S" "q' \<in> set ?S" for q q'
  proof -
    have "{a_col1 q, a_col1 q + 1, a_col2 q, a_col2 q + 1} \<subseteq> rect (a_col1 p) as (2 * int w) (2 * int n)"
      using that(1) at420_alpha_rect [OF _ _ p(5)] unfolding set_steps420 by blast
    moreover have "area420 q' \<subseteq> rect (da1 p) ds (8 * int w) (2 * int n)"
      using that(2) at420_area_rect [OF p(1)] unfolding set_steps420 by blast
    ultimately show ?thesis
      using steps420_apart [OF p(1,2) apart(1) that] apart(2) unfolding reads420_alpha_def by blast
  qed
  fix r x c :: int
  assume rxc: "0 \<le> r \<and> r < 2 * int n \<and> 0 \<le> x \<and> x < 2 * int w \<and> 0 \<le> c \<and> c < 4"
  define q where "q = at420 ds ys us vs as p (nat (r div 2)) (nat (x div 2))"
  have b: "0 \<le> r" "r < 2 * int n" "0 \<le> x" "x < 2 * int w" "0 \<le> c" "c < 4" using rxc by simp_all
  note o = owner420 [OF p(1) b, where ys = ys and us = us and vs = vs and as = as, folded q_def]
  have "da1 q + 8 \<le> da2 q"
    using p(1,3,4) by (simp add: q_def at420_def)
  note val = block420_alpha_value [OF this, of "x mod 2" c m]
  have "fold block420_alpha ?S m (da1 p + r * ds + 4 * x + c) = block420_alpha q m (da1 p + r * ds + 4 * x + c)"
    by (rule w420a.fold_inside [OF o(1,3) steps420_disjoint [OF p(1,3)] reads])
  also have "\<dots> = bgra (m (a_col1 p + r * as + x)) c (m (say1 p + r * ys + x)) (m (sau p + r div 2 * us + x div 2)) (m (sav p + r div 2 * vs + x div 2))"
    unfolding o(2) luma420 [OF p(2) b(1,3), where ds = ds and us = us and vs = vs and as = as, folded q_def]
      alpha420 [OF p(5) b(1,3), where ds = ds and ys = ys and us = us and vs = vs, folded q_def]
    using val b reads [OF o(1) o(1)] by simp
  finally show "fold block420_alpha ?S m (da1 p + r * ds + 4 * x + c) =
      bgra (m (a_col1 p + r * as + x)) c (m (say1 p + r * ys + x)) (m (sau p + r div 2 * us + x div 2)) (m (sav p + r div 2 * vs + x div 2))" .
next
  fix a assume "a \<notin> rect (da1 p) ds (4 * (2 * int w)) (2 * int n)"
  then show "fold block420_alpha (steps420 ds ys us vs as p n w) m a = m a"
    by (intro w420a.fold_outside rows420_frame [OF p(1)]) simp_all
qed

lemma args420_even: "args420_ok (Some d) w h (Some y) (Some v) (Some u) \<longleftrightarrow> 0 < w \<and> 0 < h \<and> even w \<and> even h"
proof -
  have "(w OR h) AND 1 = 0 \<longleftrightarrow> even w \<and> even h"
    by (simp add: and_one_eq mod_2_eq_odd even_or_iff)
  then show ?thesis by (auto simp: args420_ok_def)
qed

lemma half_sizes:
  assumes "0 < w" "0 < h" "even w" "even h"
  obtains W H where "w = 2 * int W" "h = 2 * int H" "0 < W" "0 < H" "nat (drop_bit 1 w) = W" "nat (drop_bit 1 h) = H"
proof (rule that [of "nat (w div 2)" "nat (h div 2)"])
qed (use assms in \<open>auto simp: drop_bit_eq_div elim!: evenE\<close>)

lemma start420_simps:
  "start420 (Some d) ds (Some y) (Some v) (Some u) a ys as =
     \<lparr>say1 = y, say2 = y + ys, sau = u, sav = v, da1 = d, da2 = d + ds, a_col1 = a, a_col2 = a + as\<rparr>"
  by (simp add: start420_def)

lemma ColorConvert_image_opaque:
  assumes "0 < w" "0 < h" "even w" "even h" "4 * w \<le> ds" "planes420 y ys u us v vs w h \<inter> rect d ds (4 * w) h = {}"
  shows "\<exists>m1. ColorConvert_YCbCr420p_to_BGRA32_no_alpha (Some d) ds w h (Some y) (Some v) (Some u) ys vs us m = Returns (0, m1) \<and>
     image420 (\<lambda>_ _. 255) d ds w h y ys u us v vs m m1"
proof -
  obtain W H where wh: "w = 2 * int W" "h = 2 * int H" "0 < W" "0 < H" "nat (drop_bit 1 w) = W" "nat (drop_bit 1 h) = H"
    using half_sizes [OF assms(1-4)] .
  have "image420 (\<lambda>_ _. 255) d ds w h y ys u us v vs m
      (fold block420 (steps420 ds ys us vs 0 (start420 (Some d) ds (Some y) (Some v) (Some u) 0 ys 0) H W) m)"
    using rows420_image [of "start420 (Some d) ds (Some y) (Some v) (Some u) 0 ys 0" ds ys W us vs H m 0] assms(5,6) wh
    by (simp add: start420_simps)
  then show ?thesis
    unfolding ColorConvert_YCbCr420p_to_BGRA32_no_alpha_def using assms(1-4) wh(5,6) by (simp add: args420_even rows420_steps)
qed

lemma ColorConvert_image_alpha:
  assumes "0 < w" "0 < h" "even w" "even h" "4 * w \<le> ds" "planes420 y ys u us v vs w h \<inter> rect d ds (4 * w) h = {}"
    and "rect a as w h \<inter> rect d ds (4 * w) h = {}"
  shows "\<exists>m2. ColorConvert_YCbCr420p_to_BGRA32 (Some d) ds w h (Some y) (Some v) (Some u) (Some a) ys vs us as m = Returns (0, m2) \<and>
     image420 (\<lambda>r x. m (a + r * as + x)) d ds w h y ys u us v vs m m2"
proof -
  obtain W H where wh: "w = 2 * int W" "h = 2 * int H" "0 < W" "0 < H" "nat (drop_bit 1 w) = W" "nat (drop_bit 1 h) = H"
    using half_sizes [OF assms(1-4)] .
  have "image420 (\<lambda>r x. m (a + r * as + x)) d ds w h y ys u us v vs m
      (fold block420_alpha (steps420 ds ys us vs as (start420 (Some d) ds (Some y) (Some v) (Some u) a ys as) H W) m)"
    using rows420_alpha_image [of "start420 (Some d) ds (Some y) (Some v) (Some u) a ys as" ds ys W as us vs H m] assms(5-7) wh
    by (simp add: start420_simps)
  then show ?thesis
    unfolding ColorConvert_YCbCr420p_to_BGRA32_def using assms(1-4) wh(5,6) by (simp add: args420_even rows420_steps)
qed

text \<open>C13: The portable planar conversion fills the whole image and nothing else: for every even size, destination stride
  that holds a row, and source planes outside the destination, it returns 0, every pixel of the result is the
  reference colour of its own luma sample and of the chroma samples of its two by two block, opaque or with the
  alpha sample of the pixel, and no byte outside the rows of the image changes.\<close>

theorem ColorConvert_420p_image:
  assumes "0 < w" "0 < h" "even w" "even h" "4 * w \<le> ds"
    and "planes420 y ys u us v vs w h \<inter> rect d ds (4 * w) h = {}" "rect a as w h \<inter> rect d ds (4 * w) h = {}"
  shows "\<exists>m1 m2. ColorConvert_YCbCr420p_to_BGRA32_no_alpha (Some d) ds w h (Some y) (Some v) (Some u) ys vs us m = Returns (0, m1) \<and>
       image420 (\<lambda>_ _. 255) d ds w h y ys u us v vs m m1 \<and>
     ColorConvert_YCbCr420p_to_BGRA32 (Some d) ds w h (Some y) (Some v) (Some u) (Some a) ys vs us as m = Returns (0, m2) \<and>
       image420 (\<lambda>r x. m (a + r * as + x)) d ds w h y ys u us v vs m m2"
  using ColorConvert_image_opaque [OF assms(1-6), of m] ColorConvert_image_alpha [OF assms, of m] by blast

subsection \<open>The packed layout\<close>

definition area422 :: "ptr422 \<Rightarrow> int set" where
  "area422 p = {p_da1 p, p_da1 p + 1, p_da1 p + 2, p_da1 p + 3, p_da1 p + 4, p_da1 p + 5, p_da1 p + 6, p_da1 p + 7}"

definition reads422 :: "ptr422 \<Rightarrow> int set" where
  "reads422 p = {p_say1 p, p_say1 p + 2, p_sau p, p_sav p}"

interpretation w422: pixel_writer block422 area422 reads422
proof
  show "block422 p m a = m a" if "a \<notin> area422 p" for a p m
    using that by (auto simp: block422_def area422_def Let_def split_beta)
  show "block422 p m a = block422 p m' a" if "a \<in> area422 p" "\<And>b. b \<in> reads422 p \<Longrightarrow> m b = m' b" for a p m m'
  proof -
    have eqs: "m (p_say1 p) = m' (p_say1 p)" "m (p_say1 p + 2) = m' (p_say1 p + 2)" "m (p_sau p) = m' (p_sau p)" "m (p_sav p) = m' (p_sav p)"
      using that(2) by (simp_all add: reads422_def)
    show ?thesis
      unfolding block422_def eqs Let_def split_beta
      by (intro upd_agree refl) (use that(1) in \<open>simp add: area422_def\<close>)
  qed
qed

lemma block422_value:
  assumes "0 \<le> k" "k < 2" "0 \<le> c" "c < 4"
  shows "block422 p m (p_da1 p + (4 * k + c)) = bgra 255 c (m (p_say1 p + 2 * k)) (m (p_sau p)) (m (p_sav p))"
  using four [OF assms(3,4)] two [OF assms(1,2)]
  by (elim disjE; simp add: block422_def Let_def chroma_def pixel_S pixel_T bgra_def)

definition at422 :: "int \<Rightarrow> int \<Rightarrow> int \<Rightarrow> ptr422 \<Rightarrow> nat \<Rightarrow> nat \<Rightarrow> ptr422" where
  "at422 ds ys uvs p j i =
     \<lparr>p_say1 = p_say1 p + int j * ys + 4 * int i, p_sau = p_sau p + int j * uvs + 4 * int i,
      p_sav = p_sav p + int j * uvs + 4 * int i, p_da1 = p_da1 p + int j * ds + 8 * int i\<rparr>"

lemma at422_simps [simp]:
  "at422 ds ys uvs p 0 0 = p"
  "next_col422 (at422 ds ys uvs p j i) = at422 ds ys uvs p j (Suc i)"
  "next_row422 ds ys uvs (at422 ds ys uvs p j 0) = at422 ds ys uvs p (Suc j) 0"
  by (simp_all add: at422_def next_col422_def next_row422_def algebra_simps)

definition steps422 :: "int \<Rightarrow> int \<Rightarrow> int \<Rightarrow> ptr422 \<Rightarrow> nat \<Rightarrow> nat \<Rightarrow> ptr422 list" where
  "steps422 ds ys uvs p n w = concat (map (\<lambda>j. map (at422 ds ys uvs p j) [0..<w]) [0..<n])"

lemma cols422_fold: "cols422 n (at422 ds ys uvs p j k) m = fold block422 (map (\<lambda>i. at422 ds ys uvs p j (k + i)) [0..<n]) m"
  by (induction n arbitrary: k m) (simp_all add: map_upt_Suc del: upt_Suc)

lemma rows422_fold:
  "rows422 n w (next_row422 ds ys uvs) (at422 ds ys uvs p j 0) m =
     fold block422 (concat (map (\<lambda>j'. map (at422 ds ys uvs p (j + j')) [0..<w]) [0..<n])) m"
  by (induction n arbitrary: j m) (simp_all add: map_upt_Suc cols422_fold del: upt_Suc)

lemma rows422_steps: "rows422 n w (next_row422 ds ys uvs) p m = fold block422 (steps422 ds ys uvs p n w) m"
  using rows422_fold [of n w ds ys uvs p 0 m] by (simp add: steps422_def)

lemma set_steps422: "set (steps422 ds ys uvs p n w) = (\<Union>j \<in> {..<n}. at422 ds ys uvs p j ` {..<w})"
  by (auto simp: steps422_def)

lemma area422_iff: "a \<in> area422 p \<longleftrightarrow> p_da1 p \<le> a \<and> a < p_da1 p + 8"
  unfolding area422_def insert_iff empty_iff by presburger

lemma area_at422:
  assumes "a \<in> area422 (at422 ds ys uvs p j i)"
  shows "\<exists>k. a = p_da1 p + int j * ds + (8 * int i + k) \<and> 0 \<le> k \<and> k < 8"
  by (rule exI [of _ "a - p_da1 (at422 ds ys uvs p j i)"]) (use assms in \<open>simp add: area422_iff at422_def\<close>)

lemma steps422_disjoint:
  assumes "8 * int w \<le> ds"
    and "q \<in> set (steps422 ds ys uvs p n w)" "q' \<in> set (steps422 ds ys uvs p n w)" "area422 q \<inter> area422 q' \<noteq> {}"
  shows "q = q'"
proof -
  have pos: "(a - p_da1 p) div ds = int j \<and> (a - p_da1 p) mod ds div 8 = int i" if iw: "i < w" and a: "a \<in> area422 (at422 ds ys uvs p j i)" for a j i
  proof -
    obtain k where k: "a = p_da1 p + int j * ds + (8 * int i + k)" "0 \<le> k" "k < 8"
      using area_at422 [OF a] by blast
    have "8 * int i + k < 8 * int w" using iw k(3) by linarith
    then have b: "0 \<le> 8 * int i + k" "8 * int i + k < ds" using assms(1) k(2) by linarith+
    have "a - p_da1 p = int j * ds + (8 * int i + k)" using k(1) by simp
    then show ?thesis using row_col [OF b] k(2,3) by simp
  qed
  obtain j i j' i' a where q: "q = at422 ds ys uvs p j i" "i < w" and q': "q' = at422 ds ys uvs p j' i'" "i' < w"
    and a: "a \<in> area422 q" "a \<in> area422 q'"
    using assms(2-4) unfolding set_steps422 by blast
  from pos [OF q(2) a(1) [unfolded q(1)]] pos [OF q'(2) a(2) [unfolded q'(1)]] have "int j = int j'" "int i = int i'"
    by simp_all
  then show ?thesis using q q' by simp
qed

text \<open>The bytes a packed frame is read at, and the image that is made of it.\<close>

definition planes422 :: "int \<Rightarrow> int \<Rightarrow> int \<Rightarrow> int \<Rightarrow> int \<Rightarrow> int \<Rightarrow> int \<Rightarrow> int set" where
  "planes422 y ys u v uvs w h = rect y ys (2 * w - 1) h \<union> rect u uvs (2 * w - 3) h \<union> rect v uvs (2 * w - 3) h"

definition image422 :: "int \<Rightarrow> int \<Rightarrow> int \<Rightarrow> int \<Rightarrow> int \<Rightarrow> int \<Rightarrow> int \<Rightarrow> int \<Rightarrow> int \<Rightarrow> mem \<Rightarrow> mem \<Rightarrow> bool" where
  "image422 d ds w h y ys u v uvs m m' \<longleftrightarrow>
     (\<forall>r x c. 0 \<le> r \<and> r < h \<and> 0 \<le> x \<and> x < w \<and> 0 \<le> c \<and> c < 4 \<longrightarrow>
        m' (d + r * ds + 4 * x + c) =
        bgra 255 c (m (y + r * ys + 2 * x)) (m (u + r * uvs + 4 * (x div 2))) (m (v + r * uvs + 4 * (x div 2)))) \<and>
     (\<forall>a. a \<notin> rect d ds (4 * w) h \<longrightarrow> m' a = m a)"

lemma at422_area_rect: "i < w \<Longrightarrow> j < n \<Longrightarrow> area422 (at422 ds ys uvs p j i) \<subseteq> rect (p_da1 p) ds (8 * int w) (int n)"
proof
  fix a assume ij: "i < w" "j < n" and a: "a \<in> area422 (at422 ds ys uvs p j i)"
  obtain k where "a = p_da1 p + int j * ds + (8 * int i + k)" "0 \<le> k" "k < 8"
    using area_at422 [OF a] by blast
  with ij show "a \<in> rect (p_da1 p) ds (8 * int w) (int n)"
    by (intro rectI [of "int j" _ "8 * int i + k"]) auto
qed

lemma at422_reads_rect:
  "i < w \<Longrightarrow> j < n \<Longrightarrow> reads422 (at422 ds ys uvs p j i) \<subseteq> planes422 (p_say1 p) ys (p_sau p) (p_sav p) uvs (2 * int w) (int n)"
proof -
  assume ij: "i < w" "j < n"
  have "b + int j * st + 4 * int i + k \<in> rect b st z (int n)" if "0 \<le> k" "4 * int i + k < z" for b st k z
    by (rule rectI [of "int j" _ "4 * int i + k"]) (use ij that in auto)
  from this [of 0] this [of 2] ij show ?thesis
    by (auto simp: reads422_def planes422_def at422_def)
qed


lemma rows422_image:
  assumes w: "8 * int w \<le> ds"
    and apart: "planes422 (p_say1 p) ys (p_sau p) (p_sav p) uvs (2 * int w) (int n) \<inter> rect (p_da1 p) ds (8 * int w) (int n) = {}"
  shows "image422 (p_da1 p) ds (2 * int w) (int n) (p_say1 p) ys (p_sau p) (p_sav p) uvs m
     (fold block422 (steps422 ds ys uvs p n w) m)"
  unfolding image422_def
proof (intro conjI allI impI)
  let ?S = "steps422 ds ys uvs p n w"
  have reads: "reads422 q \<inter> area422 q' = {}" if "q \<in> set ?S" "q' \<in> set ?S" for q q'
  proof -
    have "reads422 q \<subseteq> planes422 (p_say1 p) ys (p_sau p) (p_sav p) uvs (2 * int w) (int n)"
      using that(1) at422_reads_rect unfolding set_steps422 by blast
    moreover have "area422 q' \<subseteq> rect (p_da1 p) ds (8 * int w) (int n)"
      using that(2) at422_area_rect unfolding set_steps422 by blast
    ultimately show ?thesis using apart by blast
  qed
  fix r x c :: int
  assume rxc: "0 \<le> r \<and> r < int n \<and> 0 \<le> x \<and> x < 2 * int w \<and> 0 \<le> c \<and> c < 4"
  define q where "q = at422 ds ys uvs p (nat r) (nat (x div 2))"
  have x4: "4 * x = 8 * (x div 2) + 4 * (x mod 2)" "2 * x = 4 * (x div 2) + 2 * (x mod 2)" by presburger+
  have qS: "q \<in> set ?S"
    unfolding q_def set_steps422 by (rule UN_I [of "nat r"]) (use rxc in auto)
  have e: "p_da1 p + r * ds + 4 * x + c = p_da1 q + (4 * (x mod 2) + c)" "p_say1 p + r * ys + 2 * x = p_say1 q + 2 * (x mod 2)"
    "p_sau p + r * uvs + 4 * (x div 2) = p_sau q" "p_sav p + r * uvs + 4 * (x div 2) = p_sav q"
    using rxc x4 by (simp_all add: q_def at422_def)
  have "0 \<le> 4 * (x mod 2) + c" "4 * (x mod 2) + c < 8" using rxc by (auto simp: mod_2_eq_odd)
  then have in_area: "p_da1 q + (4 * (x mod 2) + c) \<in> area422 q"
    unfolding area422_iff by simp
  show "fold block422 ?S m (p_da1 p + r * ds + 4 * x + c) =
      bgra 255 c (m (p_say1 p + r * ys + 2 * x)) (m (p_sau p + r * uvs + 4 * (x div 2))) (m (p_sav p + r * uvs + 4 * (x div 2)))"
    unfolding e
    by (rule trans [OF w422.fold_inside [OF qS in_area steps422_disjoint [OF w] reads] block422_value]) (use rxc in auto)
next
  fix a assume "a \<notin> rect (p_da1 p) ds (4 * (2 * int w)) (int n)"
  then show "fold block422 (steps422 ds ys uvs p n w) m a = m a"
    using at422_area_rect [of _ w _ n ds ys uvs p] by (intro w422.fold_outside) (auto simp: set_steps422)
qed

text \<open>The packed conversion, which every build uses: for an even width, a destination stride that holds a row and a
  source outside the destination it returns 0, every pixel is the opaque reference colour of its luma sample and of
  the chroma samples it shares with its neighbour, and no byte outside the image changes.\<close>

theorem ColorConvert_422p_image:
  assumes "0 < w" "0 < h" "even w" "4 * w \<le> ds" "planes422 y ys u v uvs w h \<inter> rect d ds (4 * w) h = {}"
  shows "\<exists>m'. ColorConvert_YCbCr422p_to_BGRA32_no_alpha (Some d) ds w h (Some y) (Some v) (Some u) ys uvs m = Returns (0, m') \<and>
     image422 d ds w h y ys u v uvs m m'"
proof -
  define W where "W = nat (w div 2)"
  have wh: "w = 2 * int W" "h = int (nat h)" "nat (drop_bit 1 w) = W"
    using assms(1-3) by (auto simp: W_def drop_bit_eq_div elim!: evenE)
  have e: "w AND 1 = 0"
    using assms(3) by (simp add: and_one_eq mod_2_eq_odd)
  let ?p = "\<lparr>p_say1 = y, p_sau = u, p_sav = v, p_da1 = d\<rparr>"
  have "image422 d ds w h y ys u v uvs m (fold block422 (steps422 ds ys uvs ?p (nat h) W) m)"
    using rows422_image [of W ds ?p ys uvs "nat h" m] assms(4,5) wh by simp
  then show ?thesis
    unfolding ColorConvert_YCbCr422p_to_BGRA32_no_alpha_def using assms(1,2) e wh(3) by (simp add: rows422_steps)
qed


text \<open>A two by two image, with the planes below the destination.\<close>

definition demo_mem :: mem where
  "demo_mem a = word_of_int (a * 40)"

theorem ColorConvert_420p_image_witness:
  "\<exists>m1 m2. ColorConvert_YCbCr420p_to_BGRA32_no_alpha (Some 100) 8 2 2 (Some 0) (Some 5) (Some 4) 2 1 1 demo_mem = Returns (0, m1) \<and>
       image420 (\<lambda>_ _. 255) 100 8 2 2 0 2 4 1 5 1 demo_mem m1 \<and>
     ColorConvert_YCbCr420p_to_BGRA32 (Some 100) 8 2 2 (Some 0) (Some 5) (Some 4) (Some 6) 2 1 1 2 demo_mem = Returns (0, m2) \<and>
       image420 (\<lambda>r x. demo_mem (6 + r * 2 + x)) 100 8 2 2 0 2 4 1 5 1 demo_mem m2"
proof -
  have "planes420 0 2 4 1 5 1 2 2 \<inter> rect 100 8 (4 * 2) 2 = {}" "rect 6 2 2 2 \<inter> rect 100 8 (4 * 2) 2 = {}"
    by (auto simp: planes420_def rect_def)
  from ColorConvert_420p_image [OF _ _ _ _ _ this, of demo_mem] show ?thesis by simp
qed

theorem ColorConvert_422p_image_witness:
  "\<exists>m'. ColorConvert_YCbCr422p_to_BGRA32_no_alpha (Some 100) 8 2 2 (Some 1) (Some 2) (Some 0) 4 4 demo_mem = Returns (0, m') \<and>
     image422 100 8 2 2 1 4 0 2 4 demo_mem m'"
proof -
  have "planes422 1 4 0 2 4 2 2 \<inter> rect 100 8 (4 * 2) 2 = {}"
    by (auto simp: planes422_def rect_def)
  from ColorConvert_422p_image [OF _ _ _ _ this, of demo_mem] show ?thesis by simp
qed

end
