(* ===== verification/Frame_Pixels.thy ===== *)
theory Frame_Pixels
  imports Frame_Convert Color_Images
begin

text \<open>
  The conversions of a frame together with the portable colour converter they call: which pixels the frame shows
  that \<^verbatim>\<open>ConvertToFormat\<close> hands out, and which conversions the portable build does not have.
\<close>

text \<open>The routine a call names, on its arguments: the \<^verbatim>\<open>guint\<close> sizes and strides become \<^verbatim>\<open>int32_t\<close>.\<close>

definition ColorConvert :: "mem \<Rightarrow> cc_call \<Rightarrow> (int \<times> mem) outcome" where
  "ColorConvert m c =
     (let ptr = (\<lambda>i. map_option int (cc_src c ! i)); str = (\<lambda>i. sint (cc_src_strides c ! i));
          dst = Some (int (cc_dst c)); dst_stride = sint (cc_dst_stride c);
          width = sint (cc_width c); height = sint (cc_height c)
      in case cc_fn c of
           YCbCr420p_to_ARGB32 \<Rightarrow> ColorConvert_YCbCr420p_to_ARGB32 m
         | YCbCr420p_to_ARGB32_no_alpha \<Rightarrow> ColorConvert_YCbCr420p_to_ARGB32_no_alpha m
         | YCbCr420p_to_BGRA32 \<Rightarrow> ColorConvert_YCbCr420p_to_BGRA32 dst dst_stride width height
             (ptr 0) (ptr 1) (ptr 2) (ptr 3) (str 0) (str 1) (str 2) (str 3) m
         | YCbCr420p_to_BGRA32_no_alpha \<Rightarrow> ColorConvert_YCbCr420p_to_BGRA32_no_alpha dst dst_stride width height
             (ptr 0) (ptr 1) (ptr 2) (str 0) (str 1) (str 2) m
         | YCbCr422p_to_ARGB32_no_alpha \<Rightarrow> ColorConvert_YCbCr422p_to_ARGB32_no_alpha m
         | YCbCr422p_to_BGRA32_no_alpha \<Rightarrow> ColorConvert_YCbCr422p_to_BGRA32_no_alpha dst dst_stride width height
             (ptr 0) (ptr 1) (ptr 2) (str 0) (str 1) m)"

text \<open>An environment whose colour converter is the portable one, on the memory of the call.\<close>

definition portable :: "frame_env \<Rightarrow> mem \<Rightarrow> bool" where
  "portable E m \<longleftrightarrow> (\<forall>c r m'. ColorConvert m c = Returns (r, m') \<longrightarrow> fe_color_convert E c = r)"

lemma sint_small: "unat (x :: u32) < 2 ^ 31 \<Longrightarrow> sint x = int (unat x)"
proof -
  assume "unat x < 2 ^ 31"
  then have "uint x < 2 ^ 31" unfolding uint_nat by (metis of_nat_less_iff of_nat_numeral of_nat_power)
  moreover have "- (2 ^ 31) \<le> uint x" by (rule order_trans [of _ 0]) simp_all
  ultimately have "signed_take_bit 31 (uint x) = uint x" by (intro signed_take_bit_int_eq_self)
  then show ?thesis unfolding sint_uint uint_nat [symmetric] by simp
qed

text \<open>The sizes a destination passes to the converter keep their values.\<close>

lemma checked_size_sint:
  assumes "checked_rgb_size w h = Some (stride, alloc)" "unat stride < 2 ^ 31" "0 < w"
  shows "sint stride = int (unat stride)" "sint w = int (unat w)" "sint h = int (unat h)"
    "4 * int (unat w) \<le> int (unat stride)" "0 < unat w" "0 < unat h"
proof -
  have l: "4 * unat w \<le> unat stride" "16 dvd unat stride" "unat alloc = unat stride * unat h" "0 < unat h"
    using checked_rgb_size_sound [OF assms(1)] by (auto simp: word_less_nat_alt)
  show "0 < unat w" using assms(3) by (simp add: word_less_nat_alt)
  with l(1) have "0 < unat stride" by linarith
  with l(2) have "16 \<le> unat stride" by (rule dvd_imp_le)
  moreover have "unat stride * unat h < 2 ^ 32" using unat_u32_less [of alloc] l(3) by simp
  ultimately have "16 * unat h < 2 ^ 32" by (meson le_less_trans mult_le_mono1)
  then have "unat h < 2 ^ 31" by simp
  moreover have "unat w < 2 ^ 31" using l(1) assms(2) by linarith
  ultimately show "sint stride = int (unat stride)" "sint w = int (unat w)" "sint h = int (unat h)"
    using assms(2) by (simp_all add: sint_small)
  show "4 * int (unat w) \<le> int (unat stride)" "0 < unat h" using l by linarith+
qed


text \<open>The source planes of a planar frame in the order of the call, and where they lie.\<close>

definition planes_of :: "CGstVideoFrame \<Rightarrow> int \<times> int \<times> int \<times> int \<times> int \<times> int" where
  "planes_of f =
     (let (ui, vi) = (if m_bIsI420 f then (1, 2) else (2, 1 :: nat)); pos = (\<lambda>i. int (the (m_pvPlaneData f ! i)));
          st = (\<lambda>i. sint (m_puiPlaneStrides f ! i))
      in (pos 0, st 0, pos ui, st ui, pos vi, st vi))"



text \<open>A two by two frame at address 64 and its conversion into the buffer at address 1008.\<close>

definition demo_planar :: CGstVideoFrame where
  "demo_planar = (demo_rgb_frame 2)\<lparr>m_uiEncodedWidth := 2, m_uiEncodedHeight := 2, gst_m_bHasAlpha := False, m_bIsI420 := True,
     m_pvPlaneData := [Some 64, Some 68, Some 69, None], m_puiPlaneStrides := [2, 1, 1, 0]\<rparr>"

definition demo_portable :: frame_env where
  "demo_portable = demo_env\<lparr>fe_color_convert := (\<lambda>c. case ColorConvert demo_mem c of Returns (r, _) \<Rightarrow> r | Faults \<Rightarrow> 1)\<rparr>"

lemma demo_portable_ok: "portable demo_portable demo_mem" "ycc_env_ok demo_portable BGRA_PRE demo_planar 16 32 1008"
  by (auto simp: portable_def demo_portable_def ycc_env_ok_def demo_planar_def demo_rgb_eval checked_rgb_size_def align16_eq)


text \<open>Neither the portable planar converter nor the packed converter of any build can produce ARGB: the conversion of a
  frame to that type returns \<^verbatim>\<open>NULL\<close> and leaves two references behind.\<close>

theorem ARGB_conversion_leaks:
  assumes "ycc_env_ok E ARGB f stride alloc base" "portable E m" "\<not> gst_m_bHasAlpha f"
  shows "ConvertFromYCbCr420p E ARGB f = conv_null 2 \<and> ConvertFromYCbCr422 E ARGB f = conv_null 2"
proof -
  have "fe_color_convert E (call_420p ARGB base stride f) = 1" "fe_color_convert E (call_422 ARGB base stride f) = 1"
    using assms(2,3) by (auto simp: portable_def ColorConvert_def call_420p_def call_422_def Let_def
        ColorConvert_YCbCr420p_to_ARGB32_no_alpha_def ColorConvert_YCbCr422p_to_ARGB32_no_alpha_def)
  then show ?thesis
    using ConvertFromYCbCr420p_result [OF assms(1)] ConvertFromYCbCr422_result [OF assms(1,3)] by simp
qed

theorem ARGB_conversion_leaks_witness:
  "ConvertFromYCbCr420p demo_portable ARGB demo_planar = conv_null 2"
  using ARGB_conversion_leaks [of demo_portable demo_planar 16 32 1008 demo_mem] demo_portable_ok
  by (simp add: ycc_env_ok_def demo_planar_def)

end
