(* ===== verification/Audio_Equalizer.thy ===== *)
theory Audio_Equalizer
  imports Jfx_Prelude Complex_Main
begin

text \<open>
  The audio equalizer (\<^verbatim>\<open>GstAudioEqualizer.cpp\<close>): a \<^verbatim>\<open>std::map\<close> from centre frequencies to bands, mirrored
  in the children of a GStreamer equalizer element.  The map is a list of pairs in the order of its keys.  The
  element has the list of its children and the properties of each; what it does with its children when
  \<^verbatim>\<open>num-bands\<close> is set is the parameter \<open>resize\<close>.
\<close>

subsection \<open>The map of bands\<close>

type_synonym 'b band_map = "(real \<times> 'b) list"

text \<open>\<^verbatim>\<open>m[k] = v\<close>, \<^verbatim>\<open>m.find(k)\<close> and \<^verbatim>\<open>m.erase(it)\<close> of \<^verbatim>\<open>std::map<double, ...>\<close>.\<close>

fun bm_insert :: "real \<Rightarrow> 'b \<Rightarrow> 'b band_map \<Rightarrow> 'b band_map" where
  "bm_insert k v [] = [(k, v)]"
| "bm_insert k v ((k', v') # m) =
     (if k < k' then (k, v) # (k', v') # m else if k = k' then (k, v) # m else (k', v') # bm_insert k v m)"

definition bm_find :: "'b band_map \<Rightarrow> real \<Rightarrow> 'b option" where
  "bm_find m k = map_of m k"

definition bm_erase :: "real \<Rightarrow> 'b band_map \<Rightarrow> 'b band_map" where
  "bm_erase k m = filter (\<lambda>(k', v). k' \<noteq> k) m"

definition bm_ok :: "'b band_map \<Rightarrow> bool" where
  "bm_ok m \<longleftrightarrow> sorted_wrt (<) (map fst m)"

text \<open>The laws of an ordered map that the equalizer relies on.\<close>

locale ordered_map =
  fixes ok :: "'m \<Rightarrow> bool"
    and find :: "'m \<Rightarrow> 'k \<Rightarrow> 'v option"
    and ins :: "'k \<Rightarrow> 'v \<Rightarrow> 'm \<Rightarrow> 'm"
    and del :: "'k \<Rightarrow> 'm \<Rightarrow> 'm"
  assumes ok_ins: "ok m \<Longrightarrow> ok (ins k v m)"
    and ok_del: "ok m \<Longrightarrow> ok (del k m)"
    and find_ins: "ok m \<Longrightarrow> find (ins k v m) = (find m)(k \<mapsto> v)"
    and find_del: "ok m \<Longrightarrow> find (del k m) = (find m)(k := None)"
begin

text \<open>Adding a key that is not there and removing it again gives back the same map.\<close>

lemma add_remove: "ok m \<Longrightarrow> find m k = None \<Longrightarrow> find (del k (ins k v m)) = find m"
  by (simp add: find_del ok_ins find_ins fun_upd_idem)

end

definition bm_keys :: "'b band_map \<Rightarrow> real set" where
  "bm_keys m = fst ` set m"

lemma bm_keys_simps [simp]: "bm_keys [] = {}" "bm_keys ((k, v) # m) = insert k (bm_keys m)"
  "bm_keys (bm_insert k v m) = insert k (bm_keys m)"
  by (simp add: bm_keys_def, simp add: bm_keys_def, induction k v m rule: bm_insert.induct) (auto simp: bm_keys_def)

lemma bm_ok_simps [simp]: "bm_ok []" "bm_ok ((k, v) # m) \<longleftrightarrow> bm_ok m \<and> (\<forall>k' \<in> bm_keys m. k < k')"
  by (auto simp: bm_ok_def bm_keys_def)

lemma bm_find_simps [simp]: "bm_find [] = Map.empty" "bm_find ((k, v) # m) = (bm_find m)(k \<mapsto> v)"
  by (auto simp: bm_find_def)

lemma bm_ok_insert: "bm_ok m \<Longrightarrow> bm_ok (bm_insert k v m)"
  by (induction k v m rule: bm_insert.induct) auto

lemma bm_find_insert: "bm_find (bm_insert k v m) = (bm_find m)(k \<mapsto> v)"
  by (induction k v m rule: bm_insert.induct) (auto intro!: ext)

lemma bm_find_erase: "bm_find (bm_erase k m) = (bm_find m)(k := None)"
  unfolding bm_find_def bm_erase_def by (induction m) (auto split: prod.splits)

lemma bm_ok_erase: "bm_ok m \<Longrightarrow> bm_ok (bm_erase k m)"
  unfolding bm_ok_def bm_erase_def by (induction m) auto

interpretation bm: ordered_map bm_ok bm_find bm_insert bm_erase
  by unfold_locales (simp_all add: bm_ok_insert bm_ok_erase bm_find_insert bm_find_erase)

subsection \<open>Bands and equalizer\<close>

record eq_child =
  c_freq :: real
  c_bandwidth :: real
  c_gain :: real

record CGstEqualizerBand =
  m_Bandwidth :: real
  m_Gain :: real
  m_Band :: "nat option"

text \<open>The equalizer with the element it drives: \<open>kids\<close> are the children of the element in order, \<open>child\<close> the
  properties of every child object, \<open>band_refs\<close> the number of references the bands hold on a child.\<close>

record CGstAudioEqualizer =
  m_BandMap :: "CGstEqualizerBand band_map"
  m_IsEnabled :: bool
  kids :: "nat list"
  child :: "nat \<Rightarrow> eq_child"
  band_refs :: "nat \<Rightarrow> int"

definition CGstAudioEqualizer_new :: "(nat \<Rightarrow> eq_child) \<Rightarrow> CGstAudioEqualizer" where
  "CGstAudioEqualizer_new ch = \<lparr>m_BandMap = [], m_IsEnabled = True, kids = [], child = ch, band_refs = (\<lambda>_. 0)\<rparr>"

text \<open>\<^verbatim>\<open>g_object_ref\<close> and \<^verbatim>\<open>g_object_unref\<close> on a child, and \<^verbatim>\<open>g_object_set\<close>; all ignore \<^verbatim>\<open>NULL\<close>.\<close>

definition add_refs :: "int \<Rightarrow> nat option \<Rightarrow> CGstAudioEqualizer \<Rightarrow> CGstAudioEqualizer" where
  "add_refs n ob e = (case ob of None \<Rightarrow> e | Some k \<Rightarrow> e\<lparr>band_refs := (band_refs e)(k := band_refs e k + n)\<rparr>)"

definition set_child :: "nat option \<Rightarrow> (eq_child \<Rightarrow> eq_child) \<Rightarrow> CGstAudioEqualizer \<Rightarrow> CGstAudioEqualizer" where
  "set_child ob f e = (case ob of None \<Rightarrow> e | Some k \<Rightarrow> e\<lparr>child := (child e)(k := f (child e k))\<rparr>)"

text \<open>\<^verbatim>\<open>gst_child_proxy_get_child_by_index\<close>: a new reference, or \<^verbatim>\<open>NULL\<close> when there is no such child.\<close>

definition child_by_index :: "nat \<Rightarrow> CGstAudioEqualizer \<Rightarrow> nat option" where
  "child_by_index i e = (if i < length (kids e) then Some (kids e ! i) else None)"

definition band_gain :: "CGstAudioEqualizer \<Rightarrow> CGstEqualizerBand \<Rightarrow> real" where
  "band_gain e b = (if m_IsEnabled e then m_Gain b else 0)"

definition ReplaceBand :: "nat option \<Rightarrow> CGstEqualizerBand \<Rightarrow> CGstAudioEqualizer \<Rightarrow> CGstEqualizerBand \<times> CGstAudioEqualizer" where
  "ReplaceBand p_Band b e = (b\<lparr>m_Band := p_Band\<rparr>, add_refs (- 1) (m_Band b) e)"

definition eq_IsEnabled :: "CGstAudioEqualizer \<Rightarrow> bool" where
  "eq_IsEnabled e \<longleftrightarrow> m_BandMap e \<noteq> [] \<and> m_IsEnabled e"

definition GetNumBands :: "CGstAudioEqualizer \<Rightarrow> int" where
  "GetNumBands e = int (length (m_BandMap e))"

text \<open>The loop of \<^verbatim>\<open>SetEnabled\<close> over the bands.\<close>

fun enable_loop :: "CGstEqualizerBand band_map \<Rightarrow> CGstAudioEqualizer \<Rightarrow> CGstAudioEqualizer" where
  "enable_loop [] e = e"
| "enable_loop ((f, b) # m) e = enable_loop m (set_child (m_Band b) (\<lambda>c. c\<lparr>c_gain := band_gain e b\<rparr>) e)"

definition eq_SetEnabled :: "bool \<Rightarrow> CGstAudioEqualizer \<Rightarrow> CGstAudioEqualizer" where
  "eq_SetEnabled isEnabled e = (let e = e\<lparr>m_IsEnabled := isEnabled\<rparr> in enable_loop (m_BandMap e) e)"

text \<open>The loop of \<^verbatim>\<open>UpdateBands\<close>: it returns the bands with their new children.\<close>

fun update_loop :: "nat \<Rightarrow> CGstEqualizerBand band_map \<Rightarrow> CGstAudioEqualizer \<Rightarrow>
    CGstEqualizerBand band_map \<times> CGstAudioEqualizer" where
  "update_loop i [] e = ([], e)"
| "update_loop i ((f, b) # m) e =
     (let k = child_by_index i e;
          (b, e) = ReplaceBand k b (add_refs 1 k e);
          e = set_child (m_Band b) (\<lambda>_. \<lparr>c_freq = f, c_bandwidth = m_Bandwidth b, c_gain = band_gain e b\<rparr>) e;
          (m, e) = update_loop (i + 1) m e
      in ((f, b) # m, e))"

definition UpdateBands :: "(nat list \<Rightarrow> nat \<Rightarrow> nat list) \<Rightarrow> CGstAudioEqualizer \<Rightarrow> CGstAudioEqualizer" where
  "UpdateBands resize e =
     (let e = e\<lparr>kids := resize (kids e) (length (m_BandMap e))\<rparr>;
          (m, e) = update_loop 0 (m_BandMap e) e
      in e\<lparr>m_BandMap := m\<rparr>)"

text \<open>The result of \<^verbatim>\<open>AddBand\<close> is whether a band was added (a pointer to it, or \<^verbatim>\<open>NULL\<close>).\<close>

definition AddBand :: "(nat list \<Rightarrow> nat \<Rightarrow> nat list) \<Rightarrow> real \<Rightarrow> real \<Rightarrow> real \<Rightarrow> CGstAudioEqualizer \<Rightarrow> bool \<times> CGstAudioEqualizer" where
  "AddBand resize frequency bandwidth gain e =
     (case bm_find (m_BandMap e) frequency of
        None \<Rightarrow> (True, UpdateBands resize (e\<lparr>m_BandMap := bm_insert frequency
                   \<lparr>m_Bandwidth = bandwidth, m_Gain = gain, m_Band = None\<rparr> (m_BandMap e)\<rparr>))
      | Some _ \<Rightarrow> (False, e))"

text \<open>Erasing an entry runs the destructor of the band, which releases its child.\<close>

definition RemoveBand :: "(nat list \<Rightarrow> nat \<Rightarrow> nat list) \<Rightarrow> real \<Rightarrow> CGstAudioEqualizer \<Rightarrow> bool \<times> CGstAudioEqualizer" where
  "RemoveBand resize frequency e =
     (case bm_find (m_BandMap e) frequency of
        None \<Rightarrow> (False, e)
      | Some b \<Rightarrow> (True, UpdateBands resize (add_refs (- 1) (m_Band b)
                    (e\<lparr>m_BandMap := bm_erase frequency (m_BandMap e)\<rparr>))))"

text \<open>Operations on the band a client got from \<^verbatim>\<open>AddBand\<close>, named by its key.\<close>

definition on_band :: "real \<Rightarrow> (CGstEqualizerBand \<Rightarrow> CGstAudioEqualizer \<Rightarrow> CGstEqualizerBand \<times> CGstAudioEqualizer) \<Rightarrow>
    CGstAudioEqualizer \<Rightarrow> CGstAudioEqualizer" where
  "on_band k f e = (case bm_find (m_BandMap e) k of
      None \<Rightarrow> e
    | Some b \<Rightarrow> (let (b, e') = f b e in e'\<lparr>m_BandMap := bm_insert k b (m_BandMap e')\<rparr>))"

definition GetCenterFrequency :: "CGstEqualizerBand \<Rightarrow> CGstAudioEqualizer \<Rightarrow> real option" where
  "GetCenterFrequency b e = map_option (\<lambda>k. c_freq (child e k)) (m_Band b)"

definition SetCenterFrequency :: "real \<Rightarrow> CGstEqualizerBand \<Rightarrow> CGstAudioEqualizer \<Rightarrow> CGstEqualizerBand \<times> CGstAudioEqualizer" where
  "SetCenterFrequency centerFrequency b e = (b, set_child (m_Band b) (\<lambda>c. c\<lparr>c_freq := centerFrequency\<rparr>) e)"

definition SetBandwidth :: "real \<Rightarrow> CGstEqualizerBand \<Rightarrow> CGstAudioEqualizer \<Rightarrow> CGstEqualizerBand \<times> CGstAudioEqualizer" where
  "SetBandwidth bandwidth b e =
     (if m_Bandwidth b \<noteq> bandwidth
      then (b\<lparr>m_Bandwidth := bandwidth\<rparr>, set_child (m_Band b) (\<lambda>c. c\<lparr>c_bandwidth := bandwidth\<rparr>) e)
      else (b, e))"

definition SetGain :: "real \<Rightarrow> CGstEqualizerBand \<Rightarrow> CGstAudioEqualizer \<Rightarrow> CGstEqualizerBand \<times> CGstAudioEqualizer" where
  "SetGain gain b e =
     (if m_Gain b \<noteq> gain
      then (b\<lparr>m_Gain := gain\<rparr>, if m_IsEnabled e then set_child (m_Band b) (\<lambda>c. c\<lparr>c_gain := gain\<rparr>) e else e)
      else (b, e))"

subsection \<open>The element mirrors the map\<close>

text \<open>A band and the child it drives.\<close>

definition settings :: "CGstAudioEqualizer \<Rightarrow> real \<times> CGstEqualizerBand \<Rightarrow> eq_child" where
  "settings e fb = \<lparr>c_freq = fst fb, c_bandwidth = m_Bandwidth (snd fb), c_gain = band_gain e (snd fb)\<rparr>"

definition mirror :: "CGstAudioEqualizer \<Rightarrow> real \<times> CGstEqualizerBand \<Rightarrow> nat \<Rightarrow> bool" where
  "mirror e fb k \<longleftrightarrow> m_Band (snd fb) = Some k \<and> child e k = settings e fb"

text \<open>The invariant of the equalizer: the map is in order, child number \<open>i\<close> of the element belongs to the band with
  the \<open>i\<close>-th lowest frequency and has its settings, and every band holds one reference, to its own child.\<close>

definition eq_inv :: "CGstAudioEqualizer \<Rightarrow> bool" where
  "eq_inv e \<longleftrightarrow> bm_ok (m_BandMap e) \<and> distinct (kids e) \<and> list_all2 (mirror e) (m_BandMap e) (kids e) \<and>
     (\<forall>k. band_refs e k = (if k \<in> set (kids e) then 1 else 0))"

text \<open>Documented behaviour of the element: setting \<^verbatim>\<open>num-bands\<close> gives it that many distinct children.\<close>

definition resizes :: "(nat list \<Rightarrow> nat \<Rightarrow> nat list) \<Rightarrow> bool" where
  "resizes resize \<longleftrightarrow> (\<forall>ks n. length (resize ks n) = n \<and> distinct (resize ks n))"

lemma eq_prims [simp]:
  "kids (add_refs n ob e) = kids e" "m_BandMap (add_refs n ob e) = m_BandMap e"
  "m_IsEnabled (add_refs n ob e) = m_IsEnabled e" "child (add_refs n ob e) = child e"
  "kids (set_child ob f e) = kids e" "m_BandMap (set_child ob f e) = m_BandMap e"
  "m_IsEnabled (set_child ob f e) = m_IsEnabled e" "band_refs (set_child ob f e) = band_refs e"
  by (simp_all add: add_refs_def set_child_def split: option.split)

lemma eq_effects [simp]:
  "child (set_child (Some k) f e) = (child e)(k := f (child e k))"
  "band_refs (add_refs n (Some k) e) = (band_refs e)(k := band_refs e k + n)"
  "band_refs (add_refs n None e) = band_refs e"
  by (simp_all add: add_refs_def set_child_def)

lemma update_loop_frame:
  "kids (snd (update_loop i m e)) = kids e" "m_IsEnabled (snd (update_loop i m e)) = m_IsEnabled e"
  "map fst (fst (update_loop i m e)) = map fst m"
  by (induction m arbitrary: i e) (auto simp: ReplaceBand_def Let_def split_beta)

text \<open>The loop leaves the children before its start alone.\<close>

lemma update_loop_child:
  assumes "distinct (kids e)" "i + length m \<le> length (kids e)" "\<And>j. i \<le> j \<Longrightarrow> j < i + length m \<Longrightarrow> kids e ! j \<noteq> k"
  shows "child (snd (update_loop i m e)) k = child e k"
  using assms
proof (induction m arbitrary: i e)
  case Nil
  then show ?case by simp
next
  case (Cons fb m)
  obtain f b where fb: "fb = (f, b)" by force
  from Cons.prems have i: "i < length (kids e)" "kids e ! i \<noteq> k" by simp_all
  have "child (snd (update_loop (i + 1) m e')) k = child e' k" if "kids e' = kids e" for e'
    by (rule Cons.IH) (use Cons.prems that in \<open>simp_all add: Suc_le_eq\<close>)
  with i show ?case by (simp add: fb ReplaceBand_def child_by_index_def Let_def split_beta)
qed

lemma update_loop_mirror:
  assumes "distinct (kids e)" "i + length m = length (kids e)"
  shows "list_all2 (mirror (snd (update_loop i m e))) (fst (update_loop i m e)) (drop i (kids e))"
  using assms
proof (induction m arbitrary: i e)
  case Nil
  then show ?case by simp
next
  case (Cons fb m)
  obtain f b where fb: "fb = (f, b)" by force
  define k where "k = kids e ! i"
  define e1 where "e1 = set_child (Some k) (\<lambda>_. \<lparr>c_freq = f, c_bandwidth = m_Bandwidth b, c_gain = band_gain e b\<rparr>)
    (add_refs (- 1) (m_Band b) (add_refs 1 (Some k) e))"
  let ?r = "update_loop (i + 1) m e1"
  from Cons.prems have i: "i < length (kids e)" by simp
  have kids1: "kids e1 = kids e" by (simp add: e1_def)
  have ul: "update_loop i (fb # m) e = ((f, b\<lparr>m_Band := Some k\<rparr>) # fst ?r, snd ?r)"
    using i by (simp add: fb ReplaceBand_def child_by_index_def Let_def split_beta e1_def k_def band_gain_def)
  have "child (snd ?r) k = child e1 k"
    by (rule update_loop_child) (use Cons.prems i in \<open>auto simp: kids1 k_def nth_eq_iff_index_eq\<close>)
  then have "mirror (snd ?r) (f, b\<lparr>m_Band := Some k\<rparr>) k"
    by (simp add: mirror_def settings_def e1_def band_gain_def update_loop_frame)
  moreover have "list_all2 (mirror (snd ?r)) (fst ?r) (drop (i + 1) (kids e1))"
    by (rule Cons.IH) (use Cons.prems in \<open>simp_all add: kids1\<close>)
  ultimately show ?case
    using i by (simp add: ul kids1 Cons_nth_drop_Suc [symmetric] k_def)
qed

text \<open>The references that the bands of a map hold on a child.\<close>

fun held_refs :: "CGstEqualizerBand band_map \<Rightarrow> nat \<Rightarrow> int" where
  "held_refs [] k = 0"
| "held_refs ((f, b) # m) k = (if m_Band b = Some k then 1 else 0) + held_refs m k"

lemma update_loop_refs:
  assumes "distinct (kids e)" "i + length m = length (kids e)"
  shows "band_refs (snd (update_loop i m e)) k =
    band_refs e k - held_refs m k + (if k \<in> set (drop i (kids e)) then 1 else 0)"
  using assms
proof (induction m arbitrary: i e)
  case Nil
  then show ?case by simp
next
  case (Cons fb m)
  obtain f b where fb: "fb = (f, b)" by force
  from Cons.prems have i: "i < length (kids e)" by simp
  define d where "d = kids e ! i"
  define e1 where "e1 = set_child (Some d) (\<lambda>_. \<lparr>c_freq = f, c_bandwidth = m_Bandwidth b, c_gain = band_gain e b\<rparr>)
    (add_refs (- 1) (m_Band b) (add_refs 1 (Some d) e))"
  have e1: "kids e1 = kids e" "band_refs e1 k =
      band_refs e k + (if k = d then 1 else 0) - (if m_Band b = Some k then 1 else 0)"
    by (cases "m_Band b"; simp add: e1_def)+
  have "snd (update_loop i (fb # m) e) = snd (update_loop (i + 1) m e1)"
    using i by (simp add: fb ReplaceBand_def child_by_index_def Let_def split_beta e1_def d_def band_gain_def)
  moreover have "band_refs (snd (update_loop (i + 1) m e1)) k =
      band_refs e1 k - held_refs m k + (if k \<in> set (drop (i + 1) (kids e)) then 1 else 0)"
    using Cons.IH [of e1 "i + 1"] Cons.prems by (simp add: e1)
  moreover have dr: "drop i (kids e) = d # drop (i + 1) (kids e)" using i by (simp add: Cons_nth_drop_Suc d_def)
  moreover have "d \<notin> set (drop (i + 1) (kids e))"
    using distinct_drop [OF Cons.prems(1), of i] unfolding dr by simp
  ultimately show ?case by (auto simp: fb e1)
qed

lemma UpdateBands_inv:
  assumes "resizes resize" "bm_ok (m_BandMap e)" "\<And>k. band_refs e k = held_refs (m_BandMap e) k"
  shows "eq_inv (UpdateBands resize e)"
proof -
  define e1 where "e1 = e\<lparr>kids := resize (kids e) (length (m_BandMap e))\<rparr>"
  have e1: "distinct (kids e1)" "0 + length (m_BandMap e) = length (kids e1)"
    using assms(1) by (simp_all add: e1_def resizes_def)
  let ?r = "update_loop 0 (m_BandMap e) e1"
  have "UpdateBands resize e = (snd ?r)\<lparr>m_BandMap := fst ?r\<rparr>"
    by (simp add: UpdateBands_def e1_def split_beta Let_def)
  moreover have "mirror ((snd ?r)\<lparr>m_BandMap := m\<rparr>) = mirror (snd ?r)" for m
    by (intro ext) (simp add: mirror_def settings_def band_gain_def)
  moreover have "bm_ok (fst ?r)" using assms(2) by (simp add: bm_ok_def update_loop_frame)
  moreover have "band_refs (snd ?r) k = (if k \<in> set (kids e1) then 1 else 0)" for k
    using update_loop_refs [OF e1, of k] assms(3) by (simp add: e1_def)
  ultimately show ?thesis
    using update_loop_mirror [OF e1] e1 by (simp add: eq_inv_def update_loop_frame)
qed

lemma mirror_held_refs:
  assumes "list_all2 (mirror e) m ks" "distinct ks"
  shows "held_refs m k = (if k \<in> set ks then 1 else 0)"
  using assms by (induction rule: list_all2_induct) (auto simp: mirror_def)

lemma held_insert: "bm_find m f = None \<Longrightarrow> m_Band b = None \<Longrightarrow> held_refs (bm_insert f b m) k = held_refs m k"
  by (induction f b m rule: bm_insert.induct) (auto split: if_splits)

lemma bm_find_None: "bm_find m k = None \<longleftrightarrow> k \<notin> bm_keys m"
  by (simp add: bm_find_def bm_keys_def map_of_eq_None_iff)

lemma bm_erase_absent: "k \<notin> bm_keys m \<Longrightarrow> bm_erase k m = m"
  by (force simp: bm_erase_def bm_keys_def filter_id_conv)

lemma held_erase: "bm_ok m \<Longrightarrow> bm_find m f = Some b \<Longrightarrow>
    held_refs (bm_erase f m) k = held_refs m k - (if m_Band b = Some k then 1 else 0)"
proof (induction m)
  case (Cons fb m)
  obtain f' b' where fb: "fb = (f', b')" by force
  show ?case
  proof (cases "f' = f")
    case True
    then have "f \<notin> bm_keys m" using Cons.prems by (auto simp: fb)
    then have "bm_erase f (fb # m) = m"
      using True bm_erase_absent [of f m] by (simp add: fb bm_erase_def)
    then show ?thesis using Cons.prems True by (simp add: fb)
  next
    case False
    then show ?thesis using Cons by (simp add: fb bm_erase_def)
  qed
qed simp

lemma eq_inv_held: "eq_inv e \<Longrightarrow> band_refs e k = held_refs (m_BandMap e) k"
  using mirror_held_refs [of e "m_BandMap e" "kids e" k] by (simp add: eq_inv_def)

lemma eq_inv_new: "eq_inv (CGstAudioEqualizer_new ch)"
  by (simp add: eq_inv_def CGstAudioEqualizer_new_def)

lemma eq_inv_AddBand:
  assumes "resizes resize" "eq_inv e"
  shows "eq_inv (snd (AddBand resize f w g e))"
proof (cases "bm_find (m_BandMap e) f")
  case None
  have "eq_inv (UpdateBands resize (e\<lparr>m_BandMap := bm_insert f \<lparr>m_Bandwidth = w, m_Gain = g, m_Band = None\<rparr> (m_BandMap e)\<rparr>))"
    by (rule UpdateBands_inv [OF assms(1)])
      (use assms(2) None eq_inv_held [OF assms(2)] in \<open>simp_all add: held_insert eq_inv_def bm_ok_insert\<close>)
  then show ?thesis by (simp add: AddBand_def None)
qed (use assms in \<open>simp add: AddBand_def\<close>)

lemma eq_inv_RemoveBand:
  assumes "resizes resize" "eq_inv e"
  shows "eq_inv (snd (RemoveBand resize f e))"
proof (cases "bm_find (m_BandMap e) f")
  case (Some b)
  have ok: "bm_ok (m_BandMap e)" using assms(2) by (simp add: eq_inv_def)
  have "eq_inv (UpdateBands resize (add_refs (- 1) (m_Band b) (e\<lparr>m_BandMap := bm_erase f (m_BandMap e)\<rparr>)))"
    by (rule UpdateBands_inv [OF assms(1)])
      (use ok Some eq_inv_held [OF assms(2)] in
        \<open>auto simp: held_erase [OF ok Some] bm_ok_erase add_refs_def split: option.split\<close>)
  then show ?thesis by (simp add: RemoveBand_def Some)
qed (use assms in \<open>simp add: RemoveBand_def\<close>)

text \<open>Enabling and disabling.\<close>

lemma enable_loop_frame [simp]:
  "kids (enable_loop m e) = kids e" "m_IsEnabled (enable_loop m e) = m_IsEnabled e"
  "band_refs (enable_loop m e) = band_refs e" "m_BandMap (enable_loop m e) = m_BandMap e"
  by (induction m e rule: enable_loop.induct) simp_all

lemma enable_loop_outside:
  "list_all2 (\<lambda>fb k. m_Band (snd fb) = Some k) m ks \<Longrightarrow> k \<notin> set ks \<Longrightarrow> child (enable_loop m e) k = child e k"
  by (induction m ks arbitrary: e rule: list_all2_induct) auto

lemma enable_loop_child:
  assumes "list_all2 (\<lambda>fb k. m_Band (snd fb) = Some k) m ks" "distinct ks"
  shows "list_all2 (\<lambda>fb k. child (enable_loop m e) k = (child e k)\<lparr>c_gain := band_gain e (snd fb)\<rparr>) m ks"
  using assms
proof (induction m ks arbitrary: e rule: list_all2_induct)
  case (Cons fb m k ks)
  let ?e = "set_child (Some k) (\<lambda>c. c\<lparr>c_gain := band_gain e (snd fb)\<rparr>) e"
  have el: "enable_loop (fb # m) e = enable_loop m ?e" using Cons.hyps(1) by (cases fb) simp
  have "list_all2 (\<lambda>fb k'. child (enable_loop m ?e) k' = (child ?e k')\<lparr>c_gain := band_gain ?e (snd fb)\<rparr>) m ks"
    by (rule Cons.IH) (use Cons.prems in simp)
  then have "list_all2 (\<lambda>fb k'. child (enable_loop m ?e) k' = (child e k')\<lparr>c_gain := band_gain e (snd fb)\<rparr>) m ks"
    using Cons.prems by (auto simp: list_all2_conv_all_nth band_gain_def)
  moreover have "child (enable_loop m ?e) k = child ?e k"
    using Cons by (intro enable_loop_outside) auto
  ultimately show ?case by (simp add: el)
qed simp

lemma eq_inv_SetEnabled:
  assumes "eq_inv e"
  shows "eq_inv (eq_SetEnabled b e)"
proof -
  let ?e = "e\<lparr>m_IsEnabled := b\<rparr>"
  have m: "list_all2 (mirror e) (m_BandMap e) (kids e)" "distinct (kids e)" using assms by (simp_all add: eq_inv_def)
  then have "list_all2 (\<lambda>fb k. m_Band (snd fb) = Some k) (m_BandMap e) (kids e)"
    by (auto simp: mirror_def elim: list_all2_mono)
  from enable_loop_child [OF this m(2), of ?e]
  have "list_all2 (mirror (enable_loop (m_BandMap e) ?e)) (m_BandMap e) (kids e)"
    using m by (auto simp: list_all2_conv_all_nth mirror_def settings_def band_gain_def)
  then show ?thesis using assms by (simp add: eq_inv_def eq_SetEnabled_def)
qed

text \<open>Operations on one band.\<close>

lemma bm_insert_present:
  "bm_ok m \<Longrightarrow> k \<in> bm_keys m \<Longrightarrow> bm_insert k b m = map (\<lambda>(f, x). if f = k then (f, b) else (f, x)) m"
proof (induction m)
  case (Cons fb m)
  obtain f x where fb: "fb = (f, x)" by force
  have "map (\<lambda>(f, x). if f = k then (f, b) else (f, x)) m = m" if "k \<notin> bm_keys m"
    using that by (intro map_idI) (force simp: bm_keys_def)
  with Cons show ?case by (auto simp: fb)
qed simp

lemma on_band_inv:
  assumes inv: "eq_inv e"
    and f: "\<And>b d. m_Band b = Some d \<Longrightarrow> child e d = settings e (k, b) \<Longrightarrow>
      \<exists>b'. f b e = (b', e\<lparr>child := (child e)(d := settings e (k, b'))\<rparr>) \<and> m_Band b' = Some d"
  shows "eq_inv (on_band k f e)"
proof (cases "bm_find (m_BandMap e) k")
  case (Some b)
  let ?m = "m_BandMap e"
  have ok: "bm_ok ?m" and m: "length ?m = length (kids e)" "\<And>i. i < length ?m \<Longrightarrow> mirror e (?m ! i) (kids e ! i)"
    and dist: "distinct (kids e)"
    using inv by (auto simp: eq_inv_def list_all2_conv_all_nth)
  from Some have "(k, b) \<in> set ?m" by (simp add: bm_find_def map_of_SomeD)
  then obtain i where i: "i < length ?m" "?m ! i = (k, b)" by (auto simp: in_set_conv_nth)
  from m(2) [OF i(1)] f [of b "kids e ! i"] i(2) obtain b' where
    b': "f b e = (b', e\<lparr>child := (child e)(kids e ! i := settings e (k, b'))\<rparr>)" "m_Band b' = Some (kids e ! i)"
    by (auto simp: mirror_def)
  define m' where "m' = map (\<lambda>(f, x). if f = k then (f, b') else (f, x)) ?m"
  have ob: "on_band k f e = e\<lparr>child := (child e)(kids e ! i := settings e (k, b')), m_BandMap := m'\<rparr>"
    using Some bm_insert_present [OF ok, of k b'] bm_find_None [of ?m k] by (simp add: on_band_def b' m'_def)
  have "distinct (map fst ?m)" using ok by (simp add: bm_ok_def strict_sorted_iff)
  then have keys: "fst (?m ! j) = k \<longleftrightarrow> j = i" if "j < length ?m" for j
    using that i nth_eq_iff_index_eq [of "map fst ?m" j i] by simp
  have "mirror (on_band k f e) (m' ! j) (kids e ! j)" if "j < length ?m" for j
  proof (cases "j = i")
    case True
    then show ?thesis using i by (simp add: ob m'_def mirror_def settings_def band_gain_def b'(2))
  next
    case False
    then have "m' ! j = ?m ! j" "kids e ! j \<noteq> kids e ! i"
      using that i keys [OF that] m(1) dist by (auto simp: m'_def split_beta nth_eq_iff_index_eq)
    then show ?thesis using m(2) [OF that] by (simp add: ob mirror_def settings_def band_gain_def)
  qed
  moreover have "map fst m' = map fst ?m" by (auto simp: m'_def)
  ultimately show ?thesis
    using inv ok m(1) by (simp add: eq_inv_def list_all2_conv_all_nth ob bm_ok_def) (simp add: m'_def)
qed (use inv in \<open>simp add: on_band_def\<close>)

lemma eq_inv_SetGain: "eq_inv e \<Longrightarrow> eq_inv (on_band k (SetGain g) e)"
  by (rule on_band_inv) (auto simp: SetGain_def set_child_def settings_def band_gain_def fun_upd_idem)

lemma eq_inv_SetBandwidth: "eq_inv e \<Longrightarrow> eq_inv (on_band k (SetBandwidth w) e)"
  by (rule on_band_inv) (auto simp: SetBandwidth_def set_child_def settings_def band_gain_def fun_upd_idem)

subsection \<open>Sequences of operations\<close>

datatype eq_op = OpAdd real real real | OpRemove real | OpEnable bool | OpGain real real | OpBandwidth real real

fun eq_step :: "(nat list \<Rightarrow> nat \<Rightarrow> nat list) \<Rightarrow> eq_op \<Rightarrow> CGstAudioEqualizer \<Rightarrow> CGstAudioEqualizer" where
  "eq_step resize (OpAdd f w g) e = snd (AddBand resize f w g e)"
| "eq_step resize (OpRemove f) e = snd (RemoveBand resize f e)"
| "eq_step resize (OpEnable b) e = eq_SetEnabled b e"
| "eq_step resize (OpGain f g) e = on_band f (SetGain g) e"
| "eq_step resize (OpBandwidth f w) e = on_band f (SetBandwidth w) e"

definition eq_run :: "(nat list \<Rightarrow> nat \<Rightarrow> nat list) \<Rightarrow> eq_op list \<Rightarrow> CGstAudioEqualizer \<Rightarrow> CGstAudioEqualizer" where
  "eq_run resize ops e = fold (eq_step resize) ops e"

lemma eq_inv_step: "resizes resize \<Longrightarrow> eq_inv e \<Longrightarrow> eq_inv (eq_step resize oper e)"
  by (cases oper) (simp_all add: eq_inv_AddBand eq_inv_RemoveBand eq_inv_SetEnabled eq_inv_SetGain eq_inv_SetBandwidth)


definition numbered :: "nat list \<Rightarrow> nat \<Rightarrow> nat list" where
  "numbered ks n = [0..<n]"

lemma resizes_numbered: "resizes numbered"
  by (simp add: resizes_def numbered_def)


text \<open>The keys and settings that clients see.\<close>

definition band_settings :: "CGstAudioEqualizer \<Rightarrow> real \<Rightarrow> (real \<times> real) option" where
  "band_settings e f = map_option (\<lambda>b. (m_Bandwidth b, m_Gain b)) (bm_find (m_BandMap e) f)"

lemma update_loop_settings:
  "map (\<lambda>(f, b). (f, m_Bandwidth b, m_Gain b)) (fst (update_loop i m e)) = map (\<lambda>(f, b). (f, m_Bandwidth b, m_Gain b)) m"
  by (induction m arbitrary: i e) (auto simp: ReplaceBand_def Let_def split_beta)

lemma band_settings_map: "band_settings e = map_of (map (\<lambda>(f, b). (f, m_Bandwidth b, m_Gain b)) (m_BandMap e))"
  unfolding band_settings_def bm_find_def by (induction "m_BandMap e" arbitrary: e) (auto simp: map_of_map split_beta intro!: ext)

lemma band_settings_UpdateBands [simp]: "band_settings (UpdateBands resize e) = band_settings e"
  by (simp add: band_settings_map UpdateBands_def Let_def split_beta update_loop_settings)

lemma band_settings_upd:
  "band_settings (add_refs n ob e) = band_settings e"
  "band_settings (e\<lparr>m_BandMap := bm_insert f b (m_BandMap e)\<rparr>) = (band_settings e)(f \<mapsto> (m_Bandwidth b, m_Gain b))"
  "band_settings (e\<lparr>m_BandMap := bm_erase f (m_BandMap e)\<rparr>) = (band_settings e)(f := None)"
  by (auto simp: band_settings_def bm_find_insert bm_find_erase)

lemma band_settings_find: "band_settings e f = map_option (\<lambda>b. (m_Bandwidth b, m_Gain b)) (bm_find (m_BandMap e) f)"
  by (simp add: band_settings_def)

lemma equalizer_map_add:
  "band_settings (snd (AddBand resize f w g e)) =
     (if band_settings e f = None then (band_settings e)(f \<mapsto> (w, g)) else band_settings e)"
  using band_settings_find [of e f]
  by (cases "bm_find (m_BandMap e) f") (simp_all add: AddBand_def band_settings_upd)

text \<open>C38: Seen from outside, the equalizer is a map from frequencies to bandwidth and gain: \<^verbatim>\<open>AddBand\<close> adds a band
  exactly when there is none at that frequency, and otherwise changes nothing; \<^verbatim>\<open>RemoveBand\<close> removes exactly the
  band asked for, and reports whether there was one; adding and removing a band gives back the same map.\<close>

theorem equalizer_refines_map:
  "fst (AddBand resize f w g e) = (band_settings e f = None) \<and>
   band_settings (snd (AddBand resize f w g e)) =
     (if band_settings e f = None then (band_settings e)(f \<mapsto> (w, g)) else band_settings e) \<and>
   fst (RemoveBand resize f e) = (band_settings e f \<noteq> None) \<and>
   band_settings (snd (RemoveBand resize f e)) = (band_settings e)(f := None)"
  using band_settings_find [of e f]
  by (cases "bm_find (m_BandMap e) f") (simp_all add: AddBand_def RemoveBand_def band_settings_upd fun_upd_idem)

subsection \<open>A centre frequency that is forgotten\<close>

lemma eq_inv_frequency:
  assumes "eq_inv e" "bm_find (m_BandMap e) f = Some b"
  shows "GetCenterFrequency b e = Some f"
proof -
  from assms(2) have "(f, b) \<in> set (m_BandMap e)" by (simp add: bm_find_def map_of_SomeD)
  then obtain i where i: "i < length (m_BandMap e)" "m_BandMap e ! i = (f, b)" by (auto simp: in_set_conv_nth)
  with assms(1) have "mirror e (f, b) (kids e ! i)" by (auto simp: eq_inv_def list_all2_conv_all_nth)
  then show ?thesis by (simp add: GetCenterFrequency_def mirror_def settings_def)
qed

lemma bm_find_keys: "bm_find m k = Some b \<Longrightarrow> k \<in> bm_keys m"
  using bm_find_None [of m k] by auto

lemma bm_insert_same: "bm_ok m \<Longrightarrow> bm_find m k = Some b \<Longrightarrow> bm_insert k b m = m"
  by (induction k b m rule: bm_insert.induct) (auto split: if_splits dest!: bm_find_keys)

lemma on_band_SetCenterFrequency:
  assumes "eq_inv e" "bm_find (m_BandMap e) f = Some b"
  shows "\<exists>ch. on_band f (SetCenterFrequency h) e = e\<lparr>child := ch\<rparr> \<and>
    GetCenterFrequency b (on_band f (SetCenterFrequency h) e) = Some h"
proof -
  from eq_inv_frequency [OF assms] obtain k where "m_Band b = Some k" by (auto simp: GetCenterFrequency_def)
  moreover have "bm_insert f b (m_BandMap e) = m_BandMap e"
    using assms by (intro bm_insert_same) (simp_all add: eq_inv_def)
  ultimately show ?thesis
    by (simp add: on_band_def assms(2) SetCenterFrequency_def set_child_def GetCenterFrequency_def) (rule exI, rule refl)
qed

text \<open>\<^verbatim>\<open>SetCenterFrequency\<close> takes effect in the element only, not in the map: the band answers with the new
  frequency until the next band is added, which puts the old frequency back without notice.\<close>

theorem center_frequency_forgotten:
  assumes "resizes resize" "eq_inv e" "bm_find (m_BandMap e) f = Some b" "bm_find (m_BandMap e) f' = None"
  shows "GetCenterFrequency b (on_band f (SetCenterFrequency h) e) = Some h \<and>
    (case bm_find (m_BandMap (snd (AddBand resize f' w g (on_band f (SetCenterFrequency h) e)))) f of
       None \<Rightarrow> False
     | Some b' \<Rightarrow> GetCenterFrequency b' (snd (AddBand resize f' w g (on_band f (SetCenterFrequency h) e))) = Some f)"
proof -
  obtain ch where ch: "on_band f (SetCenterFrequency h) e = e\<lparr>child := ch\<rparr>"
    "GetCenterFrequency b (on_band f (SetCenterFrequency h) e) = Some h"
    using on_band_SetCenterFrequency [OF assms(2,3)] by blast
  let ?e = "snd (AddBand resize f' w g (e\<lparr>child := ch\<rparr>))"
  let ?e1 = "e\<lparr>child := ch, m_BandMap := bm_insert f' \<lparr>m_Bandwidth = w, m_Gain = g, m_Band = None\<rparr> (m_BandMap e)\<rparr>"
  have "?e = UpdateBands resize ?e1" using assms(4) by (simp add: AddBand_def)
  moreover have "eq_inv (UpdateBands resize ?e1)"
    using assms(2,4) eq_inv_held [OF assms(2)]
    by (intro UpdateBands_inv [OF assms(1)]) (simp_all add: held_insert eq_inv_def bm_ok_insert)
  moreover have "band_settings ?e f \<noteq> None"
    using assms(3,4) equalizer_map_add [of resize f' w g "e\<lparr>child := ch\<rparr>"] by (auto simp: band_settings_def)
  moreover from this obtain b' where "bm_find (m_BandMap ?e) f = Some b'" by (auto simp: band_settings_find)
  ultimately show ?thesis
    using ch eq_inv_frequency [of ?e f b'] by (simp only: ch(1)) simp
qed

theorem center_frequency_forgotten_witness:
  "\<exists>b. GetCenterFrequency b (on_band 100 (SetCenterFrequency 440) (snd (AddBand numbered 100 19 6
     (CGstAudioEqualizer_new (\<lambda>_. \<lparr>c_freq = 0, c_bandwidth = 0, c_gain = 0\<rparr>))))) = Some 440"
proof -
  let ?e = "snd (AddBand numbered 100 19 6 (CGstAudioEqualizer_new (\<lambda>_. \<lparr>c_freq = 0, c_bandwidth = 0, c_gain = 0\<rparr>)))"
  have "eq_inv ?e" by (rule eq_inv_AddBand [OF resizes_numbered eq_inv_new])
  moreover obtain b where "bm_find (m_BandMap ?e) 100 = Some b" and "bm_find (m_BandMap ?e) 200 = None"
    by (simp add: AddBand_def CGstAudioEqualizer_new_def UpdateBands_def numbered_def child_by_index_def ReplaceBand_def Let_def)
  ultimately show ?thesis
    using center_frequency_forgotten [OF resizes_numbered, of ?e 100 b 200 440 1 1] by blast
qed

end
