(* ===== verification/Audio_Spectrum.thy ===== *)
theory Audio_Spectrum
  imports Gst_Video_Frame
begin

text \<open>
  The audio spectrum (\<^verbatim>\<open>GstAudioSpectrum.cpp\<close>): the properties of the GStreamer element, and the holder of the
  band values, a reference-counted object that the Java side exchanges with \<^verbatim>\<open>SetBands\<close> while the bus thread
  fills it with \<^verbatim>\<open>UpdateBands\<close>.  Holders are numbered; \<open>deleted\<close> lists the deleted ones, and \<open>misused\<close> tells
  whether a deleted holder or \<^verbatim>\<open>NULL\<close> was used.
\<close>

subsection \<open>Operations\<close>

record CGstAudioSpectrum =
  m_pHolder :: "nat option"
  m_RefCounter :: "nat \<Rightarrow> int"
  deleted :: "nat list"
  misused :: bool
  filled :: "(nat \<times> int) list"
  sp_post_messages :: bool
  sp_message_magnitude :: bool
  sp_message_phase :: bool
  sp_bands :: int
  sp_interval :: u64
  sp_threshold :: int

definition use_holder :: "nat \<Rightarrow> CGstAudioSpectrum \<Rightarrow> CGstAudioSpectrum" where
  "use_holder h s = s\<lparr>misused := (misused s \<or> h \<in> set (deleted s))\<rparr>"

definition InitRef :: "nat \<Rightarrow> CGstAudioSpectrum \<Rightarrow> CGstAudioSpectrum" where
  "InitRef ref s = s\<lparr>m_RefCounter := (m_RefCounter s)(ref := 1)\<rparr>"

definition AddRef :: "nat option \<Rightarrow> CGstAudioSpectrum \<Rightarrow> CGstAudioSpectrum" where
  "AddRef ref s = (case ref of
      None \<Rightarrow> s
    | Some h \<Rightarrow> (use_holder h s)\<lparr>m_RefCounter := (m_RefCounter s)(h := m_RefCounter s h + 1)\<rparr>)"

definition ReleaseRef :: "nat option \<Rightarrow> CGstAudioSpectrum \<Rightarrow> CGstAudioSpectrum" where
  "ReleaseRef ref s = (case ref of
      None \<Rightarrow> s
    | Some h \<Rightarrow>
        (let s = (use_holder h s)\<lparr>m_RefCounter := (m_RefCounter s)(h := m_RefCounter s h - 1)\<rparr>
         in if m_RefCounter s h = 0 then s\<lparr>deleted := h # deleted s\<rparr> else s))"

text \<open>The constructor; the first values of the element's other properties are the parameters.\<close>

definition CGstAudioSpectrum_new :: "bool \<Rightarrow> int \<Rightarrow> u64 \<Rightarrow> int \<Rightarrow> CGstAudioSpectrum" where
  "CGstAudioSpectrum_new enabled bands0 interval0 threshold0 =
     \<lparr>m_pHolder = None, m_RefCounter = (\<lambda>_. 0), deleted = [], misused = False, filled = [],
      sp_post_messages = enabled, sp_message_magnitude = True, sp_message_phase = True,
      sp_bands = bands0, sp_interval = interval0, sp_threshold = threshold0\<rparr>"

definition CGstAudioSpectrum_delete :: "CGstAudioSpectrum \<Rightarrow> CGstAudioSpectrum" where
  "CGstAudioSpectrum_delete s = ReleaseRef (m_pHolder s) s"

definition sp_IsEnabled :: "CGstAudioSpectrum \<Rightarrow> bool" where
  "sp_IsEnabled s = sp_post_messages s"

definition sp_SetEnabled :: "bool \<Rightarrow> CGstAudioSpectrum \<Rightarrow> CGstAudioSpectrum" where
  "sp_SetEnabled enabled s = s\<lparr>sp_post_messages := enabled\<rparr>"

definition GetBands :: "CGstAudioSpectrum \<Rightarrow> int" where
  "GetBands s = sp_bands s"

definition SetBands :: "int \<Rightarrow> nat option \<Rightarrow> CGstAudioSpectrum \<Rightarrow> CGstAudioSpectrum" where
  "SetBands bands holder s =
     (let s = s\<lparr>sp_bands := bands\<rparr>; old_holder = m_pHolder s
      in ReleaseRef old_holder (s\<lparr>m_pHolder := holder\<rparr>))"

text \<open>\<^verbatim>\<open>holder->UpdateBands(size, ...)\<close>, a virtual call that is made without a test.\<close>

definition fill_holder :: "nat option \<Rightarrow> int \<Rightarrow> CGstAudioSpectrum \<Rightarrow> CGstAudioSpectrum" where
  "fill_holder holder n s = (case holder of
      None \<Rightarrow> s\<lparr>misused := True\<rparr>
    | Some h \<Rightarrow> (use_holder h s)\<lparr>filled := (h, n) # filled s\<rparr>)"

text \<open>\<^verbatim>\<open>UpdateBands\<close> after the pointer was read.\<close>

definition UpdateBands_with :: "nat option \<Rightarrow> int \<Rightarrow> CGstAudioSpectrum \<Rightarrow> CGstAudioSpectrum" where
  "UpdateBands_with holder n s = ReleaseRef holder (fill_holder holder n (AddRef holder s))"

definition sp_UpdateBands :: "int \<Rightarrow> CGstAudioSpectrum \<Rightarrow> CGstAudioSpectrum" where
  "sp_UpdateBands n s = UpdateBands_with (m_pHolder s) n s"

definition GetInterval :: "CGstAudioSpectrum \<Rightarrow> real" where
  "GetInterval s = real (unat (sp_interval s)) / of_int GST_SECOND"

definition SetInterval :: "real \<Rightarrow> CGstAudioSpectrum \<Rightarrow> CGstAudioSpectrum" where
  "SetInterval interval s = s\<lparr>sp_interval := word_of_int (trunc_int (interval * of_int GST_SECOND))\<rparr>"

definition GetThreshold :: "CGstAudioSpectrum \<Rightarrow> int" where
  "GetThreshold s = sp_threshold s"

definition SetThreshold :: "int \<Rightarrow> CGstAudioSpectrum \<Rightarrow> CGstAudioSpectrum" where
  "SetThreshold threshold s = s\<lparr>sp_threshold := threshold\<rparr>"

lemmas holder_defs = use_holder_def InitRef_def AddRef_def ReleaseRef_def SetBands_def fill_holder_def
  UpdateBands_with_def sp_UpdateBands_def

subsection \<open>Holders are deleted exactly once\<close>

text \<open>What the Java side and the bus do: hand over a new holder, which starts with one reference, or fill the
  current one.\<close>

datatype sp_op = SpSet int nat | SpFill int

fun sp_step :: "sp_op \<Rightarrow> CGstAudioSpectrum \<Rightarrow> CGstAudioSpectrum" where
  "sp_step (SpSet n h) s = SetBands n (Some h) (InitRef h s)"
| "sp_step (SpFill n) s = sp_UpdateBands n s"

fun sp_holders :: "sp_op list \<Rightarrow> nat list" where
  "sp_holders [] = []"
| "sp_holders (SpSet n h # ops) = h # sp_holders ops"
| "sp_holders (SpFill n # ops) = sp_holders ops"

text \<open>The holder in use has one reference and is alive; the others that were handed over are deleted.\<close>

definition sp_inv :: "nat list \<Rightarrow> CGstAudioSpectrum \<Rightarrow> bool" where
  "sp_inv hs s \<longleftrightarrow> hs \<noteq> [] \<and> distinct hs \<and> m_pHolder s = Some (last hs) \<and> m_RefCounter s (last hs) = 1 \<and>
     deleted s = rev (butlast hs) \<and> \<not> misused s"

lemma sp_inv_snoc [simp]: "sp_inv (hs @ [h]) s \<longleftrightarrow> distinct (hs @ [h]) \<and> m_pHolder s = Some h \<and> m_RefCounter s h = 1 \<and>
     deleted s = rev hs \<and> \<not> misused s"
  by (simp add: sp_inv_def)

lemma sp_inv_set: "sp_inv hs s \<Longrightarrow> h \<notin> set hs \<Longrightarrow> sp_inv (hs @ [h]) (sp_step (SpSet n h) s)"
  unfolding sp_inv_snoc by (cases hs rule: rev_cases) (auto simp: sp_inv_def [of "[]"] holder_defs Let_def)

lemma sp_inv_fill: "sp_inv hs s \<Longrightarrow> sp_inv hs (sp_step (SpFill n) s)"
  by (cases hs rule: rev_cases) (auto simp: sp_inv_def [of "[]"] holder_defs Let_def)

lemma sp_inv_run:
  "sp_inv hs s \<Longrightarrow> distinct (hs @ sp_holders ops) \<Longrightarrow> sp_inv (hs @ sp_holders ops) (fold sp_step ops s)"
proof (induction ops arbitrary: hs s rule: sp_holders.induct)
  case (2 n h ops)
  then have "sp_inv (hs @ [h]) (sp_step (SpSet n h) s)" by (intro sp_inv_set) auto
  with 2 show ?case by (fastforce simp del: sp_step.simps)
next
  case (3 n ops)
  then show ?case using sp_inv_fill by (simp del: sp_step.simps)
qed simp

lemma sp_inv_first: "sp_inv [h] (sp_step (SpSet n h) (CGstAudioSpectrum_new b x i t))"
  by (simp add: sp_inv_def CGstAudioSpectrum_new_def holder_defs Let_def)

text \<open>When the Java side hands over a first holder and then others, each a new object, and the bus fills them
  meanwhile, one call at a time, the object that is replaced is deleted at once and no holder is used after its
  deletion; after the destructor of the spectrum every holder was deleted exactly once.\<close>

theorem spectrum_holders_balanced:
  assumes "distinct (h # sp_holders ops)"
  shows "deleted (CGstAudioSpectrum_delete (fold sp_step (SpSet n h # ops) (CGstAudioSpectrum_new b x i t))) =
      rev (h # sp_holders ops) \<and>
    \<not> misused (CGstAudioSpectrum_delete (fold sp_step (SpSet n h # ops) (CGstAudioSpectrum_new b x i t)))"
proof -
  let ?s = "fold sp_step (SpSet n h # ops) (CGstAudioSpectrum_new b x i t)"
  let ?hs = "[h] @ sp_holders ops"
  have inv: "sp_inv ?hs ?s"
    using sp_inv_run [OF sp_inv_first, of h ops n b x i t] assms by (simp del: sp_step.simps)
  moreover obtain hs' h' where "?hs = hs' @ [h']" by (cases ?hs rule: rev_cases) auto
  ultimately show ?thesis
    by (simp add: CGstAudioSpectrum_delete_def ReleaseRef_def use_holder_def Let_def)
qed

theorem spectrum_holders_balanced_witness:
  "deleted (CGstAudioSpectrum_delete (fold sp_step [SpSet 128 0, SpFill 128, SpSet 64 1, SpFill 64]
     (CGstAudioSpectrum_new False 128 0 0))) = [1, 0]"
  using spectrum_holders_balanced [of 0 "[SpFill 128, SpSet 64 1, SpFill 64]" 128 False 128 0 0] by simp

subsection \<open>The race between \<^verbatim>\<open>UpdateBands\<close> and \<^verbatim>\<open>SetBands\<close>\<close>

text \<open>Reading the pointer and taking a reference are two steps: when the Java side exchanges the holder
  between them, \<^verbatim>\<open>UpdateBands\<close> uses the holder after its deletion, and deletes it a second time.\<close>

theorem UpdateBands_race:
  assumes "m_pHolder s = Some h" "m_RefCounter s h = 1" "h' \<noteq> h"
  shows "misused (UpdateBands_with (m_pHolder s) n (sp_step (SpSet k h') s)) \<and>
    count_list (deleted (UpdateBands_with (m_pHolder s) n (sp_step (SpSet k h') s))) h = count_list (deleted s) h + 2"
  using assms by (simp add: holder_defs Let_def)

theorem UpdateBands_race_witness:
  "misused (UpdateBands_with (Some 0) 128 (sp_step (SpSet 64 1) (sp_step (SpSet 128 0) (CGstAudioSpectrum_new False 128 0 0))))"
  using UpdateBands_race [of "sp_step (SpSet 128 0) (CGstAudioSpectrum_new False 128 0 0)" 0 1 128 64]
  by (simp add: holder_defs Let_def CGstAudioSpectrum_new_def)

subsection \<open>The interval\<close>

text \<open>The interval between two spectrum messages survives a round trip up to one nanosecond.\<close>

theorem Interval_roundtrip:
  assumes "0 \<le> interval" "interval * 10 ^ 9 < 2 ^ 64"
  shows "GetInterval (SetInterval interval s) \<le> interval \<and> interval < GetInterval (SetInterval interval s) + 1 / 10 ^ 9"
proof -
  let ?n = "\<lfloor>interval * 10 ^ 9\<rfloor>"
  have "0 \<le> ?n" "?n < 2 ^ 64" using assms by (simp_all add: floor_less_iff)
  then have "real (unat (word_of_int ?n :: u64)) = of_int ?n"
    by (simp add: unsigned_of_int take_bit_int_eq_self)
  moreover have "of_int ?n \<le> interval * 10 ^ 9" "interval * 10 ^ 9 < of_int ?n + 1" by linarith+
  ultimately show ?thesis
    using assms by (simp add: GetInterval_def SetInterval_def trunc_int_def field_simps)
qed

theorem Interval_roundtrip_witness:
  "GetInterval (SetInterval (1 / 10) (CGstAudioSpectrum_new False 128 0 0)) \<le> 1 / 10"
  using Interval_roundtrip [of "1 / 10"] by simp

end
