(* ===== verification/Pipeline_Object.thy ===== *)
theory Pipeline_Object
  imports Gst_Video_Frame "HOL-Library.State_Monad"
begin

text \<open>
  The pipeline object of \<^verbatim>\<open>Pipeline.h\<close>, \<^verbatim>\<open>GstAudioPlaybackPipeline.h\<close> and
  \<^verbatim>\<open>GstAVPlaybackPipeline.h\<close>, as a record per class (the derived class extends the record of its
  base), and the primitives its methods are written with.

  A method is a program of the state monad over the object.  Everything outside the engine
  (GStreamer, glib, the Java side behind \<^verbatim>\<open>CPlayerEventDispatcher\<close>) is the parameter \<open>world\<close>: for
  each call it gives the answer, which may depend on every call made before.  The object carries
  four ghost fields: the calls made so far (\<open>log\<close>, newest first), the critical sections the thread
  is in (\<open>held\<close>, innermost first), whether a section was entered against the lock order or left
  out of turn (\<open>bad_lock\<close>), and whether a \<^verbatim>\<open>NULL\<close> pointer was used (\<open>crashed\<close>).
\<close>

subsection \<open>Calls that leave the engine\<close>

datatype gvalue = GInt int | GUInt u32 | GReal real | GBool bool

text \<open>The handlers and probes the engine installs.\<close>

datatype handler =
    h_OnParserSrcPadAdded | h_on_pad_added | h_no_more_pads | h_queue_overrun | h_queue_underrun
  | h_OnAppSinkHaveFrame | h_OnAppSinkPreroll

datatype probe = p_AudioSinkPadProbe | p_AudioSourcePadProbe | p_VideoDecoderSrcProbe

datatype Encoding = NONE | PCM | MPEG1AUDIO | MPEG1LAYER3 | AAC | H264 | H265 | CUSTOM

record CAudioTrack =
  at_id :: int
  at_name :: string
  at_encoding :: Encoding
  at_enabled :: bool
  at_language :: string
  at_channels :: int
  at_channelMask :: int
  at_sampleRate :: int

record CVideoTrack =
  vt_id :: int
  vt_name :: string
  vt_encoding :: Encoding
  vt_enabled :: bool
  vt_width :: int
  vt_height :: int
  vt_frameRate :: real
  vt_hasAlpha :: bool

text \<open>The methods of \<^verbatim>\<open>CPlayerEventDispatcher\<close>.\<close>

datatype (plugins only: code size) event =
    PlayerMediaErrorEvent errcode
  | PlayerHaltEvent string
  | PlayerStateEvent PlayerState
  | NewFrameEvent CGstVideoFrame
  | FrameSizeChangedEvent int int
  | AudioTrackEvent CAudioTrack
  | VideoTrackEvent CVideoTrack
  | BufferProgressEvent real int int int
  | DurationUpdateEvent real
  | AudioSpectrumEvent
  | Warning warncode

datatype (plugins only: code size) act =
    SetState gptr GstState
  | GetState gptr
  | Seek_act gptr real bool int
  | QueryDuration gptr
  | QueryPosition gptr
  | ObjSet gptr string gvalue
  | ObjGet gptr string
  | GetStaticPad gptr string
  | GetCaps gptr
  | AddProbe gptr probe
  | RemoveProbe gptr int
  | Connect gptr string handler
  | Disconnect gptr handler
  | BinAdd gptr gptr
  | BinRemove gptr gptr
  | PadLink gptr gptr
  | LinkMany "gptr list"
  | SyncState gptr
  | FactoryMake string
  | ProvideClock gptr
  | SetClock gptr gptr
  | RecalculateLatency gptr
  | ObjRef gptr
  | ObjUnref gptr
  | PostMessage gptr string
  | PullSample gptr
  | PullPreroll gptr
  | SampleUnref
  | CapsUnref
  | Emit event
  | NewObject string
  | DeleteObject string
  | GetManager
  | CreateWatch
  | SourceAttach
  | SourceDestroy
  | StartMainLoop
  | UpdateBands int

type_synonym history = "act list"

record world =
  w_os :: target_os
  w_ok :: "history \<Rightarrow> act \<Rightarrow> bool"
  w_state :: "history \<Rightarrow> GstState \<times> GstState"
  w_int :: "history \<Rightarrow> act \<Rightarrow> int"
  w_real :: "history \<Rightarrow> act \<Rightarrow> real"
  w_obj :: "history \<Rightarrow> act \<Rightarrow> gptr"
  w_caps :: "history \<Rightarrow> act \<Rightarrow> gst_caps option"
  w_sample :: "history \<Rightarrow> act \<Rightarrow> gst_sample option"

subsection \<open>The object\<close>

text \<open>The critical sections, in the order in which they may be nested.\<close>

datatype lock = DisposeLock | SeekLock | StallLock | StateLock

fun lock_rank :: "lock \<Rightarrow> nat" where
  "lock_rank DisposeLock = 0"
| "lock_rank SeekLock = 1"
| "lock_rank StallLock = 2"
| "lock_rank StateLock = 3"

record ghost =
  log :: history
  held :: "lock list"
  bad_lock :: bool
  crashed :: bool

record CPipeline = ghost +
  m_pEventDispatcher :: bool
  m_pOptions :: CPipelineOptions
  m_PlayerState :: PlayerState
  m_PlayerPendingState :: PlayerState
  m_bHasAudio :: bool
  m_bHasVideo :: bool
  m_bAudioInitDone :: bool
  m_bVideoInitDone :: bool
  m_bStaticPipeline :: bool
  m_bDynamicElementsReady :: bool
  m_bAudioSinkReady :: bool
  m_bVideoSinkReady :: bool

record AudioTrackInfo =
  trackEnabled :: bool
  trackID :: int
  mimeType :: string
  channels :: int
  rate :: int
  mpegversion :: int
  layer :: int

definition AudioTrackInfo_new :: AudioTrackInfo where
  "AudioTrackInfo_new = \<lparr>trackEnabled = False, trackID = 0, mimeType = [], channels = - 1, rate = - 1,
     mpegversion = - 1, layer = - 1\<rparr>"

text \<open>\<^verbatim>\<open>sBusCallbackContent\<close>; \<open>freed\<close> is a ghost that counts how often the block was deleted.\<close>

record sBusCallbackContent =
  m_bIsDisposed :: bool
  m_bIsDisposeInProgress :: bool
  m_bFreeMe :: bool
  freed :: nat

record CGstAudioPlaybackPipeline = CPipeline +
  m_Elements :: GstElementContainer
  m_pBusCallbackContent :: "sBusCallbackContent option"
  m_dResumeDeltaTime :: real
  m_fRate :: real
  m_bSeekInvoked :: bool
  m_ulLastStreamTime :: int
  m_pAudioEqualizer :: bool
  m_pAudioSpectrum :: bool
  m_audioCodecErrorCode :: errcode
  m_StallOnPause :: bool
  m_AudioFlags :: int
  m_audioSinkPadProbeHID :: int
  m_audioSourcePadProbeHID :: int
  m_BufferPosition :: real
  m_bHLSPBFull :: bool
  m_LastSeekTime :: int
  m_AudioTrackInfo :: AudioTrackInfo
  m_pBusSource :: bool
  m_bIgnoreError :: bool
  m_bResumePlayOnNonzeroRate :: bool
  m_dLastReportedDuration :: real
  m_bSetClock :: bool
  m_bIsClockSet :: bool
  m_llLastProgressValueStart :: int
  m_llLastProgressValuePosition :: int
  m_llLastProgressValueStop :: int
  m_bLastProgressValueEOS :: bool

text \<open>\<open>is_av\<close> tells the dynamic class of the object, which virtual calls dispatch on.\<close>

record CGstAVPlaybackPipeline = CGstAudioPlaybackPipeline +
  is_av :: bool
  m_SendFrameSizeEvent :: bool
  m_FrameWidth :: int
  m_FrameHeight :: int
  m_videoDecoderSrcProbeHID :: int
  m_EncodedVideoFrameRate :: real
  m_videoCodecErrorCode :: errcode
  m_FirstPTS :: u64

type_synonym pipe = CGstAVPlaybackPipeline

abbreviation DURATION_INDEFINITE :: real where "DURATION_INDEFINITE \<equiv> - 1"
abbreviation DURATION_UNKNOWN :: real where "DURATION_UNKNOWN \<equiv> - 2"

abbreviation AUDIO_RESUME_DELTA_TIME :: real where "AUDIO_RESUME_DELTA_TIME \<equiv> 10"
abbreviation VIDEO_RESUME_DELTA_TIME :: real where "VIDEO_RESUME_DELTA_TIME \<equiv> 10"

text \<open>The constructors.  \<^verbatim>\<open>m_audioSinkPadProbeHID\<close> and \<^verbatim>\<open>m_bResumePlayOnNonzeroRate\<close> are left
  uninitialised by the code: their first values are the parameters \<open>hid0\<close> and \<open>resume0\<close>.\<close>

definition CGstAudioPlaybackPipeline_new ::
  "int \<Rightarrow> bool \<Rightarrow> GstElementContainer \<Rightarrow> int \<Rightarrow> CPipelineOptions \<Rightarrow> pipe" where
  "CGstAudioPlaybackPipeline_new hid0 resume0 elements flags pOptions =
     \<lparr>log = [], held = [], bad_lock = False, crashed = False,
      m_pEventDispatcher = False, m_pOptions = pOptions,
      m_PlayerState = Unknown, m_PlayerPendingState = Unknown,
      m_bHasAudio = False, m_bHasVideo = False, m_bAudioInitDone = False, m_bVideoInitDone = False,
      m_bStaticPipeline = True, m_bDynamicElementsReady = False,
      m_bAudioSinkReady = False, m_bVideoSinkReady = False,
      m_Elements = elements, m_pBusCallbackContent = None,
      m_dResumeDeltaTime = (if container_get elements VIDEO_SINK \<noteq> None then VIDEO_RESUME_DELTA_TIME
                            else AUDIO_RESUME_DELTA_TIME),
      m_fRate = 1, m_bSeekInvoked = False, m_ulLastStreamTime = 0,
      m_pAudioEqualizer = False, m_pAudioSpectrum = False, m_audioCodecErrorCode = ERROR_NONE,
      m_StallOnPause = False, m_AudioFlags = flags,
      m_audioSinkPadProbeHID = hid0, m_audioSourcePadProbeHID = 0,
      m_BufferPosition = 0, m_bHLSPBFull = False, m_LastSeekTime = - 1,
      m_AudioTrackInfo = AudioTrackInfo_new, m_pBusSource = False, m_bIgnoreError = False,
      m_bResumePlayOnNonzeroRate = resume0, m_dLastReportedDuration = DURATION_UNKNOWN,
      m_bSetClock = False, m_bIsClockSet = False,
      m_llLastProgressValueStart = 0, m_llLastProgressValuePosition = 0,
      m_llLastProgressValueStop = 0, m_bLastProgressValueEOS = False,
      is_av = False, m_SendFrameSizeEvent = False, m_FrameWidth = 0, m_FrameHeight = 0,
      m_videoDecoderSrcProbeHID = 0, m_EncodedVideoFrameRate = 0,
      m_videoCodecErrorCode = ERROR_NONE, m_FirstPTS = GST_CLOCK_TIME_NONE\<rparr>"

definition CGstAVPlaybackPipeline_new ::
  "int \<Rightarrow> bool \<Rightarrow> GstElementContainer \<Rightarrow> int \<Rightarrow> CPipelineOptions \<Rightarrow> pipe" where
  "CGstAVPlaybackPipeline_new hid0 resume0 elements audioFlags pOptions =
     (CGstAudioPlaybackPipeline_new hid0 resume0 elements audioFlags pOptions)
       \<lparr>is_av := True, m_videoDecoderSrcProbeHID := 0, m_EncodedVideoFrameRate := 24,
        m_SendFrameSizeEvent := True, m_FrameWidth := 0, m_FrameHeight := 0,
        m_videoCodecErrorCode := ERROR_NONE, m_bStaticPipeline := False,
        m_FirstPTS := GST_CLOCK_TIME_NONE\<rparr>"

definition SetEventDispatcher :: "bool \<Rightarrow> pipe \<Rightarrow> pipe" where
  "SetEventDispatcher pEventDispatcher p = p\<lparr>m_pEventDispatcher := pEventDispatcher\<rparr>"

text \<open>A world in which every call succeeds, and an audio-video pipeline object with all its elements,
  for examples.\<close>

definition demo_world :: world where
  "demo_world = \<lparr>w_os = TARGET_OS_LINUX, w_ok = (\<lambda>_ _. True),
     w_state = (\<lambda>_. (GST_STATE_PLAYING, GST_STATE_VOID_PENDING)), w_int = (\<lambda>_ _. 0), w_real = (\<lambda>_ _. 1),
     w_obj = (\<lambda>_ _. Some 99), w_caps = (\<lambda>_ _. None), w_sample = (\<lambda>_ _. None)\<rparr>"

definition demo_elements :: GstElementContainer where
  "demo_elements = \<lparr>m_Map = [PIPELINE \<mapsto> Some 1, AUDIO_QUEUE \<mapsto> Some 2, VIDEO_QUEUE \<mapsto> Some 3,
     AUDIO_DECODER \<mapsto> Some 4, VIDEO_DECODER \<mapsto> Some 5, AUDIO_SINK \<mapsto> Some 6, VIDEO_SINK \<mapsto> Some 7,
     AUDIO_BIN \<mapsto> Some 8, VIDEO_BIN \<mapsto> Some 9, AV_DEMUXER \<mapsto> Some 10, AUDIO_VOLUME \<mapsto> Some 11,
     AUDIO_BALANCE \<mapsto> Some 12, AUDIO_EQUALIZER \<mapsto> Some 13, AUDIO_SPECTRUM \<mapsto> Some 14]\<rparr>"

definition demo_pipe :: pipe where
  "demo_pipe = SetEventDispatcher True
     (CGstAVPlaybackPipeline_new 0 False demo_elements 3 CPipelineOptions_new)"

subsection \<open>Primitives of the methods\<close>

type_synonym 'a pm = "(pipe, 'a) state"

abbreviation ret :: "'a \<Rightarrow> 'a pm" where "ret \<equiv> State_Monad.return"

definition gets :: "(pipe \<Rightarrow> 'a) \<Rightarrow> 'a pm" where
  "gets f = State (\<lambda>p. (f p, p))"

definition modify :: "(pipe \<Rightarrow> pipe) \<Rightarrow> unit pm" where
  "modify f = State (\<lambda>p. ((), f p))"

definition whenever :: "bool \<Rightarrow> unit pm \<Rightarrow> unit pm" where
  "whenever c m = (if c then m else ret ())"

definition elem :: "ElementRole \<Rightarrow> gptr pm" where
  "elem r = gets (\<lambda>p. container_get (m_Elements p) r)"

definition may_enter :: "lock \<Rightarrow> lock list \<Rightarrow> bool" where
  "may_enter l hs \<longleftrightarrow> l \<in> set hs \<or> (\<forall>h \<in> set hs. lock_rank h < lock_rank l)"

definition enter :: "lock \<Rightarrow> unit pm" where
  "enter l = modify (\<lambda>p. p\<lparr>held := l # held p, bad_lock := bad_lock p \<or> \<not> may_enter l (held p)\<rparr>)"

definition leave :: "lock \<Rightarrow> unit pm" where
  "leave l = modify (\<lambda>p. p\<lparr>held := tl (held p),
     bad_lock := bad_lock p \<or> held p = [] \<or> hd (held p) \<noteq> l\<rparr>)"

text \<open>A critical section: \<^verbatim>\<open>lock->Enter(); ... lock->Exit();\<close>.\<close>

definition locked :: "lock \<Rightarrow> 'a pm \<Rightarrow> 'a pm" where
  "locked l m = do { enter l; a \<leftarrow> m; leave l; ret a }"

definition ask :: "(history \<Rightarrow> act \<Rightarrow> 'a) \<Rightarrow> act \<Rightarrow> 'a pm" where
  "ask q a = State (\<lambda>p. (q (log p) a, p\<lparr>log := a # log p\<rparr>))"

abbreviation call :: "world \<Rightarrow> act \<Rightarrow> bool pm" where "call W \<equiv> ask (w_ok W)"

definition perform :: "act \<Rightarrow> unit pm" where
  "perform a = ask (\<lambda>_ _. ()) a"

definition gst_element_set_state :: "world \<Rightarrow> gptr \<Rightarrow> GstState \<Rightarrow> bool pm" where
  "gst_element_set_state W e s = call W (SetState e s)"

text \<open>\<^verbatim>\<open>gst_element_get_state(e, &state, &pending, 0)\<close>: whether it failed, and both states.\<close>

definition gst_element_get_state :: "world \<Rightarrow> gptr \<Rightarrow> (bool \<times> GstState \<times> GstState) pm" where
  "gst_element_get_state W e = ask (\<lambda>h a. (w_ok W h a, w_state W h)) (GetState e)"

text \<open>The use of a pointer member that may be \<^verbatim>\<open>NULL\<close>.\<close>

definition deref :: "(pipe \<Rightarrow> bool) \<Rightarrow> unit pm" where
  "deref nonnull = modify (\<lambda>p. if nonnull p then p else p\<lparr>crashed := True\<rparr>)"

text \<open>The pattern \<^verbatim>\<open>if (!Send...Event(...)) { if (!SendPlayerMediaErrorEvent(err)) log }\<close>.\<close>

definition send_or_error :: "world \<Rightarrow> event \<Rightarrow> errcode \<Rightarrow> unit pm" where
  "send_or_error W ev err = do {
     ok \<leftarrow> call W (Emit ev);
     if ok then ret () else do { call W (Emit (PlayerMediaErrorEvent err)); ret () }
   }"

definition SendPlayerMediaErrorEvent :: "world \<Rightarrow> errcode \<Rightarrow> unit pm" where
  "SendPlayerMediaErrorEvent W err = do { call W (Emit (PlayerMediaErrorEvent err)); ret () }"

subsection \<open>Running a program\<close>

definition after :: "'a pm \<Rightarrow> pipe \<Rightarrow> pipe" where
  "after m p = snd (run_state m p)"

definition result :: "'a pm \<Rightarrow> pipe \<Rightarrow> 'a" where
  "result m p = fst (run_state m p)"

lemma run_control [simp]:
  "after (ret a) p = p" "result (ret a) p = a"
  "after (State_Monad.bind m f) p = after (f (result m p)) (after m p)"
  "result (State_Monad.bind m f) p = result (f (result m p)) (after m p)"
  "after (if c then m else n) p = (if c then after m p else after n p)"
  "result (if c then k else l) p = (if c then result k p else result l p)"
  by (simp_all add: after_def result_def split_beta)

lemma run_State [simp]: "after (State f) p = snd (f p)" "result (State f) p = fst (f p)"
  by (simp_all add: after_def result_def)

lemma run_prims [simp]:
  "after (gets f) p = p" "result (gets f) p = f p"
  "after (modify g) p = g p"
  "after (ask q a) p = p\<lparr>log := a # log p\<rparr>" "result (ask q a) p = q (log p) a"
  "after (elem r) p = p" "result (elem r) p = container_get (m_Elements p) r"
  by (simp_all add: gets_def modify_def ask_def elem_def)

lemma run_whenever [simp]: "after (whenever c m) p = (if c then after m p else p)"
  by (simp add: whenever_def)

lemma run_locks [simp]:
  "after (enter l) p = p\<lparr>held := l # held p, bad_lock := bad_lock p \<or> \<not> may_enter l (held p)\<rparr>"
  "after (leave l) p = p\<lparr>held := tl (held p), bad_lock := bad_lock p \<or> held p = [] \<or> hd (held p) \<noteq> l\<rparr>"
  "after (locked l k) p = after (leave l) (after k (after (enter l) p))"
  "result (locked l k) p = result k (after (enter l) p)"
  by (simp_all add: enter_def leave_def locked_def)

lemma run_calls [simp]:
  "after (perform a) p = p\<lparr>log := a # log p\<rparr>"
  "after (gst_element_set_state W e s) p = p\<lparr>log := SetState e s # log p\<rparr>"
  "result (gst_element_set_state W e s) p = w_ok W (log p) (SetState e s)"
  "after (gst_element_get_state W e) p = p\<lparr>log := GetState e # log p\<rparr>"
  "result (gst_element_get_state W e) p = (w_ok W (log p) (GetState e), w_state W (log p))"
  "after (SendPlayerMediaErrorEvent W err) p = p\<lparr>log := Emit (PlayerMediaErrorEvent err) # log p\<rparr>"
  "after (deref c) p = (if c p then p else p\<lparr>crashed := True\<rparr>)"
  by (simp_all add: perform_def gst_element_set_state_def gst_element_get_state_def
      SendPlayerMediaErrorEvent_def deref_def)

lemma after_send [simp]:
  "after (send_or_error W ev err) p = p\<lparr>log := (if w_ok W (log p) (Emit ev) then [Emit ev]
     else [Emit (PlayerMediaErrorEvent err), Emit ev]) @ log p\<rparr>"
  by (simp add: send_or_error_def)

lemma io_rel_after: "state_io_rel R m \<longleftrightarrow> (\<forall>p. R p (after m p))"
  by (simp add: state_io_rel_def after_def)

lemma lock_rank_StateLock: "h = StateLock \<or> lock_rank h < 3"
  by (cases h) auto

lemma may_enter_StateLock [simp]: "may_enter StateLock hs"
  unfolding may_enter_def by (metis lock_rank.simps(4) lock_rank_StateLock)

subsection \<open>A calculus for whole-program facts\<close>

text \<open>
  A reflexive and transitive relation between the object before and after is respected by a program
  when it is respected by its parts.  \<open>state_io_rel R m\<close> says that the program \<open>m\<close> respects \<open>R\<close>.
\<close>

locale transition =
  fixes R :: "pipe \<Rightarrow> pipe \<Rightarrow> bool"
  assumes refl: "R p p"
    and trans: "R p q \<Longrightarrow> R q r \<Longrightarrow> R p r"
begin

lemma bindI: "state_io_rel R m \<Longrightarrow> (\<And>a. state_io_rel R (f a)) \<Longrightarrow> state_io_rel R (State_Monad.bind m f)"
  unfolding io_rel_after by simp (blast intro: trans)

lemma returnI: "state_io_rel R (ret a)"
  and getsI: "state_io_rel R (gets g)"
  and elemI: "state_io_rel R (elem r)"
  by (simp_all add: io_rel_after refl)

lemma modifyI: "(\<And>p. R p (f p)) \<Longrightarrow> state_io_rel R (modify f)"
  by (simp add: io_rel_after)

lemma ifI: "(c \<Longrightarrow> state_io_rel R m) \<Longrightarrow> (\<not> c \<Longrightarrow> state_io_rel R n) \<Longrightarrow> state_io_rel R (if c then m else n)"
  by simp

lemma wheneverI: "(c \<Longrightarrow> state_io_rel R m) \<Longrightarrow> state_io_rel R (whenever c m)"
  by (simp add: whenever_def returnI)

lemma case_optionI:
  "state_io_rel R m \<Longrightarrow> (\<And>a. x = Some a \<Longrightarrow> state_io_rel R (f a)) \<Longrightarrow>
   state_io_rel R (case x of None \<Rightarrow> m | Some a \<Rightarrow> f a)"
  by (simp split: option.split)

lemma case_prodI: "(\<And>a b. state_io_rel R (f a b)) \<Longrightarrow> state_io_rel R (case x of (a, b) \<Rightarrow> f a b)"
  by (simp split: prod.split)

lemma letI: "(\<And>a. state_io_rel R (f a)) \<Longrightarrow> state_io_rel R (let a = x in f a)"
  by (simp add: Let_def)

lemmas control = bindI returnI getsI elemI ifI wheneverI case_optionI case_prodI letI

end

text \<open>Relations that do not look at the log, the locks and the crash flag.\<close>

locale quiet = transition +
  assumes quiet_log: "R p (p\<lparr>log := h\<rparr>)"
    and quiet_lock: "R p (p\<lparr>held := hs, bad_lock := b\<rparr>)"
    and quiet_crash: "R p (p\<lparr>crashed := c\<rparr>)"
begin

lemma askI: "state_io_rel R (ask q a)"
  and performI: "state_io_rel R (perform a)"
  and set_stateI: "state_io_rel R (gst_element_set_state W e s)"
  and get_stateI: "state_io_rel R (gst_element_get_state W e)"
  and sendErrorI: "state_io_rel R (SendPlayerMediaErrorEvent W err)"
  by (simp_all add: io_rel_after quiet_log)

lemma sendI: "state_io_rel R (send_or_error W ev err)"
  unfolding io_rel_after after_send by (blast intro: quiet_log)

lemma enterI: "state_io_rel R (enter l)"
  and leaveI: "state_io_rel R (leave l)"
  by (simp_all add: io_rel_after quiet_lock)

lemma lockedI: "state_io_rel R m \<Longrightarrow> state_io_rel R (locked l m)"
  unfolding locked_def by (intro control enterI leaveI)

lemma derefI: "state_io_rel R (deref c)"
  by (simp add: io_rel_after quiet_crash refl)

lemmas rules = control askI performI enterI leaveI lockedI derefI set_stateI get_stateI sendI sendErrorI

end

text \<open>A field that a program leaves alone.\<close>

locale field =
  fixes F :: "pipe \<Rightarrow> 'v"
  assumes field_log: "F (p\<lparr>log := h\<rparr>) = F p"
    and field_lock: "F (p\<lparr>held := hs, bad_lock := b\<rparr>) = F p"
    and field_crash: "F (p\<lparr>crashed := c\<rparr>) = F p"
begin

definition same :: "pipe \<Rightarrow> pipe \<Rightarrow> bool" where
  "same p q \<longleftrightarrow> F q = F p"

lemma sameD: "state_io_rel same m \<Longrightarrow> F (after m p) = F p"
  by (simp add: io_rel_after same_def)

end

sublocale field \<subseteq> quiet same
  by unfold_locales (simp_all add: same_def field_log field_lock field_crash)

subsection \<open>The lock discipline\<close>

text \<open>
  \<open>lock_rel n\<close>: started in order and with no section of rank above \<open>n\<close> held, the program stays in
  order and leaves every section it enters.
\<close>

definition lock_rel :: "nat \<Rightarrow> pipe \<Rightarrow> pipe \<Rightarrow> bool" where
  "lock_rel n p q \<longleftrightarrow>
     (\<not> bad_lock p \<and> (\<forall>l \<in> set (held p). lock_rank l \<le> n) \<longrightarrow> \<not> bad_lock q \<and> held q = held p)"

interpretation lk: transition "lock_rel n" for n
  by unfold_locales (auto simp: lock_rel_def)

lemma lock_rank_inj: "lock_rank l = lock_rank l' \<longleftrightarrow> l = l'"
  by (cases l; cases l') auto

lemma may_enter_le: "\<forall>h \<in> set hs. lock_rank h \<le> lock_rank l \<Longrightarrow> may_enter l hs"
  using lock_rank_inj by (auto simp: may_enter_def order.order_iff_strict)

text \<open>A section around a program that only enters sections further down the order.\<close>

lemma lk_locked:
  assumes "n \<le> lock_rank l" and "state_io_rel (lock_rel (lock_rank l)) m"
  shows "state_io_rel (lock_rel n) (locked l m)"
  unfolding io_rel_after
proof
  fix p :: pipe
  have "lock_rel (lock_rank l) (after (enter l) p) (after m (after (enter l) p))"
    using assms(2) by (simp add: io_rel_after)
  moreover have "\<not> bad_lock p \<and> (\<forall>h \<in> set (held p). lock_rank h \<le> n) \<Longrightarrow>
      \<not> bad_lock (after (enter l) p) \<and> (\<forall>h \<in> set (held (after (enter l) p)). lock_rank h \<le> lock_rank l)"
    using assms(1) may_enter_le [of "held p" l] by (auto intro: order_trans)
  ultimately show "lock_rel n p (after (locked l m) p)"
    by (auto simp: lock_rel_def)
qed

lemma lk_mono: "state_io_rel (lock_rel n) m \<Longrightarrow> k \<le> n \<Longrightarrow> state_io_rel (lock_rel k) m"
  unfolding io_rel_after lock_rel_def by (meson order_trans)

lemma lk_prims:
  "state_io_rel (lock_rel n) (ask q a)"
  "state_io_rel (lock_rel n) (perform a)"
  "state_io_rel (lock_rel n) (deref c)"
  "state_io_rel (lock_rel n) (gst_element_set_state W e s)"
  "state_io_rel (lock_rel n) (gst_element_get_state W e)"
  "state_io_rel (lock_rel n) (SendPlayerMediaErrorEvent W err)"
  "state_io_rel (lock_rel n) (send_or_error W ev err)"
  by (simp_all add: io_rel_after lock_rel_def)

lemma lk_modify:
  "(\<And>p. held (f p) = held p \<and> bad_lock (f p) = bad_lock p) \<Longrightarrow> state_io_rel (lock_rel n) (modify f)"
  by (simp add: io_rel_after lock_rel_def)

lemmas lk_rules = lk.control lk_locked lk_prims lk_modify

subsection \<open>The calls a program makes\<close>

text \<open>\<open>new_acts P\<close>: the log only grows, and every new entry satisfies \<open>P\<close>.\<close>

definition new_acts :: "(act \<Rightarrow> bool) \<Rightarrow> pipe \<Rightarrow> pipe \<Rightarrow> bool" where
  "new_acts P p q \<longleftrightarrow> (\<exists>h. log q = h @ log p \<and> (\<forall>a \<in> set h. P a))"

interpretation acts: transition "new_acts P" for P
proof
  show "new_acts P p p" for p by (simp add: new_acts_def)
  show "new_acts P p r" if "new_acts P p q" "new_acts P q r" for p q r
  proof -
    from that obtain h h' where "log q = h @ log p" "\<forall>a \<in> set h. P a" "log r = h' @ log q" "\<forall>a \<in> set h'. P a"
      by (auto simp: new_acts_def)
    then have "log r = (h' @ h) @ log p \<and> (\<forall>a \<in> set (h' @ h). P a)" by auto
    then show ?thesis unfolding new_acts_def by blast
  qed
qed

lemma new_acts_one: "P a \<Longrightarrow> log q = a # log p \<Longrightarrow> new_acts P p q"
  unfolding new_acts_def by (rule exI [of _ "[a]"]) simp

lemma new_acts_same: "log q = log p \<Longrightarrow> new_acts P p q"
  unfolding new_acts_def by (rule exI [of _ "[]"]) simp

lemma acts_ask: "P a \<Longrightarrow> state_io_rel (new_acts P) (ask q a)"
  and acts_perform: "P a \<Longrightarrow> state_io_rel (new_acts P) (perform a)"
  by (simp_all add: io_rel_after new_acts_one)

lemma acts_set_state: "P (SetState e s) \<Longrightarrow> state_io_rel (new_acts P) (gst_element_set_state W e s)"
  and acts_get_state: "P (GetState e) \<Longrightarrow> state_io_rel (new_acts P) (gst_element_get_state W e)"
  and acts_error: "P (Emit (PlayerMediaErrorEvent err)) \<Longrightarrow>
    state_io_rel (new_acts P) (SendPlayerMediaErrorEvent W err)"
  by (simp_all add: io_rel_after new_acts_one)

lemma acts_modify: "(\<And>p. log (f p) = log p) \<Longrightarrow> state_io_rel (new_acts P) (modify f)"
  and acts_enter: "state_io_rel (new_acts P) (enter l)"
  and acts_leave: "state_io_rel (new_acts P) (leave l)"
  and acts_deref: "state_io_rel (new_acts P) (deref c)"
  by (simp_all add: io_rel_after new_acts_same)

lemma acts_locked: "state_io_rel (new_acts P) m \<Longrightarrow> state_io_rel (new_acts P) (locked l m)"
  unfolding locked_def by (intro acts.control acts_enter acts_leave)

lemma acts_send:
  "P (Emit ev) \<Longrightarrow> P (Emit (PlayerMediaErrorEvent err)) \<Longrightarrow> state_io_rel (new_acts P) (send_or_error W ev err)"
  unfolding send_or_error_def by (intro acts.control acts_ask)

lemmas acts_rules = acts.control acts_ask acts_perform acts_set_state acts_get_state acts_error
  acts_modify acts_deref acts_locked acts_send

lemma new_actsD: "new_acts P p q \<Longrightarrow> a \<in> set (log q) \<Longrightarrow> a \<in> set (log p) \<or> P a"
  by (auto simp: new_acts_def)

lemma new_acts_mono: "new_acts P p q \<Longrightarrow> (\<And>a. P a \<Longrightarrow> Q a) \<Longrightarrow> new_acts Q p q"
  by (auto simp: new_acts_def)

end
