(* ===== verification/Pipeline_Factory.thy ===== *)
theory Pipeline_Factory
  imports Pipeline_Object
begin

text \<open>
  \<^verbatim>\<open>GstPipelineFactory.cpp\<close>: how a pipeline is put together for a locator.  The factory builds GStreamer
  elements, collects them in a \<^verbatim>\<open>GstElementContainer\<close>, fills in the options and finally creates the pipeline
  object.  A method is a program of the state monad over \<open>factory\<close> (the calls made so far, the container and
  the options) that returns an error code or a result; the answers of GStreamer are the parameter \<open>fworld\<close>.
\<close>

subsection \<open>Calls and state\<close>

datatype source_handler = SourceReadNextBlock | SourceReadBlock | SourceCopyBlock | SourceSeekData
  | SourceProperty | SourceCloseConnection

datatype (plugins only: code size) fact_act =
    Make string
  | NewBin
  | NewPipeline
  | Add gptr gptr
  | AddMany gptr "gptr list"
  | Link "gptr list"
  | StaticPad gptr string
  | GhostPad gptr
  | ActivatePad gptr
  | AddPad gptr gptr
  | RefObj gptr
  | UnrefObj gptr
  | ConnectSource gptr source_handler
  | DisconnectSource gptr source_handler
  | ConnectBuffer gptr gptr
  | DisconnectBuffer gptr gptr
  | SetProp gptr string gvalue
  | SetString gptr string string
  | FindByFactory gptr string
  | ElementState gptr GstState
  | SyncParent gptr
  | PostError errcode
  | CloseConnection
  | DeleteCallbacks
  | NewObj string

type_synonym fhistory = "fact_act list"

text \<open>The steps of \<^verbatim>\<open>gst_bin_iterate_elements\<close>: an element with the name of its factory, a request to start over,
  or a failure; the end of the list is the end of the iteration.\<close>

datatype iter_step = ITERATOR_OK gobj string | ITERATOR_RESYNC | ITERATOR_ERROR

record fworld =
  fw_os :: target_os
  fw_obj :: "fhistory \<Rightarrow> fact_act \<Rightarrow> gptr"
  fw_ok :: "fhistory \<Rightarrow> fact_act \<Rightarrow> bool"
  fw_iter :: "fhistory \<Rightarrow> gptr \<Rightarrow> iter_step list option"

record factory =
  f_log :: fhistory
  f_elems :: GstElementContainer
  f_opts :: CPipelineOptions

type_synonym 'a fm = "(factory, 'a) state"
type_synonym 'a fres = "(errcode + 'a) fm"

abbreviation fret :: "'a \<Rightarrow> 'a fm" where "fret \<equiv> State_Monad.return"
abbreviation fail :: "errcode \<Rightarrow> 'a fres" where "fail err \<equiv> State_Monad.return (Inl err)"
abbreviation success :: "'a \<Rightarrow> 'a fres" where "success a \<equiv> State_Monad.return (Inr a)"

definition fgets :: "(factory \<Rightarrow> 'a) \<Rightarrow> 'a fm" where
  "fgets f = State (\<lambda>s. (f s, s))"

definition fmodify :: "(factory \<Rightarrow> factory) \<Rightarrow> unit fm" where
  "fmodify f = State (\<lambda>s. ((), f s))"

definition fask :: "(fhistory \<Rightarrow> fact_act \<Rightarrow> 'a) \<Rightarrow> fact_act \<Rightarrow> 'a fm" where
  "fask q a = State (\<lambda>s. (q (f_log s) a, s\<lparr>f_log := a # f_log s\<rparr>))"

definition fdo :: "fact_act \<Rightarrow> unit fm" where
  "fdo a = fask (\<lambda>_ _. ()) a"

definition fwhen :: "bool \<Rightarrow> unit fm \<Rightarrow> unit fm" where
  "fwhen c m = (if c then m else fret ())"

text \<open>\<^verbatim>\<open>if (!c) return err;\<close>, and \<^verbatim>\<open>uRetCode = m(...); if (ERROR_NONE != uRetCode) return uRetCode;\<close>.\<close>

definition ensure :: "bool \<Rightarrow> errcode \<Rightarrow> 'a fres \<Rightarrow> 'a fres" where
  "ensure c err k = (if c then k else fail err)"

definition andthen :: "'a fres \<Rightarrow> ('a \<Rightarrow> 'b fres) \<Rightarrow> 'b fres" where
  "andthen m k = do { r \<leftarrow> m; (case r of Inl err \<Rightarrow> fail err | Inr a \<Rightarrow> k a) }"

definition felem :: "ElementRole \<Rightarrow> gptr fm" where
  "felem r = fgets (\<lambda>s. container_get (f_elems s) r)"

definition fadd :: "ElementRole \<Rightarrow> gptr \<Rightarrow> unit fm" where
  "fadd r e = fmodify (\<lambda>s. s\<lparr>f_elems := container_add r e (f_elems s)\<rparr>)"

definition fopts :: "(CPipelineOptions \<Rightarrow> CPipelineOptions) \<Rightarrow> unit fm" where
  "fopts f = fmodify (\<lambda>s. s\<lparr>f_opts := f (f_opts s)\<rparr>)"

abbreviation fobj :: "fworld \<Rightarrow> fact_act \<Rightarrow> gptr fm" where "fobj W \<equiv> fask (fw_obj W)"
abbreviation fcall :: "fworld \<Rightarrow> fact_act \<Rightarrow> bool fm" where "fcall W \<equiv> fask (fw_ok W)"

subsection \<open>Elements\<close>

definition CreateElement :: "fworld \<Rightarrow> string option \<Rightarrow> gptr fm" where
  "CreateElement W strFactoryName = (case strFactoryName of None \<Rightarrow> fret None | Some n \<Rightarrow> fobj W (Make n))"

fun find_factory :: "string \<Rightarrow> iter_step list \<Rightarrow> gptr" where
  "find_factory name [] = None"
| "find_factory name (ITERATOR_OK e factory # steps) =
     (if prefix name factory then Some e else find_factory name steps)"
| "find_factory name (ITERATOR_RESYNC # steps) = find_factory name steps"
| "find_factory name (ITERATOR_ERROR # steps) = None"

definition GetByFactoryName :: "fworld \<Rightarrow> gptr \<Rightarrow> string \<Rightarrow> gptr fm" where
  "GetByFactoryName W bin strFactoryName = do {
     steps \<leftarrow> fask (\<lambda>h _. fw_iter W h bin) (FindByFactory bin strFactoryName);
     (case steps of
        None \<Rightarrow> fret None
      | Some steps \<Rightarrow> do {
          let element = find_factory strFactoryName steps;
          fwhen (element \<noteq> None) (fdo (RefObj element));
          fret element
        })
   }"

definition CreateAudioSinkElement :: "fworld \<Rightarrow> gptr fm" where
  "CreateAudioSinkElement W = (case fw_os W of
      TARGET_OS_WIN32 \<Rightarrow> CreateElement W (Some ''directsoundsink'')
    | TARGET_OS_MAC \<Rightarrow> CreateElement W (Some ''osxaudiosink'')
    | TARGET_OS_LINUX \<Rightarrow> CreateElement W (Some ''alsasink'')
    | TARGET_OS_OTHER \<Rightarrow> fret None)"

subsection \<open>The source\<close>

definition HLS_PROP_GET_HLS_MODE :: int where "HLS_PROP_GET_HLS_MODE = 2"
definition HLS_PROP_GET_MIMETYPE :: int where "HLS_PROP_GET_MIMETYPE = 3"
definition HLS_VALUE_MIMETYPE_MP2T :: int where "HLS_VALUE_MIMETYPE_MP2T = 1"
definition HLS_VALUE_MIMETYPE_MP3 :: int where "HLS_VALUE_MIMETYPE_MP3 = 2"
definition HLS_VALUE_MIMETYPE_FMP4 :: int where "HLS_VALUE_MIMETYPE_FMP4 = 3"
definition HLS_VALUE_MIMETYPE_AAC :: int where "HLS_VALUE_MIMETYPE_AAC = 4"

lemmas hls_mime_defs = HLS_VALUE_MIMETYPE_MP2T_def HLS_VALUE_MIMETYPE_MP3_def HLS_VALUE_MIMETYPE_FMP4_def
  HLS_VALUE_MIMETYPE_AAC_def

text \<open>The answers of the Java side behind \<^verbatim>\<open>CStreamCallbacks\<close>.\<close>

record CStreamCallbacks =
  cb_NeedBuffer :: bool
  cb_IsSeekable :: bool
  cb_IsRandomAccess :: bool
  cb_Property :: "int \<Rightarrow> int \<Rightarrow> int"

datatype LocatorType = kStreamLocatorType | kInvalidLocator

record CLocatorStream =
  l_type :: LocatorType
  l_contentType :: string
  l_location :: string
  l_llSizeHint :: int
  l_callbacks :: "CStreamCallbacks option"
  l_audioCallbacks :: "CStreamCallbacks option"

definition hls_mime_type :: "int \<Rightarrow> string option" where
  "hls_mime_type streamMimeType =
     (if streamMimeType = HLS_VALUE_MIMETYPE_MP2T then Some CONTENT_TYPE_MP2T
      else if streamMimeType = HLS_VALUE_MIMETYPE_MP3 then Some CONTENT_TYPE_MPA
      else if streamMimeType = HLS_VALUE_MIMETYPE_FMP4 then Some CONTENT_TYPE_FMP4
      else if streamMimeType = HLS_VALUE_MIMETYPE_AAC then Some CONTENT_TYPE_AAC
      else None)"

definition connect_source :: "gptr \<Rightarrow> CStreamCallbacks \<Rightarrow> unit fm" where
  "connect_source javaSource callbacks = do {
     fdo (ConnectSource javaSource SourceReadNextBlock);
     fdo (ConnectSource javaSource SourceCopyBlock);
     fdo (ConnectSource javaSource SourceSeekData);
     fdo (ConnectSource javaSource SourceCloseConnection);
     fdo (ConnectSource javaSource SourceProperty);
     fwhen (cb_IsRandomAccess callbacks) (fdo (ConnectSource javaSource SourceReadBlock))
   }"

text \<open>The results are the source element and the buffer in it.\<close>

definition CreateSourceElement :: "fworld \<Rightarrow> CLocatorStream \<Rightarrow> CStreamCallbacks \<Rightarrow> int \<Rightarrow> (gptr \<times> gptr) fres" where
  "CreateSourceElement W locator callbacks streamMimeType = do {
     javaSource \<leftarrow> CreateElement W (Some ''javasource'');
     ensure (javaSource \<noteq> None) ERROR_GSTREAMER_ELEMENT_CREATE (do {
       connect_source javaSource callbacks;
       hls \<leftarrow> fgets (\<lambda>s. m_bHLSModeEnabled (f_opts s));
       fwhen hls (fdo (SetProp javaSource ''hls-mode'' (GBool True)));
       (case hls_mime_type streamMimeType of
          None \<Rightarrow> fret ()
        | Some t \<Rightarrow> fdo (SetString javaSource ''mimetype'' t));
       fdo (SetProp javaSource ''size'' (GInt (l_llSizeHint locator)));
       fdo (SetProp javaSource ''is-seekable'' (GBool (cb_IsSeekable callbacks)));
       fdo (SetProp javaSource ''is-random-access'' (GBool (cb_IsRandomAccess callbacks)));
       fdo (SetString javaSource ''location'' (l_location locator));
       let needBuffer = cb_NeedBuffer callbacks;
       fopts (\<lambda>o'. o'\<lparr>m_bBufferingEnabled := needBuffer\<rparr>);
       if needBuffer then do {
         fdo (SetProp javaSource ''stop-on-pause'' (GBool False));
         source \<leftarrow> fobj W NewBin;
         ensure (source \<noteq> None) ERROR_GSTREAMER_BIN_CREATE (do {
           buffer \<leftarrow> CreateElement W (Some (if hls then ''hlsprogressbuffer'' else ''progressbuffer''));
           ensure (buffer \<noteq> None) ERROR_GSTREAMER_ELEMENT_CREATE (do {
             fdo (AddMany source [javaSource, buffer]);
             linked \<leftarrow> fcall W (Link [javaSource, buffer]);
             ensure linked ERROR_GSTREAMER_ELEMENT_LINK (success (source, buffer))
           })
         })
       } else success (javaSource, None)
     })
   }"

text \<open>The signal with which the source gives up its connection: every handler is disconnected before the
  callbacks are deleted.\<close>

definition SourceCloseConnection_handler :: "gptr \<Rightarrow> unit fm" where
  "SourceCloseConnection_handler src = do {
     fdo CloseConnection;
     fdo (DisconnectSource src SourceReadNextBlock);
     fdo (DisconnectSource src SourceReadBlock);
     fdo (DisconnectSource src SourceCopyBlock);
     fdo (DisconnectSource src SourceSeekData);
     fdo (DisconnectSource src SourceCloseConnection);
     fdo (DisconnectSource src SourceProperty);
     fdo DeleteCallbacks
   }"

text \<open>The progress buffer has a pad: the peer is added to the pipeline and linked, step by step; the first failure
  is posted on the bus.  \<open>source_bin\<close> and \<open>pipeline\<close> are the parents of the element and of the bin.\<close>

definition OnBufferPadAdded :: "fworld \<Rightarrow> gptr \<Rightarrow> gptr \<Rightarrow> gptr \<Rightarrow> gptr \<Rightarrow> gptr \<Rightarrow> unit fm" where
  "OnBufferPadAdded W element source_bin pipeline pad peer = do {
     src_pad \<leftarrow> fobj W (GhostPad pad);
     r \<leftarrow> ensure (src_pad \<noteq> None) ERROR_GSTREAMER_CREATE_GHOST_PAD (do {
       active \<leftarrow> fcall W (ActivatePad src_pad);
       added \<leftarrow> (if active then fcall W (AddPad source_bin src_pad) else fret False);
       ensure added ERROR_GSTREAMER_ELEMENT_ADD_PAD (do {
         inBin \<leftarrow> fcall W (Add pipeline peer);
         ensure inBin ERROR_GSTREAMER_BIN_ADD_ELEMENT (do {
           ready \<leftarrow> fcall W (ElementState peer GST_STATE_READY);
           ensure ready ERROR_GSTREAMER_PIPELINE_STATE_CHANGE (do {
             linked \<leftarrow> fcall W (Link [source_bin, peer]);
             ensure linked ERROR_GSTREAMER_ELEMENT_LINK (do {
               synced \<leftarrow> fcall W (SyncParent peer);
               ensure synced ERROR_GSTREAMER_PIPELINE_STATE_CHANGE (success ())
             })
           })
         })
       })
     });
     (case r of Inl uErrorCode \<Rightarrow> fdo (PostError uErrorCode) | Inr _ \<Rightarrow> fret ());
     fdo (DisconnectBuffer element peer)
   }"

definition AttachToSource :: "fworld \<Rightarrow> gptr \<Rightarrow> gptr \<Rightarrow> gptr \<Rightarrow> gptr \<Rightarrow> unit fres" where
  "AttachToSource W bin source buffer element = do {
     progressbuffer \<leftarrow> GetByFactoryName W source ''progressbuffer'';
     if progressbuffer \<noteq> None then do {
       fdo (ConnectBuffer progressbuffer element);
       fdo (UnrefObj progressbuffer);
       success ()
     } else do {
       added \<leftarrow> fcall W (Add bin element);
       ensure added ERROR_GSTREAMER_BIN_ADD_ELEMENT (do {
         hlsprogressbuffer \<leftarrow> (if buffer \<noteq> None then do { fdo (RefObj buffer); fret buffer }
                               else GetByFactoryName W source ''hlsprogressbuffer'');
         r \<leftarrow> (if hlsprogressbuffer \<noteq> None then do {
             src_pad \<leftarrow> fobj W (StaticPad hlsprogressbuffer ''src'');
             ensure (src_pad \<noteq> None) ERROR_GSTREAMER_ELEMENT_GET_PAD (do {
               ghost_pad \<leftarrow> fobj W (GhostPad src_pad);
               if ghost_pad = None then do { fdo (UnrefObj src_pad); fail ERROR_GSTREAMER_CREATE_GHOST_PAD }
               else do {
                 padAdded \<leftarrow> fcall W (AddPad source ghost_pad);
                 fdo (UnrefObj src_pad);
                 if \<not> padAdded then fail ERROR_GSTREAMER_ELEMENT_ADD_PAD
                 else do { fdo (UnrefObj hlsprogressbuffer); success () }
               }
             })
           } else success ());
         andthen (fret r) (\<lambda>_. do {
           linked \<leftarrow> fcall W (Link [source, element]);
           ensure linked ERROR_GSTREAMER_ELEMENT_LINK (success ())
         })
       })
     }
   }"

subsection \<open>The audio bin\<close>

text \<open>An optional element of a bin: \<^verbatim>\<open>CreateElement\<close> when it has a name, \<^verbatim>\<open>gst_bin_add\<close>.\<close>

definition add_named :: "fworld \<Rightarrow> gptr \<Rightarrow> string option \<Rightarrow> errcode \<Rightarrow> gptr fres" where
  "add_named W bin name err = (case name of
      None \<Rightarrow> success None
    | Some n \<Rightarrow> do {
        e \<leftarrow> CreateElement W (Some n);
        ensure (e \<noteq> None) err (do {
          added \<leftarrow> fcall W (Add bin e);
          ensure added ERROR_GSTREAMER_BIN_ADD_ELEMENT (success e)
        })
      })"

definition link_audio :: "fworld \<Rightarrow> gptr list \<Rightarrow> unit fres" where
  "link_audio W es = do {
     linked \<leftarrow> fcall W (Link es);
     ensure linked ERROR_GSTREAMER_ELEMENT_LINK_AUDIO_BIN (success ())
   }"

text \<open>An element that is created and added without a test for \<^verbatim>\<open>NULL\<close>.\<close>

definition add_unchecked :: "fworld \<Rightarrow> gptr \<Rightarrow> string \<Rightarrow> gptr fres" where
  "add_unchecked W bin name = do {
     e \<leftarrow> CreateElement W (Some name);
     added \<leftarrow> fcall W (Add bin e);
     ensure added ERROR_GSTREAMER_BIN_ADD_ELEMENT (success e)
   }"

text \<open>Parser, queue, decoder and converter: the results are parser, queue, decoder and the tail of the chain.\<close>

definition audio_input :: "fworld \<Rightarrow> gptr \<Rightarrow> string option \<Rightarrow> string option \<Rightarrow> bool \<Rightarrow> (gptr \<times> gptr \<times> gptr \<times> gptr) fres" where
  "audio_input W bin strParserName strDecoderName bConvertFormat =
     andthen (add_named W bin strParserName ERROR_MEDIA_AUDIO_FORMAT_UNSUPPORTED) (\<lambda>audioparse.
     andthen (add_named W bin (Some ''queue'') ERROR_GSTREAMER_ELEMENT_CREATE) (\<lambda>audioqueue.
     andthen (if audioparse \<noteq> None then link_audio W [audioparse, audioqueue] else success ()) (\<lambda>_.
     andthen (add_named W bin strDecoderName ERROR_MEDIA_AUDIO_FORMAT_UNSUPPORTED) (\<lambda>audiodec.
     andthen (if audiodec \<noteq> None then link_audio W [audioqueue, audiodec] else success ()) (\<lambda>_.
     let tail = (if audiodec \<noteq> None then audiodec else audioqueue) in
     if bConvertFormat then
       andthen (add_unchecked W bin ''audioconvert'') (\<lambda>audioconv.
       andthen (link_audio W [tail, audioconv]) (\<lambda>_.
       success (audioparse, audioqueue, audiodec, audioconv)))
     else success (audioparse, audioqueue, audiodec, tail))))))"

text \<open>The element that sets the balance, and the tail of the chain: the sink on Windows.\<close>

definition audio_balance :: "fworld \<Rightarrow> gptr \<Rightarrow> gptr \<Rightarrow> gptr \<Rightarrow> gptr \<Rightarrow> (gptr \<times> gptr) fres" where
  "audio_balance W bin tail audioequalizer audiosink =
     (if fw_os W = TARGET_OS_WIN32 then
        andthen (link_audio W [tail, audioequalizer]) (\<lambda>_. success (audiosink, audioequalizer))
      else
        andthen (add_unchecked W bin ''audiopanorama'') (\<lambda>audiobal.
        andthen (link_audio W [tail, audioequalizer, audiobal]) (\<lambda>_. success (audiobal, audiobal))))"

text \<open>The element that sets the volume, and the tail of the chain: the sink except on Linux.\<close>

definition audio_volume :: "fworld \<Rightarrow> gptr \<Rightarrow> gptr \<Rightarrow> gptr \<Rightarrow> (gptr \<times> gptr) fres" where
  "audio_volume W bin tail audiosink =
     (if fw_os W = TARGET_OS_LINUX then
        andthen (add_unchecked W bin ''volume'') (\<lambda>volume.
        andthen (link_audio W [tail, volume]) (\<lambda>_. success (volume, volume)))
      else success (audiosink, tail))"

text \<open>Equalizer, balance, volume, spectrum and sink: the results are equalizer, spectrum, balance, volume and sink.\<close>

definition audio_output :: "fworld \<Rightarrow> gptr \<Rightarrow> gptr \<Rightarrow> (gptr \<times> gptr \<times> gptr \<times> gptr \<times> gptr) fres" where
  "audio_output W bin tail = do {
     audioequalizer \<leftarrow> CreateElement W (Some ''equalizer-nbands'');
     audiospectrum \<leftarrow> CreateElement W (Some ''spectrum'');
     ensure (audioequalizer \<noteq> None \<and> audiospectrum \<noteq> None) ERROR_GSTREAMER_ELEMENT_CREATE (do {
       audiosink \<leftarrow> CreateAudioSinkElement W;
       ensure (audiosink \<noteq> None) ERROR_GSTREAMER_AUDIO_SINK_CREATE (do {
         fdo (AddMany bin [audioequalizer, audiospectrum, audiosink]);
         andthen (audio_balance W bin tail audioequalizer audiosink) (\<lambda>(balance, tail).
         andthen (audio_volume W bin tail audiosink) (\<lambda>(volume, tail).
         andthen (link_audio W [tail, audiospectrum, audiosink]) (\<lambda>_.
         success (audioequalizer, audiospectrum, balance, volume, audiosink))))
       })
     })
   }"

text \<open>The ghost pad of the bin on the sink pad of its first element.\<close>

definition audio_ghost_pad :: "fworld \<Rightarrow> gptr \<Rightarrow> gptr \<Rightarrow> unit fres" where
  "audio_ghost_pad W bin head = do {
     sink_pad \<leftarrow> fobj W (StaticPad head ''sink'');
     ensure (sink_pad \<noteq> None) ERROR_GSTREAMER_ELEMENT_GET_PAD (do {
       ghost_pad \<leftarrow> fobj W (GhostPad sink_pad);
       ensure (ghost_pad \<noteq> None) ERROR_GSTREAMER_CREATE_GHOST_PAD (do {
         fcall W (AddPad bin ghost_pad);
         fdo (UnrefObj sink_pad);
         success ()
       })
     })
   }"

text \<open>The elements of a finished bin are put into the container; the result are the flags of the decoder.\<close>

definition add_audio_elements :: "gptr \<Rightarrow> gptr \<times> gptr \<times> gptr \<times> gptr \<Rightarrow> gptr \<times> gptr \<times> gptr \<times> gptr \<times> gptr \<Rightarrow> int fm" where
  "add_audio_elements bin ins outs = (case (ins, outs) of
     ((audioparse, audioqueue, audiodec, _), (audioequalizer, audiospectrum, balance, volume, audiosink)) \<Rightarrow> do {
       fadd AUDIO_BIN bin;
       fadd AUDIO_QUEUE audioqueue;
       fadd AUDIO_EQUALIZER audioequalizer;
       fadd AUDIO_SPECTRUM audiospectrum;
       fadd AUDIO_BALANCE balance;
       fadd AUDIO_VOLUME volume;
       fadd AUDIO_SINK audiosink;
       fwhen (audioparse \<noteq> None) (fadd AUDIO_PARSER audioparse);
       fwhen (audiodec \<noteq> None) (fadd AUDIO_DECODER audiodec);
       fdo (SetProp audioqueue ''max-size-bytes'' (GUInt 0));
       fdo (SetProp audioqueue ''max-size-buffers'' (GUInt 10));
       fdo (SetProp audioqueue ''max-size-time'' (GInt 0));
       fret (if audiodec \<noteq> None then 3 else 0)
     })"

text \<open>The results are the flags of the decoder and the bin.\<close>

definition CreateAudioBin :: "fworld \<Rightarrow> string option \<Rightarrow> string option \<Rightarrow> bool \<Rightarrow> (int \<times> gptr) fres" where
  "CreateAudioBin W strParserName strDecoderName bConvertFormat =
     ensure (\<not> (strParserName = None \<and> strDecoderName = None)) ERROR_FUNCTION_PARAM_NULL (do {
       bin \<leftarrow> fobj W NewBin;
       ensure (bin \<noteq> None) ERROR_GSTREAMER_BIN_CREATE (
       andthen (audio_input W bin strParserName strDecoderName bConvertFormat) (\<lambda>ins.
       case ins of (audioparse, audioqueue, _, tail) \<Rightarrow>
       andthen (audio_output W bin tail) (\<lambda>outs.
       andthen (audio_ghost_pad W bin (if audioparse \<noteq> None then audioparse else audioqueue)) (\<lambda>_. do {
         flags \<leftarrow> add_audio_elements bin ins outs;
         success (flags, bin)
       }))))
     })"

subsection \<open>The video bin\<close>

definition video_ghost_pad :: "fworld \<Rightarrow> gptr \<Rightarrow> gptr \<Rightarrow> unit fres" where
  "video_ghost_pad W bin videoqueue = do {
     sink_pad \<leftarrow> fobj W (StaticPad videoqueue ''sink'');
     ensure (sink_pad \<noteq> None) ERROR_GSTREAMER_ELEMENT_GET_PAD (do {
       ghost_pad \<leftarrow> fobj W (GhostPad sink_pad);
       if ghost_pad = None then do { fdo (UnrefObj sink_pad); fail ERROR_GSTREAMER_CREATE_GHOST_PAD }
       else do {
         padAdded \<leftarrow> fcall W (AddPad bin ghost_pad);
         fdo (UnrefObj sink_pad);
         ensure padAdded ERROR_GSTREAMER_ELEMENT_ADD_PAD (success ())
       }
     })
   }"

definition add_video_elements :: "gptr \<Rightarrow> gptr \<Rightarrow> gptr \<Rightarrow> gptr \<Rightarrow> unit fm" where
  "add_video_elements bin videoqueue videodec pVideoSink = do {
     fadd VIDEO_BIN bin;
     fadd VIDEO_QUEUE videoqueue;
     fadd VIDEO_DECODER videodec;
     fadd VIDEO_SINK pVideoSink;
     fdo (SetProp videoqueue ''max-size-bytes'' (GUInt 0));
     fdo (SetProp videoqueue ''max-size-buffers'' (GUInt 10));
     fdo (SetProp videoqueue ''max-size-time'' (GInt 0));
     fdo (SetProp pVideoSink ''qos'' (GBool True))
   }"

text \<open>Without a decoder, which is then loaded later, the queue and the sink are added but not linked: the call
  names the sink alone.\<close>

definition CreateVideoBin :: "fworld \<Rightarrow> string option \<Rightarrow> gptr \<Rightarrow> gptr fres" where
  "CreateVideoBin W strDecoderName videoSink0 = do {
     bin \<leftarrow> fobj W NewBin;
     ensure (bin \<noteq> None) ERROR_GSTREAMER_BIN_CREATE (do {
       videodec \<leftarrow> CreateElement W strDecoderName;
       videoqueue \<leftarrow> CreateElement W (Some ''queue'');
       ensure (\<not> ((strDecoderName \<noteq> None \<and> videodec = None) \<or> videoqueue = None)) ERROR_GSTREAMER_ELEMENT_CREATE (do {
         pVideoSink \<leftarrow> (if videoSink0 = None then CreateElement W (Some ''autovideosink'') else fret videoSink0);
         ensure (pVideoSink \<noteq> None) ERROR_GSTREAMER_VIDEO_SINK_CREATE (do {
           fdo (AddMany bin (if videodec \<noteq> None then [videoqueue, videodec, pVideoSink] else [videoqueue, pVideoSink]));
           linked \<leftarrow> fcall W (Link (if videodec \<noteq> None then [videoqueue, videodec, pVideoSink] else [pVideoSink]));
           ensure linked ERROR_GSTREAMER_ELEMENT_LINK_VIDEO_BIN (
           andthen (video_ghost_pad W bin videoqueue) (\<lambda>_. do {
             add_video_elements bin videoqueue videodec pVideoSink;
             success bin
           }))
         })
       })
     })
   }"

subsection \<open>Pipelines\<close>

text \<open>\<^verbatim>\<open>new\<close> of the pipeline object; \<open>u\<close> are the first values of the members its constructor leaves uninitialised.\<close>

definition new_pipeline :: "int \<times> bool \<Rightarrow> bool \<Rightarrow> int \<Rightarrow> pipe fm" where
  "new_pipeline u av flags = fgets (\<lambda>s.
     (if av then CGstAVPlaybackPipeline_new else CGstAudioPlaybackPipeline_new) (fst u) (snd u) (f_elems s) flags (f_opts s))"

definition CreateAudioPipeline :: "fworld \<Rightarrow> int \<times> bool \<Rightarrow> bool \<Rightarrow> pipe fres" where
  "CreateAudioPipeline W u bConvertFormat = do {
     source \<leftarrow> felem SOURCE;
     ensure (source \<noteq> None) ERROR_FUNCTION_PARAM_NULL (do {
       pipeline \<leftarrow> fobj W NewPipeline;
       ensure (pipeline \<noteq> None) ERROR_GSTREAMER_PIPELINE_CREATION (do {
         added \<leftarrow> fcall W (Add pipeline source);
         opts \<leftarrow> fgets f_opts;
         ensure added ERROR_GSTREAMER_BIN_ADD_ELEMENT (
         andthen (CreateAudioBin W (GetStreamParser opts) (GetAudioDecoder opts) bConvertFormat) (\<lambda>(flags, audiobin).
         andthen (AttachToSource W pipeline source None audiobin) (\<lambda>_. do {
           fadd PIPELINE pipeline;
           p \<leftarrow> new_pipeline u False flags;
           success p
         })))
       })
     })
   }"

text \<open>The separate audio source of a multi-source pipeline; the result is its demultiplexer.\<close>

definition attach_audio_source :: "fworld \<Rightarrow> gptr \<Rightarrow> gptr \<Rightarrow> gptr fres" where
  "attach_audio_source W pipeline audioSource =
     (if audioSource = None then success None
      else do {
        added \<leftarrow> fcall W (Add pipeline audioSource);
        opts \<leftarrow> fgets f_opts;
        ensure added ERROR_GSTREAMER_BIN_ADD_ELEMENT (
          if GetAudioStreamParser opts = None then success None
          else do {
            audioDemuxer \<leftarrow> CreateElement W (GetAudioStreamParser opts);
            ensure (audioDemuxer \<noteq> None) ERROR_GSTREAMER_ELEMENT_CREATE (do {
              buffer \<leftarrow> felem AUDIO_SOURCE_BUFFER;
              andthen (AttachToSource W pipeline audioSource buffer audioDemuxer) (\<lambda>_. success audioDemuxer)
            })
          })
      })"

text \<open>The audio bin of a multi-source pipeline is attached to its source, or to a demultiplexer with a static pad;
  otherwise it is attached when the demultiplexer shows its pads.\<close>

definition attach_audio_bin :: "fworld \<Rightarrow> gptr \<Rightarrow> gptr \<Rightarrow> gptr \<Rightarrow> gptr \<Rightarrow> bool \<Rightarrow> unit fres" where
  "attach_audio_bin W pipeline audioSource audioDemuxer audiobin bAudioStream =
     (if bAudioStream \<and> audioDemuxer = None then do {
        buffer \<leftarrow> felem AUDIO_SOURCE_BUFFER;
        AttachToSource W pipeline audioSource buffer audiobin
      }
      else if bAudioStream then do {
        src_pad \<leftarrow> fobj W (StaticPad audioDemuxer ''src'');
        if src_pad \<noteq> None then do {
          fdo (UnrefObj src_pad);
          added \<leftarrow> fcall W (Add pipeline audiobin);
          ensure added ERROR_GSTREAMER_BIN_ADD_ELEMENT (do {
            linked \<leftarrow> fcall W (Link [audioDemuxer, audiobin]);
            ensure linked ERROR_GSTREAMER_ELEMENT_LINK (success ())
          })
        } else success ()
      }
      else success ())"

definition CreateAVPipeline :: "fworld \<Rightarrow> int \<times> bool \<Rightarrow> bool \<Rightarrow> gptr \<Rightarrow> pipe fres" where
  "CreateAVPipeline W u bConvertFormat pVideoSink = do {
     opts \<leftarrow> fgets f_opts;
     let bAudioStream = (m_PipelineType opts = kAudioSourcePipeline);
     source \<leftarrow> felem SOURCE;
     audioSource \<leftarrow> felem AUDIO_SOURCE;
     ensure (source \<noteq> None) ERROR_FUNCTION_PARAM_NULL (
     ensure (\<not> (bAudioStream \<and> audioSource = None)) ERROR_FUNCTION_PARAM_NULL (do {
       pipeline \<leftarrow> fobj W NewPipeline;
       ensure (pipeline \<noteq> None) ERROR_GSTREAMER_PIPELINE_CREATION (do {
         demuxer \<leftarrow> CreateElement W (GetStreamParser opts);
         ensure (demuxer \<noteq> None) ERROR_GSTREAMER_ELEMENT_CREATE (do {
           fwhen bAudioStream (fdo (SetProp demuxer ''disable-mp2t-pts-reset'' (GBool True)));
           added \<leftarrow> fcall W (Add pipeline source);
           buffer \<leftarrow> felem SOURCE_BUFFER;
           ensure added ERROR_GSTREAMER_BIN_ADD_ELEMENT (
           andthen (AttachToSource W pipeline source buffer demuxer) (\<lambda>_.
           andthen (attach_audio_source W pipeline audioSource) (\<lambda>audioDemuxer.
           andthen (CreateAudioBin W None (GetAudioDecoder opts) bConvertFormat) (\<lambda>(audioFlags, audiobin).
           andthen (attach_audio_bin W pipeline audioSource audioDemuxer audiobin bAudioStream) (\<lambda>_.
           andthen (CreateVideoBin W (GetVideoDecoder opts) pVideoSink) (\<lambda>videobin. do {
             fadd PIPELINE pipeline;
             fadd AV_DEMUXER demuxer;
             fwhen (audioDemuxer \<noteq> None) (fadd AUDIO_PARSER audioDemuxer);
             p \<leftarrow> new_pipeline u True audioFlags;
             success p
           }))))))
         })
       })
     }))
   }"

definition set_parsers :: "string \<Rightarrow> string \<Rightarrow> string \<Rightarrow> string \<Rightarrow> unit fm" where
  "set_parsers parser audioParser audioDecoder videoDecoder = fopts (\<lambda>o'.
     o'\<lparr>m_StreamParser := (if parser = [] then m_StreamParser o' else parser),
        m_AudioStreamParser := (if audioParser = [] then m_AudioStreamParser o' else audioParser),
        m_AudioDecoder := (if audioDecoder = [] then m_AudioDecoder o' else audioDecoder),
        m_VideoDecoder := (if videoDecoder = [] then m_VideoDecoder o' else videoDecoder)\<rparr>)"

definition CreateMP4Pipeline :: "fworld \<Rightarrow> int \<times> bool \<Rightarrow> gptr \<Rightarrow> pipe fres" where
  "CreateMP4Pipeline W u pVideoSink = (case fw_os W of
      TARGET_OS_WIN32 \<Rightarrow> do { set_parsers ''qtdemux'' [] ''dshowwrapper'' []; CreateAVPipeline W u True pVideoSink }
    | TARGET_OS_LINUX \<Rightarrow> do {
        set_parsers ''qtdemux'' [] ''avaudiodecoder'' ''avvideodecoder'';
        CreateAVPipeline W u False pVideoSink
      }
    | _ \<Rightarrow> fail ERROR_PLATFORM_UNSUPPORTED)"

definition CreateMp3AudioPipeline :: "fworld \<Rightarrow> int \<times> bool \<Rightarrow> pipe fres" where
  "CreateMp3AudioPipeline W u = (case fw_os W of
      TARGET_OS_WIN32 \<Rightarrow> do { set_parsers ''mpegaudioparse'' [] ''dshowwrapper'' []; CreateAudioPipeline W u False }
    | TARGET_OS_LINUX \<Rightarrow> do { set_parsers ''mpegaudioparse'' [] ''avaudiodecoder'' []; CreateAudioPipeline W u False }
    | _ \<Rightarrow> fail ERROR_PLATFORM_UNSUPPORTED)"

definition CreateWavPcmAudioPipeline :: "fworld \<Rightarrow> int \<times> bool \<Rightarrow> pipe fres" where
  "CreateWavPcmAudioPipeline W u = do { set_parsers ''wavparse'' [] [] []; CreateAudioPipeline W u True }"

definition CreateAiffPcmAudioPipeline :: "fworld \<Rightarrow> int \<times> bool \<Rightarrow> pipe fres" where
  "CreateAiffPcmAudioPipeline W u = do { set_parsers ''aiffparse'' [] [] []; CreateAudioPipeline W u True }"

text \<open>HLS on Windows, with and without a separate audio stream.\<close>

definition CreateHLS_win32 :: "fworld \<Rightarrow> int \<times> bool \<Rightarrow> gptr \<Rightarrow> CPipelineOptions \<Rightarrow> pipe fres" where
  "CreateHLS_win32 W u pVideoSink opts =
     (let mime = m_StreamMimeType opts; audioMime = m_AudioStreamMimeType opts
      in if m_PipelineType opts = kAudioSourcePipeline then
           andthen (if mime = HLS_VALUE_MIMETYPE_MP2T then do { set_parsers ''dshowwrapper'' [] [] ''dshowwrapper''; success () }
                    else if mime = HLS_VALUE_MIMETYPE_FMP4 then do { set_parsers ''qtdemux'' [] [] []; success () }
                    else fail ERROR_PLATFORM_UNSUPPORTED) (\<lambda>_.
           andthen (if audioMime = HLS_VALUE_MIMETYPE_FMP4 then do { set_parsers [] ''qtdemux'' ''dshowwrapper'' []; success () }
                    else if audioMime = HLS_VALUE_MIMETYPE_AAC then do { set_parsers [] [] ''dshowwrapper'' []; success () }
                    else fail ERROR_PLATFORM_UNSUPPORTED) (\<lambda>_.
           CreateAVPipeline W u True pVideoSink))
         else if mime = HLS_VALUE_MIMETYPE_MP2T then do {
           set_parsers ''dshowwrapper'' [] ''dshowwrapper'' ''dshowwrapper'';
           CreateAVPipeline W u True pVideoSink
         }
         else if mime = HLS_VALUE_MIMETYPE_MP3 then do {
           set_parsers ''mpegaudioparse'' [] ''dshowwrapper'' [];
           CreateAudioPipeline W u False
         }
         else if mime = HLS_VALUE_MIMETYPE_AAC then do {
           set_parsers [] [] ''dshowwrapper'' [];
           CreateAudioPipeline W u False
         }
         else if mime = HLS_VALUE_MIMETYPE_FMP4 then do {
           set_parsers ''qtdemux'' [] ''dshowwrapper'' [];
           CreateAVPipeline W u True pVideoSink
         }
         else fail ERROR_PLATFORM_UNSUPPORTED)"

text \<open>HLS on Linux.\<close>

definition CreateHLS_linux :: "fworld \<Rightarrow> int \<times> bool \<Rightarrow> gptr \<Rightarrow> CPipelineOptions \<Rightarrow> pipe fres" where
  "CreateHLS_linux W u pVideoSink opts =
     (let mime = m_StreamMimeType opts; audioMime = m_AudioStreamMimeType opts
      in if m_PipelineType opts = kAudioSourcePipeline then
           andthen (if mime = HLS_VALUE_MIMETYPE_MP2T then do { set_parsers ''avmpegtsdemuxer'' [] [] ''avvideodecoder''; success () }
                    else if mime = HLS_VALUE_MIMETYPE_FMP4 then do { set_parsers ''qtdemux'' [] [] ''avvideodecoder''; success () }
                    else fail ERROR_PLATFORM_UNSUPPORTED) (\<lambda>_.
           andthen (if audioMime = HLS_VALUE_MIMETYPE_FMP4 then do { set_parsers [] ''qtdemux'' ''avaudiodecoder'' []; success True }
                    else if audioMime = HLS_VALUE_MIMETYPE_AAC then do { set_parsers [] ''aacparse'' ''avaudiodecoder'' []; success False }
                    else fail ERROR_PLATFORM_UNSUPPORTED) (\<lambda>bConvertFormat.
           CreateAVPipeline W u bConvertFormat pVideoSink))
         else if mime = HLS_VALUE_MIMETYPE_MP2T then do {
           set_parsers ''avmpegtsdemuxer'' [] ''avaudiodecoder'' ''avvideodecoder'';
           CreateAVPipeline W u False pVideoSink
         }
         else if mime = HLS_VALUE_MIMETYPE_MP3 then do {
           set_parsers ''mpegaudioparse'' [] ''avaudiodecoder'' [];
           CreateAudioPipeline W u False
         }
         else if mime = HLS_VALUE_MIMETYPE_AAC then do {
           set_parsers ''aacparse'' [] ''avaudiodecoder'' [];
           CreateAudioPipeline W u False
         }
         else if mime = HLS_VALUE_MIMETYPE_FMP4 then do {
           set_parsers ''qtdemux'' [] ''avaudiodecoder'' ''avvideodecoder'';
           CreateAVPipeline W u True pVideoSink
         }
         else fail ERROR_PLATFORM_UNSUPPORTED)"

definition CreateHLSPipeline :: "fworld \<Rightarrow> int \<times> bool \<Rightarrow> gptr \<Rightarrow> pipe fres" where
  "CreateHLSPipeline W u pVideoSink = do {
     opts \<leftarrow> fgets f_opts;
     (case fw_os W of
        TARGET_OS_WIN32 \<Rightarrow> CreateHLS_win32 W u pVideoSink opts
      | TARGET_OS_LINUX \<Rightarrow> CreateHLS_linux W u pVideoSink opts
      | _ \<Rightarrow> fail ERROR_PLATFORM_UNSUPPORTED)
   }"

text \<open>The dispatch on the content type.\<close>

definition CreatePipeline :: "fworld \<Rightarrow> int \<times> bool \<Rightarrow> pipe fres" where
  "CreatePipeline W u = do {
     opts \<leftarrow> fgets f_opts;
     let ct = m_ContentType opts;
     if ct = CONTENT_TYPE_MP4 \<or> ct = CONTENT_TYPE_M4A \<or> ct = CONTENT_TYPE_M4V then do {
       pVideoSink \<leftarrow> CreateElement W (Some ''appsink'');
       ensure (pVideoSink \<noteq> None) ERROR_GSTREAMER_VIDEO_SINK_CREATE (CreateMP4Pipeline W u pVideoSink)
     }
     else if ct = CONTENT_TYPE_MPA \<or> ct = CONTENT_TYPE_MP3 then CreateMp3AudioPipeline W u
     else if ct = CONTENT_TYPE_WAV then CreateWavPcmAudioPipeline W u
     else if ct = CONTENT_TYPE_AIFF then CreateAiffPcmAudioPipeline W u
     else if ct = CONTENT_TYPE_M3U8 \<or> ct = CONTENT_TYPE_M3U then do {
       pVideoSink \<leftarrow> CreateElement W (Some ''appsink'');
       ensure (pVideoSink \<noteq> None) ERROR_GSTREAMER_VIDEO_SINK_CREATE (CreateHLSPipeline W u pVideoSink)
     }
     else fail ERROR_LOCATOR_UNSUPPORTED_MEDIA_FORMAT
   }"

text \<open>The separate audio stream of a locator.\<close>

definition add_audio_stream :: "fworld \<Rightarrow> CLocatorStream \<Rightarrow> unit fres" where
  "add_audio_stream W locator = (case l_audioCallbacks locator of
      None \<Rightarrow> success ()
    | Some audioCallbacks \<Rightarrow> do {
        let streamMimeType = cb_Property audioCallbacks HLS_PROP_GET_MIMETYPE 0;
        fopts (\<lambda>o'. o'\<lparr>m_AudioStreamMimeType := streamMimeType\<rparr>);
        andthen (CreateSourceElement W locator audioCallbacks streamMimeType) (\<lambda>(pAudioSource, pAudioBuffer). do {
          fadd AUDIO_SOURCE pAudioSource;
          fadd AUDIO_SOURCE_BUFFER pAudioBuffer;
          fopts (\<lambda>o'. o'\<lparr>m_PipelineType := kAudioSourcePipeline\<rparr>);
          success ()
        })
      })"

definition CreatePlayerPipeline :: "fworld \<Rightarrow> int \<times> bool \<Rightarrow> CLocatorStream option \<Rightarrow> pipe fres" where
  "CreatePlayerPipeline W u pLocator = (case pLocator of
      None \<Rightarrow> fail ERROR_FUNCTION_PARAM_NULL
    | Some locator \<Rightarrow>
        ensure (l_type locator = kStreamLocatorType) ERROR_LOCATOR_UNSUPPORTED_TYPE (
        ensure (l_contentType locator \<noteq> []) ERROR_LOCATOR_CONTENT_TYPE_NULL (do {
          fopts (\<lambda>o'. o'\<lparr>m_ContentType := l_contentType locator\<rparr>);
          (case l_callbacks locator of
             None \<Rightarrow> fail ERROR_LOCATOR_NULL
           | Some callbacks \<Rightarrow> do {
               let streamMimeType = cb_Property callbacks HLS_PROP_GET_MIMETYPE 0;
               fopts (\<lambda>o'. o'\<lparr>m_bHLSModeEnabled := (cb_Property callbacks HLS_PROP_GET_HLS_MODE 0 = 1),
                 m_StreamMimeType := streamMimeType\<rparr>);
               andthen (CreateSourceElement W locator callbacks streamMimeType) (\<lambda>(pSource, pBuffer). do {
                 fadd SOURCE pSource;
                 fadd SOURCE_BUFFER pBuffer;
                 andthen (add_audio_stream W locator) (\<lambda>_. CreatePipeline W u)
               })
             })
        })))"

end
