(* ===== verification/Factory_Results.thy ===== *)
theory Factory_Results
  imports Pipeline_Factory
begin

text \<open>
  What the factory guarantees: a calculus of postconditions for its programs, the frame of every step, the
  elements a pipeline object is created with, which media get a pipeline, and that nothing is refused when
  GStreamer does not fail.
\<close>

subsection \<open>Postconditions\<close>

definition fwp :: "'a fm \<Rightarrow> ('a \<Rightarrow> factory \<Rightarrow> bool) \<Rightarrow> factory \<Rightarrow> bool" where
  "fwp m Q s = (case run_state m s of (a, s') \<Rightarrow> Q a s')"

text \<open>A postcondition for success only.\<close>

definition fok :: "('a \<Rightarrow> factory \<Rightarrow> bool) \<Rightarrow> errcode + 'a \<Rightarrow> factory \<Rightarrow> bool" where
  "fok Q r s = (case r of Inl _ \<Rightarrow> True | Inr a \<Rightarrow> Q a s)"

lemma fok_simps [simp]: "fok Q (Inl err) s" "fok Q (Inr a) s = Q a s"
  by (simp_all add: fok_def)

lemma fwp_ret [simp]: "fwp (fret a) Q s = Q a s"
  and fwp_bind [simp]: "fwp (State_Monad.bind m k) Q s = fwp m (\<lambda>a. fwp (k a) Q) s"
  by (simp_all add: fwp_def split_beta)

lemma fwp_if [simp]: "fwp (if c then m1 else m2) Q s = (if c then fwp m1 Q s else fwp m2 Q s)"
  by simp

lemma fwp_gets [simp]: "fwp (fgets f) Q s = Q (f s) s"
  by (simp add: fwp_def fgets_def)

lemma fwp_modify [simp]: "fwp (fmodify g) Q s = Q () (g s)"
  by (simp add: fwp_def fmodify_def)

lemma fwp_ask [simp]: "fwp (fask q act) Q s = Q (q (f_log s) act) (s\<lparr>f_log := act # f_log s\<rparr>)"
  by (simp add: fwp_def fask_def)

lemma fwp_fdo [simp]: "fwp (fdo act) Q s = Q () (s\<lparr>f_log := act # f_log s\<rparr>)"
  by (simp add: fdo_def)

lemma fwp_when [simp]: "fwp (fwhen c m) Q s = (if c then fwp m Q s else Q () s)"
  by (simp add: fwhen_def)

lemma fwp_ensure [simp]: "fwp (ensure c err k) Q s = (if c then fwp k Q s else Q (Inl err) s)"
  by (simp add: ensure_def)

lemma fwp_elem [simp]: "fwp (felem r) Q s = Q (container_get (f_elems s) r) s"
  by (simp add: felem_def)

lemma fwp_add [simp]: "fwp (fadd r e) Q s = Q () (s\<lparr>f_elems := container_add r e (f_elems s)\<rparr>)"
  by (simp add: fadd_def)

lemma fwp_opts [simp]: "fwp (fopts g) Q s = Q () (s\<lparr>f_opts := g (f_opts s)\<rparr>)"
  by (simp add: fopts_def)

lemma fwp_andthen [simp]:
  "fwp (andthen m k) Q s = fwp m (\<lambda>r s'. case r of Inl err \<Rightarrow> Q (Inl err) s' | Inr a \<Rightarrow> fwp (k a) Q s') s"
  by (simp add: andthen_def fwp_def split_beta split: sum.split)

lemma fwp_mono: "fwp m Q s \<Longrightarrow> (\<And>a s'. Q a s' \<Longrightarrow> Q' a s') \<Longrightarrow> fwp m Q' s"
  by (auto simp: fwp_def split_beta)

lemma fwp_conj: "fwp m Q s \<Longrightarrow> fwp m Q' s \<Longrightarrow> fwp m (\<lambda>a s'. Q a s' \<and> Q' a s') s"
  by (auto simp: fwp_def split_beta)

lemma fwp_andthenI:
  "fwp m (fok (\<lambda>a. fwp (k a) (fok Q))) s \<Longrightarrow> fwp (andthen m k) (fok Q) s"
  by (auto elim!: fwp_mono split: sum.split)

lemma fwp_CreateElement [simp]:
  "fwp (CreateElement W n) Q s = (case n of None \<Rightarrow> Q None s
     | Some x \<Rightarrow> Q (fw_obj W (f_log s) (Make x)) (s\<lparr>f_log := Make x # f_log s\<rparr>))"
  by (simp add: CreateElement_def split: option.split)

text \<open>Programs that only make calls: container and options stay as they are.\<close>

definition keeps :: "'a fm \<Rightarrow> bool" where
  "keeps m \<longleftrightarrow> (\<forall>s. fwp m (\<lambda>a s'. f_elems s' = f_elems s \<and> f_opts s' = f_opts s) s)"

lemma keeps_bind: "keeps m \<Longrightarrow> (\<And>a. keeps (k a)) \<Longrightarrow> keeps (State_Monad.bind m k)"
  by (auto simp: keeps_def fwp_def split_beta)

lemma keeps_prims: "keeps (fret a)" "keeps (fask q act)" "keeps (fdo act)" "keeps (fgets f)" "keeps (felem r)"
  by (simp_all add: keeps_def)

lemma keeps_if: "keeps m \<Longrightarrow> keeps n \<Longrightarrow> keeps (if c then m else n)"
  and keeps_when: "keeps m' \<Longrightarrow> keeps (fwhen c m')"
  and keeps_ensure: "keeps m'' \<Longrightarrow> keeps (ensure c err m'')"
  by (simp_all add: keeps_def)

lemma keeps_option: "keeps m \<Longrightarrow> (\<And>a. keeps (k a)) \<Longrightarrow> keeps (case x of None \<Rightarrow> m | Some a \<Rightarrow> k a)"
  and keeps_sum: "(\<And>e. keeps (h e)) \<Longrightarrow> (\<And>a. keeps (k' a)) \<Longrightarrow> keeps (case r of Inl e \<Rightarrow> h e | Inr a \<Rightarrow> k' a)"
  and keeps_let: "(\<And>a. keeps (l a)) \<Longrightarrow> keeps (let a = y in l a)"
  and keeps_prod: "(\<And>a b. keeps (f a b)) \<Longrightarrow> keeps (case z of (a, b) \<Rightarrow> f a b)"
  by (simp_all split: option.split sum.split prod.split)

lemma keeps_andthen: "keeps m \<Longrightarrow> (\<And>a. keeps (k a)) \<Longrightarrow> keeps (andthen m k)"
  unfolding andthen_def by (intro keeps_bind keeps_sum keeps_prims)

lemmas keeps_control = keeps_bind keeps_prims keeps_if keeps_when keeps_ensure keeps_option keeps_sum keeps_let keeps_prod
  keeps_andthen

lemma keeps_CreateElement: "keeps (CreateElement W n)"
  unfolding CreateElement_def by (intro keeps_control)

lemma keeps_GetByFactoryName: "keeps (GetByFactoryName W bin n)"
  unfolding GetByFactoryName_def by (intro keeps_control)

lemma keeps_CreateAudioSinkElement: "keeps (CreateAudioSinkElement W)"
  by (cases "fw_os W") (simp_all add: CreateAudioSinkElement_def keeps_CreateElement keeps_prims)

lemma keeps_AttachToSource: "keeps (AttachToSource W bin source buffer element)"
  unfolding AttachToSource_def by (intro keeps_control keeps_GetByFactoryName)

lemma keeps_audio:
  "keeps (link_audio W es)" "keeps (add_named W bin n err)" "keeps (add_unchecked W bin nm)"
  unfolding link_audio_def add_named_def add_unchecked_def by (intro keeps_control keeps_CreateElement)+

lemma keeps_audio_input: "keeps (audio_input W bin a b c)"
  unfolding audio_input_def by (intro keeps_control keeps_audio)

lemma keeps_balance_volume: "keeps (audio_balance W bin tail eq sink)" "keeps (audio_volume W bin tail sink)"
  unfolding audio_balance_def audio_volume_def by (intro keeps_control keeps_audio)+

lemma keeps_audio_output: "keeps (audio_output W bin tail)"
  unfolding audio_output_def
  by (intro keeps_control keeps_audio keeps_balance_volume keeps_CreateElement keeps_CreateAudioSinkElement)

lemma keeps_audio_ghost_pad: "keeps (audio_ghost_pad W bin hd')"
  unfolding audio_ghost_pad_def by (intro keeps_control)

lemma keeps_attach:
  "keeps (attach_audio_source W pl src)" "keeps (attach_audio_bin W pl src dm bin b)"
  unfolding attach_audio_source_def attach_audio_bin_def
  by (intro keeps_control keeps_CreateElement keeps_AttachToSource)+

text \<open>Using the frame of a step in the rest of a proof.\<close>

lemma fwp_keeps:
  assumes "keeps m" "fwp m Q s" "\<And>a s'. Q a s' \<Longrightarrow> f_elems s' = f_elems s \<Longrightarrow> f_opts s' = f_opts s \<Longrightarrow> Q' a s'"
  shows "fwp m Q' s"
  using assms by (auto simp: keeps_def fwp_def split_beta)

subsection \<open>The elements of a finished pipeline\<close>

text \<open>Documented behaviour of \<^verbatim>\<open>gst_bin_add\<close>: it fails for \<^verbatim>\<open>NULL\<close>.\<close>

definition rejects_null :: "fworld \<Rightarrow> bool" where
  "rejects_null W \<longleftrightarrow> (\<forall>h bin. \<not> fw_ok W h (Add bin None))"

definition has_roles :: "ElementRole list \<Rightarrow> GstElementContainer \<Rightarrow> bool" where
  "has_roles rs c \<longleftrightarrow> (\<forall>r \<in> set rs. container_get c r \<noteq> None)"

definition audio_roles :: "ElementRole list" where
  "audio_roles = [AUDIO_BIN, AUDIO_QUEUE, AUDIO_EQUALIZER, AUDIO_SPECTRUM, AUDIO_BALANCE, AUDIO_VOLUME, AUDIO_SINK]"

definition video_roles :: "ElementRole list" where
  "video_roles = [VIDEO_BIN, VIDEO_QUEUE, VIDEO_SINK]"

lemma add_named_ok: "fwp (add_named W bin n err) (fok (\<lambda>e s'. e \<noteq> None \<longleftrightarrow> n \<noteq> None)) s"
  by (simp add: add_named_def split: option.split)

lemma rejects_nullD: "rejects_null W \<Longrightarrow> fw_ok W h (Add bin e) \<Longrightarrow> \<exists>y. e = Some y"
  by (cases e) (auto simp: rejects_null_def)

lemma add_unchecked_ok: "rejects_null W \<Longrightarrow> fwp (add_unchecked W bin n) (fok (\<lambda>e s'. e \<noteq> None)) s"
  by (auto simp: add_unchecked_def dest: rejects_nullD)

lemma fok_mono: "fok Q r s \<Longrightarrow> (\<And>a. Q a s \<Longrightarrow> Q' a s) \<Longrightarrow> fok Q' r s"
  by (cases r) auto

text \<open>Sequencing with what is known about the first part.\<close>

lemma andthen_seq:
  assumes "keeps m" "fwp m (fok R) s"
    and "\<And>a s'. R a s' \<Longrightarrow> f_elems s' = f_elems s \<Longrightarrow> f_opts s' = f_opts s \<Longrightarrow> fwp (k a) (fok Q) s'"
  shows "fwp (andthen m k) (fok Q) s"
  by (rule fwp_andthenI, rule fwp_keeps [OF assms(1,2)]) (auto intro: fok_mono assms(3))

lemma link_audio_ok: "fwp (link_audio W es) (fok (\<lambda>_ _. True)) s"
  by (simp add: link_audio_def)

lemma maybe_link: "keeps (if c then link_audio W es else success ())"
  "fwp (if c then link_audio W es else success ()) (fok (\<lambda>_ _. True)) s"
  by (simp_all add: keeps_audio keeps_prims link_audio_ok del: fwp_if split: if_split)

lemma audio_input_ok:
  "fwp (audio_input W bin parser dec conv) (fok (\<lambda>(ap, aq, ad, x) s'.
     aq \<noteq> None \<and> (ap \<noteq> None \<longleftrightarrow> parser \<noteq> None) \<and> (ad \<noteq> None \<longleftrightarrow> dec \<noteq> None))) s"
  unfolding audio_input_def
  apply (rule andthen_seq [OF keeps_audio(2) add_named_ok])
  apply (rule andthen_seq [OF keeps_audio(2) add_named_ok])
  apply (rule andthen_seq [OF maybe_link])
  apply (rule andthen_seq [OF keeps_audio(2) add_named_ok])
  apply (rule andthen_seq [OF maybe_link])
  by (simp add: Let_def add_unchecked_def link_audio_def)

lemma audio_balance_ok:
  "rejects_null W \<Longrightarrow> sink \<noteq> None \<Longrightarrow> fwp (audio_balance W bin tail eq sink) (fok (\<lambda>(bal, tl) s'. bal \<noteq> None)) s"
  by (auto simp: audio_balance_def link_audio_def add_unchecked_def dest: rejects_nullD)

lemma audio_volume_ok:
  "rejects_null W \<Longrightarrow> sink \<noteq> None \<Longrightarrow> fwp (audio_volume W bin tail sink) (fok (\<lambda>(vol, tl) s'. vol \<noteq> None)) s"
  by (auto simp: audio_volume_def link_audio_def add_unchecked_def dest: rejects_nullD)

lemma audio_output_ok:
  assumes "rejects_null W"
  shows "fwp (audio_output W bin tail) (fok (\<lambda>(eq, sp, bal, vol, sink) s'.
     eq \<noteq> None \<and> sp \<noteq> None \<and> bal \<noteq> None \<and> vol \<noteq> None \<and> sink \<noteq> None)) s"
proof -
  have chain: "fwp (andthen (audio_balance W bin tail eq sink) (\<lambda>(balance, tail).
         andthen (audio_volume W bin tail sink) (\<lambda>(volume, tail).
         andthen (link_audio W [tail, sp, sink]) (\<lambda>_. success (eq, sp, balance, volume, sink)))))
       (fok (\<lambda>(eq, sp, bal, vol, sink) s'. eq \<noteq> None \<and> sp \<noteq> None \<and> bal \<noteq> None \<and> vol \<noteq> None \<and> sink \<noteq> None)) t"
    if "eq \<noteq> None" "sp \<noteq> None" "sink \<noteq> None" for eq sp sink t
  proof (rule andthen_seq [OF keeps_balance_volume(1) audio_balance_ok [OF assms that(3)]], simp only: split_paired_all prod.case)
    fix bal tl t'
    assume "bal \<noteq> (None :: gptr)"
    show "fwp (andthen (audio_volume W bin tl sink) (\<lambda>(volume, tail).
         andthen (link_audio W [tail, sp, sink]) (\<lambda>_. success (eq, sp, bal, volume, sink))))
       (fok (\<lambda>(eq, sp, bal, vol, sink) s'. eq \<noteq> None \<and> sp \<noteq> None \<and> bal \<noteq> None \<and> vol \<noteq> None \<and> sink \<noteq> None)) t'"
      by (rule andthen_seq [OF keeps_balance_volume(2) audio_volume_ok [OF assms that(3)]])
        (use that \<open>bal \<noteq> None\<close> in \<open>auto simp: link_audio_def\<close>)
  qed
  show ?thesis
    using chain by (cases "fw_os W") (simp_all add: audio_output_def CreateAudioSinkElement_def del: fwp_andthen)
qed

lemma audio_ghost_pad_ok: "fwp (audio_ghost_pad W bin hd') (fok (\<lambda>_ _. True)) s"
  by (simp add: audio_ghost_pad_def)

text \<open>What the audio bin leaves in the container.\<close>

definition audio_added :: "string option \<Rightarrow> string option \<Rightarrow> factory \<Rightarrow> factory \<Rightarrow> bool" where
  "audio_added parser dec s s' \<longleftrightarrow> has_roles audio_roles (f_elems s') \<and> f_opts s' = f_opts s \<and>
     (\<forall>r. r \<notin> set (AUDIO_PARSER # AUDIO_DECODER # audio_roles) \<longrightarrow>
        container_get (f_elems s') r = container_get (f_elems s) r) \<and>
     (parser \<noteq> None \<longrightarrow> container_get (f_elems s') AUDIO_PARSER \<noteq> None) \<and>
     (dec \<noteq> None \<longrightarrow> container_get (f_elems s') AUDIO_DECODER \<noteq> None)"

lemma add_audio_elements_ok:
  assumes "bin \<noteq> None" "case ins of (ap, aq, ad, x) \<Rightarrow> aq \<noteq> None \<and> (ap \<noteq> None \<longleftrightarrow> parser \<noteq> None) \<and> (ad \<noteq> None \<longleftrightarrow> dec \<noteq> None)"
    and "case outs of (eq, sp, bal, vol, sink) \<Rightarrow> eq \<noteq> None \<and> sp \<noteq> None \<and> bal \<noteq> None \<and> vol \<noteq> None \<and> sink \<noteq> None"
  shows "fwp (add_audio_elements bin ins outs) (\<lambda>flags s'. audio_added parser dec t s' \<and> flags = (if dec = None then 0 else 3)) t"
  using assms
  by (auto simp: add_audio_elements_def audio_added_def has_roles_def audio_roles_def split: prod.splits)

lemma CreateAudioBin_ok:
  assumes "rejects_null W"
  shows "fwp (CreateAudioBin W parser dec conv) (fok (\<lambda>(flags, bin) s'.
     audio_added parser dec s s' \<and> bin \<noteq> None \<and> flags = (if dec = None then 0 else 3))) s"
proof -
  have "fwp (andthen (audio_input W bin parser dec conv) (\<lambda>ins. case ins of (audioparse, audioqueue, _, tail) \<Rightarrow>
       andthen (audio_output W bin tail) (\<lambda>outs.
       andthen (audio_ghost_pad W bin (if audioparse \<noteq> None then audioparse else audioqueue)) (\<lambda>_. do {
         flags \<leftarrow> add_audio_elements bin ins outs;
         success (flags, bin)
       })))) (fok (\<lambda>(flags, bin) s'. audio_added parser dec s s' \<and> bin \<noteq> None \<and> flags = (if dec = None then 0 else 3))) t"
    if "bin \<noteq> None" "f_elems t = f_elems s" "f_opts t = f_opts s" for bin t
  proof (rule andthen_seq [OF keeps_audio_input audio_input_ok], simp only: split_paired_all prod.case, goal_cases)
    case (1 ap aq ad x t1)
    show ?case
    proof (rule andthen_seq [OF keeps_audio_output audio_output_ok [OF assms]], rule andthen_seq [OF keeps_audio_ghost_pad audio_ghost_pad_ok], goal_cases)
      case (1 outs t2 u t3)
      have "fwp (add_audio_elements bin (ap, aq, ad, x) outs)
          (\<lambda>flags s'. audio_added parser dec t3 s' \<and> flags = (if dec = None then 0 else 3)) t3"
        by (rule add_audio_elements_ok) (use that(1) \<open>aq \<noteq> None \<and> _\<close> 1(1) in \<open>auto split: prod.splits\<close>)
      moreover have "audio_added parser dec t3 s' = audio_added parser dec s s'" for s'
        using that \<open>f_elems t1 = f_elems t\<close> \<open>f_opts t1 = f_opts t\<close> 1 by (simp add: audio_added_def)
      ultimately show ?case using that(1) by (auto elim!: fwp_mono)
    qed
  qed
  then show ?thesis
    unfolding CreateAudioBin_def by (simp del: fwp_andthen)
qed

definition video_added :: "string option \<Rightarrow> factory \<Rightarrow> factory \<Rightarrow> bool" where
  "video_added dec s s' \<longleftrightarrow> has_roles video_roles (f_elems s') \<and> f_opts s' = f_opts s \<and>
     (\<forall>r. r \<notin> set (VIDEO_DECODER # video_roles) \<longrightarrow> container_get (f_elems s') r = container_get (f_elems s) r) \<and>
     (dec \<noteq> None \<longrightarrow> container_get (f_elems s') VIDEO_DECODER \<noteq> None)"

lemma keeps_video_ghost_pad: "keeps (video_ghost_pad W bin q)"
  unfolding video_ghost_pad_def by (intro keeps_control)

lemma video_ghost_pad_ok: "fwp (video_ghost_pad W bin q) (fok (\<lambda>_ _. True)) s"
  by (simp add: video_ghost_pad_def)

lemma add_video_elements_ok:
  assumes "bin \<noteq> None" "q \<noteq> None" "sink \<noteq> None" "dec \<noteq> None \<longrightarrow> d \<noteq> None"
  shows "fwp (add_video_elements bin q d sink) (\<lambda>_ s'. video_added dec t s') t"
  using assms by (auto simp: add_video_elements_def video_added_def has_roles_def video_roles_def)

lemma CreateVideoBin_ok: "fwp (CreateVideoBin W dec sink) (fok (\<lambda>bin s'. video_added dec s s')) s"
proof -
  have end': "fwp (andthen (video_ghost_pad W bin q) (\<lambda>_. do { add_video_elements bin q d v; success bin }))
      (fok (\<lambda>bin s'. video_added dec s s')) t"
    if "bin \<noteq> None" "q \<noteq> None" "v \<noteq> None" "dec \<noteq> None \<longrightarrow> d \<noteq> None" "f_elems t = f_elems s" "f_opts t = f_opts s"
    for bin q d v t
    by (rule andthen_seq [OF keeps_video_ghost_pad video_ghost_pad_ok])
      (simp, rule fwp_mono [OF add_video_elements_ok [OF that(1-4)]], simp add: video_added_def that)
  then show ?thesis
    unfolding CreateVideoBin_def
    by (cases dec; cases sink) (simp_all del: fwp_andthen not_None_eq)
qed

text \<open>A pipeline object with the elements its methods use without a test.\<close>

definition well_built :: "pipe \<Rightarrow> bool" where
  "well_built p \<longleftrightarrow> has_roles (PIPELINE # SOURCE # audio_roles) (m_Elements p) \<and>
     (is_av p \<longrightarrow> has_roles (AV_DEMUXER # AUDIO_DECODER # video_roles) (m_Elements p)) \<and>
     (m_AudioFlags p \<noteq> 0 \<longrightarrow> has_roles [AUDIO_DECODER] (m_Elements p))"

lemma new_members [simp]:
  "m_Elements (CGstAudioPlaybackPipeline_new h r es fl opts) = es" "is_av (CGstAudioPlaybackPipeline_new h r es fl opts) = False"
  "m_AudioFlags (CGstAudioPlaybackPipeline_new h r es fl opts) = fl" "m_pOptions (CGstAudioPlaybackPipeline_new h r es fl opts) = opts"
  "m_Elements (CGstAVPlaybackPipeline_new h r es fl opts) = es" "is_av (CGstAVPlaybackPipeline_new h r es fl opts) = True"
  "m_AudioFlags (CGstAVPlaybackPipeline_new h r es fl opts) = fl" "m_pOptions (CGstAVPlaybackPipeline_new h r es fl opts) = opts"
  by (simp_all add: CGstAVPlaybackPipeline_new_def) (simp_all add: CGstAudioPlaybackPipeline_new_def)

lemma has_roles_simps [simp]: "has_roles [] c" "has_roles (r # rs) c \<longleftrightarrow> container_get c r \<noteq> None \<and> has_roles rs c"
  by (auto simp: has_roles_def)

lemma has_roles_add: "has_roles rs c \<Longrightarrow> e \<noteq> None \<Longrightarrow> has_roles rs (container_add r e c)"
  by (auto simp: has_roles_def)

lemma true_post: "fwp m (\<lambda>_ _. True) s"
  by (simp add: fwp_def)

lemma keeps_ok: "keeps m \<Longrightarrow> fwp m (fok (\<lambda>_ _. True)) s"
  by (auto simp: fok_def fwp_def split_beta split: sum.split)

text \<open>Sequencing after a step that adds elements.\<close>

lemma andthen_step:
  assumes "fwp m (fok R) s" "\<And>a s'. R a s' \<Longrightarrow> fwp (k a) (fok Q) s'"
  shows "fwp (andthen m k) (fok Q) s"
  by (rule fwp_andthenI, rule fwp_mono [OF assms(1)]) (auto intro: fok_mono assms(2))

lemma CreateAudioPipeline_ok:
  assumes "rejects_null W"
  shows "fwp (CreateAudioPipeline W u conv) (fok (\<lambda>p s'. well_built p \<and> \<not> is_av p \<and> m_pOptions p = f_opts s)) s"
proof -
  have "fwp (andthen (CreateAudioBin W pn dn conv) (\<lambda>(flags, audiobin).
         andthen (AttachToSource W pl src None audiobin) (\<lambda>_. do {
           fadd PIPELINE pl;
           p \<leftarrow> new_pipeline u False flags;
           success p
         }))) (fok (\<lambda>p s'. well_built p \<and> \<not> is_av p \<and> m_pOptions p = f_opts s)) t"
    if "pl \<noteq> None" "src \<noteq> None" "container_get (f_elems t) SOURCE = src" "f_opts t = f_opts s" for pl src pn dn t
  proof (rule andthen_step [OF CreateAudioBin_ok [OF assms]], simp only: split_paired_all prod.case, goal_cases)
    case (1 flags audiobin t1)
    show ?case
      by (rule andthen_seq [OF keeps_AttachToSource keeps_ok [OF keeps_AttachToSource]])
        (use that 1 in \<open>auto simp: new_pipeline_def well_built_def audio_added_def audio_roles_def\<close>)
  qed
  then show ?thesis
    unfolding CreateAudioPipeline_def by (simp del: fwp_andthen)
qed

text \<open>The last part of \<^verbatim>\<open>CreateAVPipeline\<close>, after the sources were attached.\<close>

lemma av_finish:
  assumes "rejects_null W" "pl \<noteq> None" "dm \<noteq> None" "container_get (f_elems t) SOURCE \<noteq> None" "f_opts t = opts"
  shows "fwp (andthen (CreateAudioBin W None (GetAudioDecoder opts) conv) (\<lambda>(audioFlags, audiobin).
       andthen (attach_audio_bin W pl asrc adm audiobin b) (\<lambda>_.
       andthen (CreateVideoBin W vdec sink) (\<lambda>videobin. do {
         fadd PIPELINE pl;
         fadd AV_DEMUXER dm;
         fwhen (adm \<noteq> None) (fadd AUDIO_PARSER adm);
         p \<leftarrow> new_pipeline u True audioFlags;
         success p
       })))) (fok (\<lambda>p s'. well_built p \<and> is_av p \<and> m_pOptions p = opts \<and>
         (vdec \<noteq> None \<longrightarrow> has_roles [VIDEO_DECODER] (m_Elements p)))) t"
proof (cases "GetAudioDecoder opts")
  case None
  then show ?thesis by (simp add: CreateAudioBin_def)
next
  case (Some dec)
  show ?thesis
  proof (rule andthen_step [OF CreateAudioBin_ok [OF assms(1)]], simp only: split_paired_all prod.case, goal_cases)
    case (1 flags audiobin t1)
    show ?case
    proof (rule andthen_seq [OF keeps_attach(2) keeps_ok [OF keeps_attach(2)]],
        rule andthen_step [OF CreateVideoBin_ok], goal_cases)
      case (1 x t2 vb t3)
      with \<open>audio_added None _ t t1 \<and> _\<close> assms Some show ?case
        by (auto simp: new_pipeline_def well_built_def audio_added_def video_added_def audio_roles_def video_roles_def)
    qed
  qed
qed

lemma CreateAVPipeline_ok:
  assumes "rejects_null W"
  shows "fwp (CreateAVPipeline W u conv sink) (fok (\<lambda>p s'. well_built p \<and> is_av p \<and> m_pOptions p = f_opts s \<and>
     (GetVideoDecoder (f_opts s) \<noteq> None \<longrightarrow> has_roles [VIDEO_DECODER] (m_Elements p)))) s"
proof -
  define Q where "Q = fok (\<lambda>p s'. well_built p \<and> is_av p \<and> m_pOptions p = f_opts s \<and>
    (GetVideoDecoder (f_opts s) \<noteq> None \<longrightarrow> has_roles [VIDEO_DECODER] (m_Elements p)))"
  have [simp]: "Q (Inl e) t" for e t
    by (simp add: Q_def)
  have main: "fwp (andthen (AttachToSource W pl src buf dm) (\<lambda>_.
         andthen (attach_audio_source W pl asrc) (\<lambda>audioDemuxer.
         andthen (CreateAudioBin W None (GetAudioDecoder (f_opts s)) conv) (\<lambda>(audioFlags, audiobin).
         andthen (attach_audio_bin W pl asrc audioDemuxer audiobin b) (\<lambda>_.
         andthen (CreateVideoBin W (GetVideoDecoder (f_opts s)) sink) (\<lambda>videobin. do {
           fadd PIPELINE pl;
           fadd AV_DEMUXER dm;
           fwhen (audioDemuxer \<noteq> None) (fadd AUDIO_PARSER audioDemuxer);
           p \<leftarrow> new_pipeline u True audioFlags;
           success p
         })))))) Q t"
    if "pl \<noteq> None" "dm \<noteq> None" "container_get (f_elems t) SOURCE \<noteq> None" "f_opts t = f_opts s" for pl src buf dm asrc b t
    unfolding Q_def
    by (rule andthen_seq [OF keeps_AttachToSource keeps_ok [OF keeps_AttachToSource]],
        rule andthen_seq [OF keeps_attach(1) keeps_ok [OF keeps_attach(1)]], rule av_finish)
      (use assms that in simp_all)
  show ?thesis
    unfolding CreateAVPipeline_def Let_def Q_def [symmetric]
    by (auto simp del: fwp_andthen not_None_eq intro!: main split: option.split)
qed

lemma fwp_set_parsers [simp]: "fwp (set_parsers a b c d) Q s = Q () (s\<lparr>f_opts := (f_opts s)\<lparr>
     m_StreamParser := (if a = [] then m_StreamParser (f_opts s) else a),
     m_AudioStreamParser := (if b = [] then m_AudioStreamParser (f_opts s) else b),
     m_AudioDecoder := (if c = [] then m_AudioDecoder (f_opts s) else c),
     m_VideoDecoder := (if d = [] then m_VideoDecoder (f_opts s) else d)\<rparr>\<rparr>)"
  by (simp add: set_parsers_def)

text \<open>What a successful creation promises.\<close>

definition built :: "fworld \<Rightarrow> pipe \<Rightarrow> bool" where
  "built W p \<longleftrightarrow> well_built p \<and> (is_av p \<and> fw_os W = TARGET_OS_LINUX \<longrightarrow> has_roles [VIDEO_DECODER] (m_Elements p))"

lemma av_built:
  assumes "rejects_null W" "fw_os W = TARGET_OS_LINUX \<longrightarrow> GetVideoDecoder (f_opts s) \<noteq> None"
  shows "fwp (CreateAVPipeline W u conv sink) (fok (\<lambda>p s'. built W p)) s"
  by (rule fwp_mono [OF CreateAVPipeline_ok [OF assms(1)]]) (use assms(2) in \<open>auto simp: built_def elim!: fok_mono\<close>)

lemma audio_built: "rejects_null W \<Longrightarrow> fwp (CreateAudioPipeline W u conv) (fok (\<lambda>p s'. built W p)) s"
  by (rule fwp_mono [OF CreateAudioPipeline_ok]) (auto simp: built_def elim!: fok_mono)

lemma CreatePipeline_built:
  assumes "rejects_null W"
  shows "fwp (CreatePipeline W u) (fok (\<lambda>p s'. built W p)) s"
  unfolding CreatePipeline_def
  by (cases "fw_os W") (simp_all add: CreateMP4Pipeline_def CreateMp3AudioPipeline_def CreateWavPcmAudioPipeline_def
      CreateAiffPcmAudioPipeline_def CreateHLSPipeline_def CreateHLS_win32_def CreateHLS_linux_def Let_def
      audio_built [OF assms] av_built [OF assms] GetVideoDecoder_def GetCharFromString_def)

subsection \<open>Which media get a pipeline\<close>

text \<open>The content type is set once and never changed before the dispatch.\<close>

definition ctype_kept :: "'a fm \<Rightarrow> bool" where
  "ctype_kept m \<longleftrightarrow> (\<forall>s. fwp m (\<lambda>_ s'. m_ContentType (f_opts s') = m_ContentType (f_opts s)) s)"

lemma ctype_kept_seq:
  "ctype_kept m \<Longrightarrow> (\<And>a. ctype_kept (k a)) \<Longrightarrow> ctype_kept (State_Monad.bind m k)"
  "ctype_kept m' \<Longrightarrow> (\<And>a. ctype_kept (k' a)) \<Longrightarrow> ctype_kept (andthen m' k')"
  by (auto simp: ctype_kept_def andthen_def fwp_def split_beta split: sum.split)

lemma ctype_kept_prims:
  "ctype_kept (fret a)" "ctype_kept (fadd r e)" "ctype_kept (fask q act)" "ctype_kept (fdo act)" "ctype_kept (fgets f)"
  "(\<And>o'. m_ContentType (g o') = m_ContentType o') \<Longrightarrow> ctype_kept (fopts g)"
  by (simp_all add: ctype_kept_def)

lemma ctype_kept_cases:
  "ctype_kept m \<Longrightarrow> ctype_kept n \<Longrightarrow> ctype_kept (if c then m else n)"
  "ctype_kept m' \<Longrightarrow> ctype_kept (fwhen c m')"
  "ctype_kept k \<Longrightarrow> ctype_kept (ensure c err k)"
  "ctype_kept m'' \<Longrightarrow> (\<And>a. ctype_kept (h a)) \<Longrightarrow> ctype_kept (case x of None \<Rightarrow> m'' | Some a \<Rightarrow> h a)"
  "(\<And>a b. ctype_kept (g a b)) \<Longrightarrow> ctype_kept (case z of (a, b) \<Rightarrow> g a b)"
  by (simp_all add: ctype_kept_def split: option.split prod.split)

lemmas ctype_kept_rules = ctype_kept_seq ctype_kept_prims ctype_kept_cases

lemma ctype_kept_CreateElement: "ctype_kept (CreateElement W n)"
  unfolding CreateElement_def by (intro ctype_kept_rules)

lemma ctype_kept_CreateSourceElement: "ctype_kept (CreateSourceElement W loc cb mime)"
  unfolding CreateSourceElement_def connect_source_def Let_def
  by (intro ctype_kept_rules ctype_kept_CreateElement) simp

lemma ctype_kept_add_audio_stream: "ctype_kept (add_audio_stream W loc)"
  unfolding add_audio_stream_def Let_def
  by (intro ctype_kept_rules ctype_kept_CreateSourceElement) simp_all

lemma ctype_fok: "ctype_kept m \<Longrightarrow> fwp m (fok (\<lambda>_ s'. m_ContentType (f_opts s') = m_ContentType (f_opts s))) s"
  unfolding ctype_kept_def by (erule allE, erule fwp_mono) (simp add: fok_def split: sum.split)

text \<open>A postcondition of the dispatch on the content type of the locator is one of the whole creation.\<close>

lemma CreatePlayerPipeline_post:
  assumes "\<And>s. m_ContentType (f_opts s) = l_contentType (the loc) \<Longrightarrow> fwp (CreatePipeline W u) (fok R) s"
  shows "fwp (CreatePlayerPipeline W u loc) (fok R) s"
  by (auto simp: CreatePlayerPipeline_def Let_def simp del: fwp_andthen split: option.split
      intro!: andthen_step [OF ctype_fok [OF ctype_kept_CreateSourceElement]]
        andthen_step [OF ctype_fok [OF ctype_kept_add_audio_stream]] assms)

definition supported_content :: "target_os \<Rightarrow> string \<Rightarrow> bool" where
  "supported_content os ct \<longleftrightarrow> ct \<in> {CONTENT_TYPE_WAV, CONTENT_TYPE_AIFF} \<and> os \<noteq> TARGET_OS_OTHER \<or>
     ct \<in> {CONTENT_TYPE_MP4, CONTENT_TYPE_M4A, CONTENT_TYPE_M4V, CONTENT_TYPE_MPA, CONTENT_TYPE_MP3, CONTENT_TYPE_M3U8, CONTENT_TYPE_M3U}
       \<and> os \<in> {TARGET_OS_WIN32, TARGET_OS_LINUX}"

lemma no_sink_on_other: "fw_os W = TARGET_OS_OTHER \<Longrightarrow> fwp (audio_output W bin tail) (fok (\<lambda>_ _. False)) s"
  by (simp add: audio_output_def CreateAudioSinkElement_def)

lemma no_audio_bin_on_other: "fw_os W = TARGET_OS_OTHER \<Longrightarrow> fwp (CreateAudioBin W a b c) (fok (\<lambda>_ _. False)) s"
  by (auto simp: CreateAudioBin_def simp del: fwp_andthen split: prod.split
      intro!: andthen_step [OF keeps_ok [OF keeps_audio_input]] andthen_step [OF no_sink_on_other])

lemma no_audio_pipeline_on_other: "fw_os W = TARGET_OS_OTHER \<Longrightarrow> fwp (CreateAudioPipeline W u c) (fok (\<lambda>_ _. False)) s"
  by (auto simp: CreateAudioPipeline_def simp del: fwp_andthen intro!: andthen_step [OF no_audio_bin_on_other])

lemma CreatePipeline_supported:
  "\<not> supported_content (fw_os W) (m_ContentType (f_opts s)) \<Longrightarrow> fwp (CreatePipeline W u) (fok (\<lambda>_ _. False)) s"
  unfolding CreatePipeline_def supported_content_def
  by (cases "fw_os W") (auto simp: CreateMP4Pipeline_def CreateMp3AudioPipeline_def CreateWavPcmAudioPipeline_def
      CreateAiffPcmAudioPipeline_def CreateHLSPipeline_def Let_def no_audio_pipeline_on_other)

lemma CreatePipeline_only_supported:
  "fwp (CreatePipeline W u) (fok (\<lambda>_ _. supported_content (fw_os W) (m_ContentType (f_opts s)))) s"
proof (cases "supported_content (fw_os W) (m_ContentType (f_opts s))")
  case True
  then show ?thesis by (simp add: fok_def fwp_def split_beta split: sum.split)
next
  case False
  then show ?thesis using CreatePipeline_supported [OF False] by simp
qed

lemma run_fwp: "run_state m s = (r, s') \<Longrightarrow> fwp m Q s \<Longrightarrow> Q r s'"
  by (simp add: fwp_def)

lemma CreatePlayerPipeline_fwp:
  assumes "rejects_null W"
  shows "fwp (CreatePlayerPipeline W u loc) (fok (\<lambda>p s'. built W p \<and> supported_content (fw_os W) (l_contentType (the loc)))) s"
proof (rule CreatePlayerPipeline_post)
  fix t :: factory
  assume "m_ContentType (f_opts t) = l_contentType (the loc)"
  then show "fwp (CreatePipeline W u) (fok (\<lambda>p s'. built W p \<and> supported_content (fw_os W) (l_contentType (the loc)))) t"
    using fwp_conj [OF CreatePipeline_built [OF assms] CreatePipeline_only_supported, of u t]
    by - (rule fwp_mono, assumption, simp add: fok_def split: sum.splits)
qed

text \<open>C25: Whatever GStreamer answers, a pipeline object leaves the factory only for a content type the platform
  supports, and with every element that its methods use without testing for \<^verbatim>\<open>NULL\<close>: pipeline, source, audio bin, queue,
  equalizer, spectrum, balance, volume and sink; for audio and video also the demultiplexer, the video bin, queue
  and sink, and the decoders (the video decoder on Linux, where it is not loaded later).\<close>

theorem CreatePlayerPipeline_complete:
  assumes "rejects_null W" "run_state (CreatePlayerPipeline W u loc) s = (Inr p, s')"
  shows "built W p \<and> supported_content (fw_os W) (l_contentType (the loc))"
  using run_fwp [OF assms(2) CreatePlayerPipeline_fwp [OF assms(1)]] by simp

subsection \<open>When nothing fails\<close>

text \<open>A GStreamer that never fails.\<close>

definition willing :: "fworld \<Rightarrow> bool" where
  "willing W \<longleftrightarrow> (\<forall>h a. fw_obj W h a \<noteq> None) \<and> (\<forall>h a. (\<forall>b. a \<noteq> Add b None) \<longrightarrow> fw_ok W h a)"

definition won :: "errcode + 'a \<Rightarrow> factory \<Rightarrow> bool" where
  "won r s = (\<not> isl r)"

lemma won_simps [simp]: "won (Inr a) s" "\<not> won (Inl e) s"
  by (simp_all add: won_def)

lemma won_last [simp]: "fwp m (\<lambda>a. fwp (success (g a)) won) s"
  by (simp add: fwp_def split_beta)

lemma willing_obj: "willing W \<Longrightarrow> \<exists>y. fw_obj W h a = Some y"
  and willing_obj_neq: "willing W \<Longrightarrow> fw_obj W h a \<noteq> None"
  and willing_add: "willing W \<Longrightarrow> e \<noteq> None \<Longrightarrow> fw_ok W h (Add b e)"
  and willing_link: "willing W \<Longrightarrow> fw_ok W h (Link es)"
  and willing_pad: "willing W \<Longrightarrow> fw_ok W h (AddPad b q)"
  by (auto simp: willing_def)

lemmas willing_simps = willing_obj willing_obj_neq willing_add willing_link willing_pad

lemma andthen_won:
  assumes "fwp m won s" "fwp m (fok R) s" "\<And>a s'. R a s' \<Longrightarrow> fwp (k a) won s'"
  shows "fwp (andthen m k) won s"
  using assms by (auto simp: fwp_def split_beta fok_def won_def andthen_def split: sum.splits)

lemma andthen_won_keeps:
  assumes "keeps m" "fwp m won s" "fwp m (fok R) s"
    and "\<And>a s'. R a s' \<Longrightarrow> f_elems s' = f_elems s \<Longrightarrow> f_opts s' = f_opts s \<Longrightarrow> fwp (k a) won s'"
  shows "fwp (andthen m k) won s"
  using assms by (auto simp: fwp_def split_beta fok_def won_def andthen_def keeps_def split: sum.splits)

lemma elements_won:
  assumes "willing W"
  shows "fwp (add_named W bin n err) won s" "fwp (link_audio W es) won s" "fwp (add_unchecked W bin nm) won s"
  using assms by (simp_all add: add_named_def link_audio_def add_unchecked_def willing_simps split: option.split)

lemma maybe_link_won: "willing W \<Longrightarrow> fwp (if c then link_audio W es else success ()) won s"
  by (simp add: elements_won)

lemma audio_input_won:
  assumes "willing W"
  shows "fwp (audio_input W bin parser dec conv) won s"
  unfolding audio_input_def
  apply (rule andthen_won [OF elements_won(1) add_named_ok], rule assms)
  apply (rule andthen_won [OF elements_won(1) add_named_ok], rule assms)
  apply (rule andthen_won [OF maybe_link_won maybe_link(2)], rule assms)
  apply (rule andthen_won [OF elements_won(1) add_named_ok], rule assms)
  apply (rule andthen_won [OF maybe_link_won maybe_link(2)], rule assms)
  using assms by (simp add: Let_def add_unchecked_def link_audio_def willing_simps)

lemma audio_output_won:
  assumes "willing W" "fw_os W \<noteq> TARGET_OS_OTHER"
  shows "fwp (audio_output W bin tail) won s"
  using assms by (cases "fw_os W") (simp_all add: audio_output_def CreateAudioSinkElement_def audio_balance_def
      audio_volume_def add_unchecked_def link_audio_def willing_simps)

lemma audio_ghost_pad_won: "willing W \<Longrightarrow> fwp (audio_ghost_pad W bin e) won s"
  by (simp add: audio_ghost_pad_def willing_simps)

lemma CreateAudioBin_won:
  assumes "willing W" "fw_os W \<noteq> TARGET_OS_OTHER" "parser \<noteq> None \<or> dec \<noteq> None"
  shows "fwp (CreateAudioBin W parser dec conv) won s"
  using assms
  by (auto simp: CreateAudioBin_def willing_simps simp del: fwp_andthen split: prod.split
      intro!: andthen_won [OF audio_input_won keeps_ok [OF keeps_audio_input]] andthen_won [OF audio_output_won keeps_ok [OF keeps_audio_output]]
       andthen_won [OF audio_ghost_pad_won audio_ghost_pad_ok])

lemma AttachToSource_won: "willing W \<Longrightarrow> element \<noteq> None \<Longrightarrow> fwp (AttachToSource W bin source buffer element) won s"
  by (auto simp: AttachToSource_def GetByFactoryName_def willing_simps Let_def split: option.split)


lemma attach_audio_source_won:
  assumes "willing W"
  shows "fwp (attach_audio_source W pl src) won s"
  using assms by (auto simp: attach_audio_source_def willing_simps simp del: fwp_andthen split: option.split
      intro!: andthen_won [OF AttachToSource_won keeps_ok [OF keeps_AttachToSource]])

lemma attach_audio_bin_won: "willing W \<Longrightarrow> bin \<noteq> None \<Longrightarrow> fwp (attach_audio_bin W pl src dm bin b) won s"
  by (simp add: attach_audio_bin_def AttachToSource_won willing_simps)

lemma CreateVideoBin_won: "willing W \<Longrightarrow> fwp (CreateVideoBin W dec sink) won s"
  by (cases dec; cases sink) (simp_all add: CreateVideoBin_def video_ghost_pad_def add_video_elements_def willing_simps)

lemma CreateAudioBin_bin: "fwp (CreateAudioBin W parser dec conv) (fok (\<lambda>(flags, bin) s'. bin \<noteq> None)) s"
proof -
  have [intro!]: "fwp m (\<lambda>a. fwp (success (a, Some y)) (fok (\<lambda>(flags, bin) s'. \<exists>z. bin = Some z))) s" for m :: "int fm" and y s
    by (simp add: fwp_def split_beta)
  show ?thesis
    by (auto simp: CreateAudioBin_def simp del: fwp_andthen split: prod.split
      intro!: andthen_step [OF keeps_ok [OF keeps_audio_input]] andthen_step [OF keeps_ok [OF keeps_audio_output]]
       andthen_step [OF audio_ghost_pad_ok])
qed

lemma CreateAudioPipeline_won:
  assumes "willing W" "fw_os W \<noteq> TARGET_OS_OTHER" "container_get (f_elems s) SOURCE \<noteq> None"
    and "GetStreamParser (f_opts s) \<noteq> None \<or> GetAudioDecoder (f_opts s) \<noteq> None"
  shows "fwp (CreateAudioPipeline W u conv) won s"
  using assms
  by (auto simp: CreateAudioPipeline_def willing_simps simp del: fwp_andthen split: prod.split
      intro!: andthen_won [OF CreateAudioBin_won CreateAudioBin_bin] andthen_won [OF AttachToSource_won keeps_ok [OF keeps_AttachToSource]])

lemma CreateAVPipeline_won:
  assumes "willing W" "fw_os W \<noteq> TARGET_OS_OTHER" "container_get (f_elems s) SOURCE \<noteq> None"
    and "m_PipelineType (f_opts s) = kAudioSourcePipeline \<longrightarrow> container_get (f_elems s) AUDIO_SOURCE \<noteq> None"
    and "GetStreamParser (f_opts s) \<noteq> None" "GetAudioDecoder (f_opts s) \<noteq> None"
  shows "fwp (CreateAVPipeline W u conv sink) won s"
proof -
  have main: "fwp (andthen (AttachToSource W pl src buf dm) (\<lambda>_.
         andthen (attach_audio_source W pl asrc) (\<lambda>audioDemuxer.
         andthen (CreateAudioBin W None (GetAudioDecoder (f_opts s)) conv) (\<lambda>(audioFlags, audiobin).
         andthen (attach_audio_bin W pl asrc audioDemuxer audiobin b) (\<lambda>_.
         andthen (CreateVideoBin W (GetVideoDecoder (f_opts s)) sink) (\<lambda>videobin. do {
           fadd PIPELINE pl;
           fadd AV_DEMUXER dm;
           fwhen (audioDemuxer \<noteq> None) (fadd AUDIO_PARSER audioDemuxer);
           p \<leftarrow> new_pipeline u True audioFlags;
           success p
         })))))) won t" if "dm \<noteq> None" for pl src buf dm asrc b t
    apply (rule andthen_won [OF AttachToSource_won keeps_ok [OF keeps_AttachToSource]]; simp add: assms(1) that del: fwp_andthen)
    apply (rule andthen_won [OF attach_audio_source_won keeps_ok [OF keeps_attach(1)]]; simp add: assms(1) del: fwp_andthen)
    apply (rule andthen_won [OF CreateAudioBin_won CreateAudioBin_bin]; (simp add: assms del: fwp_andthen not_None_eq split: prod.split)?)
    apply (intro allI impI)
    apply (rule andthen_won [OF attach_audio_bin_won keeps_ok [OF keeps_attach(2)]]; simp add: assms(1) del: fwp_andthen)
    apply (rule andthen_won [OF CreateVideoBin_won CreateVideoBin_ok]; simp add: assms(1))
    done
  show ?thesis
    using assms by (auto simp: CreateAVPipeline_def Let_def willing_simps simp del: fwp_andthen not_None_eq split: option.split intro!: main)
qed

text \<open>The stream formats of a playlist for which the factory has parsers.\<close>

definition hls_playable :: "int \<Rightarrow> int option \<Rightarrow> bool" where
  "hls_playable mime audioMime = (case audioMime of
      None \<Rightarrow> mime \<in> {HLS_VALUE_MIMETYPE_MP2T, HLS_VALUE_MIMETYPE_MP3, HLS_VALUE_MIMETYPE_FMP4, HLS_VALUE_MIMETYPE_AAC}
    | Some am \<Rightarrow> mime \<in> {HLS_VALUE_MIMETYPE_MP2T, HLS_VALUE_MIMETYPE_FMP4} \<and> am \<in> {HLS_VALUE_MIMETYPE_FMP4, HLS_VALUE_MIMETYPE_AAC})"

definition audio_mime :: "CPipelineOptions \<Rightarrow> int option" where
  "audio_mime opts = (if m_PipelineType opts = kAudioSourcePipeline then Some (m_AudioStreamMimeType opts) else None)"

lemma GetCharFromString_None [simp]: "GetCharFromString str = None \<longleftrightarrow> str = []"
    "(\<exists>y. GetCharFromString str = Some y) \<longleftrightarrow> str \<noteq> []"
  by (simp_all add: GetCharFromString_def)

lemma CreateHLS_won:
  assumes "willing W" "fw_os W \<in> {TARGET_OS_WIN32, TARGET_OS_LINUX}" "container_get (f_elems s) SOURCE \<noteq> None"
    and "m_PipelineType (f_opts s) = kAudioSourcePipeline \<longrightarrow> container_get (f_elems s) AUDIO_SOURCE \<noteq> None"
    and "hls_playable (m_StreamMimeType (f_opts s)) (audio_mime (f_opts s))"
  shows "fwp (CreateHLSPipeline W u sink) won s"
  using assms unfolding CreateHLSPipeline_def CreateHLS_win32_def CreateHLS_linux_def hls_playable_def audio_mime_def Let_def
  by (cases "m_PipelineType (f_opts s) = kAudioSourcePipeline")
    (auto intro!: CreateAVPipeline_won CreateAudioPipeline_won
      simp: GetStreamParser_def GetAudioDecoder_def hls_mime_defs simp del: not_None_eq)

lemma CreatePipeline_won:
  assumes "willing W" "supported_content (fw_os W) (m_ContentType (f_opts s))" "container_get (f_elems s) SOURCE \<noteq> None"
    and "m_PipelineType (f_opts s) = kAudioSourcePipeline \<longrightarrow> container_get (f_elems s) AUDIO_SOURCE \<noteq> None"
    and "m_ContentType (f_opts s) \<in> {CONTENT_TYPE_M3U8, CONTENT_TYPE_M3U} \<longrightarrow> hls_playable (m_StreamMimeType (f_opts s)) (audio_mime (f_opts s))"
  shows "fwp (CreatePipeline W u) won s"
proof -
  have hls: "fwp (CreateHLSPipeline W u sink) won (s\<lparr>f_log := l\<rparr>)"
    if "fw_os W \<in> {TARGET_OS_WIN32, TARGET_OS_LINUX}" "m_ContentType (f_opts s) \<in> {CONTENT_TYPE_M3U8, CONTENT_TYPE_M3U}" for sink l
    using assms that by (intro CreateHLS_won) auto
  have mp4: "fwp (CreateMP4Pipeline W u sink) won (s\<lparr>f_log := l\<rparr>)"
    and mp3: "fwp (CreateMp3AudioPipeline W u) won s" if "fw_os W \<in> {TARGET_OS_WIN32, TARGET_OS_LINUX}" for sink l
    using assms that unfolding CreateMP4Pipeline_def CreateMp3AudioPipeline_def
    by (auto intro!: CreateAVPipeline_won CreateAudioPipeline_won simp: GetStreamParser_def GetAudioDecoder_def simp del: not_None_eq)
  have pcm: "fwp (CreateWavPcmAudioPipeline W u) won s" "fwp (CreateAiffPcmAudioPipeline W u) won s"
    if "fw_os W \<noteq> TARGET_OS_OTHER"
    using assms that unfolding CreateWavPcmAudioPipeline_def CreateAiffPcmAudioPipeline_def
    by (auto intro!: CreateAudioPipeline_won simp: GetStreamParser_def simp del: not_None_eq)
  show ?thesis
    using assms(2) unfolding supported_content_def
    by (elim disjE conjE insertE emptyE)
      (simp_all add: assms(1) hls mp4 mp3 pcm CreatePipeline_def Let_def content_type_defs willing_simps del: not_None_eq)
qed


lemma CreateSourceElement_won:
  assumes "willing W"
  shows "fwp (CreateSourceElement W loc cb mime) won s"
  using assms by (cases "hls_mime_type mime"; cases "cb_IsRandomAccess cb"; cases "m_bHLSModeEnabled (f_opts s)"; cases "cb_NeedBuffer cb")
    (simp_all add: CreateSourceElement_def connect_source_def Let_def willing_simps)

lemma source_frame:
  "fwp (CreateSourceElement W loc cb mime) (fok (\<lambda>(src, buf) s'. src \<noteq> None \<and> f_elems s' = f_elems s \<and>
     f_opts s' = (f_opts s)\<lparr>m_bBufferingEnabled := cb_NeedBuffer cb\<rparr>)) s"
  by (cases "hls_mime_type mime"; cases "cb_IsRandomAccess cb"; cases "m_bHLSModeEnabled (f_opts s)"; cases "cb_NeedBuffer cb")
    (simp_all add: CreateSourceElement_def connect_source_def Let_def)

definition playable :: "target_os \<Rightarrow> CLocatorStream \<Rightarrow> bool" where
  "playable os loc \<longleftrightarrow> l_type loc = kStreamLocatorType \<and> supported_content os (l_contentType loc) \<and>
     (case l_callbacks loc of None \<Rightarrow> False
      | Some cb \<Rightarrow> l_contentType loc \<in> {CONTENT_TYPE_M3U8, CONTENT_TYPE_M3U} \<longrightarrow>
          hls_playable (cb_Property cb HLS_PROP_GET_MIMETYPE 0)
            (map_option (\<lambda>a. cb_Property a HLS_PROP_GET_MIMETYPE 0) (l_audioCallbacks loc)))"

lemma supported_nonempty: "supported_content os ct \<Longrightarrow> ct \<noteq> []"
  by (auto simp: supported_content_def content_type_defs)

text \<open>What the separate audio stream changes.\<close>

definition audio_stream_set :: "CLocatorStream \<Rightarrow> factory \<Rightarrow> factory \<Rightarrow> bool" where
  "audio_stream_set loc s s' \<longleftrightarrow> container_get (f_elems s') SOURCE = container_get (f_elems s) SOURCE \<and>
     m_ContentType (f_opts s') = m_ContentType (f_opts s) \<and> m_StreamMimeType (f_opts s') = m_StreamMimeType (f_opts s) \<and>
     (case l_audioCallbacks loc of
        None \<Rightarrow> m_PipelineType (f_opts s') = m_PipelineType (f_opts s)
      | Some a \<Rightarrow> container_get (f_elems s') AUDIO_SOURCE \<noteq> None \<and>
          audio_mime (f_opts s') = Some (cb_Property a HLS_PROP_GET_MIMETYPE 0))"

lemma add_audio_stream_set: "fwp (add_audio_stream W loc) (fok (\<lambda>_ s'. audio_stream_set loc s s')) s"
  unfolding add_audio_stream_def Let_def
  by (auto simp del: fwp_andthen split: option.split intro!: andthen_step [OF source_frame])
    (auto simp: audio_stream_set_def audio_mime_def)

lemma add_audio_stream_won: "willing W \<Longrightarrow> fwp (add_audio_stream W loc) won s"
  unfolding add_audio_stream_def Let_def
  by (auto simp del: fwp_andthen split: option.split prod.split intro!: andthen_won [OF CreateSourceElement_won source_frame])

lemma CreatePlayerPipeline_won:
  assumes "willing W" "playable (fw_os W) loc" "m_PipelineType (f_opts s) = kSingleSourcePipeline"
  shows "fwp (CreatePlayerPipeline W u (Some loc)) won s"
proof -
  obtain cb where cb: "l_callbacks loc = Some cb"
    using assms(2) by (auto simp: playable_def split: option.splits)
  have last: "fwp (CreatePipeline W u) won t'"
    if "audio_stream_set loc t t'" "container_get (f_elems t) SOURCE \<noteq> None" "m_PipelineType (f_opts t) = kSingleSourcePipeline"
      "m_ContentType (f_opts t) = l_contentType loc" "m_StreamMimeType (f_opts t) = cb_Property cb HLS_PROP_GET_MIMETYPE 0" for t t'
    using assms that cb
    by (intro CreatePipeline_won) (auto simp: audio_stream_set_def playable_def audio_mime_def split: option.splits)
  show ?thesis
    using assms cb supported_nonempty
    by (auto simp: CreatePlayerPipeline_def playable_def Let_def simp del: fwp_andthen split: prod.split
        intro!: andthen_won [OF CreateSourceElement_won source_frame] andthen_won [OF add_audio_stream_won add_audio_stream_set])
      (erule last; simp)+
qed

lemma run_won: "fwp m won s \<Longrightarrow> \<exists>p s'. run_state m s = (Inr p, s')"
  by (cases "run_state m s"; cases "fst (run_state m s)") (auto simp: fwp_def won_def)

text \<open>C26: When no call to GStreamer fails, every locator with a content type of the platform, and for a playlist with
  stream formats the factory knows, gets a pipeline: audio only, audio and video, HLS with and without a separate
  audio stream.\<close>

theorem CreatePlayerPipeline_succeeds:
  assumes "willing W" "playable (fw_os W) loc" "f_opts s = CPipelineOptions_new"
  shows "\<exists>p s'. run_state (CreatePlayerPipeline W u (Some loc)) s = (Inr p, s')"
  using assms by (intro run_won CreatePlayerPipeline_won) (auto simp: CPipelineOptions_new_def)

text \<open>A concrete GStreamer: every object it makes is new, and only the addition of \<^verbatim>\<open>NULL\<close> fails.\<close>

definition demo_fworld :: fworld where
  "demo_fworld = \<lparr>fw_os = TARGET_OS_LINUX, fw_obj = (\<lambda>h a. Some (length h)),
     fw_ok = (\<lambda>h a. case a of Add b e \<Rightarrow> e \<noteq> None | _ \<Rightarrow> True), fw_iter = (\<lambda>h b. None)\<rparr>"

definition demo_factory :: factory where
  "demo_factory = \<lparr>f_log = [], f_elems = GstElementContainer_new, f_opts = CPipelineOptions_new\<rparr>"

definition demo_locator :: CLocatorStream where
  "demo_locator = \<lparr>l_type = kStreamLocatorType, l_contentType = CONTENT_TYPE_MP4, l_location = ''file'', l_llSizeHint = 1000,
     l_callbacks = Some \<lparr>cb_NeedBuffer = True, cb_IsSeekable = True, cb_IsRandomAccess = False, cb_Property = (\<lambda>_ _. 0)\<rparr>,
     l_audioCallbacks = None\<rparr>"
lemma demo_world: "willing demo_fworld" "rejects_null demo_fworld" "playable (fw_os demo_fworld) demo_locator"
  by (auto simp: willing_def rejects_null_def playable_def demo_fworld_def demo_locator_def supported_content_def content_type_defs
     split: fact_act.split)


theorem CreatePlayerPipeline_succeeds_witness:
  "willing demo_fworld \<and> (\<exists>p s'. run_state (CreatePlayerPipeline demo_fworld (0, False) (Some demo_locator)) demo_factory = (Inr p, s'))"
  using CreatePlayerPipeline_succeeds [OF demo_world(1,3)] demo_world by (simp add: demo_factory_def)

theorem CreatePlayerPipeline_complete_witness:
  "\<exists>p s'. rejects_null demo_fworld \<and> run_state (CreatePlayerPipeline demo_fworld (0, False) (Some demo_locator)) demo_factory = (Inr p, s') \<and>
     built demo_fworld p"
proof -
  obtain p s' where "run_state (CreatePlayerPipeline demo_fworld (0, False) (Some demo_locator)) demo_factory = (Inr p, s')"
    using run_won [OF CreatePlayerPipeline_won [OF demo_world(1,3)]] by (fastforce simp: demo_factory_def CPipelineOptions_new_def)
  with CreatePlayerPipeline_complete [OF demo_world(2) this] demo_world(2) show ?thesis
    by blast
qed

end
