(* ===== verification/Factory_Links.thy ===== *)
theory Factory_Links
  imports Factory_Results
begin

text \<open>
  The connections the factory makes: the chain of an audio bin, the handlers of a source and the late pad of a
  progress buffer.
\<close>

subsection \<open>The chain of an audio bin\<close>

text \<open>The links that succeeded: \<^verbatim>\<open>gst_element_link_many\<close> links every element to the next.\<close>

fun links :: "fworld \<Rightarrow> fhistory \<Rightarrow> (gptr \<times> gptr) set" where
  "links W [] = {}"
| "links W (a # h) = (case a of
      Link es \<Rightarrow> (if fw_ok W h (Link es) then set (zip es (tl es)) else {}) \<union> links W h
    | _ \<Rightarrow> links W h)"

lemma add_named_links: "fwp (add_named W bin n err) (fok (\<lambda>e s'. links W (f_log s') = links W (f_log s))) s"
  and link_audio_links: "fwp (link_audio W es) (fok (\<lambda>_ s'. links W (f_log s') = set (zip es (tl es)) \<union> links W (f_log s))) s"
  and add_unchecked_links: "fwp (add_unchecked W bin nm) (fok (\<lambda>e s'. links W (f_log s') = links W (f_log s))) s"
  and ghost_pad_links: "fwp (audio_ghost_pad W bin x) (fok (\<lambda>_ s'. links W (f_log s') = links W (f_log s))) s"
  by (simp_all add: add_named_def link_audio_def add_unchecked_def audio_ghost_pad_def split: option.split)

lemma maybe_link_links:
  "fwp (if c then link_audio W [a, b] else success ()) (fok (\<lambda>_ s'. links W (f_log s') = (if c then {(a, b)} else {}) \<union> links W (f_log s))) s"
  by (simp add: link_audio_def)

lemma converter_links:
  "fwp (if conv then andthen (add_unchecked W bin ''audioconvert'') (\<lambda>audioconv.
          andthen (link_audio W [tail, audioconv]) (\<lambda>_. success (a, b, d, audioconv)))
        else success (a, b, d, tail)) (fok (\<lambda>(ap, aq, ad, tl) s'. ap = a \<and> aq = b \<and> links W (f_log s) \<subseteq> links W (f_log s') \<and>
          (tail, tl) \<in> (links W (f_log s'))\<^sup>*)) s"
  by (auto simp: add_unchecked_def link_audio_def)

lemma rtrancl_via: "(x, y) \<in> R\<^sup>* \<Longrightarrow> R \<subseteq> S \<Longrightarrow> (y, z) \<in> S\<^sup>* \<Longrightarrow> (x, z) \<in> S\<^sup>*"
  by (meson in_rtrancl_UnI rtrancl_mono rtrancl_trans subset_iff)

lemma trancl_via: "(x, y) \<in> R\<^sup>* \<Longrightarrow> R \<subseteq> S \<Longrightarrow> (y, z) \<in> S \<Longrightarrow> (x, z) \<in> S\<^sup>+"
  by (meson rtrancl_into_trancl1 rtrancl_mono subsetD)

lemma audio_input_links:
  "fwp (audio_input W bin parser dec conv) (fok (\<lambda>(ap, aq, ad, tail) s'.
     links W (f_log s) \<subseteq> links W (f_log s') \<and> (if ap \<noteq> None then ap else aq, tail) \<in> (links W (f_log s'))\<^sup>*)) s"
  unfolding audio_input_def Let_def
proof (rule andthen_step [OF add_named_links], rule andthen_step [OF add_named_links], rule andthen_step [OF maybe_link_links],
    rule andthen_step [OF add_named_links], rule andthen_step [OF maybe_link_links], rule fwp_mono [OF converter_links], goal_cases)
  case (1 ap s1 aq s2 _ s3 ad s4 _ s5 r s6)
  have "(if ap \<noteq> None then ap else aq, if ad \<noteq> None then ad else aq) \<in> (links W (f_log s5))\<^sup>*"
    using 1(1-5) by (auto intro: rtrancl_trans)
  with 1 show ?case
    by (auto simp: fok_def split: sum.splits intro: rtrancl_via)
qed

lemma fwp_conj_ok: "fwp m (fok Q) s \<Longrightarrow> fwp m (fok Q') s \<Longrightarrow> fwp m (fok (\<lambda>a s'. Q a s' \<and> Q' a s')) s"
  by (auto simp: fwp_def fok_def split_beta split: sum.splits)

lemma balance_links:
  "fwp (audio_balance W bin tail eq sink) (fok (\<lambda>(bal, tl) s'. links W (f_log s) \<subseteq> links W (f_log s') \<and>
     (tail, eq) \<in> links W (f_log s') \<and> (eq, tl) \<in> (links W (f_log s'))\<^sup>*)) s"
  by (auto simp: audio_balance_def add_unchecked_def link_audio_def)

lemma volume_links:
  "fwp (audio_volume W bin tail sink) (fok (\<lambda>(vol, tl) s'. links W (f_log s) \<subseteq> links W (f_log s') \<and>
     (tail, tl) \<in> (links W (f_log s'))\<^sup>*)) s"
  by (auto simp: audio_volume_def add_unchecked_def link_audio_def)

lemma audio_output_links:
  "fwp (audio_output W bin tail) (fok (\<lambda>(eq, sp, bal, vol, sink) s'.
     links W (f_log s) \<subseteq> links W (f_log s') \<and> (tail, eq) \<in> links W (f_log s') \<and> (eq, sp) \<in> (links W (f_log s'))\<^sup>+ \<and>
     (sp, sink) \<in> links W (f_log s'))) s"
proof -
  have main: "fwp (andthen (audio_balance W bin tail eq sink) (\<lambda>(balance, tail).
         andthen (audio_volume W bin tail sink) (\<lambda>(volume, tail).
         andthen (link_audio W [tail, sp, sink]) (\<lambda>_. success (eq, sp, balance, volume, sink)))))
     (fok (\<lambda>(eq, sp, bal, vol, sink) s'. links W (f_log s) \<subseteq> links W (f_log s') \<and> (tail, eq) \<in> links W (f_log s') \<and>
       (eq, sp) \<in> (links W (f_log s'))\<^sup>+ \<and> (sp, sink) \<in> links W (f_log s'))) t"
    if "links W (f_log t) = links W (f_log s)" for eq sp sink t
  proof (rule andthen_step [OF balance_links], simp only: split_paired_all prod.case, rule andthen_step [OF volume_links],
      simp only: split_paired_all prod.case, rule andthen_step [OF link_audio_links], goal_cases)
    case (1 bal tl t1 vol tl' t2 _ t3)
    then have "(eq, tl') \<in> (links W (f_log t3))\<^sup>*"
      by (auto intro: rtrancl_via [of _ _ "links W (f_log t2)"] rtrancl_via [of _ _ "links W (f_log t1)"])
    then have "(eq, sp) \<in> (links W (f_log t3))\<^sup>+"
      using 1 by (auto intro: rtrancl_into_trancl1)
    with 1 that show ?case by auto
  qed
  show ?thesis
    by (cases "fw_os W") (auto simp: audio_output_def CreateAudioSinkElement_def simp del: fwp_andthen intro!: main)
qed

text \<open>From the first element of the bin over the equalizer and the spectrum to the sink.\<close>

definition audio_chain :: "fworld \<Rightarrow> gptr \<Rightarrow> factory \<Rightarrow> bool" where
  "audio_chain W head s \<longleftrightarrow> (let L = links W (f_log s); el = container_get (f_elems s) in
     (head, el AUDIO_EQUALIZER) \<in> L\<^sup>+ \<and> (el AUDIO_EQUALIZER, el AUDIO_SPECTRUM) \<in> L\<^sup>+ \<and> (el AUDIO_SPECTRUM, el AUDIO_SINK) \<in> L)"

text \<open>In every audio bin the factory finishes, on every platform and with or without parser, decoder and converter,
  the links that succeeded connect its first element, the one that carries the ghost pad, with the equalizer,
  the equalizer with the spectrum and the spectrum with the sink: there is no gap in the chain.\<close>

theorem CreateAudioBin_chain:
  "fwp (CreateAudioBin W parser dec conv) (fok (\<lambda>(flags, bin) s'.
     audio_chain W (container_get (f_elems s') (if parser \<noteq> None then AUDIO_PARSER else AUDIO_QUEUE)) s')) s"
proof -
  define first where "first = (if parser \<noteq> None then AUDIO_PARSER else AUDIO_QUEUE)"
  have main: "fwp (andthen (audio_input W bin parser dec conv) (\<lambda>ins. case ins of (audioparse, audioqueue, _, tail) \<Rightarrow>
       andthen (audio_output W bin tail) (\<lambda>outs.
       andthen (audio_ghost_pad W bin (if audioparse \<noteq> None then audioparse else audioqueue)) (\<lambda>_. do {
         flags \<leftarrow> add_audio_elements bin ins outs;
         success (flags, bin)
       })))) (fok (\<lambda>(flags, bin) s'. audio_chain W (container_get (f_elems s') first) s')) t"
    for bin t
  proof (rule andthen_step [OF fwp_conj_ok [OF audio_input_links audio_input_ok]], simp only: split_paired_all prod.case,
      rule andthen_step [OF audio_output_links], rule andthen_step [OF ghost_pad_links], simp only: split_paired_all prod.case, goal_cases)
    case (1 ap aq ad tail t1 eq sp bal vol sink t2 _ t3)
    then have "(if parser \<noteq> None then ap else aq, eq) \<in> (links W (f_log t3))\<^sup>+"
      by (auto intro: trancl_via)
    with 1 show ?case
      by (auto simp: add_audio_elements_def audio_chain_def first_def Let_def)
  qed
  then show ?thesis
    unfolding CreateAudioBin_def first_def [symmetric] by (simp del: fwp_andthen)
qed

subsection \<open>The handlers of a source\<close>

text \<open>The handlers of an element that are connected after the calls of a history, the latest call first.\<close>

fun live_handlers :: "gptr \<Rightarrow> fhistory \<Rightarrow> source_handler set" where
  "live_handlers src [] = {}"
| "live_handlers src (a # h) = (case a of
      ConnectSource e f \<Rightarrow> if e = src then insert f (live_handlers src h) else live_handlers src h
    | DisconnectSource e f \<Rightarrow> if e = src then live_handlers src h - {f} else live_handlers src h
    | _ \<Rightarrow> live_handlers src h)"

text \<open>Every handler a source is given, the random access one included, is disconnected when its connection is
  closed, and only then are the callbacks behind the handlers deleted: no signal can reach a deleted object.\<close>

theorem source_handlers_released:
  "fwp (do { connect_source src cb; m; SourceCloseConnection_handler src })
     (\<lambda>_ s'. \<exists>h. f_log s' = DeleteCallbacks # h \<and> live_handlers src h = {}) s"
proof -
  have all: "f = SourceReadNextBlock \<or> f = SourceReadBlock \<or> f = SourceCopyBlock \<or> f = SourceSeekData \<or> f = SourceProperty \<or> f = SourceCloseConnection" for f
    by (cases f) simp_all
  have "fwp (SourceCloseConnection_handler src)
     (\<lambda>_ s'. \<exists>h. f_log s' = DeleteCallbacks # h \<and> live_handlers src h = {}) t" for t
    using all by (auto simp: SourceCloseConnection_handler_def)
  then show ?thesis
    by (simp add: fwp_def split_beta)
qed

subsection \<open>The pad of a progress buffer\<close>

definition posted :: "fhistory \<Rightarrow> errcode list" where
  "posted h = concat (map (\<lambda>a. case a of PostError e \<Rightarrow> [e] | _ \<Rightarrow> []) h)"

text \<open>When the progress buffer shows its pad, either the peer is added to the pipeline, linked and brought to the
  state of its parent with every call succeeding and nothing is posted, or exactly one error is posted; the handler is
  disconnected in both cases.\<close>

theorem OnBufferPadAdded_result:
  "fwp (OnBufferPadAdded W element source_bin pipeline pad peer) (\<lambda>_ s'.
     \<exists>new. f_log s' = DisconnectBuffer element peer # new @ f_log s \<and>
       ((\<exists>h. posted new = [] \<and> new = SyncParent peer # Link [source_bin, peer] # h \<and> Add pipeline peer \<in> set h \<and>
           fw_ok W (h @ f_log s) (Link [source_bin, peer]) \<and> fw_ok W (Link [source_bin, peer] # h @ f_log s) (SyncParent peer))
        \<or> (\<exists>err. posted new = [err]))) s"
  by (auto simp: OnBufferPadAdded_def posted_def)

end
