(* ===== verification/Player_State.thy ===== *)
theory Player_State
  imports Pipeline_Object
begin

text \<open>
  The player state machine of \<^verbatim>\<open>GstAudioPlaybackPipeline.cpp\<close>: \<^verbatim>\<open>IsPlayerState\<close>,
  \<^verbatim>\<open>IsPlayerPendingState\<close>, \<^verbatim>\<open>Play\<close>, \<^verbatim>\<open>SetPlayerState\<close> and \<^verbatim>\<open>UpdatePlayerState\<close>, with the
  edges the state may take, the requests that a state change settles and the state the listener was
  last told.
\<close>

subsection \<open>Operations\<close>

definition IsPlayerState :: "PlayerState \<Rightarrow> bool pm" where
  "IsPlayerState state = locked StateLock (gets (\<lambda>p. m_PlayerState p = state))"

definition IsPlayerPendingState :: "PlayerState \<Rightarrow> bool pm" where
  "IsPlayerPendingState state = locked StateLock (gets (\<lambda>p. m_PlayerPendingState p = state))"

definition Play :: "world \<Rightarrow> errcode pm" where
  "Play W = do {
     ready \<leftarrow> locked StateLock (do {
       s \<leftarrow> gets m_PlayerState;
       let ready = (Finished \<noteq> s \<and> Error \<noteq> s \<and> Playing \<noteq> s);
       if \<not> ready \<and> Playing = s then do {
         e \<leftarrow> elem PIPELINE;
         (ok, state, pending) \<leftarrow> gst_element_get_state W e;
         ret (ready \<or> (ok \<and> (state = GST_STATE_PAUSED \<or> pending = GST_STATE_PAUSED)))
       } else ret ready
     });
     if ready then do {
       r \<leftarrow> gets m_fRate;
       if 0 = r then do {
         modify (\<lambda>p. p\<lparr>m_bResumePlayOnNonzeroRate := True\<rparr>);
         ret ERROR_NONE
       } else do {
         e \<leftarrow> elem PIPELINE;
         ok \<leftarrow> gst_element_set_state W e GST_STATE_PLAYING;
         ret (if ok then ERROR_NONE else ERROR_GSTREAMER_PIPELINE_STATE_CHANGE)
       }
     } else ret ERROR_NONE
   }"

definition SetPlayerState :: "world \<Rightarrow> PlayerState \<Rightarrow> bool \<Rightarrow> unit pm" where
  "SetPlayerState W newPlayerState bSilent = do {
     updateState \<leftarrow> locked StateLock (do {
       s \<leftarrow> gets m_PlayerState;
       d \<leftarrow> gets m_pEventDispatcher;
       let updateState = (newPlayerState \<noteq> s);
       whenever updateState (
         if d \<and> \<not> bSilent then do {
           modify (\<lambda>p. p\<lparr>m_PlayerState := newPlayerState\<rparr>);
           send_or_error W (PlayerStateEvent newPlayerState) ERROR_JNI_SEND_PLAYER_STATE_EVENT
         } else modify (\<lambda>p. p\<lparr>m_PlayerState := newPlayerState\<rparr>));
       ret updateState
     });
     eos \<leftarrow> gets m_bLastProgressValueEOS;
     full \<leftarrow> gets m_bHLSPBFull;
     whenever ((updateState \<and> newPlayerState = Stalled \<and> eos) \<or> (updateState \<and> newPlayerState = Stalled \<and> full))
       (do { Play W; ret () })
   }"

text \<open>The \<^verbatim>\<open>switch\<close> of \<^verbatim>\<open>UpdatePlayerState\<close>: the new player state, whether the change is silent, and
  the object after the assignments of the branch taken.\<close>

definition switch_Playing_Paused :: "pipe \<Rightarrow> PlayerState \<Rightarrow> PlayerState \<times> pipe" where
  "switch_Playing_Paused p otherwise =
     (if m_PlayerPendingState p = Stopped
      then (Stopped, p\<lparr>m_StallOnPause := False, m_PlayerPendingState := Unknown\<rparr>)
      else if m_StallOnPause p \<and> m_PlayerPendingState p \<noteq> Paused
      then (Stalled, p\<lparr>m_StallOnPause := False\<rparr>)
      else if m_PlayerPendingState p = Paused
      then (Paused, p\<lparr>m_StallOnPause := False, m_PlayerPendingState := Unknown\<rparr>)
      else (otherwise, p))"

definition player_switch :: "GstState \<Rightarrow> GstState \<Rightarrow> pipe \<Rightarrow> (PlayerState \<times> bool) \<times> pipe" where
  "player_switch newState oldState p =
     (case m_PlayerState p of
        Unknown \<Rightarrow>
          (if (GST_STATE_READY = oldState \<and> GST_STATE_PAUSED = newState) \<or>
              (GST_STATE_PAUSED = oldState \<and> GST_STATE_PAUSED = newState)
           then ((Ready, False), p) else ((Unknown, False), p))
      | Ready \<Rightarrow>
          (if GST_STATE_PAUSED = oldState then
             if GST_STATE_READY = newState then ((Unknown, False), p)
             else if GST_STATE_PLAYING = newState then ((Playing, False), p)
             else ((Ready, False), p)
           else ((Ready, False), p))
      | Playing \<Rightarrow>
          (if GST_STATE_PLAYING = oldState \<and> GST_STATE_PAUSED = newState
           then let (n, p') = switch_Playing_Paused p Finished in ((n, False), p')
           else if GST_STATE_PAUSED = oldState \<and> GST_STATE_PAUSED = newState
           then let (n, p') = switch_Playing_Paused p Playing in ((n, False), p')
           else ((Playing, False), p))
      | Paused \<Rightarrow>
          (if GST_STATE_PAUSED = oldState then
             if m_PlayerPendingState p = Stopped then ((Stopped, False), p\<lparr>m_PlayerPendingState := Unknown\<rparr>)
             else if GST_STATE_PLAYING = newState then ((Playing, False), p)
             else if GST_STATE_READY = newState then ((Unknown, False), p)
             else ((Paused, False), p)
           else ((Paused, False), p))
      | Stopped \<Rightarrow>
          (if GST_STATE_PAUSED = oldState then
             if m_PlayerPendingState p = Paused \<and> GST_STATE_PAUSED = newState
             then ((Paused, False), p\<lparr>m_PlayerPendingState := Unknown\<rparr>)
             else if GST_STATE_PLAYING = newState then ((Playing, False), p)
             else if GST_STATE_READY = newState then ((Unknown, False), p)
             else ((Stopped, False), p)
           else ((Stopped, False), p))
      | Stalled \<Rightarrow>
          (if GST_STATE_PAUSED = oldState \<and> GST_STATE_PLAYING = newState then ((Playing, False), p)
           else if GST_STATE_PAUSED = oldState \<and> GST_STATE_PAUSED = newState then
             if m_PlayerPendingState p = Stopped then ((Stopped, False), p\<lparr>m_PlayerPendingState := Unknown\<rparr>)
             else if m_PlayerPendingState p = Paused then ((Paused, False), p\<lparr>m_PlayerPendingState := Unknown\<rparr>)
             else ((Stalled, False), p)
           else ((Stalled, False), p))
      | Finished \<Rightarrow>
          (if GST_STATE_PLAYING = oldState then
             if GST_STATE_PAUSED = newState \<and> m_PlayerPendingState p = Stopped
             then ((Stopped, False), p\<lparr>m_PlayerPendingState := Unknown, m_bSeekInvoked := False\<rparr>)
             else ((Finished, False), p)
           else if GST_STATE_PAUSED = oldState then
             if GST_STATE_PLAYING = newState then ((Playing, True), p\<lparr>m_bSeekInvoked := False\<rparr>)
             else if GST_STATE_PAUSED = newState then
               if m_PlayerPendingState p = Stopped
               then ((Stopped, False), p\<lparr>m_PlayerPendingState := Unknown, m_bSeekInvoked := False\<rparr>)
               else ((Paused, False), p\<lparr>m_bSeekInvoked := False\<rparr>)
             else ((Finished, False), p)
           else ((Finished, False), p))
      | Error \<Rightarrow> ((Error, False), p))"

definition UpdatePlayerState :: "world \<Rightarrow> GstState \<Rightarrow> GstState \<Rightarrow> unit pm" where
  "UpdatePlayerState W newState oldState = locked StateLock (do {
     (newPlayerState, bSilent) \<leftarrow> State (player_switch newState oldState);
     SetPlayerState W newPlayerState bSilent
   })"

subsection \<open>Play and SetPlayerState\<close>

lemma run_Is [simp]:
  "after (IsPlayerState s) p = p" "result (IsPlayerState s) p \<longleftrightarrow> m_PlayerState p = s"
  "after (IsPlayerPendingState s) p = p" "result (IsPlayerPendingState s) p \<longleftrightarrow> m_PlayerPendingState p = s"
  by (simp_all add: IsPlayerState_def IsPlayerPendingState_def)

text \<open>Fields that \<^verbatim>\<open>Play\<close> leaves alone: all but the log and the resume flag.\<close>

locale play_field = field +
  assumes field_resume: "F (p\<lparr>m_bResumePlayOnNonzeroRate := r\<rparr>) = F p"
begin

lemma Play_same: "state_io_rel same (Play W)"
  unfolding Play_def by (intro rules modifyI) (simp add: same_def field_resume)

lemma after_Play [simp]: "F (after (Play W) p) = F p"
  by (rule sameD [OF Play_same])

end

text \<open>Fields that \<^verbatim>\<open>SetPlayerState\<close> leaves alone as well.\<close>

locale state_field = play_field +
  assumes field_state: "F (p\<lparr>m_PlayerState := s\<rparr>) = F p"
begin

lemma SetPlayerState_same: "state_io_rel same (SetPlayerState W s b)"
  unfolding SetPlayerState_def by (intro rules modifyI Play_same) (simp_all add: same_def field_state)

lemma after_SetPlayerState [simp]: "F (after (SetPlayerState W s b) p) = F p"
  by (rule sameD [OF SetPlayerState_same])

end

interpretation f_PlayerState: play_field m_PlayerState
  by unfold_locales simp_all

lemma SetPlayerState_state [simp]: "m_PlayerState (after (SetPlayerState W s b) p) = s"
  by (simp add: SetPlayerState_def Let_def)

text \<open>Fields that no branch of \<^verbatim>\<open>UpdatePlayerState\<close> assigns.\<close>

locale update_field = state_field +
  assumes field_pending: "F (p\<lparr>m_PlayerPendingState := s\<rparr>) = F p"
    and field_stall: "F (p\<lparr>m_StallOnPause := b\<rparr>) = F p"
    and field_seek: "F (p\<lparr>m_bSeekInvoked := b\<rparr>) = F p"
begin

lemma field_switch: "F (snd (player_switch n old p)) = F p"
  by (auto simp: player_switch_def switch_Playing_Paused_def field_pending field_stall field_seek
      split: PlayerState.split)

lemma UpdatePlayerState_same: "state_io_rel same (UpdatePlayerState W n old)"
  unfolding UpdatePlayerState_def
  by (intro rules SetPlayerState_same) (simp add: io_rel_after same_def field_switch)

lemma after_UpdatePlayerState [simp]: "F (after (UpdatePlayerState W n old) p) = F p"
  by (rule sameD [OF UpdatePlayerState_same])

end

interpretation f_Pending: state_field m_PlayerPendingState
  by unfold_locales simp_all

interpretation f_StallOnPause: state_field m_StallOnPause
  by unfold_locales simp_all

interpretation f_SeekInvoked: state_field m_bSeekInvoked
  by unfold_locales simp_all

interpretation f_Dispatcher: update_field m_pEventDispatcher
  by unfold_locales simp_all

interpretation f_Elements: update_field m_Elements
  by unfold_locales simp_all

interpretation f_Options: update_field m_pOptions
  by unfold_locales simp_all

interpretation f_Rate: update_field m_fRate
  by unfold_locales simp_all

interpretation f_EOS: update_field m_bLastProgressValueEOS
  by unfold_locales simp_all

interpretation f_Full: update_field m_bHLSPBFull
  by unfold_locales simp_all

interpretation f_HasAudio: update_field m_bHasAudio
  by unfold_locales simp_all

interpretation f_HasVideo: update_field m_bHasVideo
  by unfold_locales simp_all

subsection \<open>Lock discipline\<close>

lemma lk_IsPlayerState [jfx_lock]: "n \<le> 3 \<Longrightarrow> state_io_rel (lock_rel n) (IsPlayerState s)"
  and lk_IsPlayerPendingState [jfx_lock]: "n \<le> 3 \<Longrightarrow> state_io_rel (lock_rel n) (IsPlayerPendingState s)"
  unfolding IsPlayerState_def IsPlayerPendingState_def by (auto intro!: lk_rules)

lemma lk_Play [jfx_lock]: "n \<le> 3 \<Longrightarrow> state_io_rel (lock_rel n) (Play W)"
  unfolding Play_def by (intro lk_rules) simp_all

lemma lk_SetPlayerState [jfx_lock]: "n \<le> 3 \<Longrightarrow> state_io_rel (lock_rel n) (SetPlayerState W s b)"
  unfolding SetPlayerState_def by (intro lk_rules lk_Play) simp_all

lemma player_switch_locks: "held (snd (player_switch n old p)) = held p"
  "bad_lock (snd (player_switch n old p)) = bad_lock p"
  by (auto simp: player_switch_def switch_Playing_Paused_def split: PlayerState.split)

lemma lk_UpdatePlayerState [jfx_lock]: "n \<le> 3 \<Longrightarrow> state_io_rel (lock_rel n) (UpdatePlayerState W s s')"
  unfolding UpdatePlayerState_def
  by (intro lk_rules lk_SetPlayerState) (simp_all add: io_rel_after lock_rel_def player_switch_locks)

subsection \<open>The transition graph\<close>

fun player_edges :: "PlayerState \<Rightarrow> PlayerState list" where
  "player_edges Unknown = [Ready]"
| "player_edges Ready = [Unknown, Playing]"
| "player_edges Playing = [Stopped, Stalled, Paused, Finished]"
| "player_edges Paused = [Stopped, Playing, Unknown]"
| "player_edges Stopped = [Paused, Playing, Unknown]"
| "player_edges Stalled = [Playing, Stopped, Paused]"
| "player_edges Finished = [Stopped, Playing, Paused]"
| "player_edges Error = []"

lemma player_switch_held [simp]:
  "fst (player_switch n old (p\<lparr>held := hs\<rparr>)) = fst (player_switch n old p)"
  by (cases "m_PlayerState p") (simp_all add: player_switch_def switch_Playing_Paused_def)

lemma UpdatePlayerState_state:
  "m_PlayerState (after (UpdatePlayerState W n old) p) = fst (fst (player_switch n old p))"
  by (simp add: UpdatePlayerState_def split_beta)

lemma player_switch_edge:
  "fst (fst (player_switch n old p)) = m_PlayerState p \<or>
   fst (fst (player_switch n old p)) \<in> set (player_edges (m_PlayerState p))"
  by (auto simp: player_switch_def switch_Playing_Paused_def split: PlayerState.split)

lemma UpdatePlayerState_edge:
  "m_PlayerState (after (UpdatePlayerState W n old) p) = m_PlayerState p \<or>
   m_PlayerState (after (UpdatePlayerState W n old) p) \<in> set (player_edges (m_PlayerState p))"
  unfolding UpdatePlayerState_state by (rule player_switch_edge)

text \<open>Each edge of the graph is taken by some change of the state of the pipeline.\<close>

lemma edge_realised:
  assumes "s' = s \<or> s' \<in> set (player_edges s)"
  shows "\<exists>n old q b. \<forall>p. fst (fst (player_switch n old (p\<lparr>m_PlayerState := s, m_PlayerPendingState := q, m_StallOnPause := b\<rparr>))) = s'"
proof -
  note r = player_switch_def switch_Playing_Paused_def
  from assms consider "s' = s" | "s' = Ready" "s = Unknown" | "s' = Unknown" "s \<in> {Ready, Paused, Stopped}"
    | "s' = Playing" "s \<in> {Ready, Paused, Stopped, Stalled, Finished}"
    | "s' = Stopped" "s \<in> {Playing, Paused, Stalled, Finished}"
    | "s' = Paused" "s \<in> {Playing, Stopped, Stalled, Finished}"
    | "s' = Stalled" "s = Playing" | "s' = Finished" "s = Playing"
    by (cases s) auto
  then show ?thesis
  proof cases
    case 1
    then show ?thesis
      by (intro exI [of _ GST_STATE_NULL] exI [of _ Unknown] exI [of _ False], cases s) (simp_all add: r)
  next
    case 2
    then show ?thesis by (intro exI [of _ GST_STATE_PAUSED] exI [of _ GST_STATE_READY] exI [of _ Unknown] exI [of _ False]) (simp add: r)
  next
    case 3
    then show ?thesis by (intro exI [of _ GST_STATE_READY] exI [of _ GST_STATE_PAUSED] exI [of _ Unknown] exI [of _ False]) (auto simp: r)
  next
    case 4
    then show ?thesis by (intro exI [of _ GST_STATE_PLAYING] exI [of _ GST_STATE_PAUSED] exI [of _ Unknown] exI [of _ False]) (auto simp: r)
  next
    case 5
    then show ?thesis by (intro exI [of _ GST_STATE_PAUSED] exI [of _ GST_STATE_PAUSED] exI [of _ Stopped] exI [of _ False]) (auto simp: r)
  next
    case 6
    then show ?thesis by (intro exI [of _ GST_STATE_PAUSED] exI [of _ GST_STATE_PAUSED] exI [of _ Paused] exI [of _ False]) (auto simp: r)
  next
    case 7
    then show ?thesis by (intro exI [of _ GST_STATE_PAUSED] exI [of _ GST_STATE_PLAYING] exI [of _ Unknown] exI [of _ True]) (simp add: r)
  next
    case 8
    then show ?thesis by (intro exI [of _ GST_STATE_PAUSED] exI [of _ GST_STATE_PLAYING] exI [of _ Unknown] exI [of _ False]) (simp add: r)
  qed
qed

text \<open>C6: The player state moves, on a state change of the GStreamer pipeline, exactly along the edges
  of \<open>player_edges\<close>: no other move is possible, and every one of these happens for some message.  In
  particular \<open>Error\<close> is never left this way.\<close>

theorem UpdatePlayerState_graph:
  "(\<exists>W n old p. m_PlayerState p = s \<and> m_PlayerState (after (UpdatePlayerState W n old) p) = s') \<longleftrightarrow>
   s' = s \<or> s' \<in> set (player_edges s)" (is "?L \<longleftrightarrow> ?R")
proof
  show "?L \<Longrightarrow> ?R" using UpdatePlayerState_edge by blast
next
  assume ?R
  then obtain n old q b where
    "\<forall>p. fst (fst (player_switch n old (p\<lparr>m_PlayerState := s, m_PlayerPendingState := q, m_StallOnPause := b\<rparr>))) = s'"
    using edge_realised by blast
  then have "m_PlayerState (p\<lparr>m_PlayerState := s, m_PlayerPendingState := q, m_StallOnPause := b\<rparr>) = s \<and>
      m_PlayerState (after (UpdatePlayerState W n old) (p\<lparr>m_PlayerState := s, m_PlayerPendingState := q, m_StallOnPause := b\<rparr>)) = s'" for W p
    by (simp add: UpdatePlayerState_state)
  then show ?L by blast
qed

subsection \<open>What the listener was told\<close>

definition state_event :: "act \<Rightarrow> PlayerState option" where
  "state_event a = (case a of Emit ev \<Rightarrow> (case ev of PlayerStateEvent s \<Rightarrow> Some s | _ \<Rightarrow> None) | _ \<Rightarrow> None)"

text \<open>The player state of the last event sent; \<^verbatim>\<open>Unknown\<close> before the first.\<close>

fun told :: "history \<Rightarrow> PlayerState" where
  "told [] = Unknown"
| "told (a # h) = (case state_event a of Some s \<Rightarrow> s | None \<Rightarrow> told h)"

lemma told_skip [simp]: "state_event a = None \<Longrightarrow> told (a # h) = told h"
  by simp

text \<open>A program that tells nothing about the player state and does not change it.\<close>

definition calm_rel :: "pipe \<Rightarrow> pipe \<Rightarrow> bool" where
  "calm_rel p q \<longleftrightarrow> told (log q) = told (log p) \<and> m_PlayerState q = m_PlayerState p \<and>
     m_pEventDispatcher q = m_pEventDispatcher p"

interpretation calm: transition calm_rel
  by unfold_locales (auto simp: calm_rel_def)

lemma calm_ask: "state_event a = None \<Longrightarrow> state_io_rel calm_rel (ask q a)"
  by (simp add: io_rel_after calm_rel_def)

lemma calm_perform: "state_event a = None \<Longrightarrow> state_io_rel calm_rel (perform a)"
  by (simp add: io_rel_after calm_rel_def)

lemma calm_send: "state_event (Emit ev) = None \<Longrightarrow> state_io_rel calm_rel (send_or_error W ev err)"
  by (simp add: io_rel_after calm_rel_def state_event_def)

lemma calm_prims:
  "state_io_rel calm_rel (enter l)" "state_io_rel calm_rel (leave l)" "state_io_rel calm_rel (deref c)"
  "state_io_rel calm_rel (gst_element_set_state W e gs)" "state_io_rel calm_rel (gst_element_get_state W e)"
  "state_io_rel calm_rel (SendPlayerMediaErrorEvent W err)"
  by (simp_all add: io_rel_after calm_rel_def state_event_def)

lemma calm_locked: "state_io_rel calm_rel m \<Longrightarrow> state_io_rel calm_rel (locked l m)"
  unfolding locked_def by (intro calm.control calm_prims)

lemma calm_modify:
  "(\<And>p. log (f p) = log p \<and> m_PlayerState (f p) = m_PlayerState p \<and>
     m_pEventDispatcher (f p) = m_pEventDispatcher p) \<Longrightarrow> state_io_rel calm_rel (modify f)"
  by (simp add: io_rel_after calm_rel_def)

lemmas calm_rules = calm.control calm_prims calm_locked calm_ask calm_perform calm_send calm_modify

lemma calm_Play [jfx_frame]: "state_io_rel calm_rel (Play W)"
  unfolding Play_def by (intro calm_rules) simp_all

lemma calm_Is [jfx_frame]:
  "state_io_rel calm_rel (IsPlayerState s)" "state_io_rel calm_rel (IsPlayerPendingState s)"
  unfolding IsPlayerState_def IsPlayerPendingState_def by (intro calm_rules)+

lemma calmD:
  assumes "state_io_rel calm_rel m"
  shows "told (log (after m p)) = told (log p)" "m_PlayerState (after m p) = m_PlayerState p"
    "m_pEventDispatcher (after m p) = m_pEventDispatcher p"
  using assms by (auto simp: io_rel_after calm_rel_def)

text \<open>The listener knows the state, up to the two silent changes: into \<^verbatim>\<open>Error\<close> and, after a seek, from
  \<^verbatim>\<open>Finished\<close> back to \<^verbatim>\<open>Playing\<close>.\<close>

definition view_ok :: "pipe \<Rightarrow> bool" where
  "view_ok p \<longleftrightarrow> (m_pEventDispatcher p \<longrightarrow>
     m_PlayerState p = told (log p) \<or> m_PlayerState p = Error \<or>
     m_PlayerState p = Playing \<and> told (log p) = Finished)"

definition view_rel :: "pipe \<Rightarrow> pipe \<Rightarrow> bool" where
  "view_rel p q \<longleftrightarrow> (view_ok p \<longrightarrow> view_ok q)"

interpretation view: transition view_rel
  by unfold_locales (auto simp: view_rel_def)

lemma calm_view: "state_io_rel calm_rel m \<Longrightarrow> state_io_rel view_rel m"
  by (simp add: io_rel_after view_rel_def view_ok_def calm_rel_def)

lemma view_locked: "state_io_rel view_rel m \<Longrightarrow> state_io_rel view_rel (locked l m)"
  unfolding locked_def by (intro view.control calm_view [OF calm_prims(1)] calm_view [OF calm_prims(2)])

lemma told_SetPlayerState:
  "told (log (after (SetPlayerState W s b) p)) =
     (if s \<noteq> m_PlayerState p \<and> m_pEventDispatcher p \<and> \<not> b then s else told (log p))"
  unfolding SetPlayerState_def by (simp add: Let_def calmD [OF calm_Play] state_event_def)

lemma view_SetPlayerState:
  assumes "b \<Longrightarrow> s = Error \<or> s = m_PlayerState p \<or> s = Playing \<and> m_PlayerState p = Finished"
  shows "view_rel p (after (SetPlayerState W s b) p)"
  using assms by (auto simp: view_rel_def view_ok_def told_SetPlayerState)

lemma player_switch_silent:
  "snd (fst (player_switch n old p)) \<Longrightarrow>
   fst (fst (player_switch n old p)) = Playing \<and> m_PlayerState p = Finished"
  by (auto simp: player_switch_def switch_Playing_Paused_def split: PlayerState.split_asm if_splits)

lemma player_switch_calm:
  "log (snd (player_switch n old p)) = log p" "m_PlayerState (snd (player_switch n old p)) = m_PlayerState p"
  "m_pEventDispatcher (snd (player_switch n old p)) = m_pEventDispatcher p"
  by (auto simp: player_switch_def switch_Playing_Paused_def split: PlayerState.split)

lemma view_UpdatePlayerState [jfx_frame]: "state_io_rel view_rel (UpdatePlayerState W n old)"
proof -
  have "view_rel p (after (do { (s, b) \<leftarrow> State (player_switch n old); SetPlayerState W s b }) p)" for p
  proof -
    let ?p = "snd (player_switch n old p)"
    have "view_rel p ?p" by (simp add: view_rel_def view_ok_def player_switch_calm)
    moreover have "view_rel ?p (after (SetPlayerState W (fst (fst (player_switch n old p)))
        (snd (fst (player_switch n old p)))) ?p)"
      by (rule view_SetPlayerState) (use player_switch_silent [of n old p] in \<open>simp add: player_switch_calm\<close>)
    ultimately show ?thesis by (simp add: split_beta) (blast intro: view.trans)
  qed
  then show ?thesis
    unfolding UpdatePlayerState_def by (intro view_locked) (simp only: io_rel_after, blast)
qed

subsection \<open>Requests that a state change settles\<close>

text \<open>The states in which a message about reaching \<^verbatim>\<open>PAUSED\<close> settles a pending request.\<close>

definition settles :: "PlayerState \<Rightarrow> PlayerState \<Rightarrow> GstState \<Rightarrow> bool" where
  "settles req s old \<longleftrightarrow>
     (req = Stopped \<and> s \<in> {Playing, Paused, Stalled, Finished} \<or> req = Paused \<and> s \<in> {Playing, Stalled, Stopped}) \<and>
     (old = GST_STATE_PAUSED \<or> old = GST_STATE_PLAYING \<and> s \<in> {Playing, Finished})"

lemma player_switch_settles:
  assumes "settles req (m_PlayerState p) old" "m_PlayerPendingState p = req"
  shows "fst (player_switch GST_STATE_PAUSED old p) = (req, False) \<and>
    m_PlayerPendingState (snd (player_switch GST_STATE_PAUSED old p)) = Unknown \<and> req \<noteq> m_PlayerState p"
  using assms by (auto simp: settles_def player_switch_def switch_Playing_Paused_def)

text \<open>A pending request to stop or to pause is honoured by the next message that the pipeline
  reached \<^verbatim>\<open>PAUSED\<close>: the player takes the requested state, the request is cleared, and a listener is
  told the new state.\<close>

theorem UpdatePlayerState_settles:
  assumes "settles req (m_PlayerState p) old" "m_PlayerPendingState p = req"
  shows "m_PlayerState (after (UpdatePlayerState W GST_STATE_PAUSED old) p) = req \<and>
    m_PlayerPendingState (after (UpdatePlayerState W GST_STATE_PAUSED old) p) = Unknown \<and>
    (m_pEventDispatcher p \<longrightarrow> told (log (after (UpdatePlayerState W GST_STATE_PAUSED old) p)) = req)"
proof -
  let ?p = "p\<lparr>held := StateLock # held p\<rparr>"
  have "fst (player_switch GST_STATE_PAUSED old ?p) = (req, False) \<and>
    m_PlayerPendingState (snd (player_switch GST_STATE_PAUSED old ?p)) = Unknown \<and> req \<noteq> m_PlayerState ?p"
    using assms by (intro player_switch_settles) simp_all
  then show ?thesis
    by (simp add: UpdatePlayerState_def split_beta told_SetPlayerState player_switch_calm)
qed

theorem UpdatePlayerState_settles_witness:
  "m_PlayerState (after (UpdatePlayerState demo_world GST_STATE_PAUSED GST_STATE_PLAYING)
     (demo_pipe\<lparr>m_PlayerState := Playing, m_PlayerPendingState := Stopped\<rparr>)) = Stopped"
  using UpdatePlayerState_settles [of Stopped "demo_pipe\<lparr>m_PlayerState := Playing, m_PlayerPendingState := Stopped\<rparr>"
      GST_STATE_PLAYING demo_world]
  by (simp add: settles_def)

end
