(* ===== verification/AV_Queues.thy ===== *)
theory AV_Queues
  imports Player_State
begin

text \<open>
  The queues of an audio-video pipeline (\<^verbatim>\<open>GstAVPlaybackPipeline.cpp\<close>): \<^verbatim>\<open>CheckQueueSize\<close>, which
  raises the limit of a full queue while the other one starves, and the handlers of the
  \<^verbatim>\<open>overrun\<close> and \<^verbatim>\<open>underrun\<close> signals.  The audio-only class inherits an empty \<^verbatim>\<open>CheckQueueSize\<close>.
\<close>

subsection \<open>Operations\<close>

definition MAX_SIZE_BUFFERS_LIMIT :: u32 where "MAX_SIZE_BUFFERS_LIMIT = 25"
definition MAX_SIZE_BUFFERS_INC :: u32 where "MAX_SIZE_BUFFERS_INC = 5"

definition get_uint :: "world \<Rightarrow> gptr \<Rightarrow> string \<Rightarrow> u32 pm" where
  "get_uint W e prop = do { i \<leftarrow> ask (w_int W) (ObjGet e prop); ret (word_of_int i) }"

text \<open>\<^verbatim>\<open>g_object_get(element, "max-size-buffers"); += MAX_SIZE_BUFFERS_INC; g_object_set(...)\<close>.\<close>

definition inc_size :: "world \<Rightarrow> gptr \<Rightarrow> unit pm" where
  "inc_size W element = do {
     max_size_buffers \<leftarrow> get_uint W element ''max-size-buffers'';
     perform (ObjSet element ''max-size-buffers'' (GUInt (max_size_buffers + MAX_SIZE_BUFFERS_INC)))
   }"

text \<open>The queue \<^verbatim>\<open>CheckQueueSize(NULL)\<close> works on: the first full one, video before audio.\<close>

definition full_queue :: "world \<Rightarrow> gptr pm" where
  "full_queue W = do {
     vq \<leftarrow> elem VIDEO_QUEUE;
     current_level_buffers \<leftarrow> get_uint W vq ''current-level-buffers'';
     max_size_buffers \<leftarrow> get_uint W vq ''max_size_buffers'';
     if max_size_buffers \<le> current_level_buffers then ret vq
     else do {
       aq \<leftarrow> elem AUDIO_QUEUE;
       current_level_buffers \<leftarrow> get_uint W aq ''current-level-buffers'';
       max_size_buffers \<leftarrow> get_uint W aq ''max_size_buffers'';
       ret (if max_size_buffers \<le> current_level_buffers then aq else None)
     }
   }"

text \<open>Whether the queue that is not \<open>element\<close> has a level that satisfies \<open>P\<close>.\<close>

definition other_level :: "world \<Rightarrow> gptr \<Rightarrow> (u32 \<Rightarrow> bool) \<Rightarrow> bool pm" where
  "other_level W element P = do {
     aq \<leftarrow> elem AUDIO_QUEUE;
     vq \<leftarrow> elem VIDEO_QUEUE;
     if aq = element then do { l \<leftarrow> get_uint W vq ''current-level-buffers''; ret (P l) }
     else if vq = element then do { l \<leftarrow> get_uint W aq ''current-level-buffers''; ret (P l) }
     else ret False
   }"

definition AV_CheckQueueSize :: "world \<Rightarrow> gptr \<Rightarrow> unit pm" where
  "AV_CheckQueueSize W element0 = do {
     element \<leftarrow> (if element0 = None then full_queue W else ret element0);
     if element = None then ret ()
     else do {
       e \<leftarrow> elem PIPELINE;
       (_, state, pending_state) \<leftarrow> gst_element_get_state W e;
       unknown \<leftarrow> IsPlayerState Unknown;
       stallOnPause \<leftarrow> gets m_StallOnPause;
       both \<leftarrow> gets (\<lambda>p. m_bHasAudio p \<and> m_bHasVideo p);
       inc_size_time \<leftarrow>
         (if unknown \<or> stallOnPause \<or>
             (state = GST_STATE_PAUSED \<and> pending_state = GST_STATE_PLAYING) \<or>
             (state = GST_STATE_PLAYING \<and> pending_state = GST_STATE_PAUSED)
          then other_level W element (\<lambda>l. l < MAX_SIZE_BUFFERS_LIMIT)
          else if (state = GST_STATE_PLAYING \<and> pending_state = GST_STATE_VOID_PENDING) \<or>
             (state = GST_STATE_PAUSED \<and> pending_state = GST_STATE_PLAYING) \<or>
             (state = GST_STATE_PAUSED \<and> pending_state = GST_STATE_PAUSED)
          then if \<not> both then ret False
               else other_level W element (\<lambda>l. l = 0)
          else ret False);
       whenever inc_size_time (inc_size W element)
     }
   }"

definition CheckQueueSize :: "world \<Rightarrow> gptr \<Rightarrow> unit pm" where
  "CheckQueueSize W element = do { av \<leftarrow> gets is_av; whenever av (AV_CheckQueueSize W element) }"

definition queue_overrun :: "world \<Rightarrow> gptr \<Rightarrow> unit pm" where
  "queue_overrun W element = CheckQueueSize W element"

definition HLS_PB_MESSAGE_STALL :: string where "HLS_PB_MESSAGE_STALL = ''hls_pb_stall''"

definition queue_underrun :: "world \<Rightarrow> gptr \<Rightarrow> unit pm" where
  "queue_underrun W element = do {
     hls \<leftarrow> gets (\<lambda>p. m_bHLSModeEnabled (m_pOptions p));
     aq \<leftarrow> elem AUDIO_QUEUE;
     vq \<leftarrow> elem VIDEO_QUEUE;
     if hls then whenever (aq = element) (perform (PostMessage element HLS_PB_MESSAGE_STALL))
     else do {
       e \<leftarrow> elem PIPELINE;
       (_, state, pending_state) \<leftarrow> gst_element_get_state W e;
       inc_element \<leftarrow>
         (if (state = GST_STATE_PLAYING \<and> pending_state = GST_STATE_VOID_PENDING) \<or>
             (state = GST_STATE_PAUSED \<and> pending_state = GST_STATE_PLAYING) \<or>
             (state = GST_STATE_PAUSED \<and> pending_state = GST_STATE_PAUSED)
          then if aq = element then do {
                 l \<leftarrow> get_uint W vq ''current-level-buffers'';
                 m \<leftarrow> get_uint W vq ''max_size_buffers'';
                 ret (if l = m then Some vq else None)
               } else if vq = element then do {
                 l \<leftarrow> get_uint W aq ''current-level-buffers'';
                 m \<leftarrow> get_uint W aq ''max_size_buffers'';
                 ret (if l = m then Some aq else None)
               } else ret None
          else ret None);
       (case inc_element of None \<Rightarrow> ret () | Some q \<Rightarrow> inc_size W q)
     }
   }"

lemmas queue_defs = get_uint_def inc_size_def full_queue_def other_level_def AV_CheckQueueSize_def
  CheckQueueSize_def queue_overrun_def queue_underrun_def IsPlayerState_def

subsection \<open>What the queue operations leave alone\<close>

context quiet
begin

lemma IsPlayerStateI: "state_io_rel R (IsPlayerState s)"
  and IsPlayerPendingStateI: "state_io_rel R (IsPlayerPendingState s)"
  unfolding IsPlayerState_def IsPlayerPendingState_def by (intro rules)+

lemma CheckQueueSizeI: "state_io_rel R (CheckQueueSize W e)"
  unfolding queue_defs by (intro rules)

lemma queue_overrunI: "state_io_rel R (queue_overrun W e)"
  unfolding queue_overrun_def by (rule CheckQueueSizeI)

lemma queue_underrunI: "state_io_rel R (queue_underrun W e)"
  unfolding queue_defs by (intro rules)

lemmas queue_rules = rules IsPlayerStateI IsPlayerPendingStateI CheckQueueSizeI

end

context field
begin

lemma after_CheckQueueSize [simp]: "F (after (CheckQueueSize W e) p) = F p"
  by (rule sameD [OF CheckQueueSizeI])

lemma after_queue_underrun [simp]: "F (after (queue_underrun W e) p) = F p"
  by (rule sameD [OF queue_underrunI])

end

lemma lk_CheckQueueSize [jfx_lock]: "n \<le> 3 \<Longrightarrow> state_io_rel (lock_rel n) (CheckQueueSize W e)"
  unfolding queue_defs by (intro lk_rules) simp_all

lemma lk_queue_underrun [jfx_lock]: "state_io_rel (lock_rel n) (queue_underrun W e)"
  unfolding queue_defs by (intro lk_rules)

lemma calm_CheckQueueSize [jfx_frame]: "state_io_rel calm_rel (CheckQueueSize W e)"
  unfolding queue_defs by (intro calm_rules) (simp_all add: state_event_def)

lemma calm_queue_underrun [jfx_frame]: "state_io_rel calm_rel (queue_underrun W e)"
  unfolding queue_defs by (intro calm_rules) (simp_all add: state_event_def)

subsection \<open>When a queue grows\<close>

text \<open>The answers about the two queues and the pipeline, the same whenever they are asked for.\<close>

definition queue_answers :: "world \<Rightarrow> gptr \<Rightarrow> u32 \<Rightarrow> gptr \<Rightarrow> u32 \<Rightarrow> GstState \<Rightarrow> GstState \<Rightarrow> bool" where
  "queue_answers W element m other l state pending \<longleftrightarrow>
     (\<forall>h. word_of_int (w_int W h (ObjGet element ''max-size-buffers'')) = m \<and>
          word_of_int (w_int W h (ObjGet other ''current-level-buffers'')) = l \<and>
          w_state W h = (state, pending))"

text \<open>When one queue of an audio-video pipeline is full, its limit is raised, by exactly five buffers
  and on that queue only, if and only if the other queue is short: below 25 buffers while the player
  starts, stalls or changes state, and empty while a file with both tracks is playing.\<close>

theorem CheckQueueSize_grows:
  assumes "is_av p" "container_get (m_Elements p) AUDIO_QUEUE = Some a"
    "container_get (m_Elements p) VIDEO_QUEUE = Some v" "a \<noteq> v"
    and "(element, other) = (Some a, Some v) \<or> (element, other) = (Some v, Some a)"
    and "queue_answers W element m other l state pending"
  defines "changing \<equiv> m_PlayerState p = Unknown \<or> m_StallOnPause p \<or>
      (state = GST_STATE_PAUSED \<and> pending = GST_STATE_PLAYING) \<or>
      (state = GST_STATE_PLAYING \<and> pending = GST_STATE_PAUSED)"
    and "playing \<equiv> (state = GST_STATE_PLAYING \<and> pending = GST_STATE_VOID_PENDING) \<or>
      (state = GST_STATE_PAUSED \<and> pending = GST_STATE_PAUSED)"
  shows "\<exists>h. log (after (queue_overrun W element) p) =
    (if (if changing then l < 25 else playing \<and> m_bHasAudio p \<and> m_bHasVideo p \<and> l = 0)
     then [ObjSet element ''max-size-buffers'' (GUInt (m + 5)), ObjGet element ''max-size-buffers''] else []) @ h @ log p \<and>
    (\<forall>act \<in> set h. \<forall>e s g. act \<noteq> ObjSet e s g)"
proof -
  have ans: "word_of_int (w_int W h (ObjGet element ''max-size-buffers'')) = m"
    "word_of_int (w_int W h (ObjGet other ''current-level-buffers'')) = l"
    "w_state W h = (state, pending)" for h
    using assms(6) by (auto simp: queue_answers_def)
  from assms(5) show ?thesis
  proof (elim disjE)
    assume eo: "(element, other) = (Some a, Some v)"
    show ?thesis
      using assms(1-4) ans eo
      by (simp add: queue_defs split_beta MAX_SIZE_BUFFERS_LIMIT_def MAX_SIZE_BUFFERS_INC_def changing_def playing_def)
        blast?
  next
    assume eo: "(element, other) = (Some v, Some a)"
    show ?thesis
      using assms(1-4) ans eo
      by (simp add: queue_defs split_beta MAX_SIZE_BUFFERS_LIMIT_def MAX_SIZE_BUFFERS_INC_def changing_def playing_def)
        blast?
  qed
qed

theorem CheckQueueSize_grows_witness:
  "ObjSet (Some 2) ''max-size-buffers'' (GUInt 5) \<in> set (log (after (queue_overrun demo_world (Some 2))
     (demo_pipe\<lparr>m_PlayerState := Playing, m_bHasAudio := True, m_bHasVideo := True\<rparr>)))"
  using CheckQueueSize_grows [of "demo_pipe\<lparr>m_PlayerState := Playing, m_bHasAudio := True, m_bHasVideo := True\<rparr>"
      2 3 "Some 2" "Some 3" demo_world 0 0 GST_STATE_PLAYING GST_STATE_VOID_PENDING]
  by (auto simp: queue_answers_def demo_world_def demo_pipe_def CGstAVPlaybackPipeline_new_def
      CGstAudioPlaybackPipeline_new_def SetEventDispatcher_def demo_elements_def container_get_def)

end
