(* ===== verification/Playback_Control.thy ===== *)
theory Playback_Control
  imports AV_Queues
begin

text \<open>
  The operations a player calls (\<^verbatim>\<open>GstAudioPlaybackPipeline.cpp\<close>): \<^verbatim>\<open>Stop\<close>, \<^verbatim>\<open>Finish\<close>, \<^verbatim>\<open>Pause\<close>,
  \<^verbatim>\<open>Seek\<close>, the queries of duration and position, the playback rate, volume, balance and audio
  delay.  An out parameter is a second component of the result; \<open>None\<close> when it is not written.
\<close>

subsection \<open>Pausing and stopping\<close>

definition InternalPause :: "world \<Rightarrow> errcode pm" where
  "InternalPause W = do {
     ready \<leftarrow> locked StateLock (do {
       r \<leftarrow> gets (\<lambda>p. ((Finished \<noteq> m_PlayerState p \<or> m_bSeekInvoked p) \<or> m_PlayerPendingState p = Stopped) \<and>
                       Error \<noteq> m_PlayerState p);
       modify (\<lambda>p. p\<lparr>m_bSeekInvoked := False\<rparr>);
       ret r
     });
     if ready then do {
       rt \<leftarrow> gets m_fRate;
       if 0 = rt then do {
         modify (\<lambda>p. p\<lparr>m_bResumePlayOnNonzeroRate := False\<rparr>);
         ret ERROR_NONE
       } else do {
         e \<leftarrow> elem PIPELINE;
         ok \<leftarrow> gst_element_set_state W e GST_STATE_PAUSED;
         if \<not> ok then ret ERROR_GSTREAMER_PIPELINE_STATE_CHANGE
         else do { CheckQueueSize W None; ret ERROR_NONE }
       }
     } else ret ERROR_NONE
   }"

definition Stop :: "world \<Rightarrow> errcode pm" where
  "Stop W = do {
     stopped \<leftarrow> IsPlayerState Stopped;
     error \<leftarrow> IsPlayerState Error;
     if stopped \<or> error then ret ERROR_NONE
     else do {
       rt \<leftarrow> gets m_fRate;
       if 0 = rt then do {
         modify (\<lambda>p. p\<lparr>m_bResumePlayOnNonzeroRate := False\<rparr>);
         ret ERROR_NONE
       } else do {
         locked StateLock (modify (\<lambda>p. p\<lparr>m_PlayerPendingState := Stopped\<rparr>));
         uErrCode \<leftarrow> InternalPause W;
         if ERROR_NONE \<noteq> uErrCode then do {
           locked StateLock (modify (\<lambda>p. p\<lparr>m_PlayerPendingState := Unknown\<rparr>));
           ret uErrCode
         } else ret ERROR_NONE
       }
     }
   }"

definition Finish :: "world \<Rightarrow> errcode pm" where
  "Finish W = do {
     finished \<leftarrow> IsPlayerState Finished;
     error \<leftarrow> IsPlayerState Error;
     playing \<leftarrow> IsPlayerState Playing;
     if finished \<or> error \<or> \<not> playing then ret ERROR_NONE else InternalPause W
   }"

definition Pause :: "world \<Rightarrow> errcode pm" where
  "Pause W = do {
     paused \<leftarrow> IsPlayerState Paused;
     error \<leftarrow> IsPlayerState Error;
     if paused \<or> error then ret ERROR_NONE
     else do {
       done \<leftarrow> locked StateLock (do {
         s \<leftarrow> gets m_PlayerState;
         if Stopped = s \<or> Stalled = s then do { SetPlayerState W Paused False; ret True }
         else do { modify (\<lambda>p. p\<lparr>m_PlayerPendingState := Paused\<rparr>); ret False }
       });
       if done then ret ERROR_NONE
       else do {
         r \<leftarrow> InternalPause W;
         whenever (r \<noteq> ERROR_NONE) (locked StateLock (modify (\<lambda>p. p\<lparr>m_PlayerPendingState := Unknown\<rparr>)));
         ret r
       }
     }
   }"

subsection \<open>Seeking\<close>

definition SeekPipeline :: "world \<Rightarrow> int \<Rightarrow> errcode pm" where
  "SeekPipeline W seek_time = do {
     ok \<leftarrow> locked SeekLock (do {
       modify (\<lambda>p. p\<lparr>m_LastSeekTime := seek_time\<rparr>);
       rt \<leftarrow> gets m_fRate;
       let skip = (rt < - 1 \<or> rt > 1);
       multi \<leftarrow> gets (\<lambda>p. m_PipelineType (m_pOptions p) = kAudioSourcePipeline);
       if multi then do {
         e \<leftarrow> elem PIPELINE;
         call W (Seek_act e rt skip seek_time)
       } else do {
         aSink \<leftarrow> elem AUDIO_SINK;
         hasAudio \<leftarrow> gets m_bHasAudio;
         aOk \<leftarrow> (if aSink \<noteq> None \<and> hasAudio then call W (Seek_act aSink rt skip seek_time) else ret False);
         if aOk then ret True
         else do {
           vSink \<leftarrow> elem VIDEO_SINK;
           hasVideo \<leftarrow> gets m_bHasVideo;
           if vSink \<noteq> None \<and> hasVideo then call W (Seek_act vSink rt skip seek_time) else ret False
         }
       }
     });
     if ok then do { CheckQueueSize W None; ret ERROR_NONE }
     else ret ERROR_GSTREAMER_PIPELINE_SEEK
   }"

definition Seek :: "world \<Rightarrow> real \<Rightarrow> errcode pm" where
  "Seek W dSeekTime = do {
     notReady \<leftarrow> locked StateLock (do {
       s \<leftarrow> gets m_PlayerState;
       whenever (s = Finished) (modify (\<lambda>p. p\<lparr>m_bSeekInvoked := True\<rparr>));
       ret (s \<noteq> Ready \<and> s \<noteq> Playing \<and> s \<noteq> Paused \<and> s \<noteq> Stopped \<and> s \<noteq> Stalled \<and> s \<noteq> Finished)
     });
     if notReady then ret ERROR_NONE
     else do {
       r \<leftarrow> SeekPipeline W (trunc_int (of_int GST_SECOND * dSeekTime));
       resume \<leftarrow> locked StateLock (gets (\<lambda>p. r = ERROR_NONE \<and> m_PlayerState p = Finished \<and>
                   m_PlayerPendingState p \<noteq> Stopped));
       if resume then do {
         e \<leftarrow> elem PIPELINE;
         ok \<leftarrow> gst_element_set_state W e GST_STATE_PLAYING;
         ret (if ok then r else ERROR_GSTREAMER_PIPELINE_STATE_CHANGE)
       } else ret r
     }
   }"

subsection \<open>Duration and position\<close>

definition GetDuration :: "world \<Rightarrow> (errcode \<times> real) pm" where
  "GetDuration W = do {
     error \<leftarrow> IsPlayerState Error;
     if error then ret (ERROR_GSTREAMER_PIPELINE_QUERY_LENGTH, - 1)
     else do {
       e \<leftarrow> elem PIPELINE;
       (ok, duration) \<leftarrow> ask (\<lambda>h a. (w_ok W h a, w_int W h a)) (QueryDuration e);
       if \<not> ok then ret (ERROR_GSTREAMER_PIPELINE_QUERY_LENGTH, - 1)
       else do {
         let dDuration = (if duration < 0 then - 1 else of_int duration / of_int GST_SECOND);
         modify (\<lambda>p. p\<lparr>m_dLastReportedDuration := dDuration\<rparr>);
         ret (ERROR_NONE, dDuration)
       }
     }
   }"

definition GetStreamTime :: "world \<Rightarrow> (errcode \<times> real) pm" where
  "GetStreamTime W = do {
     notReady \<leftarrow> locked StateLock (gets (\<lambda>p. m_PlayerState p = Stopped \<or> m_PlayerState p = Error));
     if notReady then ret (ERROR_NONE, 0)
     else do {
       e \<leftarrow> elem PIPELINE;
       (ok, pos) \<leftarrow> ask (\<lambda>h a. (w_ok W h a, w_int W h a)) (QueryPosition e);
       position \<leftarrow> (if \<not> ok then gets m_ulLastStreamTime
                    else do { modify (\<lambda>p. p\<lparr>m_ulLastStreamTime := pos\<rparr>); ret pos });
       let streamTime = of_int position / of_int GST_SECOND;
       unknown \<leftarrow> gets (\<lambda>p. m_dLastReportedDuration p = DURATION_UNKNOWN);
       whenever unknown (do {
         (r, _) \<leftarrow> GetDuration W;
         whenever (r \<noteq> ERROR_NONE) (modify (\<lambda>p. p\<lparr>m_dLastReportedDuration := DURATION_UNKNOWN\<rparr>))
       });
       d \<leftarrow> gets m_dLastReportedDuration;
       ret (ERROR_NONE, if d \<noteq> DURATION_UNKNOWN \<and> d \<noteq> DURATION_INDEFINITE \<and> streamTime > d
                        then d else streamTime)
     }
   }"

subsection \<open>Rate, volume, balance and delay\<close>

definition SetRate :: "world \<Rightarrow> real \<Rightarrow> errcode pm" where
  "SetRate W fRate = do {
     error \<leftarrow> IsPlayerState Error;
     if error then ret ERROR_NONE
     else do {
       rt \<leftarrow> gets m_fRate;
       if fRate \<noteq> rt then
         if 0 = fRate then do {
           e \<leftarrow> elem PIPELINE;
           (_, state, _) \<leftarrow> gst_element_get_state W e;
           stalled \<leftarrow> IsPlayerState Stalled;
           let resume = (state = GST_STATE_PLAYING \<or> stalled);
           r \<leftarrow> Pause W;
           if ERROR_NONE = r then do {
             modify (\<lambda>p. p\<lparr>m_fRate := 0\<rparr>);
             modify (\<lambda>p. p\<lparr>m_bResumePlayOnNonzeroRate := resume\<rparr>);
             ret ERROR_NONE
           } else ret ERROR_GSTREAMER_PIPELINE_SET_RATE_ZERO
         } else do {
           r \<leftarrow> locked SeekLock (do {
             modify (\<lambda>p. p\<lparr>m_fRate := fRate\<rparr>);
             lastSeek \<leftarrow> gets m_LastSeekTime;
             seek_time \<leftarrow> (if lastSeek = - 1 then do {
                 (_, streamTime) \<leftarrow> GetStreamTime W;
                 ret (trunc_int (of_int GST_SECOND * streamTime))
               } else ret lastSeek);
             SeekPipeline W seek_time
           });
           if r = ERROR_NONE then do {
             rateWasZero \<leftarrow> gets (\<lambda>p. 0 = m_fRate p);
             resume \<leftarrow> gets m_bResumePlayOnNonzeroRate;
             whenever (rateWasZero \<and> resume) (do { Play W; ret () });
             ret ERROR_NONE
           } else ret ERROR_GSTREAMER_PIPELINE_SEEK
         }
       else ret ERROR_NONE
     }
   }"

definition GetRate :: "(errcode \<times> real) pm" where
  "GetRate = do { rt \<leftarrow> gets m_fRate; ret (ERROR_NONE, rt) }"

definition clamp :: "real \<Rightarrow> real \<Rightarrow> real \<Rightarrow> real" where
  "clamp lo hi x = (if x < lo then lo else if x > hi then hi else x)"

definition SetVolume :: "world \<Rightarrow> real \<Rightarrow> errcode pm" where
  "SetVolume W volume = do {
     error \<leftarrow> IsPlayerState Error;
     if error then ret ERROR_NONE
     else do {
       e \<leftarrow> elem AUDIO_VOLUME;
       perform (ObjSet e ''volume'' (GReal (clamp 0 1 volume)));
       ret ERROR_NONE
     }
   }"

definition GetVolume :: "world \<Rightarrow> (errcode \<times> real option) pm" where
  "GetVolume W = do {
     error \<leftarrow> IsPlayerState Error;
     if error then ret (ERROR_NONE, None)
     else do { e \<leftarrow> elem AUDIO_VOLUME; v \<leftarrow> ask (w_real W) (ObjGet e ''volume''); ret (ERROR_NONE, Some v) }
   }"

definition SetBalance :: "world \<Rightarrow> real \<Rightarrow> errcode pm" where
  "SetBalance W fBalance = do {
     error \<leftarrow> IsPlayerState Error;
     if error then ret ERROR_NONE
     else do {
       e \<leftarrow> elem AUDIO_BALANCE;
       perform (ObjSet e ''panorama'' (GReal (clamp (- 1) 1 fBalance)));
       ret ERROR_NONE
     }
   }"

definition GetBalance :: "world \<Rightarrow> (errcode \<times> real option) pm" where
  "GetBalance W = do {
     error \<leftarrow> IsPlayerState Error;
     if error then ret (ERROR_NONE, None)
     else do { e \<leftarrow> elem AUDIO_BALANCE; v \<leftarrow> ask (w_real W) (ObjGet e ''panorama''); ret (ERROR_NONE, Some v) }
   }"

abbreviation GST_MSECOND :: int where "GST_MSECOND \<equiv> 1000000"

definition SetAudioSyncDelay :: "world \<Rightarrow> int \<Rightarrow> errcode pm" where
  "SetAudioSyncDelay W millis = do {
     error \<leftarrow> IsPlayerState Error;
     if error then ret ERROR_NONE
     else do {
       e \<leftarrow> elem AUDIO_SINK;
       perform (ObjSet e ''ts-offset'' (GInt (millis * GST_MSECOND)));
       ret ERROR_NONE
     }
   }"

definition GetAudioSyncDelay :: "world \<Rightarrow> (errcode \<times> int option) pm" where
  "GetAudioSyncDelay W = do {
     error \<leftarrow> IsPlayerState Error;
     if error then ret (ERROR_NONE, None)
     else do {
       e \<leftarrow> elem AUDIO_SINK;
       nanos \<leftarrow> ask (w_int W) (ObjGet e ''ts-offset'');
       ret (ERROR_NONE, Some (trunc_int (of_int nanos / of_int GST_MSECOND)))
     }
   }"

definition GetAudioEqualizer :: "bool pm" where "GetAudioEqualizer = gets m_pAudioEqualizer"
definition GetAudioSpectrum :: "bool pm" where "GetAudioSpectrum = gets m_pAudioSpectrum"

lemmas Is_defs = IsPlayerState_def IsPlayerPendingState_def

subsection \<open>What the operations leave alone\<close>

text \<open>Fields that the queries leave alone.\<close>

locale query_field = field +
  assumes field_duration: "F (p\<lparr>m_dLastReportedDuration := d\<rparr>) = F p"
    and field_streamtime: "F (p\<lparr>m_ulLastStreamTime := i\<rparr>) = F p"
begin

lemma GetDuration_same: "state_io_rel same (GetDuration W)"
  unfolding GetDuration_def by (intro queue_rules modifyI) (simp_all add: same_def field_duration)

lemma GetStreamTime_same: "state_io_rel same (GetStreamTime W)"
  unfolding GetStreamTime_def
  by (intro queue_rules modifyI GetDuration_same) (simp_all add: same_def field_duration field_streamtime)

lemma after_queries [simp]: "F (after (GetDuration W) p) = F p" "F (after (GetStreamTime W) p) = F p"
  by (rule sameD [OF GetDuration_same], rule sameD [OF GetStreamTime_same])

end

text \<open>Fields that none of the operations of this theory assigns.\<close>

locale control_field = update_field F + query_field F for F :: "pipe \<Rightarrow> 'v" +
  assumes field_rate: "F (p\<lparr>m_fRate := r\<rparr>) = F p"
    and field_lastseek: "F (p\<lparr>m_LastSeekTime := t\<rparr>) = F p"
begin

lemmas field_control = field_resume field_state field_pending field_stall field_seek field_rate
  field_lastseek field_duration field_streamtime

lemma InternalPause_same: "state_io_rel same (InternalPause W)"
  unfolding InternalPause_def by (intro queue_rules modifyI) (simp_all add: same_def field_control)

lemma Stop_same: "state_io_rel same (Stop W)"
  unfolding Stop_def by (intro queue_rules modifyI InternalPause_same) (simp_all add: same_def field_control)

lemma Finish_same: "state_io_rel same (Finish W)"
  unfolding Finish_def by (intro queue_rules InternalPause_same)

lemma Pause_same: "state_io_rel same (Pause W)"
  unfolding Pause_def
  by (intro queue_rules modifyI InternalPause_same SetPlayerState_same) (simp_all add: same_def field_control)

lemma SeekPipeline_same: "state_io_rel same (SeekPipeline W t)"
  unfolding SeekPipeline_def by (intro queue_rules modifyI) (simp_all add: same_def field_control)

lemma Seek_same: "state_io_rel same (Seek W t)"
  unfolding Seek_def by (intro queue_rules modifyI SeekPipeline_same) (simp_all add: same_def field_control)

lemma SetRate_same: "state_io_rel same (SetRate W r)"
  unfolding SetRate_def
  by (intro queue_rules modifyI GetStreamTime_same SeekPipeline_same Pause_same Play_same)
    (simp_all add: same_def field_control)

lemma sound_same:
  "state_io_rel same (SetVolume W r)" "state_io_rel same (SetBalance W r)"
  "state_io_rel same (SetAudioSyncDelay W i)" "state_io_rel same (GetVolume W)"
  "state_io_rel same (GetBalance W)" "state_io_rel same (GetAudioSyncDelay W)" "state_io_rel same GetRate"
  unfolding SetVolume_def SetBalance_def SetAudioSyncDelay_def GetVolume_def GetBalance_def
    GetAudioSyncDelay_def GetRate_def by (intro queue_rules)+

lemmas control_same = Play_same SetPlayerState_same UpdatePlayerState_same InternalPause_same Stop_same
  Finish_same Pause_same SeekPipeline_same Seek_same GetDuration_same GetStreamTime_same SetRate_same sound_same

lemma after_control [simp]:
  "F (after (InternalPause W) p) = F p" "F (after (Stop W) p) = F p" "F (after (Finish W) p) = F p"
  "F (after (Pause W) p) = F p" "F (after (SeekPipeline W t) p) = F p" "F (after (Seek W x) p) = F p"
  "F (after (SetRate W x) p) = F p"
  by (rule sameD, rule control_same)+

end

interpretation q_PlayerState: query_field m_PlayerState
  by unfold_locales simp_all

interpretation q_Pending: query_field m_PlayerPendingState
  by unfold_locales simp_all

interpretation q_Stall: query_field m_StallOnPause
  by unfold_locales simp_all

interpretation q_Rate: query_field m_fRate
  by unfold_locales simp_all

interpretation q_BufferPosition: query_field m_BufferPosition
  by unfold_locales simp_all

interpretation q_LastSeek: query_field m_LastSeekTime
  by unfold_locales simp_all

interpretation q_Delta: query_field m_dResumeDeltaTime
  by unfold_locales simp_all

interpretation f_Dispatcher: control_field m_pEventDispatcher
  by unfold_locales simp_all

interpretation f_Elements: control_field m_Elements
  by unfold_locales simp_all

interpretation f_Options: control_field m_pOptions
  by unfold_locales simp_all

interpretation f_EOS: control_field m_bLastProgressValueEOS
  by unfold_locales simp_all

interpretation f_Full: control_field m_bHLSPBFull
  by unfold_locales simp_all

interpretation f_HasAudio: control_field m_bHasAudio
  by unfold_locales simp_all

interpretation f_HasVideo: control_field m_bHasVideo
  by unfold_locales simp_all

subsection \<open>Lock discipline\<close>

lemma lk_InternalPause [jfx_lock]: "n \<le> 3 \<Longrightarrow> state_io_rel (lock_rel n) (InternalPause W)"
  unfolding InternalPause_def by (intro lk_rules jfx_lock) simp_all

lemma lk_Stop [jfx_lock]: "n \<le> 3 \<Longrightarrow> state_io_rel (lock_rel n) (Stop W)"
  unfolding Stop_def by (intro lk_rules jfx_lock) simp_all

lemma lk_Finish [jfx_lock]: "n \<le> 3 \<Longrightarrow> state_io_rel (lock_rel n) (Finish W)"
  unfolding Finish_def by (intro lk_rules jfx_lock) simp_all

lemma lk_Pause [jfx_lock]: "n \<le> 3 \<Longrightarrow> state_io_rel (lock_rel n) (Pause W)"
  unfolding Pause_def by (intro lk_rules jfx_lock) simp_all

lemma lk_SeekPipeline [jfx_lock]: "n \<le> 1 \<Longrightarrow> state_io_rel (lock_rel n) (SeekPipeline W t)"
  unfolding SeekPipeline_def by (intro lk_rules jfx_lock) simp_all

lemma lk_Seek [jfx_lock]: "n \<le> 1 \<Longrightarrow> state_io_rel (lock_rel n) (Seek W t)"
  unfolding Seek_def by (intro lk_rules jfx_lock) simp_all

lemma lk_GetDuration [jfx_lock]: "n \<le> 3 \<Longrightarrow> state_io_rel (lock_rel n) (GetDuration W)"
  unfolding GetDuration_def by (intro lk_rules jfx_lock) simp_all

lemma lk_GetStreamTime [jfx_lock]: "n \<le> 3 \<Longrightarrow> state_io_rel (lock_rel n) (GetStreamTime W)"
  unfolding GetStreamTime_def by (intro lk_rules jfx_lock) simp_all

lemma lk_SetRate [jfx_lock]: "n \<le> 1 \<Longrightarrow> state_io_rel (lock_rel n) (SetRate W r)"
  unfolding SetRate_def by (intro lk_rules jfx_lock) simp_all

lemma lk_sound [jfx_lock]:
  "n \<le> 3 \<Longrightarrow> state_io_rel (lock_rel n) (SetVolume W r)" "n \<le> 3 \<Longrightarrow> state_io_rel (lock_rel n) (SetBalance W r)"
  "n \<le> 3 \<Longrightarrow> state_io_rel (lock_rel n) (SetAudioSyncDelay W i)" "n \<le> 3 \<Longrightarrow> state_io_rel (lock_rel n) (GetVolume W)"
  "n \<le> 3 \<Longrightarrow> state_io_rel (lock_rel n) (GetBalance W)" "n \<le> 3 \<Longrightarrow> state_io_rel (lock_rel n) (GetAudioSyncDelay W)"
  unfolding SetVolume_def SetBalance_def SetAudioSyncDelay_def GetVolume_def GetBalance_def GetAudioSyncDelay_def
  by (intro lk_rules jfx_lock; simp)+

subsection \<open>The listener's view\<close>

lemma calm_InternalPause [jfx_frame]: "state_io_rel calm_rel (InternalPause W)"
  unfolding InternalPause_def by (intro calm_rules jfx_frame) simp_all

lemma calm_Stop [jfx_frame]: "state_io_rel calm_rel (Stop W)"
  unfolding Stop_def by (intro calm_rules jfx_frame) simp_all

lemma calm_Finish [jfx_frame]: "state_io_rel calm_rel (Finish W)"
  unfolding Finish_def by (intro calm_rules jfx_frame)

lemma calm_SeekPipeline [jfx_frame]: "state_io_rel calm_rel (SeekPipeline W t)"
  unfolding SeekPipeline_def by (intro calm_rules jfx_frame) (simp_all add: state_event_def)

lemma calm_Seek [jfx_frame]: "state_io_rel calm_rel (Seek W t)"
  unfolding Seek_def by (intro calm_rules jfx_frame) simp_all

lemma calm_GetDuration [jfx_frame]: "state_io_rel calm_rel (GetDuration W)"
  unfolding GetDuration_def by (intro calm_rules jfx_frame) (simp_all add: state_event_def)

lemma calm_GetStreamTime [jfx_frame]: "state_io_rel calm_rel (GetStreamTime W)"
  unfolding GetStreamTime_def by (intro calm_rules jfx_frame) (simp_all add: state_event_def)

lemma calm_sound [jfx_frame]:
  "state_io_rel calm_rel (SetVolume W r)" "state_io_rel calm_rel (SetBalance W r)"
  "state_io_rel calm_rel (SetAudioSyncDelay W i)"
  unfolding SetVolume_def SetBalance_def SetAudioSyncDelay_def
  by (intro calm_rules jfx_frame; simp add: state_event_def)+

lemmas view_calm = calm_view [OF calm_Play] calm_view [OF calm_InternalPause] calm_view [OF calm_GetStreamTime]
  calm_view [OF calm_SeekPipeline] calm_view [OF calm_Is(1)] calm_view [OF calm_Is(2)]
  calm_view [OF calm_prims(4)] calm_view [OF calm_prims(5)]

lemma view_modify:
  "(\<And>p. log (f p) = log p \<and> m_PlayerState (f p) = m_PlayerState p \<and>
     m_pEventDispatcher (f p) = m_pEventDispatcher p) \<Longrightarrow> state_io_rel view_rel (modify f)"
  by (rule calm_view [OF calm_modify])

lemma view_Pause [jfx_frame]: "state_io_rel view_rel (Pause W)"
proof -
  have "state_io_rel view_rel (SetPlayerState W Paused False)"
    by (simp add: io_rel_after view_SetPlayerState)
  then show ?thesis
    unfolding Pause_def by (intro view.control view_locked view_modify view_calm) simp_all
qed

lemma view_SetRate [jfx_frame]: "state_io_rel view_rel (SetRate W r)"
  unfolding SetRate_def
  by (intro view.control view_locked view_modify view_calm view_Pause) simp_all

subsection \<open>Requests\<close>

lemma InternalPause_pending [simp]: "m_PlayerPendingState (after (InternalPause W) p) = m_PlayerPendingState p"
  by (simp add: InternalPause_def)

text \<open>\<^verbatim>\<open>InternalPause\<close> asks GStreamer to pause unless playback has finished or failed.\<close>

lemma InternalPause_result:
  "result (InternalPause W) p =
     (if ((Finished \<noteq> m_PlayerState p \<or> m_bSeekInvoked p) \<or> m_PlayerPendingState p = Stopped) \<and>
         Error \<noteq> m_PlayerState p \<and> m_fRate p \<noteq> 0 \<and>
         \<not> w_ok W (log p) (SetState (container_get (m_Elements p) PIPELINE) GST_STATE_PAUSED)
      then ERROR_GSTREAMER_PIPELINE_STATE_CHANGE else ERROR_NONE)"
  by (simp add: InternalPause_def)

text \<open>\<^verbatim>\<open>Stop\<close> of a player that is not stopped, failed or at rate zero leaves a request to stop pending
  exactly when it reports success; when GStreamer refuses to pause it reports that and withdraws the
  request.\<close>

theorem Stop_request:
  assumes "m_PlayerState p \<noteq> Stopped" "m_PlayerState p \<noteq> Error" "m_fRate p \<noteq> 0"
  shows "if w_ok W (log p) (SetState (container_get (m_Elements p) PIPELINE) GST_STATE_PAUSED)
    then result (Stop W) p = ERROR_NONE \<and> m_PlayerPendingState (after (Stop W) p) = Stopped
    else result (Stop W) p = ERROR_GSTREAMER_PIPELINE_STATE_CHANGE \<and>
         m_PlayerPendingState (after (Stop W) p) = Unknown"
  using assms by (auto simp: Stop_def Is_defs InternalPause_result)

theorem Stop_request_witness:
  "m_PlayerPendingState (after (Stop demo_world) (demo_pipe\<lparr>m_PlayerState := Playing\<rparr>)) = Stopped"
  using Stop_request [of "demo_pipe\<lparr>m_PlayerState := Playing\<rparr>" demo_world]
  by (simp add: demo_world_def demo_pipe_def CGstAVPlaybackPipeline_new_def
      CGstAudioPlaybackPipeline_new_def SetEventDispatcher_def)

text \<open>\<^verbatim>\<open>Pause\<close> of a stopped or stalled player takes effect at once and asks GStreamer nothing; of a
  playing or ready one it leaves a request to pause pending exactly when it reports success.\<close>

theorem Pause_request:
  assumes "m_PlayerState p \<in> {Stopped, Stalled, Playing, Ready, Unknown}" "m_fRate p \<noteq> 0"
  shows "if m_PlayerState p \<in> {Stopped, Stalled}
    then result (Pause W) p = ERROR_NONE \<and> m_PlayerState (after (Pause W) p) = Paused \<and>
         m_PlayerPendingState (after (Pause W) p) = m_PlayerPendingState p
    else if w_ok W (log p) (SetState (container_get (m_Elements p) PIPELINE) GST_STATE_PAUSED)
    then result (Pause W) p = ERROR_NONE \<and> m_PlayerPendingState (after (Pause W) p) = Paused
    else result (Pause W) p = ERROR_GSTREAMER_PIPELINE_STATE_CHANGE \<and>
         m_PlayerPendingState (after (Pause W) p) = Unknown"
  using assms by (auto simp: Pause_def Is_defs InternalPause_result)

theorem Pause_request_witness:
  "m_PlayerPendingState (after (Pause demo_world) (demo_pipe\<lparr>m_PlayerState := Playing\<rparr>)) = Paused"
  using Pause_request [of "demo_pipe\<lparr>m_PlayerState := Playing\<rparr>" demo_world]
  by (simp add: demo_world_def demo_pipe_def CGstAVPlaybackPipeline_new_def
      CGstAudioPlaybackPipeline_new_def SetEventDispatcher_def)

text \<open>\<^verbatim>\<open>Pause\<close> of a finished player reports success and makes no call at all, but leaves a request to
  pause behind; when playback is resumed by a seek and the buffer then runs dry, that stale request
  turns the stall into a pause, which nothing resumes.\<close>

theorem Pause_finished_stale:
  assumes "m_PlayerState p = Finished" "\<not> m_bSeekInvoked p" "m_PlayerPendingState p \<noteq> Stopped"
  shows "result (Pause W) p = ERROR_NONE \<and> log (after (Pause W) p) = log p \<and>
    m_PlayerPendingState (after (Pause W) p) = Paused \<and>
    (\<forall>q. m_PlayerState q = Playing \<and> m_StallOnPause q \<and>
       m_PlayerPendingState q = m_PlayerPendingState (after (Pause W) p) \<longrightarrow>
       m_PlayerState (after (UpdatePlayerState W GST_STATE_PAUSED GST_STATE_PLAYING) q) = Paused)"
proof (intro conjI allI impI)
  show "result (Pause W) p = ERROR_NONE" "log (after (Pause W) p) = log p"
    and pending: "m_PlayerPendingState (after (Pause W) p) = Paused"
    using assms by (simp_all add: Pause_def Is_defs InternalPause_def)
  fix q :: pipe
  assume "m_PlayerState q = Playing \<and> m_StallOnPause q \<and>
    m_PlayerPendingState q = m_PlayerPendingState (after (Pause W) p)"
  with pending show "m_PlayerState (after (UpdatePlayerState W GST_STATE_PAUSED GST_STATE_PLAYING) q) = Paused"
    by (simp add: UpdatePlayerState_state player_switch_def switch_Playing_Paused_def)
qed

theorem Pause_finished_stale_witness:
  "m_PlayerPendingState (after (Pause demo_world) (demo_pipe\<lparr>m_PlayerState := Finished\<rparr>)) = Paused"
  using Pause_finished_stale [of "demo_pipe\<lparr>m_PlayerState := Finished\<rparr>" demo_world]
  by (simp add: demo_pipe_def CGstAVPlaybackPipeline_new_def CGstAudioPlaybackPipeline_new_def
      SetEventDispatcher_def)

subsection \<open>A failed player\<close>

text \<open>Once the player is in \<^verbatim>\<open>Error\<close>, no operation of its interface calls GStreamer or the listener,
  none changes the state, and all but the duration query report success.\<close>

theorem error_inert:
  assumes "m_PlayerState p = Error"
  shows "(\<forall>m \<in> {Play W, Stop W, Finish W, Pause W, Seek W t, SetRate W r, SetVolume W v, SetBalance W b,
        SetAudioSyncDelay W d}.
      result m p = ERROR_NONE \<and> log (after m p) = log p \<and> m_PlayerState (after m p) = Error) \<and>
    result (GetDuration W) p = (ERROR_GSTREAMER_PIPELINE_QUERY_LENGTH, - 1) \<and>
    log (after (GetDuration W) p) = log p"
  using assms by (simp add: Play_def Stop_def Finish_def Pause_def Seek_def SetRate_def SetVolume_def
      SetBalance_def SetAudioSyncDelay_def GetDuration_def Is_defs)

theorem error_inert_witness:
  "result (SetRate demo_world 2) (demo_pipe\<lparr>m_PlayerState := Error\<rparr>) = ERROR_NONE \<and>
   log (after (SetRate demo_world 2) (demo_pipe\<lparr>m_PlayerState := Error\<rparr>)) = log demo_pipe"
  using error_inert [of "demo_pipe\<lparr>m_PlayerState := Error\<rparr>" demo_world 0 2 0 0 0] by simp

subsection \<open>Position and duration\<close>

lemma GetDuration_reports:
  "result (GetDuration W) p = (ERROR_NONE, d) \<Longrightarrow> m_dLastReportedDuration (after (GetDuration W) p) = d"
  "fst (result (GetDuration W) p) \<noteq> ERROR_NONE \<Longrightarrow>
   m_dLastReportedDuration (after (GetDuration W) p) = m_dLastReportedDuration p"
  by (auto simp: GetDuration_def Is_defs split_beta Let_def split: if_splits)

lemma GetStreamTime_result:
  fixes W :: world and p :: pipe
  assumes "m_PlayerState p \<noteq> Stopped" "m_PlayerState p \<noteq> Error"
  defines "q \<equiv> QueryPosition (container_get (m_Elements p) PIPELINE)"
    and "d \<equiv> m_dLastReportedDuration (after (GetStreamTime W) p)"
  shows "\<exists>t. result (GetStreamTime W) p =
    (ERROR_NONE, if d \<noteq> DURATION_UNKNOWN \<and> d \<noteq> DURATION_INDEFINITE \<and> t > d then d else t)"
proof -
  have "result (GetStreamTime W) p = (ERROR_NONE,
      let t = of_int (if w_ok W (log p) q then w_int W (log p) q else m_ulLastStreamTime p) / of_int GST_SECOND
      in if d \<noteq> DURATION_UNKNOWN \<and> d \<noteq> DURATION_INDEFINITE \<and> t > d then d else t)"
    unfolding d_def q_def using assms(1,2) by (simp add: GetStreamTime_def split_beta Let_def)
  then show ?thesis unfolding Let_def by (rule exI)
qed

text \<open>The position reported never exceeds the duration, when a duration is known, and it is 0 in the
  stopped and failed states.\<close>

theorem GetStreamTime_bounded:
  assumes "0 \<le> m_dLastReportedDuration (after (GetStreamTime W) p)"
  shows "fst (result (GetStreamTime W) p) = ERROR_NONE \<and>
    snd (result (GetStreamTime W) p) \<le> m_dLastReportedDuration (after (GetStreamTime W) p) \<and>
    (m_PlayerState p \<in> {Stopped, Error} \<longrightarrow> snd (result (GetStreamTime W) p) = 0)"
proof (cases "m_PlayerState p = Stopped \<or> m_PlayerState p = Error")
  case True
  then have "result (GetStreamTime W) p = (ERROR_NONE, 0)" by (simp add: GetStreamTime_def)
  with assms show ?thesis by simp
next
  case False
  then obtain t where "result (GetStreamTime W) p = (ERROR_NONE,
      let d = m_dLastReportedDuration (after (GetStreamTime W) p)
      in if d \<noteq> DURATION_UNKNOWN \<and> d \<noteq> DURATION_INDEFINITE \<and> t > d then d else t)"
    using GetStreamTime_result [of p W] by (auto simp: Let_def)
  with False assms show ?thesis by (auto simp: Let_def)
qed

definition late_world :: world where
  "late_world = demo_world\<lparr>w_int := (\<lambda>h a. case a of QueryDuration e \<Rightarrow> 4000000000 | _ \<Rightarrow> 5000000000)\<rparr>"

theorem GetStreamTime_bounded_witness:
  "snd (result (GetStreamTime late_world) (demo_pipe\<lparr>m_PlayerState := Playing\<rparr>)) \<le> 4"
proof -
  have "m_dLastReportedDuration (after (GetStreamTime late_world) (demo_pipe\<lparr>m_PlayerState := Playing\<rparr>)) = 4"
    by (simp add: GetStreamTime_def GetDuration_def Is_defs late_world_def demo_world_def demo_pipe_def
        CGstAVPlaybackPipeline_new_def CGstAudioPlaybackPipeline_new_def SetEventDispatcher_def)
  with GetStreamTime_bounded [of late_world "demo_pipe\<lparr>m_PlayerState := Playing\<rparr>"] show ?thesis by simp
qed

subsection \<open>Seek and rate\<close>

lemma SeekPipeline_frame [simp]:
  "m_PlayerState (after (SeekPipeline W t) p) = m_PlayerState p"
  "m_PlayerPendingState (after (SeekPipeline W t) p) = m_PlayerPendingState p"
  "m_fRate (after (SeekPipeline W t) p) = m_fRate p"
  by (simp_all add: SeekPipeline_def Let_def)

definition not_play :: "act \<Rightarrow> bool" where
  "not_play a \<longleftrightarrow> (\<forall>e. a \<noteq> SetState e GST_STATE_PLAYING)"

lemma not_play_queue: "state_io_rel (new_acts not_play) (CheckQueueSize W e)"
  unfolding queue_defs by (intro acts_rules) (simp_all add: not_play_def)

lemma not_play_seek: "state_io_rel (new_acts not_play) (SeekPipeline W t)"
  unfolding SeekPipeline_def by (intro acts_rules not_play_queue) (simp_all add: not_play_def)

lemma not_play_duration: "state_io_rel (new_acts not_play) (GetDuration W)"
  unfolding GetDuration_def Is_defs by (intro acts_rules) (simp_all add: not_play_def)

lemma not_play_time: "state_io_rel (new_acts not_play) (GetStreamTime W)"
  unfolding GetStreamTime_def by (intro acts_rules not_play_duration) (simp_all add: not_play_def)

text \<open>The pipeline has a part that \<^verbatim>\<open>SeekPipeline\<close> sends the seek to.\<close>

definition seekable :: "pipe \<Rightarrow> bool" where
  "seekable p \<longleftrightarrow> m_PipelineType (m_pOptions p) = kAudioSourcePipeline \<or>
     container_get (m_Elements p) AUDIO_SINK \<noteq> None \<and> m_bHasAudio p \<or>
     container_get (m_Elements p) VIDEO_SINK \<noteq> None \<and> m_bHasVideo p"

lemma SeekPipeline_accepted:
  assumes "seekable p" "\<And>h e r b. w_ok W h (Seek_act e r b t)"
  shows "result (SeekPipeline W t) p = ERROR_NONE"
  using assms by (auto simp: SeekPipeline_def seekable_def Let_def)

text \<open>A seek that GStreamer accepts while the player is \<^verbatim>\<open>Finished\<close>, with no stop pending, asks the
  pipeline to play again, as its last call; in every other state, or with a stop pending, a seek never
  asks it to play.\<close>

theorem Seek_resumes:
  assumes "seekable p" "\<And>h e r b i. w_ok W h (Seek_act e r b i)"
  shows "if m_PlayerState p = Finished \<and> m_PlayerPendingState p \<noteq> Stopped
    then hd (log (after (Seek W t) p)) = SetState (container_get (m_Elements p) PIPELINE) GST_STATE_PLAYING
    else new_acts not_play p (after (Seek W t) p)"
proof (cases "m_PlayerState p = Finished \<and> m_PlayerPendingState p \<noteq> Stopped")
  case True
  let ?p = "p\<lparr>m_bSeekInvoked := True\<rparr>"
  have "seekable ?p" using assms(1) by (simp add: seekable_def)
  then have "result (SeekPipeline W (trunc_int (of_int GST_SECOND * t))) ?p = ERROR_NONE"
    using assms(2) by (rule SeekPipeline_accepted)
  with True show ?thesis by (simp add: Seek_def)
next
  case False
  let ?q = "if m_PlayerState p = Finished then p\<lparr>m_bSeekInvoked := True\<rparr> else p"
  have "after (Seek W t) p = ?q \<or> after (Seek W t) p = after (SeekPipeline W (trunc_int (of_int GST_SECOND * t))) ?q"
    using False by (auto simp: Seek_def)
  moreover have "new_acts not_play ?q (after (SeekPipeline W (trunc_int (of_int GST_SECOND * t))) ?q)"
    using not_play_seek by (simp only: io_rel_after)
  moreover have "new_acts not_play p ?q" by (simp add: new_acts_same)
  ultimately have "new_acts not_play p (after (Seek W t) p)"
    using acts.trans [of not_play p ?q] by (elim disjE) (simp_all only:)
  with False show ?thesis by (simp only: if_False)
qed

theorem Seek_resumes_witness:
  "hd (log (after (Seek demo_world 3) (demo_pipe\<lparr>m_PlayerState := Finished, m_bHasAudio := True\<rparr>))) =
     SetState (Some 1) GST_STATE_PLAYING"
  using Seek_resumes [of "demo_pipe\<lparr>m_PlayerState := Finished, m_bHasAudio := True\<rparr>" demo_world 3]
  by (simp add: seekable_def demo_world_def demo_pipe_def CGstAVPlaybackPipeline_new_def
      CGstAudioPlaybackPipeline_new_def SetEventDispatcher_def demo_elements_def container_get_def)

text \<open>The part of \<^verbatim>\<open>SetRate\<close> under the seek lock.\<close>

lemma SetRate_nonzero:
  assumes "m_PlayerState p \<noteq> Error" "r \<noteq> 0" "r \<noteq> m_fRate p"
  shows "new_acts not_play p (after (SetRate W r) p) \<and> m_fRate (after (SetRate W r) p) = r"
proof -
  let ?m = "locked SeekLock (do {
      modify (\<lambda>p. p\<lparr>m_fRate := r\<rparr>);
      lastSeek \<leftarrow> gets m_LastSeekTime;
      seek_time \<leftarrow> (if lastSeek = - 1 then do { (_, streamTime) \<leftarrow> GetStreamTime W;
          ret (trunc_int (of_int GST_SECOND * streamTime)) } else ret lastSeek);
      SeekPipeline W seek_time })"
  have "state_io_rel (new_acts not_play) ?m"
    by (intro acts_rules not_play_time not_play_seek) simp
  then have new: "new_acts not_play p (after ?m p)" by (simp only: io_rel_after)
  have rate: "m_fRate (after ?m p) = r" by (simp add: split_beta Let_def)
  have "after (SetRate W r) p = after ?m p"
    using assms rate unfolding SetRate_def by (simp del: run_locks)
  with new rate show ?thesis by simp
qed

text \<open>Changing the rate from zero to a non-zero value never resumes playback: although \<^verbatim>\<open>SetRate\<close> is
  meant to play again when the pause at rate zero interrupted playback, it tests the rate it has just
  assigned, so it makes no request to play whatever the resume flag says.\<close>

theorem SetRate_never_resumes:
  assumes "m_PlayerState p \<noteq> Error" "m_fRate p = 0" "r \<noteq> 0" "m_bResumePlayOnNonzeroRate p"
  shows "new_acts not_play p (after (SetRate W r) p) \<and> m_fRate (after (SetRate W r) p) = r"
  using SetRate_nonzero [of p r W] assms by simp

theorem SetRate_never_resumes_witness:
  "m_fRate (after (SetRate demo_world 2) (demo_pipe\<lparr>m_PlayerState := Paused, m_fRate := 0,
     m_bResumePlayOnNonzeroRate := True\<rparr>)) = 2"
  using SetRate_never_resumes [of "demo_pipe\<lparr>m_PlayerState := Paused, m_fRate := 0,
     m_bResumePlayOnNonzeroRate := True\<rparr>" 2 demo_world] by simp

subsection \<open>Volume, balance and delay\<close>

text \<open>Whatever value is asked for, the volume handed to GStreamer is between 0 and 1 and the balance
  between -1 and 1, and a value already in range is passed on unchanged.\<close>

theorem sound_clamped:
  assumes "m_PlayerState p \<noteq> Error"
  shows "\<exists>v b. log (after (SetVolume W x) p) = ObjSet (container_get (m_Elements p) AUDIO_VOLUME) ''volume'' (GReal v) # log p \<and>
      log (after (SetBalance W y) p) = ObjSet (container_get (m_Elements p) AUDIO_BALANCE) ''panorama'' (GReal b) # log p \<and>
      0 \<le> v \<and> v \<le> 1 \<and> - 1 \<le> b \<and> b \<le> 1 \<and>
      (0 \<le> x \<and> x \<le> 1 \<longrightarrow> v = x) \<and> (- 1 \<le> y \<and> y \<le> 1 \<longrightarrow> b = y)"
  using assms
  by (intro exI [of _ "clamp 0 1 x"] exI [of _ "clamp (- 1) 1 y"])
    (auto simp: SetVolume_def SetBalance_def clamp_def)

theorem sound_clamped_witness:
  "\<exists>v b. log (after (SetVolume demo_world 7) demo_pipe) =
     ObjSet (container_get (m_Elements demo_pipe) AUDIO_VOLUME) ''volume'' (GReal v) # log demo_pipe \<and> v \<le> 1 \<and> b \<le> (1 :: real)"
proof -
  have "m_PlayerState demo_pipe \<noteq> Error"
    by (simp add: demo_pipe_def CGstAVPlaybackPipeline_new_def CGstAudioPlaybackPipeline_new_def SetEventDispatcher_def)
  from sound_clamped [OF this, of demo_world 7 0] show ?thesis by blast
qed

text \<open>A sink that remembers its offset: it answers with the value set last.\<close>

fun last_int :: "gptr \<Rightarrow> string \<Rightarrow> history \<Rightarrow> int option" where
  "last_int e prop [] = None"
| "last_int e prop (a # h) = (if \<exists>i. a = ObjSet e prop (GInt i) then (case a of ObjSet _ _ (GInt i) \<Rightarrow> Some i)
                              else last_int e prop h)"

text \<open>The audio delay survives a round trip: on a sink that answers with the offset set last, reading
  the delay back gives the milliseconds that were set, for positive and negative delays.\<close>

theorem AudioSyncDelay_roundtrip:
  assumes "m_PlayerState p \<noteq> Error"
    and "\<And>h i. last_int (container_get (m_Elements p) AUDIO_SINK) ''ts-offset'' h = Some i \<Longrightarrow>
      w_int W h (ObjGet (container_get (m_Elements p) AUDIO_SINK) ''ts-offset'') = i"
  shows "result (do { SetAudioSyncDelay W millis; GetAudioSyncDelay W }) p = (ERROR_NONE, Some millis)"
proof -
  let ?e = "container_get (m_Elements p) AUDIO_SINK"
  have "w_int W (ObjSet ?e ''ts-offset'' (GInt (millis * GST_MSECOND)) # log p) (ObjGet ?e ''ts-offset'') = millis * GST_MSECOND"
    by (rule assms(2)) simp
  then show ?thesis using assms(1) by (simp add: SetAudioSyncDelay_def GetAudioSyncDelay_def)
qed

definition sink_world :: world where
  "sink_world = demo_world\<lparr>w_int := (\<lambda>h a. case a of ObjGet e prop \<Rightarrow>
     (case last_int e prop h of Some i \<Rightarrow> i | None \<Rightarrow> 0) | _ \<Rightarrow> 0)\<rparr>"

theorem AudioSyncDelay_roundtrip_witness:
  "result (do { SetAudioSyncDelay sink_world (- 40); GetAudioSyncDelay sink_world })
     (demo_pipe\<lparr>m_PlayerState := Playing\<rparr>) = (ERROR_NONE, Some (- 40))"
  by (rule AudioSyncDelay_roundtrip) (simp_all add: sink_world_def)

end
