(* ===== verification/Buffering.thy ===== *)
theory Buffering
  imports Playback_Control
begin

text \<open>
  Stalling and resuming (\<^verbatim>\<open>GstAudioPlaybackPipeline.cpp\<close>): what the pipeline does when its progress
  buffer runs dry (\<^verbatim>\<open>BufferUnderrun\<close>, \<^verbatim>\<open>HLSBufferStall\<close>) and when it has data again
  (\<^verbatim>\<open>UpdateBufferPosition\<close>, \<^verbatim>\<open>HLSBufferResume\<close>).
\<close>

subsection \<open>Operations\<close>

definition BufferUnderrun :: "world \<Rightarrow> unit pm" where
  "BufferUnderrun W = do {
     stalled \<leftarrow> IsPlayerState Stalled;
     ready \<leftarrow> IsPlayerState Ready;
     error \<leftarrow> IsPlayerState Error;
     if stalled \<or> ready \<or> error then ret ()
     else do {
       e \<leftarrow> elem PIPELINE;
       (_, state, pending_state) \<leftarrow> gst_element_get_state W e;
       finished \<leftarrow> IsPlayerState Finished;
       GetStreamTime W;
       suspend \<leftarrow> locked StallLock (gets (\<lambda>p. m_BufferPosition p > 0 \<and>
           state = GST_STATE_PLAYING \<and> pending_state \<noteq> GST_STATE_PAUSED \<and>
           \<not> m_bLastProgressValueEOS p \<and> \<not> finished));
       whenever suspend (do {
         modify (\<lambda>p. p\<lparr>m_StallOnPause := True\<rparr>);
         InternalPause W;
         ret ()
       })
     }
   }"

definition UpdateBufferPosition :: "world \<Rightarrow> unit pm" where
  "UpdateBufferPosition W = do {
     d \<leftarrow> gets m_pEventDispatcher;
     stop \<leftarrow> gets m_llLastProgressValueStop;
     whenever (d \<and> stop > 0) (do {
       (_, duration) \<leftarrow> GetDuration W;
       start \<leftarrow> gets m_llLastProgressValueStart;
       pos \<leftarrow> gets m_llLastProgressValuePosition;
       send_or_error W (BufferProgressEvent duration start stop pos) ERROR_JNI_SEND_BUFFER_PROGRESS_EVENT;
       let bufferPosition = duration * of_int pos / of_int stop;
       (_, streamTime) \<leftarrow> GetStreamTime W;
       locked StallLock (modify (\<lambda>p. p\<lparr>m_BufferPosition := bufferPosition\<rparr>));
       stalled \<leftarrow> IsPlayerState Stalled;
       delta \<leftarrow> gets m_dResumeDeltaTime;
       eos \<leftarrow> gets m_bLastProgressValueEOS;
       pendingPaused \<leftarrow> IsPlayerPendingState Paused;
       pendingStopped \<leftarrow> IsPlayerPendingState Stopped;
       whenever (stalled \<and> (bufferPosition - streamTime > delta \<or> eos) \<and> \<not> pendingPaused \<and> \<not> pendingStopped)
         (do { Play W; ret () })
     })
   }"

definition HLSBufferStall :: "world \<Rightarrow> unit pm" where
  "HLSBufferStall W = do {
     playing \<leftarrow> IsPlayerState Playing;
     if \<not> playing then ret ()
     else do {
       e \<leftarrow> elem PIPELINE;
       (_, state, pending_state) \<leftarrow> gst_element_get_state W e;
       suspend \<leftarrow> locked StallLock (gets (\<lambda>p. state = GST_STATE_PLAYING \<and>
           pending_state = GST_STATE_VOID_PENDING \<and> \<not> m_bLastProgressValueEOS p \<and> \<not> m_bHLSPBFull p));
       whenever suspend (do {
         modify (\<lambda>p. p\<lparr>m_StallOnPause := True\<rparr>);
         InternalPause W;
         ret ()
       })
     }
   }"

definition HLSBufferResume :: "world \<Rightarrow> bool \<Rightarrow> unit pm" where
  "HLSBufferResume W bEOS = do {
     resume \<leftarrow> locked StallLock (do {
       whenever bEOS (modify (\<lambda>p. p\<lparr>m_bLastProgressValueEOS := bEOS\<rparr>));
       stalled \<leftarrow> IsPlayerState Stalled;
       playing \<leftarrow> IsPlayerState Playing;
       eos \<leftarrow> gets m_bLastProgressValueEOS;
       pendingPaused \<leftarrow> IsPlayerPendingState Paused;
       pendingStopped \<leftarrow> IsPlayerPendingState Stopped;
       ret ((stalled \<and> \<not> pendingPaused \<and> \<not> pendingStopped) \<or>
            (eos \<and> playing \<and> \<not> pendingPaused \<and> \<not> pendingStopped))
     });
     whenever resume (do { Play W; ret () })
   }"

lemmas buffering_defs = BufferUnderrun_def UpdateBufferPosition_def HLSBufferStall_def HLSBufferResume_def

subsection \<open>Frames, locks and the listener's view\<close>

locale buffering_field = control_field +
  assumes field_bufpos: "F (p\<lparr>m_BufferPosition := x\<rparr>) = F p"
    and field_eos: "F (p\<lparr>m_bLastProgressValueEOS := b\<rparr>) = F p"
begin

lemma buffering_same:
  "state_io_rel same (BufferUnderrun W)" "state_io_rel same (UpdateBufferPosition W)"
  "state_io_rel same (HLSBufferStall W)" "state_io_rel same (HLSBufferResume W b)"
  unfolding buffering_defs
  by (intro queue_rules modifyI control_same; simp add: same_def field_control field_bufpos field_eos)+

end

interpretation bf_Elements: buffering_field m_Elements
  by unfold_locales simp_all

interpretation bf_Options: buffering_field m_pOptions
  by unfold_locales simp_all

interpretation bf_Dispatcher: buffering_field m_pEventDispatcher
  by unfold_locales simp_all

lemmas buffering_keeps [simp] = f_Elements.sameD [OF bf_Elements.buffering_same(1)]
  f_Elements.sameD [OF bf_Elements.buffering_same(2)] f_Elements.sameD [OF bf_Elements.buffering_same(3)]
  f_Elements.sameD [OF bf_Elements.buffering_same(4)] f_Options.sameD [OF bf_Options.buffering_same(1)]
  f_Options.sameD [OF bf_Options.buffering_same(2)] f_Dispatcher.sameD [OF bf_Dispatcher.buffering_same(1)]
  f_Dispatcher.sameD [OF bf_Dispatcher.buffering_same(2)]

lemma lk_buffering [jfx_lock]:
  "n \<le> 2 \<Longrightarrow> state_io_rel (lock_rel n) (BufferUnderrun W)"
  "n \<le> 2 \<Longrightarrow> state_io_rel (lock_rel n) (UpdateBufferPosition W)"
  "n \<le> 2 \<Longrightarrow> state_io_rel (lock_rel n) (HLSBufferStall W)"
  "n \<le> 2 \<Longrightarrow> state_io_rel (lock_rel n) (HLSBufferResume W b)"
  unfolding buffering_defs by (intro lk_rules jfx_lock; simp)+

lemma calm_buffering [jfx_frame]:
  "state_io_rel calm_rel (BufferUnderrun W)" "state_io_rel calm_rel (UpdateBufferPosition W)"
  "state_io_rel calm_rel (HLSBufferStall W)" "state_io_rel calm_rel (HLSBufferResume W b)"
  unfolding buffering_defs by (intro calm_rules jfx_frame; simp add: state_event_def)+

subsection \<open>Stalling\<close>

lemma InternalPause_stall [simp]: "m_StallOnPause (after (InternalPause W) p) = m_StallOnPause p"
  and InternalPause_state [simp]: "m_PlayerState (after (InternalPause W) p) = m_PlayerState p"
  by (simp_all add: InternalPause_def)

text \<open>When the progress buffer runs dry while the player is playing, has buffered something, has not
  got all data and no request is pending, the pipeline is paused as a stall: after the message that it
  reached \<^verbatim>\<open>PAUSED\<close> the player is \<^verbatim>\<open>Stalled\<close>, and the stall mark is cleared.\<close>

theorem BufferUnderrun_stalls:
  assumes "m_PlayerState p = Playing" "m_PlayerPendingState p \<noteq> Stopped" "m_PlayerPendingState p \<noteq> Paused"
    and "m_BufferPosition p > 0" "\<not> m_bLastProgressValueEOS p"
    and "\<And>h. w_state W h = (GST_STATE_PLAYING, GST_STATE_VOID_PENDING)"
  shows "m_PlayerState (after (do { BufferUnderrun W; UpdatePlayerState W GST_STATE_PAUSED GST_STATE_PLAYING }) p) = Stalled \<and>
    m_StallOnPause (after (do { BufferUnderrun W; UpdatePlayerState W GST_STATE_PAUSED GST_STATE_PLAYING }) p) = False"
proof -
  define q where "q = after (BufferUnderrun W) p"
  have "m_PlayerState q = Playing" "m_PlayerPendingState q = m_PlayerPendingState p" "m_StallOnPause q"
    using assms unfolding q_def by (simp_all add: BufferUnderrun_def split_beta)
  with assms(2,3) show ?thesis
    by (simp add: q_def [symmetric] UpdatePlayerState_def player_switch_def switch_Playing_Paused_def)
qed

theorem BufferUnderrun_stalls_witness:
  "m_PlayerState (after (do { BufferUnderrun demo_world; UpdatePlayerState demo_world GST_STATE_PAUSED GST_STATE_PLAYING })
     (demo_pipe\<lparr>m_PlayerState := Playing, m_BufferPosition := 4\<rparr>)) = Stalled"
  using BufferUnderrun_stalls [of "demo_pipe\<lparr>m_PlayerState := Playing, m_BufferPosition := 4\<rparr>" demo_world]
  by (simp add: demo_world_def demo_pipe_def CGstAVPlaybackPipeline_new_def
      CGstAudioPlaybackPipeline_new_def SetEventDispatcher_def)

text \<open>A stall that is declared when the buffer already holds everything (end of the data, or a full HLS
  buffer) is undone at once: entering \<^verbatim>\<open>Stalled\<close> then asks the pipeline to play, as the last call.\<close>

theorem stalled_with_data_plays:
  assumes "m_PlayerState p \<noteq> Stalled" "m_bLastProgressValueEOS p \<or> m_bHLSPBFull p" "m_fRate p \<noteq> 0"
  shows "hd (log (after (SetPlayerState W Stalled b) p)) =
    SetState (container_get (m_Elements p) PIPELINE) GST_STATE_PLAYING"
  using assms by (auto simp: SetPlayerState_def Play_def)

theorem stalled_with_data_plays_witness:
  "hd (log (after (SetPlayerState demo_world Stalled False) (demo_pipe\<lparr>m_bLastProgressValueEOS := True\<rparr>))) =
     SetState (Some 1) GST_STATE_PLAYING"
  using stalled_with_data_plays [of "demo_pipe\<lparr>m_bLastProgressValueEOS := True\<rparr>" demo_world False]
  by (simp add: demo_world_def demo_pipe_def CGstAVPlaybackPipeline_new_def
      CGstAudioPlaybackPipeline_new_def SetEventDispatcher_def demo_elements_def container_get_def)

subsection \<open>Resuming\<close>

text \<open>A stall ends: when the buffer reports the end of its data, or holds more than the resume margin
  beyond the current position, a stalled player without pending requests asks the pipeline to play.\<close>

theorem UpdateBufferPosition_resumes:
  fixes W :: world and p :: pipe
  defines "e \<equiv> container_get (m_Elements p) PIPELINE"
  assumes "m_PlayerState p = Stalled" "m_PlayerPendingState p \<noteq> Stopped" "m_PlayerPendingState p \<noteq> Paused"
    and "m_pEventDispatcher p" "m_llLastProgressValueStop p > 0" "m_fRate p \<noteq> 0"
    and "\<And>h. w_ok W h (QueryDuration e)" "\<And>h. w_int W h (QueryDuration e) = dur" "0 \<le> dur"
    and "\<And>h. w_ok W h (QueryPosition e)" "\<And>h. w_int W h (QueryPosition e) = pos" "pos \<le> dur"
    and "of_int dur / 10 ^ 9 * of_int (m_llLastProgressValuePosition p) / of_int (m_llLastProgressValueStop p)
        - of_int pos / 10 ^ 9 > m_dResumeDeltaTime p \<or> m_bLastProgressValueEOS p"
  shows "hd (log (after (UpdateBufferPosition W) p)) = SetState e GST_STATE_PLAYING"
  using assms
  by (simp add: UpdateBufferPosition_def GetDuration_def GetStreamTime_def Play_def split_beta Let_def)

definition demo_stalled :: pipe where
  "demo_stalled = demo_pipe\<lparr>m_PlayerState := Stalled, m_llLastProgressValueStop := 100, m_llLastProgressValuePosition := 90\<rparr>"

definition buffered_world :: world where
  "buffered_world = demo_world\<lparr>w_int := (\<lambda>h a. case a of QueryDuration e \<Rightarrow> 60000000000 | _ \<Rightarrow> 5000000000)\<rparr>"

lemmas demo_stalled_eval = demo_stalled_def buffered_world_def demo_world_def demo_pipe_def
  CGstAVPlaybackPipeline_new_def CGstAudioPlaybackPipeline_new_def SetEventDispatcher_def demo_elements_def container_get_def

theorem UpdateBufferPosition_resumes_witness:
  "hd (log (after (UpdateBufferPosition buffered_world) demo_stalled)) = SetState (Some 1) GST_STATE_PLAYING"
proof -
  have "container_get (m_Elements demo_stalled) PIPELINE = Some 1" by (simp add: demo_stalled_eval)
  moreover have "hd (log (after (UpdateBufferPosition buffered_world) demo_stalled)) =
      SetState (container_get (m_Elements demo_stalled) PIPELINE) GST_STATE_PLAYING"
    by (rule UpdateBufferPosition_resumes [where dur = 60000000000 and pos = 5000000000])
      (simp_all add: demo_stalled_eval)
  ultimately show ?thesis by simp
qed

lemma not_play_UpdateBufferPosition:
  assumes "m_PlayerPendingState p = Stopped \<or> m_PlayerPendingState p = Paused"
  shows "new_acts not_play p (after (UpdateBufferPosition W) p)"
proof -
  define body where "body = (\<lambda>stop. do {
       (_, duration) \<leftarrow> GetDuration W;
       start \<leftarrow> gets m_llLastProgressValueStart;
       pos \<leftarrow> gets m_llLastProgressValuePosition;
       send_or_error W (BufferProgressEvent duration start stop pos) ERROR_JNI_SEND_BUFFER_PROGRESS_EVENT;
       let bufferPosition = duration * of_int pos / of_int stop;
       (_, streamTime) \<leftarrow> GetStreamTime W;
       locked StallLock (modify (\<lambda>p. p\<lparr>m_BufferPosition := bufferPosition\<rparr>))
     })"
  have "new_acts not_play p (after (body (m_llLastProgressValueStop p)) p)"
    unfolding body_def
    by (rule io_rel_after [THEN iffD1, rule_format])
      (intro acts_rules not_play_duration not_play_time; simp add: not_play_def)
  moreover have "after (UpdateBufferPosition W) p =
      (if m_pEventDispatcher p \<and> m_llLastProgressValueStop p > 0 then after (body (m_llLastProgressValueStop p)) p else p)"
    using assms by (auto simp: UpdateBufferPosition_def body_def split_beta Let_def)
  ultimately show ?thesis by (simp add: acts.refl)
qed

text \<open>Buffering never overrides the user: while a request to pause or to stop is pending, neither a
  buffer report nor an HLS resume, at the end of the data or not, asks the pipeline to play.\<close>

theorem resume_respects_requests:
  assumes "m_PlayerPendingState p = Stopped \<or> m_PlayerPendingState p = Paused"
  shows "new_acts not_play p (after (UpdateBufferPosition W) p) \<and> new_acts not_play p (after (HLSBufferResume W b) p)"
  using not_play_UpdateBufferPosition [OF assms] assms by (auto simp: HLSBufferResume_def intro: new_acts_same)

theorem resume_respects_requests_witness:
  "new_acts not_play (demo_stalled\<lparr>m_PlayerPendingState := Paused\<rparr>)
     (after (HLSBufferResume buffered_world True) (demo_stalled\<lparr>m_PlayerPendingState := Paused\<rparr>))"
  using resume_respects_requests [of "demo_stalled\<lparr>m_PlayerPendingState := Paused\<rparr>" buffered_world True] by simp

end
