(* ===== verification/Dynamic_Pads.thy ===== *)
theory Dynamic_Pads
  imports Buffering
begin

text \<open>
  Codec checks and the callbacks that complete a dynamic pipeline
  (\<^verbatim>\<open>GstAudioPlaybackPipeline.cpp\<close>, \<^verbatim>\<open>GstAVPlaybackPipeline.cpp\<close>): \<^verbatim>\<open>IsCodecSupported\<close>,
  \<^verbatim>\<open>CheckCodecSupport\<close>, \<^verbatim>\<open>LoadDecoder\<close>, \<^verbatim>\<open>PostBuildInit\<close>, \<^verbatim>\<open>OnParserSrcPadAdded\<close>,
  \<^verbatim>\<open>on_pad_added\<close> and \<^verbatim>\<open>no_more_pads\<close>.  A virtual call dispatches on the class of the object.
\<close>

subsection \<open>Codec support\<close>

definition JFX_CODEC_ID_AAC :: int where "JFX_CODEC_ID_AAC = 1"
definition JFX_CODEC_ID_AVC1 :: int where "JFX_CODEC_ID_AVC1 = 3"
definition JFX_CODEC_ID_H265 :: int where "JFX_CODEC_ID_H265 = 4"

text \<open>The first structure of the caps, if there are caps and a structure.\<close>

definition caps_first :: "gst_caps option \<Rightarrow> gst_structure option" where
  "caps_first pCaps = Option.bind pCaps gst_caps_get_structure0"

text \<open>\<^verbatim>\<open>g_object_set(decoder, "codec-id", id)\<close>, then \<^verbatim>\<open>g_object_get(decoder, "is-supported")\<close>.\<close>

definition decoder_supports :: "world \<Rightarrow> ElementRole \<Rightarrow> int \<Rightarrow> (pipe \<Rightarrow> pipe) \<Rightarrow> bool pm" where
  "decoder_supports W role codec setError = do {
     e \<leftarrow> elem role;
     perform (ObjSet e ''codec-id'' (GInt codec));
     is_supported \<leftarrow> call W (ObjGet e ''is-supported'');
     if is_supported then ret True else do { modify setError; ret False }
   }"

definition Audio_IsCodecSupported :: "world \<Rightarrow> gst_caps option \<Rightarrow> bool pm" where
  "Audio_IsCodecSupported W pCaps =
     (case caps_first pCaps of
        None \<Rightarrow> ret True
      | Some s \<Rightarrow>
          (let mimetype = st_name s;
               aac = decoder_supports W AUDIO_DECODER JFX_CODEC_ID_AAC
                       (\<lambda>p. p\<lparr>m_audioCodecErrorCode := ERROR_MEDIA_AAC_FORMAT_UNSUPPORTED\<rparr>)
           in if w_os W = TARGET_OS_WIN32 then
                if str_contains CONTENT_TYPE_MPA mimetype \<or> str_contains CONTENT_TYPE_MP3 mimetype
                then if st_int s ''mpegversion'' = Some 4 then aac else ret True
                else if str_contains CONTENT_TYPE_AAC mimetype then aac
                else ret True
              else if str_contains ''audio/unsupported'' mimetype then do {
                modify (\<lambda>p. p\<lparr>m_audioCodecErrorCode := ERROR_MEDIA_AUDIO_FORMAT_UNSUPPORTED\<rparr>);
                ret False
              } else ret True))"

definition AV_IsCodecSupported :: "world \<Rightarrow> gst_caps option \<Rightarrow> bool pm" where
  "AV_IsCodecSupported W pCaps =
     (case caps_first pCaps of
        None \<Rightarrow> Audio_IsCodecSupported W pCaps
      | Some s \<Rightarrow>
          (let mimetype = st_name s
           in if w_os W = TARGET_OS_WIN32 \<or> w_os W = TARGET_OS_LINUX then
                if str_contains ''video/x-h264'' mimetype
                then decoder_supports W VIDEO_DECODER JFX_CODEC_ID_AVC1
                       (\<lambda>p. p\<lparr>m_videoCodecErrorCode := ERROR_MEDIA_H264_FORMAT_UNSUPPORTED\<rparr>)
                else if str_contains ''video/x-h265'' mimetype
                then decoder_supports W VIDEO_DECODER JFX_CODEC_ID_H265
                       (\<lambda>p. p\<lparr>m_videoCodecErrorCode := ERROR_MEDIA_H265_FORMAT_UNSUPPORTED\<rparr>)
                else Audio_IsCodecSupported W pCaps
              else if str_contains ''video/unsupported'' mimetype then do {
                modify (\<lambda>p. p\<lparr>m_videoCodecErrorCode := ERROR_MEDIA_VIDEO_FORMAT_UNSUPPORTED\<rparr>);
                ret False
              } else Audio_IsCodecSupported W pCaps))"

definition IsCodecSupported :: "world \<Rightarrow> gst_caps option \<Rightarrow> bool pm" where
  "IsCodecSupported W pCaps = do {
     av \<leftarrow> gets is_av;
     if av then AV_IsCodecSupported W pCaps else Audio_IsCodecSupported W pCaps
   }"

definition Audio_CheckCodecSupport :: "world \<Rightarrow> bool pm" where
  "Audio_CheckCodecSupport W = do {
     hasAudio \<leftarrow> gets m_bHasAudio;
     d \<leftarrow> gets m_pEventDispatcher;
     err \<leftarrow> gets m_audioCodecErrorCode;
     if \<not> hasAudio \<and> d \<and> err \<noteq> ERROR_NONE then do { SendPlayerMediaErrorEvent W err; ret False }
     else ret True
   }"

definition AV_CheckCodecSupport :: "world \<Rightarrow> bool pm" where
  "AV_CheckCodecSupport W = do {
     hasVideo \<leftarrow> gets m_bHasVideo;
     if \<not> hasVideo then do {
       audioOk \<leftarrow> Audio_CheckCodecSupport W;
       d \<leftarrow> gets m_pEventDispatcher;
       err \<leftarrow> gets m_videoCodecErrorCode;
       if \<not> audioOk \<and> d \<and> err \<noteq> ERROR_NONE then do { SendPlayerMediaErrorEvent W err; ret False }
       else ret False
     } else Audio_CheckCodecSupport W
   }"

definition CheckCodecSupport :: "world \<Rightarrow> bool pm" where
  "CheckCodecSupport W = do {
     av \<leftarrow> gets is_av;
     if av then AV_CheckCodecSupport W else Audio_CheckCodecSupport W
   }"

definition AV_LoadDecoder :: "world \<Rightarrow> gst_caps option \<Rightarrow> bool pm" where
  "AV_LoadDecoder W pCaps =
     (if w_os W = TARGET_OS_WIN32 then do {
        bin \<leftarrow> elem VIDEO_BIN;
        if bin = None then ret False
        else (case caps_first pCaps of
          None \<Rightarrow> ret True
        | Some s \<Rightarrow>
            (let decoder = (if str_contains ''video/x-h264'' (st_name s) then Some ''dshowwrapper''
                            else if str_contains ''video/x-h265'' (st_name s) then Some ''mfwrapper'' else None)
             in case decoder of
                  None \<Rightarrow> ret False
                | Some strVideoDecoderName \<Rightarrow> do {
                    videodec \<leftarrow> ask (w_obj W) (FactoryMake strVideoDecoderName);
                    if videodec = None then ret False
                    else do {
                      perform (BinAdd bin videodec);
                      vq \<leftarrow> elem VIDEO_QUEUE;
                      vs \<leftarrow> elem VIDEO_SINK;
                      linked \<leftarrow> call W (LinkMany [vq, videodec, vs]);
                      if \<not> linked then ret False
                      else do {
                        modify (\<lambda>p. p\<lparr>m_Elements := container_add VIDEO_DECODER videodec (m_Elements p)\<rparr>);
                        ret True
                      }
                    }
                  }))
      } else ret True)"

definition LoadDecoder :: "world \<Rightarrow> gst_caps option \<Rightarrow> bool pm" where
  "LoadDecoder W pCaps = do { av \<leftarrow> gets is_av; if av then AV_LoadDecoder W pCaps else ret True }"

subsection \<open>PostBuildInit\<close>

definition AUDIO_DECODER_HAS_SINK_PROBE :: int where "AUDIO_DECODER_HAS_SINK_PROBE = 1"
definition AUDIO_DECODER_HAS_SOURCE_PROBE :: int where "AUDIO_DECODER_HAS_SOURCE_PROBE = 2"

unbundle bit_operations_syntax

text \<open>\<^verbatim>\<open>gst_element_get_static_pad\<close>, \<^verbatim>\<open>gst_pad_add_probe\<close>, \<^verbatim>\<open>gst_object_unref\<close>; \<open>False\<close> when there is no
  such pad.\<close>

definition probe_static_pad :: "world \<Rightarrow> gptr \<Rightarrow> string \<Rightarrow> probe \<Rightarrow> (int \<Rightarrow> pipe \<Rightarrow> pipe) \<Rightarrow> bool pm" where
  "probe_static_pad W e name pr store = do {
     pad \<leftarrow> ask (w_obj W) (GetStaticPad e name);
     if pad = None then ret False
     else do {
       hid \<leftarrow> ask (w_int W) (AddProbe pad pr);
       modify (store hid);
       perform (ObjUnref pad);
       ret True
     }
   }"

definition Audio_PostBuildInit :: "world \<Rightarrow> errcode pm" where
  "Audio_PostBuildInit W = do {
     hasAudio \<leftarrow> gets m_bHasAudio;
     initDone \<leftarrow> gets m_bAudioInitDone;
     if hasAudio \<and> \<not> initDone then do {
       parser \<leftarrow> elem AUDIO_PARSER;
       parserProbed \<leftarrow> (if parser \<noteq> None
         then probe_static_pad W parser ''src'' p_AudioSourcePadProbe (\<lambda>hid p. p\<lparr>m_audioSourcePadProbeHID := hid\<rparr>)
         else ret False);
       decoder \<leftarrow> elem AUDIO_DECODER;
       flags \<leftarrow> gets m_AudioFlags;
       if \<not> parserProbed \<and> decoder \<noteq> None then do {
         sinkOk \<leftarrow> (if flags AND AUDIO_DECODER_HAS_SINK_PROBE \<noteq> 0
           then probe_static_pad W decoder ''sink'' p_AudioSinkPadProbe (\<lambda>hid p. p\<lparr>m_audioSinkPadProbeHID := hid\<rparr>)
           else ret True);
         if \<not> sinkOk then ret ERROR_GSTREAMER_AUDIO_DECODER_SINK_PAD
         else do {
           srcOk \<leftarrow> (if flags AND AUDIO_DECODER_HAS_SOURCE_PROBE \<noteq> 0
             then probe_static_pad W decoder ''src'' p_AudioSourcePadProbe (\<lambda>hid p. p\<lparr>m_audioSourcePadProbeHID := hid\<rparr>)
             else ret True);
           if \<not> srcOk then ret ERROR_GSTREAMER_AUDIO_DECODER_SRC_PAD
           else do { modify (\<lambda>p. p\<lparr>m_bAudioInitDone := True\<rparr>); ret ERROR_NONE }
         }
       } else do { modify (\<lambda>p. p\<lparr>m_bAudioInitDone := True\<rparr>); ret ERROR_NONE }
     } else ret ERROR_NONE
   }"

definition AV_PostBuildInit :: "world \<Rightarrow> errcode pm" where
  "AV_PostBuildInit W = do {
     hasVideo \<leftarrow> gets m_bHasVideo;
     initDone \<leftarrow> gets m_bVideoInitDone;
     if hasVideo \<and> \<not> initDone then do {
       sink \<leftarrow> elem VIDEO_SINK;
       perform (ObjSet sink ''emit-signals'' (GBool True));
       perform (ObjSet sink ''sync'' (GBool True));
       perform (Connect sink ''new-sample'' h_OnAppSinkHaveFrame);
       perform (Connect sink ''new-preroll'' h_OnAppSinkPreroll);
       decoder \<leftarrow> elem VIDEO_DECODER;
       ok \<leftarrow> probe_static_pad W decoder ''src'' p_VideoDecoderSrcProbe (\<lambda>hid p. p\<lparr>m_videoDecoderSrcProbeHID := hid\<rparr>);
       if \<not> ok then ret ERROR_GSTREAMER_VIDEO_DECODER_SINK_PAD
       else do {
         modify (\<lambda>p. p\<lparr>m_bVideoInitDone := True\<rparr>);
         Audio_PostBuildInit W
       }
     } else Audio_PostBuildInit W
   }"

definition PostBuildInit :: "world \<Rightarrow> errcode pm" where
  "PostBuildInit W = do { av \<leftarrow> gets is_av; if av then AV_PostBuildInit W else Audio_PostBuildInit W }"

subsection \<open>Pads that appear\<close>

definition halt :: "world \<Rightarrow> string \<Rightarrow> unit pm" where
  "halt W msg = do {
     d \<leftarrow> gets m_pEventDispatcher;
     whenever d (send_or_error W (PlayerHaltEvent msg) ERROR_JNI_SEND_PLAYER_HALT_EVENT)
   }"

text \<open>The frame of the three callbacks: under the dispose lock, nothing while the object is being
  disposed of.\<close>

definition disposing :: "pipe \<Rightarrow> bool" where
  "disposing p \<longleftrightarrow> (case m_pBusCallbackContent p of None \<Rightarrow> False | Some c \<Rightarrow> m_bIsDisposeInProgress c)"

definition guarded :: "unit pm \<Rightarrow> unit pm" where
  "guarded body = do {
     deref (\<lambda>p. m_pBusCallbackContent p \<noteq> None);
     locked DisposeLock (do { d \<leftarrow> gets disposing; whenever (\<not> d) body })
   }"

definition OnParserSrcPadAdded :: "world \<Rightarrow> gptr \<Rightarrow> gptr \<Rightarrow> unit pm" where
  "OnParserSrcPadAdded W element pad = guarded (do {
     pCaps \<leftarrow> ask (w_caps W) (GetCaps pad);
     supported \<leftarrow> IsCodecSupported W pCaps;
     whenever supported (do {
       pipeline \<leftarrow> elem PIPELINE;
       bin \<leftarrow> elem AUDIO_BIN;
       added \<leftarrow> call W (BinAdd pipeline bin);
       whenever (\<not> added) (halt W ''Failed to add audio bin to pipeline!'');
       gst_element_set_state W bin GST_STATE_READY;
       peerPad \<leftarrow> ask (w_obj W) (GetStaticPad bin ''sink'');
       whenever (peerPad = None) (halt W ''Failed to retrieve audio bin sink pad!'');
       r \<leftarrow> ask (w_int W) (PadLink pad peerPad);
       whenever (r \<noteq> 0) (halt W (''Failed to link audio parser with audio bin!'' @ [CHR 0x0A]));
       whenever (peerPad \<noteq> None) (perform (ObjUnref peerPad));
       modify (\<lambda>p. p\<lparr>m_bHasAudio := True\<rparr>);
       PostBuildInit W;
       synced \<leftarrow> call W (SyncState bin);
       whenever (\<not> synced) (halt W (''Failed to start audio bin!'' @ [CHR 0x0A]))
     });
     whenever (pCaps \<noteq> None) (perform CapsUnref);
     perform (Disconnect element h_OnParserSrcPadAdded);
     CheckCodecSupport W;
     ret ()
   })"

definition GST_PAD_LINK_OK :: int where "GST_PAD_LINK_OK = 0"
definition GST_PAD_LINK_NOFORMAT :: int where "GST_PAD_LINK_NOFORMAT = - 4"

text \<open>Adding the bin of a track to the pipeline and linking it to the new pad.  The result is the sink
  pad taken and the link result; \<^verbatim>\<open>GST_PAD_LINK_OK\<close> as well when the bin fails to become ready.\<close>

definition attach_bin :: "world \<Rightarrow> gptr \<Rightarrow> gptr \<Rightarrow> ElementRole \<Rightarrow> (pipe \<Rightarrow> pipe) \<Rightarrow> (gptr \<times> int) pm" where
  "attach_bin W element pad role setHas = do {
     pipeline \<leftarrow> elem PIPELINE;
     bin \<leftarrow> elem role;
     pPad \<leftarrow> ask (w_obj W) (GetStaticPad bin ''sink'');
     perform (BinAdd pipeline bin);
     ready \<leftarrow> gst_element_set_state W bin GST_STATE_READY;
     if \<not> ready then do {
       perform (ObjRef bin);
       perform (BinRemove pipeline bin);
       perform (Disconnect element h_on_pad_added);
       perform (Disconnect element h_no_more_pads);
       ret (pPad, GST_PAD_LINK_OK)
     } else do {
       r \<leftarrow> (if pPad \<noteq> None then ask (w_int W) (PadLink pad pPad) else ret GST_PAD_LINK_OK);
       if r \<noteq> GST_PAD_LINK_OK then do {
         gst_element_set_state W bin GST_STATE_NULL;
         perform (ObjRef bin);
         perform (BinRemove pipeline bin);
         ret (pPad, r)
       } else do {
         modify setHas;
         PostBuildInit W;
         call W (SyncState bin);
         ret (pPad, r)
       }
     }
   }"

text \<open>The label \<^verbatim>\<open>Error:\<close> of \<^verbatim>\<open>on_pad_added\<close>.\<close>

definition report_link :: "world \<Rightarrow> bool \<Rightarrow> bool \<Rightarrow> int \<Rightarrow> unit pm" where
  "report_link W audio video r = do {
     d \<leftarrow> gets m_pEventDispatcher;
     whenever (r \<noteq> GST_PAD_LINK_OK \<and> d) (
       if r = GST_PAD_LINK_NOFORMAT then
         if audio then modify (\<lambda>p. p\<lparr>m_audioCodecErrorCode := ERROR_MEDIA_AUDIO_FORMAT_UNSUPPORTED\<rparr>)
         else whenever video (modify (\<lambda>p. p\<lparr>m_videoCodecErrorCode := ERROR_MEDIA_VIDEO_FORMAT_UNSUPPORTED\<rparr>))
       else if audio
       then send_or_error W (PlayerHaltEvent ''Failed to link AV parser to audio bin!'') ERROR_JNI_SEND_PLAYER_HALT_EVENT
       else whenever video (send_or_error W (PlayerHaltEvent ''Failed to link AV parser to video bin!'')
              ERROR_JNI_SEND_PLAYER_HALT_EVENT))
   }"

text \<open>What \<^verbatim>\<open>on_pad_added\<close> does for an audio or a video pad.\<close>

definition attach_track :: "world \<Rightarrow> gptr \<Rightarrow> gptr \<Rightarrow> gst_caps option \<Rightarrow> bool \<Rightarrow> bool \<Rightarrow> (gptr \<times> int) pm" where
  "attach_track W element pad pCaps audio video =
     (if audio then do {
        supported \<leftarrow> IsCodecSupported W pCaps;
        if supported then attach_bin W element pad AUDIO_BIN (\<lambda>p. p\<lparr>m_bHasAudio := True\<rparr>)
        else ret (None, GST_PAD_LINK_OK)
      } else if video then do {
        decoder \<leftarrow> elem VIDEO_DECODER;
        loaded \<leftarrow> (if w_os W = TARGET_OS_WIN32 \<and> decoder = None then LoadDecoder W pCaps else ret True);
        if \<not> loaded then ret (None, GST_PAD_LINK_OK)
        else do {
          supported \<leftarrow> IsCodecSupported W pCaps;
          if supported then attach_bin W element pad VIDEO_BIN (\<lambda>p. p\<lparr>m_bHasVideo := True\<rparr>)
          else ret (None, GST_PAD_LINK_OK)
        }
      } else ret (None, GST_PAD_LINK_OK))"

definition caps_prefix :: "string \<Rightarrow> gst_caps option \<Rightarrow> bool" where
  "caps_prefix pre pCaps = (case caps_first pCaps of None \<Rightarrow> False | Some s \<Rightarrow> prefix pre (st_name s))"

definition on_pad_added :: "world \<Rightarrow> gptr \<Rightarrow> gptr \<Rightarrow> unit pm" where
  "on_pad_added W element pad = guarded (do {
     pCaps \<leftarrow> ask (w_caps W) (GetCaps pad);
     hasAudio \<leftarrow> gets m_bHasAudio;
     let audio = caps_prefix ''audio'' pCaps;
     let video = caps_prefix ''video'' pCaps;
     if audio \<and> hasAudio then whenever (pCaps \<noteq> None) (perform CapsUnref)
     else do {
       (pPad, r) \<leftarrow> attach_track W element pad pCaps audio video;
       report_link W audio video r;
       whenever (pPad \<noteq> None) (perform (ObjUnref pPad));
       whenever (pCaps \<noteq> None) (perform CapsUnref)
     }
   })"

definition no_more_pads :: "world \<Rightarrow> gptr \<Rightarrow> unit pm" where
  "no_more_pads W element = guarded (do {
     perform (Disconnect element h_on_pad_added);
     perform (Disconnect element h_no_more_pads);
     CheckCodecSupport W;
     hasAudio \<leftarrow> gets m_bHasAudio;
     whenever (\<not> hasAudio) (modify (\<lambda>p. p\<lparr>m_bAudioSinkReady := True\<rparr>));
     hasVideo \<leftarrow> gets m_bHasVideo;
     whenever (\<not> hasVideo) (modify (\<lambda>p. p\<lparr>m_bVideoSinkReady := True\<rparr>))
   })"

lemmas codec_defs = caps_first_def decoder_supports_def Audio_IsCodecSupported_def AV_IsCodecSupported_def
  IsCodecSupported_def Audio_CheckCodecSupport_def AV_CheckCodecSupport_def CheckCodecSupport_def
  AV_LoadDecoder_def LoadDecoder_def Let_def

lemmas init_defs = probe_static_pad_def Audio_PostBuildInit_def AV_PostBuildInit_def PostBuildInit_def

lemmas pad_defs = halt_def guarded_def OnParserSrcPadAdded_def attach_bin_def attach_track_def report_link_def
  on_pad_added_def no_more_pads_def

subsection \<open>Frames, locks and the listener's view\<close>

text \<open>Fields that the pad callbacks leave alone.\<close>

locale pads_field = field +
  assumes field_codec: "F (p\<lparr>m_audioCodecErrorCode := e\<rparr>) = F p" "F (p\<lparr>m_videoCodecErrorCode := e\<rparr>) = F p"
    and field_elements: "F (p\<lparr>m_Elements := es\<rparr>) = F p"
    and field_has: "F (p\<lparr>m_bHasAudio := b\<rparr>) = F p" "F (p\<lparr>m_bHasVideo := b\<rparr>) = F p"
    and field_init: "F (p\<lparr>m_bAudioInitDone := b\<rparr>) = F p" "F (p\<lparr>m_bVideoInitDone := b\<rparr>) = F p"
    and field_hid: "F (p\<lparr>m_audioSinkPadProbeHID := i\<rparr>) = F p" "F (p\<lparr>m_audioSourcePadProbeHID := i\<rparr>) = F p"
      "F (p\<lparr>m_videoDecoderSrcProbeHID := i\<rparr>) = F p"
    and field_sinks: "F (p\<lparr>m_bAudioSinkReady := b\<rparr>) = F p" "F (p\<lparr>m_bVideoSinkReady := b\<rparr>) = F p"
begin

lemmas field_pads = field_codec field_elements field_has field_init field_hid field_sinks

lemma codec_same:
  "state_io_rel same (IsCodecSupported W c)" "state_io_rel same (CheckCodecSupport W)"
  "state_io_rel same (LoadDecoder W c)"
  unfolding codec_defs by (intro rules modifyI; simp add: same_def field_pads)+

lemma PostBuildInit_same: "state_io_rel same (PostBuildInit W)"
  unfolding init_defs by (intro rules modifyI; simp add: same_def field_pads)

lemma pads_same:
  "state_io_rel same (OnParserSrcPadAdded W e pad)" "state_io_rel same (on_pad_added W e pad)"
  "state_io_rel same (no_more_pads W e)"
  unfolding pad_defs by (intro rules modifyI codec_same PostBuildInit_same; simp add: same_def field_pads)+

end

interpretation pf_PlayerState: pads_field m_PlayerState
  by unfold_locales simp_all

interpretation pf_Pending: pads_field m_PlayerPendingState
  by unfold_locales simp_all

lemma lk_codec [jfx_lock]:
  "state_io_rel (lock_rel n) (IsCodecSupported W c)" "state_io_rel (lock_rel n) (CheckCodecSupport W)"
  "state_io_rel (lock_rel n) (LoadDecoder W c)"
  unfolding codec_defs by (intro lk_rules; simp)+

lemma lk_PostBuildInit [jfx_lock]: "state_io_rel (lock_rel n) (PostBuildInit W)"
  unfolding init_defs by (intro lk_rules; simp)

lemma lk_pads [jfx_lock]:
  "state_io_rel (lock_rel 0) (OnParserSrcPadAdded W e pad)" "state_io_rel (lock_rel 0) (on_pad_added W e pad)"
  "state_io_rel (lock_rel 0) (no_more_pads W e)"
  unfolding pad_defs by (intro lk_rules jfx_lock; simp)+

lemma calm_codec [jfx_frame]:
  "state_io_rel calm_rel (IsCodecSupported W c)" "state_io_rel calm_rel (CheckCodecSupport W)"
  "state_io_rel calm_rel (LoadDecoder W c)"
  unfolding codec_defs by (intro calm_rules; simp add: state_event_def)+

lemma calm_PostBuildInit [jfx_frame]: "state_io_rel calm_rel (PostBuildInit W)"
  unfolding init_defs by (intro calm_rules; simp add: state_event_def)

lemma calm_pads [jfx_frame]:
  "state_io_rel calm_rel (OnParserSrcPadAdded W e pad)" "state_io_rel calm_rel (on_pad_added W e pad)"
  "state_io_rel calm_rel (no_more_pads W e)"
  unfolding pad_defs by (intro calm_rules jfx_frame; simp add: state_event_def)+

subsection \<open>The bins of the tracks\<close>

text \<open>Whether \<open>bin\<close> is in the pipeline \<open>pl\<close> after the calls of a history.\<close>

definition bin_effect :: "gptr \<Rightarrow> gptr \<Rightarrow> act \<Rightarrow> bool option" where
  "bin_effect pl bin a = (case a of
      BinAdd c x \<Rightarrow> (if c = pl \<and> x = bin then Some True else None)
    | BinRemove c x \<Rightarrow> (if c = pl \<and> x = bin then Some False else None)
    | _ \<Rightarrow> None)"

fun in_pipe :: "gptr \<Rightarrow> gptr \<Rightarrow> history \<Rightarrow> bool" where
  "in_pipe pl bin [] = False"
| "in_pipe pl bin (a # h) = (case bin_effect pl bin a of Some b \<Rightarrow> b | None \<Rightarrow> in_pipe pl bin h)"

text \<open>The bin of a track is in the pipeline exactly when the object says it has that track.\<close>

definition bins_ok :: "pipe \<Rightarrow> bool" where
  "bins_ok p \<longleftrightarrow>
     in_pipe (container_get (m_Elements p) PIPELINE) (container_get (m_Elements p) AUDIO_BIN) (log p) = m_bHasAudio p \<and>
     in_pipe (container_get (m_Elements p) PIPELINE) (container_get (m_Elements p) VIDEO_BIN) (log p) = m_bHasVideo p"

text \<open>The elements the factory hands over are different objects.\<close>

definition bins_distinct :: "pipe \<Rightarrow> bool" where
  "bins_distinct p \<longleftrightarrow>
     container_get (m_Elements p) AUDIO_BIN \<noteq> container_get (m_Elements p) VIDEO_BIN \<and>
     container_get (m_Elements p) VIDEO_BIN \<noteq> container_get (m_Elements p) PIPELINE"

text \<open>Programs that do not move a bin.\<close>

definition bins_rel :: "pipe \<Rightarrow> pipe \<Rightarrow> bool" where
  "bins_rel p q \<longleftrightarrow> (bins_distinct p \<longrightarrow>
     (\<forall>r \<in> {PIPELINE, AUDIO_BIN, VIDEO_BIN}. container_get (m_Elements q) r = container_get (m_Elements p) r) \<and>
     m_bHasAudio q = m_bHasAudio p \<and> m_bHasVideo q = m_bHasVideo p \<and>
     (\<forall>r \<in> {AUDIO_BIN, VIDEO_BIN}.
       in_pipe (container_get (m_Elements p) PIPELINE) (container_get (m_Elements p) r) (log q) =
       in_pipe (container_get (m_Elements p) PIPELINE) (container_get (m_Elements p) r) (log p)))"

interpretation bins: transition bins_rel
  by unfold_locales (auto simp: bins_rel_def bins_distinct_def)

lemma bins_ask: "(\<And>pl b. bin_effect pl b a = None) \<Longrightarrow> state_io_rel bins_rel (ask q a)"
  and bins_perform: "(\<And>pl b. bin_effect pl b a = None) \<Longrightarrow> state_io_rel bins_rel (perform a)"
  by (simp_all add: io_rel_after bins_rel_def)

lemma bins_modify:
  "(\<And>p. m_Elements (f p) = m_Elements p \<and> log (f p) = log p \<and> m_bHasAudio (f p) = m_bHasAudio p \<and>
     m_bHasVideo (f p) = m_bHasVideo p) \<Longrightarrow> state_io_rel bins_rel (modify f)"
  by (simp add: io_rel_after bins_rel_def)

lemma bins_prims:
  "state_io_rel bins_rel (enter l)" "state_io_rel bins_rel (leave l)" "state_io_rel bins_rel (deref c)"
  "state_io_rel bins_rel (gst_element_set_state W e gs)" "state_io_rel bins_rel (gst_element_get_state W e)"
  "state_io_rel bins_rel (SendPlayerMediaErrorEvent W err)" "state_io_rel bins_rel (send_or_error W ev err)"
  by (simp_all add: io_rel_after bins_rel_def bin_effect_def)

lemma bins_locked: "state_io_rel bins_rel m \<Longrightarrow> state_io_rel bins_rel (locked l m)"
  unfolding locked_def by (intro bins.control bins_prims)

lemmas bins_rules = bins.control bins_prims bins_locked bins_ask bins_perform bins_modify

lemma bins_codec: "state_io_rel bins_rel (IsCodecSupported W c)" "state_io_rel bins_rel (CheckCodecSupport W)"
  unfolding codec_defs by (intro bins_rules; simp add: bin_effect_def)+

lemma bins_PostBuildInit: "state_io_rel bins_rel (PostBuildInit W)"
  unfolding init_defs by (intro bins_rules; simp add: bin_effect_def)

lemma bins_report: "state_io_rel bins_rel (report_link W a v r)"
  unfolding report_link_def by (intro bins_rules; simp)

lemma bins_LoadDecoder: "state_io_rel bins_rel (LoadDecoder W c)"
proof -
  have "bins_rel p (p\<lparr>log := BinAdd (container_get (m_Elements p) VIDEO_BIN) x # h # log p\<rparr>)"
    "bins_rel p (p\<lparr>log := LinkMany l # BinAdd (container_get (m_Elements p) VIDEO_BIN) x # h # log p\<rparr>)"
    "bins_rel p (p\<lparr>log := LinkMany l # BinAdd (container_get (m_Elements p) VIDEO_BIN) x # h # log p,
       m_Elements := container_add VIDEO_DECODER x (m_Elements p)\<rparr>)"
    if "\<And>pl b. bin_effect pl b h = None" for p x h l
    using that by (auto simp: bins_rel_def bins_distinct_def bin_effect_def)
  moreover have "bins_rel p (p\<lparr>log := FactoryMake n # log p\<rparr>)" for p n
    by (simp add: bins_rel_def bin_effect_def)
  moreover have "bin_effect pl b (FactoryMake n) = None" for pl b n by (simp add: bin_effect_def)
  ultimately show ?thesis
    by (simp add: io_rel_after LoadDecoder_def AV_LoadDecoder_def bins.refl Let_def split: option.splits)
qed

definition bins_inv :: "pipe \<Rightarrow> bool" where
  "bins_inv p \<longleftrightarrow> bins_ok p \<and> bins_distinct p"

lemma bins_invD: "state_io_rel bins_rel m \<Longrightarrow> bins_inv p \<Longrightarrow> bins_inv (after m p)"
  by (auto simp: io_rel_after bins_rel_def bins_inv_def bins_ok_def bins_distinct_def)

text \<open>The object after \<^verbatim>\<open>attach_bin\<close>, up to the calls that do not move a bin.\<close>

definition attach_log :: "world \<Rightarrow> gptr \<Rightarrow> gptr \<Rightarrow> pipe \<Rightarrow> history" where
  "attach_log W pl b p = SetState b GST_STATE_READY # BinAdd pl b # GetStaticPad b ''sink'' # log p"

lemma attach_bin_after:
  fixes role :: ElementRole and p :: pipe and W :: world and pad :: gptr
  defines "pl \<equiv> container_get (m_Elements p) PIPELINE" and "b \<equiv> container_get (m_Elements p) role"
  defines "h \<equiv> attach_log W pl b p" and "pad' \<equiv> w_obj W (log p) (GetStaticPad b ''sink'')"
  defines "lk \<equiv> (if pad' \<noteq> None then [PadLink pad pad'] else [])"
    and "r \<equiv> (if pad' \<noteq> None then w_int W h (PadLink pad pad') else 0)"
  shows "after (attach_bin W el pad role setHas) p =
    (if \<not> w_ok W (BinAdd pl b # GetStaticPad b ''sink'' # log p) (SetState b GST_STATE_READY)
     then p\<lparr>log := Disconnect el h_no_more_pads # Disconnect el h_on_pad_added # BinRemove pl b # ObjRef b # h\<rparr>
     else if r \<noteq> 0 then p\<lparr>log := BinRemove pl b # ObjRef b # SetState b GST_STATE_NULL # lk @ h\<rparr>
     else after (do { PostBuildInit W; call W (SyncState b) }) (setHas (p\<lparr>log := lk @ h\<rparr>)))"
  unfolding pl_def b_def h_def pad'_def lk_def r_def attach_log_def attach_bin_def GST_PAD_LINK_OK_def
  by simp

lemma attach_tail: "state_io_rel bins_rel (do { PostBuildInit W; call W (SyncState b) })"
  by (intro bins.control bins_PostBuildInit bins_ask) (simp add: bin_effect_def)

lemma attach_audio:
  assumes "bins_inv p" "\<not> m_bHasAudio p"
  shows "bins_inv (after (attach_bin W el pad AUDIO_BIN (\<lambda>p. p\<lparr>m_bHasAudio := True\<rparr>)) p)"
proof -
  let ?pl = "container_get (m_Elements p) PIPELINE" and ?b = "container_get (m_Elements p) AUDIO_BIN"
  have undone: "bins_inv (p\<lparr>log := Disconnect el h_no_more_pads # Disconnect el h_on_pad_added # BinRemove ?pl ?b #
      ObjRef ?b # attach_log W ?pl ?b p\<rparr>)"
    "bins_inv (p\<lparr>log := BinRemove ?pl ?b # ObjRef ?b # SetState ?b GST_STATE_NULL # (if x \<noteq> None then [PadLink pad x] else []) @ attach_log W ?pl ?b p\<rparr>)" for x
    using assms by (auto simp: bins_inv_def bins_ok_def bins_distinct_def attach_log_def bin_effect_def)
  have "bins_inv (p\<lparr>log := (if x \<noteq> None then [PadLink pad x] else []) @ attach_log W ?pl ?b p, m_bHasAudio := True\<rparr>)" for x
    using assms by (auto simp: bins_inv_def bins_ok_def bins_distinct_def attach_log_def bin_effect_def)
  note kept = bins_invD [OF attach_tail this]
  show ?thesis unfolding attach_bin_after using undone kept by (simp only: if_split) blast
qed

lemma attach_video:
  assumes "bins_inv p" "\<not> m_bHasVideo p"
  shows "bins_inv (after (attach_bin W el pad VIDEO_BIN (\<lambda>p. p\<lparr>m_bHasVideo := True\<rparr>)) p)"
proof -
  let ?pl = "container_get (m_Elements p) PIPELINE" and ?b = "container_get (m_Elements p) VIDEO_BIN"
  have undone: "bins_inv (p\<lparr>log := Disconnect el h_no_more_pads # Disconnect el h_on_pad_added # BinRemove ?pl ?b #
      ObjRef ?b # attach_log W ?pl ?b p\<rparr>)"
    "bins_inv (p\<lparr>log := BinRemove ?pl ?b # ObjRef ?b # SetState ?b GST_STATE_NULL # (if x \<noteq> None then [PadLink pad x] else []) @ attach_log W ?pl ?b p\<rparr>)" for x
    using assms by (auto simp: bins_inv_def bins_ok_def bins_distinct_def attach_log_def bin_effect_def)
  have "bins_inv (p\<lparr>log := (if x \<noteq> None then [PadLink pad x] else []) @ attach_log W ?pl ?b p, m_bHasVideo := True\<rparr>)" for x
    using assms by (auto simp: bins_inv_def bins_ok_def bins_distinct_def attach_log_def bin_effect_def)
  note kept = bins_invD [OF attach_tail this]
  show ?thesis unfolding attach_bin_after using undone kept by (simp only: if_split) blast
qed

lemma bins_has: "state_io_rel bins_rel m \<Longrightarrow> bins_inv p \<Longrightarrow>
    m_bHasAudio (after m p) = m_bHasAudio p \<and> m_bHasVideo (after m p) = m_bHasVideo p"
  by (auto simp: io_rel_after bins_rel_def bins_inv_def)

lemma attach_track_inv:
  assumes inv: "bins_inv p" and "audio \<Longrightarrow> \<not> m_bHasAudio p" "\<not> audio \<Longrightarrow> video \<Longrightarrow> \<not> m_bHasVideo p"
  shows "bins_inv (after (attach_track W e pad c audio video) p)"
proof -
  let ?load = "do { decoder \<leftarrow> elem VIDEO_DECODER;
      if w_os W = TARGET_OS_WIN32 \<and> decoder = None then LoadDecoder W c else ret True }"
  have load: "state_io_rel bins_rel ?load" by (intro bins_rules bins_LoadDecoder)
  note step = bins_invD [OF bins_codec(1)] bins_has [OF bins_codec(1)] bins_invD [OF load] bins_has [OF load]
  have "after ?load p = (if w_os W = TARGET_OS_WIN32 \<and> container_get (m_Elements p) VIDEO_DECODER = None
      then after (LoadDecoder W c) p else p)" by simp
  with step(3) [OF inv] step(4) [OF inv] have
    "w_os W = TARGET_OS_WIN32 \<Longrightarrow> container_get (m_Elements p) VIDEO_DECODER = None \<Longrightarrow>
     bins_inv (after (LoadDecoder W c) p) \<and> m_bHasVideo (after (LoadDecoder W c) p) = m_bHasVideo p"
    by simp
  with assms show ?thesis
    unfolding attach_track_def
    by (simp add: attach_audio attach_video step(1) step(2))
qed

lemma guarded_inv:
  assumes "\<And>q. bins_inv q \<Longrightarrow> log q = log p \<Longrightarrow> m_bHasAudio q = m_bHasAudio p \<Longrightarrow>
      m_bHasVideo q = m_bHasVideo p \<Longrightarrow> bins_inv (after body q)" and "bins_inv p"
  shows "bins_inv (after (guarded body) p)"
proof -
  let ?q = "after (enter DisposeLock) (after (deref (\<lambda>p. m_pBusCallbackContent p \<noteq> None)) p)"
  have "bins_inv ?q" by (intro bins_invD [OF bins_prims(1)] bins_invD [OF bins_prims(3)] assms(2))
  moreover have "log ?q = log p" "m_bHasAudio ?q = m_bHasAudio p" "m_bHasVideo ?q = m_bHasVideo p" by simp_all
  ultimately have "bins_inv (after (do { d \<leftarrow> gets disposing; whenever (\<not> d) body }) ?q)"
    using assms(1) by (simp only: run_control run_prims run_whenever split: if_split) blast
  then have "bins_inv (after (leave DisposeLock) (after (do { d \<leftarrow> gets disposing; whenever (\<not> d) body }) ?q))"
    by (rule bins_invD [OF bins_prims(2)])
  then show ?thesis by (simp only: guarded_def run_control run_locks(3))
qed

text \<open>The bins of the tracks are kept in order: if the audio and video bins are in the pipeline exactly
  when the object has that track, this is still so after a new pad was handled, whatever fails on the
  way (unsupported codec, a bin that does not become ready, a link that is refused), provided the pad
  is not a second video track.\<close>

theorem on_pad_added_bins:
  assumes "bins_inv p"
    and "\<not> (m_bHasVideo p \<and> caps_prefix ''video'' (w_caps W (log p) (GetCaps pad)))"
  shows "bins_inv (after (on_pad_added W element pad) p)"
  unfolding on_pad_added_def
proof (rule guarded_inv [OF _ assms(1)], goal_cases)
  case (1 q)
  let ?c = "w_caps W (log p) (GetCaps pad)" and ?q = "q\<lparr>log := GetCaps pad # log q\<rparr>"
  have q: "bins_inv ?q" using bins_invD [OF bins_ask [of "GetCaps pad"], of q "w_caps W"] 1(1) by (simp add: bin_effect_def)
  have unref: "state_io_rel bins_rel (whenever (?c \<noteq> None) (perform CapsUnref))"
    by (intro bins_rules) (simp add: bin_effect_def)
  have tail: "state_io_rel bins_rel (do { report_link W a v r; whenever (x \<noteq> None) (perform (ObjUnref x));
      whenever (?c \<noteq> None) (perform CapsUnref) })" for a v r x
    by (intro bins_rules bins_report) (simp_all add: bin_effect_def)
  show ?case
  proof (cases "caps_prefix ''audio'' ?c \<and> m_bHasAudio p")
    case True
    with 1 bins_invD [OF unref q] show ?thesis by simp
  next
    case False
    let ?t = "attach_track W element pad ?c (caps_prefix ''audio'' ?c) (caps_prefix ''video'' ?c)"
    have "bins_inv (after ?t ?q)"
      using False assms(2) 1 by (intro attach_track_inv q) auto
    then have "bins_inv (after (do { report_link W (caps_prefix ''audio'' ?c) (caps_prefix ''video'' ?c) (snd (result ?t ?q));
        whenever (fst (result ?t ?q) \<noteq> None) (perform (ObjUnref (fst (result ?t ?q))));
        whenever (?c \<noteq> None) (perform CapsUnref) }) (after ?t ?q))"
      by (rule bins_invD [OF tail])
    moreover have "\<not> (caps_prefix ''audio'' ?c \<and> m_bHasAudio ?q)" using False 1 by simp
    ultimately show ?thesis
      using 1(2) by (simp only: run_control run_prims Let_def split_beta if_False)
  qed
qed

definition pad_world :: "string \<Rightarrow> world" where
  "pad_world name = demo_world\<lparr>w_caps := (\<lambda>_ _. Some [\<lparr>st_name = name, st_int = Map.empty, st_bool = Map.empty,
     st_string = Map.empty, st_fraction = Map.empty\<rparr>])\<rparr>"

lemmas demo_eval = demo_world_def demo_pipe_def CGstAVPlaybackPipeline_new_def
  CGstAudioPlaybackPipeline_new_def SetEventDispatcher_def demo_elements_def container_get_def

theorem on_pad_added_bins_witness:
  "bins_inv (after (on_pad_added (pad_world ''audio/mpeg'') (Some 10) (Some 20)) demo_pipe)"
  by (rule on_pad_added_bins)
    (simp_all add: bins_inv_def bins_ok_def bins_distinct_def pad_world_def demo_eval)

text \<open>A second audio track is ignored: the handler only reads the caps of its pad and releases them, and
  nothing else of the object changes.\<close>

theorem second_audio_track_ignored:
  assumes "m_bHasAudio p" "caps_prefix ''audio'' (w_caps W (log p) (GetCaps pad))" "m_pBusCallbackContent p \<noteq> None"
    and "\<not> disposing p" "held p = []" "\<not> bad_lock p"
  shows "after (on_pad_added W element pad) p = p\<lparr>log := CapsUnref # GetCaps pad # log p\<rparr>"
proof -
  have "w_caps W (log p) (GetCaps pad) \<noteq> None" using assms(2)
    by (cases "w_caps W (log p) (GetCaps pad)") (simp_all add: caps_prefix_def caps_first_def)
  moreover have "disposing (p\<lparr>held := hs, bad_lock := b\<rparr>) = disposing p" "disposing (p\<lparr>held := hs\<rparr>) = disposing p" for hs b
    by (simp_all add: disposing_def)
  ultimately show ?thesis
    using assms by (simp add: on_pad_added_def guarded_def may_enter_def)
qed

theorem second_audio_track_ignored_witness:
  "let p = demo_pipe\<lparr>m_bHasAudio := True, m_pBusCallbackContent := Some \<lparr>m_bIsDisposed = False,
       m_bIsDisposeInProgress = False, m_bFreeMe = False, freed = 0\<rparr>\<rparr>
   in after (on_pad_added (pad_world ''audio/mpeg'') (Some 10) (Some 20)) p =
      p\<lparr>log := CapsUnref # GetCaps (Some 20) # log p\<rparr>"
  unfolding Let_def
  by (rule second_audio_track_ignored)
    (simp_all add: caps_prefix_def caps_first_def gst_caps_get_structure0_def pad_world_def disposing_def demo_eval)

text \<open>A second video track is not ignored: when its pad cannot be linked to the video bin, which already
  has a peer, the handler takes the bin of the first track out of the pipeline, while the object still
  says that it has video.\<close>

theorem second_video_track_breaks:
  assumes "m_bHasVideo p" "w_ok W (BinAdd pl b # GetStaticPad b ''sink'' # log p) (SetState b GST_STATE_READY)"
    and "pl = container_get (m_Elements p) PIPELINE" "b = container_get (m_Elements p) VIDEO_BIN"
    and "w_obj W (log p) (GetStaticPad b ''sink'') = Some x"
    and "w_int W (SetState b GST_STATE_READY # BinAdd pl b # GetStaticPad b ''sink'' # log p) (PadLink pad (Some x)) \<noteq> GST_PAD_LINK_OK"
  shows "let q = after (attach_bin W element pad VIDEO_BIN (\<lambda>p. p\<lparr>m_bHasVideo := True\<rparr>)) p
    in m_bHasVideo q \<and> \<not> in_pipe pl b (log q) \<and> \<not> bins_ok q"
proof -
  have "after (attach_bin W element pad VIDEO_BIN (\<lambda>p. p\<lparr>m_bHasVideo := True\<rparr>)) p =
      p\<lparr>log := BinRemove pl b # ObjRef b # SetState b GST_STATE_NULL # PadLink pad (Some x) # attach_log W pl b p\<rparr>"
    unfolding attach_bin_after assms(3,4) [symmetric] attach_log_def
    using assms(2,5,6) by (simp only: GST_PAD_LINK_OK_def) simp
  with assms(1,3,4) show ?thesis by (simp add: bin_effect_def bins_ok_def)
qed

theorem second_video_track_breaks_witness:
  "\<not> bins_ok (after (attach_bin (demo_world\<lparr>w_int := \<lambda>_ _. - 2\<rparr>) (Some 10) (Some 20) VIDEO_BIN (\<lambda>p. p\<lparr>m_bHasVideo := True\<rparr>))
     (demo_pipe\<lparr>m_bHasVideo := True\<rparr>))"
proof -
  have "let q = after (attach_bin (demo_world\<lparr>w_int := \<lambda>_ _. - 2\<rparr>) (Some 10) (Some 20) VIDEO_BIN
        (\<lambda>p. p\<lparr>m_bHasVideo := True\<rparr>)) (demo_pipe\<lparr>m_bHasVideo := True\<rparr>)
      in m_bHasVideo q \<and> \<not> in_pipe (Some 1) (Some 9) (log q) \<and> \<not> bins_ok q"
    by (rule second_video_track_breaks [where x = 99]) (simp_all add: demo_eval GST_PAD_LINK_OK_def)
  then show ?thesis unfolding Let_def by blast
qed

subsection \<open>Reports about codecs\<close>

text \<open>Which error the end of the pad list reports: an unsupported audio codec when there is no audio
  track, and an unsupported video codec only if, in addition, an audio error was reported.  A file
  whose only track is a video of an unsupported codec is therefore reported to nobody.\<close>

theorem AV_CheckCodecSupport_reports:
  assumes "m_pEventDispatcher p" "\<not> m_bHasVideo p"
  shows "log (after (AV_CheckCodecSupport W) p) =
    (if \<not> m_bHasAudio p \<and> m_audioCodecErrorCode p \<noteq> ERROR_NONE
     then (if m_videoCodecErrorCode p \<noteq> ERROR_NONE then [Emit (PlayerMediaErrorEvent (m_videoCodecErrorCode p))] else []) @
          [Emit (PlayerMediaErrorEvent (m_audioCodecErrorCode p))]
     else []) @ log p \<and> result (AV_CheckCodecSupport W) p = False"
  using assms by (simp add: AV_CheckCodecSupport_def Audio_CheckCodecSupport_def)

theorem AV_CheckCodecSupport_reports_witness:
  "log (after (AV_CheckCodecSupport demo_world) (demo_pipe\<lparr>m_videoCodecErrorCode := ERROR_MEDIA_H265_FORMAT_UNSUPPORTED\<rparr>)) = log demo_pipe"
  using AV_CheckCodecSupport_reports [of "demo_pipe\<lparr>m_videoCodecErrorCode := ERROR_MEDIA_H265_FORMAT_UNSUPPORTED\<rparr>" demo_world]
  by (simp add: demo_eval)

end
