(* ===== verification/Track_Probes.thy ===== *)
theory Track_Probes
  imports Dynamic_Pads
begin

text \<open>
  The probes that find out about the tracks of a medium and report them to the listener:
  \<^verbatim>\<open>SendTrackEvent\<close>, \<^verbatim>\<open>AudioSinkPadProbe\<close>, \<^verbatim>\<open>AudioSourcePadProbe\<close>
  (\<^verbatim>\<open>GstAudioPlaybackPipeline.cpp\<close>) and \<^verbatim>\<open>VideoDecoderSrcProbe\<close> (\<^verbatim>\<open>GstAVPlaybackPipeline.cpp\<close>).
  The argument \<open>isBuffer\<close> of a probe says whether it was called with a buffer.
\<close>

subsection \<open>Operations\<close>

datatype GstPadProbeReturn = GST_PAD_PROBE_OK | GST_PAD_PROBE_REMOVE

abbreviation DEFAULT_AUDIO_TRACK_ID :: int where "DEFAULT_AUDIO_TRACK_ID \<equiv> 0"
abbreviation DEFAULT_VIDEO_TRACK_ID :: int where "DEFAULT_VIDEO_TRACK_ID \<equiv> 1"

definition FRONT_LEFT :: int where "FRONT_LEFT = 0x01"
definition FRONT_RIGHT :: int where "FRONT_RIGHT = 0x02"
definition FRONT_CENTER :: int where "FRONT_CENTER = 0x04"
definition REAR_LEFT :: int where "REAR_LEFT = 0x08"
definition REAR_RIGHT :: int where "REAR_RIGHT = 0x10"

text \<open>The encoding \<^verbatim>\<open>SendTrackEvent\<close> derives from the caps.  The last test of the source is
  \<^verbatim>\<open>if (mimeType.find(CONTENT_TYPE_AAC))\<close>: the position is used as a truth value, so it fails exactly
  at position 0 and succeeds for \<^verbatim>\<open>npos\<close>.\<close>

definition track_encoding :: "AudioTrackInfo \<Rightarrow> Encoding" where
  "track_encoding info =
     (if str_contains ''audio/x-raw'' (mimeType info) then PCM
      else if str_contains CONTENT_TYPE_MPA (mimeType info) \<or> str_contains CONTENT_TYPE_MP3 (mimeType info)
      then if mpegversion info = 1 then (if layer info = 3 then MPEG1LAYER3 else MPEG1AUDIO)
           else if mpegversion info = 4 then AAC
           else CUSTOM
      else if str_find CONTENT_TYPE_AAC (mimeType info) \<noteq> Some 0 then AAC
      else CUSTOM)"

definition channel_mask :: "int \<Rightarrow> int" where
  "channel_mask n =
     (if n = 1 then FRONT_CENTER
      else if n = 2 then FRONT_RIGHT OR FRONT_LEFT
      else if n = 4 then FRONT_RIGHT OR FRONT_LEFT OR REAR_RIGHT OR REAR_LEFT
      else 0)"

definition SendTrackEvent :: "world \<Rightarrow> unit pm" where
  "SendTrackEvent W = do {
     d \<leftarrow> gets m_pEventDispatcher;
     info \<leftarrow> gets m_AudioTrackInfo;
     whenever d (send_or_error W (AudioTrackEvent
       \<lparr>at_id = trackID info, at_name = mimeType info, at_encoding = track_encoding info,
        at_enabled = trackEnabled info, at_language = ''und'', at_channels = channels info,
        at_channelMask = channel_mask (channels info), at_sampleRate = rate info\<rparr>)
       ERROR_JNI_SEND_AUDIO_TRACK_EVENT)
   }"

text \<open>\<^verbatim>\<open>gst_structure_get_int(s, field, &member)\<close>.\<close>

definition int_field :: "gst_structure \<Rightarrow> string \<Rightarrow> int \<Rightarrow> int" where
  "int_field s f old = (case st_int s f of None \<Rightarrow> old | Some v \<Rightarrow> v)"

definition sink_track_info :: "CPipelineOptions \<Rightarrow> gst_structure \<Rightarrow> AudioTrackInfo \<Rightarrow> AudioTrackInfo" where
  "sink_track_info opts s info =
     (let enabled = (case st_bool s ''track_enabled'' of None \<Rightarrow> True | Some b \<Rightarrow> b);
          trackid = (if ForceDefaultTrackID opts \<or> \<not> st_has_int s ''track_id'' then DEFAULT_AUDIO_TRACK_ID
                     else int_field s ''track_id'' 0);
          info = info\<lparr>mimeType := st_name s, trackEnabled := enabled, trackID := trackid,
                      channels := int_field s ''channels'' (channels info), rate := int_field s ''rate'' (rate info)\<rparr>
      in if str_contains ''mpeg'' (st_name s)
         then info\<lparr>mpegversion := int_field s ''mpegversion'' (mpegversion info), layer := int_field s ''layer'' (layer info)\<rparr>
         else info)"

definition sink_info_ready :: "gst_structure \<Rightarrow> bool" where
  "sink_info_ready s \<longleftrightarrow> st_has_int s ''channels'' \<and> st_has_int s ''rate'' \<and>
     (str_contains ''mpeg'' (st_name s) \<longrightarrow> st_has_int s ''mpegversion'')"

definition AudioSinkPadProbe :: "world \<Rightarrow> gptr \<Rightarrow> bool \<Rightarrow> GstPadProbeReturn pm" where
  "AudioSinkPadProbe W pPad isBuffer =
     (if \<not> isBuffer then ret GST_PAD_PROBE_OK
      else do {
        pCaps \<leftarrow> ask (w_caps W) (GetCaps pPad);
        (case caps_first pCaps of
           None \<Rightarrow> do { whenever (pCaps \<noteq> None) (perform CapsUnref); ret GST_PAD_PROBE_OK }
         | Some s \<Rightarrow> do {
             modify (\<lambda>p. p\<lparr>m_AudioTrackInfo := sink_track_info (m_pOptions p) s (m_AudioTrackInfo p)\<rparr>);
             whenever (sink_info_ready s) (do {
               SendTrackEvent W;
               hid \<leftarrow> gets m_audioSourcePadProbeHID;
               whenever (hid \<noteq> 0) (do {
                 decoder \<leftarrow> elem AUDIO_DECODER;
                 srcPad \<leftarrow> ask (w_obj W) (GetStaticPad decoder ''src'');
                 perform (RemoveProbe srcPad hid);
                 perform (ObjUnref srcPad)
               })
             });
             perform CapsUnref;
             ret GST_PAD_PROBE_REMOVE
           })
      })"

definition source_track_info :: "gst_structure \<Rightarrow> AudioTrackInfo \<Rightarrow> AudioTrackInfo" where
  "source_track_info s info =
     (let info = (if mimeType info = [] then info\<lparr>mimeType := st_name s\<rparr> else info);
          info = (if channels info < 0 then info\<lparr>channels := int_field s ''channels'' (channels info)\<rparr> else info);
          info = (if rate info < 0 then info\<lparr>rate := int_field s ''rate'' (rate info)\<rparr> else info)
      in if str_contains ''mpeg'' (mimeType info)
         then let info = (if mpegversion info < 0
                          then info\<lparr>mpegversion := int_field s ''mpegversion'' (mpegversion info)\<rparr> else info)
              in (if layer info < 0 then info\<lparr>layer := int_field s ''layer'' (layer info)\<rparr> else info)
         else info)"

definition AudioSourcePadProbe :: "world \<Rightarrow> gptr \<Rightarrow> bool \<Rightarrow> GstPadProbeReturn pm" where
  "AudioSourcePadProbe W pPad isBuffer =
     (if \<not> isBuffer then ret GST_PAD_PROBE_OK
      else do {
        pCaps \<leftarrow> ask (w_caps W) (GetCaps pPad);
        (case caps_first pCaps of
           None \<Rightarrow> do { whenever (pCaps \<noteq> None) (perform CapsUnref); ret GST_PAD_PROBE_OK }
         | Some s \<Rightarrow> do {
             modify (\<lambda>p. p\<lparr>m_AudioTrackInfo := source_track_info s (m_AudioTrackInfo p)\<rparr>);
             SendTrackEvent W;
             perform CapsUnref;
             ret GST_PAD_PROBE_REMOVE
           })
      })"

definition SetEncodedVideoFrameRate :: "real \<Rightarrow> unit pm" where
  "SetEncodedVideoFrameRate frameRate = modify (\<lambda>p. p\<lparr>m_EncodedVideoFrameRate := frameRate\<rparr>)"

definition video_encoding :: "string \<Rightarrow> Encoding" where
  "video_encoding strMimeType =
     (if str_contains ''video/x-h264'' strMimeType then H264
      else if str_contains ''video/x-h265'' strMimeType then H265 else CUSTOM)"

text \<open>Width, height and frame rate of the decoded video, when the caps have all of them.\<close>

definition video_geometry :: "gst_structure \<Rightarrow> (int \<times> int \<times> real) option" where
  "video_geometry s =
     (case (st_int s ''width'', st_int s ''height'', st_fraction s ''framerate'') of
        (Some w, Some h, Some (num, denom)) \<Rightarrow>
          (if denom = 0 then None else Some (w, h, of_int num / of_int denom))
      | _ \<Rightarrow> None)"

text \<open>When the decoder has no sink pad, the caps of its source pad, already released, are released again
  at the exit.\<close>

definition VideoDecoderSrcProbe :: "world \<Rightarrow> gptr \<Rightarrow> bool \<Rightarrow> GstPadProbeReturn pm" where
  "VideoDecoderSrcProbe W pPad isBuffer = do {
     d \<leftarrow> gets m_pEventDispatcher;
     if \<not> d then ret GST_PAD_PROBE_REMOVE
     else if \<not> isBuffer then ret GST_PAD_PROBE_OK
     else do {
       pCaps \<leftarrow> ask (w_caps W) (GetCaps pPad);
       (case Option.bind (caps_first pCaps) video_geometry of
          None \<Rightarrow> do { whenever (pCaps \<noteq> None) (perform CapsUnref); ret GST_PAD_PROBE_OK }
        | Some (width, height, frameRate) \<Rightarrow> do {
            SetEncodedVideoFrameRate frameRate;
            perform CapsUnref;
            decoder \<leftarrow> elem VIDEO_DECODER;
            pSinkPad \<leftarrow> ask (w_obj W) (GetStaticPad decoder ''sink'');
            if pSinkPad = None then do { perform CapsUnref; ret GST_PAD_PROBE_OK }
            else do {
              pCaps2 \<leftarrow> ask (w_caps W) (GetCaps pSinkPad);
              (case caps_first pCaps2 of
                 None \<Rightarrow> do {
                   whenever (pCaps2 \<noteq> None) (perform CapsUnref);
                   perform (ObjUnref pSinkPad);
                   ret GST_PAD_PROBE_OK
                 }
               | Some s \<Rightarrow> do {
                   opts \<leftarrow> gets m_pOptions;
                   let enabled = (case st_bool s ''track_enabled'' of None \<Rightarrow> True | Some b \<Rightarrow> b);
                   let trackid = (if ForceDefaultTrackID opts \<or> \<not> st_has_int s ''track_id'' then DEFAULT_VIDEO_TRACK_ID
                                  else int_field s ''track_id'' 0);
                   send_or_error W (VideoTrackEvent
                     \<lparr>vt_id = trackid, vt_name = st_name s, vt_encoding = video_encoding (st_name s), vt_enabled = enabled,
                      vt_width = width, vt_height = height, vt_frameRate = frameRate, vt_hasAlpha = False\<rparr>)
                     ERROR_JNI_SEND_VIDEO_TRACK_EVENT;
                   perform CapsUnref;
                   perform (ObjUnref pSinkPad);
                   ret GST_PAD_PROBE_REMOVE
                 })
            }
          })
     }
   }"

lemmas probe_defs = SendTrackEvent_def AudioSinkPadProbe_def AudioSourcePadProbe_def
  SetEncodedVideoFrameRate_def VideoDecoderSrcProbe_def

subsection \<open>Frames, locks and the listener's view\<close>

lemma lk_probes [jfx_lock]:
  "state_io_rel (lock_rel n) (AudioSinkPadProbe W pad b)" "state_io_rel (lock_rel n) (AudioSourcePadProbe W pad b)"
  "state_io_rel (lock_rel n) (VideoDecoderSrcProbe W pad b)"
  unfolding probe_defs by (intro lk_rules; simp)+

lemma calm_probes [jfx_frame]:
  "state_io_rel calm_rel (AudioSinkPadProbe W pad b)" "state_io_rel calm_rel (AudioSourcePadProbe W pad b)"
  "state_io_rel calm_rel (VideoDecoderSrcProbe W pad b)"
  unfolding probe_defs by (intro calm_rules; simp add: state_event_def)+

subsection \<open>Encodings\<close>

text \<open>For caps that are neither raw audio nor MPEG audio, the reported encoding is the wrong way round:
  a track of type \<^verbatim>\<open>audio/aac\<close> is reported as \<^verbatim>\<open>CUSTOM\<close>, and every type that does not begin with
  \<^verbatim>\<open>audio/aac\<close> as \<^verbatim>\<open>AAC\<close>.\<close>

theorem track_encoding_inverted:
  assumes "\<not> str_contains ''audio/x-raw'' (mimeType info)" "\<not> str_contains CONTENT_TYPE_MPA (mimeType info)"
    "\<not> str_contains CONTENT_TYPE_MP3 (mimeType info)"
  shows "track_encoding info = (if prefix CONTENT_TYPE_AAC (mimeType info) then CUSTOM else AAC)"
  using assms by (simp add: track_encoding_def str_find_0_iff)

theorem track_encoding_inverted_witness:
  "track_encoding (AudioTrackInfo_new\<lparr>mimeType := ''audio/aac''\<rparr>) = CUSTOM \<and>
   track_encoding (AudioTrackInfo_new\<lparr>mimeType := ''audio/x-vorbis''\<rparr>) = AAC"
  using track_encoding_inverted [of "AudioTrackInfo_new\<lparr>mimeType := ''audio/aac''\<rparr>"]
    track_encoding_inverted [of "AudioTrackInfo_new\<lparr>mimeType := ''audio/x-vorbis''\<rparr>"]
  by (simp add: str_contains_def content_type_defs)

subsection \<open>Audio track information\<close>

text \<open>When the caps of the decoder's input tell everything, the sink probe reports the track once, with
  the caps' data, takes the source probe away, if there is one, and removes itself.\<close>

theorem AudioSinkPadProbe_reports:
  assumes "w_caps W (log p) (GetCaps pad) = Some (s # rest)" "sink_info_ready s"
    and "m_pEventDispatcher p" "\<And>h a. w_ok W h a"
  defines "info \<equiv> sink_track_info (m_pOptions p) s (m_AudioTrackInfo p)"
  shows "result (AudioSinkPadProbe W pad True) p = GST_PAD_PROBE_REMOVE \<and>
    m_AudioTrackInfo (after (AudioSinkPadProbe W pad True) p) = info \<and>
    (\<exists>h. log (after (AudioSinkPadProbe W pad True) p) = CapsUnref # h @
       Emit (AudioTrackEvent \<lparr>at_id = trackID info, at_name = st_name s, at_encoding = track_encoding info,
         at_enabled = trackEnabled info, at_language = ''und'', at_channels = the (st_int s ''channels''),
         at_channelMask = channel_mask (the (st_int s ''channels'')), at_sampleRate = the (st_int s ''rate'')\<rparr>) #
       GetCaps pad # log p \<and>
       ((\<exists>x. RemoveProbe x (m_audioSourcePadProbeHID p) \<in> set h) \<longleftrightarrow> m_audioSourcePadProbeHID p \<noteq> 0))"
proof -
  have info: "mimeType info = st_name s" "channels info = the (st_int s ''channels'')" "rate info = the (st_int s ''rate'')"
    using assms(2) by (auto simp: info_def sink_track_info_def sink_info_ready_def st_has_int_def int_field_def Let_def)
  show ?thesis
    using assms(1-4) unfolding info(1) [symmetric] info(2,3) [symmetric]
    by (cases "m_audioSourcePadProbeHID p = 0")
      (simp_all add: AudioSinkPadProbe_def SendTrackEvent_def caps_first_def gst_caps_get_structure0_def info_def [symmetric])
qed

definition mp3_structure :: gst_structure where
  "mp3_structure = \<lparr>st_name = ''audio/mpeg'', st_int = [''channels'' \<mapsto> 2, ''rate'' \<mapsto> 44100, ''mpegversion'' \<mapsto> 1,
     ''layer'' \<mapsto> 3], st_bool = Map.empty, st_string = Map.empty, st_fraction = Map.empty\<rparr>"

theorem AudioSinkPadProbe_reports_witness:
  "result (AudioSinkPadProbe (demo_world\<lparr>w_caps := \<lambda>_ _. Some [mp3_structure]\<rparr>) (Some 20) True) demo_pipe = GST_PAD_PROBE_REMOVE"
  using AudioSinkPadProbe_reports [of "demo_world\<lparr>w_caps := \<lambda>_ _. Some [mp3_structure]\<rparr>" demo_pipe "Some 20" mp3_structure "[]"]
  by (simp add: sink_info_ready_def st_has_int_def mp3_structure_def demo_eval)

text \<open>The source probe only completes: whatever the sink probe learned about the track (type, channels,
  rate, version and layer, in so far as they are known) is kept.\<close>

theorem source_track_info_completes:
  shows "(mimeType info \<noteq> [] \<longrightarrow> mimeType (source_track_info s info) = mimeType info) \<and>
    (0 \<le> channels info \<longrightarrow> channels (source_track_info s info) = channels info) \<and>
    (0 \<le> rate info \<longrightarrow> rate (source_track_info s info) = rate info) \<and>
    (0 \<le> mpegversion info \<longrightarrow> mpegversion (source_track_info s info) = mpegversion info) \<and>
    (0 \<le> layer info \<longrightarrow> layer (source_track_info s info) = layer info) \<and>
    trackID (source_track_info s info) = trackID info \<and> trackEnabled (source_track_info s info) = trackEnabled info"
  by (simp add: source_track_info_def Let_def)

subsection \<open>The video probe\<close>

definition count_act :: "act \<Rightarrow> history \<Rightarrow> nat" where
  "count_act a h = length (filter (\<lambda>x. x = a) h)"

text \<open>When the decoder has no sink pad, the video probe releases the caps of its source pad twice,
  although it took them once.\<close>

theorem VideoDecoderSrcProbe_double_unref:
  assumes "m_pEventDispatcher p" "w_caps W (log p) (GetCaps pad) = Some (s # rest)" "video_geometry s = Some g"
    and "\<And>h. w_obj W h (GetStaticPad (container_get (m_Elements p) VIDEO_DECODER) ''sink'') = None"
  shows "log (after (VideoDecoderSrcProbe W pad True) p) =
    [CapsUnref, GetStaticPad (container_get (m_Elements p) VIDEO_DECODER) ''sink'', CapsUnref, GetCaps pad] @ log p"
  using assms
  by (cases g) (simp add: VideoDecoderSrcProbe_def SetEncodedVideoFrameRate_def caps_first_def gst_caps_get_structure0_def)

definition video_structure :: gst_structure where
  "video_structure = \<lparr>st_name = ''video/x-h264'', st_int = [''width'' \<mapsto> 640, ''height'' \<mapsto> 480], st_bool = Map.empty,
     st_string = Map.empty, st_fraction = [''framerate'' \<mapsto> (25, 1)]\<rparr>"

theorem VideoDecoderSrcProbe_double_unref_witness:
  "count_act CapsUnref (log (after (VideoDecoderSrcProbe
     (demo_world\<lparr>w_caps := \<lambda>_ _. Some [video_structure], w_obj := \<lambda>_ _. None\<rparr>) (Some 20) True) demo_pipe)) = 2"
  using VideoDecoderSrcProbe_double_unref [of demo_pipe
      "demo_world\<lparr>w_caps := \<lambda>_ _. Some [video_structure], w_obj := \<lambda>_ _. None\<rparr>" "Some 20" video_structure "[]" "(640, 480, 25)"]
  by (simp add: count_act_def video_geometry_def video_structure_def demo_eval)

text \<open>With a listener, the video probe removes itself exactly when it has reported the track.\<close>

lemma VideoDecoderSrcProbe_removed:
  assumes "m_pEventDispatcher p"
  shows "(result (VideoDecoderSrcProbe W pad b) p = GST_PAD_PROBE_REMOVE) =
    (\<exists>t. Emit (VideoTrackEvent t) \<in> set (take (length (log (after (VideoDecoderSrcProbe W pad b) p)) - length (log p))
        (log (after (VideoDecoderSrcProbe W pad b) p))))"
  using assms
  by (auto simp: VideoDecoderSrcProbe_def SetEncodedVideoFrameRate_def Let_def split: option.split)

end
