(* ===== verification/Video_Sink.thy ===== *)
theory Video_Sink
  imports Track_Probes
begin

text \<open>
  The callbacks of the video sink (\<^verbatim>\<open>GstAVPlaybackPipeline.cpp\<close>): \<^verbatim>\<open>OnAppSinkHaveFrame\<close>,
  \<^verbatim>\<open>OnAppSinkPreroll\<close> and \<^verbatim>\<open>OnAppSinkVideoFrameDiscont\<close>.  The parameter \<open>u\<close> gives the values of
  the members that the frame constructor leaves uninitialised.
\<close>

subsection \<open>Operations\<close>

text \<open>Reading one dimension; a missing one is reported through the dispatcher, which is not tested.\<close>

definition frame_dimension :: "world \<Rightarrow> gst_structure \<Rightarrow> string \<Rightarrow> int pm" where
  "frame_dimension W str f =
     (case st_int str f of
        Some v \<Rightarrow> ret v
      | None \<Rightarrow> do {
          deref m_pEventDispatcher;
          perform (Emit (Warning WARNING_GSTREAMER_PIPELINE_FRAME_SIZE));
          ret 0
        })"

definition OnAppSinkVideoFrameDiscont :: "world \<Rightarrow> gst_sample \<Rightarrow> unit pm" where
  "OnAppSinkVideoFrameDiscont W pSample =
     (case Option.bind (smp_caps pSample) gst_caps_get_structure0 of
        None \<Rightarrow> ret ()
      | Some str \<Rightarrow> do {
          width \<leftarrow> frame_dimension W str ''width'';
          height \<leftarrow> frame_dimension W str ''height'';
          send \<leftarrow> gets (\<lambda>p. m_SendFrameSizeEvent p \<or> width \<noteq> m_FrameWidth p \<or> height \<noteq> m_FrameHeight p);
          whenever send (do {
            modify (\<lambda>p. p\<lparr>m_FrameWidth := width, m_FrameHeight := height\<rparr>);
            d \<leftarrow> gets m_pEventDispatcher;
            if d then do {
              ok \<leftarrow> call W (Emit (FrameSizeChangedEvent width height));
              modify (\<lambda>p. p\<lparr>m_SendFrameSizeEvent := \<not> ok\<rparr>);
              whenever (\<not> ok) (SendPlayerMediaErrorEvent W ERROR_JNI_SEND_FRAME_SIZE_CHANGED_EVENT)
            } else modify (\<lambda>p. p\<lparr>m_SendFrameSizeEvent := True\<rparr>)
          })
        })"

text \<open>Moving the timestamps so that the first buffer is at time 0.\<close>

definition rebase_pts :: "u64 \<Rightarrow> gst_buffer \<Rightarrow> gst_buffer" where
  "rebase_pts first b =
     (if first \<noteq> GST_CLOCK_TIME_NONE \<and> GST_BUFFER_TIMESTAMP_IS_VALID b \<and> first \<le> buf_pts b
      then b\<lparr>buf_pts := buf_pts b - first\<rparr> else b)"

text \<open>Handing a frame to the listener, who owns it from then on.\<close>

definition send_frame :: "world \<Rightarrow> CGstVideoFrame \<Rightarrow> unit pm" where
  "send_frame W frame = send_or_error W (NewFrameEvent frame) ERROR_JNI_SEND_NEW_FRAME_EVENT"

definition OnAppSinkHaveFrame :: "world \<Rightarrow> bool \<times> addr \<times> ulong \<Rightarrow> gptr \<Rightarrow> unit pm" where
  "OnAppSinkHaveFrame W u pElem = do {
     pulled \<leftarrow> ask (w_sample W) (PullSample pElem);
     (case pulled of
        None \<Rightarrow> ret ()
      | Some pSample \<Rightarrow>
          (case smp_buffer pSample of
             None \<Rightarrow> perform SampleUnref
           | Some pBuffer \<Rightarrow> do {
               send \<leftarrow> gets m_SendFrameSizeEvent;
               whenever (send \<or> buf_discont pBuffer) (OnAppSinkVideoFrameDiscont W pSample);
               first \<leftarrow> gets m_FirstPTS;
               let sample = pSample\<lparr>smp_buffer := Some (rebase_pts first pBuffer)\<rparr>;
               let (a0, b0, s0) = u;
               let (ok, pVideoFrame) = frame_Init sample (CGstVideoFrame_new a0 b0 s0);
               if \<not> ok then do { perform SampleUnref; perform (DeleteObject ''CGstVideoFrame'') }
               else do {
                 d \<leftarrow> gets m_pEventDispatcher;
                 (if IsValid pVideoFrame \<and> d then send_frame W pVideoFrame
                  else do {
                    perform (DeleteObject ''CGstVideoFrame'');
                    whenever d (perform (Emit (Warning WARNING_GSTREAMER_INVALID_FRAME)))
                  });
                 perform SampleUnref
               }
             }))
   }"

definition OnAppSinkPreroll :: "world \<Rightarrow> bool \<times> addr \<times> ulong \<Rightarrow> gptr \<Rightarrow> unit pm" where
  "OnAppSinkPreroll W u pElem = do {
     pulled \<leftarrow> ask (w_sample W) (PullPreroll pElem);
     (case pulled of
        None \<Rightarrow> perform SampleUnref
      | Some pSample \<Rightarrow>
          (case smp_buffer pSample of
             None \<Rightarrow> perform SampleUnref
           | Some pBuffer \<Rightarrow> do {
               modify (\<lambda>p. if m_FirstPTS p = GST_CLOCK_TIME_NONE \<and> GST_BUFFER_TIMESTAMP_IS_VALID pBuffer
                           then p\<lparr>m_FirstPTS := buf_pts pBuffer\<rparr> else p);
               send \<leftarrow> gets m_SendFrameSizeEvent;
               whenever (send \<or> buf_discont pBuffer) (OnAppSinkVideoFrameDiscont W pSample);
               d \<leftarrow> gets m_pEventDispatcher;
               if d then do {
                 first \<leftarrow> gets m_FirstPTS;
                 let sample = pSample\<lparr>smp_buffer := Some (rebase_pts first pBuffer)\<rparr>;
                 let (a0, b0, s0) = u;
                 let (ok, pVideoFrame) = frame_Init sample (CGstVideoFrame_new a0 b0 s0);
                 if \<not> ok then do { perform SampleUnref; perform (DeleteObject ''CGstVideoFrame'') }
                 else do {
                   (if IsValid pVideoFrame then send_frame W pVideoFrame
                    else do {
                      perform (DeleteObject ''CGstVideoFrame'');
                      perform (Emit (Warning WARNING_GSTREAMER_INVALID_FRAME))
                    });
                   perform SampleUnref
                 }
               } else perform SampleUnref
             }))
   }"

lemmas sink_defs = frame_dimension_def OnAppSinkVideoFrameDiscont_def send_frame_def OnAppSinkHaveFrame_def
  OnAppSinkPreroll_def

lemma lk_sink [jfx_lock]:
  "state_io_rel (lock_rel n) (OnAppSinkHaveFrame W u e)" "state_io_rel (lock_rel n) (OnAppSinkPreroll W u e)"
  unfolding sink_defs by (intro lk_rules; simp)+

lemma calm_sink [jfx_frame]:
  "state_io_rel calm_rel (OnAppSinkHaveFrame W u e)" "state_io_rel calm_rel (OnAppSinkPreroll W u e)"
  unfolding sink_defs by (intro calm_rules; simp add: state_event_def)+

subsection \<open>Only frames that are safe to read reach the listener\<close>

lemma frame_Init_planes:
  assumes "fst (frame_Init s f)" "IsValid (snd (frame_Init s f))" "i < unat (m_uiPlaneCount (snd (frame_Init s f)))"
  shows "plane_in_buffer (snd (frame_Init s f)) i"
proof -
  from assms(1) obtain str g where "snd (frame_Init s f) = SetFrameCaps str g"
    by (auto simp: frame_Init_def Let_def split: option.splits if_splits)
  with assms(2,3) show ?thesis by (simp add: IsValid_def SetFrameCaps_planes)
qed

definition safe_frame_act :: "act \<Rightarrow> bool" where
  "safe_frame_act a \<longleftrightarrow> (\<forall>f. a = Emit (NewFrameEvent f) \<longrightarrow>
     IsValid f \<and> (\<forall>i < unat (m_uiPlaneCount f). plane_in_buffer f i))"

text \<open>Every frame that the video sink hands to the listener, from a preroll or during playback, is valid
  and all its planes lie inside the buffer it maps, whatever samples GStreamer delivers.\<close>

theorem sink_frames_safe:
  "new_acts safe_frame_act p (after (OnAppSinkHaveFrame W u e) p) \<and>
   new_acts safe_frame_act p (after (OnAppSinkPreroll W u e) p)"
proof -
  have "state_io_rel (new_acts safe_frame_act) (OnAppSinkHaveFrame W u e)"
    "state_io_rel (new_acts safe_frame_act) (OnAppSinkPreroll W u e)"
    unfolding sink_defs Let_def split_beta
    by (intro acts_rules; auto simp: safe_frame_act_def frame_Init_planes)+
  then show ?thesis by (simp add: io_rel_after)
qed

subsection \<open>Times of frames\<close>

lemma frame_Init_time:
  assumes "fst (frame_Init s f)" "smp_buffer s = Some b"
  shows "m_dTime (snd (frame_Init s f)) =
    (if GST_BUFFER_TIMESTAMP_IS_VALID b then real (unat (buf_pts b)) / 10 ^ 9 else 0)"
  using assms by (auto simp: frame_Init_def Let_def split: option.splits if_splits)

lemma rebase_valid:
  assumes "GST_BUFFER_TIMESTAMP_IS_VALID b" "first \<noteq> GST_CLOCK_TIME_NONE" "first \<le> buf_pts b"
  shows "GST_BUFFER_TIMESTAMP_IS_VALID (rebase_pts first b)"
    and "unat (buf_pts (rebase_pts first b)) = unat (buf_pts b) - unat first"
proof -
  show u: "unat (buf_pts (rebase_pts first b)) = unat (buf_pts b) - unat first"
    using assms by (simp add: rebase_pts_def unat_sub)
  have "buf_pts b - first \<noteq> - 1"
  proof
    assume "buf_pts b - first = - 1"
    then have "unat (buf_pts b) - unat first = 2 ^ 64 - 1"
      using unat_sub [OF assms(3)] by (simp add: unsigned_minus_1_eq_mask mask_eq_exp_minus_1)
    moreover have "unat (buf_pts b) < 2 ^ LENGTH(64)" by (rule unsigned_less)
    then have "unat (buf_pts b) \<le> 2 ^ 64 - 1" by simp
    ultimately have "unat (buf_pts b) = 2 ^ 64 - 1" by simp
    then have "buf_pts b = - 1" by (simp add: word_unat_eq_iff unsigned_minus_1_eq_mask mask_eq_exp_minus_1)
    with assms(1) show False by (simp add: GST_BUFFER_TIMESTAMP_IS_VALID_def GST_CLOCK_TIME_NONE_def)
  qed
  with assms show "GST_BUFFER_TIMESTAMP_IS_VALID (rebase_pts first b)"
    by (simp add: rebase_pts_def GST_BUFFER_TIMESTAMP_IS_VALID_def GST_CLOCK_TIME_NONE_def)
qed

definition timed_frame_act :: "u64 \<Rightarrow> u64 \<Rightarrow> act \<Rightarrow> bool" where
  "timed_frame_act first pts a \<longleftrightarrow> (\<forall>f. a = Emit (NewFrameEvent f) \<longrightarrow>
     m_dTime f = (real (unat pts) - real (unat first)) / 10 ^ 9)"

lemma discont_first [simp]: "m_FirstPTS (after (OnAppSinkVideoFrameDiscont W s) p) = m_FirstPTS p"
  by (simp add: OnAppSinkVideoFrameDiscont_def frame_dimension_def split: option.split)

lemma discont_acts: "(\<And>ev. (\<forall>f. ev \<noteq> NewFrameEvent f) \<Longrightarrow> P (Emit ev)) \<Longrightarrow>
    state_io_rel (new_acts P) (OnAppSinkVideoFrameDiscont W s)"
  unfolding sink_defs by (intro acts_rules; simp)

text \<open>Times of frames are relative to the first one: after a preroll with timestamp \<open>first\<close>, every frame
  handed out for a buffer that is not earlier carries the difference in seconds, so playback of a
  stream whose timestamps start late begins at time 0.\<close>

theorem HaveFrame_relative_time:
  assumes "m_FirstPTS p = first" "first \<noteq> GST_CLOCK_TIME_NONE"
    and "w_sample W (log p) (PullSample e) = Some s" "smp_buffer s = Some b"
    and "GST_BUFFER_TIMESTAMP_IS_VALID b" "first \<le> buf_pts b"
  shows "new_acts (timed_frame_act first (buf_pts b)) p (after (OnAppSinkHaveFrame W u e) p)"
proof -
  obtain a0 b0 s0 where u: "u = (a0, b0, s0)" by (cases u)
  define fi where "fi = frame_Init (s\<lparr>smp_buffer := Some (rebase_pts first b)\<rparr>) (CGstVideoFrame_new a0 b0 s0)"
  have time: "m_dTime (snd fi) = (real (unat (buf_pts b)) - real (unat first)) / 10 ^ 9" if "fst fi"
    using that rebase_valid [OF assms(5,2,6)] assms(6) unfolding fi_def
    by (simp add: frame_Init_time of_nat_diff word_le_nat_alt)
  define tail where "tail = (if \<not> fst fi then do { perform SampleUnref; perform (DeleteObject ''CGstVideoFrame'') }
     else do {
       d \<leftarrow> gets m_pEventDispatcher;
       (if IsValid (snd fi) \<and> d then send_frame W (snd fi)
        else do {
          perform (DeleteObject ''CGstVideoFrame'');
          whenever d (perform (Emit (Warning WARNING_GSTREAMER_INVALID_FRAME)))
        });
       perform SampleUnref
     })"
  have "state_io_rel (new_acts (timed_frame_act first (buf_pts b))) (do {
      ask (w_sample W) (PullSample e);
      send \<leftarrow> gets m_SendFrameSizeEvent;
      whenever (send \<or> buf_discont b) (OnAppSinkVideoFrameDiscont W s);
      tail })"
    unfolding tail_def send_frame_def
    by (intro acts_rules discont_acts; auto simp: timed_frame_act_def time)
  moreover have "after (OnAppSinkHaveFrame W u e) p = after (do {
      ask (w_sample W) (PullSample e);
      send \<leftarrow> gets m_SendFrameSizeEvent;
      whenever (send \<or> buf_discont b) (OnAppSinkVideoFrameDiscont W s);
      tail }) p"
    using assms(1,3,4) unfolding OnAppSinkHaveFrame_def tail_def fi_def u
    by (simp add: split_beta Let_def)
  ultimately show ?thesis by (simp only: io_rel_after)
qed

definition late_buffer :: gst_buffer where
  "late_buffer = \<lparr>buf_base = 4096, buf_size = 12, buf_pts = 11000000000, buf_offset = 0, buf_duration = 0,
     buf_discont = False, buf_map_ok = True\<rparr>"

definition late_sample :: gst_sample where
  "late_sample = \<lparr>smp_buffer = Some late_buffer, smp_caps = Some [demo_yuv]\<rparr>"

theorem HaveFrame_relative_time_witness:
  "new_acts (timed_frame_act 10000000000 (buf_pts late_buffer)) (demo_pipe\<lparr>m_FirstPTS := 10000000000\<rparr>)
     (after (OnAppSinkHaveFrame (demo_world\<lparr>w_sample := \<lambda>_ _. Some late_sample\<rparr>) (False, 0, 0) (Some 7))
       (demo_pipe\<lparr>m_FirstPTS := 10000000000\<rparr>))"
  by (rule HaveFrame_relative_time [where s = late_sample])
    (simp_all add: GST_CLOCK_TIME_NONE_def GST_BUFFER_TIMESTAMP_IS_VALID_def late_buffer_def late_sample_def)

subsection \<open>Frame sizes\<close>

text \<open>The listener learns a new frame size once: after a size was delivered, a further buffer of the same
  size, discontinuous or not, sends no size event and changes nothing.\<close>

theorem frame_size_told_once:
  assumes "smp_caps s = Some (str # rest)" "st_int str ''width'' = Some w" "st_int str ''height'' = Some h"
    and "m_pEventDispatcher p" "\<And>h a. w_ok W h a"
  shows "let q = after (OnAppSinkVideoFrameDiscont W s) p
    in m_FrameWidth q = w \<and> m_FrameHeight q = h \<and> \<not> m_SendFrameSizeEvent q \<and>
       after (OnAppSinkVideoFrameDiscont W s) q = q"
  using assms by (simp add: OnAppSinkVideoFrameDiscont_def frame_dimension_def gst_caps_get_structure0_def Let_def)

theorem frame_size_told_once_witness:
  "m_FrameWidth (after (OnAppSinkVideoFrameDiscont demo_world \<lparr>smp_buffer = None, smp_caps = Some [demo_yuv]\<rparr>) demo_pipe) = 4"
  using frame_size_told_once [of "\<lparr>smp_buffer = None, smp_caps = Some [demo_yuv]\<rparr>" demo_yuv "[]" 4 2 demo_pipe demo_world]
  by (simp add: demo_yuv_def demo_eval Let_def)

end
