(* ===== verification/Bus_Callback.thy ===== *)
theory Bus_Callback
  imports Video_Sink
begin

text \<open>
  The message bus of a pipeline (\<^verbatim>\<open>CGstAudioPlaybackPipeline::BusCallback\<close>): one definition per
  message type, and the callback that dispatches to them under the dispose lock.  Text of messages
  that is only logged is left out.
\<close>

subsection \<open>Messages\<close>

datatype GError_domain = GST_RESOURCE_ERROR | GST_STREAM_ERROR | JFX_GST_ERROR | OTHER_ERROR_DOMAIN

datatype GError_code =
    GST_RESOURCE_ERROR_READ | GST_STREAM_ERROR_FAILED | GST_STREAM_ERROR_DECODE | GST_STREAM_ERROR_WRONG_TYPE
  | GST_STREAM_ERROR_CODEC_NOT_FOUND | GST_STREAM_ERROR_TYPE_NOT_FOUND | GST_STREAM_ERROR_DEMUX
  | JFX_GST_MISSING_LIBSWSCALE | JFX_GST_INVALID_LIBSWSCALE | OTHER_ERROR_CODE

record GError =
  err_domain :: GError_domain
  err_code :: GError_code
  err_message :: string

datatype (plugins only: code size) message =
    MsgDurationChanged bool int
  | MsgEOS
  | MsgError "GError option"
  | MsgWarning bool
  | MsgInfo bool
  | MsgStateChanged gptr GstState GstState GstState
  | MsgBuffering int int int bool
  | MsgUnderrun
  | MsgHLSStall
  | MsgHLSResume
  | MsgHLSEos
  | MsgHLSFull
  | MsgHLSNotFull
  | MsgApplicationOther
  | MsgSpectrum
  | MsgElementOther
  | MsgAsyncDone
  | MsgLatency
  | MsgOther

subsection \<open>Handlers\<close>

text \<open>The arguments of \<open>MsgDurationChanged\<close>: whether the format is time, and the duration.\<close>

definition bus_duration :: "world \<Rightarrow> bool \<Rightarrow> int \<Rightarrow> unit pm" where
  "bus_duration W isTime durationNanos = do {
     d \<leftarrow> gets m_pEventDispatcher;
     whenever (d \<and> isTime \<and> durationNanos > 0)
       (send_or_error W (DurationUpdateEvent (of_int durationNanos / of_int GST_SECOND)) ERROR_JNI_SEND_DURATION_UPDATE_EVENT)
   }"

definition bus_eos :: "world \<Rightarrow> unit pm" where
  "bus_eos W = do {
     finished \<leftarrow> IsPlayerState Finished;
     whenever (\<not> finished) (do {
       SetPlayerState W Finished False;
       hls \<leftarrow> gets (\<lambda>p. m_bHLSModeEnabled (m_pOptions p));
       whenever hls (modify (\<lambda>p. p\<lparr>m_bLastProgressValueEOS := False\<rparr>))
     })
   }"

text \<open>The part of the error handler after the special cases: the pipeline is torn down once.\<close>

definition fatal_error :: "world \<Rightarrow> GError option \<Rightarrow> unit pm" where
  "fatal_error W error = do {
     modify (\<lambda>p. p\<lparr>m_bIgnoreError := False\<rparr>);
     failed \<leftarrow> IsPlayerState Error;
     whenever (\<not> failed) (do { e \<leftarrow> elem PIPELINE; gst_element_set_state W e GST_STATE_NULL; ret () });
     SetPlayerState W Error True;
     d \<leftarrow> gets m_pEventDispatcher;
     (case error of
        None \<Rightarrow> ret ()
      | Some err \<Rightarrow> whenever d (
          if err_domain err = GST_STREAM_ERROR \<and> err_code err = GST_STREAM_ERROR_DEMUX
          then SendPlayerMediaErrorEvent W ERROR_MEDIA_CORRUPTED
          else send_or_error W (PlayerHaltEvent (err_message err)) ERROR_JNI_SEND_PLAYER_HALT_EVENT))
   }"

definition bus_error :: "world \<Rightarrow> GError option \<Rightarrow> unit pm" where
  "bus_error W error =
     (case error of
        None \<Rightarrow> fatal_error W None
      | Some err \<Rightarrow> do {
          d \<leftarrow> gets m_pEventDispatcher;
          ignore \<leftarrow> gets m_bIgnoreError;
          hls \<leftarrow> gets (\<lambda>p. m_bHLSModeEnabled (m_pOptions p));
          if d \<and> err_domain err = GST_RESOURCE_ERROR \<and> err_code err = GST_RESOURCE_ERROR_READ then do {
            SendPlayerMediaErrorEvent W ERROR_LOCATOR_CONNECTION_LOST;
            modify (\<lambda>p. p\<lparr>m_bIgnoreError := True\<rparr>)
          }
          else if ignore \<and> err_domain err = GST_STREAM_ERROR \<and> err_code err = GST_STREAM_ERROR_FAILED
          then modify (\<lambda>p. p\<lparr>m_bIgnoreError := False\<rparr>)
          else if d \<and> err_domain err = GST_STREAM_ERROR \<and>
             (err_code err = GST_STREAM_ERROR_DECODE \<or> err_code err = GST_STREAM_ERROR_WRONG_TYPE)
          then SendPlayerMediaErrorEvent W ERROR_MEDIA_INVALID
          else if d \<and> err_domain err = GST_STREAM_ERROR \<and>
             (err_code err = GST_STREAM_ERROR_CODEC_NOT_FOUND \<or> err_code err = GST_STREAM_ERROR_FAILED \<or>
              err_code err = GST_STREAM_ERROR_TYPE_NOT_FOUND)
          then SendPlayerMediaErrorEvent W (if hls then ERROR_MEDIA_HLS_FORMAT_UNSUPPORTED else ERROR_MEDIA_INVALID)
          else do {
            whenever (d \<and> err_domain err = JFX_GST_ERROR) (
              if err_code err = JFX_GST_MISSING_LIBSWSCALE then SendPlayerMediaErrorEvent W ERROR_MISSING_LIBSWSCALE
              else whenever (err_code err = JFX_GST_INVALID_LIBSWSCALE)
                     (SendPlayerMediaErrorEvent W ERROR_INVALID_LIBSWSCALE));
            fatal_error W error
          }
        })"

text \<open>Warnings and information use the dispatcher without a test.\<close>

definition bus_warning :: "world \<Rightarrow> warncode \<Rightarrow> bool \<Rightarrow> unit pm" where
  "bus_warning W code present = whenever present (do {
     deref m_pEventDispatcher;
     perform (Emit (Warning code))
   })"

definition sink_reached_paused :: "gptr \<Rightarrow> gptr \<Rightarrow> GstState \<Rightarrow> GstState \<Rightarrow> GstState \<Rightarrow> bool" where
  "sink_reached_paused src sink oldState newState pendingState \<longleftrightarrow>
     sink = None \<or> (src = sink \<and> newState = GST_STATE_PAUSED \<and> oldState = GST_STATE_READY \<and>
       pendingState = GST_STATE_VOID_PENDING)"

definition mark_clock :: "gptr \<Rightarrow> GstState \<Rightarrow> GstState \<Rightarrow> pipe \<Rightarrow> pipe" where
  "mark_clock src newState pendingState p =
     (let aSink = container_get (m_Elements p) AUDIO_SINK
      in if \<not> m_bIsClockSet p \<and> aSink \<noteq> None \<and> m_bHasAudio p \<and> src = aSink \<and>
            pendingState = GST_STATE_VOID_PENDING \<and> newState = GST_STATE_READY
         then p\<lparr>m_bSetClock := True, m_bIsClockSet := True\<rparr> else p)"

definition mark_sinks :: "gptr \<Rightarrow> GstState \<Rightarrow> GstState \<Rightarrow> GstState \<Rightarrow> pipe \<Rightarrow> pipe" where
  "mark_sinks src oldState newState pendingState p =
     (if m_bDynamicElementsReady p then p
      else let reached = (\<lambda>r. sink_reached_paused src (container_get (m_Elements p) r) oldState newState pendingState);
               p = (if reached AUDIO_SINK then p\<lparr>m_bAudioSinkReady := True\<rparr> else p);
               p = (if reached VIDEO_SINK then p\<lparr>m_bVideoSinkReady := True\<rparr> else p)
           in if m_bAudioSinkReady p \<and> m_bVideoSinkReady p then p\<lparr>m_bDynamicElementsReady := True\<rparr> else p)"

definition update_clock :: "world \<Rightarrow> gptr \<Rightarrow> GstState \<Rightarrow> GstState \<Rightarrow> unit pm" where
  "update_clock W src newState pendingState = do {
     aSink \<leftarrow> elem AUDIO_SINK;
     due \<leftarrow> gets (\<lambda>p. m_bSetClock p \<and>
       ((m_bStaticPipeline p \<and> aSink \<noteq> None \<and> m_bHasAudio p \<and> src = aSink \<and>
         pendingState = GST_STATE_VOID_PENDING \<and> newState = GST_STATE_PAUSED) \<or> m_bDynamicElementsReady p));
     whenever due (do {
       modify (\<lambda>p. p\<lparr>m_bSetClock := False\<rparr>);
       clock \<leftarrow> ask (w_obj W) (ProvideClock aSink);
       whenever (clock \<noteq> None) (do {
         pipeline \<leftarrow> elem PIPELINE;
         perform (SetClock pipeline clock);
         perform (ObjUnref clock)
       })
     })
   }"

text \<open>The condition under which a state change of the pipeline itself reaches the player.\<close>

definition relevant_change :: "GstState \<Rightarrow> GstState \<Rightarrow> GstState \<Rightarrow> pipe \<Rightarrow> bool" where
  "relevant_change oldState newState pendingState p \<longleftrightarrow>
     (pendingState = GST_STATE_VOID_PENDING \<and> newState \<noteq> oldState \<and> m_PlayerState p \<noteq> Unknown) \<or>
     ((m_PlayerPendingState p = Stopped \<or> m_PlayerPendingState p = Paused \<or> m_StallOnPause p) \<and>
       newState = GST_STATE_PAUSED \<and> oldState = GST_STATE_PAUSED \<and> pendingState = GST_STATE_VOID_PENDING) \<or>
     (m_PlayerState p = Unknown \<and> newState = GST_STATE_PAUSED \<and>
       (oldState = GST_STATE_READY \<or> oldState = GST_STATE_PAUSED) \<and> pendingState = GST_STATE_VOID_PENDING \<and>
       \<not> m_bStaticPipeline p \<and> m_bDynamicElementsReady p) \<or>
     (m_PlayerState p = Unknown \<and> newState = GST_STATE_PAUSED \<and> oldState = GST_STATE_READY \<and>
       pendingState = GST_STATE_VOID_PENDING \<and> m_bStaticPipeline p)"

definition bus_state_changed :: "world \<Rightarrow> gptr \<Rightarrow> GstState \<Rightarrow> GstState \<Rightarrow> GstState \<Rightarrow> unit pm" where
  "bus_state_changed W src oldState newState pendingState = do {
     modify (mark_clock src newState pendingState);
     modify (mark_sinks src oldState newState pendingState);
     update_clock W src newState pendingState;
     pipeline \<leftarrow> elem PIPELINE;
     relevant \<leftarrow> gets (relevant_change oldState newState pendingState);
     whenever (src = pipeline \<and> relevant) (do {
       eos \<leftarrow> gets m_bLastProgressValueEOS;
       whenever (GST_STATE_PAUSED = newState \<and> eos) (UpdateBufferPosition W);
       UpdatePlayerState W newState oldState
     })
   }"

definition bus_buffering :: "world \<Rightarrow> int \<Rightarrow> int \<Rightarrow> int \<Rightarrow> bool \<Rightarrow> unit pm" where
  "bus_buffering W start position stop eos = do {
     modify (\<lambda>p. p\<lparr>m_llLastProgressValueStart := start, m_llLastProgressValuePosition := position,
       m_llLastProgressValueStop := stop, m_bLastProgressValueEOS := eos\<rparr>);
     UpdateBufferPosition W
   }"

text \<open>A spectrum message: the bands are updated when there are any; spectrum and dispatcher are used
  without a test.\<close>

definition bus_spectrum :: "world \<Rightarrow> unit pm" where
  "bus_spectrum W = do {
     deref m_pAudioSpectrum;
     e \<leftarrow> elem AUDIO_SPECTRUM;
     bandsNum \<leftarrow> ask (w_int W) (ObjGet e ''bands'');
     whenever (bandsNum > 0) (perform (UpdateBands bandsNum));
     deref m_pEventDispatcher;
     send_or_error W AudioSpectrumEvent ERROR_JNI_SEND_AUDIO_SPECTRUM_EVENT
   }"

definition bus_message :: "world \<Rightarrow> message \<Rightarrow> unit pm" where
  "bus_message W msg = (case msg of
      MsgDurationChanged isTime nanos \<Rightarrow> bus_duration W isTime nanos
    | MsgEOS \<Rightarrow> bus_eos W
    | MsgError error \<Rightarrow> bus_error W error
    | MsgWarning present \<Rightarrow> bus_warning W WARNING_GSTREAMER_PIPELINE_WARNING present
    | MsgInfo present \<Rightarrow> bus_warning W WARNING_GSTREAMER_PIPELINE_INFO_ERROR present
    | MsgStateChanged src oldState newState pendingState \<Rightarrow> bus_state_changed W src oldState newState pendingState
    | MsgBuffering start position stop eos \<Rightarrow> bus_buffering W start position stop eos
    | MsgUnderrun \<Rightarrow> BufferUnderrun W
    | MsgHLSStall \<Rightarrow> HLSBufferStall W
    | MsgHLSResume \<Rightarrow> HLSBufferResume W False
    | MsgHLSEos \<Rightarrow> HLSBufferResume W True
    | MsgHLSFull \<Rightarrow> do {
        locked StallLock (modify (\<lambda>p. p\<lparr>m_bHLSPBFull := True\<rparr>));
        HLSBufferResume W False
      }
    | MsgHLSNotFull \<Rightarrow> modify (\<lambda>p. p\<lparr>m_bHLSPBFull := False\<rparr>)
    | MsgApplicationOther \<Rightarrow> ret ()
    | MsgSpectrum \<Rightarrow> bus_spectrum W
    | MsgElementOther \<Rightarrow> ret ()
    | MsgAsyncDone \<Rightarrow> locked SeekLock (modify (\<lambda>p. p\<lparr>m_LastSeekTime := - 1\<rparr>))
    | MsgLatency \<Rightarrow> do { e \<leftarrow> elem PIPELINE; perform (RecalculateLatency e) }
    | MsgOther \<Rightarrow> ret ())"

text \<open>The block of data the callback works on exists and was not deleted; using it otherwise is an error.\<close>

definition content_alive :: "pipe \<Rightarrow> bool" where
  "content_alive p = (case m_pBusCallbackContent p of None \<Rightarrow> False | Some c \<Rightarrow> freed c = 0)"

text \<open>The callback; the result tells the bus whether to keep calling.\<close>

definition BusCallback :: "world \<Rightarrow> message \<Rightarrow> bool pm" where
  "BusCallback W msg = do {
     alive \<leftarrow> gets content_alive;
     if \<not> alive then do { deref content_alive; ret False }
     else locked DisposeLock (do {
       content \<leftarrow> gets m_pBusCallbackContent;
       (case content of
          None \<Rightarrow> ret False
        | Some c \<Rightarrow>
            if m_bIsDisposed c then ret False
            else if m_bIsDisposeInProgress c then ret True
            else do { bus_message W msg; ret True })
     })
   }"

lemmas bus_defs = bus_duration_def bus_eos_def fatal_error_def bus_error_def bus_warning_def
  update_clock_def bus_state_changed_def bus_buffering_def bus_spectrum_def

subsection \<open>Locks and the listener's view\<close>

lemma lk_bus_handlers [jfx_lock]:
  "n \<le> 2 \<Longrightarrow> state_io_rel (lock_rel n) (bus_duration W t d)"
  "n \<le> 2 \<Longrightarrow> state_io_rel (lock_rel n) (bus_eos W)"
  "n \<le> 2 \<Longrightarrow> state_io_rel (lock_rel n) (fatal_error W e)"
  "n \<le> 2 \<Longrightarrow> state_io_rel (lock_rel n) (bus_warning W c b)"
  "n \<le> 2 \<Longrightarrow> state_io_rel (lock_rel n) (update_clock W src s s')"
  "n \<le> 2 \<Longrightarrow> state_io_rel (lock_rel n) (bus_buffering W a x z b)"
  "n \<le> 2 \<Longrightarrow> state_io_rel (lock_rel n) (bus_spectrum W)"
  unfolding bus_defs by (intro lk_rules jfx_lock; simp)+

lemma lk_bus_error [jfx_lock]: "n \<le> 2 \<Longrightarrow> state_io_rel (lock_rel n) (bus_error W e)"
  unfolding bus_error_def by (intro lk_rules jfx_lock; simp)

lemma mark_locks: "held (mark_clock src s s' p) = held p" "bad_lock (mark_clock src s s' p) = bad_lock p"
  "held (mark_sinks src o' s s' p) = held p" "bad_lock (mark_sinks src o' s s' p) = bad_lock p"
  by (simp_all add: mark_clock_def mark_sinks_def Let_def)

lemma lk_bus_state_changed [jfx_lock]: "n \<le> 2 \<Longrightarrow> state_io_rel (lock_rel n) (bus_state_changed W src s s' s'')"
  unfolding bus_state_changed_def by (intro lk_rules jfx_lock; simp add: mark_locks)

lemma lk_bus_message [jfx_lock]: "n = 0 \<Longrightarrow> state_io_rel (lock_rel n) (bus_message W msg)"
  by (cases msg) (auto simp: bus_message_def intro!: lk_rules jfx_lock)

lemma lk_BusCallback [jfx_lock]: "n = 0 \<Longrightarrow> state_io_rel (lock_rel n) (BusCallback W msg)"
  unfolding BusCallback_def by (intro lk_rules jfx_lock; simp)

lemma view_whenever_not: "state_io_rel view_rel (SetPlayerState W Error True)"
  "state_io_rel view_rel (SetPlayerState W s False)"
  unfolding io_rel_after by (auto intro: view_SetPlayerState)

lemma calm_handlers:
  "state_io_rel calm_rel (bus_duration W t d)"
  "state_io_rel calm_rel (bus_warning W c b)"
  "state_io_rel calm_rel (update_clock W src s s')"
  "state_io_rel calm_rel (bus_buffering W a x z b)"
  "state_io_rel calm_rel (bus_spectrum W)"
  unfolding bus_defs by (intro calm_rules jfx_frame; simp add: state_event_def)+

lemmas view_prims = calm_view [OF calm_prims(4)] calm_view [OF calm_prims(6)] calm_view [OF calm_Is(1)]
  calm_view [OF calm_handlers(1)] calm_view [OF calm_handlers(2)] calm_view [OF calm_handlers(3)]
  calm_view [OF calm_handlers(4)] calm_view [OF calm_handlers(5)]
  calm_view [OF calm_buffering(1)] calm_view [OF calm_buffering(2)] calm_view [OF calm_buffering(3)]
  calm_view [OF calm_buffering(4)]

lemma view_bus_eos: "state_io_rel view_rel (bus_eos W)"
  unfolding bus_eos_def by (intro view.control view_prims view_whenever_not view_modify; simp)

lemma view_fatal_error: "state_io_rel view_rel (fatal_error W e)"
  unfolding fatal_error_def
  by (intro view.control view_prims view_whenever_not view_modify calm_view [OF calm_send]; simp add: state_event_def)

lemma view_bus_error: "state_io_rel view_rel (bus_error W e)"
  unfolding bus_error_def by (intro view.control view_prims view_fatal_error view_modify; simp)

lemma mark_view: "log (mark_clock src s s' p) = log p \<and> m_PlayerState (mark_clock src s s' p) = m_PlayerState p \<and>
    m_pEventDispatcher (mark_clock src s s' p) = m_pEventDispatcher p"
  "log (mark_sinks src o' s s' p) = log p \<and> m_PlayerState (mark_sinks src o' s s' p) = m_PlayerState p \<and>
    m_pEventDispatcher (mark_sinks src o' s s' p) = m_pEventDispatcher p"
  by (simp_all add: mark_clock_def mark_sinks_def Let_def)

lemma view_bus_state_changed: "state_io_rel view_rel (bus_state_changed W src s s' s'')"
  unfolding bus_state_changed_def
  by (intro view.control view_prims view_UpdatePlayerState view_modify; simp add: mark_view)

lemma view_bus_message: "state_io_rel view_rel (bus_message W msg)"
  by (cases msg) (auto simp: bus_message_def state_event_def intro!: view.control view_prims view_bus_eos view_bus_error
      view_bus_state_changed view_modify view_locked calm_view [OF calm_perform])

lemma view_BusCallback [jfx_frame]: "state_io_rel view_rel (BusCallback W msg)"
  unfolding BusCallback_def
  by (intro view_locked view.control view_bus_message calm_view [OF calm_prims(3)])

subsection \<open>A live bus\<close>

text \<open>The callback's data exist and neither mark of disposal is set.\<close>

definition bus_live :: "pipe \<Rightarrow> bool" where
  "bus_live p \<longleftrightarrow> (case m_pBusCallbackContent p of
     None \<Rightarrow> False | Some c \<Rightarrow> freed c = 0 \<and> \<not> m_bIsDisposed c \<and> \<not> m_bIsDisposeInProgress c)"

lemma after_BusCallback:
  "bus_live p \<Longrightarrow> after (BusCallback W msg) p =
     after (leave DisposeLock) (after (bus_message W msg) (after (enter DisposeLock) p))"
  by (auto simp: BusCallback_def bus_live_def content_alive_def split: option.splits)

lemma not_live_BusCallback':
  assumes "\<not> bus_live p"
  shows "after (BusCallback W msg) p = (if content_alive p
     then p\<lparr>held := held p, bad_lock := bad_lock p \<or> \<not> may_enter DisposeLock (held p)\<rparr> else p\<lparr>crashed := True\<rparr>)"
  using assms by (auto simp: BusCallback_def bus_live_def content_alive_def split: option.splits)

lemma not_live_BusCallback:
  assumes "\<not> bus_live p"
  shows "\<exists>hs b c. after (BusCallback W msg) p = p\<lparr>held := hs, bad_lock := b, crashed := c\<rparr>"
proof (cases "content_alive p")
  case True
  then have "after (BusCallback W msg) p = p\<lparr>held := held p,
      bad_lock := bad_lock p \<or> \<not> may_enter DisposeLock (held p), crashed := crashed p\<rparr>"
    by (simp add: not_live_BusCallback' [OF assms])
  then show ?thesis by blast
next
  case False
  then have "after (BusCallback W msg) p = p\<lparr>held := held p, bad_lock := bad_lock p, crashed := True\<rparr>"
    by (simp add: not_live_BusCallback' [OF assms])
  then show ?thesis by blast
qed

text \<open>A sequence of messages.\<close>

fun bus_run :: "world \<Rightarrow> message list \<Rightarrow> unit pm" where
  "bus_run W [] = ret ()"
| "bus_run W (msg # msgs) = do { BusCallback W msg; bus_run W msgs }"

subsection \<open>Errors on the bus\<close>

definition is_shutdown :: "act \<Rightarrow> bool" where
  "is_shutdown a = (case a of SetState e s \<Rightarrow> s = GST_STATE_NULL | _ \<Rightarrow> False)"

definition shutdowns :: "history \<Rightarrow> nat" where
  "shutdowns h = length (filter is_shutdown h)"

lemma shutdowns_simps [simp]:
  "shutdowns [] = 0" "shutdowns (a # h) = (if is_shutdown a then Suc (shutdowns h) else shutdowns h)"
  "\<not> is_shutdown (Emit ev)" "is_shutdown (SetState e s) \<longleftrightarrow> s = GST_STATE_NULL"
  by (simp_all add: shutdowns_def is_shutdown_def)

lemma SetPlayerState_Error_log [simp]: "log (after (SetPlayerState W Error True) p) = log p"
  by (simp add: SetPlayerState_def Let_def)

lemma fatal_error_effect:
  "m_PlayerState (after (fatal_error W e) p) = Error"
  "shutdowns (log (after (fatal_error W e) p)) = shutdowns (log p) + (if m_PlayerState p = Error then 0 else 1)"
  by (simp_all add: fatal_error_def split: option.split)

lemma bus_error_effect:
  "m_PlayerState (after (bus_error W e) p) = Error \<or> m_PlayerState (after (bus_error W e) p) = m_PlayerState p"
  "shutdowns (log (after (bus_error W e) p)) = shutdowns (log p) +
     (if m_PlayerState p \<noteq> Error \<and> m_PlayerState (after (bus_error W e) p) = Error then 1 else 0)"
  by (simp_all add: bus_error_def fatal_error_effect split: option.split)

lemma BusCallback_error_effect:
  "m_PlayerState (after (BusCallback W (MsgError e)) p) \<in> {Error, m_PlayerState p}"
  "shutdowns (log (after (BusCallback W (MsgError e)) p)) = shutdowns (log p) +
     (if m_PlayerState p \<noteq> Error \<and> m_PlayerState (after (BusCallback W (MsgError e)) p) = Error then 1 else 0)"
  using bus_error_effect [of W e "after (enter DisposeLock) p"] not_live_BusCallback [of p W "MsgError e"]
  by (cases "bus_live p"; auto simp: after_BusCallback bus_message_def)+

text \<open>C19: Whatever errors GStreamer posts, in whatever order and number, the player either keeps its state or is
  in \<^verbatim>\<open>Error\<close>, and the pipeline is shut down (set to \<^verbatim>\<open>NULL\<close>) exactly once on the way into \<^verbatim>\<open>Error\<close> and never
  otherwise.\<close>

theorem error_burst_one_shutdown:
  "m_PlayerState (after (bus_run W (map MsgError errs)) p) \<in> {Error, m_PlayerState p} \<and>
   shutdowns (log (after (bus_run W (map MsgError errs)) p)) = shutdowns (log p) +
     (if m_PlayerState p \<noteq> Error \<and> m_PlayerState (after (bus_run W (map MsgError errs)) p) = Error then 1 else 0)"
proof (induction errs arbitrary: p)
  case Nil
  then show ?case by simp
next
  case (Cons e errs)
  show ?case
    using Cons [of "after (BusCallback W (MsgError e)) p"] BusCallback_error_effect [of W e p] by (auto split: if_splits)
qed

text \<open>The loss of the connection is not fatal: it is reported as a media error, and the stream error that
  follows it is swallowed once; the player state, and the pipeline, are left alone.\<close>

theorem connection_lost_graceful:
  assumes "bus_live p" "m_pEventDispatcher p"
    and "err_domain read = GST_RESOURCE_ERROR" "err_code read = GST_RESOURCE_ERROR_READ"
    and "err_domain failed = GST_STREAM_ERROR" "err_code failed = GST_STREAM_ERROR_FAILED"
  shows "log (after (bus_run W [MsgError (Some read), MsgError (Some failed)]) p) =
      Emit (PlayerMediaErrorEvent ERROR_LOCATOR_CONNECTION_LOST) # log p \<and>
    m_PlayerState (after (bus_run W [MsgError (Some read), MsgError (Some failed)]) p) = m_PlayerState p \<and>
    m_bIgnoreError (after (bus_run W [MsgError (Some read), MsgError (Some failed)]) p) = False"
proof -
  let ?q = "after (BusCallback W (MsgError (Some read))) p"
  have q: "?q = p\<lparr>held := held p, bad_lock := bad_lock p \<or> \<not> may_enter DisposeLock (held p), m_bIgnoreError := True,
      log := Emit (PlayerMediaErrorEvent ERROR_LOCATOR_CONNECTION_LOST) # log p\<rparr>"
    using assms by (simp add: after_BusCallback bus_message_def bus_error_def)
  then have "bus_live ?q" using assms(1) by (simp add: bus_live_def)
  then have "after (BusCallback W (MsgError (Some failed))) ?q =
      after (leave DisposeLock) (after (bus_error W (Some failed)) (after (enter DisposeLock) ?q))"
    by (simp add: after_BusCallback bus_message_def)
  with assms show ?thesis by (simp add: q bus_error_def)
qed

definition demo_bus :: pipe where
  "demo_bus = demo_pipe\<lparr>m_pBusCallbackContent := Some \<lparr>m_bIsDisposed = False, m_bIsDisposeInProgress = False,
     m_bFreeMe = False, freed = 0\<rparr>\<rparr>"

lemma demo_bus_live [simp]: "bus_live demo_bus" "m_pEventDispatcher demo_bus"
  by (simp_all add: demo_bus_def bus_live_def demo_pipe_def SetEventDispatcher_def)

theorem connection_lost_graceful_witness:
  "m_PlayerState (after (bus_run demo_world
     [MsgError (Some \<lparr>err_domain = GST_RESOURCE_ERROR, err_code = GST_RESOURCE_ERROR_READ, err_message = ''lost''\<rparr>),
      MsgError (Some \<lparr>err_domain = GST_STREAM_ERROR, err_code = GST_STREAM_ERROR_FAILED, err_message = ''failed''\<rparr>)])
     demo_bus) = m_PlayerState demo_bus"
  using connection_lost_graceful [of demo_bus
      "\<lparr>err_domain = GST_RESOURCE_ERROR, err_code = GST_RESOURCE_ERROR_READ, err_message = ''lost''\<rparr>"
      "\<lparr>err_domain = GST_STREAM_ERROR, err_code = GST_STREAM_ERROR_FAILED, err_message = ''failed''\<rparr>" demo_world]
  by simp

subsection \<open>Leaving \<^verbatim>\<open>Error\<close>\<close>

text \<open>Programs that keep the player state.\<close>

lemma Error_stays_bus_error: "m_PlayerState p = Error \<Longrightarrow> m_PlayerState (after (bus_error W e) p) = Error"
  using bus_error_effect(1) [of W e p] by auto

lemma Error_stays_state_changed:
  "m_PlayerState p = Error \<Longrightarrow> m_PlayerState (after (bus_state_changed W src s s' s'') p) = Error"
proof -
  assume p: "m_PlayerState p = Error"
  have u: "m_PlayerState q = Error \<Longrightarrow> m_PlayerState (after (UpdatePlayerState W n old) q) = Error" for q n old
    using UpdatePlayerState_edge [of W n old q] by simp
  show ?thesis
    unfolding bus_state_changed_def
    by (simp add: p u calmD [OF calm_handlers(3)] calmD [OF calm_buffering(2)] mark_view)
qed

lemma Error_bus_message:
  assumes "m_PlayerState p = Error"
  shows "m_PlayerState (after (bus_message W msg) p) = (if msg = MsgEOS then Finished else Error)"
  using assms
  by (cases msg) (simp_all add: bus_message_def Error_stays_bus_error Error_stays_state_changed calmD [OF calm_handlers(1)]
      calmD [OF calm_handlers(2)] calmD [OF calm_handlers(4)] calmD [OF calm_handlers(5)]
      calmD [OF calm_buffering(1)] calmD [OF calm_buffering(3)] calmD [OF calm_buffering(4)] bus_eos_def)

text \<open>No message takes the player out of \<^verbatim>\<open>Error\<close> but the end of the stream, which does: the handler of
  \<^verbatim>\<open>GST_MESSAGE_EOS\<close> only asks whether the player has finished already.\<close>

theorem Error_left_only_by_EOS:
  assumes "m_PlayerState p = Error"
  shows "m_PlayerState (after (BusCallback W msg) p) = (if bus_live p \<and> msg = MsgEOS then Finished else Error)"
  using assms Error_bus_message [of "after (enter DisposeLock) p" W msg] not_live_BusCallback [of p W msg]
  by (cases "bus_live p") (auto simp: after_BusCallback)

theorem Error_left_only_by_EOS_witness:
  "m_PlayerState (after (BusCallback demo_world MsgEOS) (demo_bus\<lparr>m_PlayerState := Error\<rparr>)) = Finished"
  using Error_left_only_by_EOS [of "demo_bus\<lparr>m_PlayerState := Error\<rparr>" demo_world MsgEOS]
  by (simp add: demo_bus_def bus_live_def)

subsection \<open>The pipeline clock\<close>

definition is_SetClock :: "act \<Rightarrow> bool" where
  "is_SetClock a = (case a of SetClock _ _ \<Rightarrow> True | _ \<Rightarrow> False)"

definition clock_sets :: "history \<Rightarrow> nat" where
  "clock_sets h = length (filter is_SetClock h)"

text \<open>How often the clock may still be set: once if it was not chosen yet, or was chosen and not set.\<close>

definition clock_credit :: "pipe \<Rightarrow> nat" where
  "clock_credit p = (if m_bIsClockSet p then 0 else 1) + (if m_bSetClock p then 1 else 0)"

definition clock_rel :: "pipe \<Rightarrow> pipe \<Rightarrow> bool" where
  "clock_rel p q \<longleftrightarrow> clock_sets (log q) + clock_credit q \<le> clock_sets (log p) + clock_credit p"

interpretation clk: transition clock_rel
  by unfold_locales (simp_all add: clock_rel_def)

lemma clock_sets_Cons [simp]: "clock_sets (a # h) = (if is_SetClock a then Suc (clock_sets h) else clock_sets h)"
  by (simp add: clock_sets_def)

lemma clk_ask: "\<not> is_SetClock a \<Longrightarrow> state_io_rel clock_rel (ask q a)"
  and clk_perform: "\<not> is_SetClock a \<Longrightarrow> state_io_rel clock_rel (perform a)"
  by (simp_all add: io_rel_after clock_rel_def clock_credit_def)

lemma clk_prims:
  "state_io_rel clock_rel (enter l)" "state_io_rel clock_rel (leave l)" "state_io_rel clock_rel (deref c)"
  "state_io_rel clock_rel (gst_element_set_state W e gs)" "state_io_rel clock_rel (gst_element_get_state W e)"
  "state_io_rel clock_rel (SendPlayerMediaErrorEvent W err)" "state_io_rel clock_rel (send_or_error W ev err)"
  by (simp_all add: io_rel_after clock_rel_def clock_credit_def is_SetClock_def)

lemma clk_locked: "state_io_rel clock_rel m \<Longrightarrow> state_io_rel clock_rel (locked l m)"
  unfolding locked_def by (intro clk.control clk_prims)

lemma clk_modify:
  "(\<And>p. log (f p) = log p \<and> m_bSetClock (f p) = m_bSetClock p \<and> m_bIsClockSet (f p) = m_bIsClockSet p) \<Longrightarrow>
   state_io_rel clock_rel (modify f)"
  by (simp add: io_rel_after clock_rel_def clock_credit_def)

lemmas clk_rules = clk.control clk_prims clk_locked clk_ask clk_perform clk_modify

lemma clk_Play: "state_io_rel clock_rel (Play W)"
  unfolding Play_def by (intro clk_rules) simp_all

lemma clk_Is: "state_io_rel clock_rel (IsPlayerState s)" "state_io_rel clock_rel (IsPlayerPendingState s)"
  unfolding IsPlayerState_def IsPlayerPendingState_def by (intro clk_rules)+

lemma clk_SetPlayerState: "state_io_rel clock_rel (SetPlayerState W s b)"
  unfolding SetPlayerState_def by (intro clk_rules clk_Play) simp_all

lemma clk_UpdatePlayerState: "state_io_rel clock_rel (UpdatePlayerState W n old)"
proof -
  have "m_bSetClock (snd (player_switch n old p)) = m_bSetClock p \<and>
      m_bIsClockSet (snd (player_switch n old p)) = m_bIsClockSet p" for p
    by (auto simp: player_switch_def switch_Playing_Paused_def split: PlayerState.split)
  then have "state_io_rel clock_rel (State (player_switch n old))"
    by (simp add: io_rel_after clock_rel_def clock_credit_def player_switch_calm)
  then show ?thesis unfolding UpdatePlayerState_def by (intro clk_rules clk_SetPlayerState)
qed

lemma clk_CheckQueueSize: "state_io_rel clock_rel (CheckQueueSize W e)"
  unfolding queue_defs by (intro clk_rules; simp add: is_SetClock_def)

lemma clk_InternalPause: "state_io_rel clock_rel (InternalPause W)"
  unfolding InternalPause_def by (intro clk_rules clk_CheckQueueSize; simp)

lemma clk_GetDuration: "state_io_rel clock_rel (GetDuration W)"
  unfolding GetDuration_def by (intro clk_rules clk_Is; simp add: is_SetClock_def)

lemma clk_GetStreamTime: "state_io_rel clock_rel (GetStreamTime W)"
  unfolding GetStreamTime_def by (intro clk_rules clk_GetDuration; simp add: is_SetClock_def)

lemmas clk_control = clk_InternalPause clk_GetDuration clk_GetStreamTime

lemma clk_buffering: "state_io_rel clock_rel (BufferUnderrun W)" "state_io_rel clock_rel (UpdateBufferPosition W)"
  "state_io_rel clock_rel (HLSBufferStall W)" "state_io_rel clock_rel (HLSBufferResume W b)"
  unfolding buffering_defs by (intro clk_rules clk_Is clk_control clk_Play; simp)+

lemma clk_handlers: "state_io_rel clock_rel (bus_duration W t d)" "state_io_rel clock_rel (bus_eos W)"
  "state_io_rel clock_rel (fatal_error W e)" "state_io_rel clock_rel (bus_warning W c b)"
  "state_io_rel clock_rel (bus_buffering W a x z b)" "state_io_rel clock_rel (bus_spectrum W)"
  unfolding bus_defs by (intro clk_rules clk_Is clk_SetPlayerState clk_buffering; simp add: is_SetClock_def)+

lemma clk_bus_error: "state_io_rel clock_rel (bus_error W e)"
  unfolding bus_error_def by (intro clk_rules clk_handlers; simp)

text \<open>The two steps that matter: choosing the clock takes the one credit, setting it spends it.\<close>

lemma clk_mark: "state_io_rel clock_rel (modify (mark_clock src s s'))"
  "state_io_rel clock_rel (modify (mark_sinks src o' s s'))"
  by (simp_all add: io_rel_after clock_rel_def clock_credit_def mark_clock_def mark_sinks_def Let_def)

lemma clk_update_clock: "state_io_rel clock_rel (update_clock W src s s')"
  by (simp add: io_rel_after clock_rel_def clock_credit_def update_clock_def is_SetClock_def)

lemma clk_bus_state_changed: "state_io_rel clock_rel (bus_state_changed W src s s' s'')"
  unfolding bus_state_changed_def
  by (intro clk_rules(1-9) clk_mark clk_update_clock clk_buffering clk_UpdatePlayerState)

lemma clk_BusCallback: "state_io_rel clock_rel (BusCallback W msg)"
proof -
  have "state_io_rel clock_rel (bus_message W msg)"
    by (cases msg) (auto simp: bus_message_def is_SetClock_def intro!: clk_rules clk_handlers clk_bus_error
        clk_bus_state_changed clk_buffering)
  then show ?thesis unfolding BusCallback_def by (intro clk_rules)
qed

text \<open>Whatever messages arrive, the pipeline is given the clock of the audio sink at most once in its life.\<close>

theorem clock_set_at_most_once:
  assumes "\<not> m_bSetClock p"
  shows "clock_sets (log (after (bus_run W msgs) p)) \<le> clock_sets (log p) + (if m_bIsClockSet p then 0 else 1)"
proof -
  have "state_io_rel clock_rel (bus_run W msgs)"
    by (induction msgs) (auto intro!: clk_rules clk_BusCallback)
  then have "clock_rel p (after (bus_run W msgs) p)" by (simp add: io_rel_after)
  with assms show ?thesis by (simp add: clock_rel_def clock_credit_def split: if_splits)
qed

theorem clock_set_at_most_once_witness:
  "clock_sets (log (after (bus_run demo_world [MsgStateChanged (Some 6) GST_STATE_NULL GST_STATE_READY GST_STATE_VOID_PENDING])
     demo_bus)) \<le> 1"
  using clock_set_at_most_once [of demo_bus demo_world
      "[MsgStateChanged (Some 6) GST_STATE_NULL GST_STATE_READY GST_STATE_VOID_PENDING]"]
  by (simp add: demo_bus_def demo_pipe_def SetEventDispatcher_def CGstAVPlaybackPipeline_new_def
      CGstAudioPlaybackPipeline_new_def clock_sets_def)

end
