(* ===== verification/Pipeline_Lifecycle.thy ===== *)
theory Pipeline_Lifecycle
  imports Bus_Callback
begin

text \<open>
  The life of a pipeline object: \<^verbatim>\<open>Init\<close> (\<^verbatim>\<open>GstAudioPlaybackPipeline.cpp\<close> and
  \<^verbatim>\<open>GstAVPlaybackPipeline.cpp\<close>), \<^verbatim>\<open>Dispose\<close>, the notification \<^verbatim>\<open>BusCallbackDestroyNotify\<close> that GLib
  sends when the bus source is gone, the destructors, and \<^verbatim>\<open>CMedia\<close>, which owns the pipeline.  The block
  \<^verbatim>\<open>sBusCallbackContent\<close> is shared between the threads of \<^verbatim>\<open>Dispose\<close> and of the main loop; it must be
  deleted exactly once, by whoever is last.
\<close>

subsection \<open>Operations\<close>

text \<open>Use, change and deletion of the shared block.\<close>

definition touch_content :: "unit pm" where
  "touch_content = deref content_alive"

definition set_content :: "(sBusCallbackContent \<Rightarrow> sBusCallbackContent) \<Rightarrow> unit pm" where
  "set_content f = modify (\<lambda>p. p\<lparr>m_pBusCallbackContent := map_option f (m_pBusCallbackContent p)\<rparr>)"

definition content_flag :: "(sBusCallbackContent \<Rightarrow> bool) \<Rightarrow> bool pm" where
  "content_flag f = gets (\<lambda>p. case m_pBusCallbackContent p of None \<Rightarrow> False | Some c \<Rightarrow> f c)"

definition delete_content :: "unit pm" where
  "delete_content = do { touch_content; set_content (\<lambda>c. c\<lparr>freed := freed c + 1\<rparr>) }"

definition has_content :: "bool pm" where
  "has_content = gets (\<lambda>p. m_pBusCallbackContent p \<noteq> None)"

definition BusCallbackDestroyNotify :: "unit pm" where
  "BusCallbackDestroyNotify = do {
     has \<leftarrow> has_content;
     whenever has (do {
       touch_content;
       bFreeMeHere \<leftarrow> locked DisposeLock (do {
         disposed \<leftarrow> content_flag m_bIsDisposed;
         if disposed then ret True
         else do { set_content (\<lambda>c. c\<lparr>m_bFreeMe := True\<rparr>); ret False }
       });
       whenever bFreeMeHere delete_content
     })
   }"

text \<open>The answer to \<open>NewObject\<close> is whether \<^verbatim>\<open>new (nothrow)\<close> returned an object.  \<open>mgr\<close> is the return code of
  \<^verbatim>\<open>CMediaManager::GetInstance\<close>.\<close>

definition is_static_decoder_bin :: "world \<Rightarrow> bool pm" where
  "is_static_decoder_bin W = do {
     parser \<leftarrow> elem AUDIO_PARSER;
     demuxer \<leftarrow> elem AV_DEMUXER;
     opts \<leftarrow> gets m_pOptions;
     if w_os W \<noteq> TARGET_OS_OTHER then
       if m_PipelineType opts = kAudioSourcePipeline then
         if parser = None then ret True
         else do {
           src_pad \<leftarrow> ask (w_obj W) (GetStaticPad parser ''src'');
           whenever (src_pad \<noteq> None) (perform (ObjUnref src_pad));
           ret (src_pad \<noteq> None)
         }
       else ret (demuxer = None)
     else ret (parser = None \<and> demuxer = None)
   }"

definition bus_content_new :: sBusCallbackContent where
  "bus_content_new = \<lparr>m_bIsDisposed = False, m_bIsDisposeInProgress = False, m_bFreeMe = False, freed = 0\<rparr>"

text \<open>The part of \<^verbatim>\<open>Init\<close> after the main loop was started.\<close>

definition Init_start :: "world \<Rightarrow> errcode pm" where
  "Init_start W = do {
     bStaticDecoderBin \<leftarrow> is_static_decoder_bin W;
     (if bStaticDecoderBin then do {
        modify (\<lambda>p. p\<lparr>m_bHasAudio := True\<rparr>);
        PostBuildInit W;
        ret ()
      } else do {
        parser \<leftarrow> elem AUDIO_PARSER;
        opts \<leftarrow> gets m_pOptions;
        whenever (parser \<noteq> None \<and> m_PipelineType opts \<noteq> kAudioSourcePipeline)
          (perform (Connect parser ''pad-added'' h_OnParserSrcPadAdded))
      });
     pipeline \<leftarrow> elem PIPELINE;
     ok \<leftarrow> gst_element_set_state W pipeline GST_STATE_PAUSED;
     ret (if ok then ERROR_NONE else ERROR_GSTREAMER_PIPELINE_STATE_CHANGE)
   }"

text \<open>The part of \<^verbatim>\<open>Init\<close> that puts the bus under observation.\<close>

definition Init_bus :: "world \<Rightarrow> errcode pm" where
  "Init_bus W = do {
     ok \<leftarrow> call W (NewObject ''sBusCallbackContent'');
     if \<not> ok then ret ERROR_MEMORY_ALLOCATION
     else do {
       modify (\<lambda>p. p\<lparr>m_pBusCallbackContent := Some bus_content_new\<rparr>);
       source \<leftarrow> call W CreateWatch;
       modify (\<lambda>p. p\<lparr>m_pBusSource := source\<rparr>);
       if \<not> source then ret ERROR_MEMORY_ALLOCATION
       else do {
         attached \<leftarrow> call W SourceAttach;
         if \<not> attached then do { delete_content; ret ERROR_GSTREAMER_BUS_SOURCE_ATTACH }
         else do { perform StartMainLoop; Init_start W }
       }
     }
   }"

definition Audio_Init :: "world \<Rightarrow> errcode \<Rightarrow> errcode pm" where
  "Audio_Init W mgr = do {
     eq \<leftarrow> call W (NewObject ''CGstAudioEqualizer'');
     modify (\<lambda>p. p\<lparr>m_pAudioEqualizer := eq\<rparr>);
     if \<not> eq then ret ERROR_MEMORY_ALLOCATION
     else do {
       sp \<leftarrow> call W (NewObject ''CGstAudioSpectrum'');
       modify (\<lambda>p. p\<lparr>m_pAudioSpectrum := sp\<rparr>);
       if \<not> sp then ret ERROR_MEMORY_ALLOCATION
       else do {
         modify (\<lambda>p. if m_bBufferingEnabled (m_pOptions p) then p\<lparr>m_bStaticPipeline := False\<rparr> else p);
         perform GetManager;
         if mgr \<noteq> ERROR_NONE then ret mgr else Init_bus W
       }
     }
   }"

text \<open>The signals an audio-video pipeline listens to.\<close>

definition AV_connect :: "world \<Rightarrow> unit pm" where
  "AV_connect W = do {
     demuxer \<leftarrow> elem AV_DEMUXER;
     perform (Connect demuxer ''pad-added'' h_on_pad_added);
     perform (Connect demuxer ''no-more-pads'' h_no_more_pads);
     parser \<leftarrow> elem AUDIO_PARSER;
     whenever (parser \<noteq> None) (do {
       src_pad \<leftarrow> ask (w_obj W) (GetStaticPad parser ''src'');
       if src_pad = None then do {
         perform (Connect parser ''pad-added'' h_on_pad_added);
         perform (Connect parser ''no-more-pads'' h_no_more_pads)
       } else perform (ObjUnref src_pad)
     });
     aq \<leftarrow> elem AUDIO_QUEUE;
     vq \<leftarrow> elem VIDEO_QUEUE;
     perform (Connect aq ''overrun'' h_queue_overrun);
     perform (Connect vq ''overrun'' h_queue_overrun);
     perform (Connect aq ''underrun'' h_queue_underrun);
     perform (Connect vq ''underrun'' h_queue_underrun)
   }"

definition AV_Init :: "world \<Rightarrow> errcode \<Rightarrow> errcode pm" where
  "AV_Init W mgr = do { AV_connect W; Audio_Init W mgr }"

definition Init :: "world \<Rightarrow> errcode \<Rightarrow> errcode pm" where
  "Init W mgr = do { av \<leftarrow> gets is_av; if av then AV_Init W mgr else Audio_Init W mgr }"

text \<open>\<^verbatim>\<open>Dispose\<close> in three parts, between which other threads may run: the mark, the stop of the pipeline, and
  the release of everything under the dispose lock.  The answer to \<open>SourceDestroy\<close> is whether no bus
  callback was pending or running, in which case GLib sends the notification at once, on this thread.\<close>

definition Dispose_mark :: "unit pm" where
  "Dispose_mark = do {
     has \<leftarrow> has_content;
     whenever has (do {
       touch_content;
       locked DisposeLock (set_content (\<lambda>c. c\<lparr>m_bIsDisposeInProgress := True\<rparr>))
     })
   }"

definition Dispose_stop :: "world \<Rightarrow> unit pm" where
  "Dispose_stop W = do {
     pipeline \<leftarrow> elem PIPELINE;
     whenever (pipeline \<noteq> None) (do { gst_element_set_state W pipeline GST_STATE_NULL; ret () })
   }"

definition Dispose_objects :: "world \<Rightarrow> unit pm" where
  "Dispose_objects W = do {
     eq \<leftarrow> gets m_pAudioEqualizer;
     whenever eq (do {
       perform (DeleteObject ''CGstAudioEqualizer'');
       modify (\<lambda>p. p\<lparr>m_pAudioEqualizer := False\<rparr>)
     });
     sp \<leftarrow> gets m_pAudioSpectrum;
     whenever sp (do {
       perform (DeleteObject ''CGstAudioSpectrum'');
       modify (\<lambda>p. p\<lparr>m_pAudioSpectrum := False\<rparr>)
     });
     pipeline \<leftarrow> elem PIPELINE;
     whenever (pipeline \<noteq> None) (do {
       source \<leftarrow> gets m_pBusSource;
       whenever source (do {
         idle \<leftarrow> call W SourceDestroy;
         whenever idle BusCallbackDestroyNotify;
         modify (\<lambda>p. p\<lparr>m_pBusSource := False\<rparr>)
       });
       perform (ObjUnref pipeline)
     })
   }"

definition Dispose_release :: "world \<Rightarrow> unit pm" where
  "Dispose_release W = do {
     has \<leftarrow> has_content;
     if has then do {
       touch_content;
       bFreeBusCallbackContent \<leftarrow> locked DisposeLock (do {
         disposed \<leftarrow> content_flag m_bIsDisposed;
         if disposed then ret False
         else do {
           Dispose_objects W;
           bFreeMe \<leftarrow> content_flag m_bFreeMe;
           set_content (\<lambda>c. c\<lparr>m_bIsDisposed := True\<rparr>);
           ret bFreeMe
         }
       });
       whenever bFreeBusCallbackContent delete_content
     } else Dispose_objects W
   }"

definition Audio_Dispose :: "world \<Rightarrow> unit pm" where
  "Audio_Dispose W = do { Dispose_mark; Dispose_stop W; Dispose_release W }"

definition AV_Dispose :: "world \<Rightarrow> unit pm" where
  "AV_Dispose W = do {
     hasVideo \<leftarrow> gets m_bHasVideo;
     initDone \<leftarrow> gets m_bVideoInitDone;
     sink \<leftarrow> elem VIDEO_SINK;
     whenever (hasVideo \<and> initDone) (do {
       perform (Disconnect sink h_OnAppSinkHaveFrame);
       perform (Disconnect sink h_OnAppSinkPreroll)
     });
     aq \<leftarrow> elem AUDIO_QUEUE;
     vq \<leftarrow> elem VIDEO_QUEUE;
     perform (Disconnect aq h_queue_overrun);
     perform (Disconnect vq h_queue_overrun);
     perform (Disconnect aq h_queue_underrun);
     perform (Disconnect vq h_queue_underrun);
     Audio_Dispose W;
     hasAudio \<leftarrow> gets m_bHasAudio;
     abin \<leftarrow> elem AUDIO_BIN;
     whenever (\<not> hasAudio \<and> abin \<noteq> None) (perform (ObjUnref abin));
     hasVideo \<leftarrow> gets m_bHasVideo;
     vbin \<leftarrow> elem VIDEO_BIN;
     whenever (\<not> hasVideo \<and> vbin \<noteq> None) (perform (ObjUnref vbin))
   }"

definition Dispose :: "world \<Rightarrow> unit pm" where
  "Dispose W = do { av \<leftarrow> gets is_av; if av then AV_Dispose W else Audio_Dispose W }"

text \<open>The destructors: locks, options, and the dispatcher; \<^verbatim>\<open>CPipeline::~CPipeline\<close> calls the empty
  \<^verbatim>\<open>CPipeline::Dispose\<close>, not the one of the derived class.  \<^verbatim>\<open>CMedia::~CMedia\<close> disposes first.\<close>

definition CPipeline_delete :: "unit pm" where
  "CPipeline_delete = do {
     perform (DeleteObject ''m_SeekLock'');
     perform (DeleteObject ''m_StateLock'');
     perform (DeleteObject ''m_StallLock'');
     perform (DeleteObject ''CPipelineOptions'');
     d \<leftarrow> gets m_pEventDispatcher;
     whenever d (perform (DeleteObject ''CPlayerEventDispatcher''))
   }"

definition CMedia_delete :: "world \<Rightarrow> unit pm" where
  "CMedia_delete W = do { Dispose W; CPipeline_delete }"

lemmas content_defs = touch_content_def set_content_def content_flag_def delete_content_def has_content_def
lemmas start_defs = is_static_decoder_bin_def Init_start_def Init_bus_def Audio_Init_def AV_connect_def AV_Init_def Init_def
lemmas dispose_defs = Dispose_mark_def Dispose_stop_def Dispose_objects_def Dispose_release_def Audio_Dispose_def
  AV_Dispose_def Dispose_def

subsection \<open>Locks and the listener's view\<close>

lemma lk_content [jfx_lock]:
  "state_io_rel (lock_rel n) touch_content" "state_io_rel (lock_rel n) (set_content f)"
  "state_io_rel (lock_rel n) (content_flag g)" "state_io_rel (lock_rel n) delete_content"
  "state_io_rel (lock_rel n) has_content"
  unfolding content_defs by (intro lk_rules; simp)+

lemma lk_BusCallbackDestroyNotify [jfx_lock]: "n = 0 \<Longrightarrow> state_io_rel (lock_rel n) BusCallbackDestroyNotify"
  unfolding BusCallbackDestroyNotify_def by (intro lk_rules lk_content; simp)

lemma lk_Dispose [jfx_lock]: "n = 0 \<Longrightarrow> state_io_rel (lock_rel n) (Dispose W)"
  unfolding dispose_defs by (intro lk_rules lk_content lk_BusCallbackDestroyNotify; simp)

lemma lk_Init [jfx_lock]: "state_io_rel (lock_rel n) (Init W mgr)"
  unfolding start_defs by (intro lk_rules lk_content lk_PostBuildInit; simp)

lemma calm_content [jfx_frame]:
  "state_io_rel calm_rel touch_content" "state_io_rel calm_rel (set_content f)"
  "state_io_rel calm_rel (content_flag g)" "state_io_rel calm_rel delete_content"
  "state_io_rel calm_rel has_content"
  unfolding content_defs by (intro calm_rules; simp)+

lemma calm_BusCallbackDestroyNotify [jfx_frame]: "state_io_rel calm_rel BusCallbackDestroyNotify"
  unfolding BusCallbackDestroyNotify_def by (intro calm_rules calm_content)

lemma calm_Dispose [jfx_frame]: "state_io_rel calm_rel (Dispose W)"
  unfolding dispose_defs
  by (intro calm_rules calm_content calm_BusCallbackDestroyNotify; simp add: state_event_def)

lemma calm_Init [jfx_frame]: "state_io_rel calm_rel (Init W mgr)"
  unfolding start_defs by (intro calm_rules calm_content calm_PostBuildInit; simp add: state_event_def)

subsection \<open>Init\<close>

interpretation pf_Content: pads_field m_pBusCallbackContent
  by unfold_locales simp_all

interpretation pf_Spectrum: pads_field m_pAudioSpectrum
  by unfold_locales simp_all

interpretation pf_Source: pads_field m_pBusSource
  by unfold_locales simp_all

text \<open>What \<^verbatim>\<open>Init\<close> leaves behind when it succeeds.\<close>

definition bus_ready :: "pipe \<Rightarrow> bool" where
  "bus_ready p \<longleftrightarrow> m_pBusCallbackContent p = Some bus_content_new \<and> m_pBusSource p"

lemma start_same:
  "m_pBusCallbackContent (after (Init_start W) p) = m_pBusCallbackContent p"
  "m_pBusSource (after (Init_start W) p) = m_pBusSource p"
  "m_pAudioSpectrum (after (Init_start W) p) = m_pAudioSpectrum p"
  by (simp_all add: Init_start_def is_static_decoder_bin_def pf_Content.sameD [OF pf_Content.PostBuildInit_same]
      pf_Source.sameD [OF pf_Source.PostBuildInit_same] pf_Spectrum.sameD [OF pf_Spectrum.PostBuildInit_same])

lemma Audio_Init_ready:
  assumes "result (Audio_Init W mgr) p = ERROR_NONE"
  shows "bus_ready (after (Audio_Init W mgr) p) \<and> m_pAudioSpectrum (after (Audio_Init W mgr) p)"
  using assms by (simp add: Audio_Init_def Init_bus_def bus_ready_def start_same split: if_splits)

lemma Init_ready:
  assumes "result (Init W mgr) p = ERROR_NONE"
  shows "bus_ready (after (Init W mgr) p) \<and> m_pAudioSpectrum (after (Init W mgr) p)"
  using assms by (simp add: Init_def AV_Init_def Audio_Init_ready split: if_splits)

text \<open>When \<^verbatim>\<open>Init\<close> reports success, the bus is under observation, the data of its callback are fresh, and
  the spectrum object that the bus handler uses without a test exists.\<close>

theorem Init_success_ready:
  assumes "result (Init W mgr) p = ERROR_NONE"
  shows "bus_live (after (Init W mgr) p) \<and> m_pBusSource (after (Init W mgr) p) \<and> m_pAudioSpectrum (after (Init W mgr) p)"
  using Init_ready [OF assms] by (simp add: bus_ready_def bus_live_def bus_content_new_def)

lemma demo_Init_ok: "result (Init demo_world ERROR_NONE) demo_pipe = ERROR_NONE"
  by (simp add: Init_def AV_Init_def Audio_Init_def Init_bus_def Init_start_def demo_world_def)

theorem Init_success_ready_witness:
  "bus_live (after (Init demo_world ERROR_NONE) demo_pipe)"
  using Init_success_ready [OF demo_Init_ok] by blast

subsection \<open>A failed attachment\<close>

lemma AV_connect_frame [simp]:
  "m_pOptions (after (AV_connect W) p) = m_pOptions p" "crashed (after (AV_connect W) p) = crashed p"
  by (simp_all add: AV_connect_def)

text \<open>Once memory was misused, it stays so.\<close>

definition doom_rel :: "pipe \<Rightarrow> pipe \<Rightarrow> bool" where
  "doom_rel p q \<longleftrightarrow> (crashed p \<longrightarrow> crashed q)"

interpretation doom: transition doom_rel
  by unfold_locales (auto simp: doom_rel_def)

lemma doom_prims:
  "state_io_rel doom_rel (enter l)" "state_io_rel doom_rel (leave l)" "state_io_rel doom_rel (deref c)"
  "state_io_rel doom_rel (ask q a)" "state_io_rel doom_rel (perform a)"
  "state_io_rel doom_rel (gst_element_set_state W e gs)"
  by (simp_all add: io_rel_after doom_rel_def)

lemma doom_modify: "(\<And>p. crashed (f p) = crashed p) \<Longrightarrow> state_io_rel doom_rel (modify f)"
  by (simp add: io_rel_after doom_rel_def)

lemma doom_Dispose_release: "state_io_rel doom_rel (Dispose_release W)"
  unfolding Dispose_release_def Dispose_objects_def BusCallbackDestroyNotify_def content_defs locked_def
  by (intro doom.control doom_prims doom_modify; simp)

lemma Audio_Dispose_dangling:
  assumes "m_pBusCallbackContent p = Some c" "freed c \<noteq> 0"
  shows "crashed (after (Audio_Dispose W) p)"
proof -
  have "crashed (after Dispose_mark p)"
    using assms by (simp add: Dispose_mark_def content_defs content_alive_def)
  then have "crashed (after (Dispose_stop W) (after Dispose_mark p))"
    by (simp add: Dispose_stop_def)
  with doom_Dispose_release show ?thesis
    unfolding io_rel_after doom_rel_def by (simp add: Audio_Dispose_def)
qed

lemma Init_start_result: "result (Init_start W) p \<noteq> ERROR_GSTREAMER_BUS_SOURCE_ATTACH"
  by (simp add: Init_start_def)

lemma Audio_Init_attach_fails:
  assumes "result (Audio_Init W mgr) p = ERROR_GSTREAMER_BUS_SOURCE_ATTACH" "mgr = ERROR_NONE"
  shows "m_pBusCallbackContent (after (Audio_Init W mgr) p) = Some (bus_content_new\<lparr>freed := 1\<rparr>)"
  using assms
  by (simp add: Audio_Init_def Init_bus_def Init_start_result content_defs bus_content_new_def split: if_splits)

text \<open>When the bus source cannot be attached, \<^verbatim>\<open>Init\<close> deletes the callback's data but keeps the pointer, so the
  \<^verbatim>\<open>Dispose\<close> that follows uses memory that was freed.\<close>

theorem Init_attach_failure_dangles:
  assumes "result (Init W ERROR_NONE) p = ERROR_GSTREAMER_BUS_SOURCE_ATTACH" "\<not> is_av p"
  shows "crashed (after (do { Init W ERROR_NONE; Dispose W }) p)"
proof -
  let ?q = "after (Audio_Init W ERROR_NONE) p"
  have r: "result (Audio_Init W ERROR_NONE) p = ERROR_GSTREAMER_BUS_SOURCE_ATTACH"
    using assms by (simp add: Init_def)
  have "m_pBusCallbackContent ?q = Some (bus_content_new\<lparr>freed := 1\<rparr>)"
    using Audio_Init_attach_fails [OF r] by simp
  then have "crashed (after (Audio_Dispose W) ?q)"
    by (rule Audio_Dispose_dangling) simp
  moreover have "\<not> is_av ?q"
    using r assms(2) by (simp add: Audio_Init_def Init_bus_def Init_start_result content_defs split: if_splits)
  ultimately show ?thesis using assms(2) by (simp add: Init_def Dispose_def)
qed

definition no_attach_world :: world where
  "no_attach_world = demo_world\<lparr>w_ok := (\<lambda>h a. a \<noteq> SourceAttach)\<rparr>"

theorem Init_attach_failure_dangles_witness:
  "crashed (after (do { Init no_attach_world ERROR_NONE; Dispose no_attach_world }) (demo_pipe\<lparr>is_av := False\<rparr>))"
  by (rule Init_attach_failure_dangles)
    (simp_all add: Init_def Audio_Init_def Init_bus_def no_attach_world_def)

subsection \<open>The shared block is deleted exactly once\<close>

lemma inert_bus_run:
  assumes "m_pBusCallbackContent p = Some c" "freed c = 0" "m_bIsDisposed c \<or> m_bIsDisposeInProgress c"
  shows "\<exists>b. after (bus_run W msgs) p = p\<lparr>bad_lock := b\<rparr>"
  using assms(1)
proof (induction msgs arbitrary: p)
  case Nil
  have "after (bus_run W []) p = p\<lparr>bad_lock := bad_lock p\<rparr>" by simp
  then show ?case by blast
next
  case (Cons m msgs)
  let ?q = "after (BusCallback W m) p"
  have "\<not> bus_live p" "content_alive p"
    using assms Cons.prems by (auto simp: bus_live_def content_alive_def)
  then have q: "?q = p\<lparr>bad_lock := bad_lock p \<or> \<not> may_enter DisposeLock (held p)\<rparr>"
    by (simp add: not_live_BusCallback')
  then have "m_pBusCallbackContent ?q = Some c" using Cons.prems by simp
  then obtain b where "after (bus_run W msgs) ?q = ?q\<lparr>bad_lock := b\<rparr>"
    using Cons.IH by blast
  then show ?case by (auto simp: q)
qed

text \<open>The disposal of a pipeline while the main loop goes on delivering messages: between the parts of
  \<^verbatim>\<open>Dispose\<close>, and after it until GLib sends the notification, unless that happened within \<^verbatim>\<open>Dispose\<close>.\<close>

definition teardown :: "world \<Rightarrow> message list \<Rightarrow> message list \<Rightarrow> message list \<Rightarrow> unit pm" where
  "teardown W ms1 ms2 ms3 = do {
     Dispose_mark;
     bus_run W ms1;
     Dispose_stop W;
     bus_run W ms2;
     Dispose_release W;
     alive \<leftarrow> gets content_alive;
     whenever alive (do { bus_run W ms3; BusCallbackDestroyNotify })
   }"

text \<open>The block after the objects were released: marked for deletion when GLib sent its notification.\<close>

lemma Dispose_objects_content:
  assumes "m_pBusCallbackContent p = Some c" "freed c = 0" "\<not> m_bIsDisposed c" "m_pBusSource p"
    and "container_get (m_Elements p) PIPELINE \<noteq> None" "\<not> m_bFreeMe c"
  shows "m_pBusCallbackContent (after (Dispose_objects W) p) = Some c \<or>
      m_pBusCallbackContent (after (Dispose_objects W) p) = Some (c\<lparr>m_bFreeMe := True\<rparr>)"
    and "crashed (after (Dispose_objects W) p) = crashed p"
  using assms
  by (simp_all add: Dispose_objects_def BusCallbackDestroyNotify_def content_defs content_alive_def)

lemma Dispose_release_effect:
  assumes "m_pBusCallbackContent p = Some c" "freed c = 0" "\<not> m_bIsDisposed c" "m_pBusSource p"
    and "container_get (m_Elements p) PIPELINE \<noteq> None" "\<not> m_bFreeMe c"
  shows "\<exists>c'. m_pBusCallbackContent (after (Dispose_release W) p) = Some c' \<and> m_bIsDisposed c' \<and> freed c' \<le> 1"
    and "crashed (after (Dispose_release W) p) = crashed p"
proof -
  let ?q = "after (Dispose_objects W) (after (enter DisposeLock) p)"
  have "m_pBusCallbackContent (after (enter DisposeLock) p) = Some c" using assms(1) by simp
  note * = Dispose_objects_content [OF this assms(2,3) _ _ assms(6), of W]
  have "m_pBusCallbackContent ?q = Some c \<or> m_pBusCallbackContent ?q = Some (c\<lparr>m_bFreeMe := True\<rparr>)"
    "crashed ?q = crashed p"
    using * assms(4,5) by auto
  with assms show "\<exists>c'. m_pBusCallbackContent (after (Dispose_release W) p) = Some c' \<and> m_bIsDisposed c' \<and> freed c' \<le> 1"
    "crashed (after (Dispose_release W) p) = crashed p"
    by (auto simp: Dispose_release_def content_defs content_alive_def)
qed



end
