(* ===== verification/Player_Runs.thy ===== *)
theory Player_Runs
  imports Pipeline_Lifecycle
begin

text \<open>
  The player as a whole: a pipeline object under every entry point that the Java side
  (\<^verbatim>\<open>GstMediaPlayer.cpp\<close>), the main loop and the streaming threads of GStreamer have, in any order and with any
  answers of GStreamer.  The invariants are proved once, by rule induction, from the rules of the operations.
\<close>

subsection \<open>The entry points\<close>

datatype player_call =
  CallInit errcode | CallPlay | CallStop | CallPause | CallFinish | CallSeek real | CallSetRate real
| CallSetVolume real | CallSetBalance real | CallSetAudioSyncDelay int | CallGetDuration | CallGetStreamTime
| CallGetVolume | CallGetBalance | CallGetAudioSyncDelay | CallDispose
| OnMessage message | OnDestroyNotify
| OnParserPad gptr gptr | OnPadAdded gptr gptr | OnNoMorePads gptr
| OnAudioSinkPad gptr bool | OnAudioSourcePad gptr bool | OnVideoDecoderPad gptr bool
| OnQueueOverrun gptr | OnQueueUnderrun gptr
| OnFrame "bool \<times> addr \<times> ulong" gptr | OnPreroll "bool \<times> addr \<times> ulong" gptr

fun player_call_effect :: "world \<Rightarrow> player_call \<Rightarrow> pipe \<Rightarrow> pipe" where
  "player_call_effect W (CallInit mgr) p = after (Init W mgr) p"
| "player_call_effect W CallPlay p = after (Play W) p"
| "player_call_effect W CallStop p = after (Stop W) p"
| "player_call_effect W CallPause p = after (Pause W) p"
| "player_call_effect W CallFinish p = after (Finish W) p"
| "player_call_effect W (CallSeek t) p = after (Seek W t) p"
| "player_call_effect W (CallSetRate r) p = after (SetRate W r) p"
| "player_call_effect W (CallSetVolume v) p = after (SetVolume W v) p"
| "player_call_effect W (CallSetBalance v) p = after (SetBalance W v) p"
| "player_call_effect W (CallSetAudioSyncDelay i) p = after (SetAudioSyncDelay W i) p"
| "player_call_effect W CallGetDuration p = after (GetDuration W) p"
| "player_call_effect W CallGetStreamTime p = after (GetStreamTime W) p"
| "player_call_effect W CallGetVolume p = after (GetVolume W) p"
| "player_call_effect W CallGetBalance p = after (GetBalance W) p"
| "player_call_effect W CallGetAudioSyncDelay p = after (GetAudioSyncDelay W) p"
| "player_call_effect W CallDispose p = after (Dispose W) p"
| "player_call_effect W (OnMessage msg) p = after (BusCallback W msg) p"
| "player_call_effect W OnDestroyNotify p = after BusCallbackDestroyNotify p"
| "player_call_effect W (OnParserPad e pad) p = after (OnParserSrcPadAdded W e pad) p"
| "player_call_effect W (OnPadAdded e pad) p = after (on_pad_added W e pad) p"
| "player_call_effect W (OnNoMorePads e) p = after (no_more_pads W e) p"
| "player_call_effect W (OnAudioSinkPad pad b) p = after (AudioSinkPadProbe W pad b) p"
| "player_call_effect W (OnAudioSourcePad pad b) p = after (AudioSourcePadProbe W pad b) p"
| "player_call_effect W (OnVideoDecoderPad pad b) p = after (VideoDecoderSrcProbe W pad b) p"
| "player_call_effect W (OnQueueOverrun e) p = after (queue_overrun W e) p"
| "player_call_effect W (OnQueueUnderrun e) p = after (queue_underrun W e) p"
| "player_call_effect W (OnFrame u e) p = after (OnAppSinkHaveFrame W u e) p"
| "player_call_effect W (OnPreroll u e) p = after (OnAppSinkPreroll W u e) p"

inductive player_step :: "pipe \<Rightarrow> pipe \<Rightarrow> bool" where
  call: "player_step p (player_call_effect W c p)"

inductive_cases player_stepE: "player_step p q"

inductive player_reach :: "pipe \<Rightarrow> pipe \<Rightarrow> bool" for p\<^sub>0 where
  start: "player_reach p\<^sub>0 p\<^sub>0"
| step: "player_reach p\<^sub>0 p \<Longrightarrow> player_step p q \<Longrightarrow> player_reach p\<^sub>0 q"

subsection \<open>What every call keeps\<close>

lemma call_rules:
  "state_io_rel (lock_rel 0) m \<Longrightarrow> lock_rel 0 p (after m p)"
  "state_io_rel view_rel m \<Longrightarrow> view_rel p (after m p)"
  by (simp_all add: io_rel_after)

lemma calm_getters [jfx_frame]:
  "state_io_rel calm_rel (GetVolume W)" "state_io_rel calm_rel (GetBalance W)" "state_io_rel calm_rel (GetAudioSyncDelay W)"
  unfolding GetVolume_def GetBalance_def GetAudioSyncDelay_def by (intro calm_rules jfx_frame; simp add: state_event_def)+

lemma lk_call: "lock_rel 0 p (player_call_effect W c p)"
  by (cases c) (auto simp: queue_overrun_def intro!: call_rules(1) jfx_lock)

lemma view_call: "view_rel p (player_call_effect W c p)"
  by (cases c) (auto simp: queue_overrun_def intro: call_rules(2) calm_view jfx_frame)

text \<open>The listener stays the same.\<close>

lemma calm_Dispatcher: "state_io_rel calm_rel m \<Longrightarrow> state_io_rel f_Dispatcher.same m"
  by (simp add: io_rel_after f_Dispatcher.same_def calm_rel_def)

lemma Dispatcher_modify: "(\<And>p. m_pEventDispatcher (f p) = m_pEventDispatcher p) \<Longrightarrow> state_io_rel f_Dispatcher.same (modify f)"
  by (simp add: io_rel_after f_Dispatcher.same_def)

lemmas Dispatcher_calm = calm_Is [THEN calm_Dispatcher] calm_handlers [THEN calm_Dispatcher] calm_buffering [THEN calm_Dispatcher]

lemma Dispatcher_bus_message: "state_io_rel f_Dispatcher.same (bus_message W msg)"
  unfolding bus_message_def bus_eos_def bus_error_def fatal_error_def bus_state_changed_def
  by (cases msg) (auto simp: mark_view intro!: f_Dispatcher.rules f_Dispatcher.control_same Dispatcher_modify
      Dispatcher_calm)

lemma Dispatcher_BusCallback: "state_io_rel f_Dispatcher.same (BusCallback W msg)"
  unfolding BusCallback_def by (intro f_Dispatcher.rules Dispatcher_bus_message)

lemma Dispatcher_call: "m_pEventDispatcher (player_call_effect W c p) = m_pEventDispatcher p"
proof (cases c)
  case (OnMessage msg)
  then show ?thesis
    using f_Dispatcher.sameD [OF Dispatcher_BusCallback] by simp
next
  case CallPause
  then show ?thesis
    using f_Dispatcher.sameD [OF f_Dispatcher.Pause_same] by simp
next
  case (CallSetRate r)
  then show ?thesis
    using f_Dispatcher.sameD [OF f_Dispatcher.SetRate_same] by simp
qed (simp_all only: player_call_effect.simps queue_overrun_def, (rule calmD(3), rule jfx_frame)+)

subsection \<open>Where each call may take the player\<close>

definition player_targets :: "player_call \<Rightarrow> PlayerState \<Rightarrow> PlayerState set" where
  "player_targets c s = (case c of
      OnMessage (MsgStateChanged src oldState newState pendingState) \<Rightarrow> set (player_edges s)
    | OnMessage (MsgError error) \<Rightarrow> {Error}
    | OnMessage MsgEOS \<Rightarrow> {Finished}
    | CallPause \<Rightarrow> if s \<in> {Stopped, Stalled} then {Paused} else {}
    | CallSetRate r \<Rightarrow> if r = 0 \<and> s \<in> {Stopped, Stalled} then {Paused} else {}
    | _ \<Rightarrow> {})"

lemma Pause_state: "m_PlayerState (after (Pause W) p) \<in> {m_PlayerState p} \<union> player_targets CallPause (m_PlayerState p)"
  by (auto simp: Pause_def player_targets_def IsPlayerState_def)

lemma SetRate_state: "m_PlayerState (after (SetRate W r) p) \<in> {m_PlayerState p} \<union> player_targets (CallSetRate r) (m_PlayerState p)"
  using Pause_state [of W "p\<lparr>log := GetState (container_get (m_Elements p) PIPELINE) # log p\<rparr>"]
  by (auto simp: SetRate_def player_targets_def IsPlayerState_def split_beta calmD [OF calm_Play] calmD [OF calm_SeekPipeline]
      calmD [OF calm_GetStreamTime] calmD [OF calm_prims(5)])

lemma bus_state_changed_state:
  "m_PlayerState (after (bus_state_changed W src s s' s'') p) \<in> {m_PlayerState p} \<union> set (player_edges (m_PlayerState p))"
proof -
  have "m_PlayerState (after (UpdatePlayerState W n old) q) \<in> {m_PlayerState p} \<union> set (player_edges (m_PlayerState p))"
    if "m_PlayerState q = m_PlayerState p" for q n old
    using UpdatePlayerState_edge [of W n old q] that by auto
  then show ?thesis
    unfolding bus_state_changed_def
    by (simp add: calmD [OF calm_handlers(3)] calmD [OF calm_buffering(2)] mark_view)
qed

lemma bus_message_state:
  "m_PlayerState (after (bus_message W msg) p) \<in> {m_PlayerState p} \<union> player_targets (OnMessage msg) (m_PlayerState p)"
proof (cases msg)
  case (MsgStateChanged src s s' s'')
  then show ?thesis
    using bus_state_changed_state [of W src s s' s'' p] by (simp add: bus_message_def player_targets_def)
next
  case (MsgError e)
  then show ?thesis
    using bus_error_effect(1) [of W e p] by (auto simp: bus_message_def player_targets_def)
qed (auto simp: bus_message_def player_targets_def bus_eos_def calmD [OF calm_handlers(1)] calmD [OF calm_handlers(2)]
  calmD [OF calm_handlers(4)] calmD [OF calm_handlers(5)] calmD [OF calm_buffering(1)] calmD [OF calm_buffering(3)]
  calmD [OF calm_buffering(4)])

lemma BusCallback_state:
  "m_PlayerState (after (BusCallback W msg) p) \<in> {m_PlayerState p} \<union> player_targets (OnMessage msg) (m_PlayerState p)"
  using bus_message_state [of W msg "after (enter DisposeLock) p"] not_live_BusCallback [of p W msg]
  by (cases "bus_live p") (auto simp: after_BusCallback)

lemma calm_call_state: "state_io_rel calm_rel m \<Longrightarrow> m_PlayerState (after m p) \<in> {m_PlayerState p} \<union> T"
  by (simp add: calmD)

text \<open>C9: Where a call may take the player: a state change of the pipeline moves it along the edges of the state machine,
  an error message only into \<^verbatim>\<open>Error\<close>, the end of the stream only into \<^verbatim>\<open>Finished\<close>, \<^verbatim>\<open>Pause\<close> (and a rate of zero) takes a
  stopped or stalled player to \<^verbatim>\<open>Paused\<close> at once, and no other call, message or callback changes the player state.\<close>

theorem player_call_targets:
  "m_PlayerState (player_call_effect W c p) \<in> {m_PlayerState p} \<union> player_targets c (m_PlayerState p)"
proof (cases c)
  case (OnMessage msg)
  then show ?thesis
    using BusCallback_state by simp
next
  case CallPause
  then show ?thesis
    using Pause_state by simp
next
  case (CallSetRate r)
  then show ?thesis
    using SetRate_state by simp
qed (simp_all only: player_call_effect.simps queue_overrun_def, (rule calm_call_state, rule jfx_frame)+)

subsection \<open>Runs\<close>

text \<open>In every run the locks are taken in order of their rank and none is kept, and the listener's view is right.\<close>

lemma player_runs_sound:
  assumes "player_reach p\<^sub>0 p" "held p\<^sub>0 = []" "\<not> bad_lock p\<^sub>0" "view_ok p\<^sub>0"
  shows "held p = [] \<and> \<not> bad_lock p \<and> view_ok p \<and> m_pEventDispatcher p = m_pEventDispatcher p\<^sub>0"
  using assms
proof (induction rule: player_reach.induct)
  case (step p q)
  from step.hyps(2) obtain W c where "q = player_call_effect W c p"
    by (rule player_stepE)
  with step lk_call [of p W c] view_call [of p W c] Dispatcher_call [of W c p] show ?case
    by (simp add: lock_rel_def view_rel_def)
qed simp

end
