(* ===== verification/Run_Loop.thy ===== *)
theory Run_Loop
  imports Media_Types
begin

text \<open>
  \<^verbatim>\<open>GstMediaManager.cpp\<close>: the manager and its main loop thread.  Three threads share the manager: the one in
  \<^verbatim>\<open>Init\<close>, the new one in \<^verbatim>\<open>run_loop\<close>, and one that calls \<^verbatim>\<open>StartMainLoop\<close>.  Each is a program counter with an
  executable step; a step is one synchronisation call, or the unsynchronised code up to the next one.  A step that is
  blocked has the value \<open>None\<close>.  \<^verbatim>\<open>g_cond_wait\<close> gives the mutex up and waits for a signal, of which those sent while
  nobody waits are lost, and may also wake up for no reason.
\<close>

subsection \<open>The manager\<close>

datatype thread_id = InitThread | LoopThread | StartThread

datatype init_pc =
    I_Lock | I_Test | I_Wait | I_Relock | I_Unlock | I_Check
  | I_ClearCond errcode | I_ClearMutex errcode | I_SetLog errcode | I_Return errcode

datatype loop_pc =
    L_Lock | L_Create | L_Unlock | L_Test | L_StartLock | L_StartTest | L_StartWait | L_StartRelock
  | L_StartUnlock | L_Run | L_Return

datatype start_pc = S_Idle | S_Enter | S_Lock | S_Set | S_Unlock

text \<open>The members, the owners of both mutexes, the program counters, whether the default log handler is set, and whether a
  mutex or condition was ever used before its initialisation or after its destruction.\<close>

record CGstMediaManager =
  m_bMainLoopCreateFailed :: bool
  m_pMainContext :: bool
  m_pMainLoop :: bool
  m_pMainLoopThread :: bool
  m_bClearRunloopMutex :: bool
  m_bClearRunloopCond :: bool
  m_bClearStartLoopMutex :: bool
  m_bClearStartLoopCond :: bool
  m_bStartMainLoop :: bool
  runloop_owner :: "thread_id option"
  startloop_owner :: "thread_id option"
  ipc :: init_pc
  lpc :: loop_pc
  spc :: start_pc
  log_handler :: bool
  sync_misused :: bool

definition CGstMediaManager_new :: CGstMediaManager where
  "CGstMediaManager_new =
     \<lparr>m_bMainLoopCreateFailed = False, m_pMainContext = False, m_pMainLoop = False, m_pMainLoopThread = False,
      m_bClearRunloopMutex = False, m_bClearRunloopCond = False, m_bClearStartLoopMutex = False,
      m_bClearStartLoopCond = False, m_bStartMainLoop = False, runloop_owner = None, startloop_owner = None,
      ipc = I_Lock, lpc = L_Lock, spc = S_Idle, log_handler = False, sync_misused = False\<rparr>"

text \<open>\<^verbatim>\<open>Init\<close> up to the creation of the thread: \<open>gst_ok\<close> and \<open>thread_ok\<close> are the results of \<^verbatim>\<open>gst_init_check\<close> and
  \<^verbatim>\<open>g_thread_new\<close>.\<close>

definition mgr_Init :: "bool \<Rightarrow> bool \<Rightarrow> CGstMediaManager \<Rightarrow> CGstMediaManager" where
  "mgr_Init gst_ok thread_ok s =
     (if \<not> gst_ok then s\<lparr>ipc := I_Return ERROR_MANAGER_ENGINEINIT_FAIL\<rparr>
      else let s = s\<lparr>m_bClearRunloopCond := True, m_bClearRunloopMutex := True, m_bClearStartLoopMutex := True,
                   m_bClearStartLoopCond := True, m_pMainLoopThread := thread_ok\<rparr>
           in if \<not> thread_ok then s\<lparr>ipc := I_Return ERROR_MANAGER_RUNLOOP_FAIL\<rparr> else s\<lparr>ipc := I_Lock\<rparr>)"

subsection \<open>Mutexes\<close>

definition lock_runloop :: "thread_id \<Rightarrow> CGstMediaManager \<Rightarrow> CGstMediaManager option" where
  "lock_runloop t s = (case runloop_owner s of
      None \<Rightarrow> Some (s\<lparr>runloop_owner := Some t, sync_misused := sync_misused s \<or> \<not> m_bClearRunloopMutex s\<rparr>)
    | Some _ \<Rightarrow> None)"

definition unlock_runloop :: "CGstMediaManager \<Rightarrow> CGstMediaManager" where
  "unlock_runloop s = s\<lparr>runloop_owner := None, sync_misused := sync_misused s \<or> \<not> m_bClearRunloopMutex s\<rparr>"

definition lock_startloop :: "thread_id \<Rightarrow> CGstMediaManager \<Rightarrow> CGstMediaManager option" where
  "lock_startloop t s = (case startloop_owner s of
      None \<Rightarrow> Some (s\<lparr>startloop_owner := Some t, sync_misused := sync_misused s \<or> \<not> m_bClearStartLoopMutex s\<rparr>)
    | Some _ \<Rightarrow> None)"

definition unlock_startloop :: "CGstMediaManager \<Rightarrow> CGstMediaManager" where
  "unlock_startloop s = s\<lparr>startloop_owner := None, sync_misused := sync_misused s \<or> \<not> m_bClearStartLoopMutex s\<rparr>"

definition signal_runloop :: "CGstMediaManager \<Rightarrow> CGstMediaManager" where
  "signal_runloop s = (if ipc s = I_Wait then s\<lparr>ipc := I_Relock\<rparr> else s)
     \<lparr>sync_misused := sync_misused s \<or> \<not> m_bClearRunloopCond s\<rparr>"

definition signal_startloop :: "CGstMediaManager \<Rightarrow> CGstMediaManager" where
  "signal_startloop s = (if lpc s = L_StartWait then s\<lparr>lpc := L_StartRelock\<rparr> else s)
     \<lparr>sync_misused := sync_misused s \<or> \<not> m_bClearStartLoopCond s\<rparr>"

subsection \<open>The threads\<close>

text \<open>\<^verbatim>\<open>Init\<close> after the creation of the thread.  A mutex that is destroyed while a thread owns it is misused.\<close>

definition Init_step :: "CGstMediaManager \<Rightarrow> CGstMediaManager option" where
  "Init_step s = (case ipc s of
      I_Lock \<Rightarrow> map_option (\<lambda>s. s\<lparr>ipc := I_Test\<rparr>) (lock_runloop InitThread s)
    | I_Test \<Rightarrow> Some (if m_pMainLoop s then s\<lparr>ipc := I_Unlock\<rparr> else (unlock_runloop s)\<lparr>ipc := I_Wait\<rparr>)
    | I_Wait \<Rightarrow> None
    | I_Relock \<Rightarrow> map_option (\<lambda>s. s\<lparr>ipc := I_Test\<rparr>) (lock_runloop InitThread s)
    | I_Unlock \<Rightarrow> Some ((unlock_runloop s)\<lparr>ipc := I_Check\<rparr>)
    | I_Check \<Rightarrow> Some (s\<lparr>ipc := I_ClearCond (if m_bMainLoopCreateFailed s then ERROR_GSTREAMER_MAIN_LOOP_CREATE else ERROR_NONE)\<rparr>)
    | I_ClearCond r \<Rightarrow> Some (s\<lparr>m_bClearRunloopCond := False, ipc := I_ClearMutex r\<rparr>)
    | I_ClearMutex r \<Rightarrow> Some (s\<lparr>m_bClearRunloopMutex := False, ipc := I_SetLog r,
        sync_misused := sync_misused s \<or> m_bClearRunloopMutex s \<and> runloop_owner s \<noteq> None\<rparr>)
    | I_SetLog r \<Rightarrow> Some (s\<lparr>log_handler := True, ipc := I_Return r\<rparr>)
    | I_Return r \<Rightarrow> None)"

text \<open>\<^verbatim>\<open>run_loop\<close>; \<open>loop_ok\<close> says whether \<^verbatim>\<open>g_main_loop_new\<close> succeeds.  The main loop runs until it is told to quit.\<close>

definition run_loop_step :: "bool \<Rightarrow> CGstMediaManager \<Rightarrow> CGstMediaManager option" where
  "run_loop_step loop_ok s = (case lpc s of
      L_Lock \<Rightarrow> map_option (\<lambda>s. s\<lparr>lpc := L_Create\<rparr>) (lock_runloop LoopThread s)
    | L_Create \<Rightarrow> Some (signal_runloop (s\<lparr>m_pMainContext := True, m_pMainLoop := loop_ok,
        m_bMainLoopCreateFailed := \<not> loop_ok, lpc := L_Unlock\<rparr>))
    | L_Unlock \<Rightarrow> Some ((unlock_runloop s)\<lparr>lpc := L_Test\<rparr>)
    | L_Test \<Rightarrow> Some (s\<lparr>lpc := if m_pMainLoop s then L_StartLock else L_Return\<rparr>)
    | L_StartLock \<Rightarrow> map_option (\<lambda>s. s\<lparr>lpc := L_StartTest\<rparr>) (lock_startloop LoopThread s)
    | L_StartTest \<Rightarrow> Some (if m_bStartMainLoop s then s\<lparr>lpc := L_StartUnlock\<rparr> else (unlock_startloop s)\<lparr>lpc := L_StartWait\<rparr>)
    | L_StartWait \<Rightarrow> None
    | L_StartRelock \<Rightarrow> map_option (\<lambda>s. s\<lparr>lpc := L_StartTest\<rparr>) (lock_startloop LoopThread s)
    | L_StartUnlock \<Rightarrow> Some ((unlock_startloop s)\<lparr>lpc := L_Run\<rparr>)
    | L_Run \<Rightarrow> None
    | L_Return \<Rightarrow> None)"

definition StartMainLoop_step :: "CGstMediaManager \<Rightarrow> CGstMediaManager option" where
  "StartMainLoop_step s = (case spc s of
      S_Idle \<Rightarrow> None
    | S_Enter \<Rightarrow> Some (s\<lparr>spc := if m_bStartMainLoop s then S_Idle else S_Lock\<rparr>)
    | S_Lock \<Rightarrow> map_option (\<lambda>s. s\<lparr>spc := S_Set\<rparr>) (lock_startloop StartThread s)
    | S_Set \<Rightarrow> Some (signal_startloop (s\<lparr>m_bStartMainLoop := True, spc := S_Unlock\<rparr>))
    | S_Unlock \<Rightarrow> Some ((unlock_startloop s)\<lparr>spc := S_Idle\<rparr>))"

text \<open>The moves of the system: a step of a thread, a call of \<^verbatim>\<open>StartMainLoop\<close> (a pipeline calls it on a manager that
  \<^verbatim>\<open>GetInstance\<close> gave it, that is after \<^verbatim>\<open>Init\<close> returned without an error), and the wake-ups without a signal.\<close>

datatype mgr_move = InitStep | LoopStep | StartStep | StartCall | SpuriousInit | SpuriousLoop

definition mgr_step :: "bool \<Rightarrow> mgr_move \<Rightarrow> CGstMediaManager \<Rightarrow> CGstMediaManager option" where
  "mgr_step loop_ok mv s = (case mv of
      InitStep \<Rightarrow> Init_step s
    | LoopStep \<Rightarrow> run_loop_step loop_ok s
    | StartStep \<Rightarrow> StartMainLoop_step s
    | StartCall \<Rightarrow> if spc s = S_Idle \<and> ipc s = I_Return ERROR_NONE then Some (s\<lparr>spc := S_Enter\<rparr>) else None
    | SpuriousInit \<Rightarrow> if ipc s = I_Wait then Some (s\<lparr>ipc := I_Relock\<rparr>) else None
    | SpuriousLoop \<Rightarrow> if lpc s = L_StartWait then Some (s\<lparr>lpc := L_StartRelock\<rparr>) else None)"

inductive mgr_reach :: "bool \<Rightarrow> CGstMediaManager \<Rightarrow> bool" for loop_ok where
  mgr_start: "mgr_reach loop_ok (mgr_Init True True CGstMediaManager_new)"
| mgr_next: "mgr_reach loop_ok s \<Longrightarrow> mgr_step loop_ok mv s = Some s' \<Longrightarrow> mgr_reach loop_ok s'"

text \<open>The destructor.  Destroying a mutex that a thread owns, or a condition a thread waits on, is a misuse.\<close>

definition CGstMediaManager_delete :: "CGstMediaManager \<Rightarrow> CGstMediaManager" where
  "CGstMediaManager_delete s =
     s\<lparr>sync_misused := sync_misused s \<or> (m_bClearRunloopMutex s \<and> runloop_owner s \<noteq> None) \<or> (m_bClearRunloopCond s \<and> ipc s = I_Wait) \<or>
         (m_bClearStartLoopMutex s \<and> startloop_owner s \<noteq> None) \<or> (m_bClearStartLoopCond s \<and> lpc s = L_StartWait),
       m_bClearRunloopCond := False, m_bClearRunloopMutex := False,
       lpc := (if m_pMainLoop s \<and> lpc s = L_Run then L_Return else lpc s),
       m_pMainLoop := False, m_pMainContext := False,
       m_bClearStartLoopMutex := False, m_bClearStartLoopCond := False\<rparr>"

text \<open>The default log handler: the level the message is logged with, if any; \<open>stop\<close> is the static member that the
  destructor sets.  The levels are bits of the flags GLib passes.\<close>

datatype logger_level = LOGGER_ERROR | LOGGER_WARNING | LOGGER_INFO | LOGGER_DEBUG

definition GlibLogFunc :: "bool \<Rightarrow> int \<Rightarrow> logger_level option" where
  "GlibLogFunc stop log_level =
     (if stop then None
      else if bit log_level 3 \<or> bit log_level 2 then Some LOGGER_ERROR
      else if bit log_level 4 then Some LOGGER_WARNING
      else if bit log_level 5 \<or> bit log_level 6 then Some LOGGER_INFO
      else if bit log_level 7 then Some LOGGER_DEBUG
      else None)"

subsection \<open>What the threads rely on\<close>

text \<open>Which mutex a program counter owns.\<close>

definition owns_runloop :: "CGstMediaManager \<Rightarrow> bool" where
  "owns_runloop s \<longleftrightarrow> (runloop_owner s = Some InitThread \<longleftrightarrow> ipc s \<in> {I_Test, I_Unlock}) \<and>
     (runloop_owner s = Some LoopThread \<longleftrightarrow> lpc s \<in> {L_Create, L_Unlock}) \<and> runloop_owner s \<noteq> Some StartThread"

definition owns_startloop :: "CGstMediaManager \<Rightarrow> bool" where
  "owns_startloop s \<longleftrightarrow> (startloop_owner s = Some LoopThread \<longleftrightarrow> lpc s \<in> {L_StartTest, L_StartUnlock}) \<and>
     (startloop_owner s = Some StartThread \<longleftrightarrow> spc s \<in> {S_Set, S_Unlock}) \<and> startloop_owner s \<noteq> Some InitThread"

text \<open>\<^verbatim>\<open>Init\<close> has seen the main loop.\<close>

definition passed :: "init_pc \<Rightarrow> bool" where
  "passed i = (case i of I_Lock \<Rightarrow> False | I_Test \<Rightarrow> False | I_Wait \<Rightarrow> False | I_Relock \<Rightarrow> False | _ \<Rightarrow> True)"

fun init_code :: "init_pc \<Rightarrow> errcode option" where
  "init_code (I_ClearCond r) = Some r"
| "init_code (I_ClearMutex r) = Some r"
| "init_code (I_SetLog r) = Some r"
| "init_code (I_Return r) = Some r"
| "init_code _ = None"

definition mgr_inv :: "bool \<Rightarrow> CGstMediaManager \<Rightarrow> bool" where
  "mgr_inv loop_ok s \<longleftrightarrow> \<not> sync_misused s \<and> owns_runloop s \<and> owns_startloop s \<and>
     (m_pMainLoop s \<longleftrightarrow> loop_ok \<and> lpc s \<notin> {L_Lock, L_Create}) \<and>
     (m_bMainLoopCreateFailed s \<longleftrightarrow> \<not> loop_ok \<and> lpc s \<notin> {L_Lock, L_Create}) \<and>
     (passed (ipc s) \<longrightarrow> loop_ok \<and> lpc s \<notin> {L_Lock, L_Create, L_Unlock}) \<and>
     (ipc s = I_Wait \<longrightarrow> lpc s \<in> {L_Lock, L_Create} \<or> \<not> loop_ok) \<and>
     (case init_code (ipc s) of None \<Rightarrow> True | Some r \<Rightarrow> r = ERROR_NONE) \<and>
     (m_bClearRunloopMutex s \<longleftrightarrow> (case ipc s of I_SetLog _ \<Rightarrow> False | I_Return _ \<Rightarrow> False | _ \<Rightarrow> True)) \<and>
     (m_bClearRunloopCond s \<longleftrightarrow> (case ipc s of I_ClearMutex _ \<Rightarrow> False | I_SetLog _ \<Rightarrow> False | I_Return _ \<Rightarrow> False | _ \<Rightarrow> True)) \<and>
     m_bClearStartLoopMutex s \<and> m_bClearStartLoopCond s \<and>
     (lpc s \<in> {L_StartUnlock, L_Run} \<longrightarrow> m_bStartMainLoop s) \<and> (lpc s = L_StartWait \<longrightarrow> \<not> m_bStartMainLoop s) \<and>
     (lpc s = L_Return \<longrightarrow> \<not> loop_ok) \<and> (spc s \<noteq> S_Idle \<longrightarrow> ipc s = I_Return ERROR_NONE) \<and>
     (m_bStartMainLoop s \<longrightarrow> loop_ok)"

lemmas mgr_defs = lock_runloop_def unlock_runloop_def lock_startloop_def unlock_startloop_def signal_runloop_def
  signal_startloop_def

lemmas inv_defs = mgr_inv_def owns_runloop_def owns_startloop_def passed_def

lemma mgr_invD:
  assumes "mgr_inv ok s"
  shows "\<not> sync_misused s" "lpc s = L_Run \<Longrightarrow> m_bStartMainLoop s" "lpc s = L_StartWait \<Longrightarrow> \<not> m_bStartMainLoop s"
    "ipc s = I_Return r \<Longrightarrow> r = ERROR_NONE" "passed (ipc s) \<Longrightarrow> m_pMainLoop s" "passed (ipc s) \<Longrightarrow> ok"
    "passed (ipc s) \<Longrightarrow> lpc s \<noteq> L_Lock" "spc s \<noteq> S_Idle \<Longrightarrow> ipc s = I_Return ERROR_NONE"
    "owns_runloop s" "owns_startloop s" "m_bClearStartLoopCond s" "ipc s = I_Wait \<Longrightarrow> ok \<Longrightarrow> lpc s = L_Lock \<or> lpc s = L_Create"
  using assms unfolding mgr_inv_def by simp_all

lemma mgr_inv_Init_step: "mgr_inv ok s \<Longrightarrow> Init_step s = Some s' \<Longrightarrow> mgr_inv ok s'"
  unfolding Init_step_def mgr_defs inv_defs
  by (cases "ipc s"; cases "lpc s"; simp split: option.splits if_splits; clarsimp; metis thread_id.exhaust)

lemma mgr_inv_run_loop_step: "mgr_inv ok s \<Longrightarrow> run_loop_step ok s = Some s' \<Longrightarrow> mgr_inv ok s'"
  unfolding run_loop_step_def mgr_defs inv_defs
  by (cases "lpc s"; cases "ipc s"; simp split: option.splits if_splits; clarsimp)

lemma mgr_inv_StartMainLoop_step: "mgr_inv ok s \<Longrightarrow> StartMainLoop_step s = Some s' \<Longrightarrow> mgr_inv ok s'"
  unfolding StartMainLoop_step_def mgr_defs inv_defs
  by (cases "spc s"; cases "lpc s"; simp split: option.splits if_splits; clarsimp)

lemma mgr_inv_call: "mgr_inv ok s \<Longrightarrow> ipc s = I_Return ERROR_NONE \<Longrightarrow> spc s = S_Idle \<Longrightarrow> mgr_inv ok (s\<lparr>spc := S_Enter\<rparr>)"
  unfolding inv_defs by (simp; blast)

lemma mgr_inv_spurious:
  "mgr_inv ok s \<Longrightarrow> ipc s = I_Wait \<Longrightarrow> mgr_inv ok (s\<lparr>ipc := I_Relock\<rparr>)"
  "mgr_inv ok s \<Longrightarrow> lpc s = L_StartWait \<Longrightarrow> mgr_inv ok (s\<lparr>lpc := L_StartRelock\<rparr>)"
  unfolding inv_defs by (simp; blast)+

lemma mgr_inv_step: "mgr_inv ok s \<Longrightarrow> mgr_step ok mv s = Some s' \<Longrightarrow> mgr_inv ok s'"
  unfolding mgr_step_def
  by (cases mv) (auto intro: mgr_inv_Init_step mgr_inv_run_loop_step mgr_inv_StartMainLoop_step mgr_inv_call mgr_inv_spurious
      split: if_splits)

lemma mgr_inv_reach: "mgr_reach ok s \<Longrightarrow> mgr_inv ok s"
proof (induction rule: mgr_reach.induct)
  case mgr_start
  then show ?case by (simp add: mgr_Init_def CGstMediaManager_new_def inv_defs)
next
  case (mgr_next s mv s')
  then show ?case by (blast intro: mgr_inv_step)
qed

text \<open>Schedules: the moves in their order; a blocked move ends the run.\<close>

fun mgr_run :: "bool \<Rightarrow> mgr_move list \<Rightarrow> CGstMediaManager \<Rightarrow> CGstMediaManager option" where
  "mgr_run ok [] s = Some s"
| "mgr_run ok (mv # mvs) s = (case mgr_step ok mv s of None \<Rightarrow> None | Some s' \<Rightarrow> mgr_run ok mvs s')"

lemma mgr_run_reach: "mgr_run ok mvs s = Some s' \<Longrightarrow> mgr_reach ok s \<Longrightarrow> mgr_reach ok s'"
  by (induction mvs arbitrary: s) (auto split: option.splits intro: mgr_reach.mgr_next)

text \<open>C36: In every interleaving of \<^verbatim>\<open>Init\<close>, \<^verbatim>\<open>run_loop\<close> and \<^verbatim>\<open>StartMainLoop\<close>, wake-ups without a signal included: no mutex
  and no condition is used after it was destroyed or destroyed while it is owned, although \<^verbatim>\<open>Init\<close> destroys the first pair
  while the other thread runs; \<^verbatim>\<open>Init\<close> returns only when the main loop exists, and then without an error; and the main
  loop runs only after \<^verbatim>\<open>StartMainLoop\<close>.\<close>

theorem run_loop_synchronised:
  assumes "mgr_reach ok s"
  shows "\<not> sync_misused s \<and> (\<not> m_bClearRunloopMutex s \<longrightarrow> runloop_owner s = None) \<and>
     (\<forall>r. ipc s = I_Return r \<longrightarrow> r = ERROR_NONE \<and> m_pMainLoop s) \<and> (lpc s = L_Run \<longrightarrow> m_bStartMainLoop s)"
proof -
  have inv: "mgr_inv ok s" by (rule mgr_inv_reach [OF assms])
  have "runloop_owner s = None" if "\<not> m_bClearRunloopMutex s"
  proof (rule ccontr)
    assume "runloop_owner s \<noteq> None"
    then obtain t where "runloop_owner s = Some t" by blast
    then show False using inv that unfolding inv_defs by (cases t; cases "ipc s"; simp)
  qed
  with mgr_invD [OF inv] show ?thesis by (simp add: passed_def)
qed

definition demo_schedule :: "mgr_move list" where
  "demo_schedule = [InitStep, InitStep, LoopStep, LoopStep, LoopStep, InitStep, LoopStep, InitStep, LoopStep, InitStep, InitStep,
     InitStep, InitStep, InitStep, LoopStep, StartCall, StartStep, StartStep, StartStep, StartStep, LoopStep, LoopStep, LoopStep]"

lemma demo_run: "\<exists>s. mgr_run True demo_schedule (mgr_Init True True CGstMediaManager_new) = Some s \<and> ipc s = I_Return ERROR_NONE \<and> lpc s = L_Run"
  by (simp add: demo_schedule_def mgr_step_def Init_step_def run_loop_step_def StartMainLoop_step_def mgr_defs
      mgr_Init_def CGstMediaManager_new_def)

theorem run_loop_synchronised_witness:
  "\<exists>s. mgr_reach True s \<and> ipc s = I_Return ERROR_NONE \<and> lpc s = L_Run \<and> m_pMainLoop s \<and> m_bStartMainLoop s \<and> \<not> sync_misused s"
proof -
  obtain s where s: "mgr_run True demo_schedule (mgr_Init True True CGstMediaManager_new) = Some s" "ipc s = I_Return ERROR_NONE" "lpc s = L_Run"
    using demo_run by blast
  have "mgr_reach True s" by (rule mgr_run_reach [OF s(1) mgr_start])
  with s run_loop_synchronised [OF this] show ?thesis by blast
qed

subsection \<open>Nobody waits forever\<close>

text \<open>What is left to do: every step of a thread makes it smaller, a signal pays for the wake-up it causes.\<close>

fun init_rank :: "init_pc \<Rightarrow> nat" where
  "init_rank I_Lock = 10" | "init_rank I_Relock = 9" | "init_rank I_Test = 8" | "init_rank I_Wait = 7" | "init_rank I_Unlock = 6"
| "init_rank I_Check = 5" | "init_rank (I_ClearCond r) = 4" | "init_rank (I_ClearMutex r) = 3" | "init_rank (I_SetLog r) = 2"
| "init_rank (I_Return r) = 0"

fun loop_rank :: "loop_pc \<Rightarrow> nat" where
  "loop_rank L_Lock = 20" | "loop_rank L_Create = 19" | "loop_rank L_Unlock = 16" | "loop_rank L_Test = 13" | "loop_rank L_StartLock = 12"
| "loop_rank L_StartRelock = 11" | "loop_rank L_StartTest = 10" | "loop_rank L_StartWait = 9" | "loop_rank L_StartUnlock = 8"
| "loop_rank L_Run = 0" | "loop_rank L_Return = 0"

fun start_rank :: "start_pc \<Rightarrow> nat" where
  "start_rank S_Enter = 6" | "start_rank S_Lock = 5" | "start_rank S_Set = 4" | "start_rank S_Unlock = 1" | "start_rank S_Idle = 0"

definition mgr_rank :: "CGstMediaManager \<Rightarrow> nat" where
  "mgr_rank s = init_rank (ipc s) + loop_rank (lpc s) + start_rank (spc s)"

lemma mgr_rank_step: "mgr_step ok mv s = Some s' \<Longrightarrow> mv \<in> {InitStep, LoopStep, StartStep} \<Longrightarrow> mgr_rank s' < mgr_rank s"
proof -
  assume st: "mgr_step ok mv s = Some s'" and mv: "mv \<in> {InitStep, LoopStep, StartStep}"
  have "mgr_rank s' < mgr_rank s" if "Init_step s = Some s'"
    using that unfolding Init_step_def mgr_defs mgr_rank_def by (cases "ipc s"; simp split: option.splits if_splits; clarsimp)
  moreover have "mgr_rank s' < mgr_rank s" if "run_loop_step ok s = Some s'"
    using that unfolding run_loop_step_def mgr_defs mgr_rank_def by (cases "lpc s"; simp split: option.splits if_splits; clarsimp)
  moreover have "mgr_rank s' < mgr_rank s" if "StartMainLoop_step s = Some s'"
    using that unfolding StartMainLoop_step_def mgr_defs mgr_rank_def by (cases "spc s"; simp split: option.splits if_splits; clarsimp)
  ultimately show ?thesis using st mv by (auto simp: mgr_step_def)
qed

lemma mgr_run_short: "mgr_run ok mvs s = Some s' \<Longrightarrow> set mvs \<subseteq> {InitStep, LoopStep, StartStep} \<Longrightarrow> length mvs + mgr_rank s' \<le> mgr_rank s"
proof (induction mvs arbitrary: s)
  case (Cons mv mvs)
  then obtain t where t: "mgr_step ok mv s = Some t" "mgr_run ok mvs t = Some s'" by (auto split: option.splits)
  then have "mgr_rank t < mgr_rank s" using mgr_rank_step Cons.prems(2) by auto
  with Cons.IH [OF t(2)] Cons.prems(2) show ?case by auto
qed simp

lemma lock_blocked: "lock_runloop t s = None \<longleftrightarrow> runloop_owner s \<noteq> None" "lock_startloop t s = None \<longleftrightarrow> startloop_owner s \<noteq> None"
  by (auto simp: lock_runloop_def lock_startloop_def split: option.splits)

lemma mgr_stuck:
  assumes "mgr_inv True s" "\<forall>mv \<in> {InitStep, LoopStep, StartStep}. mgr_step True mv s = None"
  shows "ipc s = I_Return ERROR_NONE \<and> spc s = S_Idle \<and> lpc s = (if m_bStartMainLoop s then L_Run else L_StartWait)"
proof -
  have st: "Init_step s = None" "run_loop_step True s = None" "StartMainLoop_step s = None"
    using assms(2) by (simp_all add: mgr_step_def)
  have s: "spc s = S_Idle \<or> spc s = S_Lock \<and> startloop_owner s = Some LoopThread"
    using st(3) assms(1) unfolding StartMainLoop_step_def inv_defs by (cases "spc s"; simp add: lock_blocked; metis thread_id.exhaust)
  then have l: "lpc s \<in> {L_StartWait, L_Run} \<or> lpc s = L_Lock \<and> runloop_owner s = Some InitThread"
    using st(2) assms(1) unfolding run_loop_step_def inv_defs by (cases "lpc s"; simp add: lock_blocked; metis thread_id.exhaust)
  have "runloop_owner s \<noteq> Some LoopThread" "runloop_owner s \<noteq> Some StartThread" "runloop_owner s = Some InitThread \<Longrightarrow> ipc s = I_Test \<or> ipc s = I_Unlock"
    using l mgr_invD(9) [OF assms(1)] unfolding owns_runloop_def by auto
  then have o: "runloop_owner s \<noteq> None \<Longrightarrow> ipc s = I_Test \<or> ipc s = I_Unlock"
    by (metis not_None_eq thread_id.exhaust)
  have w: "ipc s \<noteq> I_Wait"
    using l mgr_invD(12) [OF assms(1)] o by auto
  have i: "ipc s = I_Return ERROR_NONE"
    using st(1) o w mgr_invD(4) [OF assms(1)] unfolding Init_step_def by (cases "ipc s") (auto simp: lock_blocked)
  have l': "lpc s = L_StartWait \<or> lpc s = L_Run"
    using l i mgr_invD(7) [OF assms(1)] by (auto simp: passed_def)
  then have "startloop_owner s \<noteq> Some LoopThread"
    using mgr_invD(10) [OF assms(1)] unfolding owns_startloop_def by auto
  with s i l' mgr_invD(2,3) [OF assms(1)] show ?thesis by auto
qed



text \<open>When \<^verbatim>\<open>g_main_loop_new\<close> fails, \<^verbatim>\<open>Init\<close> never returns: it waits for a main loop that will not come, and the
  error code for this case is unreachable.\<close>

theorem Init_hangs_without_loop:
  assumes "mgr_reach False s"
  shows "ipc s \<in> {I_Lock, I_Test, I_Wait, I_Relock}"
  using mgr_invD(6) [OF mgr_inv_reach [OF assms]] by (cases "ipc s") (auto simp: passed_def)

theorem Init_hangs_without_loop_witness:
  "\<exists>s. mgr_reach False s \<and> ipc s = I_Wait \<and> lpc s = L_Return"
proof -
  obtain s where s: "mgr_run False [LoopStep, LoopStep, LoopStep, LoopStep, InitStep, InitStep] (mgr_Init True True CGstMediaManager_new) = Some s"
    "lpc s = L_Return" "ipc s \<noteq> I_Lock" "ipc s \<noteq> I_Test" "ipc s \<noteq> I_Relock"
    by (simp add: mgr_step_def Init_step_def run_loop_step_def mgr_defs mgr_Init_def CGstMediaManager_new_def)
  have "mgr_reach False s" by (rule mgr_run_reach [OF s(1) mgr_start])
  with s Init_hangs_without_loop [OF this] show ?thesis by auto
qed

text \<open>The destructor does not wait for the main loop thread: when \<^verbatim>\<open>StartMainLoop\<close> was never called it destroys the condition the
  thread is waiting on.\<close>

theorem delete_while_waiting:
  assumes "mgr_reach ok s" "lpc s = L_StartWait"
  shows "sync_misused (CGstMediaManager_delete s) \<and> lpc (CGstMediaManager_delete s) = L_StartWait"
  using mgr_invD(11) [OF mgr_inv_reach [OF assms(1)]] assms(2) by (simp add: CGstMediaManager_delete_def)

theorem delete_while_waiting_witness:
  "\<exists>s. mgr_reach True s \<and> sync_misused (CGstMediaManager_delete s)"
proof -
  obtain s where s: "mgr_run True [LoopStep, LoopStep, LoopStep, LoopStep, LoopStep, LoopStep] (mgr_Init True True CGstMediaManager_new) = Some s"
    "lpc s = L_StartWait"
    by (simp add: mgr_step_def run_loop_step_def mgr_defs mgr_Init_def CGstMediaManager_new_def)
  have "mgr_reach True s" by (rule mgr_run_reach [OF s(1) mgr_start])
  with delete_while_waiting [OF this s(2)] show ?thesis by blast
qed

end
