(* ===== verification/Media_Manager.thy ===== *)
theory Media_Manager
  imports Factory_Results Run_Loop
begin

text \<open>
  The way from the Java side to a pipeline: the singletons (\<^verbatim>\<open>Singleton.h\<close>) of the media manager (\<^verbatim>\<open>MediaManager.cpp\<close>)
  and of the pipeline factory (\<^verbatim>\<open>PipelineFactory.cpp\<close>), locators (\<^verbatim>\<open>Locator.cpp\<close>, \<^verbatim>\<open>LocatorStream.cpp\<close>), media objects
  (\<^verbatim>\<open>Media.cpp\<close>) and their creation (\<^verbatim>\<open>GstMedia.cpp\<close>, \<^verbatim>\<open>GstPlatform.cpp\<close>).  Allocations and JNI calls succeed or fail as
  the environment says.
\<close>

subsection \<open>Locators\<close>

record CLocator =
  loc_type :: LocatorType
  loc_contentType :: string
  loc_location :: string
  loc_sizeHint :: int

definition CLocator_new :: "LocatorType \<Rightarrow> string \<Rightarrow> string \<Rightarrow> CLocator" where
  "CLocator_new type contentType location =
     \<lparr>loc_type = type, loc_contentType = contentType, loc_location = location, loc_sizeHint = - 1\<rparr>"

definition CLocator_new_sized :: "LocatorType \<Rightarrow> string \<Rightarrow> string \<Rightarrow> int \<Rightarrow> CLocator" where
  "CLocator_new_sized type contentType location llSizeHint =
     \<lparr>loc_type = type, loc_contentType = contentType, loc_location = location, loc_sizeHint = llSizeHint\<rparr>"

definition CLocatorStream_new :: "CStreamCallbacks \<Rightarrow> string \<Rightarrow> string \<Rightarrow> int \<Rightarrow> CLocatorStream" where
  "CLocatorStream_new callbacks contentType location llSizeHint =
     (let base = CLocator_new_sized kStreamLocatorType contentType location llSizeHint
      in \<lparr>l_type = loc_type base, l_contentType = loc_contentType base, l_location = loc_location base,
          l_llSizeHint = loc_sizeHint base, l_callbacks = Some callbacks, l_audioCallbacks = None\<rparr>)"

subsection \<open>Singletons\<close>

text \<open>The objects of the engine.  \<open>lost_managers\<close> counts the managers that were created and then dropped.\<close>

record engine =
  media_manager :: bool
  pipeline_factory :: bool
  m_pWarningListener :: "nat option"
  lost_managers :: nat

text \<open>\<^verbatim>\<open>Singleton<T>::GetInstance\<close>: \<open>has\<close> says whether \<^verbatim>\<open>_instance\<close> is set, \<open>create\<close> is \<^verbatim>\<open>T::CreateInstance\<close>.\<close>

definition Singleton_GetInstance :: "('s \<Rightarrow> bool) \<Rightarrow> ('s \<Rightarrow> errcode \<times> 's) \<Rightarrow> 's \<Rightarrow> errcode \<times> 's" where
  "Singleton_GetInstance has create s = (if \<not> has s then create s else (ERROR_NONE, s))"

record engine_env =
  en_os :: target_os
  en_new_manager :: bool
  en_manager_Init :: errcode
  en_new_factory :: bool
  en_new_options :: bool
  en_new_media :: bool

definition CMediaManager_CreateInstance :: "engine_env \<Rightarrow> engine \<Rightarrow> errcode \<times> engine" where
  "CMediaManager_CreateInstance E s =
     (if en_os E = TARGET_OS_OTHER then (ERROR_OS_UNSUPPORTED, s)
      else if \<not> en_new_manager E then (ERROR_MEMORY_ALLOCATION, s)
      else if en_manager_Init E \<noteq> ERROR_NONE then (ERROR_MANAGER_CREATION, s\<lparr>lost_managers := lost_managers s + 1\<rparr>)
      else (ERROR_NONE, s\<lparr>media_manager := True\<rparr>))"

definition CMediaManager_GetInstance :: "engine_env \<Rightarrow> engine \<Rightarrow> errcode \<times> engine" where
  "CMediaManager_GetInstance E = Singleton_GetInstance media_manager (CMediaManager_CreateInstance E)"

definition CPipelineFactory_CreateInstance :: "engine_env \<Rightarrow> engine \<Rightarrow> errcode \<times> engine" where
  "CPipelineFactory_CreateInstance E s =
     (let s = s\<lparr>pipeline_factory := en_new_factory E\<rparr>
      in (if \<not> pipeline_factory s then ERROR_MEMORY_ALLOCATION else ERROR_NONE, s))"

definition CPipelineFactory_GetInstance :: "engine_env \<Rightarrow> engine \<Rightarrow> errcode \<times> engine" where
  "CPipelineFactory_GetInstance E = Singleton_GetInstance pipeline_factory (CPipelineFactory_CreateInstance E)"

definition SetWarningListener :: "nat \<Rightarrow> engine \<Rightarrow> engine" where
  "SetWarningListener l s = s\<lparr>m_pWarningListener := Some l\<rparr>"

text \<open>\<^verbatim>\<open>gstInitPlatform\<close>; the listener is the new object, if it can be allocated.\<close>

definition gstInitPlatform :: "engine_env \<Rightarrow> nat option \<Rightarrow> engine \<Rightarrow> errcode \<times> engine" where
  "gstInitPlatform E listener s =
     (case CMediaManager_GetInstance E s of (uErrorCode, s) \<Rightarrow>
        if uErrorCode \<noteq> ERROR_NONE then (uErrorCode, s)
        else if \<not> media_manager s then (ERROR_MANAGER_NULL, s)
        else case listener of None \<Rightarrow> (ERROR_MEMORY_ALLOCATION, s) | Some l \<Rightarrow> (ERROR_NONE, SetWarningListener l s))"

text \<open>A warning that belongs to no pipeline: \<open>Faults\<close> when no listener was set.\<close>

definition MediaWarning :: "engine_env \<Rightarrow> int \<Rightarrow> engine \<Rightarrow> (engine \<times> (nat \<times> int) option) outcome" where
  "MediaWarning E warningCode s =
     (case CMediaManager_GetInstance E s of (uErrorCode, s) \<Rightarrow>
        if uErrorCode \<noteq> ERROR_NONE then Returns (s, None)
        else case m_pWarningListener s of None \<Rightarrow> Faults | Some l \<Rightarrow> Returns (s, Some (l, warningCode)))"

subsection \<open>Media\<close>

record CMedia =
  m_pPipeline :: "pipe option"

definition CMedia_new :: "pipe option \<Rightarrow> CMedia" where
  "CMedia_new pPipe = \<lparr>m_pPipeline = pPipe\<rparr>"

definition CMedia_IsValid :: "CMedia option \<Rightarrow> bool" where
  "CMedia_IsValid pMedia = (case pMedia of None \<Rightarrow> False | Some md \<Rightarrow> m_pPipeline md \<noteq> None)"

definition CMedia_GetPipeline :: "CMedia \<Rightarrow> pipe option" where
  "CMedia_GetPipeline md = m_pPipeline md"

text \<open>The result of \<^verbatim>\<open>CreatePlayer\<close>: the error code, the media object, whether the pipeline was deleted again, and whether
  options that were allocated for the call are left without an owner.\<close>

record player_result =
  pr_code :: errcode
  pr_media :: "CMedia option"
  pr_deleted :: bool
  pr_options_lost :: bool

definition no_player :: "errcode \<Rightarrow> player_result" where
  "no_player err = \<lparr>pr_code = err, pr_media = None, pr_deleted = False, pr_options_lost = False\<rparr>"

definition CreatePlayer ::
  "engine_env \<Rightarrow> fworld \<Rightarrow> int \<times> bool \<Rightarrow> CLocatorStream option \<Rightarrow> CPipelineOptions option \<Rightarrow> engine \<Rightarrow> player_result \<times> engine" where
  "CreatePlayer E W u pLocator pOptions s =
     (case pLocator of
        None \<Rightarrow> (no_player ERROR_LOCATOR_NULL, s)
      | Some locator \<Rightarrow>
          (case CPipelineFactory_GetInstance E s of (uRetCode, s) \<Rightarrow>
             if uRetCode \<noteq> ERROR_NONE then (no_player uRetCode, s)
             else if \<not> pipeline_factory s then (no_player ERROR_FACTORY_NULL, s)
             else if pOptions = None \<and> \<not> en_new_options E then (no_player ERROR_MEMORY_ALLOCATION, s)
             else
               let opts = (case pOptions of None \<Rightarrow> CPipelineOptions_new | Some opts \<Rightarrow> opts);
                   start = \<lparr>f_log = [], f_elems = GstElementContainer_new, f_opts = opts\<rparr>
               in (case fst (run_state (CreatePlayerPipeline W u (Some locator)) start) of
                     Inl uRetCode \<Rightarrow> ((no_player uRetCode)\<lparr>pr_options_lost := (pOptions = None)\<rparr>, s)
                   | Inr pPipeline \<Rightarrow>
                       if en_new_media E then
                         (\<lparr>pr_code = ERROR_NONE, pr_media = Some (CMedia_new (Some pPipeline)), pr_deleted = False,
                           pr_options_lost = False\<rparr>, s)
                       else (\<lparr>pr_code = ERROR_MEDIA_CREATION, pr_media = None, pr_deleted = True, pr_options_lost = False\<rparr>, s))))"

subsection \<open>Creation of a media object from Java\<close>

text \<open>What \<^verbatim>\<open>InitMedia\<close> acquires, and the results of the calls with which it does.\<close>

datatype media_resource = ContentChars | LocationChars | StreamCallbacks | AudioStreamCallbacks | LocatorObject

record init_env =
  ie_contentChars :: bool
  ie_location :: bool
  ie_locationChars :: bool
  ie_callbacks :: bool
  ie_holder :: bool
  ie_callbacks_Init :: bool
  ie_locator :: bool
  ie_hasAudioStream :: bool
  ie_audioCallbacks :: bool
  ie_audioHolder :: bool
  ie_audioCallbacks_Init :: bool

text \<open>The error code, the media object whose handle is stored, and what is still left on return.\<close>

record media_result =
  mr_code :: errcode
  mr_handle :: "CMedia option"
  mr_held :: "media_resource set"

definition media_error :: "errcode \<Rightarrow> media_resource set \<Rightarrow> media_result" where
  "media_error err left = \<lparr>mr_code = err, mr_handle = None, mr_held = left\<rparr>"

text \<open>The end of \<^verbatim>\<open>InitMedia\<close>, with the locator and the callbacks in hand; both strings are released.\<close>

definition finish_media :: "player_result \<Rightarrow> media_resource set \<Rightarrow> media_result" where
  "finish_media r left =
     (let uErrCode = (if pr_code r = ERROR_NONE \<and> \<not> CMedia_IsValid (pr_media r) then ERROR_MEDIA_INVALID else pr_code r)
      in \<lparr>mr_code = uErrCode, mr_handle = (if uErrCode = ERROR_NONE then pr_media r else None), mr_held = left - {LocatorObject}\<rparr>)"

definition InitMedia ::
  "engine_env \<Rightarrow> init_env \<Rightarrow> fworld \<Rightarrow> int \<times> bool \<Rightarrow> CPipelineOptions option \<Rightarrow> CStreamCallbacks \<Rightarrow> CStreamCallbacks \<Rightarrow> string
     \<Rightarrow> string \<Rightarrow> int \<Rightarrow> engine \<Rightarrow> media_result \<times> engine" where
  "InitMedia E I W u pOptions cb audio_cb content location sizeHint s =
     (let chars = (if ie_contentChars I then {ContentChars} else {})
      in case CMediaManager_GetInstance E s of (uErrCode, s) \<Rightarrow>
        if uErrCode \<noteq> ERROR_NONE then (media_error uErrCode chars, s)
        else if \<not> ie_contentChars I then (media_error ERROR_MEMORY_ALLOCATION chars, s)
        else if \<not> ie_location I then (media_error ERROR_MEMORY_ALLOCATION chars, s)
        else if \<not> ie_locationChars I then (media_error ERROR_MEMORY_ALLOCATION {}, s)
        else if \<not> media_manager s then (media_error ERROR_MANAGER_NULL {}, s)
        else if \<not> ie_callbacks I \<or> \<not> ie_holder I then
          (media_error ERROR_MEMORY_ALLOCATION ({ContentChars, LocationChars} \<union> (if ie_callbacks I then {StreamCallbacks} else {})), s)
        else if \<not> ie_callbacks_Init I then (media_error ERROR_MEDIA_CREATION {}, s)
        else if \<not> ie_locator I then (media_error ERROR_MEMORY_ALLOCATION {}, s)
        else
          let locator = CLocatorStream_new cb content location sizeHint
          in if ie_hasAudioStream I \<and> (\<not> ie_audioCallbacks I \<or> \<not> ie_audioHolder I) then
               (media_error ERROR_MEMORY_ALLOCATION (if ie_audioCallbacks I then {AudioStreamCallbacks} else {}), s)
             else if ie_hasAudioStream I \<and> \<not> ie_audioCallbacks_Init I then (media_error ERROR_MEDIA_CREATION {}, s)
             else
               let locator = (if ie_hasAudioStream I then locator\<lparr>l_audioCallbacks := Some audio_cb\<rparr> else locator);
                   left = {StreamCallbacks, LocatorObject} \<union> (if ie_hasAudioStream I then {AudioStreamCallbacks} else {})
               in (case CreatePlayer E W u (Some locator) pOptions s of (r, s) \<Rightarrow> (finish_media r left, s)))"

text \<open>The entry point, which passes no options.\<close>

definition gstInitNativeMedia ::
  "engine_env \<Rightarrow> init_env \<Rightarrow> fworld \<Rightarrow> int \<times> bool \<Rightarrow> CStreamCallbacks \<Rightarrow> CStreamCallbacks \<Rightarrow> string \<Rightarrow> string \<Rightarrow> int \<Rightarrow> engine
     \<Rightarrow> media_result \<times> engine" where
  "gstInitNativeMedia E I W u cb audio_cb content location sizeHint s =
     InitMedia E I W u None cb audio_cb content location sizeHint s"

subsection \<open>What the singletons promise\<close>

text \<open>The contract of \<^verbatim>\<open>CreateInstance\<close> on which \<^verbatim>\<open>Singleton\<close> relies: it sets the instance exactly when it reports success.\<close>

locale instance_provider =
  fixes has :: "'s \<Rightarrow> bool" and create :: "'s \<Rightarrow> errcode \<times> 's"
  assumes create_sets: "\<not> has s \<Longrightarrow> has (snd (create s)) \<longleftrightarrow> fst (create s) = ERROR_NONE"
begin

lemma GetInstance_sets: "has (snd (Singleton_GetInstance has create s)) \<longleftrightarrow> fst (Singleton_GetInstance has create s) = ERROR_NONE"
  using create_sets [of s] by (auto simp: Singleton_GetInstance_def)

text \<open>Once created, the instance is handed out again and nothing else happens.\<close>

lemma GetInstance_again:
  assumes "Singleton_GetInstance has create s = (ERROR_NONE, s')"
  shows "Singleton_GetInstance has create s' = (ERROR_NONE, s')"
  using GetInstance_sets [of s] assms by (simp add: Singleton_GetInstance_def)

end

interpretation mms: instance_provider media_manager "CMediaManager_CreateInstance E"
  by unfold_locales (auto simp: CMediaManager_CreateInstance_def)

interpretation pfs: instance_provider pipeline_factory "CPipelineFactory_CreateInstance E"
  by unfold_locales (auto simp: CPipelineFactory_CreateInstance_def)

lemma manager_set: "media_manager (snd (CMediaManager_GetInstance E s)) \<longleftrightarrow> fst (CMediaManager_GetInstance E s) = ERROR_NONE"
  unfolding CMediaManager_GetInstance_def by (rule mms.GetInstance_sets)

lemma factory_set: "pipeline_factory (snd (CPipelineFactory_GetInstance E s)) \<longleftrightarrow> fst (CPipelineFactory_GetInstance E s) = ERROR_NONE"
  unfolding CPipelineFactory_GetInstance_def by (rule pfs.GetInstance_sets)

text \<open>The engine has one manager and one factory: a call of \<^verbatim>\<open>GetInstance\<close> sets the instance exactly when it reports success,
  and every later call, whatever the allocator does then, succeeds and changes nothing.\<close>

theorem singletons_stable:
  assumes "CMediaManager_GetInstance E s = (ERROR_NONE, s')" "CPipelineFactory_GetInstance E' t = (ERROR_NONE, t')"
  shows "media_manager s' \<and> CMediaManager_GetInstance F s' = (ERROR_NONE, s') \<and>
     pipeline_factory t' \<and> CPipelineFactory_GetInstance F t' = (ERROR_NONE, t')"
  using manager_set [of E s] factory_set [of E' t] assms
  by (simp add: CMediaManager_GetInstance_def CPipelineFactory_GetInstance_def Singleton_GetInstance_def)

text \<open>A machine on which everything can be allocated, and the engine before its first use.\<close>

definition demo_engine_env :: engine_env where
  "demo_engine_env = \<lparr>en_os = TARGET_OS_LINUX, en_new_manager = True, en_manager_Init = ERROR_NONE, en_new_factory = True,
     en_new_options = True, en_new_media = True\<rparr>"

definition demo_engine :: engine where
  "demo_engine = \<lparr>media_manager = False, pipeline_factory = False, m_pWarningListener = None, lost_managers = 0\<rparr>"

lemmas demo_engine_defs = demo_engine_env_def demo_engine_def CMediaManager_GetInstance_def CPipelineFactory_GetInstance_def
  Singleton_GetInstance_def CMediaManager_CreateInstance_def CPipelineFactory_CreateInstance_def

theorem singletons_stable_witness:
  "media_manager (demo_engine\<lparr>media_manager := True\<rparr>) \<and>
   CPipelineFactory_GetInstance (demo_engine_env\<lparr>en_new_factory := False\<rparr>) (demo_engine\<lparr>pipeline_factory := True\<rparr>) =
     (ERROR_NONE, demo_engine\<lparr>pipeline_factory := True\<rparr>)"
  using singletons_stable [of demo_engine_env demo_engine "demo_engine\<lparr>media_manager := True\<rparr>" demo_engine_env demo_engine
      "demo_engine\<lparr>pipeline_factory := True\<rparr>" "demo_engine_env\<lparr>en_new_factory := False\<rparr>"]
  by (simp add: demo_engine_defs)

subsection \<open>What a player creation promises\<close>

text \<open>No part of the factory reports an error with the code for success.\<close>

definition honest :: "'a fres \<Rightarrow> bool" where
  "honest m \<longleftrightarrow> (\<forall>s. fst (run_state m s) \<noteq> Inl ERROR_NONE)"

lemma honest_seq:
  "(\<And>a. honest (k a)) \<Longrightarrow> honest (State_Monad.bind m k)"
  "honest m' \<Longrightarrow> (\<And>a. honest (j a)) \<Longrightarrow> honest (andthen m' j)"
  by (auto simp: honest_def andthen_def split_beta split: sum.splits)

text \<open>A result that is kept in a variable and tested later.\<close>

lemma honest_kept:
  "honest m \<Longrightarrow> (\<And>a. honest (j a)) \<Longrightarrow> honest (State_Monad.bind m (\<lambda>r. andthen (fret r) j))"
  using honest_seq(2) [of m j] by (simp add: andthen_def)

lemma honest_ends: "honest (success a)" "err \<noteq> ERROR_NONE \<Longrightarrow> honest (fail err)"
  by (simp_all add: honest_def)

lemma honest_cases:
  "honest m \<Longrightarrow> honest n \<Longrightarrow> honest (if c then m else n)"
  "err \<noteq> ERROR_NONE \<Longrightarrow> honest k \<Longrightarrow> honest (ensure c err k)"
  "honest m' \<Longrightarrow> (\<And>a. honest (h a)) \<Longrightarrow> honest (case x of None \<Rightarrow> m' | Some a \<Rightarrow> h a)"
  "(\<And>a b. honest (g a b)) \<Longrightarrow> honest (case z of (a, b) \<Rightarrow> g a b)"
  by (simp_all add: honest_ends ensure_def split: option.split prod.split)

lemmas honest_rules = honest_cases honest_kept honest_seq honest_ends

lemma honest_AttachToSource: "honest (AttachToSource W bin source buffer element)"
  unfolding AttachToSource_def by (intro honest_rules; simp)

lemma honest_bins: "honest (CreateAudioBin W a b c)" "honest (CreateVideoBin W d sink)"
  unfolding CreateAudioBin_def CreateVideoBin_def audio_input_def audio_output_def audio_balance_def audio_volume_def
    audio_ghost_pad_def video_ghost_pad_def add_named_def add_unchecked_def link_audio_def Let_def
  by (intro honest_rules; simp)+

lemma honest_pipelines: "honest (CreateAudioPipeline W u conv)" "honest (CreateAVPipeline W u conv sink)"
  unfolding CreateAudioPipeline_def CreateAVPipeline_def attach_audio_source_def attach_audio_bin_def Let_def
  by (intro honest_rules honest_bins honest_AttachToSource; simp)+

lemma honest_source: "honest (CreateSourceElement W locator callbacks mime)" "honest (add_audio_stream W locator)"
  unfolding CreateSourceElement_def add_audio_stream_def Let_def by (intro honest_rules; simp)+

lemma honest_CreatePipeline: "honest (CreatePipeline W u)"
  unfolding CreatePipeline_def CreateMP4Pipeline_def CreateMp3AudioPipeline_def CreateWavPcmAudioPipeline_def
    CreateAiffPcmAudioPipeline_def CreateHLSPipeline_def CreateHLS_win32_def CreateHLS_linux_def Let_def
  by (cases "fw_os W"; simp only: target_os.case; intro honest_rules honest_pipelines; simp)

lemma honest_CreatePlayerPipeline: "honest (CreatePlayerPipeline W u pLocator)"
  unfolding CreatePlayerPipeline_def Let_def by (intro honest_rules honest_source honest_CreatePipeline; simp)

text \<open>What \<^verbatim>\<open>CreatePlayer\<close> promises of its result.\<close>

definition player_sound :: "fworld \<Rightarrow> CLocatorStream option \<Rightarrow> player_result \<Rightarrow> bool" where
  "player_sound W pLocator r \<longleftrightarrow>
     (pr_code r = ERROR_NONE \<longleftrightarrow> pr_media r \<noteq> None) \<and>
     (\<forall>media. pr_media r = Some media \<longrightarrow>
        CMedia_IsValid (pr_media r) \<and> built W (the (CMedia_GetPipeline media)) \<and>
        (\<exists>locator. pLocator = Some locator \<and> l_type locator = kStreamLocatorType \<and> supported_content (fw_os W) (l_contentType locator)) \<and>
        \<not> pr_deleted r \<and> \<not> pr_options_lost r)"

lemma player_sound_none: "err \<noteq> ERROR_NONE \<Longrightarrow> player_sound W l ((no_player err)\<lparr>pr_options_lost := b\<rparr>)"
  "err \<noteq> ERROR_NONE \<Longrightarrow> player_sound W l (no_player err)"
  by (simp_all add: player_sound_def no_player_def)

lemma CreatePlayerPipeline_stream:
  "run_state (CreatePlayerPipeline W u (Some locator)) s = (Inr p, s') \<Longrightarrow> l_type locator = kStreamLocatorType"
  by (simp add: CreatePlayerPipeline_def ensure_def split: if_splits)

lemma CreatePlayer_player_sound:
  assumes "rejects_null W"
  shows "player_sound W pLocator (fst (CreatePlayer E W u pLocator pOptions s))"
proof (cases pLocator)
  case (Some locator)
  show ?thesis
  proof (cases "fst (run_state (CreatePlayerPipeline W u (Some locator))
      \<lparr>f_log = [], f_elems = GstElementContainer_new, f_opts = (case pOptions of None \<Rightarrow> CPipelineOptions_new | Some opts \<Rightarrow> opts)\<rparr>)")
    case (Inl err)
    then have "err \<noteq> ERROR_NONE"
      using honest_CreatePlayerPipeline [of W u "Some locator"] by (metis honest_def)
    with Inl Some show ?thesis
      by (simp add: CreatePlayer_def player_sound_none split: prod.split)
  next
    case (Inr p)
    then have p: "built W p \<and> supported_content (fw_os W) (l_contentType locator)" "l_type locator = kStreamLocatorType"
      using CreatePlayerPipeline_fwp [OF assms, of u "Some locator"] CreatePlayerPipeline_stream
      by (metis fok_simps(2) option.sel prod.collapse run_fwp)+
    with Inr Some show ?thesis
      by (simp add: CreatePlayer_def player_sound_none split: prod.split)
        (simp add: player_sound_def CMedia_IsValid_def CMedia_GetPipeline_def CMedia_new_def)
  qed
qed (simp add: CreatePlayer_def player_sound_none)

text \<open>\<^verbatim>\<open>CreatePlayer\<close> reports success exactly when it hands out a media object.  The object is then valid, its pipeline
  has every element its class needs, the locator was a stream locator with a content type the platform plays, and neither the
  pipeline nor the options are deleted or lost.\<close>

theorem CreatePlayer_sound:
  assumes "rejects_null W" "CreatePlayer E W u pLocator pOptions s = (r, s')"
  shows "(pr_code r = ERROR_NONE \<longleftrightarrow> pr_media r \<noteq> None) \<and>
    (pr_code r = ERROR_NONE \<longrightarrow> CMedia_IsValid (pr_media r) \<and> built W (the (CMedia_GetPipeline (the (pr_media r)))) \<and>
      l_type (the pLocator) = kStreamLocatorType \<and> supported_content (fw_os W) (l_contentType (the pLocator)) \<and>
      \<not> pr_deleted r \<and> \<not> pr_options_lost r)"
  using CreatePlayer_player_sound [OF assms(1), of pLocator E u pOptions s] assms(2) by (auto simp: player_sound_def)

lemma demo_player:
  "\<exists>p. CreatePlayer demo_engine_env demo_fworld (0, False) (Some demo_locator) None (demo_engine\<lparr>media_manager := b\<rparr>) =
     (\<lparr>pr_code = ERROR_NONE, pr_media = Some (CMedia_new (Some p)), pr_deleted = False, pr_options_lost = False\<rparr>,
      demo_engine\<lparr>media_manager := b, pipeline_factory := True\<rparr>)"
proof -
  obtain p s' where "run_state (CreatePlayerPipeline demo_fworld (0, False) (Some demo_locator)) demo_factory = (Inr p, s')"
    using run_won [OF CreatePlayerPipeline_won [OF demo_world(1,3)]] by (fastforce simp: demo_factory_def CPipelineOptions_new_def)
  then show ?thesis
    by (auto simp: CreatePlayer_def demo_engine_defs demo_factory_def)
qed

theorem CreatePlayer_sound_witness:
  "\<exists>r. fst (CreatePlayer demo_engine_env demo_fworld (0, False) (Some demo_locator) None demo_engine) = r \<and>
     pr_code r = ERROR_NONE \<and> built demo_fworld (the (CMedia_GetPipeline (the (pr_media r))))"
proof -
  obtain p where p: "CreatePlayer demo_engine_env demo_fworld (0, False) (Some demo_locator) None demo_engine =
     (\<lparr>pr_code = ERROR_NONE, pr_media = Some (CMedia_new (Some p)), pr_deleted = False, pr_options_lost = False\<rparr>,
      demo_engine\<lparr>pipeline_factory := True\<rparr>)"
    using demo_player [of False] by (auto simp: demo_engine_def)
  from CreatePlayer_sound [OF demo_world(2) p] p show ?thesis
    by simp
qed

lemma CreatePlayer_engine:
  assumes "CreatePlayer E W u pLocator pOptions s = (r, s')"
  shows "media_manager s' = media_manager s \<and> (pr_code r = ERROR_NONE \<longrightarrow> pipeline_factory s')"
proof -
  have "media_manager (snd (CPipelineFactory_GetInstance E s)) = media_manager s"
    by (simp add: CPipelineFactory_GetInstance_def Singleton_GetInstance_def CPipelineFactory_CreateInstance_def)
  then show ?thesis
    using assms by (auto simp: CreatePlayer_def no_player_def Let_def split: option.splits prod.splits if_splits sum.splits)
qed

lemma finish_media_result:
  assumes "player_sound W (Some locator) r"
  shows "let m = finish_media r left in
     (mr_code m = ERROR_NONE \<longleftrightarrow> mr_handle m \<noteq> None) \<and> mr_held m = left - {LocatorObject} \<and>
     (mr_code m = ERROR_NONE \<longrightarrow> pr_code r = ERROR_NONE \<and> CMedia_IsValid (mr_handle m) \<and>
        built W (the (CMedia_GetPipeline (the (mr_handle m)))) \<and> supported_content (fw_os W) (l_contentType locator))"
  using assms by (auto simp: finish_media_def player_sound_def Let_def)

text \<open>\<^verbatim>\<open>InitMedia\<close> either gives up before the player is created, or ends as the creation does.\<close>

definition kept_callbacks :: "init_env \<Rightarrow> media_resource set" where
  "kept_callbacks I = {StreamCallbacks} \<union> (if ie_hasAudioStream I then {AudioStreamCallbacks} else {})"

lemma InitMedia_cases:
  assumes "InitMedia E I W u pOptions cb audio_cb content location sizeHint s = (r, s')"
  obtains (early) "mr_code r \<noteq> ERROR_NONE" "mr_handle r = None" "LocatorObject \<notin> mr_held r"
  | (created) locator t p where "l_contentType locator = content" "media_manager t"
      "CreatePlayer E W u (Some locator) pOptions t = (p, s')" "r = finish_media p (kept_callbacks I \<union> {LocatorObject})"
proof (cases "CMediaManager_GetInstance E s")
  case (Pair err t)
  show ?thesis
  proof (cases "\<exists>locator. l_contentType locator = content \<and> media_manager t \<and>
      (case CreatePlayer E W u (Some locator) pOptions t of (p, t') \<Rightarrow>
        (finish_media p (kept_callbacks I \<union> {LocatorObject}), t')) = (r, s')")
    case True
    then obtain locator where "l_contentType locator = content" "media_manager t"
        "r = finish_media (fst (CreatePlayer E W u (Some locator) pOptions t)) (kept_callbacks I \<union> {LocatorObject})"
        "s' = snd (CreatePlayer E W u (Some locator) pOptions t)"
      by (auto simp: split_beta)
    then show ?thesis
      by (intro created [of locator t "fst (CreatePlayer E W u (Some locator) pOptions t)"]) simp_all
  next
    case False
    have "mr_code r \<noteq> ERROR_NONE \<and> mr_handle r = None \<and> LocatorObject \<notin> mr_held r"
    proof (rule ccontr)
      assume "\<not> ?thesis"
      then show False
        using assms False Pair
        by (auto simp: InitMedia_def Let_def media_error_def kept_callbacks_def CLocatorStream_new_def CLocator_new_sized_def
            insert_commute split: if_splits)
    qed
    then show ?thesis
      using early by blast
  qed
qed


definition demo_init_env :: init_env where
  "demo_init_env = \<lparr>ie_contentChars = True, ie_location = True, ie_locationChars = True, ie_callbacks = True, ie_holder = True,
     ie_callbacks_Init = True, ie_locator = True, ie_hasAudioStream = False, ie_audioCallbacks = False, ie_audioHolder = False,
     ie_audioCallbacks_Init = False\<rparr>"

definition demo_created :: "media_result \<times> engine" where
  "demo_created = gstInitNativeMedia demo_engine_env demo_init_env demo_fworld (0, False) (the (l_callbacks demo_locator))
      (the (l_callbacks demo_locator)) (l_contentType demo_locator) (l_location demo_locator) (l_llSizeHint demo_locator) demo_engine"

lemma demo_created_ok: "mr_code (fst demo_created) = ERROR_NONE"
proof -
  obtain p where "CreatePlayer demo_engine_env demo_fworld (0, False) (Some demo_locator) None (demo_engine\<lparr>media_manager := True\<rparr>) =
     (\<lparr>pr_code = ERROR_NONE, pr_media = Some (CMedia_new (Some p)), pr_deleted = False, pr_options_lost = False\<rparr>,
      demo_engine\<lparr>media_manager := True, pipeline_factory := True\<rparr>)"
    using demo_player [of True] by blast
  moreover have "CMediaManager_GetInstance demo_engine_env demo_engine = (ERROR_NONE, demo_engine\<lparr>media_manager := True\<rparr>)"
    by (simp add: demo_engine_defs)
  moreover have "CLocatorStream_new (the (l_callbacks demo_locator)) (l_contentType demo_locator) (l_location demo_locator)
      (l_llSizeHint demo_locator) = demo_locator"
    by (simp add: CLocatorStream_new_def CLocator_new_sized_def demo_locator_def)
  ultimately show ?thesis
    by (simp add: demo_created_def gstInitNativeMedia_def InitMedia_def demo_init_env_def demo_engine_def finish_media_def
        CMedia_IsValid_def CMedia_new_def)
qed


text \<open>Returns on which \<^verbatim>\<open>InitMedia\<close> forgets what it acquired: without a location the content string stays pinned, without a
  connection holder both strings and the callbacks are left, and without one for the audio stream its callbacks are.\<close>

theorem InitMedia_leaks:
  assumes "CMediaManager_GetInstance E s = (ERROR_NONE, s')" "ie_contentChars I"
  shows "\<not> ie_location I \<Longrightarrow> mr_held (fst (InitMedia E I W u pOptions cb audio_cb content location sizeHint s)) = {ContentChars}"
    and "ie_location I \<Longrightarrow> ie_locationChars I \<Longrightarrow> ie_callbacks I \<Longrightarrow> \<not> ie_holder I \<Longrightarrow>
      mr_held (fst (InitMedia E I W u pOptions cb audio_cb content location sizeHint s)) = {ContentChars, LocationChars, StreamCallbacks}"
  using assms manager_set [of E s] by (auto simp: InitMedia_def media_error_def)

text \<open>Options that \<^verbatim>\<open>CreatePlayer\<close> allocates are left without an owner when no pipeline can be built: here the content type is empty.\<close>

theorem CreatePlayer_loses_options:
  "pr_options_lost (fst (CreatePlayer demo_engine_env W u (Some (demo_locator\<lparr>l_contentType := []\<rparr>)) None demo_engine))"
  by (simp add: CreatePlayer_def demo_engine_defs CreatePlayerPipeline_def ensure_def demo_locator_def)

text \<open>A manager whose \<^verbatim>\<open>Init\<close> fails is never deleted, and each further attempt leaves another one.\<close>

theorem CreateInstance_loses_manager:
  assumes "en_os E \<noteq> TARGET_OS_OTHER" "en_new_manager E" "en_manager_Init E \<noteq> ERROR_NONE" "\<not> media_manager s"
  shows "lost_managers (((\<lambda>s. snd (CMediaManager_GetInstance E s)) ^^ n) s) = lost_managers s + n"
proof -
  have "lost_managers (((\<lambda>s. snd (CMediaManager_GetInstance E s)) ^^ n) s) = lost_managers s + n \<and>
      \<not> media_manager (((\<lambda>s. snd (CMediaManager_GetInstance E s)) ^^ n) s)"
    using assms by (induction n) (simp_all add: CMediaManager_GetInstance_def Singleton_GetInstance_def CMediaManager_CreateInstance_def)
  then show ?thesis
    by simp
qed

text \<open>A warning sent before \<^verbatim>\<open>gstInitPlatform\<close> has set the listener is a call through a null pointer.\<close>

theorem MediaWarning_before_listener:
  "CMediaManager_GetInstance E s = (ERROR_NONE, s') \<Longrightarrow> m_pWarningListener s' = None \<Longrightarrow> MediaWarning E code s = Faults"
  by (simp add: MediaWarning_def)

end
