(* ===== verification/Player_Api.thy ===== *)
theory Player_Api
  imports Player_Runs Media_Manager
begin

text \<open>
  The native methods of a player (\<^verbatim>\<open>GstMediaPlayer.cpp\<close>) and \<^verbatim>\<open>gstDispose\<close> (\<^verbatim>\<open>GstMedia.cpp\<close>).  A handle is a pointer to a
  media object, \<open>None\<close> for zero.  Methods that return a value write it to an array of the caller; \<open>thrown\<close> says whether
  writing it raises an exception.  The section on runs ties the methods, the creation of a media object and the callbacks of
  GStreamer together.
\<close>

subsection \<open>Calls that return an error code only\<close>

definition media_call :: "errcode pm \<Rightarrow> CMedia option \<Rightarrow> errcode \<times> CMedia option" where
  "media_call m pMedia = (case pMedia of
      None \<Rightarrow> (ERROR_MEDIA_NULL, pMedia)
    | Some media \<Rightarrow> (case CMedia_GetPipeline media of
        None \<Rightarrow> (ERROR_PIPELINE_NULL, pMedia)
      | Some pPipeline \<Rightarrow> (result m pPipeline, Some (media\<lparr>m_pPipeline := Some (after m pPipeline)\<rparr>))))"

definition gstInitPlayer :: "world \<Rightarrow> errcode \<Rightarrow> bool \<Rightarrow> CMedia option \<Rightarrow> errcode \<times> CMedia option" where
  "gstInitPlayer W mgr new_dispatcher pMedia = (case pMedia of
      None \<Rightarrow> (ERROR_MEDIA_NULL, pMedia)
    | Some media \<Rightarrow> (case CMedia_GetPipeline media of
        None \<Rightarrow> (ERROR_PIPELINE_NULL, pMedia)
      | Some pPipeline \<Rightarrow>
          if \<not> new_dispatcher then (ERROR_MEMORY_ALLOCATION, pMedia)
          else let pPipeline = SetEventDispatcher True pPipeline
               in (result (Init W mgr) pPipeline, Some (media\<lparr>m_pPipeline := Some (after (Init W mgr) pPipeline)\<rparr>))))"

definition gstSetAudioSyncDelay :: "world \<Rightarrow> int \<Rightarrow> CMedia option \<Rightarrow> errcode \<times> CMedia option" where
  "gstSetAudioSyncDelay W audio_sync_delay = media_call (SetAudioSyncDelay W audio_sync_delay)"

definition gstPlay :: "world \<Rightarrow> CMedia option \<Rightarrow> errcode \<times> CMedia option" where
  "gstPlay W = media_call (Play W)"

definition gstPause :: "world \<Rightarrow> CMedia option \<Rightarrow> errcode \<times> CMedia option" where
  "gstPause W = media_call (Pause W)"

definition gstStop :: "world \<Rightarrow> CMedia option \<Rightarrow> errcode \<times> CMedia option" where
  "gstStop W = media_call (Stop W)"

definition gstFinish :: "world \<Rightarrow> CMedia option \<Rightarrow> errcode \<times> CMedia option" where
  "gstFinish W = media_call (Finish W)"

definition gstSetRate :: "world \<Rightarrow> real \<Rightarrow> CMedia option \<Rightarrow> errcode \<times> CMedia option" where
  "gstSetRate W fRate = media_call (SetRate W fRate)"

definition gstSetVolume :: "world \<Rightarrow> real \<Rightarrow> CMedia option \<Rightarrow> errcode \<times> CMedia option" where
  "gstSetVolume W volume = media_call (SetVolume W volume)"

definition gstSetBalance :: "world \<Rightarrow> real \<Rightarrow> CMedia option \<Rightarrow> errcode \<times> CMedia option" where
  "gstSetBalance W balance = media_call (SetBalance W balance)"

definition gstSeek :: "world \<Rightarrow> real \<Rightarrow> CMedia option \<Rightarrow> errcode \<times> CMedia option" where
  "gstSeek W stream_time = media_call (Seek W stream_time)"

subsection \<open>Calls that return a value\<close>

text \<open>The error code and what the array of the caller receives, if anything.\<close>

definition media_read :: "bool \<Rightarrow> (errcode \<times> 'v) pm \<Rightarrow> CMedia option \<Rightarrow> (errcode \<times> 'v option) \<times> CMedia option" where
  "media_read thrown m pMedia = (case pMedia of
      None \<Rightarrow> ((ERROR_MEDIA_NULL, None), pMedia)
    | Some media \<Rightarrow> (case CMedia_GetPipeline media of
        None \<Rightarrow> ((ERROR_PIPELINE_NULL, None), pMedia)
      | Some pPipeline \<Rightarrow>
          (case result m pPipeline of (uErrCode, v) \<Rightarrow>
             if uErrCode \<noteq> ERROR_NONE then (uErrCode, None)
             else if thrown then (ERROR_JNI_UNEXPECTED, None)
             else (ERROR_NONE, Some v),
           Some (media\<lparr>m_pPipeline := Some (after m pPipeline)\<rparr>))))"

definition gstGetAudioSyncDelay :: "world \<Rightarrow> bool \<Rightarrow> CMedia option \<Rightarrow> (errcode \<times> int option option) \<times> CMedia option" where
  "gstGetAudioSyncDelay W thrown = media_read thrown (GetAudioSyncDelay W)"

definition gstGetRate :: "world \<Rightarrow> bool \<Rightarrow> CMedia option \<Rightarrow> (errcode \<times> real option) \<times> CMedia option" where
  "gstGetRate W thrown = media_read thrown GetRate"

definition gstGetPresentationTime :: "world \<Rightarrow> bool \<Rightarrow> CMedia option \<Rightarrow> (errcode \<times> real option) \<times> CMedia option" where
  "gstGetPresentationTime W thrown = media_read thrown (GetStreamTime W)"

definition gstGetVolume :: "world \<Rightarrow> bool \<Rightarrow> CMedia option \<Rightarrow> (errcode \<times> real option option) \<times> CMedia option" where
  "gstGetVolume W thrown = media_read thrown (GetVolume W)"

definition gstGetBalance :: "world \<Rightarrow> bool \<Rightarrow> CMedia option \<Rightarrow> (errcode \<times> real option option) \<times> CMedia option" where
  "gstGetBalance W thrown = media_read thrown (GetBalance W)"

definition gstGetDuration :: "world \<Rightarrow> bool \<Rightarrow> CMedia option \<Rightarrow> (errcode \<times> real option) \<times> CMedia option" where
  "gstGetDuration W thrown = media_read thrown (GetDuration W)"

text \<open>The equalizer and the spectrum: whether the result is a pointer.  The pipeline is used without a test.\<close>

definition gstGetAudioEqualizer :: "CMedia option \<Rightarrow> bool outcome" where
  "gstGetAudioEqualizer pMedia = (case pMedia of
      None \<Rightarrow> Returns False
    | Some media \<Rightarrow> (case CMedia_GetPipeline media of None \<Rightarrow> Faults | Some p \<Rightarrow> Returns (result GetAudioEqualizer p)))"

definition gstGetAudioSpectrum :: "CMedia option \<Rightarrow> bool outcome" where
  "gstGetAudioSpectrum pMedia = (case pMedia of
      None \<Rightarrow> Returns False
    | Some media \<Rightarrow> (case CMedia_GetPipeline media of None \<Rightarrow> Faults | Some p \<Rightarrow> Returns (result GetAudioSpectrum p)))"

text \<open>The pipeline object as it was left when the media object is deleted.\<close>

definition gstDispose :: "world \<Rightarrow> CMedia option \<Rightarrow> pipe option" where
  "gstDispose W pMedia = (case pMedia of
      None \<Rightarrow> None
    | Some media \<Rightarrow> map_option (after (CMedia_delete W)) (m_pPipeline media))"

subsection \<open>A player under the Java side\<close>

datatype java_call =
  JPlay | JPause | JStop | JFinish | JSeek real | JSetRate real | JSetVolume real | JSetBalance real | JSetAudioSyncDelay int
| JGetRate | JGetPresentationTime | JGetVolume | JGetBalance | JGetDuration | JGetAudioSyncDelay

fun java_effect :: "world \<Rightarrow> bool \<Rightarrow> java_call \<Rightarrow> CMedia option \<Rightarrow> errcode \<times> CMedia option" where
  "java_effect W thrown JPlay h = gstPlay W h"
| "java_effect W thrown JPause h = gstPause W h"
| "java_effect W thrown JStop h = gstStop W h"
| "java_effect W thrown JFinish h = gstFinish W h"
| "java_effect W thrown (JSeek t) h = gstSeek W t h"
| "java_effect W thrown (JSetRate r) h = gstSetRate W r h"
| "java_effect W thrown (JSetVolume v) h = gstSetVolume W v h"
| "java_effect W thrown (JSetBalance v) h = gstSetBalance W v h"
| "java_effect W thrown (JSetAudioSyncDelay i) h = gstSetAudioSyncDelay W i h"
| "java_effect W thrown JGetRate h = apfst fst (gstGetRate W thrown h)"
| "java_effect W thrown JGetPresentationTime h = apfst fst (gstGetPresentationTime W thrown h)"
| "java_effect W thrown JGetVolume h = apfst fst (gstGetVolume W thrown h)"
| "java_effect W thrown JGetBalance h = apfst fst (gstGetBalance W thrown h)"
| "java_effect W thrown JGetDuration h = apfst fst (gstGetDuration W thrown h)"
| "java_effect W thrown JGetAudioSyncDelay h = apfst fst (gstGetAudioSyncDelay W thrown h)"

text \<open>A handle in use: native methods, and meanwhile anything that the main loop and the streaming threads do.\<close>

inductive java_reach :: "CMedia option \<Rightarrow> CMedia option \<Rightarrow> bool" for h\<^sub>0 where
  java_start: "java_reach h\<^sub>0 h\<^sub>0"
| java_method: "java_reach h\<^sub>0 h \<Longrightarrow> java_effect W thrown c h = (err, h') \<Longrightarrow> java_reach h\<^sub>0 h'"
| java_meanwhile: "java_reach h\<^sub>0 (Some media) \<Longrightarrow> m_pPipeline media = Some p \<Longrightarrow> player_step p q \<Longrightarrow>
    java_reach h\<^sub>0 (Some (media\<lparr>m_pPipeline := Some q\<rparr>))"

lemmas java_defs = gstPlay_def gstPause_def gstStop_def gstFinish_def gstSeek_def gstSetRate_def gstSetVolume_def gstSetBalance_def
  gstSetAudioSyncDelay_def gstGetRate_def gstGetPresentationTime_def gstGetVolume_def gstGetBalance_def gstGetDuration_def
  gstGetAudioSyncDelay_def media_call_def media_read_def CMedia_GetPipeline_def

text \<open>The native methods implement the calls of the player: on a handle with a pipeline each one changes it as the call does.\<close>

fun call_of :: "java_call \<Rightarrow> player_call option" where
  "call_of JPlay = Some CallPlay"
| "call_of JPause = Some CallPause"
| "call_of JStop = Some CallStop"
| "call_of JFinish = Some CallFinish"
| "call_of (JSeek t) = Some (CallSeek t)"
| "call_of (JSetRate r) = Some (CallSetRate r)"
| "call_of (JSetVolume v) = Some (CallSetVolume v)"
| "call_of (JSetBalance v) = Some (CallSetBalance v)"
| "call_of (JSetAudioSyncDelay i) = Some (CallSetAudioSyncDelay i)"
| "call_of JGetRate = None"
| "call_of JGetPresentationTime = Some CallGetStreamTime"
| "call_of JGetVolume = Some CallGetVolume"
| "call_of JGetBalance = Some CallGetBalance"
| "call_of JGetDuration = Some CallGetDuration"
| "call_of JGetAudioSyncDelay = Some CallGetAudioSyncDelay"

definition call_effect_of :: "world \<Rightarrow> java_call \<Rightarrow> pipe \<Rightarrow> pipe" where
  "call_effect_of W c p = (case call_of c of None \<Rightarrow> p | Some pc \<Rightarrow> player_call_effect W pc p)"

lemma java_effect_refines:
  "m_pPipeline media = Some p \<Longrightarrow>
   snd (java_effect W thrown c (Some media)) = Some (media\<lparr>m_pPipeline := Some (call_effect_of W c p)\<rparr>)"
  by (cases c) (simp_all add: java_defs call_effect_of_def GetRate_def)

lemma java_effect_null: "java_effect W thrown c None = (ERROR_MEDIA_NULL, None)"
  by (cases c) (simp_all add: java_defs)

lemma java_runs:
  assumes "java_reach h\<^sub>0 h" "h\<^sub>0 = Some media\<^sub>0" "m_pPipeline media\<^sub>0 = Some p\<^sub>0"
  shows "\<exists>media p. h = Some media \<and> m_pPipeline media = Some p \<and> player_reach p\<^sub>0 p"
  using assms
proof (induction rule: java_reach.induct)
  case java_start
  then show ?case
    by (auto intro: player_reach.start)
next
  case (java_method h W thrown c err h')
  then obtain media p where *: "h = Some media" "m_pPipeline media = Some p" "player_reach p\<^sub>0 p"
    by blast
  from *(3) have "player_reach p\<^sub>0 (call_effect_of W c p)"
    by (cases "call_of c") (auto simp: call_effect_of_def intro: player_reach.step player_step.call)
  moreover have "h' = Some (media\<lparr>m_pPipeline := Some (call_effect_of W c p)\<rparr>)"
    using java_effect_refines [OF *(2), of W thrown c] java_method.hyps(2) * by simp
  ultimately show ?case
    by simp
next
  case (java_meanwhile media p q)
  then show ?case
    by (auto intro: player_reach.step)
qed

text \<open>A pipeline as its constructor leaves it.\<close>

definition fresh :: "pipe \<Rightarrow> bool" where
  "fresh p \<longleftrightarrow> held p = [] \<and> \<not> bad_lock p \<and> log p = [] \<and> m_PlayerState p = Unknown \<and> \<not> m_pEventDispatcher p"

definition yields :: "('a \<Rightarrow> bool) \<Rightarrow> 'a fres \<Rightarrow> bool" where
  "yields P m \<longleftrightarrow> (\<forall>s a. fst (run_state m s) = Inr a \<longrightarrow> P a)"

lemma yields_fwp: "yields P m \<longleftrightarrow> (\<forall>s. fwp m (fok (\<lambda>a _. P a)) s)"
  by (auto simp: yields_def fwp_def fok_def split: sum.split prod.split) (metis prod.collapse fst_conv)+

lemma yields_rules:
  "yields P (fail err)"
  "yields P m \<Longrightarrow> yields P n \<Longrightarrow> yields P (if c then m else n)"
  "yields P k \<Longrightarrow> yields P (ensure c err k)"
  "yields P m \<Longrightarrow> (\<And>a. yields P (h a)) \<Longrightarrow> yields P (case x of None \<Rightarrow> m | Some a \<Rightarrow> h a)"
  "(\<And>a b. yields P (g a b)) \<Longrightarrow> yields P (case z of (a, b) \<Rightarrow> g a b)"
  "(\<And>a. yields P (j a)) \<Longrightarrow> yields P (andthen m' j)"
  "(\<And>a. yields P (f a)) \<Longrightarrow> yields P (State_Monad.bind m'' f)"
  by (auto simp: yields_def ensure_def andthen_def split_beta split: option.split sum.splits)

lemma new_pipeline_fresh: "yields fresh (State_Monad.bind (new_pipeline u av flags) (\<lambda>p. success p))"
  by (simp add: yields_fwp new_pipeline_def fresh_def CGstAVPlaybackPipeline_new_def CGstAudioPlaybackPipeline_new_def)

lemma pipelines_fresh: "yields fresh (CreateAudioPipeline W u conv)" "yields fresh (CreateAVPipeline W u conv sink)"
  unfolding CreateAudioPipeline_def CreateAVPipeline_def Let_def by (intro new_pipeline_fresh yields_rules)+

lemma CreatePlayerPipeline_fresh: "yields fresh (CreatePlayerPipeline W u pLocator)"
  unfolding CreatePlayerPipeline_def CreatePipeline_def CreateMP4Pipeline_def CreateMp3AudioPipeline_def CreateWavPcmAudioPipeline_def
    CreateAiffPcmAudioPipeline_def CreateHLSPipeline_def CreateHLS_win32_def CreateHLS_linux_def Let_def
  by (cases "fw_os W"; simp only: target_os.case; intro yields_rules pipelines_fresh)

lemma created_fresh:
  assumes "gstInitNativeMedia E I W u cb audio_cb content location sizeHint s = (r, s')" "mr_code r = ERROR_NONE"
  shows "\<exists>media p. mr_handle r = Some media \<and> m_pPipeline media = Some p \<and> fresh p"
  using assms(1) [unfolded gstInitNativeMedia_def]
proof (cases rule: InitMedia_cases)
  case (created locator t pr)
  have "fresh p" if "fst (run_state (CreatePlayerPipeline W u (Some locator)) s) = Inr p" for s p
    using CreatePlayerPipeline_fresh that by (metis yields_def)
  moreover have "pr_code pr = ERROR_NONE" "mr_handle r = pr_media pr" "pr_media pr \<noteq> None"
    using created(4) assms(2) by (auto simp: finish_media_def Let_def CMedia_IsValid_def split: if_splits option.splits)
  ultimately show ?thesis
    using created(3) by (auto simp: CreatePlayer_def no_player_def Let_def CMedia_new_def split: prod.splits if_splits sum.splits)
qed (use assms(2) in simp)

lemma fresh_with_listener:
  "fresh p \<Longrightarrow> held (SetEventDispatcher True p) = [] \<and> \<not> bad_lock (SetEventDispatcher True p) \<and> view_ok (SetEventDispatcher True p)"
  by (simp add: fresh_def SetEventDispatcher_def view_ok_def)

text \<open>C1: The player as Java sees it.  Let \<^verbatim>\<open>gstInitNativeMedia\<close> succeed and \<^verbatim>\<open>gstInitPlayer\<close> be called on its handle; then after
  any sequence of native methods, messages of the main loop and callbacks of the streaming threads, with any answers of
  GStreamer, the handle still has its pipeline, locks were taken in order of their rank and none is kept (the engine does not
  deadlock on its own locks), and the listener is not misled: the last state it was told is the state of the player, except
  after an error and for \<^verbatim>\<open>Playing\<close> after a seek out of \<^verbatim>\<open>Finished\<close>.\<close>

theorem created_player_sound:
  assumes "gstInitNativeMedia E I W u cb audio_cb content location sizeHint s = (r, s')" "mr_code r = ERROR_NONE"
    and "gstInitPlayer PW mgr True (mr_handle r) = (err, h\<^sub>0)" "java_reach h\<^sub>0 h"
  shows "\<exists>media p. h = Some media \<and> CMedia_GetPipeline media = Some p \<and> held p = [] \<and> \<not> bad_lock p \<and> m_pEventDispatcher p \<and>
    (m_PlayerState p = told (log p) \<or> m_PlayerState p = Error \<or> m_PlayerState p = Playing \<and> told (log p) = Finished)"
proof -
  obtain media p where mp: "mr_handle r = Some media" "m_pPipeline media = Some p" "fresh p"
    using created_fresh [OF assms(1,2)] by blast
  let ?p = "SetEventDispatcher True p" and ?q = "player_call_effect PW (CallInit mgr) (SetEventDispatcher True p)"
  have "h\<^sub>0 = Some (media\<lparr>m_pPipeline := Some ?q\<rparr>)"
    using assms(3) mp by (simp add: gstInitPlayer_def CMedia_GetPipeline_def Let_def)
  then obtain media' q where q: "h = Some media'" "m_pPipeline media' = Some q" "player_reach ?q q"
    using java_runs [OF assms(4)] by fastforce
  have "held ?q = [] \<and> \<not> bad_lock ?q \<and> view_ok ?q \<and> m_pEventDispatcher ?q = m_pEventDispatcher ?p"
    using fresh_with_listener [OF mp(3)]
    by (intro player_runs_sound [OF player_reach.step [OF player_reach.start player_step.call]]) simp_all
  then have "held q = [] \<and> \<not> bad_lock q \<and> view_ok q \<and> m_pEventDispatcher q"
    using player_runs_sound [OF q(3)] by (simp add: SetEventDispatcher_def del: player_call_effect.simps)
  with q show ?thesis
    by (simp add: CMedia_GetPipeline_def view_ok_def)
qed

theorem created_player_sound_witness:
  "\<exists>media p. snd (java_effect demo_world False JPlay (snd (gstInitPlayer demo_world ERROR_NONE True (mr_handle (fst demo_created))))) =
     Some media \<and> CMedia_GetPipeline media = Some p \<and> held p = [] \<and> \<not> bad_lock p"
  using created_player_sound [OF demo_created_def [symmetric, THEN trans, OF prod.collapse [symmetric]] demo_created_ok prod.collapse [symmetric]
      java_reach.java_method [OF java_reach.java_start prod.collapse [symmetric]]]
  by blast

text \<open>After a fatal error \<^verbatim>\<open>GetVolume\<close>, \<^verbatim>\<open>GetBalance\<close> and \<^verbatim>\<open>GetAudioSyncDelay\<close> report success without setting their result, and
  the native methods hand the uninitialised variable (\<open>None\<close>) to Java.\<close>

theorem getters_uninitialised:
  assumes "m_pPipeline media = Some p" "m_PlayerState p = Error"
  shows "fst (gstGetVolume W False (Some media)) = (ERROR_NONE, Some None)"
    and "fst (gstGetBalance W False (Some media)) = (ERROR_NONE, Some None)"
    and "fst (gstGetAudioSyncDelay W False (Some media)) = (ERROR_NONE, Some None)"
  using assms by (simp_all add: java_defs GetVolume_def GetBalance_def GetAudioSyncDelay_def IsPlayerState_def)

end
