(* ===== verification/Stream_Types.thy ===== *)
theory Stream_Types
  imports Jfx_Prelude
begin

text \<open>
  What the elements of \<^verbatim>\<open>gstreamer/plugins\<close> exchange: flow returns, buffers, segments and events.  The fields of a segment and
  the offset of a buffer are \<^verbatim>\<open>guint64\<close> and keep their width; \<^verbatim>\<open>gint64\<close> values are \<open>int\<close> and are converted where the code
  assigns one to the other.
\<close>

type_synonym octet = "8 word"

datatype GstFlowReturn = GST_FLOW_OK | GST_FLOW_FLUSHING | GST_FLOW_EOS | GST_FLOW_ERROR

record GstBuffer =
  b_data :: "octet list"
  b_offset :: u64
  b_discont :: bool
  b_pts :: "u64 option"

definition new_buffer :: "octet list \<Rightarrow> u64 \<Rightarrow> GstBuffer" where
  "new_buffer data offset = \<lparr>b_data = data, b_offset = offset, b_discont = False, b_pts = None\<rparr>"

lemma new_buffer_simps [simp]:
  "b_data (new_buffer data offset) = data" "b_offset (new_buffer data offset) = offset"
  "b_discont (new_buffer data offset) = False" "b_pts (new_buffer data offset) = None"
  by (simp_all add: new_buffer_def)

datatype GstFormat = GST_FORMAT_BYTES | GST_FORMAT_TIME | GST_FORMAT_OTHER

record GstSegment =
  sg_update :: bool
  sg_format :: GstFormat
  sg_rate :: real
  sg_start :: u64
  sg_stop :: u64
  sg_time :: u64
  sg_position :: u64

text \<open>\<^verbatim>\<open>gst_segment_init\<close>.\<close>

definition gst_segment_init :: "GstFormat \<Rightarrow> GstSegment" where
  "gst_segment_init format = \<lparr>sg_update = False, sg_format = format, sg_rate = 1, sg_start = 0, sg_stop = - 1, sg_time = 0, sg_position = 0\<rparr>"

text \<open>A seek: rate, format, whether it flushes, whether the start is of type \<^verbatim>\<open>GST_SEEK_TYPE_SET\<close>, start, and whether the stop
  is of type \<^verbatim>\<open>GST_SEEK_TYPE_NONE\<close>.\<close>

record GstSeek =
  sk_rate :: real
  sk_format :: GstFormat
  sk_flush :: bool
  sk_set :: bool
  sk_start :: int
  sk_stop_none :: bool

datatype GstEvent =
    StreamStart | Segment GstSegment | Eos | FlushStart | FlushStop | Caps string | Seek GstSeek | RangeReady
  | OtherSerialized | OtherEvent

text \<open>\<^verbatim>\<open>GST_EVENT_IS_SERIALIZED\<close>.\<close>

fun event_serialized :: "GstEvent \<Rightarrow> bool" where
  "event_serialized StreamStart = True"
| "event_serialized (Segment _) = True"
| "event_serialized Eos = True"
| "event_serialized FlushStart = False"
| "event_serialized FlushStop = True"
| "event_serialized (Caps _) = True"
| "event_serialized (Seek _) = False"
| "event_serialized RangeReady = True"
| "event_serialized OtherSerialized = True"
| "event_serialized OtherEvent = False"

definition GST_SECOND_ns :: int where "GST_SECOND_ns = 1000000000"

lemma u64_of_nat_small: "n < 2 ^ 64 \<Longrightarrow> unat (of_nat n :: u64) = n"
  by (simp add: unsigned_of_nat take_bit_nat_eq_self)

lemma u64_add_small: "m + n < 2 ^ 64 \<Longrightarrow> unat (of_nat m + of_nat n :: u64) = m + n"
  using u64_of_nat_small [of "m + n"] by simp

end
