(* ===== verification/Java_Source.thy ===== *)
theory Java_Source
  imports Stream_Types "HOL-Library.Signed_Division"
begin

text \<open>
  \<^verbatim>\<open>gstreamer/plugins/javasource/javasource.c\<close>: the source element of a pipeline, which asks a Java connection for data, either
  in a loop of its own (push mode) or on demand (\<^verbatim>\<open>getrange\<close>, pull mode).  The answers of the Java side to the signals the
  element emits, and of the elements downstream, are an environment.  \<^verbatim>\<open>gint\<close> and \<^verbatim>\<open>gint64\<close> are \<open>int\<close>.
\<close>

unbundle bit_operations_syntax

subsection \<open>The element\<close>

definition EOS_CODE :: int where "EOS_CODE = - 1"

definition OTHER_ERROR_CODE :: int where "OTHER_ERROR_CODE = - 2"

definition MAX_READ_SIZE :: u32 where "MAX_READ_SIZE = 65536"

definition HLS_VALUE_FLOAT_MULTIPLIER :: int where "HLS_VALUE_FLOAT_MULTIPLIER = 1000"

definition MODE_DEFAULT :: u32 where "MODE_DEFAULT = 1"

definition MODE_HLS :: u32 where "MODE_HLS = 2"

definition MODE_HLS_LIVE :: u32 where "MODE_HLS_LIVE = 4"

lemmas js_constants = EOS_CODE_def OTHER_ERROR_CODE_def MODE_DEFAULT_def MODE_HLS_def MODE_HLS_LIVE_def

text \<open>The kinds of event \<^verbatim>\<open>pending_event\<close> takes.\<close>

datatype pending_kind = EVENT_STREAM_START | EVENT_SEGMENT | EVENT_EOS | EVENT_UNKNOWN

datatype pad_task = TASK_STOPPED | TASK_STARTED | TASK_PAUSED

text \<open>What leaves the source pad, in order.\<close>

datatype pad_item = PadEvent GstEvent | PadBuffer GstBuffer

record JavaSource =
  srcresult :: GstFlowReturn
  pending_event :: pending_kind
  js_position :: int
  position_time :: int
  js_size :: int
  is_seekable :: bool
  is_random_access :: bool
  js_update :: bool
  js_discont :: bool
  js_mode :: u32
  stop_on_pause :: bool
  location :: "string option"
  mimetype :: "string option"
  js_rate :: real
  srcpad_task :: pad_task
  srcpad_out :: "pad_item list"
  connection_open :: bool

text \<open>One run of the loop, or one seek, meets: the answers of the Java side; what another thread stores in \<^verbatim>\<open>srcresult\<close>
  meanwhile, if anything; whether memory can be had; the answers of the pads downstream; and a seek that the element downstream
  sends back before the push returns, if any.\<close>

record js_env =
  je_seek_data :: "int \<Rightarrow> int"
  je_load_segment :: int
  je_start_time :: int
  je_duration :: int
  je_read_next_block :: int
  je_block :: "octet list"
  je_other_thread :: "GstFlowReturn option"
  je_alloc :: bool
  je_map_write :: bool
  je_push_event :: "GstEvent \<Rightarrow> bool"
  je_push :: "GstBuffer \<Rightarrow> GstFlowReturn"
  je_seek_back :: "GstSeek option"

definition in_mode :: "u32 \<Rightarrow> JavaSource \<Rightarrow> bool" where
  "in_mode m el \<longleftrightarrow> js_mode el AND m = m"

definition push_event :: "js_env \<Rightarrow> GstEvent \<Rightarrow> JavaSource \<Rightarrow> bool \<times> JavaSource" where
  "push_event E ev el = (je_push_event E ev, el\<lparr>srcpad_out := srcpad_out el @ [PadEvent ev]\<rparr>)"

text \<open>The structure is cleared; the constructor then sets three fields, and the properties declared to be set at construction take
  their default values.\<close>

definition java_source_init :: JavaSource where
  "java_source_init = \<lparr>srcresult = GST_FLOW_OK, pending_event = EVENT_UNKNOWN, js_position = 0, position_time = 0, js_size = 0,
     is_seekable = False, is_random_access = False, js_update = False, js_discont = False, js_mode = MODE_DEFAULT,
     stop_on_pause = False, location = None, mimetype = None, js_rate = 1, srcpad_task = TASK_STOPPED, srcpad_out = [],
     connection_open = True\<rparr>"

datatype js_property =
    PROP_SIZE int | PROP_IS_SEEKABLE bool | PROP_IS_RANDOM_ACCESS bool | PROP_STOP_ON_PAUSE bool | PROP_LOCATION "string option"
  | PROP_HLS_MODE bool | PROP_MIMETYPE "string option" | PROP_OTHER

fun java_source_set_property :: "js_property \<Rightarrow> JavaSource \<Rightarrow> JavaSource" where
  "java_source_set_property (PROP_SIZE v) el = el\<lparr>js_size := v\<rparr>"
| "java_source_set_property (PROP_IS_SEEKABLE v) el = el\<lparr>is_seekable := v\<rparr>"
| "java_source_set_property (PROP_IS_RANDOM_ACCESS v) el = el\<lparr>is_random_access := v\<rparr>"
| "java_source_set_property (PROP_STOP_ON_PAUSE v) el = el\<lparr>stop_on_pause := v\<rparr>"
| "java_source_set_property (PROP_LOCATION v) el = el\<lparr>location := v\<rparr>"
| "java_source_set_property (PROP_HLS_MODE v) el = (if v then el\<lparr>js_mode := MODE_HLS\<rparr> else el\<lparr>js_mode := MODE_DEFAULT\<rparr>)"
| "java_source_set_property (PROP_MIMETYPE v) el = el\<lparr>mimetype := v\<rparr>"
| "java_source_set_property PROP_OTHER el = el"

text \<open>Only the location can be read.\<close>

fun java_source_get_property :: "js_property \<Rightarrow> JavaSource \<Rightarrow> string option" where
  "java_source_get_property (PROP_LOCATION _) el = location el"
| "java_source_get_property _ el = None"

definition java_source_new :: JavaSource where
  "java_source_new = fold java_source_set_property
     [PROP_SIZE (- 1), PROP_IS_SEEKABLE False, PROP_IS_RANDOM_ACCESS False, PROP_STOP_ON_PAUSE True, PROP_HLS_MODE False] java_source_init"

datatype pad_mode = GST_PAD_MODE_NONE | GST_PAD_MODE_PUSH | GST_PAD_MODE_PULL

text \<open>\<open>linked\<close> is \<^verbatim>\<open>gst_pad_is_linked\<close>; starting and stopping a task succeeds.\<close>

fun java_source_activatemode :: "bool \<Rightarrow> pad_mode \<Rightarrow> bool \<Rightarrow> JavaSource \<Rightarrow> bool \<times> JavaSource" where
  "java_source_activatemode linked GST_PAD_MODE_PUSH active el =
     (if active then
        let el = el\<lparr>srcresult := GST_FLOW_OK\<rparr>
        in if linked then (True, el\<lparr>srcpad_task := TASK_STARTED\<rparr>) else (True, el)
      else (True, el\<lparr>srcresult := GST_FLOW_FLUSHING, srcpad_task := TASK_STOPPED\<rparr>))"
| "java_source_activatemode linked GST_PAD_MODE_PULL active el = (True, el)"
| "java_source_activatemode linked GST_PAD_MODE_NONE active el = (False, el)"

subsection \<open>Seeking\<close>

definition java_source_perform_seek :: "js_env \<Rightarrow> GstSeek \<Rightarrow> JavaSource \<Rightarrow> bool \<times> JavaSource" where
  "java_source_perform_seek E sk el =
     (if sk_format sk \<noteq> GST_FORMAT_BYTES \<and> in_mode MODE_DEFAULT el then (False, el)
      else if sk_format sk \<noteq> GST_FORMAT_TIME \<and> in_mode MODE_HLS el then (False, el)
      else let el = (if sk_flush sk then snd (push_event E FlushStart el) else el);
               el = el\<lparr>srcresult := GST_FLOW_FLUSHING\<rparr>;
               position = (if in_mode MODE_HLS el then sk_start sk sdiv GST_SECOND_ns else sk_start sk);
               new_position = je_seek_data E position;
               (result, el) =
                 (if new_position \<ge> 0 then
                    let el = el\<lparr>js_rate := sk_rate sk, pending_event := EVENT_SEGMENT\<rparr>;
                        el = (if in_mode MODE_HLS el
                              then el\<lparr>js_position := 0,
                                      position_time := (new_position * GST_SECOND_ns) sdiv HLS_VALUE_FLOAT_MULTIPLIER\<rparr>
                              else el\<lparr>js_position := position, position_time := 0\<rparr>)
                    in (True, el\<lparr>js_discont := True, js_update := False\<rparr>)
                  else (False, el));
               el = el\<lparr>srcresult := GST_FLOW_OK\<rparr>;
               el = (if sk_flush sk then snd (push_event E FlushStop el) else el)
           in (result, el\<lparr>srcpad_task := TASK_STARTED\<rparr>))"

text \<open>\<open>None\<close>: the event is left to \<^verbatim>\<open>gst_pad_event_default\<close>.\<close>

definition java_source_event :: "js_env \<Rightarrow> GstEvent \<Rightarrow> JavaSource \<Rightarrow> bool option \<times> JavaSource" where
  "java_source_event E ev el =
     (case ev of
        Seek sk \<Rightarrow> if is_seekable el then (case java_source_perform_seek E sk el of (r, el) \<Rightarrow> (Some r, el)) else (None, el)
      | _ \<Rightarrow> (None, el))"

subsection \<open>The streaming loop\<close>

definition send_stream_start :: "js_env \<Rightarrow> JavaSource \<Rightarrow> GstFlowReturn \<times> JavaSource" where
  "send_stream_start E el =
     (case push_event E StreamStart el of (ok, el) \<Rightarrow>
        (if ok then GST_FLOW_OK else GST_FLOW_FLUSHING, el\<lparr>pending_event := EVENT_SEGMENT\<rparr>))"

definition send_eos :: "js_env \<Rightarrow> JavaSource \<Rightarrow> GstFlowReturn \<times> JavaSource" where
  "send_eos E el = (GST_FLOW_EOS, snd (push_event E Eos el))"

definition push_segment :: "js_env \<Rightarrow> GstSegment \<Rightarrow> JavaSource \<Rightarrow> GstFlowReturn \<times> JavaSource" where
  "push_segment E seg el =
     (case push_event E (Segment seg) el of (ok, el) \<Rightarrow>
        (if ok then GST_FLOW_OK else GST_FLOW_FLUSHING, el\<lparr>pending_event := EVENT_UNKNOWN\<rparr>))"

definition send_segment :: "js_env \<Rightarrow> JavaSource \<Rightarrow> GstFlowReturn \<times> JavaSource" where
  "send_segment E el =
     (if in_mode MODE_HLS el then
        let result = je_load_segment E; start_time = je_start_time E
        in if srcresult el = GST_FLOW_FLUSHING then (GST_FLOW_OK, el)
           else if result = - 1 then send_eos E (el\<lparr>pending_event := EVENT_EOS\<rparr>)
           else let el = (if result < 0 then el\<lparr>js_discont := True\<rparr> else el);
                    result = \<bar>result\<bar>;
                    seg = (gst_segment_init GST_FORMAT_BYTES)
                            \<lparr>sg_update := js_update el, sg_rate := js_rate el,
                             sg_start := word_of_int ((start_time * GST_SECOND_ns) sdiv HLS_VALUE_FLOAT_MULTIPLIER),
                             sg_stop := word_of_int result, sg_time := word_of_int (position_time el),
                             sg_position := word_of_int (position_time el)\<rparr>
                in push_segment E seg el
      else push_segment E
             ((gst_segment_init GST_FORMAT_BYTES)
                \<lparr>sg_update := js_update el, sg_rate := js_rate el, sg_start := word_of_int (js_position el),
                 sg_stop := word_of_int (js_size el), sg_position := word_of_int (js_position el)\<rparr>) el)"

definition send_caps :: "js_env \<Rightarrow> JavaSource \<Rightarrow> JavaSource" where
  "send_caps E el =
     (case mimetype el of
        None \<Rightarrow> el
      | Some m \<Rightarrow>
          (let caps = (if str_contains ''audio/aac'' m then ''audio/mpeg, mpegversion=(int)4'' else m)
           in (snd (push_event E (Caps caps) el))\<lparr>mimetype := None\<rparr>))"

text \<open>A seek that arrives from downstream on the streaming thread itself runs at once, as the stream lock is recursive.\<close>

definition seek_back :: "js_env \<Rightarrow> JavaSource \<Rightarrow> JavaSource" where
  "seek_back E el = (case je_seek_back E of None \<Rightarrow> el | Some sk \<Rightarrow> snd (java_source_event E (Seek sk) el))"

definition push_block :: "js_env \<Rightarrow> int \<Rightarrow> JavaSource \<Rightarrow> GstFlowReturn \<times> JavaSource" where
  "push_block E nbytes el =
     (if \<not> je_alloc E then (GST_FLOW_OK, el)
      else if \<not> je_map_write E then (GST_FLOW_ERROR, el)
      else let buffer = new_buffer (take (nat nbytes) (je_block E)) (word_of_int (js_position el));
               buffer = (if js_discont el then buffer\<lparr>b_discont := True\<rparr> else buffer);
               el = el\<lparr>js_discont := False\<rparr>;
               el = send_caps E el;
               el = el\<lparr>srcpad_out := srcpad_out el @ [PadBuffer buffer]\<rparr>;
               el = seek_back E el;
               result = je_push E buffer;
               el = (if pending_event el \<noteq> EVENT_SEGMENT then el\<lparr>js_position := js_position el + nbytes\<rparr> else el)
           in if result = GST_FLOW_EOS then send_eos E (el\<lparr>pending_event := EVENT_EOS\<rparr>) else (result, el))"

definition send_data :: "js_env \<Rightarrow> JavaSource \<Rightarrow> GstFlowReturn \<times> JavaSource" where
  "send_data E el =
     (let nbytes = je_read_next_block E
      in if nbytes > 0 then push_block E nbytes el
         else if in_mode MODE_DEFAULT el \<and> nbytes = EOS_CODE then send_eos E (el\<lparr>pending_event := EVENT_EOS\<rparr>)
         else if in_mode MODE_HLS el \<and> nbytes = EOS_CODE then send_segment E (el\<lparr>pending_event := EVENT_SEGMENT\<rparr>)
         else if nbytes = OTHER_ERROR_CODE then (GST_FLOW_FLUSHING, el)
         else (GST_FLOW_OK, el))"

fun dispatch_event :: "pending_kind \<Rightarrow> js_env \<Rightarrow> JavaSource \<Rightarrow> GstFlowReturn \<times> JavaSource" where
  "dispatch_event EVENT_STREAM_START E el = send_stream_start E el"
| "dispatch_event EVENT_SEGMENT E el = send_segment E el"
| "dispatch_event EVENT_EOS E el = send_eos E el"
| "dispatch_event EVENT_UNKNOWN E el = send_data E el"

definition other_thread :: "js_env \<Rightarrow> JavaSource \<Rightarrow> JavaSource" where
  "other_thread E el = (case je_other_thread E of None \<Rightarrow> el | Some r \<Rightarrow> el\<lparr>srcresult := r\<rparr>)"

definition java_source_loop :: "js_env \<Rightarrow> JavaSource \<Rightarrow> JavaSource" where
  "java_source_loop E el =
     (let result = srcresult el;
          el = other_thread E el;
          (result, el) = (if result = GST_FLOW_OK then dispatch_event (pending_event el) E el else (result, el));
          (result, el) = (if srcresult el = GST_FLOW_OK \<or> result \<noteq> GST_FLOW_OK then (result, el\<lparr>srcresult := result\<rparr>)
                          else (srcresult el, el))
      in if result \<noteq> GST_FLOW_OK then el\<lparr>srcpad_task := TASK_PAUSED\<rparr> else el)"


subsection \<open>Queries\<close>

datatype js_query = QUERY_DURATION GstFormat | QUERY_SCHEDULING | QUERY_SEEKING GstFormat | QUERY_OTHER

datatype js_answer = DurationIs GstFormat int | PullMode | PushMode | SeekableTo int | Refused | DefaultHandler

definition java_source_query :: "js_env \<Rightarrow> js_query \<Rightarrow> JavaSource \<Rightarrow> js_answer \<times> JavaSource" where
  "java_source_query E q el =
     (case q of
        QUERY_DURATION format \<Rightarrow>
          if in_mode MODE_HLS el then
            if format \<noteq> GST_FORMAT_TIME then (Refused, el)
            else let duration = je_duration E;
                     el = (if duration < 0 then el\<lparr>js_mode := js_mode el OR MODE_HLS_LIVE\<rparr> else el)
                 in (DurationIs GST_FORMAT_TIME ((duration * GST_SECOND_ns) sdiv HLS_VALUE_FLOAT_MULTIPLIER), el)
          else if format \<noteq> GST_FORMAT_BYTES then (Refused, el) else (DurationIs GST_FORMAT_BYTES (js_size el), el)
      | QUERY_SCHEDULING \<Rightarrow> (if is_random_access el then PullMode else PushMode, el)
      | QUERY_SEEKING format \<Rightarrow>
          if format \<noteq> GST_FORMAT_BYTES \<or> \<not> is_seekable el then (Refused, el) else (SeekableTo (js_size el), el)
      | QUERY_OTHER \<Rightarrow> (DefaultHandler, el))"

subsection \<open>State changes\<close>

datatype state_change = NULL_TO_READY | READY_TO_PAUSED | PAUSED_TO_PLAYING | PLAYING_TO_PAUSED | PAUSED_TO_READY | READY_TO_NULL

fun js_before :: "state_change \<Rightarrow> JavaSource \<Rightarrow> JavaSource" where
  "js_before READY_TO_PAUSED el =
     el\<lparr>pending_event := EVENT_STREAM_START, js_position := 0, position_time := 0, js_discont := False,
        js_update := \<not> in_mode MODE_HLS el, srcresult := GST_FLOW_OK\<rparr>"
| "js_before PAUSED_TO_PLAYING el = (if stop_on_pause el then el\<lparr>srcresult := GST_FLOW_OK\<rparr> else el)"
| "js_before _ el = el"

fun js_after :: "state_change \<Rightarrow> JavaSource \<Rightarrow> JavaSource" where
  "js_after PLAYING_TO_PAUSED el = (if stop_on_pause el then el\<lparr>srcresult := GST_FLOW_FLUSHING\<rparr> else el)"
| "js_after READY_TO_NULL el =
     (if \<not> stop_on_pause el then el\<lparr>srcresult := GST_FLOW_FLUSHING\<rparr> else el)\<lparr>js_size := - 1, connection_open := False\<rparr>"
| "js_after _ el = el"

text \<open>\<open>parent\<close> is the state change of the parent class: whether it succeeds, and what it does to the pad.\<close>

definition java_source_change_state :: "(JavaSource \<Rightarrow> bool \<times> JavaSource) \<Rightarrow> state_change \<Rightarrow> JavaSource \<Rightarrow> bool \<times> JavaSource" where
  "java_source_change_state parent transition el =
     (case parent (js_before transition el) of (ok, el) \<Rightarrow> if \<not> ok then (False, el) else (True, js_after transition el))"

subsection \<open>Pull mode\<close>

text \<open>The Java side, asked for \<open>n\<close> bytes at an offset for the \<open>k\<close>-th time, answers a number and holds bytes for
  \<^verbatim>\<open>copy-block\<close>.  The loop of \<^verbatim>\<open>getrange\<close> may never end, which is the value \<open>None\<close>.\<close>

type_synonym block_source = "nat \<Rightarrow> u64 \<Rightarrow> u32 \<Rightarrow> int \<times> octet list"

definition to_read :: "u32 \<Rightarrow> u32 \<Rightarrow> u32" where
  "to_read len got = (if len - got \<ge> MAX_READ_SIZE then MAX_READ_SIZE else len - got)"

partial_function (option) getrange_loop ::
  "block_source \<Rightarrow> u64 \<Rightarrow> u32 \<Rightarrow> nat \<Rightarrow> u32 \<Rightarrow> octet list \<Rightarrow> (GstFlowReturn \<times> octet list) option" where
  "getrange_loop java offset len k got data =
     (if got < len then
        case java k (offset + ucast got) (to_read len got) of (nbytes, block) \<Rightarrow>
          if nbytes > 0 \<and> nbytes \<le> uint (to_read len got) then
            if nbytes < uint (to_read len got)
            then Some (GST_FLOW_OK, data @ take (nat nbytes) block)
            else getrange_loop java offset len (Suc k) (got + word_of_int nbytes) (data @ take (nat nbytes) block)
          else if nbytes = EOS_CODE \<or> nbytes = 0 then Some (GST_FLOW_EOS, [])
          else getrange_loop java offset len (Suc k) got data
      else Some (GST_FLOW_OK, data))"

definition java_source_getrange :: "bool \<Rightarrow> bool \<Rightarrow> block_source \<Rightarrow> u64 \<Rightarrow> u32 \<Rightarrow> (GstFlowReturn \<times> GstBuffer option) option" where
  "java_source_getrange alloc map_ok java offset len =
     (if \<not> alloc then Some (GST_FLOW_ERROR, None)
      else if \<not> map_ok then Some (GST_FLOW_ERROR, None)
      else case getrange_loop java offset len 0 0 [] of
             None \<Rightarrow> None
           | Some (GST_FLOW_OK, data) \<Rightarrow> Some (GST_FLOW_OK, Some (new_buffer data offset))
           | Some (r, _) \<Rightarrow> Some (r, None))"

declare getrange_loop.simps [code]

subsection \<open>Reading on demand\<close>

text \<open>The Java side holds a file: it delivers what was asked for as far as the file goes, and \<^verbatim>\<open>EOS_CODE\<close> behind its end.\<close>

definition file_source :: "octet list \<Rightarrow> block_source" where
  "file_source file k offset n =
     (if length file \<le> unat offset then (EOS_CODE, [])
      else (int (min (unat n) (length file - unat offset)), drop (unat offset) file))"

lemma int_le_uint: "int s \<le> uint (w :: 'a::len word) \<longleftrightarrow> s \<le> unat w" "int s < uint w \<longleftrightarrow> s < unat w"
  by (simp_all add: le_nat_iff zless_nat_eq_int_zless flip: nat_uint_eq)

lemma unat_to_read: "unat got \<le> unat len \<Longrightarrow> unat (to_read len got) = min 65536 (unat len - unat got)"
  by (auto simp: to_read_def MAX_READ_SIZE_def word_le_nat_alt unat_sub)

lemma unat_got_step:
  assumes "unat got \<le> unat len" "0 < s" "s \<le> uint (to_read len got)"
  shows "unat (got + word_of_int s) = unat got + nat s" "unat got + nat s \<le> unat len" "nat s \<le> 65536"
proof -
  have s: "nat s \<le> unat (to_read len got)"
    using assms(3) by (simp add: nat_le_iff)
  then have le: "unat got + nat s \<le> unat len" "nat s \<le> 65536"
    using assms(1) by (auto simp: unat_to_read)
  then have "nat s < 2 ^ 32"
    using unat_u32_less [of len] by linarith
  then have "unat (word_of_int s :: u32) = nat s"
    using assms(2) by (simp add: unsigned_of_int take_bit_int_eq_self nat_less_iff)
  moreover have "unat got + nat s < 2 ^ LENGTH(32)"
    using le(1) unat_u32_less [of len] by simp
  ultimately show "unat (got + word_of_int s) = unat got + nat s"
    by (simp add: unat_add_fits)
  show "unat got + nat s \<le> unat len" "nat s \<le> 65536"
    using le by simp_all
qed

lemma getrange_loop_file:
  assumes "unat got \<le> unat len" "length data = unat got" "data = take (unat got) (drop (unat offset) file)"
    "unat offset + unat len < 2 ^ 64"
  shows "getrange_loop (file_source file) offset len k got data =
    (if got = len \<or> unat offset + unat len \<le> length file \<or> (length file - (unat offset + unat got)) mod 65536 \<noteq> 0
     then Some (GST_FLOW_OK, take (unat len) (drop (unat offset) file)) else Some (GST_FLOW_EOS, []))"
  using assms
proof (induction "unat len - unat got" arbitrary: k got data rule: less_induct)
  case less
  show ?case
  proof (cases "got < len")
    case False
    then have "got = len"
      using less.prems(1) by (simp add: word_le_nat_alt word_less_nat_alt word_unat_eq_iff)
    with less.prems show ?thesis
      by (simp add: getrange_loop.simps)
  next
    case True
    define n where "n = to_read len got"
    have gl: "unat got < unat len" "got \<noteq> len"
      using True by (auto simp: word_less_nat_alt)
    have n: "unat n = min 65536 (unat len - unat got)"
      using less.prems(1) by (simp add: n_def unat_to_read)
    have off: "unat (offset + ucast got) = unat offset + unat got"
      using less.prems(1,4) by (simp add: unat_add_fits)
    show ?thesis
    proof (cases "length file \<le> unat offset + unat got")
      case behind: True
      then have "file_source file k (offset + ucast got) n = (EOS_CODE, [])"
        by (simp add: file_source_def off)
      with behind gl True show ?thesis
        by (subst getrange_loop.simps) (auto simp: n_def EOS_CODE_def)
    next
      case False
      define s where "s = min (unat n) (length file - (unat offset + unat got))"
      have src: "file_source file k (offset + ucast got) n = (int s, drop (unat offset + unat got) file)"
        using False by (simp add: file_source_def off s_def)
      have s: "0 < s" "int s \<le> uint n"
        using False gl n by (auto simp: s_def int_le_uint)
      have data: "data @ take s (drop (unat offset + unat got) file) = take (unat got + s) (drop (unat offset) file)"
        using less.prems(3) by (simp add: take_add add.commute [of "unat got" "unat offset"])
      have eq: "unat n = s" if "int s = uint n"
        using that by (metis nat_int nat_uint_eq)
      have step: "getrange_loop (file_source file) offset len k got data =
        (if int s < uint n then Some (GST_FLOW_OK, take (unat got + s) (drop (unat offset) file))
         else getrange_loop (file_source file) offset len (Suc k) (got + word_of_int (int s)) (take (unat got + s) (drop (unat offset) file)))"
        using True s data eq by (subst getrange_loop.simps) (auto simp: n_def [symmetric] src)
      show ?thesis
      proof (cases "int s < uint n")
        case short: True
        then have lt: "s < unat n"
          by (simp add: int_le_uint)
        then have "s = length file - (unat offset + unat got)"
          by (simp add: s_def)
        moreover have "getrange_loop (file_source file) offset len k got data =
            Some (GST_FLOW_OK, take (unat got + s) (drop (unat offset) file))"
          using step short by simp
        ultimately show ?thesis
          using lt n s(1) False gl by auto
      next
        case full: False
        then have sn: "s = unat n" "unat n \<le> length file - (unat offset + unat got)"
          by (auto simp: s_def int_le_uint)
        note gs = unat_got_step [OF less.prems(1) _ s(2) [unfolded n_def]]
        define h where "h = got + word_of_int (int s)"
        have g': "unat h = unat got + s" "unat got + s \<le> unat len"
          using gs s(1) by (auto simp: h_def)
        have "unat len - unat h < unat len - unat got" "unat h \<le> unat len" "length (take (unat h) (drop (unat offset) file)) = unat h"
          using g' s(1) sn False gl by auto
        note IH = less.hyps [OF this refl less.prems(4), of "Suc k", unfolded g'(1)]
        have "h = len \<longleftrightarrow> unat got + s = unat len"
          using g' by (simp add: word_unat_eq_iff)
        moreover have "unat got + s = unat len \<or> s = 65536"
          using sn n gl by auto
        moreover have "(length file - (unat offset + (unat got + s))) mod 65536 = (length file - (unat offset + unat got)) mod 65536"
          if "s = 65536"
          using sn that le_mod_geq [of 65536 "length file - (unat offset + unat got)"] by (simp add: add.assoc)
        moreover have "unat offset + unat len \<le> length file" if "unat got + s = unat len"
          using that sn False by linarith
        moreover have "getrange_loop (file_source file) offset len k got data =
            getrange_loop (file_source file) offset len (Suc k) h (take (unat got + s) (drop (unat offset) file))"
          using step full unfolding h_def by (simp only: if_False)
        ultimately show ?thesis
          unfolding IH using gl(2) by (cases "unat got + s = unat len") auto
      qed
    qed
  qed
qed


text \<open>C28: On a file, a request in pull mode for \<open>len\<close> bytes that lie within the file is answered with exactly these bytes; at or
  behind the end it is answered with end of stream.  A request that reaches over the end is answered with what is left of the
  file, unless this is a multiple of \<^verbatim>\<open>MAX_READ_SIZE\<close>: then the loop asks once more at the end of the file, and everything read
  is dropped in favour of end of stream.\<close>

theorem java_source_getrange_file:
  assumes "unat offset + unat len < 2 ^ 64"
  shows "java_source_getrange True True (file_source file) offset len =
    (if len = 0 \<or> unat offset + unat len \<le> length file \<or> (length file - unat offset) mod 65536 \<noteq> 0
     then Some (GST_FLOW_OK, Some (new_buffer (take (unat len) (drop (unat offset) file)) offset)) else Some (GST_FLOW_EOS, None))"
  using getrange_loop_file [where got = 0 and data = "[]"] assms by (auto simp: java_source_getrange_def)

definition demo_file :: "octet list" where
  "demo_file = [10, 20, 30, 40, 50]"

theorem java_source_getrange_file_witness:
  "java_source_getrange True True (file_source demo_file) 1 3 = Some (GST_FLOW_OK, Some (new_buffer [20, 30, 40] 1)) \<and>
   java_source_getrange True True (file_source demo_file) 3 9 = Some (GST_FLOW_OK, Some (new_buffer [40, 50] 3)) \<and>
   java_source_getrange True True (file_source demo_file) 5 4 = Some (GST_FLOW_EOS, None)"
  using java_source_getrange_file [of 1 3 demo_file] java_source_getrange_file [of 3 9 demo_file]
    java_source_getrange_file [of 5 4 demo_file]
  by (simp add: demo_file_def)

text \<open>An answer of \<^verbatim>\<open>read-block\<close> that the loop can deal with.\<close>

definition answers :: "nat \<Rightarrow> block_source \<Rightarrow> bool" where
  "answers K java \<longleftrightarrow> (\<forall>k \<ge> K. \<forall>offset n. - 1 \<le> fst (java k offset n) \<and> fst (java k offset n) \<le> uint n)"

lemma getrange_loop_returns:
  assumes "answers K java" "unat got \<le> unat len"
  shows "\<exists>r. getrange_loop java offset len k got data = Some r"
  using assms(2)
proof (induction "(K - k, unat len - unat got)" arbitrary: k got data rule: wf_induct_rule [OF wf_lex_prod [OF wf_less_than wf_less_than]])
  case (1 k got data)
  obtain s block where java: "java k (offset + ucast got) (to_read len got) = (s, block)"
    by (cases "java k (offset + ucast got) (to_read len got)")
  have unfold: "getrange_loop java offset len k got data =
     (if got < len then
          if s > 0 \<and> s \<le> uint (to_read len got) then
            if s < uint (to_read len got) then Some (GST_FLOW_OK, data @ take (nat s) block)
            else getrange_loop java offset len (Suc k) (got + word_of_int s) (data @ take (nat s) block)
          else if s = EOS_CODE \<or> s = 0 then Some (GST_FLOW_EOS, [])
          else getrange_loop java offset len (Suc k) got data
      else Some (GST_FLOW_OK, data))"
    by (subst getrange_loop.simps) (simp add: java)
  show ?case
  proof (cases "got < len")
    case True
    show ?thesis
    proof (cases "s > 0 \<and> s \<le> uint (to_read len got)")
      case s: True
      then have step: "unat (got + word_of_int s) = unat got + nat s" "unat got + nat s \<le> unat len"
        using unat_got_step [OF 1(2)] by auto
      moreover have "K - Suc k < K - k \<or> K - Suc k = K - k \<and> unat len - (unat got + nat s) < unat len - unat got"
        using s True by (auto simp: word_less_nat_alt)
      ultimately have "\<exists>r. getrange_loop java offset len (Suc k) (got + word_of_int s) (data @ take (nat s) block) = Some r"
        using 1(1) [of "Suc k" "got + word_of_int s"] by auto
      then show ?thesis
        using True s unfolding unfold by auto
    next
      case bad: False
      show ?thesis
      proof (cases "s = EOS_CODE \<or> s = 0")
        case False
        have "- 1 \<le> s \<and> s \<le> uint (to_read len got)" if "K \<le> k"
          using assms(1) that java by (metis answers_def fst_conv)
        then have "k < K"
          using bad False unfolding EOS_CODE_def by linarith
        then have "\<exists>r. getrange_loop java offset len (Suc k) got data = Some r"
          using 1(1) [of "Suc k" got] 1(2) by auto
        with bad False True show ?thesis
          unfolding unfold by auto
      qed (use bad True in \<open>auto simp: unfold\<close>)
    qed
  qed (simp add: unfold)
qed

text \<open>C29: A request in pull mode returns whatever the Java side answers, provided that from some call on each answer is a number of
  bytes between zero and what was asked for, or \<^verbatim>\<open>EOS_CODE\<close>.\<close>

theorem java_source_getrange_returns:
  assumes "answers K java"
  shows "\<exists>r. java_source_getrange alloc map_ok java offset len = Some r"
  using getrange_loop_returns [OF assms, of 0 len offset 0 "[]"]
  by (auto simp: java_source_getrange_def split: GstFlowReturn.split prod.split)

text \<open>A connection that failed twice and then works.\<close>

theorem java_source_getrange_returns_witness:
  "\<exists>r. java_source_getrange True True (\<lambda>k offset n. if k < 2 then (OTHER_ERROR_CODE, []) else (uint n, replicate (unat n) 7)) 0 100 = Some r"
  by (rule java_source_getrange_returns [of 2]) (auto simp: answers_def intro: order_trans [of _ 0])

lemma getrange_loop_spins:
  assumes returns: "getrange_loop java offset len k got data = Some r"
  shows "(\<forall>k offset n. fst (java k offset n) = OTHER_ERROR_CODE) \<longrightarrow> \<not> got < len"
proof (rule getrange_loop.raw_induct
    [where P = "\<lambda>java offset len k got data r. (\<forall>k offset n. fst (java k offset n) = OTHER_ERROR_CODE) \<longrightarrow> \<not> got < len", OF _ returns])
  fix loop java offset len k got data r
  assume IH: "\<And>java offset len k got data r. loop java offset len k got data = Some r \<Longrightarrow>
      (\<forall>k offset n. fst (java k offset n) = OTHER_ERROR_CODE) \<longrightarrow> \<not> got < len"
    and body: "(if got < len then
        case java k (offset + ucast got) (to_read len got) of (s, block) \<Rightarrow>
          if s > 0 \<and> s \<le> uint (to_read len got) then
            if s < uint (to_read len got) then Some (GST_FLOW_OK, data @ take (nat s) block)
            else loop java offset len (Suc k) (got + word_of_int s) (data @ take (nat s) block)
          else if s = EOS_CODE \<or> s = 0 then Some (GST_FLOW_EOS, [])
          else loop java offset len (Suc k) got data
      else Some (GST_FLOW_OK, data)) = Some r"
  show "(\<forall>k offset n. fst (java k offset n) = OTHER_ERROR_CODE) \<longrightarrow> \<not> got < len"
  proof (intro impI notI)
    assume fails: "\<forall>k offset n. fst (java k offset n) = OTHER_ERROR_CODE" and "got < len"
    then have "loop java offset len (Suc k) got data = Some r"
      using body fails [rule_format, of k "offset + ucast got" "to_read len got"]
      by (cases "java k (offset + ucast got) (to_read len got)") (simp add: OTHER_ERROR_CODE_def EOS_CODE_def)
    with IH fails \<open>got < len\<close> show False
      by blast
  qed
qed

text \<open>An exception in Java is answered with \<^verbatim>\<open>OTHER_ERROR_CODE\<close>, on which the loop just asks again: with a connection that keeps
  failing the call never returns.\<close>

theorem java_source_getrange_spins:
  assumes "\<And>k offset n. fst (java k offset n) = OTHER_ERROR_CODE" "0 < len"
  shows "java_source_getrange True True java offset len = None"
  using getrange_loop_spins [of java offset len 0 0 "[]"] assms
  by (cases "getrange_loop java offset len 0 0 []") (auto simp: java_source_getrange_def)

end
