(* ===== verification/Java_Streams.thy ===== *)
theory Java_Streams
  imports Java_Source
begin

text \<open>
  What the source element sends in push mode: the whole output of the loop of \<^verbatim>\<open>javasource.c\<close> for a plain stream, after a seek, and
  for a play list, and that a flush requested by another thread is never lost.
\<close>

subsection \<open>Streaming\<close>

lemma in_mode_simps [simp]:
  "in_mode m (el\<lparr>srcresult := a\<rparr>) = in_mode m el" "in_mode m (el\<lparr>pending_event := b\<rparr>) = in_mode m el"
  "in_mode m (el\<lparr>js_position := c\<rparr>) = in_mode m el" "in_mode m (el\<lparr>position_time := c\<rparr>) = in_mode m el"
  "in_mode m (el\<lparr>js_discont := d\<rparr>) = in_mode m el" "in_mode m (el\<lparr>js_update := d\<rparr>) = in_mode m el"
  "in_mode m (el\<lparr>mimetype := e\<rparr>) = in_mode m el" "in_mode m (el\<lparr>js_rate := r\<rparr>) = in_mode m el"
  "in_mode m (el\<lparr>srcpad_task := f\<rparr>) = in_mode m el" "in_mode m (el\<lparr>srcpad_out := g\<rparr>) = in_mode m el"
  by (simp_all add: in_mode_def)

text \<open>An undisturbed run of the loop: memory can be had, downstream accepts everything and nobody interferes.\<close>

definition undisturbed :: "js_env \<Rightarrow> bool" where
  "undisturbed E \<longleftrightarrow> je_other_thread E = None \<and> je_alloc E \<and> je_map_write E \<and> (\<forall>ev. je_push_event E ev) \<and>
     (\<forall>b. je_push E b = GST_FLOW_OK) \<and> je_seek_back E = None"

text \<open>The Java side delivers blocks, one for each run, and then \<^verbatim>\<open>EOS_CODE\<close>.\<close>

definition block_env :: "js_env \<Rightarrow> octet list \<Rightarrow> js_env" where
  "block_env E b = E\<lparr>je_read_next_block := int (length b), je_block := b\<rparr>"

definition end_env :: "js_env \<Rightarrow> js_env" where
  "end_env E = E\<lparr>je_read_next_block := EOS_CODE\<rparr>"

fun js_run :: "js_env list \<Rightarrow> JavaSource \<Rightarrow> JavaSource" where
  "js_run [] el = el"
| "js_run (E # Es) el = js_run Es (java_source_loop E el)"

lemma js_run_append: "js_run (Es @ Fs) el = js_run Fs (js_run Es el)"
  by (induction Es arbitrary: el) auto

text \<open>The buffers the blocks are sent in: consecutive offsets, the first one marked after a discontinuity.\<close>

fun stamped :: "int \<Rightarrow> bool \<Rightarrow> octet list list \<Rightarrow> pad_item list" where
  "stamped pos disc [] = []"
| "stamped pos disc (b # bs) =
     PadBuffer ((new_buffer b (word_of_int pos))\<lparr>b_discont := disc\<rparr>) # stamped (pos + int (length b)) False bs"

definition caps_items :: "JavaSource \<Rightarrow> pad_item list" where
  "caps_items el = (case mimetype el of None \<Rightarrow> []
     | Some m \<Rightarrow> [PadEvent (Caps (if str_contains ''audio/aac'' m then ''audio/mpeg, mpegversion=(int)4'' else m))])"

lemma undisturbed_simps [simp]:
  "undisturbed (block_env E b) = undisturbed E" "undisturbed (end_env E) = undisturbed E"
  by (simp_all add: undisturbed_def block_env_def end_env_def)

lemma loop_block:
  assumes "undisturbed E" "srcresult el = GST_FLOW_OK" "pending_event el = EVENT_UNKNOWN" "b \<noteq> []"
  shows "java_source_loop (block_env E b) el =
    el\<lparr>js_position := js_position el + int (length b), js_discont := False, mimetype := None,
       srcpad_out := srcpad_out el @ caps_items el @ [PadBuffer ((new_buffer b (word_of_int (js_position el)))\<lparr>b_discont := js_discont el\<rparr>)]\<rparr>"
  using assms
  by (cases "mimetype el")
     (auto simp: java_source_loop_def other_thread_def undisturbed_def block_env_def send_data_def push_block_def
       send_caps_def caps_items_def push_event_def seek_back_def Let_def new_buffer_def)

lemma loop_blocks:
  assumes "undisturbed E"
  shows "srcresult el = GST_FLOW_OK \<Longrightarrow> pending_event el = EVENT_UNKNOWN \<Longrightarrow> [] \<notin> set bs \<Longrightarrow>
    js_run (map (block_env E) bs) el =
      (if bs = [] then el
       else el\<lparr>js_position := js_position el + int (length (concat bs)), js_discont := False, mimetype := None,
               srcpad_out := srcpad_out el @ caps_items el @ stamped (js_position el) (js_discont el) bs\<rparr>)"
proof (induction bs arbitrary: el)
  case (Cons b bs)
  then have "js_run (map (block_env E) (b # bs)) el = js_run (map (block_env E) bs) (java_source_loop (block_env E b) el)"
    by simp
  also have "\<dots> = js_run (map (block_env E) bs)
    (el\<lparr>js_position := js_position el + int (length b), js_discont := False, mimetype := None,
       srcpad_out := srcpad_out el @ caps_items el @ [PadBuffer ((new_buffer b (word_of_int (js_position el)))\<lparr>b_discont := js_discont el\<rparr>)]\<rparr>)"
    using Cons.prems assms by (subst loop_block) auto
  finally show ?case
    using Cons.prems by (simp add: Cons.IH caps_items_def)
qed simp

text \<open>The segment of a plain stream.\<close>

definition plain_segment :: "JavaSource \<Rightarrow> GstSegment" where
  "plain_segment el = (gst_segment_init GST_FORMAT_BYTES)
     \<lparr>sg_update := js_update el, sg_rate := js_rate el, sg_start := word_of_int (js_position el),
      sg_stop := word_of_int (js_size el), sg_position := word_of_int (js_position el)\<rparr>"

lemma loop_segment:
  assumes "undisturbed E" "srcresult el = GST_FLOW_OK" "pending_event el = EVENT_SEGMENT" "\<not> in_mode MODE_HLS el"
  shows "java_source_loop E el = el\<lparr>pending_event := EVENT_UNKNOWN, srcpad_out := srcpad_out el @ [PadEvent (Segment (plain_segment el))]\<rparr>"
  using assms
  by (auto simp: java_source_loop_def other_thread_def undisturbed_def send_segment_def push_segment_def push_event_def
      plain_segment_def)

lemma loop_end:
  assumes "undisturbed E" "srcresult el = GST_FLOW_OK" "pending_event el = EVENT_UNKNOWN" "in_mode MODE_DEFAULT el"
  shows "java_source_loop (end_env E) el =
    el\<lparr>pending_event := EVENT_EOS, srcresult := GST_FLOW_EOS, srcpad_task := TASK_PAUSED, srcpad_out := srcpad_out el @ [PadEvent Eos]\<rparr>"
  using assms
  by (auto simp: java_source_loop_def other_thread_def undisturbed_def end_env_def send_data_def send_eos_def push_event_def Let_def
      EOS_CODE_def)

lemma loop_stream_start:
  assumes "undisturbed E" "srcresult el = GST_FLOW_OK" "pending_event el = EVENT_STREAM_START"
  shows "java_source_loop E el = el\<lparr>pending_event := EVENT_SEGMENT, srcpad_out := srcpad_out el @ [PadEvent StreamStart]\<rparr>"
  using assms
  by (auto simp: java_source_loop_def other_thread_def undisturbed_def send_stream_start_def push_event_def)

lemma stream_from_segment:
  assumes "undisturbed E" "srcresult el = GST_FLOW_OK" "pending_event el = EVENT_SEGMENT" "js_mode el = MODE_DEFAULT" "[] \<notin> set bs"
  shows "js_run (E # map (block_env E) bs @ [end_env E]) el =
    el\<lparr>pending_event := EVENT_EOS, srcresult := GST_FLOW_EOS, srcpad_task := TASK_PAUSED,
       js_position := js_position el + int (length (concat bs)),
       js_discont := (bs = [] \<and> js_discont el), mimetype := (if bs = [] then mimetype el else None),
       srcpad_out := srcpad_out el @ [PadEvent (Segment (plain_segment el))] @
         (if bs = [] then [] else caps_items el @ stamped (js_position el) (js_discont el) bs) @ [PadEvent Eos]\<rparr>"
proof -
  have m: "in_mode MODE_DEFAULT el" "\<not> in_mode MODE_HLS el"
    using assms(4) by (simp_all add: in_mode_def js_constants)
  note l = loop_segment [OF assms(1-3) m(2)]
  show ?thesis
    using assms m by (auto simp: js_run_append l loop_blocks loop_end caps_items_def)
qed

text \<open>The parent class activates the linked pad in push mode when the element goes to \<^verbatim>\<open>PAUSED\<close>.\<close>

definition start_streaming :: "JavaSource \<Rightarrow> JavaSource" where
  "start_streaming el = snd (java_source_change_state (java_source_activatemode True GST_PAD_MODE_PUSH True) READY_TO_PAUSED el)"

lemma stream_from_start:
  assumes "undisturbed E" "js_mode el = MODE_DEFAULT" "[] \<notin> set bs" "bs \<noteq> []"
  shows "let el' = js_run (E # E # map (block_env E) bs @ [end_env E]) (start_streaming el)
    in srcpad_out el' = srcpad_out el @
         [PadEvent StreamStart,
          PadEvent (Segment (plain_segment (el\<lparr>js_position := 0, js_update := True\<rparr>)))] @
         caps_items el @ stamped 0 False bs @ [PadEvent Eos] \<and>
       srcresult el' = GST_FLOW_EOS \<and> srcpad_task el' = TASK_PAUSED \<and> js_position el' = int (length (concat bs))"
proof -
  have m: "\<not> in_mode MODE_HLS el"
    using assms(2) by (simp add: in_mode_def js_constants)
  define s where "s = el\<lparr>pending_event := EVENT_STREAM_START, js_position := 0, position_time := 0, js_discont := False, js_update := True,
      srcresult := GST_FLOW_OK, srcpad_task := TASK_STARTED\<rparr>"
  have start: "start_streaming el = s"
    using m by (simp add: start_streaming_def java_source_change_state_def Let_def s_def)
  define s1 where "s1 = s\<lparr>pending_event := EVENT_SEGMENT, srcpad_out := srcpad_out s @ [PadEvent StreamStart]\<rparr>"
  have "js_run (E # E # map (block_env E) bs @ [end_env E]) (start_streaming el) = js_run (E # map (block_env E) bs @ [end_env E]) s1"
    using loop_stream_start [OF assms(1), of s] by (simp add: start s_def s1_def)
  also note stream_from_segment [OF assms(1), of s1 bs]
  finally show ?thesis
    using assms by (simp add: s1_def s_def plain_segment_def caps_items_def Let_def)
qed

text \<open>C27: Started in push mode on a Java connection that delivers any sequence of non-empty blocks and then reports its end, the
  source sends down exactly: the start of the stream, one segment from zero to the size of the stream, the caps of the media
  type if one is set, one buffer for each block with its bytes and at the offset where the previous one ended, and end of
  stream; then its task pauses.\<close>

theorem java_source_streams:
  assumes "undisturbed E" "js_mode el = MODE_DEFAULT" "[] \<notin> set bs" "bs \<noteq> []"
  shows "let el' = js_run (E # E # map (block_env E) bs @ [end_env E]) (start_streaming el)
    in srcpad_out el' = srcpad_out el @
         [PadEvent StreamStart,
          PadEvent (Segment (plain_segment (el\<lparr>js_position := 0, js_update := True\<rparr>)))] @
         caps_items el @ stamped 0 False bs @ [PadEvent Eos] \<and>
       srcresult el' = GST_FLOW_EOS \<and> srcpad_task el' = TASK_PAUSED \<and> js_position el' = int (length (concat bs))"
  by (rule stream_from_start [OF assms])

definition demo_env :: js_env where
  "demo_env = \<lparr>je_seek_data = (\<lambda>p. p), je_load_segment = - 1, je_start_time = 0, je_duration = 0, je_read_next_block = 0,
     je_block = [], je_other_thread = None, je_alloc = True, je_map_write = True, je_push_event = (\<lambda>_. True),
     je_push = (\<lambda>_. GST_FLOW_OK), je_seek_back = None\<rparr>"

lemma demo_env_undisturbed: "undisturbed demo_env"
  by (simp add: undisturbed_def demo_env_def)

definition demo_source :: JavaSource where
  "demo_source = java_source_new\<lparr>js_size := 3, mimetype := Some ''audio/aac''\<rparr>"

theorem java_source_streams_witness:
  "srcpad_out (js_run (demo_env # demo_env # map (block_env demo_env) [[1, 2], [3]] @ [end_env demo_env]) (start_streaming demo_source)) =
    [PadEvent StreamStart, PadEvent (Segment (plain_segment (demo_source\<lparr>js_position := 0, js_update := True\<rparr>)))] @
    caps_items demo_source @ [PadBuffer (new_buffer [1, 2] 0), PadBuffer (new_buffer [3] 2), PadEvent Eos]"
  using java_source_streams [OF demo_env_undisturbed, of demo_source "[[1, 2], [3]]"]
  by (simp add: demo_source_def java_source_new_def java_source_init_def Let_def new_buffer_def)

text \<open>C33: After a flushing seek in bytes that the Java connection accepts, a plain source sends down exactly: flush start, flush
  stop, a segment that starts at the new position with the rate of the seek, then the data read from there at consecutive
  offsets, the first buffer marked as a discontinuity, and end of stream.\<close>

theorem java_source_seek_streams:
  assumes "undisturbed E" "js_mode el = MODE_DEFAULT" "is_seekable el" "sk_format sk = GST_FORMAT_BYTES" "sk_flush sk"
    "0 \<le> je_seek_data E (sk_start sk)" "mimetype el = None" "[] \<notin> set bs"
  shows "let (handled, el') = java_source_event E (Seek sk) el; el'' = js_run (E # map (block_env E) bs @ [end_env E]) el'
    in handled = Some True \<and> srcpad_task el' = TASK_STARTED \<and>
       srcpad_out el'' = srcpad_out el @
         [PadEvent FlushStart, PadEvent FlushStop,
          PadEvent (Segment (plain_segment (el\<lparr>js_position := sk_start sk, js_update := False, js_rate := sk_rate sk\<rparr>)))] @
         stamped (sk_start sk) True bs @ [PadEvent Eos] \<and>
       srcpad_task el'' = TASK_PAUSED"
proof -
  have m: "in_mode MODE_DEFAULT el" "\<not> in_mode MODE_HLS el"
    using assms(2) by (simp_all add: in_mode_def js_constants)
  define s where "s = el\<lparr>js_rate := sk_rate sk, pending_event := EVENT_SEGMENT, js_position := sk_start sk, position_time := 0,
      js_discont := True, js_update := False, srcresult := GST_FLOW_OK, srcpad_task := TASK_STARTED,
      srcpad_out := srcpad_out el @ [PadEvent FlushStart, PadEvent FlushStop]\<rparr>"
  have ev: "java_source_event E (Seek sk) el = (Some True, s)"
    using assms m by (simp add: java_source_event_def java_source_perform_seek_def push_event_def s_def)
  have "srcresult s = GST_FLOW_OK" "pending_event s = EVENT_SEGMENT" "js_mode s = MODE_DEFAULT"
    using assms(2) by (simp_all add: s_def)
  note run = stream_from_segment [OF assms(1) this assms(8)]
  show ?thesis
    unfolding ev Let_def prod.case run using assms(7) by (auto simp: s_def plain_segment_def caps_items_def)
qed

definition demo_seek :: GstSeek where
  "demo_seek = \<lparr>sk_rate = 1, sk_format = GST_FORMAT_BYTES, sk_flush = True, sk_set = True, sk_start = 1, sk_stop_none = True\<rparr>"

theorem java_source_seek_streams_witness:
  "let el = java_source_init\<lparr>is_seekable := True\<rparr>; (handled, el') = java_source_event demo_env (Seek demo_seek) el;
       el'' = js_run (demo_env # map (block_env demo_env) [[2], [3]] @ [end_env demo_env]) el'
   in handled = Some True \<and> srcpad_out el'' =
     [PadEvent FlushStart, PadEvent FlushStop,
      PadEvent (Segment (plain_segment (el\<lparr>js_position := 1, js_update := False, js_rate := 1\<rparr>))),
      PadBuffer ((new_buffer [2] 1)\<lparr>b_discont := True\<rparr>), PadBuffer (new_buffer [3] 2), PadEvent Eos]"
  using java_source_seek_streams [OF demo_env_undisturbed, of "java_source_init\<lparr>is_seekable := True\<rparr>" demo_seek "[[2], [3]]"]
  by (simp add: java_source_init_def demo_seek_def demo_env_def Let_def split_beta new_buffer_def)

text \<open>What the loop does between the two critical sections does not look at \<^verbatim>\<open>srcresult\<close> to decide to go on, and never
  stores to it, unless a seek arrives on its own thread.\<close>

lemma dispatch_srcresult:
  assumes "je_seek_back E = None"
  shows "srcresult (snd (dispatch_event p E el)) = srcresult el"
proof -
  have *: "srcresult (snd (send_eos E el)) = srcresult el" "srcresult (snd (send_segment E el)) = srcresult el" for el
    by (simp_all add: send_eos_def send_segment_def push_segment_def push_event_def Let_def)
  have caps: "srcresult (send_caps E el) = srcresult el" for el
    by (simp add: send_caps_def push_event_def split: option.split)
  have "srcresult (snd (push_block E n el)) = srcresult el" for n el
    using assms by (simp add: push_block_def seek_back_def caps * Let_def)
  then have "srcresult (snd (send_data E el)) = srcresult el"
    by (simp add: send_data_def * Let_def)
  then show ?thesis
    using * by (cases p) (simp_all add: send_stream_start_def push_event_def)
qed

text \<open>A flush requested by another thread while the loop runs is never lost: whatever the loop was doing, its task is paused
  when it ends and the result it leaves is not \<open>OK\<close>, so that no later run sends anything.\<close>

theorem flush_request_not_lost:
  assumes "je_other_thread E = Some GST_FLOW_FLUSHING" "je_seek_back E = None"
  shows "srcresult (java_source_loop E el) \<noteq> GST_FLOW_OK \<and> srcpad_task (java_source_loop E el) = TASK_PAUSED \<and>
    srcpad_out (java_source_loop F (java_source_loop E el)) = srcpad_out (java_source_loop E el)"
proof -
  have idle: "srcpad_out (java_source_loop F el) = srcpad_out el" if "srcresult el \<noteq> GST_FLOW_OK" for el
    using that by (auto simp: java_source_loop_def other_thread_def Let_def split: option.split)
  have ot: "other_thread E el = el\<lparr>srcresult := GST_FLOW_FLUSHING\<rparr>"
    using assms by (simp add: other_thread_def)
  obtain r el1 where d: "dispatch_event (pending_event el) E (el\<lparr>srcresult := GST_FLOW_FLUSHING\<rparr>) = (r, el1)"
    by (cases "dispatch_event (pending_event el) E (el\<lparr>srcresult := GST_FLOW_FLUSHING\<rparr>)")
  then have "srcresult el1 = GST_FLOW_FLUSHING"
    using dispatch_srcresult [OF assms(2), of "pending_event el" "el\<lparr>srcresult := GST_FLOW_FLUSHING\<rparr>"] by simp
  then have "srcresult (java_source_loop E el) \<noteq> GST_FLOW_OK \<and> srcpad_task (java_source_loop E el) = TASK_PAUSED"
    by (auto simp: java_source_loop_def d Let_def ot)
  with idle show ?thesis
    by blast
qed

theorem flush_request_not_lost_witness:
  "srcpad_task (java_source_loop (block_env (demo_env\<lparr>je_other_thread := Some GST_FLOW_FLUSHING\<rparr>) [1]) demo_source) = TASK_PAUSED"
  using flush_request_not_lost [of "block_env (demo_env\<lparr>je_other_thread := Some GST_FLOW_FLUSHING\<rparr>) [1]" demo_source demo_env]
  by (simp add: block_env_def demo_env_def)


subsection \<open>HTTP live streaming\<close>

text \<open>In this mode the Java side is asked to load the next segment of the play list: it answers its size, negative at a
  discontinuity and \<open>- 1\<close> at the end of the list, and its start time in milliseconds; then it delivers the blocks of the segment
  and \<^verbatim>\<open>EOS_CODE\<close>.\<close>

type_synonym hls_segment = "int \<times> int \<times> octet list list"

definition hls_env :: "js_env \<Rightarrow> int \<Rightarrow> int \<Rightarrow> js_env" where
  "hls_env E n t = E\<lparr>je_read_next_block := EOS_CODE, je_load_segment := n, je_start_time := t\<rparr>"

fun hls_envs :: "js_env \<Rightarrow> hls_segment list \<Rightarrow> js_env list" where
  "hls_envs E [] = [hls_env E (- 1) 0]"
| "hls_envs E ((n, t, bs) # segs) = hls_env E n t # map (block_env E) bs @ hls_envs E segs"

definition hls_segment_event :: "JavaSource \<Rightarrow> int \<Rightarrow> int \<Rightarrow> GstSegment" where
  "hls_segment_event el n t = (gst_segment_init GST_FORMAT_BYTES)
     \<lparr>sg_update := js_update el, sg_rate := js_rate el, sg_start := word_of_int ((t * GST_SECOND_ns) sdiv HLS_VALUE_FLOAT_MULTIPLIER),
      sg_stop := word_of_int \<bar>n\<bar>, sg_time := word_of_int (position_time el), sg_position := word_of_int (position_time el)\<rparr>"

fun hls_items :: "JavaSource \<Rightarrow> hls_segment list \<Rightarrow> pad_item list" where
  "hls_items el [] = [PadEvent Eos]"
| "hls_items el ((n, t, bs) # segs) =
     PadEvent (Segment (hls_segment_event el n t)) # caps_items el @ stamped (js_position el) (n < 0 \<or> js_discont el) bs @
     hls_items (el\<lparr>js_position := js_position el + int (length (concat bs)), js_discont := False, mimetype := None\<rparr>) segs"

lemma hls_items_cong:
  "js_update a = js_update b \<Longrightarrow> js_rate a = js_rate b \<Longrightarrow> position_time a = position_time b \<Longrightarrow> js_position a = js_position b \<Longrightarrow>
   js_discont a = js_discont b \<Longrightarrow> mimetype a = mimetype b \<Longrightarrow> hls_items a segs = hls_items b segs"
proof (induction segs arbitrary: a b)
  case (Cons seg segs)
  obtain n t bs where "seg = (n, t, bs)"
    by (rule prod_cases3)
  with Cons show ?case
    by (simp add: hls_segment_event_def caps_items_def)
qed simp

lemma undisturbed_hls_env [simp]: "undisturbed (hls_env E n t) = undisturbed E"
  by (simp add: undisturbed_def hls_env_def)

lemma loop_hls_segment:
  assumes "undisturbed E" "srcresult el = GST_FLOW_OK" "pending_event el = EVENT_SEGMENT \<or> pending_event el = EVENT_UNKNOWN"
    "in_mode MODE_HLS el" "\<not> in_mode MODE_DEFAULT el"
  shows "java_source_loop (hls_env E n t) el =
    (if n = - 1 then el\<lparr>pending_event := EVENT_EOS, srcresult := GST_FLOW_EOS, srcpad_task := TASK_PAUSED, srcpad_out := srcpad_out el @ [PadEvent Eos]\<rparr>
     else el\<lparr>pending_event := EVENT_UNKNOWN, js_discont := (n < 0 \<or> js_discont el),
             srcpad_out := srcpad_out el @ [PadEvent (Segment (hls_segment_event el n t))]\<rparr>)"
proof -
  have seg: "send_segment (hls_env E n t) el' =
    (if n = - 1 then (GST_FLOW_EOS, el'\<lparr>pending_event := EVENT_EOS, srcpad_out := srcpad_out el' @ [PadEvent Eos]\<rparr>)
     else (GST_FLOW_OK, el'\<lparr>pending_event := EVENT_UNKNOWN, js_discont := (n < 0 \<or> js_discont el'),
             srcpad_out := srcpad_out el' @ [PadEvent (Segment (hls_segment_event el' n t))]\<rparr>))"
    if "srcresult el' = GST_FLOW_OK" "in_mode MODE_HLS el'" for el'
    using that assms(1)
    by (auto simp: send_segment_def push_segment_def push_event_def send_eos_def hls_env_def hls_segment_event_def undisturbed_def Let_def)
  have other: "other_thread (hls_env E n t) el = el"
    using assms(1) by (simp add: other_thread_def hls_env_def undisturbed_def)
  have same: "el\<lparr>pending_event := EVENT_SEGMENT\<rparr> = el" if "pending_event el = EVENT_SEGMENT"
    using that by (cases el) simp
  have "dispatch_event (pending_event el) (hls_env E n t) el = send_segment (hls_env E n t) (el\<lparr>pending_event := EVENT_SEGMENT\<rparr>)"
    using assms(3-5) by (elim disjE) (simp_all add: send_data_def hls_env_def EOS_CODE_def Let_def same)
  then show ?thesis
    using assms by (simp add: java_source_loop_def other seg Let_def) (simp add: hls_segment_event_def)
qed


lemma hls_run:
  assumes "undisturbed E"
  shows "srcresult el = GST_FLOW_OK \<Longrightarrow> pending_event el = EVENT_SEGMENT \<or> pending_event el = EVENT_UNKNOWN \<Longrightarrow>
    in_mode MODE_HLS el \<Longrightarrow> \<not> in_mode MODE_DEFAULT el \<Longrightarrow>
    (\<forall>(n, t, bs) \<in> set segs. n \<noteq> - 1 \<and> bs \<noteq> [] \<and> [] \<notin> set bs) \<Longrightarrow>
    srcpad_out (js_run (hls_envs E segs) el) = srcpad_out el @ hls_items el segs \<and>
    srcpad_task (js_run (hls_envs E segs) el) = TASK_PAUSED"
proof (induction segs arbitrary: el)
  case Nil
  then show ?case
    using loop_hls_segment [OF assms] by simp
next
  case (Cons seg segs)
  obtain n t bs where seg: "seg = (n, t, bs)"
    by (rule prod_cases3)
  have wf: "n \<noteq> - 1" "bs \<noteq> []" "[] \<notin> set bs"
    using Cons.prems(5) by (simp_all add: seg)
  define el1 where "el1 = el\<lparr>pending_event := EVENT_UNKNOWN, js_discont := (n < 0 \<or> js_discont el),
             srcpad_out := srcpad_out el @ [PadEvent (Segment (hls_segment_event el n t))]\<rparr>"
  have s1: "java_source_loop (hls_env E n t) el = el1"
    using loop_hls_segment [OF assms Cons.prems(1-4), of n t] wf by (simp add: el1_def)
  define el2 where "el2 = el1\<lparr>js_position := js_position el1 + int (length (concat bs)), js_discont := False, mimetype := None,
               srcpad_out := srcpad_out el1 @ caps_items el1 @ stamped (js_position el1) (js_discont el1) bs\<rparr>"
  have s2: "js_run (map (block_env E) bs) el1 = el2"
    using loop_blocks [OF assms, of el1 bs] wf Cons.prems by (simp add: el1_def el2_def)
  have items: "hls_items el2 segs = hls_items (el\<lparr>js_position := js_position el + int (length (concat bs)), js_discont := False, mimetype := None\<rparr>) segs"
    by (rule hls_items_cong) (simp_all add: el2_def el1_def)
  have "srcpad_out (js_run (hls_envs E segs) el2) = srcpad_out el2 @ hls_items el2 segs \<and> srcpad_task (js_run (hls_envs E segs) el2) = TASK_PAUSED"
    using Cons.prems by (intro Cons.IH) (auto simp: el2_def el1_def)
  then show ?case
    unfolding seg items by (simp add: s1 js_run_append s2) (simp add: el2_def el1_def caps_items_def)
qed

lemma hls_stream_from_start:
  assumes "undisturbed E" "js_mode el = MODE_HLS" "\<forall>(n, t, bs) \<in> set segs. n \<noteq> - 1 \<and> bs \<noteq> [] \<and> [] \<notin> set bs"
  shows "let el' = js_run (E # hls_envs E segs) (start_streaming el)
    in srcpad_out el' = srcpad_out el @ PadEvent StreamStart #
         hls_items (el\<lparr>js_position := 0, position_time := 0, js_discont := False, js_update := False\<rparr>) segs \<and>
       srcpad_task el' = TASK_PAUSED"
proof -
  have m: "in_mode MODE_HLS el" "\<not> in_mode MODE_DEFAULT el"
    using assms(2) by (simp_all add: in_mode_def js_constants)
  define s where "s = el\<lparr>pending_event := EVENT_SEGMENT, js_position := 0, position_time := 0, js_discont := False, js_update := False,
      srcresult := GST_FLOW_OK, srcpad_task := TASK_STARTED, srcpad_out := srcpad_out el @ [PadEvent StreamStart]\<rparr>"
  have start: "java_source_loop E (start_streaming el) = s"
    using m loop_stream_start [OF assms(1), of "start_streaming el"]
    by (simp add: start_streaming_def java_source_change_state_def Let_def s_def)
  have "hls_items s segs = hls_items (el\<lparr>js_position := 0, position_time := 0, js_discont := False, js_update := False\<rparr>) segs"
    by (rule hls_items_cong) (simp_all add: s_def)
  then show ?thesis
    using hls_run [OF assms(1), of s segs] m assms(3) by (simp add: start Let_def) (simp add: s_def)
qed

text \<open>In the mode for HTTP live streaming, started on a play list of any number of segments, each with at least one block, the
  source sends down: the start of the stream, then for each segment in turn one segment event with its size and start time
  followed by its blocks, the first one marked where the play list has a discontinuity, and after the last segment end of
  stream.\<close>

theorem java_source_hls_streams:
  assumes "undisturbed E" "js_mode el = MODE_HLS" "\<forall>(n, t, bs) \<in> set segs. n \<noteq> - 1 \<and> bs \<noteq> [] \<and> [] \<notin> set bs"
  shows "let el' = js_run (E # hls_envs E segs) (start_streaming el)
    in srcpad_out el' = srcpad_out el @ PadEvent StreamStart #
         hls_items (el\<lparr>js_position := 0, position_time := 0, js_discont := False, js_update := False\<rparr>) segs \<and>
       srcpad_task el' = TASK_PAUSED"
  by (rule hls_stream_from_start [OF assms])

definition demo_playlist :: "hls_segment list" where
  "demo_playlist = [(2, 0, [[1], [2]]), (- 3, 1000, [[3, 4, 5]])]"

theorem java_source_hls_streams_witness:
  "srcpad_out (js_run (demo_env # hls_envs demo_env demo_playlist) (start_streaming (java_source_init\<lparr>js_mode := MODE_HLS\<rparr>))) =
     PadEvent StreamStart # hls_items (java_source_init\<lparr>js_mode := MODE_HLS\<rparr>) demo_playlist \<and>
   hls_items (java_source_init\<lparr>js_mode := MODE_HLS\<rparr>) demo_playlist =
     [PadEvent (Segment (hls_segment_event java_source_init 2 0)), PadBuffer (new_buffer [1] 0), PadBuffer (new_buffer [2] 1),
      PadEvent (Segment (hls_segment_event java_source_init (- 3) 1000)), PadBuffer ((new_buffer [3, 4, 5] 2)\<lparr>b_discont := True\<rparr>),
      PadEvent Eos]"
  using java_source_hls_streams [OF demo_env_undisturbed, of "java_source_init\<lparr>js_mode := MODE_HLS\<rparr>" demo_playlist]
  by (simp add: demo_playlist_def java_source_init_def new_buffer_def hls_segment_event_def caps_items_def Let_def)

text \<open>A block for which no buffer can be allocated is skipped in silence: the next one takes its offset.\<close>

theorem failed_allocation_skips_block:
  assumes "srcresult el = GST_FLOW_OK" "pending_event el = EVENT_UNKNOWN" "je_other_thread E = None" "\<not> je_alloc E"
  shows "java_source_loop (block_env E b) el = el \<or> b = []"
  using assms by (auto simp: java_source_loop_def other_thread_def block_env_def send_data_def push_block_def Let_def)

end
