(* ===== verification/File_Cache.thy ===== *)
theory File_Cache
  imports Stream_Types
begin

text \<open>
  \<^verbatim>\<open>gstreamer/plugins/progressbuffer/posix/filecache.c\<close>: the temporary file in which both progress buffers keep what they
  receive.  The model has the bytes of the file and the offsets the operating system keeps for the two handles, beside the
  positions of the structure.  \<^verbatim>\<open>gint64\<close> is \<open>int\<close>.  How much \<^verbatim>\<open>write\<close> and \<^verbatim>\<open>read\<close> transfer, and whether memory can be
  allocated, is up to the environment.
\<close>

subsection \<open>Files\<close>

text \<open>\<^verbatim>\<open>write(2)\<close> at an offset: bytes are replaced, the file grows as needed, a gap is filled with zeros.\<close>

definition overwrite :: "octet list \<Rightarrow> nat \<Rightarrow> octet list \<Rightarrow> octet list" where
  "overwrite xs off ys = take off (xs @ replicate (off - length xs) 0) @ ys @ drop (off + length ys) xs"

lemma length_overwrite: "length (overwrite xs off ys) = max (length xs) (off + length ys)"
  by (auto simp: overwrite_def)

lemma take_overwrite: "off \<le> length xs \<Longrightarrow> take (off + length ys) (overwrite xs off ys) = take off xs @ ys"
  by (simp add: overwrite_def)

text \<open>The environment: the results of allocations and mappings, and of \<^verbatim>\<open>write\<close> and \<^verbatim>\<open>read\<close> when \<open>n\<close> bytes could be
  transferred (negative for an error).\<close>

record cache_env =
  ce_malloc :: bool
  ce_map :: bool
  ce_wrap :: bool
  ce_write :: "nat \<Rightarrow> int"
  ce_read :: "nat \<Rightarrow> int"

definition transferred :: "(nat \<Rightarrow> int) \<Rightarrow> nat \<Rightarrow> int" where
  "transferred f n = max (- 1) (min (f n) (int n))"

subsection \<open>The cache\<close>

definition DEFAULT_BUFFER_SIZE :: int where "DEFAULT_BUFFER_SIZE = 4096"

record Cache =
  c_file :: "octet list"
  readHandle :: int
  writeHandle :: int
  read_position :: int
  write_position :: int

text \<open>What \<^verbatim>\<open>create_cache\<close> may leave behind when it fails.\<close>

datatype cache_resource = CacheMemory | FileName | WriteDescriptor | ReadDescriptor

record create_env =
  cr_malloc :: bool
  cr_filename :: bool
  cr_mkstemp :: bool
  cr_open :: bool
  cr_unlink :: bool

definition create_cache :: "create_env \<Rightarrow> Cache option \<times> cache_resource set" where
  "create_cache C =
     (if \<not> cr_malloc C then (None, {})
      else if \<not> cr_filename C then (None, {})
      else if \<not> cr_mkstemp C \<or> \<not> cr_open C then
        (None, {FileName} \<union> (if cr_mkstemp C then {WriteDescriptor} else {}) \<union> (if cr_open C then {ReadDescriptor} else {}))
      else if \<not> cr_unlink C then (None, {FileName})
      else (Some \<lparr>c_file = [], readHandle = 0, writeHandle = 0, read_position = 0, write_position = 0\<rparr>,
            {CacheMemory, FileName, WriteDescriptor, ReadDescriptor}))"

definition destroy_cache :: "cache_resource set \<Rightarrow> cache_resource set" where
  "destroy_cache held = held - {WriteDescriptor} - {ReadDescriptor} - {FileName} - {CacheMemory}"

definition cache_write_buffer :: "cache_env \<Rightarrow> octet list \<Rightarrow> Cache \<Rightarrow> Cache" where
  "cache_write_buffer E data cache =
     (if ce_map E then
        let written = transferred (ce_write E) (length data);
            sent = take (nat written) data;
            cache = cache\<lparr>c_file := (if written > 0 then overwrite (c_file cache) (nat (writeHandle cache)) sent else c_file cache),
                          writeHandle := writeHandle cache + int (length sent)\<rparr>
        in if written > 0 then cache\<lparr>write_position := write_position cache + written\<rparr> else cache
      else cache)"

text \<open>\<^verbatim>\<open>read(2)\<close>: the bytes, or \<open>None\<close> for an error; the offset of the handle moves on by what was read.\<close>

definition posix_read :: "cache_env \<Rightarrow> int \<Rightarrow> Cache \<Rightarrow> octet list option \<times> Cache" where
  "posix_read E request cache =
     (let available = take (nat request) (drop (nat (readHandle cache)) (c_file cache));
          got = transferred (ce_read E) (length available)
      in if got < 0 then (None, cache)
         else (Some (take (nat got) available), cache\<lparr>readHandle := readHandle cache + got\<rparr>))"

text \<open>The results are the buffer and the number the function returns.\<close>

definition cache_read_buffer :: "cache_env \<Rightarrow> Cache \<Rightarrow> (GstBuffer option \<times> int) \<times> Cache" where
  "cache_read_buffer E cache =
     (if \<not> ce_malloc E then ((None, 0), cache)
      else let size = (if write_position cache - read_position cache > 0 \<and>
                          write_position cache - read_position cache < DEFAULT_BUFFER_SIZE
                       then write_position cache - read_position cache else DEFAULT_BUFFER_SIZE)
           in case posix_read E size cache of
                (None, cache) \<Rightarrow> ((None, 0), cache)
              | (Some bytes, cache) \<Rightarrow>
                  if bytes = [] then ((None, 0), cache)
                  else let buffer = (if ce_wrap E then Some (new_buffer bytes (word_of_int (read_position cache))) else None);
                           cache = cache\<lparr>read_position := read_position cache + int (length bytes)\<rparr>
                       in ((buffer, read_position cache), cache))"

lemma posix_read_frame:
  "posix_read E n c = (r, c') \<Longrightarrow> read_position c' = read_position c \<and> write_position c' = write_position c \<and> c_file c' = c_file c"
  by (auto simp: posix_read_def Let_def split: if_splits)

lemma read_buffer_progress:
  assumes "cache_read_buffer E c = ((Some b, pos), c')"
  shows "read_position c < read_position c' \<and> write_position c' = write_position c"
proof -
  define n where "n = (if write_position c - read_position c > 0 \<and> write_position c - read_position c < DEFAULT_BUFFER_SIZE
    then write_position c - read_position c else DEFAULT_BUFFER_SIZE)"
  obtain r c1 where rd: "posix_read E n c = (r, c1)"
    by (cases "posix_read E n c")
  have "ce_malloc E"
    using assms by (auto simp: cache_read_buffer_def split: if_splits)
  then have "cache_read_buffer E c = (case r of None \<Rightarrow> ((None, 0), c1) | Some bytes \<Rightarrow>
      if bytes = [] then ((None, 0), c1)
      else ((if ce_wrap E then Some (new_buffer bytes (word_of_int (read_position c1))) else None, read_position c1 + int (length bytes)),
        c1\<lparr>read_position := read_position c1 + int (length bytes)\<rparr>))"
    using rd unfolding cache_read_buffer_def n_def by (simp add: Let_def split: option.split)
  with assms posix_read_frame [OF rd] show ?thesis
    by (auto split: option.splits if_splits)
qed

definition cache_set_handler_position :: "int \<Rightarrow> bool" where
  "cache_set_handler_position position \<longleftrightarrow> position \<ge> 0"

definition cache_set_write_position :: "int \<Rightarrow> Cache \<Rightarrow> bool \<times> Cache" where
  "cache_set_write_position position cache =
     (if position = write_position cache then (True, cache)
      else if cache_set_handler_position position then (True, cache\<lparr>writeHandle := position, write_position := position\<rparr>)
      else (False, cache))"

definition cache_set_read_position :: "int \<Rightarrow> Cache \<Rightarrow> bool \<times> Cache" where
  "cache_set_read_position position cache =
     (if position = read_position cache then (True, cache)
      else if cache_set_handler_position position then (True, cache\<lparr>readHandle := position, read_position := position\<rparr>)
      else (False, cache))"

definition cache_read_buffer_from_position :: "cache_env \<Rightarrow> int \<Rightarrow> int \<Rightarrow> Cache \<Rightarrow> (GstFlowReturn \<times> GstBuffer option) \<times> Cache" where
  "cache_read_buffer_from_position E start_position length\<^sub>0 cache =
     (case cache_set_read_position start_position cache of (positioned, cache) \<Rightarrow>
        if \<not> positioned \<or> \<not> ce_malloc E \<or> length\<^sub>0 = 0 then ((GST_FLOW_ERROR, None), cache)
        else case posix_read E length\<^sub>0 cache of
               (None, cache) \<Rightarrow> ((GST_FLOW_ERROR, None), cache\<lparr>read_position := read_position cache + (- 1)\<rparr>)
             | (Some bytes, cache) \<Rightarrow>
                 (if int (length bytes) = length\<^sub>0 \<and> ce_wrap E
                  then (GST_FLOW_OK, Some (new_buffer bytes (word_of_int (read_position cache)))) else (GST_FLOW_ERROR, None),
                  cache\<lparr>read_position := read_position cache + int (length bytes)\<rparr>))"

definition cache_has_enough_data :: "Cache \<Rightarrow> bool" where
  "cache_has_enough_data cache \<longleftrightarrow> read_position cache < write_position cache"

lemmas cache_defs = cache_write_buffer_def posix_read_def cache_read_buffer_def cache_set_handler_position_def
  cache_set_write_position_def cache_set_read_position_def cache_read_buffer_from_position_def cache_has_enough_data_def

subsection \<open>The invariant\<close>

text \<open>The positions are those of the handles, and the file holds everything up to the write position.\<close>

definition cache_ok :: "Cache \<Rightarrow> bool" where
  "cache_ok c \<longleftrightarrow> readHandle c = read_position c \<and> writeHandle c = write_position c \<and> 0 \<le> read_position c \<and>
     0 \<le> write_position c \<and> write_position c \<le> int (length (c_file c))"

definition stored :: "Cache \<Rightarrow> octet list" where
  "stored c = take (nat (write_position c)) (c_file c)"

definition pending :: "Cache \<Rightarrow> octet list" where
  "pending c = drop (nat (read_position c)) (stored c)"

lemma transferred_le: "transferred f n \<le> int n" "- 1 \<le> transferred f n"
  by (simp_all add: transferred_def)

lemma length_stored: "cache_ok c \<Longrightarrow> length (stored c) = nat (write_position c)"
  by (auto simp: cache_ok_def stored_def)

lemma has_data_pending: "cache_ok c \<Longrightarrow> cache_has_enough_data c \<longleftrightarrow> pending c \<noteq> []"
  by (auto simp: pending_def length_stored cache_has_enough_data_def cache_ok_def)

lemma create_cache_ok: "create_cache C = (Some c, held) \<Longrightarrow> cache_ok c \<and> stored c = [] \<and> pending c = [] \<and> destroy_cache held = {}"
  by (auto simp: create_cache_def cache_ok_def stored_def pending_def destroy_cache_def split: if_splits)

lemma write_ok:
  assumes "cache_ok c"
  shows "cache_ok (cache_write_buffer E data c)"
    "stored (cache_write_buffer E data c) =
       stored c @ (if ce_map E then take (nat (transferred (ce_write E) (length data))) data else [])"
    "read_position (cache_write_buffer E data c) = read_position c"
proof -
  define w where "w = transferred (ce_write E) (length data)"
  have w: "w \<le> int (length data)"
    by (simp add: w_def transferred_le)
  have le: "nat (write_position c) \<le> length (c_file c)"
    using assms by (auto simp: cache_ok_def)
  have "take (nat (write_position c + w)) (overwrite (c_file c) (nat (write_position c)) (take (nat w) data)) =
      take (nat (write_position c)) (c_file c) @ take (nat w) data" if "w > 0"
    using take_overwrite [OF le, of "take (nat w) data"] that w assms
    by (simp add: nat_add_distrib cache_ok_def min_absorb2)
  then show "stored (cache_write_buffer E data c) = stored c @ (if ce_map E then take (nat w) data else [])"
    using assms by (auto simp: cache_write_buffer_def w_def stored_def cache_ok_def Let_def)
  show "cache_ok (cache_write_buffer E data c)"
    using assms w by (auto simp: cache_write_buffer_def w_def [symmetric] cache_ok_def Let_def length_overwrite)
  show "read_position (cache_write_buffer E data c) = read_position c"
    by (simp add: cache_write_buffer_def Let_def)
qed

lemma write_pending:
  assumes "cache_ok c" "read_position c \<le> write_position c"
  shows "pending (cache_write_buffer E data c) =
    pending c @ (if ce_map E then take (nat (transferred (ce_write E) (length data))) data else [])"
  using assms length_stored [OF assms(1)] by (simp add: pending_def write_ok)

text \<open>A read takes from the front of what is pending, and never more than the block size.\<close>

lemma read_ok:
  assumes "cache_ok c" "cache_has_enough_data c" "cache_read_buffer E c = ((buffer, pos), c')"
  shows "cache_ok c' \<and> stored c' = stored c \<and>
    (\<exists>k. read_position c' = read_position c + int k \<and> k \<le> 4096 \<and> k \<le> length (pending c) \<and> pending c' = drop k (pending c) \<and>
      pos = (if k = 0 then 0 else read_position c') \<and>
      (\<forall>b. buffer = Some b \<longrightarrow> 0 < k \<and> b = new_buffer (take k (pending c)) (word_of_int (read_position c))) \<and>
      (ce_malloc E \<and> ce_wrap E \<and> k > 0 \<longrightarrow> buffer \<noteq> None) \<and>
      (ce_malloc E \<and> (\<forall>n > 0. 0 < ce_read E n) \<longrightarrow> 0 < k))"
proof -
  define sz where "sz = (if write_position c - read_position c < DEFAULT_BUFFER_SIZE then write_position c - read_position c
    else DEFAULT_BUFFER_SIZE)"
  define av where "av = take (nat sz) (drop (nat (readHandle c)) (c_file c))"
  define got where "got = transferred (ce_read E) (length av)"
  have sz: "0 < sz" "sz \<le> write_position c - read_position c" "sz \<le> 4096"
    using assms(2) by (auto simp: sz_def DEFAULT_BUFFER_SIZE_def cache_has_enough_data_def)
  have av: "av = take (nat sz) (pending c)"
    using sz assms(1) by (auto simp: av_def pending_def stored_def cache_ok_def drop_take min_absorb1 nat_diff_distrib)
  have len: "length av = nat sz"
    using sz assms(1) length_stored [OF assms(1)] by (auto simp: av pending_def cache_ok_def)
  have got: "got \<le> int (length av)"
    by (simp add: got_def transferred_le)
  define k where "k = (if ce_malloc E then nat got else 0)"
  have k: "k \<le> length av" "k \<le> 4096" "k \<le> length (pending c)"
    using got len sz by (auto simp: k_def av)
  have data: "take k av = take k (pending c)"
    using k(1) by (simp add: av min_absorb1)
  have progress: "0 < k" if "ce_malloc E" "\<forall>n > 0. 0 < ce_read E n"
    using that len sz by (auto simp: k_def got_def transferred_def less_max_iff_disj)
  have size_eq: "(if write_position c - read_position c > 0 \<and> write_position c - read_position c < DEFAULT_BUFFER_SIZE
      then write_position c - read_position c else DEFAULT_BUFFER_SIZE) = sz"
    using assms(2) by (auto simp: sz_def cache_has_enough_data_def)
  have rd: "posix_read E sz c = (if got < 0 then (None, c) else (Some (take (nat got) av), c\<lparr>readHandle := readHandle c + got\<rparr>))"
    by (simp add: posix_read_def av_def got_def Let_def)
  have same: "c\<lparr>readHandle := readHandle c\<rparr> = c"
    by simp
  have res: "cache_read_buffer E c = (if k = 0 then ((None, 0), c)
    else ((if ce_wrap E then Some (new_buffer (take k (pending c)) (word_of_int (read_position c))) else None, read_position c + int k),
      c\<lparr>readHandle := readHandle c + int k, read_position := read_position c + int k\<rparr>))"
  proof (cases "ce_malloc E \<and> 0 < got")
    case True
    then have "take (nat got) av \<noteq> []" "int k = got" "nat got = k"
      using k(1) by (auto simp: k_def)
    with True data k show ?thesis
      unfolding cache_read_buffer_def Let_def size_eq rd by simp
  next
    case False
    then have "k = 0"
      by (auto simp: k_def)
    with False show ?thesis
      unfolding cache_read_buffer_def Let_def size_eq rd by (cases "got < 0") auto
  qed
  then have c': "c' = c\<lparr>readHandle := readHandle c + int k, read_position := read_position c + int k\<rparr>"
    using assms(3) by (auto split: if_splits)
  have "stored c' = stored c" "read_position c' = read_position c + int k" "cache_ok c'"
    using assms(1) by (simp_all add: c' stored_def cache_ok_def)
  moreover have "pending c' = drop k (pending c)"
    using assms(1) by (simp add: c' stored_def pending_def cache_ok_def nat_add_distrib add.commute)
  moreover have "buffer = (if k = 0 \<or> \<not> ce_wrap E then None else Some (new_buffer (take k (pending c)) (word_of_int (read_position c))))"
      "pos = (if k = 0 then 0 else read_position c')"
    using res assms(3) by (auto simp: c' split: if_splits)
  ultimately show ?thesis
    using k progress by (intro conjI exI [of _ k]) auto
qed

lemma set_position_ok:
  assumes "cache_ok c" "0 \<le> pos"
  shows "cache_ok (snd (cache_set_read_position pos c))" "read_position (snd (cache_set_read_position pos c)) = pos"
    "stored (snd (cache_set_read_position pos c)) = stored c" "fst (cache_set_read_position pos c)"
  using assms by (auto simp: cache_defs cache_ok_def stored_def)

text \<open>Both positions are set to the start: the old contents are forgotten.\<close>

definition cache_reset :: "Cache \<Rightarrow> Cache" where
  "cache_reset c = snd (cache_set_read_position 0 (snd (cache_set_write_position 0 c)))"

lemma cache_reset_ok: "cache_ok c \<Longrightarrow> cache_ok (cache_reset c) \<and> stored (cache_reset c) = [] \<and> pending (cache_reset c) = [] \<and>
    read_position (cache_reset c) = 0 \<and> write_position (cache_reset c) = 0"
  by (auto simp: cache_reset_def cache_defs cache_ok_def stored_def pending_def)

subsection \<open>A queue of bytes\<close>

text \<open>What the progress buffers rely on: bytes come out in the order they went in, and something comes out whenever
  something is left.\<close>

locale byte_queue =
  fixes ok :: "'c \<Rightarrow> bool" and left :: "'c \<Rightarrow> octet list"
    and put :: "octet list \<Rightarrow> 'c \<Rightarrow> 'c" and get :: "'c \<Rightarrow> octet list \<times> 'c"
  assumes put_ok: "ok c \<Longrightarrow> ok (put d c)" and put_left: "ok c \<Longrightarrow> left (put d c) = left c @ d"
    and get_ok: "ok c \<Longrightarrow> left c \<noteq> [] \<Longrightarrow> get c = (xs, c') \<Longrightarrow> ok c' \<and> xs \<noteq> [] \<and> left c = xs @ left c'"

datatype queue_op = Put "octet list" | Get

text \<open>A run: what was put in, and what came out; a \<open>Get\<close> with nothing left waits.\<close>

fun queue_run ::
  "('c \<Rightarrow> octet list) \<Rightarrow> (octet list \<Rightarrow> 'c \<Rightarrow> 'c) \<Rightarrow> ('c \<Rightarrow> octet list \<times> 'c) \<Rightarrow> queue_op list \<Rightarrow> 'c \<Rightarrow>
     octet list \<times> octet list \<times> 'c" where
  "queue_run left put get [] c = ([], [], c)"
| "queue_run left put get (Put d # ops) c =
     (case queue_run left put get ops (put d c) of (ins, outs, c') \<Rightarrow> (d @ ins, outs, c'))"
| "queue_run left put get (Get # ops) c =
     (if left c = [] then queue_run left put get ops c
      else case get c of (xs, c1) \<Rightarrow> case queue_run left put get ops c1 of (ins, outs, c') \<Rightarrow> (ins, xs @ outs, c'))"

context byte_queue
begin

lemma run_fifo:
  "ok c \<Longrightarrow> queue_run left put get ops c = (ins, outs, c') \<Longrightarrow> ok c' \<and> left c @ ins = outs @ left c'"
proof (induction ops arbitrary: c ins outs c')
  case (Cons a ops)
  show ?case
  proof (cases a)
    case (Put d)
    with Cons.prems obtain ins' where "queue_run left put get ops (put d c) = (ins', outs, c')" "ins = d @ ins'"
      by (auto split: prod.splits)
    with Cons.IH [of "put d c" ins' outs c'] Cons.prems(1) put_ok put_left show ?thesis
      by simp
  next
    case Get
    show ?thesis
    proof (cases "left c = []")
      case True
      with Get Cons.prems Cons.IH [of c ins outs c'] show ?thesis
        by simp
    next
      case False
      with Get Cons.prems obtain xs c1 outs' where *: "get c = (xs, c1)" "queue_run left put get ops c1 = (ins, outs', c')"
          "outs = xs @ outs'"
        by (auto split: prod.splits)
      with get_ok [OF Cons.prems(1) False *(1)] Cons.IH [OF _ *(2)] show ?thesis
        by simp
    qed
  qed
qed simp

end

text \<open>A machine on which nothing fails; reads may still be short.\<close>

definition works :: "cache_env \<Rightarrow> bool" where
  "works E \<longleftrightarrow> ce_malloc E \<and> ce_map E \<and> ce_wrap E \<and> (\<forall>n. ce_write E n = int n) \<and> (\<forall>n > 0. 0 < ce_read E n)"

definition cache_get :: "cache_env \<Rightarrow> Cache \<Rightarrow> octet list \<times> Cache" where
  "cache_get E c = (case cache_read_buffer E c of ((buffer, _), c') \<Rightarrow> (case buffer of None \<Rightarrow> [] | Some b \<Rightarrow> b_data b, c'))"

definition queue_ok :: "Cache \<Rightarrow> bool" where
  "queue_ok c \<longleftrightarrow> cache_ok c \<and> read_position c \<le> write_position c"

lemma works_write: "works E \<Longrightarrow> take (nat (transferred (ce_write E) (length data))) data = data"
  by (simp add: works_def transferred_def)

lemma queue_put:
  assumes "works E" "queue_ok c"
  shows "queue_ok (cache_write_buffer E data c)" "pending (cache_write_buffer E data c) = pending c @ data"
proof -
  have "read_position c \<le> write_position (cache_write_buffer E data c)"
    using assms by (auto simp: queue_ok_def cache_write_buffer_def Let_def)
  then show "queue_ok (cache_write_buffer E data c)"
    using assms by (simp add: queue_ok_def write_ok)
  show "pending (cache_write_buffer E data c) = pending c @ data"
    using assms works_write [OF assms(1)] by (simp add: queue_ok_def write_pending) (simp add: works_def)
qed

lemma queue_get:
  assumes "works E" "queue_ok c" "pending c \<noteq> []" "cache_get E c = (xs, c')"
  shows "queue_ok c'" "xs \<noteq> []" "pending c = xs @ pending c'" "length xs \<le> 4096" "read_position c' = read_position c + int (length xs)"
    "cache_read_buffer E c = ((Some (new_buffer xs (word_of_int (read_position c))), read_position c'), c')" "stored c' = stored c"
proof -
  have ok: "cache_ok c" "cache_has_enough_data c"
    using assms(2,3) by (auto simp: queue_ok_def has_data_pending)
  obtain buffer pos where rd: "cache_read_buffer E c = ((buffer, pos), c')" "xs = (case buffer of None \<Rightarrow> [] | Some b \<Rightarrow> b_data b)"
    using assms(4) by (auto simp: cache_get_def split: prod.splits)
  have E: "ce_malloc E" "ce_wrap E" "\<forall>n > 0. 0 < ce_read E n"
    using assms(1) by (simp_all add: works_def)
  note r = read_ok [OF ok rd(1)]
  from r obtain k where r': "read_position c' = read_position c + int k" "k \<le> 4096" "k \<le> length (pending c)"
      "pending c' = drop k (pending c)" "pos = (if k = 0 then 0 else read_position c')"
      "\<forall>b. buffer = Some b \<longrightarrow> 0 < k \<and> b = new_buffer (take k (pending c)) (word_of_int (read_position c))"
      "ce_malloc E \<and> ce_wrap E \<and> k > 0 \<longrightarrow> buffer \<noteq> None" "ce_malloc E \<and> (\<forall>n > 0. 0 < ce_read E n) \<longrightarrow> 0 < k"
    by blast
  then have "0 < k"
    using E by blast
  with r' E obtain b where "buffer = Some b"
    by blast
  with r r' \<open>0 < k\<close> have k: "read_position c' = read_position c + int k" "k \<le> length (pending c)"
      "pending c' = drop k (pending c)" "buffer = Some b" "0 < k" "k \<le> 4096" "b = new_buffer (take k (pending c)) (word_of_int (read_position c))"
      "pos = read_position c'" "cache_ok c'" "stored c' = stored c"
    by simp_all
  then have "length xs = k" "xs = take k (pending c)"
    using rd(2) by auto
  with k show "xs \<noteq> []" "pending c = xs @ pending c'" "length xs \<le> 4096" "read_position c' = read_position c + int (length xs)"
      "stored c' = stored c"
    by auto
  show "cache_read_buffer E c = ((Some (new_buffer xs (word_of_int (read_position c))), read_position c'), c')"
    using rd k by simp
  have "nat (read_position c) + k \<le> nat (write_position c)" "write_position c' = write_position c"
    using k(2,5) ok(1) length_stored [OF ok(1)] length_stored [OF k(9)] k(10)
    using k(9) by (auto simp: pending_def cache_ok_def)
  with k ok(1) show "queue_ok c'"
    by (auto simp: queue_ok_def cache_ok_def)
qed

interpretation cq: byte_queue "\<lambda>c. works E \<and> queue_ok c" pending "cache_write_buffer E" "cache_get E"
proof
  fix c xs c'
  assume "works E \<and> queue_ok c" "pending c \<noteq> []" "cache_get E c = (xs, c')"
  then show "(works E \<and> queue_ok c') \<and> xs \<noteq> [] \<and> pending c = xs @ pending c'"
    using queue_get [of E c xs c'] by blast
qed (simp_all add: queue_put)

text \<open>C18: On a machine on which writes complete, the file cache is a queue of bytes: after any sequence of writes and reads,
  whatever the sizes of the blocks and however short the reads, the bytes that were read followed by those still pending are
  exactly the bytes that were pending followed by those written, in order.\<close>

theorem cache_fifo:
  assumes "works E" "queue_ok c" "queue_run pending (cache_write_buffer E) (cache_get E) ops c = (ins, outs, c')"
  shows "queue_ok c' \<and> pending c @ ins = outs @ pending c'"
  using cq.run_fifo [OF _ assms(3)] assms(1,2) by simp

definition empty_cache :: Cache where
  "empty_cache = \<lparr>c_file = [], readHandle = 0, writeHandle = 0, read_position = 0, write_position = 0\<rparr>"

definition demo_disk :: cache_env where
  "demo_disk = \<lparr>ce_malloc = True, ce_map = True, ce_wrap = True, ce_write = int, ce_read = (\<lambda>n. min 2 (int n))\<rparr>"

lemma demo_disk_works: "works demo_disk" "queue_ok empty_cache" "pending empty_cache = []"
  by (simp_all add: works_def demo_disk_def queue_ok_def cache_ok_def empty_cache_def pending_def stored_def)

theorem cache_fifo_witness:
  "case queue_run pending (cache_write_buffer demo_disk) (cache_get demo_disk) [Put [1, 2, 3], Get, Put [4], Get] empty_cache of
     (ins, outs, c') \<Rightarrow> ins = [1, 2, 3, 4] \<and> outs = [1, 2, 3, 4] \<and> pending c' = []"
proof -
  obtain ins outs c' where run: "queue_run pending (cache_write_buffer demo_disk) (cache_get demo_disk) [Put [1, 2, 3], Get, Put [4], Get]
      empty_cache = (ins, outs, c')"
    by (rule prod_cases3)
  have "case queue_run pending (cache_write_buffer demo_disk) (cache_get demo_disk) [Put [1, 2, 3], Get, Put [4], Get] empty_cache of
     (ins, outs, c') \<Rightarrow> ins = [1, 2, 3, 4] \<and> outs = [1, 2, 3, 4]"
    by code_simp
  then have "ins = [1, 2, 3, 4] \<and> outs = [1, 2, 3, 4]"
    unfolding run prod.case .
  with cache_fifo [OF demo_disk_works(1,2) run] demo_disk_works(3) show ?thesis
    unfolding run prod.case by auto
qed

text \<open>A short write, as on a full disk, is not repeated: the rest of the buffer is lost and nobody is told.\<close>

theorem short_write_loses_data:
  assumes "cache_ok c" "ce_map E" "ce_write E (length data) = int n" "n < length data"
  shows "stored (cache_write_buffer E data c) = stored c @ take n data"
  using assms by (simp add: write_ok transferred_def)

text \<open>After a failing \<^verbatim>\<open>read\<close> at a position the return value \<open>- 1\<close> is added to the position, which then disagrees with the
  handle: a later read of the position before it starts one byte too far.\<close>

theorem failed_read_desynchronises:
  assumes "cache_ok c" "ce_malloc E" "0 \<le> pos" "0 < n" "\<And>n. ce_read E n = - 1"
  shows "read_position (snd (cache_read_buffer_from_position E pos n c)) = pos - 1"
    and "readHandle (snd (cache_read_buffer_from_position E pos n c)) = pos"
  using assms set_position_ok [OF assms(1,3)]
  by (auto simp: cache_read_buffer_from_position_def posix_read_def Let_def transferred_def cache_ok_def split: prod.split)

text \<open>When the second handle cannot be opened, the first one and the name of the file are not released.\<close>

theorem create_cache_leaks:
  "create_cache \<lparr>cr_malloc = True, cr_filename = True, cr_mkstemp = True, cr_open = False, cr_unlink = u\<rparr> =
     (None, {FileName, WriteDescriptor})"
  by (simp add: create_cache_def insert_commute)

end
