(* ===== verification/Progress_Buffer.thy ===== *)
theory Progress_Buffer
  imports Java_Source File_Cache
begin

text \<open>
  \<^verbatim>\<open>gstreamer/plugins/progressbuffer/progressbuffer.c\<close>: the element that stores what the source sends in a file and lets the
  demuxer read it at its own pace, in push mode from a task of its own or in pull mode.  Each operation of the model is what the
  code does under the lock of the element; where the lock is released for a push, the environment says what other threads do to
  the element meanwhile.  A call through the null pointer that \<^verbatim>\<open>cache\<close> may be is \<open>Faults\<close>.
\<close>

subsection \<open>The element\<close>

definition NO_RANGE_REQUEST :: int where "NO_RANGE_REQUEST = - 1"

definition EOS_SIGNAL_LIMIT :: int where "EOS_SIGNAL_LIMIT = 1"

datatype pb_message =
    BufferingMessage u64 u64 u64 bool | UnderrunMessage | FormatError | UnlimitedError | CacheError | SeekWarning | NoMorePads

record ProgressBuffer =
  pb_cache :: "Cache option"
  pending_src_event :: "GstEvent option"
  cache_read_offset :: int
  sink_segment :: GstSegment
  last_update :: real
  threshold :: real
  subtotal :: u64
  bandwidth :: real
  prebuffer_time :: real
  wait_tolerance :: real
  unexpected :: bool
  pb_srcresult :: GstFlowReturn
  pb_eos :: bool
  signal_limit :: int
  instant_seek :: bool
  is_source_seeking :: bool
  range_start :: int
  range_stop :: int
  monitor_thread :: bool
  pb_srcpad :: bool
  pb_task :: pad_task
  pb_out :: "pad_item list"
  pb_up :: "GstEvent list"
  pb_bus :: "pb_message list"
  pb_leaked :: "GstEvent list"

text \<open>The environment: the disk and the timer; whether the source pad is linked; what the element downstream answers to a buffer
  and what other threads do to this element before it answers; and what the source does, to this element too, when it is sent
  an event.\<close>

record pb_env =
  pe_cache :: cache_env
  pe_create :: create_env
  pe_elapsed :: real
  pe_linked :: bool
  pe_push :: "GstBuffer \<Rightarrow> GstFlowReturn"
  pe_push_up :: "GstEvent \<Rightarrow> ProgressBuffer \<Rightarrow> bool \<times> ProgressBuffer"
  pe_meanwhile :: "ProgressBuffer \<Rightarrow> ProgressBuffer"

definition post :: "pb_message \<Rightarrow> ProgressBuffer \<Rightarrow> ProgressBuffer" where
  "post m pb = pb\<lparr>pb_bus := pb_bus pb @ [m]\<rparr>"

definition pb_send :: "pad_item \<Rightarrow> ProgressBuffer \<Rightarrow> ProgressBuffer" where
  "pb_send item pb = pb\<lparr>pb_out := pb_out pb @ [item]\<rparr>"

definition progress_buffer_set_pending_event :: "GstEvent option \<Rightarrow> ProgressBuffer \<Rightarrow> ProgressBuffer" where
  "progress_buffer_set_pending_event new_event pb = pb\<lparr>pending_src_event := new_event\<rparr>"

definition reset_eos :: "bool \<Rightarrow> ProgressBuffer \<Rightarrow> ProgressBuffer" where
  "reset_eos clear_pending_event pb =
     (let pb = pb\<lparr>pb_eos := False, signal_limit := EOS_SIGNAL_LIMIT\<rparr>
      in if clear_pending_event then progress_buffer_set_pending_event None pb else pb)"

definition pending_eos :: "ProgressBuffer \<Rightarrow> bool \<times> ProgressBuffer" where
  "pending_eos pb =
     (if pb_eos pb \<and> signal_limit pb > 0 then (True, pb\<lparr>signal_limit := signal_limit pb - 1\<rparr>) else (False, pb))"

text \<open>The pending event is forgotten here, not released.\<close>

definition progress_buffer_flush_data :: "ProgressBuffer \<Rightarrow> ProgressBuffer" where
  "progress_buffer_flush_data pb =
     pb\<lparr>last_update := 0, bandwidth := 0, subtotal := 0,
        pb_leaked := pb_leaked pb @ (case pending_src_event pb of None \<Rightarrow> [] | Some ev \<Rightarrow> [ev]),
        pending_src_event := None, sink_segment := gst_segment_init GST_FORMAT_BYTES,
        range_start := NO_RANGE_REQUEST, range_stop := NO_RANGE_REQUEST\<rparr>"

text \<open>The structure is cleared, then the constructor runs, then the properties take their default values.\<close>

definition progress_buffer_init :: ProgressBuffer where
  "progress_buffer_init =
     progress_buffer_flush_data
       \<lparr>pb_cache = None, pending_src_event = None, cache_read_offset = 0, sink_segment = gst_segment_init GST_FORMAT_BYTES,
        last_update = 0, threshold = 0, subtotal = 0, bandwidth = 0, prebuffer_time = 0, wait_tolerance = 0, unexpected = False,
        pb_srcresult = GST_FLOW_OK, pb_eos = False, signal_limit = 0, instant_seek = False, is_source_seeking = False,
        range_start = 0, range_stop = 0, monitor_thread = False, pb_srcpad = False, pb_task = TASK_STOPPED, pb_out = [],
        pb_up = [], pb_bus = [], pb_leaked = []\<rparr>"

datatype pb_property = PROP_THRESHOLD | PROP_BANDWIDTH | PROP_PREBUFFER_TIME | PROP_WAIT_TOLERANCE | PROP_UNKNOWN

fun progress_buffer_set_property :: "pb_property \<Rightarrow> real \<Rightarrow> ProgressBuffer \<Rightarrow> ProgressBuffer" where
  "progress_buffer_set_property PROP_THRESHOLD v pb = pb\<lparr>threshold := v\<rparr>"
| "progress_buffer_set_property PROP_PREBUFFER_TIME v pb = pb\<lparr>prebuffer_time := v\<rparr>"
| "progress_buffer_set_property PROP_WAIT_TOLERANCE v pb = pb\<lparr>wait_tolerance := v\<rparr>"
| "progress_buffer_set_property _ v pb = pb"

fun progress_buffer_get_property :: "pb_property \<Rightarrow> ProgressBuffer \<Rightarrow> real option" where
  "progress_buffer_get_property PROP_THRESHOLD pb = Some (threshold pb)"
| "progress_buffer_get_property PROP_BANDWIDTH pb = Some (bandwidth pb)"
| "progress_buffer_get_property PROP_PREBUFFER_TIME pb = Some (prebuffer_time pb)"
| "progress_buffer_get_property PROP_WAIT_TOLERANCE pb = Some (wait_tolerance pb)"
| "progress_buffer_get_property PROP_UNKNOWN pb = None"

definition progress_buffer_new :: ProgressBuffer where
  "progress_buffer_new = progress_buffer_set_property PROP_WAIT_TOLERANCE 2
     (progress_buffer_set_property PROP_PREBUFFER_TIME 2 (progress_buffer_set_property PROP_THRESHOLD 1 progress_buffer_init))"

subsection \<open>Activation of the source pad\<close>

definition activated :: "ProgressBuffer \<Rightarrow> ProgressBuffer" where
  "activated pb = (reset_eos False (pb\<lparr>pb_srcresult := GST_FLOW_OK\<rparr>))\<lparr>unexpected := False\<rparr>"

text \<open>A new thread can be had.\<close>

definition progress_buffer_activatepull_src :: "bool \<Rightarrow> ProgressBuffer \<Rightarrow> bool \<times> ProgressBuffer" where
  "progress_buffer_activatepull_src active pb =
     (if active then (True, (activated pb)\<lparr>monitor_thread := True\<rparr>)
      else if monitor_thread pb then (True, pb\<lparr>pb_srcresult := GST_FLOW_FLUSHING, monitor_thread := False\<rparr>)
      else (True, pb))"

definition progress_buffer_activatepush_src :: "bool \<Rightarrow> bool \<Rightarrow> ProgressBuffer \<Rightarrow> bool \<times> ProgressBuffer" where
  "progress_buffer_activatepush_src linked active pb =
     (if active then
        let pb = activated pb
        in if linked then (True, pb\<lparr>pb_task := TASK_STARTED\<rparr>) else (False, pb)
      else (True, pb\<lparr>pb_srcresult := GST_FLOW_FLUSHING, pb_task := TASK_STOPPED\<rparr>))"

fun progress_buffer_activatemode :: "bool \<Rightarrow> pad_mode \<Rightarrow> bool \<Rightarrow> ProgressBuffer \<Rightarrow> bool \<times> ProgressBuffer" where
  "progress_buffer_activatemode linked GST_PAD_MODE_PUSH active pb = progress_buffer_activatepush_src linked active pb"
| "progress_buffer_activatemode linked GST_PAD_MODE_PULL active pb = progress_buffer_activatepull_src active pb"
| "progress_buffer_activatemode linked GST_PAD_MODE_NONE active pb = (False, pb)"

text \<open>A source pad that is activated without a peer that asks for pull mode is activated in push mode.\<close>

definition progress_buffer_create_sourcepad :: "pb_env \<Rightarrow> ProgressBuffer \<Rightarrow> ProgressBuffer" where
  "progress_buffer_create_sourcepad E pb =
     post NoMorePads (snd (progress_buffer_activatemode (pe_linked E) GST_PAD_MODE_PUSH True (pb\<lparr>pb_srcpad := True\<rparr>)))"

subsection \<open>Receiving\<close>

definition send_position_message :: "bool \<Rightarrow> ProgressBuffer \<Rightarrow> bool \<times> ProgressBuffer" where
  "send_position_message mandatory pb =
     (let seg = sink_segment pb;
          percent = real (unat (sg_position seg)) / real (unat (sg_stop seg)) * 100;
          mandatory = (mandatory \<or> percent - last_update pb > threshold pb)
      in if mandatory
         then (True, (post (BufferingMessage (sg_start seg) (sg_position seg) (sg_stop seg) (pb_eos pb)) pb)\<lparr>last_update := percent\<rparr>)
         else (False, pb))"

definition enqueue_buffer :: "pb_env \<Rightarrow> GstBuffer \<Rightarrow> ProgressBuffer \<Rightarrow> (GstFlowReturn \<times> ProgressBuffer) outcome" where
  "enqueue_buffer E b pb =
     (let n = of_nat (length (b_data b));
          pb = pb\<lparr>sink_segment := (sink_segment pb)\<lparr>sg_position := b_offset b + n\<rparr>\<rparr>
      in if sg_stop (sink_segment pb) < sg_position (sink_segment pb) then Returns (GST_FLOW_ERROR, pb)
         else case pb_cache pb of
                None \<Rightarrow> Faults
              | Some cache \<Rightarrow>
                  (let pb = pb\<lparr>pb_cache := Some (cache_write_buffer (pe_cache E) (b_data b) cache), subtotal := subtotal pb + n\<rparr>;
                       pb = (if pe_elapsed E > 1
                             then pb\<lparr>bandwidth := real (unat (subtotal pb)) / pe_elapsed E, subtotal := 0\<rparr> else pb);
                       pb = snd (send_position_message False pb)
                   in Returns (GST_FLOW_OK, pb)))"

definition enqueue_eos :: "ProgressBuffer \<Rightarrow> ProgressBuffer" where
  "enqueue_eos pb =
     (let pb = pb\<lparr>pb_eos := True\<rparr>;
          seg = sink_segment pb;
          pb = (if sg_position seg < sg_stop seg then pb\<lparr>sink_segment := seg\<lparr>sg_stop := sg_position seg\<rparr>\<rparr> else pb);
          pb = (if pending_src_event pb \<noteq> Some Eos then progress_buffer_set_pending_event None pb else pb)
      in snd (send_position_message True pb))"

definition enqueue_segment :: "pb_env \<Rightarrow> GstSegment \<Rightarrow> ProgressBuffer \<Rightarrow> (GstFlowReturn \<times> ProgressBuffer) outcome" where
  "enqueue_segment E segment pb =
     (let pb = pb\<lparr>unexpected := False\<rparr>
      in if sg_format segment \<noteq> GST_FORMAT_BYTES then Returns (GST_FLOW_ERROR, post FormatError pb)
         else if sg_stop segment - sg_start segment \<le> 0 then Returns (GST_FLOW_ERROR, post UnlimitedError pb)
         else let stored = (\<lambda>pb. Returns (GST_FLOW_OK, snd (send_position_message True
                (progress_buffer_set_pending_event (Some (Segment segment)) (pb\<lparr>sink_segment := segment\<rparr>)\<lparr>instant_seek := True\<rparr>))))
              in if sg_update segment then
                   (case fst (create_cache (pe_create E)) of
                      None \<Rightarrow> Returns (GST_FLOW_ERROR, post CacheError (pb\<lparr>pb_cache := None\<rparr>))
                    | Some cache \<Rightarrow> stored (pb\<lparr>pb_cache := Some cache\<rparr>))
                 else
                   (case pb_cache pb of
                      None \<Rightarrow> Faults
                    | Some cache \<Rightarrow>
                        stored (pb\<lparr>pb_cache := Some (snd (cache_set_read_position 0 (snd (cache_set_write_position 0 cache)))),
                                   cache_read_offset := sint (sg_start segment)\<rparr>)))"

fun progress_buffer_enqueue_item :: "pb_env \<Rightarrow> pad_item \<Rightarrow> ProgressBuffer \<Rightarrow> (GstFlowReturn \<times> ProgressBuffer) outcome" where
  "progress_buffer_enqueue_item E (PadBuffer b) pb = enqueue_buffer E b pb"
| "progress_buffer_enqueue_item E (PadEvent Eos) pb = Returns (GST_FLOW_OK, enqueue_eos pb)"
| "progress_buffer_enqueue_item E (PadEvent (Segment segment)) pb = enqueue_segment E segment pb"
| "progress_buffer_enqueue_item E (PadEvent _) pb = Returns (GST_FLOW_OK, pb)"

definition progress_buffer_chain :: "pb_env \<Rightarrow> GstBuffer \<Rightarrow> ProgressBuffer \<Rightarrow> (GstFlowReturn \<times> ProgressBuffer) outcome" where
  "progress_buffer_chain E b pb =
     (case (if pb_eos pb \<or> unexpected pb then Returns (GST_FLOW_EOS, pb) else progress_buffer_enqueue_item E (PadBuffer b) pb) of
        Faults \<Rightarrow> Faults
      | Returns (result, pb) \<Rightarrow>
          Returns (result, if result \<noteq> GST_FLOW_ERROR \<and> \<not> pb_srcpad pb then progress_buffer_create_sourcepad E pb else pb))"

text \<open>An event that is not serialised goes straight through, which fails while there is no source pad.\<close>

definition progress_buffer_sink_event :: "pb_env \<Rightarrow> GstEvent \<Rightarrow> ProgressBuffer \<Rightarrow> (bool \<times> ProgressBuffer) outcome" where
  "progress_buffer_sink_event E event pb =
     (if is_source_seeking pb \<and> (event = FlushStart \<or> event = FlushStop) then Returns (True, pb)
      else if event_serialized event \<and> event \<noteq> FlushStop then
        if pb_eos pb then Returns (False, pb)
        else (case progress_buffer_enqueue_item E (PadEvent event) pb of Faults \<Rightarrow> Faults | Returns (_, pb) \<Rightarrow> Returns (True, pb))
      else if pb_srcpad pb then Returns (True, pb_send (PadEvent event) pb) else Returns (False, pb))"

subsection \<open>The streaming task\<close>

text \<open>A run of the loop function ends, or its thread waits for the condition variable, with the value of the local variable
  \<^verbatim>\<open>skip\<close>; from there it goes on at \<^verbatim>\<open>next_item\<close>.\<close>

datatype loop_result = Ends ProgressBuffer | Waits bool ProgressBuffer | Crashes

definition must_wait :: "Cache \<Rightarrow> ProgressBuffer \<Rightarrow> bool" where
  "must_wait cache pb \<longleftrightarrow> \<not> cache_has_enough_data cache \<or> \<not> instant_seek pb"

definition wait_for_data :: "bool \<Rightarrow> ProgressBuffer \<Rightarrow> loop_result" where
  "wait_for_data skip pb = Waits skip (if instant_seek pb then post UnderrunMessage pb else pb)"

definition pause_unless_ok :: "GstFlowReturn \<Rightarrow> ProgressBuffer \<Rightarrow> loop_result" where
  "pause_unless_ok result pb = Ends (if result \<noteq> GST_FLOW_OK then pb\<lparr>pb_task := TASK_PAUSED\<rparr> else pb)"

definition deliver_event :: "GstEvent \<Rightarrow> ProgressBuffer \<Rightarrow> loop_result" where
  "deliver_event event pb =
     (let result = (if event = Eos then GST_FLOW_EOS else GST_FLOW_OK);
          pb = progress_buffer_set_pending_event None pb;
          pb = pb\<lparr>pb_srcresult := result\<rparr>
      in pause_unless_ok result (pb_send (PadEvent event) pb))"

text \<open>\<open>None\<close>: the cache gave no buffer, and the code sets the offset of a null pointer.\<close>

definition next_buffer :: "pb_env \<Rightarrow> Cache \<Rightarrow> ProgressBuffer \<Rightarrow> (GstBuffer \<times> ProgressBuffer) option" where
  "next_buffer E cache pb =
     (case cache_read_buffer (pe_cache E) cache of
        ((None, _), _) \<Rightarrow> None
      | ((Some buffer, position), cache) \<Rightarrow>
          (let read_position = word_of_int position + word_of_int (cache_read_offset pb);
               buffer = buffer\<lparr>b_offset := read_position - of_nat (length (b_data buffer))\<rparr>;
               pb = pb\<lparr>pb_cache := Some cache\<rparr>;
               pb = (if read_position = sg_stop (sink_segment pb) then progress_buffer_set_pending_event (Some Eos) pb else pb)
           in Some (buffer, pb)))"

definition cache_left :: "ProgressBuffer \<Rightarrow> nat" where
  "cache_left pb = (case pb_cache pb of None \<Rightarrow> 0 | Some c \<Rightarrow> nat (write_position c - read_position c))"

lemma next_buffer_less:
  assumes "pb_cache pb = Some cache" "next_buffer E cache pb = Some (buffer, pb')" "cache_has_enough_data cache"
  shows "cache_left pb' < cache_left pb"
proof -
  obtain position cache' b where rd: "cache_read_buffer (pe_cache E) cache = ((Some b, position), cache')" "pb_cache pb' = Some cache'"
    using assms(2) by (auto simp: next_buffer_def progress_buffer_set_pending_event_def Let_def split: prod.splits option.splits if_splits)
  from read_buffer_progress [OF rd(1)] assms(1,3) rd(2) show ?thesis
    by (auto simp: cache_left_def cache_has_enough_data_def)
qed

lemma cache_left_pending [simp]:
  "cache_left (progress_buffer_set_pending_event ev pb) = cache_left pb"
  "pending_src_event (progress_buffer_set_pending_event ev pb) = ev"
  by (simp_all add: cache_left_def progress_buffer_set_pending_event_def)

text \<open>From \<^verbatim>\<open>next_item\<close> on in skip mode, in which only an end of stream and a segment are passed on.\<close>

function (sequential) skip_items :: "pb_env \<Rightarrow> ProgressBuffer \<Rightarrow> loop_result" where
  "skip_items E pb =
     (if pb_srcresult pb \<noteq> GST_FLOW_OK then Ends (pb\<lparr>unexpected := True\<rparr>)
      else case pending_src_event pb of
             Some Eos \<Rightarrow> deliver_event Eos pb
           | Some (Segment segment) \<Rightarrow> deliver_event (Segment segment) pb
           | Some _ \<Rightarrow> skip_items E (progress_buffer_set_pending_event None pb)
           | None \<Rightarrow>
               (case pb_cache pb of
                  None \<Rightarrow> Crashes
                | Some cache \<Rightarrow>
                    if must_wait cache pb then wait_for_data True pb
                    else case next_buffer E cache pb of None \<Rightarrow> Crashes | Some (_, pb) \<Rightarrow> skip_items E pb))"
  by pat_completeness auto
termination
  by (relation "measures [\<lambda>(E, pb). cache_left pb, \<lambda>(E, pb). if pending_src_event pb = None then 0 else 1]")
     (auto simp: must_wait_def dest: next_buffer_less)

declare skip_items.simps [simp del]

definition progress_buffer_loop :: "pb_env \<Rightarrow> ProgressBuffer \<Rightarrow> loop_result" where
  "progress_buffer_loop E pb =
     (if pb_srcresult pb \<noteq> GST_FLOW_OK then pause_unless_ok (pb_srcresult pb) pb
      else case pending_src_event pb of
             Some event \<Rightarrow> deliver_event event pb
           | None \<Rightarrow>
               (case pb_cache pb of
                  None \<Rightarrow> Crashes
                | Some cache \<Rightarrow>
                    if must_wait cache pb then wait_for_data False pb
                    else case next_buffer E cache pb of
                           None \<Rightarrow> Crashes
                         | Some (buffer, pb) \<Rightarrow>
                             (let pb = pe_meanwhile E (pb_send (PadBuffer buffer) pb);
                                  result = pe_push E buffer
                              in if result = GST_FLOW_EOS then skip_items E pb
                                 else pause_unless_ok result (pb\<lparr>pb_srcresult := result\<rparr>))))"

text \<open>A thread that was waiting goes on.\<close>

definition resume :: "pb_env \<Rightarrow> bool \<Rightarrow> ProgressBuffer \<Rightarrow> loop_result" where
  "resume E skip pb = (if skip then skip_items E pb else progress_buffer_loop E pb)"

subsection \<open>Seeking\<close>

definition seek_in_cache :: "GstSeek \<Rightarrow> Cache \<Rightarrow> ProgressBuffer \<Rightarrow> ProgressBuffer" where
  "seek_in_cache sk cache pb =
     progress_buffer_set_pending_event
       (Some (Segment ((gst_segment_init GST_FORMAT_BYTES)
                \<lparr>sg_rate := sk_rate sk, sg_start := word_of_int (sk_start sk), sg_stop := sg_stop (sink_segment pb),
                 sg_position := word_of_int (sk_start sk)\<rparr>)))
       (pb\<lparr>pb_cache := Some (snd (cache_set_read_position (sk_start sk - cache_read_offset pb) cache))\<rparr>)"

definition seek_in_reach :: "GstSeek \<Rightarrow> ProgressBuffer \<Rightarrow> bool" where
  "seek_in_reach sk pb \<longleftrightarrow>
     word_of_int (sk_start sk) \<ge> sg_start (sink_segment pb) \<and>
     real_of_int (sk_start sk - sint (sg_position (sink_segment pb))) \<le> bandwidth pb * wait_tolerance pb"

definition progress_buffer_perform_push_seek :: "pb_env \<Rightarrow> GstSeek \<Rightarrow> ProgressBuffer \<Rightarrow> (bool \<times> ProgressBuffer) outcome" where
  "progress_buffer_perform_push_seek E sk pb =
     (if sk_format sk \<noteq> GST_FORMAT_BYTES \<or> \<not> sk_set sk then Returns (False, pb)
      else if \<not> sk_stop_none sk then Returns (False, post SeekWarning pb)
      else let pb = (if sk_flush sk then pb_send (PadEvent FlushStart) pb else pb);
               pb = pb\<lparr>pb_srcresult := GST_FLOW_OK\<rparr>;
               pb = pb\<lparr>instant_seek := seek_in_reach sk pb\<rparr>;
               finish = (\<lambda>pb. Returns (True,
                 (if sk_flush sk then pb_send (PadEvent FlushStop) pb else pb)\<lparr>pb_task := TASK_STARTED\<rparr>))
           in if instant_seek pb then
                (case pb_cache pb of None \<Rightarrow> Faults | Some cache \<Rightarrow> finish (seek_in_cache sk cache pb))
              else
                let pb = reset_eos True pb;
                    ev = Seek sk;
                    (ok, pb) = pe_push_up E ev (pb\<lparr>is_source_seeking := True, pb_up := pb_up pb @ [ev]\<rparr>)
                in if ok then finish (pb\<lparr>is_source_seeking := False\<rparr>)
                   else (case pb_cache pb of
                           None \<Rightarrow> Faults
                         | Some cache \<Rightarrow> finish ((seek_in_cache sk cache (pb\<lparr>instant_seek := True\<rparr>))\<lparr>is_source_seeking := False\<rparr>)))"

text \<open>\<open>None\<close>: left to \<^verbatim>\<open>gst_pad_event_default\<close>.\<close>

definition progress_buffer_src_event ::
  "pb_env \<Rightarrow> pad_mode \<Rightarrow> GstEvent \<Rightarrow> ProgressBuffer \<Rightarrow> (bool option \<times> ProgressBuffer) outcome" where
  "progress_buffer_src_event E mode event pb =
     (case mode of
        GST_PAD_MODE_PUSH \<Rightarrow>
          (case event of
             Seek sk \<Rightarrow> (case progress_buffer_perform_push_seek E sk pb of
                          Faults \<Rightarrow> Faults | Returns (r, pb) \<Rightarrow> Returns (Some r, pb))
           | _ \<Rightarrow> Returns (None, pb))
      | GST_PAD_MODE_PULL \<Rightarrow> Returns (Some True, pb)
      | GST_PAD_MODE_NONE \<Rightarrow> Returns (None, pb))"

subsection \<open>Pull mode\<close>

definition VALID_RANGE :: "int \<Rightarrow> bool" where "VALID_RANGE v \<longleftrightarrow> v \<noteq> NO_RANGE_REQUEST"

definition pending_range_start :: "ProgressBuffer \<Rightarrow> bool" where
  "pending_range_start pb \<longleftrightarrow> VALID_RANGE (range_start pb) \<and> sg_start (sink_segment pb) > word_of_int (range_start pb)"

definition pending_range_stop :: "ProgressBuffer \<Rightarrow> bool" where
  "pending_range_stop pb \<longleftrightarrow> VALID_RANGE (range_stop pb) \<and> sg_position (sink_segment pb) < word_of_int (range_stop pb)"

text \<open>One round of the monitor: it waits, announces a range, or ends.\<close>

datatype monitor_result = MonitorWaits ProgressBuffer | MonitorAnnounces ProgressBuffer | MonitorEnds ProgressBuffer

definition progress_buffer_range_monitor :: "ProgressBuffer \<Rightarrow> monitor_result" where
  "progress_buffer_range_monitor pb =
     (let (stops, pb) = (if pb_srcresult pb = GST_FLOW_OK then pending_eos pb else (True, pb))
      in if \<not> stops \<and> (pending_range_start pb \<or> pending_range_stop pb \<or>
                         \<not> VALID_RANGE (range_start pb) \<and> \<not> VALID_RANGE (range_stop pb))
         then MonitorWaits pb
         else if pb_srcresult pb = GST_FLOW_OK \<and> (VALID_RANGE (range_start pb) \<or> VALID_RANGE (range_stop pb))
         then MonitorAnnounces (pb_send (PadEvent RangeReady) (pb\<lparr>range_start := NO_RANGE_REQUEST, range_stop := NO_RANGE_REQUEST\<rparr>))
         else MonitorEnds pb)"

definition request_range :: "u64 \<Rightarrow> u64 \<Rightarrow> ProgressBuffer \<Rightarrow> bool \<times> ProgressBuffer" where
  "request_range start_position end_position pb =
     (let needs_seeking = sg_start (sink_segment pb) > start_position;
          pb = (if needs_seeking then reset_eos True (pb\<lparr>range_start := sint start_position\<rparr>) else pb)
      in if sg_position (sink_segment pb) < end_position then
           let stop = sint (end_position + word_of_int (trunc_int (bandwidth pb * prebuffer_time pb)));
               stop = (if sg_stop (sink_segment pb) < word_of_int stop then sint (sg_stop (sink_segment pb)) else stop);
               needs_seeking = (bandwidth pb > 0 \<and>
                 real (unat (end_position - sg_position (sink_segment pb))) > bandwidth pb * wait_tolerance pb)
           in (needs_seeking, pb\<lparr>range_stop := stop\<rparr>)
         else (needs_seeking, pb))"

definition progress_buffer_getrange ::
  "pb_env \<Rightarrow> u64 \<Rightarrow> u32 \<Rightarrow> ProgressBuffer \<Rightarrow> ((GstFlowReturn \<times> GstBuffer option) \<times> ProgressBuffer) outcome" where
  "progress_buffer_getrange E start_position n pb =
     (let end_position = start_position + ucast n; seg = sink_segment pb
      in if sg_stop seg < end_position then Returns ((GST_FLOW_EOS, None), pb)
         else if sg_start seg \<le> start_position \<and> sg_position seg \<ge> end_position then
           (case pb_cache pb of
              None \<Rightarrow> Faults
            | Some cache \<Rightarrow>
                (case cache_read_buffer_from_position (pe_cache E) (sint start_position) (uint n) cache of
                   (result, cache) \<Rightarrow> Returns (result, pb\<lparr>pb_cache := Some cache\<rparr>)))
         else
           case request_range start_position end_position pb of (needs_seeking, pb) \<Rightarrow>
             (let pb = post UnderrunMessage pb;
                  seek = Seek \<lparr>sk_rate = sg_rate (sink_segment pb), sk_format = GST_FORMAT_BYTES, sk_flush = False, sk_set = True,
                               sk_start = sint start_position, sk_stop_none = True\<rparr>
              in Returns ((GST_FLOW_FLUSHING, None), if needs_seeking then snd (pe_push_up E seek (pb\<lparr>pb_up := pb_up pb @ [seek]\<rparr>)) else pb)))"

subsection \<open>State changes\<close>

definition progress_buffer_change_state :: "(ProgressBuffer \<Rightarrow> bool \<times> ProgressBuffer) \<Rightarrow> state_change \<Rightarrow> ProgressBuffer \<Rightarrow> bool \<times> ProgressBuffer" where
  "progress_buffer_change_state parent transition pb =
     (case parent pb of (ok, pb) \<Rightarrow>
        if \<not> ok then (False, pb)
        else if transition = PAUSED_TO_READY
        then (True, progress_buffer_flush_data (pb\<lparr>pb_srcresult := GST_FLOW_FLUSHING\<rparr>))
        else (True, pb))"

end
