(* ===== verification/Progress_Streams.thy ===== *)
theory Progress_Streams
  imports Java_Streams Progress_Buffer
begin

text \<open>
  What the progress buffer sends in push mode, for every interleaving of the thread that delivers data to it and its own task,
  and the composition of the source with the progress buffer.
\<close>

subsection \<open>Interleavings\<close>

text \<open>The streaming thread of the source pushes an item; the task of the buffer runs once.  A waiting task that is woken goes on
  as if it ran anew.\<close>

datatype pb_op = Push pad_item | Run

definition run_task :: "pb_env \<Rightarrow> ProgressBuffer \<Rightarrow> ProgressBuffer outcome" where
  "run_task E pb =
     (if pb_task pb = TASK_STARTED
      then (case progress_buffer_loop E pb of Ends pb' \<Rightarrow> Returns pb' | Waits skip pb' \<Rightarrow> Returns pb' | Crashes \<Rightarrow> Faults)
      else Returns pb)"

fun pb_step :: "pb_env \<Rightarrow> pb_op \<Rightarrow> ProgressBuffer \<Rightarrow> ProgressBuffer outcome" where
  "pb_step E (Push (PadBuffer b)) pb = (case progress_buffer_chain E b pb of Faults \<Rightarrow> Faults | Returns (_, pb) \<Rightarrow> Returns pb)"
| "pb_step E (Push (PadEvent ev)) pb = (case progress_buffer_sink_event E ev pb of Faults \<Rightarrow> Faults | Returns (_, pb) \<Rightarrow> Returns pb)"
| "pb_step E Run pb = run_task E pb"

fun pb_run :: "pb_env \<Rightarrow> pb_op list \<Rightarrow> ProgressBuffer \<Rightarrow> ProgressBuffer outcome" where
  "pb_run E [] pb = Returns pb"
| "pb_run E (op # ops) pb = (case pb_step E op pb of Faults \<Rightarrow> Faults | Returns pb \<Rightarrow> pb_run E ops pb)"

lemma pb_run_append: "pb_run E (ops @ ops') pb = (case pb_run E ops pb of Faults \<Rightarrow> Faults | Returns pb \<Rightarrow> pb_run E ops' pb)"
  by (induction ops arbitrary: pb) (auto split: outcome.splits)

text \<open>Nothing fails, downstream takes every buffer, and nobody else touches the element.\<close>

definition smooth :: "pb_env \<Rightarrow> bool" where
  "smooth E \<longleftrightarrow> works (pe_cache E) \<and> fst (create_cache (pe_create E)) \<noteq> None \<and> pe_linked E \<and> (\<forall>b. pe_push E b = GST_FLOW_OK) \<and>
     pe_meanwhile E = (\<lambda>pb. pb)"

subsection \<open>The invariant\<close>

text \<open>The phases of a segment from byte \<open>s\<close> to byte \<open>T\<close> of which \<open>recv\<close> has arrived and which is sent from byte \<open>p\<close> on: \<open>out\<close> is
  what had left the pad before, and \<open>ds\<close> the blocks sent since.\<close>

datatype phase = SegmentPending | Streaming | EosPending | Done

fun phase_ok :: "phase \<Rightarrow> GstSegment \<Rightarrow> nat \<Rightarrow> nat \<Rightarrow> nat \<Rightarrow> nat \<Rightarrow> octet list list \<Rightarrow> pad_item list \<Rightarrow> ProgressBuffer \<Rightarrow> bool" where
  "phase_ok SegmentPending seg p s T r ds out pb \<longleftrightarrow>
     pending_src_event pb = Some (Segment seg) \<and> pb_srcresult pb = GST_FLOW_OK \<and> ds = [] \<and> pb_out pb = out \<and>
     pb_task pb = (if pb_srcpad pb then TASK_STARTED else TASK_STOPPED)"
| "phase_ok Streaming seg p s T r ds out pb \<longleftrightarrow>
     pending_src_event pb = None \<and> pb_srcresult pb = GST_FLOW_OK \<and> pb_out pb = out @ PadEvent (Segment seg) # stamped (int p) False ds \<and>
     s + r \<noteq> T \<and> pb_task pb = TASK_STARTED \<and> pb_srcpad pb"
| "phase_ok EosPending seg p s T r ds out pb \<longleftrightarrow>
     pending_src_event pb = Some Eos \<and> pb_srcresult pb = GST_FLOW_OK \<and> pb_out pb = out @ PadEvent (Segment seg) # stamped (int p) False ds \<and>
     s + r = T \<and> pb_task pb = TASK_STARTED \<and> pb_srcpad pb"
| "phase_ok Done seg p s T r ds out pb \<longleftrightarrow>
     pending_src_event pb = None \<and> pb_srcresult pb = GST_FLOW_EOS \<and>
     pb_out pb = out @ PadEvent (Segment seg) # stamped (int p) False ds @ [PadEvent Eos] \<and>
     s + r = T \<and> pb_task pb = TASK_PAUSED \<and> pb_srcpad pb"

definition pb_inv :: "GstSegment \<Rightarrow> nat \<Rightarrow> nat \<Rightarrow> nat \<Rightarrow> octet list \<Rightarrow> pad_item list \<Rightarrow> phase \<Rightarrow> octet list list \<Rightarrow> ProgressBuffer \<Rightarrow> bool" where
  "pb_inv seg p s T recv out ph ds pb \<longleftrightarrow>
     (\<exists>c. pb_cache pb = Some c \<and> queue_ok c \<and> stored c = recv \<and> [] \<notin> set ds \<and>
        concat ds = drop (p - s) (take (nat (read_position c)) recv) \<and> p - s \<le> nat (read_position c) \<and>
        phase_ok ph seg p s T (nat (read_position c)) ds out pb) \<and>
     s \<le> p \<and> p < T \<and> T < 2 ^ 63 \<and> s + length recv \<le> T \<and> cache_read_offset pb = int s \<and> instant_seek pb \<and> \<not> unexpected pb \<and>
     sg_position (sink_segment pb) = of_nat (s + length recv) \<and> sg_stop (sink_segment pb) = of_nat T \<and>
     (pb_eos pb \<longrightarrow> s + length recv = T)"

lemma send_position_frame: "\<exists>l m. snd (send_position_message mandatory pb) = pb\<lparr>last_update := l, pb_bus := m\<rparr>"
proof -
  have "snd (send_position_message mandatory pb) = pb\<lparr>last_update := last_update (snd (send_position_message mandatory pb)),
      pb_bus := pb_bus (snd (send_position_message mandatory pb))\<rparr>"
    by (simp add: send_position_message_def post_def Let_def)
  then show ?thesis
    by blast
qed

lemma enqueue_buffer_smooth:
  assumes "pb_cache pb = Some c" "b_offset b + of_nat (length (b_data b)) \<le> sg_stop (sink_segment pb)"
  shows "\<exists>st bw l m. enqueue_buffer E b pb = Returns (GST_FLOW_OK,
    pb\<lparr>sink_segment := (sink_segment pb)\<lparr>sg_position := b_offset b + of_nat (length (b_data b))\<rparr>,
       pb_cache := Some (cache_write_buffer (pe_cache E) (b_data b) c), subtotal := st, bandwidth := bw, last_update := l, pb_bus := m\<rparr>)"
proof -
  define pb1 where "pb1 = pb\<lparr>sink_segment := (sink_segment pb)\<lparr>sg_position := b_offset b + of_nat (length (b_data b))\<rparr>,
      pb_cache := Some (cache_write_buffer (pe_cache E) (b_data b) c), subtotal := subtotal pb + of_nat (length (b_data b))\<rparr>"
  define pb2 where "pb2 = (if pe_elapsed E > 1 then pb1\<lparr>bandwidth := real (unat (subtotal pb1)) / pe_elapsed E, subtotal := 0\<rparr> else pb1)"
  have "enqueue_buffer E b pb = Returns (GST_FLOW_OK, snd (send_position_message False pb2))"
    using assms by (simp add: enqueue_buffer_def pb1_def pb2_def Let_def not_less)
  moreover obtain l m where "snd (send_position_message False pb2) = pb2\<lparr>last_update := l, pb_bus := m\<rparr>"
    using send_position_frame by blast
  moreover have "pb2 = pb1\<lparr>bandwidth := bandwidth pb2, subtotal := subtotal pb2\<rparr>"
    by (simp add: pb2_def)
  ultimately have "enqueue_buffer E b pb = Returns (GST_FLOW_OK, pb1\<lparr>bandwidth := bandwidth pb2, subtotal := subtotal pb2, last_update := l, pb_bus := m\<rparr>)"
    by metis
  then show ?thesis
    by (intro exI [of _ "subtotal pb2"] exI [of _ "bandwidth pb2"] exI [of _ l] exI [of _ m]) (simp add: pb1_def)
qed

lemma read_le_stored: "queue_ok c \<Longrightarrow> nat (read_position c) \<le> length (stored c)"
  using length_stored [of c] by (auto simp: queue_ok_def)

lemma inv_output:
  assumes "pb_inv seg p s T recv out ph ds pb"
  shows "[] \<notin> set ds \<and> prefix (concat ds) (drop (p - s) recv) \<and> phase_ok ph seg p s T (p - s + length (concat ds)) ds out pb"
proof -
  from assms obtain c where c: "queue_ok c" "stored c = recv" "[] \<notin> set ds" "concat ds = drop (p - s) (take (nat (read_position c)) recv)"
      "phase_ok ph seg p s T (nat (read_position c)) ds out pb" "p - s \<le> nat (read_position c)"
    by (auto simp: pb_inv_def)
  then have "p - s + length (concat ds) = nat (read_position c)"
    using read_le_stored [OF c(1)] by simp
  with c show ?thesis
    by (simp add: take_is_prefix drop_take)
qed

lemma u64_of_nat_le: "m \<le> n \<Longrightarrow> n < 2 ^ 64 \<Longrightarrow> (of_nat m :: u64) \<le> of_nat n"
  by (simp add: word_le_nat_alt u64_of_nat_small)

lemma u64_of_nat_eq: "m < 2 ^ 64 \<Longrightarrow> n < 2 ^ 64 \<Longrightarrow> (of_nat m :: u64) = of_nat n \<longleftrightarrow> m = n"
  by (simp add: word_unat_eq_iff u64_of_nat_small)

text \<open>A buffer arrives.\<close>

lemma inv_push:
  assumes "smooth E" "pb_inv seg p s T recv out ph ds pb" "\<not> pb_eos pb" "b_offset b = of_nat (s + length recv)"
    "s + length recv + length (b_data b) \<le> T"
  shows "\<exists>pb'. pb_step E (Push (PadBuffer b)) pb = Returns pb' \<and> pb_inv seg p s T (recv @ b_data b) out ph ds pb' \<and> pb_srcpad pb' \<and> \<not> pb_eos pb'"
proof -
  from assms(2) obtain c where c: "pb_cache pb = Some c" "queue_ok c" "stored c = recv" "[] \<notin> set ds"
      "concat ds = drop (p - s) (take (nat (read_position c)) recv)" "phase_ok ph seg p s T (nat (read_position c)) ds out pb"
      "p - s \<le> nat (read_position c)"
    and inv: "s \<le> p \<and> p < T" "T < 2 ^ 63" "cache_read_offset pb = int s" "instant_seek pb" "\<not> unexpected pb" "sg_stop (sink_segment pb) = of_nat T"
    by (auto simp: pb_inv_def)
  have le: "b_offset b + of_nat (length (b_data b)) \<le> sg_stop (sink_segment pb)"
    using u64_of_nat_le [of "s + length recv + length (b_data b)" T] assms(4,5) inv by simp
  define c' where "c' = cache_write_buffer (pe_cache E) (b_data b) c"
  have w: "works (pe_cache E)"
    using assms(1) by (simp add: smooth_def)
  have c': "queue_ok c'" "stored c' = recv @ b_data b" "read_position c' = read_position c"
    using w c queue_put [OF w c(2)] works_write [OF w] by (auto simp: c'_def queue_ok_def write_ok works_def)
  have rd: "nat (read_position c) \<le> length recv"
    using c(2,3) length_stored [of c] by (auto simp: queue_ok_def cache_ok_def)
  obtain st bw l m where enq: "enqueue_buffer E b pb = Returns (GST_FLOW_OK,
    pb\<lparr>sink_segment := (sink_segment pb)\<lparr>sg_position := b_offset b + of_nat (length (b_data b))\<rparr>,
       pb_cache := Some c', subtotal := st, bandwidth := bw, last_update := l, pb_bus := m\<rparr>)"
    using enqueue_buffer_smooth [OF c(1) le, of E] by (auto simp: c'_def)
  define pb1 where "pb1 = pb\<lparr>sink_segment := (sink_segment pb)\<lparr>sg_position := b_offset b + of_nat (length (b_data b))\<rparr>,
       pb_cache := Some c', subtotal := st, bandwidth := bw, last_update := l, pb_bus := m\<rparr>"
  have step: "pb_step E (Push (PadBuffer b)) pb = Returns (if pb_srcpad pb1 then pb1 else progress_buffer_create_sourcepad E pb1)"
    using assms(3) inv(5) enq by (simp add: progress_buffer_chain_def pb1_def)
  have "pb_inv seg p s T (recv @ b_data b) out ph ds pb1" if "pb_srcpad pb"
    using c inv c' rd assms(3-5) that unfolding pb_inv_def
    by (intro conjI exI [of _ c']) (auto simp: pb1_def add.assoc elim!: phase_ok.elims)
  moreover have "pb_inv seg p s T (recv @ b_data b) out ph ds (progress_buffer_create_sourcepad E pb1)" if "\<not> pb_srcpad pb"
  proof -
    have ph: "ph = SegmentPending"
      using c(6) that by (cases ph) auto
    show ?thesis
      using c inv c' rd assms(1,3-5) that unfolding pb_inv_def ph
      by (intro conjI exI [of _ c'])
         (auto simp: pb1_def add.assoc progress_buffer_create_sourcepad_def progress_buffer_activatepush_src_def activated_def
           reset_eos_def post_def smooth_def Let_def)
  qed
  moreover have "pb_srcpad (progress_buffer_create_sourcepad E pb1)" "\<not> pb_eos (progress_buffer_create_sourcepad E pb1)" "\<not> pb_eos pb1"
      "pb_srcpad pb1 = pb_srcpad pb"
    using assms(3)
    by (simp_all add: pb1_def progress_buffer_create_sourcepad_def progress_buffer_activatepush_src_def activated_def reset_eos_def post_def Let_def)
  ultimately show ?thesis
    unfolding step by (cases "pb_srcpad pb") auto
qed

text \<open>One block is read and sent.\<close>

lemma stamped_append: "stamped pos d (xs @ ys) = stamped pos d xs @ stamped (pos + int (length (concat xs))) (d \<and> xs = []) ys"
  by (induction xs arbitrary: pos d) (auto simp: add.assoc)

lemma next_buffer_smooth:
  assumes "works (pe_cache E)" "queue_ok c" "pending c \<noteq> []" "cache_read_offset pb = int s" "sg_stop (sink_segment pb) = of_nat T"
    "s + length (stored c) \<le> T" "T < 2 ^ 63"
  shows "\<exists>xs c'. xs \<noteq> [] \<and> queue_ok c' \<and> stored c' = stored c \<and> nat (read_position c') = nat (read_position c) + length xs \<and>
    take (nat (read_position c')) (stored c) = take (nat (read_position c)) (stored c) @ xs \<and>
    next_buffer E c pb = Some (new_buffer xs (of_nat (s + nat (read_position c))),
      pb\<lparr>pb_cache := Some c', pending_src_event := (if s + nat (read_position c') = T then Some Eos else pending_src_event pb)\<rparr>)"
proof -
  obtain xs c' where get: "cache_get (pe_cache E) c = (xs, c')"
    by (cases "cache_get (pe_cache E) c")
  note g = queue_get [OF assms(1-3) get]
  have pos: "0 \<le> read_position c" "0 \<le> read_position c'"
    using assms(2) g(1) by (simp_all add: queue_ok_def cache_ok_def)
  have r: "nat (read_position c') = nat (read_position c) + length xs"
    using g(5) pos by simp
  have len: "nat (read_position c') \<le> length (stored c)"
    using g(1,7) length_stored [of c'] by (auto simp: queue_ok_def)
  have data: "take (nat (read_position c')) (stored c) = take (nat (read_position c)) (stored c) @ xs"
    using g(3) by (simp add: r take_add pending_def)
  have i: "word_of_int (read_position c') + word_of_int (int s) = (of_nat (s + nat (read_position c')) :: u64)"
  proof -
    have "word_of_int (read_position c') = (of_nat (nat (read_position c')) :: u64)"
      using pos(2) by (metis nat_0_le of_int_of_nat_eq)
    then show ?thesis
      by simp
  qed
  have e: "(of_nat (s + nat (read_position c')) :: u64) = of_nat T \<longleftrightarrow> s + nat (read_position c') = T"
    using len assms(6,7) by (intro u64_of_nat_eq) auto
  have o: "of_nat (s + nat (read_position c')) - of_nat (length xs) = (of_nat (s + nat (read_position c)) :: u64)"
    by (simp add: r)
  have "next_buffer E c pb = Some (new_buffer xs (of_nat (s + nat (read_position c))),
      pb\<lparr>pb_cache := Some c', pending_src_event := (if s + nat (read_position c') = T then Some Eos else pending_src_event pb)\<rparr>)"
    unfolding next_buffer_def g(6) prod.case option.case assms(4) i Let_def new_buffer_simps(1) o
    by (simp add: assms(5) e progress_buffer_set_pending_event_def new_buffer_def del: of_nat_add)
  with g(1,2,7) r data show ?thesis
    by blast
qed

text \<open>The task runs: it sends the event that is pending, or a block, or waits.\<close>

lemma inv_run:
  assumes "smooth E" "pb_inv seg p s T recv out ph ds pb"
  shows "\<exists>pb' ph' ds'. run_task E pb = Returns pb' \<and> pb_inv seg p s T recv out ph' ds' pb' \<and> pb_srcpad pb' = pb_srcpad pb \<and> pb_eos pb' = pb_eos pb \<and>
    (pb_srcpad pb \<longrightarrow>
      (ph = SegmentPending \<and> ph' = Streaming \<and> ds' = ds) \<or>
      (ph = Streaming \<and> concat ds = drop (p - s) recv \<and> ph' = Streaming \<and> ds' = ds \<and> s + length recv < T) \<or>
      (ph = Streaming \<and> length (concat ds) < length (concat ds') \<and> (ph' = Streaming \<or> ph' = EosPending)) \<or>
      ((ph = EosPending \<or> ph = Done) \<and> ph' = Done \<and> ds' = ds))"
proof -
  from assms(2) obtain c where c: "pb_cache pb = Some c" "queue_ok c" "stored c = recv" "[] \<notin> set ds"
      "concat ds = drop (p - s) (take (nat (read_position c)) recv)" "phase_ok ph seg p s T (nat (read_position c)) ds out pb"
      "p - s \<le> nat (read_position c)"
    and inv: "s \<le> p \<and> p < T" "T < 2 ^ 63" "s + length recv \<le> T" "cache_read_offset pb = int s" "instant_seek pb" "\<not> unexpected pb"
      "sg_position (sink_segment pb) = of_nat (s + length recv)" "sg_stop (sink_segment pb) = of_nat T" "pb_eos pb \<longrightarrow> s + length recv = T"
    by (auto simp: pb_inv_def)
  have rd: "nat (read_position c) \<le> length recv"
    using c(2,3) length_stored [of c] by (auto simp: queue_ok_def cache_ok_def)
  have len: "p - s + length (concat ds) = nat (read_position c)"
    using c(5,7) rd by simp
  show ?thesis
  proof (cases "pb_task pb = TASK_STARTED")
    case False
    then show ?thesis
      using assms(2) c(6) by (intro exI [of _ pb] exI [of _ ph] exI [of _ ds]) (cases ph; auto simp: run_task_def split: if_splits)
  next
    case True
    show ?thesis
    proof (cases ph)
      case SegmentPending
      define pb' where "pb' = pb\<lparr>pending_src_event := None, pb_srcresult := GST_FLOW_OK, pb_out := pb_out pb @ [PadEvent (Segment seg)]\<rparr>"
      have "run_task E pb = Returns pb'"
        using c(6) True SegmentPending
        by (simp add: run_task_def progress_buffer_loop_def deliver_event_def pause_unless_ok_def pb_send_def
            progress_buffer_set_pending_event_def pb'_def)
      moreover have "length (concat ds) = 0"
        using c(6) SegmentPending by simp
      then have "s + nat (read_position c) = p"
        using len inv(1) by linarith
      then have "pb_inv seg p s T recv out Streaming ds pb'"
        using c inv True SegmentPending unfolding pb_inv_def
        by (intro conjI exI [of _ c]) (auto simp: pb'_def split: if_splits)
      ultimately show ?thesis
        using SegmentPending by (intro exI [of _ pb'] exI [of _ Streaming] exI [of _ ds]) (simp add: pb'_def)
    next
      case EosPending
      define pb' where "pb' = pb\<lparr>pending_src_event := None, pb_srcresult := GST_FLOW_EOS, pb_task := TASK_PAUSED, pb_out := pb_out pb @ [PadEvent Eos]\<rparr>"
      have "run_task E pb = Returns pb'"
        using c(6) True EosPending
        by (simp add: run_task_def progress_buffer_loop_def deliver_event_def pause_unless_ok_def pb_send_def
            progress_buffer_set_pending_event_def pb'_def)
      moreover have "pb_inv seg p s T recv out Done ds pb'"
        using c inv EosPending unfolding pb_inv_def by (intro conjI exI [of _ c]) (auto simp: pb'_def)
      ultimately show ?thesis
        using EosPending by (intro exI [of _ pb'] exI [of _ Done] exI [of _ ds]) (simp add: pb'_def)
    next
      case Done
      with True c(6) show ?thesis
        by simp
    next
      case Streaming
      show ?thesis
      proof (cases "pending c = []")
        case none: True
        have all: "concat ds = drop (p - s) recv" "nat (read_position c) = length recv"
          using none c length_stored [of c] by (auto simp: pending_def queue_ok_def cache_ok_def)
        define pb' where "pb' = post UnderrunMessage pb"
        have "\<not> cache_has_enough_data c"
          using none c(2) by (simp add: queue_ok_def has_data_pending)
        then have "run_task E pb = Returns pb'"
          using c(1,6) inv(5) True Streaming
          by (simp add: run_task_def progress_buffer_loop_def wait_for_data_def must_wait_def pb'_def)
        moreover have "pb_inv seg p s T recv out Streaming ds pb'"
          using c inv Streaming unfolding pb_inv_def by (intro conjI exI [of _ c]) (auto simp: pb'_def post_def)
        moreover have "s + length recv < T"
          using c(6) Streaming all inv by auto
        ultimately show ?thesis
          using Streaming all by (intro exI [of _ pb'] exI [of _ Streaming] exI [of _ ds]) (simp add: pb'_def post_def)
      next
        case some: False
        have w: "works (pe_cache E)" "s + length (stored c) \<le> T"
          using assms(1) inv c by (simp_all add: smooth_def)
        obtain xs c' where n: "xs \<noteq> []" "queue_ok c'" "stored c' = stored c" "nat (read_position c') = nat (read_position c) + length xs"
            "take (nat (read_position c')) (stored c) = take (nat (read_position c)) (stored c) @ xs"
            "next_buffer E c pb = Some (new_buffer xs (of_nat (s + nat (read_position c))),
              pb\<lparr>pb_cache := Some c', pending_src_event := (if s + nat (read_position c') = T then Some Eos else pending_src_event pb)\<rparr>)"
          using next_buffer_smooth [OF w(1) c(2) some inv(4,8) w(2) inv(2)] by blast
        define ph' where "ph' = (if s + nat (read_position c') = T then EosPending else Streaming)"
        define pb' where "pb' = pb\<lparr>pb_cache := Some c', pending_src_event := (if s + nat (read_position c') = T then Some Eos else None),
            pb_out := pb_out pb @ [PadBuffer (new_buffer xs (of_nat (s + nat (read_position c))))], pb_srcresult := GST_FLOW_OK\<rparr>"
        have "cache_has_enough_data c"
          using some c(2) by (simp add: queue_ok_def has_data_pending)
        then have run: "run_task E pb = Returns pb'"
          using c(1,6) inv(5) True Streaming assms(1) n(6)
          by (simp add: run_task_def progress_buffer_loop_def must_wait_def smooth_def pause_unless_ok_def pb_send_def pb'_def Let_def)
        have off: "int p + int (length (concat ds)) = int (s + nat (read_position c))"
          using len inv(1) by linarith
        have out: "pb_out pb' = out @ PadEvent (Segment seg) # stamped (int p) False (ds @ [xs])"
          using c(6) Streaming by (simp add: pb'_def stamped_append off new_buffer_def del: of_nat_add)
        have "p - (s + min (length (stored c)) (nat (read_position c))) = 0"
          using rd c(3,7) by (simp add: min_absorb2)
        then have "pb_inv seg p s T recv out ph' (ds @ [xs]) pb'"
          using c inv Streaming n out unfolding pb_inv_def
          by (intro conjI exI [of _ c']) (auto simp: pb'_def ph'_def)
        then show ?thesis
          using Streaming run n(1) by (intro exI [of _ pb'] exI [of _ ph'] exI [of _ "ds @ [xs]"]) (simp add: pb'_def ph'_def)
      qed
    qed
  qed
qed

text \<open>A segment from byte \<open>s\<close> to byte \<open>T\<close> arrives: the first one makes a new cache, one after a seek empties the cache.\<close>

definition byte_segment :: "nat \<Rightarrow> nat \<Rightarrow> GstSegment \<Rightarrow> bool" where
  "byte_segment s T seg \<longleftrightarrow> sg_format seg = GST_FORMAT_BYTES \<and> sg_start seg = of_nat s \<and> sg_position seg = of_nat s \<and>
     sg_stop seg = of_nat T \<and> s < T \<and> T < 2 ^ 63"

definition ready_for :: "GstSegment \<Rightarrow> ProgressBuffer \<Rightarrow> bool" where
  "ready_for seg pb \<longleftrightarrow> pb_srcresult pb = GST_FLOW_OK \<and> \<not> pb_eos pb \<and> pb_task pb = (if pb_srcpad pb then TASK_STARTED else TASK_STOPPED) \<and>
     (if sg_update seg then cache_read_offset pb = 0 \<and> sg_start seg = 0 else (\<exists>c. pb_cache pb = Some c \<and> cache_ok c))"

lemma sint_of_nat_small: "n < 2 ^ 63 \<Longrightarrow> sint (of_nat n :: u64) = int n"
  by (simp add: signed_of_nat signed_take_bit_int_eq_self)

lemma inv_segment:
  assumes "smooth E" "byte_segment s T seg" "ready_for seg pb"
  shows "\<exists>pb'. pb_step E (Push (PadEvent (Segment seg))) pb = Returns pb' \<and> pb_inv seg s s T [] (pb_out pb) SegmentPending [] pb' \<and>
    pb_srcpad pb' = pb_srcpad pb \<and> \<not> pb_eos pb'"
proof -
  have seg: "sg_format seg = GST_FORMAT_BYTES" "sg_start seg = of_nat s" "sg_position seg = of_nat s" "sg_stop seg = of_nat T" "s < T" "T < 2 ^ 63"
    using assms(2) by (simp_all add: byte_segment_def)
  have ready: "pb_srcresult pb = GST_FLOW_OK" "\<not> pb_eos pb" "pb_task pb = (if pb_srcpad pb then TASK_STARTED else TASK_STOPPED)"
    using assms(3) by (simp_all add: ready_for_def)
  have ne: "\<not> sg_stop seg - sg_start seg \<le> 0"
    using u64_of_nat_eq [of T s] seg by simp
  have s0: "s = 0" if "sg_start seg = 0"
    using u64_of_nat_eq [of s 0] seg that by simp
  obtain c off where c: "cache_ok c" "stored c = []" "read_position c = 0" "write_position c = 0" "off = int s"
    and enq: "enqueue_segment E seg pb = Returns (GST_FLOW_OK, snd (send_position_message True
      (pb\<lparr>unexpected := False, pb_cache := Some c, cache_read_offset := off, sink_segment := seg, pending_src_event := Some (Segment seg), instant_seek := True\<rparr>)))"
  proof (cases "sg_update seg")
    case True
    then have "cache_read_offset pb = 0" "s = 0"
      using assms(3) s0 by (simp_all add: ready_for_def)
    moreover obtain c held where cr: "create_cache (pe_create E) = (Some c, held)"
      using assms(1) by (cases "create_cache (pe_create E)") (auto simp: smooth_def)
    moreover have "read_position c = 0" "write_position c = 0"
      using cr by (auto simp: create_cache_def split: if_splits)
    ultimately show ?thesis
      using that [of c 0] create_cache_ok [OF cr] True seg(1) ne
      by (cases pb) (simp add: enqueue_segment_def progress_buffer_set_pending_event_def)
  next
    case False
    then obtain c where "pb_cache pb = Some c" "cache_ok c"
      using assms(3) by (auto simp: ready_for_def)
    with False seg ne cache_reset_ok [of c] show ?thesis
      using that [of "cache_reset c" "int s"]
      by (simp add: enqueue_segment_def progress_buffer_set_pending_event_def cache_reset_def sint_of_nat_small)
  qed
  obtain l m where "enqueue_segment E seg pb = Returns (GST_FLOW_OK,
      (pb\<lparr>unexpected := False, pb_cache := Some c, cache_read_offset := off, sink_segment := seg, pending_src_event := Some (Segment seg),
          instant_seek := True, last_update := l, pb_bus := m\<rparr>))"
    using enq send_position_frame by metis
  then show ?thesis
    using ready seg c by (auto simp: progress_buffer_sink_event_def pb_inv_def queue_ok_def)
qed

text \<open>End of stream arrives when the whole segment has been received and the segment event has left.\<close>

lemma inv_eos:
  assumes "smooth E" "pb_inv seg p s T recv out ph ds pb" "s + length recv = T" "ph \<noteq> SegmentPending" "\<not> pb_eos pb"
  shows "\<exists>pb'. pb_step E (Push (PadEvent Eos)) pb = Returns pb' \<and> pb_inv seg p s T recv out ph ds pb' \<and> pb_srcpad pb'"
proof -
  have pe: "pb\<lparr>pb_eos := True, pending_src_event := None\<rparr> = pb\<lparr>pb_eos := True\<rparr>" if "pending_src_event pb \<noteq> Some Eos"
    using assms(2,4) that by (cases ph; cases pb) (auto simp: pb_inv_def)
  have "sg_position (sink_segment pb) = sg_stop (sink_segment pb)"
    using assms(2,3) by (simp add: pb_inv_def)
  then have "enqueue_eos pb = snd (send_position_message True (pb\<lparr>pb_eos := True\<rparr>))"
    using pe by (auto simp: enqueue_eos_def progress_buffer_set_pending_event_def Let_def)
  then obtain l m where e: "enqueue_eos pb = pb\<lparr>pb_eos := True, last_update := l, pb_bus := m\<rparr>"
    using send_position_frame by metis
  have "phase_ok ph seg p s T r ds out (enqueue_eos pb) = phase_ok ph seg p s T r ds out pb" for r
    using assms(4) by (cases ph) (simp_all add: e)
  then show ?thesis
    using assms by (cases ph) (auto simp: progress_buffer_sink_event_def pb_inv_def e)
qed

subsection \<open>Every interleaving\<close>

text \<open>Buffers arrive at consecutive offsets, in any interleaving with the task; caps may arrive too.\<close>

fun feeds :: "nat \<Rightarrow> pb_op list \<Rightarrow> bool" where
  "feeds pos [] \<longleftrightarrow> True"
| "feeds pos (Push (PadBuffer b) # ops) \<longleftrightarrow> b_offset b = of_nat pos \<and> feeds (pos + length (b_data b)) ops"
| "feeds pos (Push (PadEvent ev) # ops) \<longleftrightarrow> (\<exists>m. ev = Caps m) \<and> feeds pos ops"
| "feeds pos (Run # ops) \<longleftrightarrow> feeds pos ops"

fun arrived :: "pb_op list \<Rightarrow> octet list" where
  "arrived [] = []"
| "arrived (Push (PadBuffer b) # ops) = b_data b @ arrived ops"
| "arrived (_ # ops) = arrived ops"

definition has_buffer :: "pb_op list \<Rightarrow> bool" where
  "has_buffer ops \<longleftrightarrow> (\<exists>b. Push (PadBuffer b) \<in> set ops)"

lemma inv_ops:
  assumes "smooth E"
  shows "pb_inv seg p s T recv out ph ds pb \<Longrightarrow> \<not> pb_eos pb \<Longrightarrow> feeds (s + length recv) ops \<Longrightarrow>
    s + length recv + length (arrived ops) \<le> T \<Longrightarrow>
    \<exists>pb' ph' ds'. pb_run E ops pb = Returns pb' \<and> pb_inv seg p s T (recv @ arrived ops) out ph' ds' pb' \<and> \<not> pb_eos pb' \<and>
      (pb_srcpad pb \<or> has_buffer ops \<longrightarrow> pb_srcpad pb') \<and> (ph \<noteq> SegmentPending \<longrightarrow> ph' \<noteq> SegmentPending)"
proof (induction ops arbitrary: recv ph ds pb)
  case (Cons op ops)
  show ?case
  proof (cases op)
    case Run
    obtain pb1 ph1 ds1 where 1: "run_task E pb = Returns pb1" "pb_inv seg p s T recv out ph1 ds1 pb1" "pb_srcpad pb1 = pb_srcpad pb" "pb_eos pb1 = pb_eos pb"
      and ph1: "pb_srcpad pb \<longrightarrow> ph1 \<noteq> SegmentPending"
      using inv_run [OF assms Cons.prems(1)] by (metis phase.distinct(1,3,5))
    have "pb_srcpad pb" if "ph \<noteq> SegmentPending"
      using that Cons.prems(1) by (cases ph) (auto simp: pb_inv_def)
    with 1 ph1 Cons.IH [of recv ph1 ds1 pb1] Cons.prems Run show ?thesis
      by (auto simp: has_buffer_def)
  next
    case (Push item)
    show ?thesis
    proof (cases item)
      case (PadBuffer b)
      then obtain pb1 where 1: "pb_step E (Push (PadBuffer b)) pb = Returns pb1" "pb_inv seg p s T (recv @ b_data b) out ph ds pb1" "pb_srcpad pb1" "\<not> pb_eos pb1"
        using inv_push [OF assms Cons.prems(1,2), of b] Cons.prems(3,4) Push by auto
      with Cons.IH [of "recv @ b_data b" ph ds pb1] Cons.prems Push PadBuffer show ?thesis
        by (auto simp: add.assoc)
    next
      case (PadEvent ev)
      with Cons.prems(3) Push obtain m where "ev = Caps m"
        by auto
      with Cons.IH [of recv ph ds pb] Cons.prems Push PadEvent show ?thesis
        by (auto simp: progress_buffer_sink_event_def has_buffer_def)
    qed
  qed
qed (auto simp: has_buffer_def)


subsection \<open>Everything arrives\<close>

fun rank :: "phase \<Rightarrow> octet list \<Rightarrow> octet list list \<Rightarrow> nat" where
  "rank SegmentPending recv ds = length recv + 3"
| "rank Streaming recv ds = length recv - length (concat ds) + 2"
| "rank EosPending recv ds = 1"
| "rank Done recv ds = 0"

lemma drain:
  assumes "smooth E" "s + length recv = T"
  shows "pb_inv seg p s T recv out ph ds pb \<Longrightarrow> pb_srcpad pb \<Longrightarrow> rank ph recv ds \<le> k \<Longrightarrow>
    \<exists>pb' ds'. pb_run E (replicate k Run) pb = Returns pb' \<and> pb_inv seg p s T recv out Done ds' pb'"
proof (induction k arbitrary: ph ds pb)
  case 0
  then have "ph = Done"
    by (cases ph) auto
  with 0 show ?case
    by auto
next
  case (Suc k)
  obtain pb1 ph1 ds1 where 1: "run_task E pb = Returns pb1" "pb_inv seg p s T recv out ph1 ds1 pb1" "pb_srcpad pb1"
    and ph1: "(ph = SegmentPending \<and> ph1 = Streaming \<and> ds1 = ds) \<or>
      (ph = Streaming \<and> concat ds = drop (p - s) recv \<and> ph1 = Streaming \<and> ds1 = ds \<and> s + length recv < T) \<or>
      (ph = Streaming \<and> length (concat ds) < length (concat ds1) \<and> (ph1 = Streaming \<or> ph1 = EosPending)) \<or>
      ((ph = EosPending \<or> ph = Done) \<and> ph1 = Done \<and> ds1 = ds)"
    using inv_run [OF assms(1) Suc.prems(1)] Suc.prems(2) by (metis (no_types, lifting))
  have "length (concat ds1) \<le> length recv"
    using inv_output [OF 1(2)] prefix_length_le [of "concat ds1" "drop (p - s) recv"] by auto
  then have "rank ph1 recv ds1 \<le> k"
    using ph1 Suc.prems(3) assms(2) by auto
  with 1 Suc.IH show ?case
    by simp
qed


definition demo_pb_env :: pb_env where
  "demo_pb_env = \<lparr>pe_cache = demo_disk,
     pe_create = \<lparr>cr_malloc = True, cr_filename = True, cr_mkstemp = True, cr_open = True, cr_unlink = True\<rparr>, pe_elapsed = 0,
     pe_linked = True, pe_push = (\<lambda>_. GST_FLOW_OK), pe_push_up = (\<lambda>_ pb. (True, pb)), pe_meanwhile = (\<lambda>pb. pb)\<rparr>"

definition demo_segment :: GstSegment where
  "demo_segment = (gst_segment_init GST_FORMAT_BYTES)\<lparr>sg_update := True, sg_stop := 3\<rparr>"

definition demo_ops :: "pb_op list" where
  "demo_ops = [Push (PadBuffer (new_buffer [1, 2] 0)), Run, Push (PadBuffer (new_buffer [3] 2))]"

lemma demo_pb_ok:
  "smooth demo_pb_env" "byte_segment 0 3 demo_segment" "ready_for demo_segment progress_buffer_new" "feeds 0 demo_ops"
  "arrived demo_ops = [1, 2, 3]"
  by (simp_all add: smooth_def demo_pb_env_def demo_disk_works create_cache_def byte_segment_def demo_segment_def gst_segment_init_def
      ready_for_def progress_buffer_new_def progress_buffer_init_def progress_buffer_flush_data_def demo_ops_def)



subsection \<open>From the source through the buffer\<close>

definition pushes :: "pb_op list \<Rightarrow> pad_item list" where
  "pushes ops = concat (map (\<lambda>op. case op of Push i \<Rightarrow> [i] | Run \<Rightarrow> []) ops)"

lemma pushes_simps [simp]:
  "pushes [] = []" "pushes (Push i # ops) = i # pushes ops" "pushes (Run # ops) = pushes ops" "pushes (xs @ ys) = pushes xs @ pushes ys"
  by (simp_all add: pushes_def)

lemma feeds_pushes: "feeds pos ops \<longleftrightarrow> feeds pos (map Push (pushes ops))" "arrived ops = arrived (map Push (pushes ops))"
  by (induction pos ops rule: feeds.induct) auto

lemma feeds_append: "feeds pos (xs @ ys) \<longleftrightarrow> feeds pos xs \<and> feeds (pos + length (arrived xs)) ys" "arrived (xs @ ys) = arrived xs @ arrived ys"
proof -
  show "feeds pos (xs @ ys) \<longleftrightarrow> feeds pos xs \<and> feeds (pos + length (arrived xs)) ys"
    by (induction pos xs rule: feeds.induct) (auto simp: add.assoc)
  show "arrived (xs @ ys) = arrived xs @ arrived ys"
    by (induction xs rule: arrived.induct) auto
qed

lemma feeds_stamped: "feeds pos (map Push (stamped (int pos) d bs)) \<and> arrived (map Push (stamped (int pos) d bs)) = concat bs"
proof (induction bs arbitrary: pos d)
  case (Cons b bs)
  from Cons [of "pos + length b" False] show ?case
    by simp
qed simp

lemma feeds_caps: "feeds pos (map Push (caps_items el)) \<and> arrived (map Push (caps_items el)) = []"
  by (simp add: caps_items_def split: option.split)

lemma pushes_Cons:
  assumes "pushes ops = i # rest"
  shows "\<exists>n ops'. ops = replicate n Run @ Push i # ops' \<and> pushes ops' = rest"
  using assms
proof (induction ops)
  case (Cons op ops)
  show ?case
  proof (cases op)
    case (Push j)
    with Cons.prems show ?thesis
      by (intro exI [of _ 0] exI [of _ ops]) simp
  next
    case Run
    with Cons obtain n ops' where "ops = replicate n Run @ Push i # ops'" "pushes ops' = rest"
      by auto
    with Run show ?thesis
      by (intro exI [of _ "Suc n"] exI [of _ ops']) simp
  qed
qed simp

lemma idle_runs: "pb_task pb \<noteq> TASK_STARTED \<Longrightarrow> pb_run E (replicate n Run @ ops) pb = pb_run E ops pb"
  by (induction n) (simp_all add: run_task_def)

text \<open>Before the first segment, the start of the stream has no effect.\<close>

lemma skip_stream_start:
  assumes "pb_task pb \<noteq> TASK_STARTED" "\<not> pb_eos pb" "pushes ops = PadEvent StreamStart # PadEvent (Segment seg) # rest"
  shows "\<exists>ops'. (\<forall>E ops''. pb_run E (ops @ ops'') pb = pb_run E (Push (PadEvent (Segment seg)) # ops' @ ops'') pb) \<and> pushes ops' = rest \<and>
    (has_buffer ops \<longrightarrow> has_buffer ops')"
proof -
  obtain n ops1 where 1: "ops = replicate n Run @ Push (PadEvent StreamStart) # ops1" "pushes ops1 = PadEvent (Segment seg) # rest"
    using pushes_Cons [OF assms(3)] by blast
  then obtain k ops2 where 2: "ops1 = replicate k Run @ Push (PadEvent (Segment seg)) # ops2" "pushes ops2 = rest"
    using pushes_Cons by blast
  have "pb_run E (ops @ ops'') pb = pb_run E (Push (PadEvent (Segment seg)) # ops2 @ ops'') pb" for E ops''
    using assms(1,2) by (simp add: 1 2 idle_runs progress_buffer_sink_event_def)
  moreover have "has_buffer ops \<longrightarrow> has_buffer ops2"
    by (auto simp: has_buffer_def 1 2)
  ultimately show ?thesis
    using 2(2) by blast
qed

lemma prefix_full: "prefix xs ys \<Longrightarrow> length xs = length ys \<Longrightarrow> xs = ys"
  by (auto simp: prefix_def)

lemma through_eos:
  assumes "smooth E" "byte_segment s T seg" "ready_for seg pb" "feeds s (ops1 @ ops2)" "s + length (arrived (ops1 @ ops2)) = T"
    "has_buffer ops1" "length (arrived (ops1 @ ops2)) + 3 \<le> k"
  shows "\<exists>pb' ds. pb_run E (Push (PadEvent (Segment seg)) # ops1 @ Run # ops2 @ Push (PadEvent Eos) # replicate k Run) pb = Returns pb' \<and>
    [] \<notin> set ds \<and> concat ds = arrived (ops1 @ ops2) \<and>
    pb_out pb' = pb_out pb @ PadEvent (Segment seg) # stamped (int s) False ds @ [PadEvent Eos] \<and> pb_task pb' = TASK_PAUSED"
proof -
  obtain pb1 where 1: "pb_step E (Push (PadEvent (Segment seg))) pb = Returns pb1" "pb_inv seg s s T [] (pb_out pb) SegmentPending [] pb1" "\<not> pb_eos pb1"
    using inv_segment [OF assms(1-3)] by blast
  have f: "feeds s ops1" "feeds (s + length (arrived ops1)) ops2" "s + length (arrived ops1) + length (arrived ops2) = T"
    using assms(4,5) by (simp_all add: feeds_append)
  obtain pb2 ph2 ds2 where 2: "pb_run E ops1 pb1 = Returns pb2" "pb_inv seg s s T (arrived ops1) (pb_out pb) ph2 ds2 pb2" "pb_srcpad pb2" "\<not> pb_eos pb2"
    using inv_ops [OF assms(1) 1(2,3), of ops1] f assms(6) by auto
  obtain pb3 ph3 ds3 where 3: "run_task E pb2 = Returns pb3" "pb_inv seg s s T (arrived ops1) (pb_out pb) ph3 ds3 pb3" "\<not> pb_eos pb3"
      "pb_srcpad pb3" "ph3 \<noteq> SegmentPending"
    using inv_run [OF assms(1) 2(2)] 2(3,4) by (metis phase.distinct(1,3,5))
  obtain pb4 ph4 ds4 where 4: "pb_run E ops2 pb3 = Returns pb4" "pb_inv seg s s T (arrived ops1 @ arrived ops2) (pb_out pb) ph4 ds4 pb4" "\<not> pb_eos pb4"
      "ph4 \<noteq> SegmentPending"
    using inv_ops [OF assms(1) 3(2,3) f(2)] f(3) 3(5) by auto
  have T: "s + length (arrived ops1 @ arrived ops2) = T"
    using f(3) by simp
  obtain pb5 where 5: "pb_step E (Push (PadEvent Eos)) pb4 = Returns pb5" "pb_inv seg s s T (arrived ops1 @ arrived ops2) (pb_out pb) ph4 ds4 pb5" "pb_srcpad pb5"
    using inv_eos [OF assms(1) 4(2) T 4(4,3)] by blast
  have "rank ph4 (arrived ops1 @ arrived ops2) ds4 \<le> k"
    using assms(7) by (cases ph4) (auto simp: feeds_append)
  then obtain pb6 ds where 6: "pb_run E (replicate k Run) pb5 = Returns pb6" "pb_inv seg s s T (arrived ops1 @ arrived ops2) (pb_out pb) Done ds pb6"
    using drain [OF assms(1) T 5(2,3)] by blast
  note o = inv_output [OF 6(2)]
  then have "concat ds = arrived (ops1 @ ops2)"
    using T by (intro prefix_full) (simp_all add: feeds_append)
  with o 1(1) 2(1) 3(1) 4(1) 5(1) 6(1) show ?thesis
    by (intro exI [of _ pb6] exI [of _ ds]) (simp add: pb_run_append)
qed

text \<open>C2: Source and progress buffer together: for any division of the media into blocks by the Java side, and any interleaving of
  the streaming thread with the task of the buffer in which the task runs at least once between the first buffer and the end
  of the stream, what the demuxer receives is one segment that covers the media, buffers that hold exactly the bytes of the media
  in order, and end of stream.\<close>

theorem media_through_progress_buffer:
  assumes "undisturbed E" "js_mode el = MODE_DEFAULT" "srcpad_out el = []" "[] \<notin> set bs" "bs \<noteq> []"
    "js_size el = int (length (concat bs))" "length (concat bs) < 2 ^ 63" "smooth F"
    "pushes (ops1 @ ops2) @ [PadEvent Eos] = srcpad_out (js_run (E # E # map (block_env E) bs @ [end_env E]) (start_streaming el))"
    "has_buffer ops1" "length (concat bs) + 3 \<le> k"
  shows "\<exists>pb' ds seg. pb_run F (ops1 @ Run # ops2 @ Push (PadEvent Eos) # replicate k Run) progress_buffer_new = Returns pb' \<and>
    byte_segment 0 (length (concat bs)) seg \<and> [] \<notin> set ds \<and> concat ds = concat bs \<and>
    pb_out pb' = PadEvent (Segment seg) # stamped 0 False ds @ [PadEvent Eos] \<and> pb_task pb' = TASK_PAUSED"
proof -
  define seg where "seg = plain_segment (el\<lparr>js_position := 0, js_update := True\<rparr>)"
  have items: "pushes ops1 @ pushes ops2 = PadEvent StreamStart # PadEvent (Segment seg) # caps_items el @ stamped 0 False bs"
    using stream_from_start [OF assms(1,2,4,5)] assms(3,9) by (simp add: seg_def Let_def)
  obtain b where b: "PadBuffer b \<in> set (pushes ops1)"
    using assms(10) by (auto simp: has_buffer_def pushes_def)
  obtain rest where rest: "pushes ops1 = PadEvent StreamStart # PadEvent (Segment seg) # rest" "rest @ pushes ops2 = caps_items el @ stamped 0 False bs"
  proof (cases "pushes ops1")
    case (Cons i tl)
    with items b that show ?thesis
      by (cases tl) auto
  qed (use b in simp)
  have new: "pb_task progress_buffer_new \<noteq> TASK_STARTED" "\<not> pb_eos progress_buffer_new" "ready_for seg progress_buffer_new"
      "pb_out progress_buffer_new = []"
    by (simp_all add: progress_buffer_new_def progress_buffer_init_def progress_buffer_flush_data_def ready_for_def seg_def plain_segment_def)
  obtain ops1' where ops1': "\<And>ops''. pb_run F (ops1 @ ops'') progress_buffer_new = pb_run F (Push (PadEvent (Segment seg)) # ops1' @ ops'') progress_buffer_new"
      "pushes ops1' = rest" "has_buffer ops1'"
    using skip_stream_start [OF new(1,2) rest(1)] assms(10) by auto
  have "concat bs \<noteq> []"
    using assms(4,5) by (cases bs) auto
  then have seg: "byte_segment 0 (length (concat bs)) seg"
    using assms(6,7) by (simp add: byte_segment_def seg_def plain_segment_def gst_segment_init_def)
  have p: "pushes (ops1' @ ops2) = caps_items el @ stamped 0 False bs"
    using ops1'(2) rest(2) by simp
  have f: "feeds 0 (ops1' @ ops2)" "arrived (ops1' @ ops2) = concat bs"
    unfolding feeds_pushes(1) [of 0 "ops1' @ ops2"] feeds_pushes(2) [of "ops1' @ ops2"] p
    using feeds_stamped [of 0 False bs] feeds_caps [of 0 el] by (simp_all add: feeds_append)
  show ?thesis
    unfolding ops1'(1)
    using through_eos [OF assms(8) seg new(3) f(1) _ ops1'(3), of k] seg new(4) f(2) assms(11) by auto
qed

theorem media_through_progress_buffer_witness:
  "\<exists>pb' ds seg. pb_run demo_pb_env
      ([Push (PadEvent StreamStart), Push (PadEvent (Segment (plain_segment (demo_source\<lparr>js_position := 0, js_update := True\<rparr>)))),
        Push (PadEvent (Caps ''audio/mpeg, mpegversion=(int)4'')), Push (PadBuffer (new_buffer [1, 2] 0))] @ Run #
       [Push (PadBuffer (new_buffer [3] 2))] @ Push (PadEvent Eos) # replicate 6 Run) progress_buffer_new = Returns pb' \<and>
    concat ds = [1, 2, 3] \<and> pb_out pb' = PadEvent (Segment seg) # stamped 0 False ds @ [PadEvent Eos]"
proof -
  have "srcpad_out (js_run (demo_env # demo_env # map (block_env demo_env) [[1, 2], [3]] @ [end_env demo_env]) (start_streaming demo_source)) =
    [PadEvent StreamStart, PadEvent (Segment (plain_segment (demo_source\<lparr>js_position := 0, js_update := True\<rparr>))),
     PadEvent (Caps ''audio/mpeg, mpegversion=(int)4''), PadBuffer (new_buffer [1, 2] 0), PadBuffer (new_buffer [3] 2), PadEvent Eos]"
    using stream_from_start [OF demo_env_undisturbed, of demo_source "[[1, 2], [3]]"]
    by (simp add: demo_source_def java_source_new_def java_source_init_def Let_def new_buffer_def caps_items_def str_contains_def)
  then show ?thesis
    using media_through_progress_buffer [OF demo_env_undisturbed, of demo_source "[[1, 2], [3]]" demo_pb_env
      "[Push (PadEvent StreamStart), Push (PadEvent (Segment (plain_segment (demo_source\<lparr>js_position := 0, js_update := True\<rparr>)))),
        Push (PadEvent (Caps ''audio/mpeg, mpegversion=(int)4'')), Push (PadBuffer (new_buffer [1, 2] 0))]"
      "[Push (PadBuffer (new_buffer [3] 2))]" 6] demo_pb_ok(1)
    by (auto simp: demo_source_def java_source_new_def java_source_init_def has_buffer_def)
qed

subsection \<open>Seeking in the buffer\<close>

definition seek_segment :: "GstSeek \<Rightarrow> nat \<Rightarrow> GstSegment" where
  "seek_segment sk T = (gst_segment_init GST_FORMAT_BYTES)
     \<lparr>sg_rate := sk_rate sk, sg_start := word_of_int (sk_start sk), sg_stop := of_nat T, sg_position := word_of_int (sk_start sk)\<rparr>"

definition flushing_byte_seek :: "nat \<Rightarrow> GstSeek \<Rightarrow> bool" where
  "flushing_byte_seek q sk \<longleftrightarrow> sk_format sk = GST_FORMAT_BYTES \<and> sk_set sk \<and> sk_stop_none sk \<and> sk_flush sk \<and> sk_start sk = int q"

lemma inv_seek:
  assumes "pb_inv seg p s T recv out ph ds pb" "pb_srcpad pb" "flushing_byte_seek q sk" "s \<le> q" "q < T" "q \<le> s + length recv"
    "sg_start (sink_segment pb) = of_nat s" "0 \<le> bandwidth pb * wait_tolerance pb"
  shows "\<exists>pb'. progress_buffer_perform_push_seek E sk pb = Returns (True, pb') \<and> pb_srcpad pb' \<and>
    pb_inv (seek_segment sk T) q s T recv (pb_out pb @ [PadEvent FlushStart, PadEvent FlushStop]) SegmentPending [] pb'"
proof -
  from assms(1) obtain c where c: "pb_cache pb = Some c" "queue_ok c" "stored c = recv"
    and inv: "T < 2 ^ 63" "s + length recv \<le> T" "cache_read_offset pb = int s" "\<not> unexpected pb"
      "sg_position (sink_segment pb) = of_nat (s + length recv)" "sg_stop (sink_segment pb) = of_nat T" "pb_eos pb \<longrightarrow> s + length recv = T"
    by (auto simp: pb_inv_def)
  have sk: "sk_format sk = GST_FORMAT_BYTES" "sk_set sk" "sk_stop_none sk" "sk_flush sk" "sk_start sk = int q"
    using assms(3) by (simp_all add: flushing_byte_seek_def)
  have w: "(of_nat s :: u64) \<le> of_nat q"
    using u64_of_nat_le [of s q] assms(4,5) inv(1) by simp
  have "sint (of_nat (s + length recv) :: u64) = int (s + length recv)"
    using inv(1,2) by (intro sint_of_nat_small) simp
  then have near: "real_of_int (int q - sint (sg_position (sink_segment pb))) \<le> bandwidth pb * wait_tolerance pb"
    using assms(6,8) unfolding inv(5) by simp
  define c' where "c' = snd (cache_set_read_position (int q - int s) c)"
  have c': "cache_ok c'" "read_position c' = int (q - s)" "stored c' = recv"
    using set_position_ok [of c "int q - int s"] c(2,3) assms(4) by (simp_all add: c'_def queue_ok_def of_nat_diff)
  then have "read_position c' \<le> write_position c'"
    using assms(4,6) length_stored [OF c'(1)] by (auto simp: cache_ok_def)
  then have q: "queue_ok c'"
    using c'(1) by (simp add: queue_ok_def)
  define pb' where "pb' = pb\<lparr>pb_srcresult := GST_FLOW_OK, instant_seek := True, pb_cache := Some c', pending_src_event := Some (Segment (seek_segment sk T)),
      pb_out := pb_out pb @ [PadEvent FlushStart, PadEvent FlushStop], pb_task := TASK_STARTED\<rparr>"
  have "progress_buffer_perform_push_seek E sk pb = Returns (True, pb')"
    using sk c(1) w near assms(7) inv(3,6)
    by (simp add: progress_buffer_perform_push_seek_def seek_in_reach_def seek_in_cache_def pb_send_def Let_def
        progress_buffer_set_pending_event_def pb'_def c'_def seek_segment_def)
  moreover have "pb_inv (seek_segment sk T) q s T recv (pb_out pb @ [PadEvent FlushStart, PadEvent FlushStop]) SegmentPending [] pb'"
    using c' q inv assms(2,4-6) unfolding pb_inv_def by (intro conjI exI [of _ c']) (auto simp: pb'_def)
  ultimately show ?thesis
    using assms(2) by (intro exI [of _ pb']) (simp add: pb'_def)
qed

text \<open>C30: After a flushing seek to a byte that has been downloaded, in whatever state the stream was, the task replays the media from
  exactly there: once the media is complete, downstream receives the flush, a segment from the new position, buffers that hold
  the bytes from this position to the end at their offsets, and end of stream.\<close>

theorem progress_buffer_seek_replays:
  assumes "smooth E" "pb_inv seg p s T recv out ph ds pb" "pb_srcpad pb" "flushing_byte_seek q sk" "s \<le> q" "q < T" "s + length recv = T"
    "sg_start (sink_segment pb) = of_nat s" "0 \<le> bandwidth pb * wait_tolerance pb" "length recv + 3 \<le> k"
  shows "\<exists>pb1 pb2 ds'. progress_buffer_perform_push_seek E sk pb = Returns (True, pb1) \<and> pb_run E (replicate k Run) pb1 = Returns pb2 \<and>
    [] \<notin> set ds' \<and> concat ds' = drop (q - s) recv \<and>
    pb_out pb2 = pb_out pb @ [PadEvent FlushStart, PadEvent FlushStop, PadEvent (Segment (seek_segment sk T))] @ stamped (int q) False ds' @ [PadEvent Eos]"
proof -
  obtain pb1 where 1: "progress_buffer_perform_push_seek E sk pb = Returns (True, pb1)" "pb_srcpad pb1"
      "pb_inv (seek_segment sk T) q s T recv (pb_out pb @ [PadEvent FlushStart, PadEvent FlushStop]) SegmentPending [] pb1"
    using inv_seek [OF assms(2-6) _ assms(8,9)] assms(6,7) by auto
  obtain pb2 ds' where 2: "pb_run E (replicate k Run) pb1 = Returns pb2"
      "pb_inv (seek_segment sk T) q s T recv (pb_out pb @ [PadEvent FlushStart, PadEvent FlushStop]) Done ds' pb2"
    using drain [OF assms(1,7) 1(3,2), of k] assms(10) by auto
  note o = inv_output [OF 2(2)]
  then have "concat ds' = drop (q - s) recv"
    using assms(5,7) by (intro prefix_full) auto
  with o 1(1) 2(1) show ?thesis
    by (intro exI [of _ pb1] exI [of _ pb2] exI [of _ ds']) simp
qed

definition demo_downloaded :: ProgressBuffer where
  "demo_downloaded = progress_buffer_new\<lparr>pb_cache := Some (cache_write_buffer demo_disk [1, 2, 3] empty_cache),
     sink_segment := demo_segment\<lparr>sg_stop := 5, sg_position := 3\<rparr>, pending_src_event := Some (Segment demo_segment), instant_seek := True\<rparr>"

definition demo_complete :: ProgressBuffer where
  "demo_complete = demo_downloaded\<lparr>sink_segment := demo_segment\<lparr>sg_position := 3\<rparr>, pb_srcpad := True, pb_task := TASK_STARTED\<rparr>"

lemma demo_downloaded_inv: "pb_inv demo_segment 0 0 5 [1, 2, 3] [] SegmentPending [] demo_downloaded"
  "pb_inv demo_segment 0 0 3 [1, 2, 3] [] SegmentPending [] demo_complete"
proof -
  have "queue_ok (cache_write_buffer demo_disk [1, 2, 3] empty_cache)" "stored (cache_write_buffer demo_disk [1, 2, 3] empty_cache) = [1, 2, 3]"
      "read_position (cache_write_buffer demo_disk [1, 2, 3] empty_cache) = 0"
    using demo_disk_works queue_put [of demo_disk empty_cache "[1, 2, 3]"] write_ok [of empty_cache demo_disk "[1, 2, 3]"] works_write [of demo_disk "[1, 2, 3]"]
    by (simp_all add: queue_ok_def) (simp_all add: empty_cache_def demo_disk_def stored_def)
  then show "pb_inv demo_segment 0 0 5 [1, 2, 3] [] SegmentPending [] demo_downloaded"
      "pb_inv demo_segment 0 0 3 [1, 2, 3] [] SegmentPending [] demo_complete"
    by (simp_all add: pb_inv_def demo_downloaded_def demo_complete_def progress_buffer_new_def progress_buffer_init_def progress_buffer_flush_data_def demo_segment_def)
qed

theorem progress_buffer_seek_replays_witness:
  "\<exists>pb1 pb2 ds'. progress_buffer_perform_push_seek demo_pb_env demo_seek demo_complete = Returns (True, pb1) \<and>
     pb_run demo_pb_env (replicate 6 Run) pb1 = Returns pb2 \<and> concat ds' = [2, 3] \<and>
     pb_out pb2 = [PadEvent FlushStart, PadEvent FlushStop, PadEvent (Segment (seek_segment demo_seek 3))] @ stamped 1 False ds' @ [PadEvent Eos]"
proof -
  have "flushing_byte_seek 1 demo_seek" "pb_srcpad demo_complete" "pb_out demo_complete = []" "bandwidth demo_complete = 0"
      "sg_start (sink_segment demo_complete) = 0"
    by (simp_all add: flushing_byte_seek_def demo_seek_def demo_complete_def demo_downloaded_def progress_buffer_new_def progress_buffer_init_def
        progress_buffer_flush_data_def demo_segment_def gst_segment_init_def)
  with progress_buffer_seek_replays [OF demo_pb_ok(1) demo_downloaded_inv(2), of 1 demo_seek 6] show ?thesis
    by auto
qed

end
