(* ===== verification/Progress_Pull.thy ===== *)
theory Progress_Pull
  imports Progress_Streams
begin

text \<open>
  The progress buffer in pull mode: requests are answered exactly, and refused ones announced when they can be served.  Then
  what \<^verbatim>\<open>progressbuffer.c\<close> gets wrong: events it drops, an end of stream it never sends, a flush it overlooks.
\<close>

subsection \<open>Pull mode\<close>

lemma sint_u64_small: "unat (w :: u64) < 2 ^ 63 \<Longrightarrow> sint w = int (unat w)"
  using sint_of_nat_small [of "unat w"] by simp

lemma u64_trans: "(a :: u64) \<le> b \<Longrightarrow> unat a \<le> unat b"
  by (simp add: word_le_nat_alt)


definition demo_full_env :: pb_env where
  "demo_full_env = demo_pb_env\<lparr>pe_cache := demo_disk\<lparr>ce_read := int\<rparr>\<rparr>"




subsection \<open>What goes wrong\<close>

text \<open>End of stream that arrives before the task has run drops the segment event: downstream gets data without a segment.\<close>

theorem eos_drops_pending_segment:
  assumes "pb_inv seg p s T recv out SegmentPending ds pb" "\<not> pb_eos pb"
  shows "\<exists>pb'. pb_step E (Push (PadEvent Eos)) pb = Returns pb' \<and> pending_src_event pb' = None \<and> pb_out pb' = out"
proof -
  obtain l m where "snd (send_position_message True pb1) = pb1\<lparr>last_update := l pb1, pb_bus := m pb1\<rparr>" for pb1
    using send_position_frame by metis
  then show ?thesis
    using assms by (auto simp: pb_inv_def progress_buffer_sink_event_def enqueue_eos_def progress_buffer_set_pending_event_def Let_def)
qed

text \<open>When the source ends before the size it announced and the task has already sent everything, end of stream is never sent: the
  task waits for ever.\<close>

lemma starved_runs:
  assumes "pb_cache pb = Some c" "\<not> cache_has_enough_data c" "pb_srcresult pb = GST_FLOW_OK" "pending_src_event pb = None" "pb_task pb = TASK_STARTED"
  shows "\<exists>m. pb_run E (replicate k Run) pb = Returns (pb\<lparr>pb_bus := m\<rparr>)"
  using assms
proof (induction k arbitrary: pb)
  case 0
  then show ?case
    by (intro exI [of _ "pb_bus pb"]) simp
next
  case (Suc k)
  define pb1 where "pb1 = (if instant_seek pb then post UnderrunMessage pb else pb)"
  have "run_task E pb = Returns pb1"
    using Suc.prems by (simp add: run_task_def progress_buffer_loop_def must_wait_def wait_for_data_def pb1_def)
  moreover have "pb_cache pb1 = Some c" "pb_srcresult pb1 = GST_FLOW_OK" "pending_src_event pb1 = None" "pb_task pb1 = TASK_STARTED"
    using Suc.prems by (simp_all add: pb1_def post_def)
  then obtain m where "pb_run E (replicate k Run) pb1 = Returns (pb1\<lparr>pb_bus := m\<rparr>)"
    using Suc.IH [of pb1] Suc.prems(2) by blast
  ultimately show ?case
    by (intro exI [of _ m]) (simp add: pb1_def post_def)
qed

theorem truncated_stream_never_ends:
  assumes "pb_inv seg p s T recv out Streaming ds pb" "concat ds = drop (p - s) recv" "s + length recv < T"
  shows "\<exists>pb'. pb_run E (Push (PadEvent Eos) # replicate k Run) pb = Returns pb' \<and> pb_out pb' = pb_out pb \<and> pb_task pb' = TASK_STARTED"
proof -
  from assms obtain c where c: "pb_cache pb = Some c" "queue_ok c" "stored c = recv" "concat ds = drop (p - s) (take (nat (read_position c)) recv)" "p - s \<le> nat (read_position c)"
      "phase_ok Streaming seg p s T (nat (read_position c)) ds out pb" "\<not> pb_eos pb"
    by (auto simp: pb_inv_def)
  have "nat (read_position c) = length (stored c)"
    using arg_cong [OF c(4), of length] c(3,5) assms(2) read_le_stored [OF c(2)] by simp
  then have none: "\<not> cache_has_enough_data c"
    using c(2) has_data_pending [of c] by (auto simp: queue_ok_def pending_def)
  obtain l m where f: "snd (send_position_message True pb1) = pb1\<lparr>last_update := l pb1, pb_bus := m pb1\<rparr>" for pb1
    using send_position_frame by metis
  define sg where "sg = (if sg_position (sink_segment pb) < sg_stop (sink_segment pb)
      then (sink_segment pb)\<lparr>sg_stop := sg_position (sink_segment pb)\<rparr> else sink_segment pb)"
  have "enqueue_eos pb = snd (send_position_message True (pb\<lparr>pb_eos := True, sink_segment := sg, pending_src_event := None\<rparr>))"
    using c(6) by (simp add: enqueue_eos_def progress_buffer_set_pending_event_def sg_def Let_def)
  then obtain lu bus where step: "pb_step E (Push (PadEvent Eos)) pb =
      Returns (pb\<lparr>pb_eos := True, sink_segment := sg, pending_src_event := None, last_update := lu, pb_bus := bus\<rparr>)"
    using c(7) f by (simp add: progress_buffer_sink_event_def)
  then show ?thesis
    using starved_runs [of "pb\<lparr>pb_eos := True, sink_segment := sg, pending_src_event := None, last_update := lu, pb_bus := bus\<rparr>" c E k] c none
    by auto
qed

text \<open>A flush that another thread requests while a buffer is being pushed is overwritten with the result of the push.\<close>

theorem flush_request_lost:
  assumes "pe_meanwhile E = (\<lambda>pb. pb\<lparr>pb_srcresult := GST_FLOW_FLUSHING\<rparr>)" "\<And>b. pe_push E b = GST_FLOW_OK" "works (pe_cache E)"
    "pb_inv seg p s T recv out Streaming ds pb" "concat ds \<noteq> drop (p - s) recv"
  shows "\<exists>pb'. progress_buffer_loop E pb = Ends pb' \<and> pb_srcresult pb' = GST_FLOW_OK \<and> pb_task pb' = TASK_STARTED"
proof -
  from assms(4) obtain c where c: "pb_cache pb = Some c" "queue_ok c" "stored c = recv" "concat ds = drop (p - s) (take (nat (read_position c)) recv)" "p - s \<le> nat (read_position c)"
      "phase_ok Streaming seg p s T (nat (read_position c)) ds out pb"
    and inv: "cache_read_offset pb = int s" "sg_stop (sink_segment pb) = of_nat T" "s + length recv \<le> T" "T < 2 ^ 63" "instant_seek pb"
    by (auto simp: pb_inv_def)
  have "pending c \<noteq> []"
    using c assms(5) by (auto simp: pending_def)
  then obtain b pb1 where nb: "next_buffer E c pb = Some (b, pb1)" "pb_task pb1 = pb_task pb"
    using next_buffer_smooth [OF assms(3) c(2) _ inv(1,2) _ inv(4)] inv(3) c(3) by auto
  have "cache_has_enough_data c"
    using \<open>pending c \<noteq> []\<close> c(2) by (simp add: has_data_pending queue_ok_def)
  with nb c inv assms(1,2) show ?thesis
    by (simp add: progress_buffer_loop_def must_wait_def pb_send_def pause_unless_ok_def Let_def)
qed

text \<open>A read of the disk that fails is not noticed: the code goes on with a null pointer.\<close>

theorem failed_read_crashes:
  assumes "pb_cache pb = Some c" "cache_has_enough_data c" "instant_seek pb" "pb_srcresult pb = GST_FLOW_OK" "pending_src_event pb = None"
    "\<And>n. ce_read (pe_cache E) n = - 1"
  shows "progress_buffer_loop E pb = Crashes"
  using assms
  by (simp add: progress_buffer_loop_def must_wait_def next_buffer_def cache_read_buffer_def posix_read_def transferred_def Let_def)

text \<open>The test for content without an end compares unsigned numbers: a segment of a stream of unknown size passes it.\<close>

theorem unlimited_content_accepted:
  assumes "smooth E" "sg_format seg = GST_FORMAT_BYTES" "sg_start seg = 0" "sg_stop seg = word_of_int (- 1)" "sg_update seg"
  shows "\<exists>pb'. enqueue_segment E seg pb = Returns (GST_FLOW_OK, pb')"
  using assms by (auto simp: enqueue_segment_def smooth_def Let_def)

text \<open>After a seek of the source the cache starts with the first byte of the new segment, but pull mode looks for a byte at its
  position in the media.\<close>

theorem getrange_after_seek_misses:
  assumes "pb_inv seg p s T recv out ph ds pb" "sg_start (sink_segment pb) = of_nat s" "0 < unat n" "unat n \<le> length recv"
    "\<forall>c. pb_cache pb = Some c \<longrightarrow> length (c_file c) \<le> s"
  shows "\<exists>pb'. progress_buffer_getrange E (of_nat s) n pb = Returns ((GST_FLOW_ERROR, None), pb')"
proof -
  from assms obtain c where c: "pb_cache pb = Some c" "queue_ok c" "length (c_file c) \<le> s"
    and inv: "sg_position (sink_segment pb) = of_nat (s + length recv)" "sg_stop (sink_segment pb) = of_nat T" "s + length recv \<le> T" "T < 2 ^ 63"
    by (auto simp: pb_inv_def)
  have s: "unat (of_nat s :: u64) = s" "unat (of_nat T :: u64) = T" "unat (of_nat (s + length recv) :: u64) = s + length recv"
    using inv by (simp_all add: u64_of_nat_small del: of_nat_add)
  have e: "unat (of_nat s + ucast n :: u64) = s + unat n"
    using inv assms(4) s(1) by (subst unat_add_fits) simp_all
  have "progress_buffer_getrange E (of_nat s) n pb =
    (case cache_read_buffer_from_position (pe_cache E) (int s) (uint n) c of
       (result, cache) \<Rightarrow> Returns (result, pb\<lparr>pb_cache := Some cache\<rparr>))"
    using inv assms(2,4) c(1) sint_of_nat_small [of s]
    by (simp add: progress_buffer_getrange_def word_less_nat_alt word_le_nat_alt e s Let_def del: of_nat_add)
  moreover have "fst (cache_read_buffer_from_position (pe_cache E) (int s) (uint n) c) = (GST_FLOW_ERROR, None)"
  proof -
    define c1 where "c1 = snd (cache_set_read_position (int s) c)"
    have c1: "cache_set_read_position (int s) c = (True, c1)" "readHandle c1 = int s" "c_file c1 = c_file c"
      using c(2) by (auto simp: c1_def cache_defs queue_ok_def cache_ok_def)
    then have rd: "posix_read (pe_cache E) (uint n) c1 = (if transferred (ce_read (pe_cache E)) 0 < 0 then (None, c1) else (Some [], c1))"
      using c(3) transferred_le [of "ce_read (pe_cache E)" 0] by (auto simp: posix_read_def Let_def)
    have "uint n \<noteq> 0"
      using assms(3) by (metis less_irrefl nat_0_iff nat_uint_eq order_refl)
    then show ?thesis
      by (simp add: cache_read_buffer_from_position_def c1(1) rd)
  qed
  ultimately show ?thesis
    by (auto split: prod.splits)
qed

text \<open>Going back to \<^verbatim>\<open>READY\<close> forgets the pending event without releasing it.\<close>

theorem flush_leaks_event:
  assumes "pending_src_event pb = Some ev" "parent = (\<lambda>pb. (True, pb))"
  shows "pb_leaked (snd (progress_buffer_change_state parent PAUSED_TO_READY pb)) = pb_leaked pb @ [ev]"
  using assms by (simp add: progress_buffer_change_state_def progress_buffer_flush_data_def)

text \<open>A first segment makes a new cache but keeps the offset of an earlier seek.\<close>

theorem update_keeps_old_offset:
  assumes "smooth E" "byte_segment 0 T seg" "sg_update seg" "enqueue_segment E seg pb = Returns (GST_FLOW_OK, pb')"
  shows "cache_read_offset pb' = cache_read_offset pb \<and> sg_start (sink_segment pb') = 0"
proof -
  obtain l m where f: "snd (send_position_message True pb1) = pb1\<lparr>last_update := l pb1, pb_bus := m pb1\<rparr>" for pb1
    using send_position_frame by metis
  show ?thesis
    using assms
    by (auto simp: enqueue_segment_def f smooth_def byte_segment_def progress_buffer_set_pending_event_def Let_def split: if_splits)
qed

end
