(* ===== verification/HLS_Buffer.thy ===== *)
theory HLS_Buffer
  imports Java_Source File_Cache
begin

text \<open>
  \<^verbatim>\<open>gstreamer/plugins/progressbuffer/hlsprogressbuffer.c\<close>: the buffer for HTTP live streaming, which keeps up to three segments of the
  play list in a ring of file caches.  The thread of the source, which writes, and the task of the element, which reads, wait for
  each other through two condition variables.  The boolean results of the event handler are left out.  An access outside the ring or through a null pointer is \<open>Faults\<close>.
\<close>

subsection \<open>The element\<close>

definition NUM_OF_CACHED_SEGMENTS :: nat where "NUM_OF_CACHED_SEGMENTS = 3"

datatype hls_message = HlsResume | HlsEos | HlsFull | HlsNotFull

text \<open>\<open>waiting_segment\<close> is the local variable of a source thread that waits in the handler of a segment event until a cache is
  free.\<close>

record HLSProgressBuffer =
  hb_cache :: "Cache option list"
  cache_size :: "u32 list"
  cache_write_ready :: "bool list"
  cache_discont :: "bool list"
  cache_write_index :: int
  cache_read_index :: nat
  send_new_segment :: bool
  set_src_caps :: bool
  is_flushing :: bool
  is_eos :: bool
  hb_srcresult :: GstFlowReturn
  buffer_pts :: "u64 option"
  hb_task :: pad_task
  hb_out :: "pad_item list"
  hb_bus :: "hls_message list"
  waiting_segment :: "GstSegment option"

record hls_env =
  he_cache :: cache_env
  he_linked :: bool
  he_push :: "GstBuffer \<Rightarrow> GstFlowReturn"
  he_meanwhile :: "HLSProgressBuffer \<Rightarrow> HLSProgressBuffer"

text \<open>A time stamp; the value \<^verbatim>\<open>GST_CLOCK_TIME_NONE\<close> is none.\<close>

definition clock_time :: "u64 \<Rightarrow> u64 option" where
  "clock_time t = (if t = - 1 then None else Some t)"

definition hb_post :: "hls_message \<Rightarrow> HLSProgressBuffer \<Rightarrow> HLSProgressBuffer" where
  "hb_post m hb = hb\<lparr>hb_bus := hb_bus hb @ [m]\<rparr>"

definition hb_send :: "pad_item \<Rightarrow> HLSProgressBuffer \<Rightarrow> HLSProgressBuffer" where
  "hb_send item hb = hb\<lparr>hb_out := hb_out hb @ [item]\<rparr>"

text \<open>\<open>created\<close> lists the results of the calls of \<^verbatim>\<open>create_cache\<close>.\<close>

definition hls_progress_buffer_init :: "Cache option list \<Rightarrow> HLSProgressBuffer" where
  "hls_progress_buffer_init created =
     \<lparr>hb_cache = created, cache_size = replicate NUM_OF_CACHED_SEGMENTS 0, cache_write_ready = replicate NUM_OF_CACHED_SEGMENTS True,
      cache_discont = replicate NUM_OF_CACHED_SEGMENTS False, cache_write_index = - 1, cache_read_index = 0,
      send_new_segment = True, set_src_caps = True, is_flushing = False, is_eos = False, hb_srcresult = GST_FLOW_OK,
      buffer_pts = None, hb_task = TASK_STOPPED, hb_out = [], hb_bus = [], waiting_segment = None\<rparr>"

definition hls_progress_buffer_activatepush_src :: "hls_env \<Rightarrow> bool \<Rightarrow> HLSProgressBuffer \<Rightarrow> bool \<times> HLSProgressBuffer" where
  "hls_progress_buffer_activatepush_src E active hb =
     (if active then
        let hb = hb\<lparr>hb_srcresult := GST_FLOW_OK\<rparr>
        in (True, if he_linked E then hb\<lparr>hb_task := TASK_STARTED\<rparr> else hb)
      else (True, hb\<lparr>hb_srcresult := GST_FLOW_FLUSHING, hb_task := TASK_STOPPED\<rparr>))"

fun hls_progress_buffer_activatemode :: "hls_env \<Rightarrow> pad_mode \<Rightarrow> bool \<Rightarrow> HLSProgressBuffer \<Rightarrow> bool \<times> HLSProgressBuffer" where
  "hls_progress_buffer_activatemode E GST_PAD_MODE_PUSH active hb = hls_progress_buffer_activatepush_src E active hb"
| "hls_progress_buffer_activatemode E _ active hb = (False, hb)"

text \<open>A cache that could not be created keeps its size and its mark.\<close>

definition hls_progress_buffer_flush_data :: "HLSProgressBuffer \<Rightarrow> HLSProgressBuffer" where
  "hls_progress_buffer_flush_data hb =
     hb\<lparr>hb_srcresult := GST_FLOW_FLUSHING, cache_write_index := - 1, cache_read_index := 0,
        cache_size := map2 (\<lambda>c n. if c = None then n else 0) (hb_cache hb) (cache_size hb),
        cache_write_ready := map2 (\<lambda>c r. if c = None then r else True) (hb_cache hb) (cache_write_ready hb),
        hb_cache := map (map_option cache_reset) (hb_cache hb)\<rparr>"

subsection \<open>Receiving\<close>

definition hls_progress_buffer_chain :: "hls_env \<Rightarrow> GstBuffer \<Rightarrow> HLSProgressBuffer \<Rightarrow> (GstFlowReturn \<times> HLSProgressBuffer) outcome" where
  "hls_progress_buffer_chain E b hb =
     (if is_flushing hb \<or> is_eos hb then Returns (GST_FLOW_FLUSHING, hb)
      else if hb_srcresult hb \<noteq> GST_FLOW_FLUSHING then
        if cache_write_index hb < 0 then Faults
        else let i = nat (cache_write_index hb);
                 hb = (if b_discont b then hb\<lparr>cache_discont := (cache_discont hb)[i := True]\<rparr> else hb)
             in case hb_cache hb ! i of
                  None \<Rightarrow> Faults
                | Some c \<Rightarrow> Returns (GST_FLOW_OK, hb\<lparr>hb_cache := (hb_cache hb)[i := Some (cache_write_buffer (he_cache E) (b_data b) c)]\<rparr>)
      else Returns (GST_FLOW_OK, hb))"

definition time_segment :: "GstSegment \<Rightarrow> GstSegment" where
  "time_segment segment = (gst_segment_init GST_FORMAT_TIME)
     \<lparr>sg_update := sg_update segment, sg_rate := sg_rate segment, sg_start := sg_start segment, sg_stop := - 1,
      sg_position := sg_position segment, sg_time := sg_time segment\<rparr>"

text \<open>The end of the handler of a segment event, once the next cache is free.\<close>

definition claim_cache :: "GstSegment \<Rightarrow> HLSProgressBuffer \<Rightarrow> HLSProgressBuffer outcome" where
  "claim_cache segment hb =
     (if cache_write_index hb < 0 then Faults
      else let i = nat (cache_write_index hb)
           in case hb_cache hb ! i of
                None \<Rightarrow> Faults
              | Some c \<Rightarrow>
                  Returns (hb_post HlsResume
                    (hb\<lparr>cache_size := (cache_size hb)[i := ucast (sg_stop segment)],
                        cache_write_ready := (cache_write_ready hb)[i := False],
                        hb_cache := (hb_cache hb)[i := Some (cache_reset c)], waiting_segment := None\<rparr>)))"

text \<open>The loop that waits for a free cache; it is entered again whenever the thread is woken.\<close>

definition await_cache :: "GstSegment \<Rightarrow> HLSProgressBuffer \<Rightarrow> HLSProgressBuffer outcome" where
  "await_cache segment hb =
     (if hb_srcresult hb = GST_FLOW_OK then
        if cache_write_index hb < 0 then Faults
        else if \<not> cache_write_ready hb ! nat (cache_write_index hb)
        then Returns (hb_post HlsFull (hb\<lparr>waiting_segment := Some segment\<rparr>))
        else claim_cache segment hb
      else claim_cache segment hb)"

definition resume_writer :: "HLSProgressBuffer \<Rightarrow> HLSProgressBuffer outcome" where
  "resume_writer hb =
     (case waiting_segment hb of
        None \<Rightarrow> Returns hb
      | Some segment \<Rightarrow> if hb_srcresult hb \<noteq> GST_FLOW_OK then Returns (hb\<lparr>waiting_segment := None\<rparr>) else await_cache segment hb)"

definition segment_event :: "hls_env \<Rightarrow> GstSegment \<Rightarrow> HLSProgressBuffer \<Rightarrow> HLSProgressBuffer outcome" where
  "segment_event E segment hb =
     (if hb_srcresult hb \<noteq> GST_FLOW_OK then Returns hb
      else let hb = (if is_eos hb
                     then let hb = hb\<lparr>is_eos := False, hb_srcresult := GST_FLOW_OK\<rparr>
                          in if he_linked E then hb\<lparr>hb_task := TASK_STARTED\<rparr> else hb
                     else hb);
               hb = (if send_new_segment hb
                     then hb_send (PadEvent (Segment (time_segment segment)))
                            (hb\<lparr>buffer_pts := clock_time (sg_position segment), send_new_segment := False\<rparr>)
                     else hb);
               hb = hb\<lparr>cache_write_index := (cache_write_index hb + 1) mod int NUM_OF_CACHED_SEGMENTS\<rparr>
           in await_cache segment hb)"

definition hls_progress_buffer_sink_event :: "hls_env \<Rightarrow> GstEvent \<Rightarrow> HLSProgressBuffer \<Rightarrow> HLSProgressBuffer outcome" where
  "hls_progress_buffer_sink_event E event hb =
     (case event of
        Segment segment \<Rightarrow> segment_event E segment hb
      | FlushStart \<Rightarrow>
          let hb = hls_progress_buffer_flush_data (hb_send (PadEvent event) (hb\<lparr>is_flushing := True\<rparr>))
          in Returns (if he_linked E then hb\<lparr>hb_task := TASK_PAUSED\<rparr> else hb)
      | FlushStop \<Rightarrow>
          let hb = (hb_send (PadEvent event) hb)\<lparr>send_new_segment := True, is_flushing := False, hb_srcresult := GST_FLOW_OK\<rparr>
          in Returns (if \<not> is_eos hb \<and> he_linked E then hb\<lparr>hb_task := TASK_STARTED\<rparr> else hb)
      | Eos \<Rightarrow> Returns ((hb_post HlsEos hb)\<lparr>is_eos := True\<rparr>)
      | _ \<Rightarrow> Returns (hb_send (PadEvent event) hb))"

subsection \<open>The streaming task\<close>

datatype hls_loop_result = HEnds HLSProgressBuffer | HWaits HLSProgressBuffer | HCrashes

definition hls_pause :: "GstFlowReturn \<Rightarrow> HLSProgressBuffer \<Rightarrow> hls_loop_result" where
  "hls_pause result hb = HEnds (if result \<noteq> GST_FLOW_OK \<and> \<not> is_flushing hb then hb\<lparr>hb_task := TASK_PAUSED\<rparr> else hb)"

text \<open>A cache whose segment has been read to its end is given back.\<close>

definition release_cache :: "int \<Rightarrow> HLSProgressBuffer \<Rightarrow> HLSProgressBuffer" where
  "release_cache position hb =
     (if (word_of_int position :: u64) = ucast (cache_size hb ! cache_read_index hb)
      then hb_post HlsNotFull
             (hb\<lparr>cache_write_ready := (cache_write_ready hb)[cache_read_index hb := True],
                 cache_read_index := (cache_read_index hb + 1) mod NUM_OF_CACHED_SEGMENTS\<rparr>)
      else hb)"

definition push_result :: "GstFlowReturn \<Rightarrow> HLSProgressBuffer \<Rightarrow> hls_loop_result" where
  "push_result result hb =
     (if hb_srcresult hb = GST_FLOW_OK \<or> result \<noteq> GST_FLOW_OK then hls_pause result (hb\<lparr>hb_srcresult := result\<rparr>)
      else hls_pause (hb_srcresult hb) hb)"

definition read_and_push :: "hls_env \<Rightarrow> Cache \<Rightarrow> HLSProgressBuffer \<Rightarrow> hls_loop_result" where
  "read_and_push E c hb =
     (case cache_read_buffer (he_cache E) c of ((buffer, position), c) \<Rightarrow>
        let i = cache_read_index hb;
            hb = hb\<lparr>hb_cache := (hb_cache hb)[i := Some c]\<rparr>;
            discont = cache_discont hb ! i;
            hb = release_cache position (hb\<lparr>cache_discont := (cache_discont hb)[i := False]\<rparr>)
        in case buffer of
             None \<Rightarrow> if discont \<or> buffer_pts hb \<noteq> None then HCrashes else push_result GST_FLOW_ERROR (he_meanwhile E hb)
           | Some b \<Rightarrow>
               let b = (if discont then b\<lparr>b_discont := True\<rparr> else b);
                   b = (if buffer_pts hb \<noteq> None then b\<lparr>b_pts := buffer_pts hb\<rparr> else b);
                   hb = he_meanwhile E (hb_send (PadBuffer b) (hb\<lparr>buffer_pts := None\<rparr>))
               in push_result (he_push E b) hb)"

definition hls_progress_buffer_loop :: "hls_env \<Rightarrow> HLSProgressBuffer \<Rightarrow> hls_loop_result" where
  "hls_progress_buffer_loop E hb =
     (if hb_srcresult hb \<noteq> GST_FLOW_OK then hls_pause (hb_srcresult hb) hb
      else case hb_cache hb ! cache_read_index hb of
             None \<Rightarrow> HCrashes
           | Some c \<Rightarrow>
               if cache_has_enough_data c then read_and_push E c hb
               else if is_eos hb
               then hls_pause GST_FLOW_FLUSHING ((hb_send (PadEvent Eos) hb)\<lparr>hb_srcresult := GST_FLOW_FLUSHING\<rparr>)
               else HWaits hb)"

subsection \<open>State changes\<close>

definition hls_progress_buffer_change_state ::
  "(HLSProgressBuffer \<Rightarrow> bool \<times> HLSProgressBuffer) \<Rightarrow> state_change \<Rightarrow> HLSProgressBuffer \<Rightarrow> bool \<times> HLSProgressBuffer" where
  "hls_progress_buffer_change_state parent transition hb =
     parent (if transition = PAUSED_TO_READY then hls_progress_buffer_flush_data hb else hb)"

end
