(* ===== verification/HLS_Ring.thy ===== *)
theory HLS_Ring
  imports Java_Streams HLS_Buffer
begin

text \<open>
  The ring of caches of \<^verbatim>\<open>hlsprogressbuffer.c\<close> as a bounded queue of segments: schedules of the thread of the source and the task of
  the element, the invariant of the ring, and what claiming, writing and reading a cache do to it.
\<close>

subsection \<open>Schedules\<close>

text \<open>The thread of the source pushes its next item, or goes on waiting for a free cache; the task runs once.\<close>

datatype hls_turn = SourceTurn | TaskTurn

type_synonym hls_config = "pad_item list \<times> HLSProgressBuffer"

definition source_turn :: "hls_env \<Rightarrow> hls_config \<Rightarrow> hls_config outcome" where
  "source_turn E = (\<lambda>(items, hb).
     if waiting_segment hb \<noteq> None then (case resume_writer hb of Faults \<Rightarrow> Faults | Returns hb \<Rightarrow> Returns (items, hb))
     else case items of
            [] \<Rightarrow> Returns (items, hb)
          | PadBuffer b # items \<Rightarrow>
              (case hls_progress_buffer_chain E b hb of Faults \<Rightarrow> Faults | Returns (_, hb) \<Rightarrow> Returns (items, hb))
          | PadEvent ev # items \<Rightarrow>
              (case hls_progress_buffer_sink_event E ev hb of Faults \<Rightarrow> Faults | Returns hb \<Rightarrow> Returns (items, hb)))"

definition task_turn :: "hls_env \<Rightarrow> hls_config \<Rightarrow> hls_config outcome" where
  "task_turn E = (\<lambda>(items, hb).
     if hb_task hb = TASK_STARTED
     then (case hls_progress_buffer_loop E hb of HEnds hb \<Rightarrow> Returns (items, hb) | HWaits hb \<Rightarrow> Returns (items, hb) | HCrashes \<Rightarrow> Faults)
     else Returns (items, hb))"

fun hls_run :: "hls_env \<Rightarrow> hls_turn list \<Rightarrow> hls_config \<Rightarrow> hls_config outcome" where
  "hls_run E [] cf = Returns cf"
| "hls_run E (SourceTurn # ts) cf = (case source_turn E cf of Faults \<Rightarrow> Faults | Returns cf \<Rightarrow> hls_run E ts cf)"
| "hls_run E (TaskTurn # ts) cf = (case task_turn E cf of Faults \<Rightarrow> Faults | Returns cf \<Rightarrow> hls_run E ts cf)"

lemma hls_run_append: "hls_run E (ts @ ts') cf = (case hls_run E ts cf of Faults \<Rightarrow> Faults | Returns cf \<Rightarrow> hls_run E ts' cf)"
  by (induction E ts cf rule: hls_run.induct) (auto split: outcome.splits)

definition hls_smooth :: "hls_env \<Rightarrow> bool" where
  "hls_smooth E \<longleftrightarrow> works (he_cache E) \<and> he_linked E \<and> (\<forall>b. he_push E b = GST_FLOW_OK) \<and> he_meanwhile E = (\<lambda>hb. hb)"

text \<open>A well-formed stream: each segment event announces how many bytes follow, the caches count them with 32 bits, and the stream
  may end with end of stream.\<close>

fun well_formed :: "nat \<Rightarrow> pad_item list \<Rightarrow> bool" where
  "well_formed n [] \<longleftrightarrow> True"
| "well_formed n (PadBuffer b # items) \<longleftrightarrow> b_data b \<noteq> [] \<and> length (b_data b) \<le> n \<and> well_formed (n - length (b_data b)) items"
| "well_formed n (PadEvent (Segment segment) # items) \<longleftrightarrow>
     n = 0 \<and> 0 < unat (sg_stop segment) \<and> unat (sg_stop segment) < 2 ^ 32 \<and> well_formed (unat (sg_stop segment)) items"
| "well_formed n (PadEvent Eos # items) \<longleftrightarrow> n = 0 \<and> items = []"
| "well_formed n (PadEvent StreamStart # items) \<longleftrightarrow> well_formed n items"
| "well_formed n (PadEvent (Caps _) # items) \<longleftrightarrow> well_formed n items"
| "well_formed n (PadEvent _ # items) \<longleftrightarrow> False"

fun payload :: "pad_item list \<Rightarrow> octet list" where
  "payload [] = []"
| "payload (PadBuffer b # items) = b_data b @ payload items"
| "payload (PadEvent _ # items) = payload items"

lemma payload_append [simp]: "payload (xs @ ys) = payload xs @ payload ys"
  by (induction xs rule: payload.induct) auto

subsection \<open>The ring\<close>

text \<open>\<open>segs\<close> are the segments claimed so far, each with its announced size and the bytes received for it; the first \<open>k\<close> of them have
  been read completely.  Segment \<open>j\<close> lives in cache \<open>j mod 3\<close>.\<close>

definition in_use :: "HLSProgressBuffer \<Rightarrow> nat \<Rightarrow> nat \<times> octet list \<Rightarrow> bool" where
  "in_use hb j seg \<longleftrightarrow> (\<exists>c. hb_cache hb ! (j mod 3) = Some c \<and> queue_ok c \<and> stored c = snd seg) \<and>
     cache_size hb ! (j mod 3) = of_nat (fst seg) \<and> \<not> cache_write_ready hb ! (j mod 3) \<and>
     0 < fst seg \<and> fst seg < 2 ^ 32 \<and> length (snd seg) \<le> fst seg"

definition unread :: "HLSProgressBuffer \<Rightarrow> nat \<Rightarrow> octet list" where
  "unread hb i = (case hb_cache hb ! i of None \<Rightarrow> [] | Some c \<Rightarrow> pending c)"

definition is_free :: "HLSProgressBuffer \<Rightarrow> nat \<Rightarrow> bool" where
  "is_free hb j \<longleftrightarrow> (\<exists>c. hb_cache hb ! (j mod 3) = Some c \<and> queue_ok c \<and> pending c = []) \<and> cache_write_ready hb ! (j mod 3)"

definition ring_ok :: "HLSProgressBuffer \<Rightarrow> (nat \<times> octet list) list \<Rightarrow> nat \<Rightarrow> bool" where
  "ring_ok hb segs k \<longleftrightarrow>
     length (hb_cache hb) = 3 \<and> length (cache_size hb) = 3 \<and> length (cache_write_ready hb) = 3 \<and> length (cache_discont hb) = 3 \<and>
     k \<le> length segs \<and> length segs \<le> k + 3 \<and> cache_read_index hb = k mod 3 \<and>
     (\<forall>j \<in> {k..<k + 3}. if j < length segs then in_use hb j (segs ! j) else is_free hb j) \<and>
     (\<forall>j < length segs. j < k \<or> j < length segs - 1 \<longrightarrow> length (snd (segs ! j)) = fst (segs ! j)) \<and>
     (\<forall>j \<in> {k<..<length segs}. unread hb (j mod 3) = snd (segs ! j)) \<and>
     (k < length segs \<longrightarrow> length (unread hb (k mod 3)) + fst (segs ! k) > length (snd (segs ! k)))"

text \<open>What is still to be sent of the segments claimed so far.\<close>

definition unsent :: "HLSProgressBuffer \<Rightarrow> (nat \<times> octet list) list \<Rightarrow> nat \<Rightarrow> octet list" where
  "unsent hb segs k = (if k < length segs then unread hb (k mod 3) @ concat (map snd (drop (Suc k) segs)) else [])"

lemma mod3_close:
  assumes "j \<le> j'" "j' < j + 3" "j mod 3 = j' mod (3 :: nat)"
  shows "j = j'"
proof -
  have "3 dvd j' - j"
    using assms mod_eq_dvd_iff_nat [of j j' 3] by metis
  moreover have "j' - j < 3"
    using assms by simp
  ultimately have "j' - j = 0"
    using nat_dvd_not_less [of "j' - j" 3] by blast
  then show ?thesis
    using assms(1) by simp
qed

lemma mod3_window:
  assumes "k \<le> j" "j < k + 3" "k \<le> j'" "j' < k + 3" "j mod 3 = j' mod (3 :: nat)"
  shows "j = j'"
  using assms mod3_close [of j j'] mod3_close [of j' j] by (cases "j \<le> j'") simp_all

lemma ring_okI:
  assumes "length (hb_cache hb) = 3 \<and> length (cache_size hb) = 3 \<and> length (cache_write_ready hb) = 3 \<and> length (cache_discont hb) = 3"
    "k \<le> length segs" "length segs \<le> k + 3" "cache_read_index hb = k mod 3"
    "\<And>j. k \<le> j \<Longrightarrow> j < k + 3 \<Longrightarrow> if j < length segs then in_use hb j (segs ! j) else is_free hb j"
    "\<And>j. j < length segs \<Longrightarrow> j < k \<or> j < length segs - 1 \<Longrightarrow> length (snd (segs ! j)) = fst (segs ! j)"
    "\<And>j. k < j \<Longrightarrow> j < length segs \<Longrightarrow> unread hb (j mod 3) = snd (segs ! j)"
    "k < length segs \<Longrightarrow> length (unread hb (k mod 3)) + fst (segs ! k) > length (snd (segs ! k))"
  shows "ring_ok hb segs k"
  using assms unfolding ring_ok_def by auto

lemma ring_okD:
  assumes "ring_ok hb segs k"
  shows "length (hb_cache hb) = 3 \<and> length (cache_size hb) = 3 \<and> length (cache_write_ready hb) = 3 \<and> length (cache_discont hb) = 3"
    "k \<le> length segs" "length segs \<le> k + 3" "cache_read_index hb = k mod 3"
    "k \<le> j \<Longrightarrow> j < k + 3 \<Longrightarrow> if j < length segs then in_use hb j (segs ! j) else is_free hb j"
    "j < length segs \<Longrightarrow> j < k \<or> j < length segs - 1 \<Longrightarrow> length (snd (segs ! j)) = fst (segs ! j)"
    "k < j \<Longrightarrow> j < length segs \<Longrightarrow> unread hb (j mod 3) = snd (segs ! j)"
    "k < length segs \<Longrightarrow> length (unread hb (k mod 3)) + fst (segs ! k) > length (snd (segs ! k))"
  using assms unfolding ring_ok_def by auto

lemma ring_index: "ring_ok hb segs k \<Longrightarrow> i mod 3 < length (hb_cache hb) \<and> i mod 3 < length (cache_size hb) \<and>
    i mod 3 < length (cache_write_ready hb) \<and> i mod 3 < length (cache_discont hb)"
  by (simp add: ring_ok_def)

text \<open>The cache the task reads from.\<close>

lemma ring_read_cache:
  assumes "ring_ok hb segs k"
  obtains c where "hb_cache hb ! (k mod 3) = Some c" "queue_ok c" "unread hb (k mod 3) = pending c"
    "k < length segs \<Longrightarrow> stored c = snd (segs ! k)" "k = length segs \<Longrightarrow> pending c = []"
proof -
  have "if k < length segs then in_use hb k (segs ! k) else is_free hb k"
    using assms by (auto simp: ring_ok_def)
  then have "\<exists>c. hb_cache hb ! (k mod 3) = Some c \<and> queue_ok c \<and> (k < length segs \<longrightarrow> stored c = snd (segs ! k)) \<and>
      (k = length segs \<longrightarrow> pending c = [])"
    by (auto simp: in_use_def is_free_def split: if_splits)
  then show ?thesis
    using that by (auto simp: unread_def)
qed

text \<open>A block \<open>xs\<close> is taken from the cache in front.\<close>

lemma ring_read:
  assumes ring: "ring_ok hb segs k" and c: "hb_cache hb ! (k mod 3) = Some c" "pending c = xs @ pending c'" "xs \<noteq> []" "queue_ok c'" "stored c' = stored c"
    and hb': "hb' = hb\<lparr>hb_cache := (hb_cache hb)[k mod 3 := Some c'], cache_discont := d\<rparr>" "length d = 3"
  shows "k < length segs" "length (pending c') + fst (segs ! k) \<ge> length (snd (segs ! k))"
    "length (pending c') + fst (segs ! k) > length (snd (segs ! k)) \<Longrightarrow> ring_ok hb' segs k \<and> unsent hb segs k = xs @ unsent hb' segs k"
    "length (pending c') + fst (segs ! k) = length (snd (segs ! k)) \<Longrightarrow>
      ring_ok (hb'\<lparr>cache_write_ready := (cache_write_ready hb)[k mod 3 := True], cache_read_index := Suc k mod 3\<rparr>) segs (Suc k) \<and>
      unsent hb segs k = xs @ unsent (hb'\<lparr>cache_write_ready := (cache_write_ready hb)[k mod 3 := True], cache_read_index := Suc k mod 3\<rparr>) segs (Suc k)"
proof -
  have ix: "k mod 3 < length (hb_cache hb)" "k mod 3 < length (cache_write_ready hb)"
    using ring_index [OF ring, of k] by simp_all
  have win: "if j < length segs then in_use hb j (segs ! j) else is_free hb j" if "k \<le> j" "j < k + 3" for j
    using ring_okD(5) [OF ring that] .
  show kl: "k < length segs"
    using win [of k] c by (auto simp: is_free_def split: if_splits)
  have iu: "in_use hb k (segs ! k)"
    using win [of k] kl by simp
  then have st: "stored c = snd (segs ! k)" "queue_ok c"
    using c(1) by (auto simp: in_use_def)
  have other: "j mod 3 \<noteq> k mod 3" if "k < j" "j < k + 3" for j
    using mod3_window [of k j k] that by auto
  show "length (pending c') + fst (segs ! k) \<ge> length (snd (segs ! k))"
    using iu by (simp add: in_use_def)
  have keep: "in_use hb' j s = in_use hb j s" "is_free hb' j = is_free hb j" "unread hb' (j mod 3) = unread hb (j mod 3)" if "k < j" "j < k + 3" for j s
    using other [OF that] by (simp_all add: hb' in_use_def is_free_def unread_def)
  have iu': "in_use hb' k (segs ! k)"
    using iu c ix st by (auto simp: in_use_def hb')
  have un: "unread hb (k mod 3) = pending c" "unread hb' (k mod 3) = pending c'"
    using c(1) ix by (simp_all add: unread_def hb')
  note r = ring_okD [OF ring]
  {
    assume more: "length (pending c') + fst (segs ! k) > length (snd (segs ! k))"
    have "if j < length segs then in_use hb' j (segs ! j) else is_free hb' j" if "k \<le> j" "j < k + 3" for j
      using win [OF that] keep [of j] iu' that kl by (cases "j = k") auto
    moreover have "unread hb' (j mod 3) = snd (segs ! j)" if "k < j" "j < length segs" for j
      using keep(3) [of j] r(3) r(7) [of j] that by auto
    moreover have "length (hb_cache hb') = 3 \<and> length (cache_size hb') = 3 \<and> length (cache_write_ready hb') = 3 \<and> length (cache_discont hb') = 3"
        "cache_read_index hb' = k mod 3"
      using r(1,4) hb' by simp_all
    ultimately have "ring_ok hb' segs k"
      using r(2,3,6) more un by (intro ring_okI) simp_all
    then show "ring_ok hb' segs k \<and> unsent hb segs k = xs @ unsent hb' segs k"
      using kl un c(2) by (simp add: unsent_def)
  next
    assume all: "length (pending c') + fst (segs ! k) = length (snd (segs ! k))"
    define hb2 where "hb2 = hb'\<lparr>cache_write_ready := (cache_write_ready hb)[k mod 3 := True], cache_read_index := Suc k mod 3\<rparr>"
    have "length (snd (segs ! k)) \<le> fst (segs ! k)"
      using iu by (simp add: in_use_def)
    then have "length (snd (segs ! k)) = fst (segs ! k) \<and> length (pending c') = 0"
      using all by linarith
    then have full: "length (snd (segs ! k)) = fst (segs ! k)" "pending c' = []"
      by simp_all
    have keep2: "in_use hb2 j s = in_use hb j s" "is_free hb2 j = is_free hb j" "unread hb2 (j mod 3) = unread hb (j mod 3)" if "k < j" "j < k + 3" for j s
      using other [OF that] by (simp_all add: hb2_def hb' in_use_def is_free_def unread_def)
    have "is_free hb2 (k + 3)"
      using ix c(4) full(2) by (simp add: is_free_def hb2_def hb')
    moreover have "\<not> k + 3 < length segs"
      using r(3) by simp
    ultimately have "if j < length segs then in_use hb2 j (segs ! j) else is_free hb2 j" if "Suc k \<le> j" "j < Suc k + 3" for j
      using win [of j] keep2 [of j] that by (cases "j = k + 3") auto
    moreover have later: "unread hb2 (j mod 3) = snd (segs ! j)" if "Suc k \<le> j" "j < length segs" for j
      using keep2(3) [of j] r(3) r(7) [of j] that by auto
    moreover have "length (snd (segs ! j)) = fst (segs ! j)" if "j < Suc k \<or> j < length segs - 1" "j < length segs" for j
      using r(6) [of j] full(1) that by (cases "j = k") auto
    moreover have "0 < fst (segs ! Suc k)" if "Suc k < length segs"
      using win [of "Suc k"] that by (simp add: in_use_def)
    moreover have "length (hb_cache hb2) = 3 \<and> length (cache_size hb2) = 3 \<and> length (cache_write_ready hb2) = 3 \<and> length (cache_discont hb2) = 3"
        "cache_read_index hb2 = Suc k mod 3"
      using r(1) hb' by (simp_all add: hb2_def)
    ultimately have "ring_ok hb2 segs (Suc k)"
      using r(3) kl by (intro ring_okI) simp_all
    moreover have "unsent hb segs k = xs @ unsent hb2 segs (Suc k)"
    proof (cases "Suc k < length segs")
      case True
      then have "drop (Suc k) segs = segs ! Suc k # drop (Suc (Suc k)) segs"
        by (simp add: Cons_nth_drop_Suc)
      with True later [of "Suc k"] show ?thesis
        using kl un c(2) full(2) by (simp add: unsent_def)
    next
      case False
      then show ?thesis
        using kl un c(2) full(2) by (simp add: unsent_def)
    qed
    ultimately show "ring_ok hb2 segs (Suc k) \<and> unsent hb segs k = xs @ unsent hb2 segs (Suc k)"
      by simp
  }
qed

lemma ring_cong:
  assumes "hb_cache hb' = hb_cache hb" "cache_size hb' = cache_size hb" "cache_write_ready hb' = cache_write_ready hb"
    "length (cache_discont hb') = length (cache_discont hb)" "cache_read_index hb' = cache_read_index hb"
  shows "ring_ok hb' segs k = ring_ok hb segs k" "unsent hb' segs k = unsent hb segs k"
  using assms by (simp_all add: ring_ok_def unsent_def in_use_def is_free_def unread_def)

text \<open>Bytes are added to the segment claimed last.\<close>

lemma ring_write:
  assumes ring: "ring_ok hb segs k" and segs: "segs \<noteq> []" "w = length segs - 1" "length (snd (segs ! w)) + length d \<le> fst (segs ! w)" "d \<noteq> []"
    and c: "hb_cache hb ! (w mod 3) = Some c" "queue_ok c'" "stored c' = stored c @ d" "pending c' = pending c @ d"
    and hb': "hb' = hb\<lparr>hb_cache := (hb_cache hb)[w mod 3 := Some c'], cache_discont := dd\<rparr>" "length dd = 3"
  shows "ring_ok hb' (segs[w := (fst (segs ! w), snd (segs ! w) @ d)]) k \<and> k \<le> w \<and>
    unsent hb' (segs[w := (fst (segs ! w), snd (segs ! w) @ d)]) k = unsent hb segs k @ d"
proof -
  define s' where "s' = (fst (segs ! w), snd (segs ! w) @ d)"
  define segs' where "segs' = segs[w := s']"
  have w: "w < length segs" "length segs = Suc w"
    using segs by (cases segs; simp)+
  note r = ring_okD [OF ring]
  have ix: "w mod 3 < length (hb_cache hb)"
    using ring_index [OF ring, of w] by simp
  have "length (snd (segs ! w)) \<noteq> fst (segs ! w)"
    using segs(3,4) by (cases d) auto
  then have kw: "k \<le> w"
    using r(6) [of w] w by force
  have iu: "in_use hb w (segs ! w)"
    using r(5) [of w] kw w r(3) by simp
  have other: "j mod 3 \<noteq> w mod 3" if "k \<le> j" "j < k + 3" "j \<noteq> w" for j
    using mod3_window [of k j w] that kw r(3) w by auto
  have keep: "in_use hb' j s = in_use hb j s" "is_free hb' j = is_free hb j" "unread hb' (j mod 3) = unread hb (j mod 3)" if "k \<le> j" "j < k + 3" "j \<noteq> w" for j s
    using other [OF that] by (simp_all add: hb' in_use_def is_free_def unread_def)
  have iu': "in_use hb' w s'"
    using iu c ix segs(3) by (auto simp: in_use_def hb' s'_def)
  have un: "unread hb (w mod 3) = pending c" "unread hb' (w mod 3) = pending c @ d"
    using c ix by (simp_all add: unread_def hb')
  have nth: "segs' ! j = (if j = w then s' else segs ! j)" if "j < length segs" for j
    using that by (simp add: segs'_def)
  have len: "length segs' = length segs"
    by (simp add: segs'_def)
  have "ring_ok hb' segs' k"
  proof (rule ring_okI)
    show "length (hb_cache hb') = 3 \<and> length (cache_size hb') = 3 \<and> length (cache_write_ready hb') = 3 \<and> length (cache_discont hb') = 3"
        "k \<le> length segs'" "length segs' \<le> k + 3" "cache_read_index hb' = k mod 3"
      using r(1-4) hb' len by simp_all
    show "if j < length segs' then in_use hb' j (segs' ! j) else is_free hb' j" if "k \<le> j" "j < k + 3" for j
      using r(5) [OF that] keep [OF that] iu' nth [of j] w len by (cases "j = w") auto
    show "length (snd (segs' ! j)) = fst (segs' ! j)" if "j < length segs'" "j < k \<or> j < length segs' - 1" for j
      using r(6) [of j] nth [of j] that len w kw by auto
    show "unread hb' (j mod 3) = snd (segs' ! j)" if "k < j" "j < length segs'" for j
      using r(7) [of j] keep(3) [of j] nth [of j] that len un r(3) by (cases "j = w") (auto simp: s'_def)
    show "length (unread hb' (k mod 3)) + fst (segs' ! k) > length (snd (segs' ! k))" if "k < length segs'"
      using r(8) keep(3) [of k] nth [of k] that len un by (cases "k = w") (auto simp: s'_def)
  qed
  moreover have "unsent hb' segs' k = unsent hb segs k @ d"
  proof (cases "k = w")
    case True
    then show ?thesis
      using un w len by (simp add: unsent_def)
  next
    case False
    then have "k < w"
      using kw by simp
    moreover obtain pre x where pre: "segs = pre @ [x]"
      using segs(1) by (metis rev_exhaust)
    then have "segs' = pre @ [s']" "length pre = w" "segs ! w = x"
      using w by (auto simp: segs'_def)
    then have "concat (map snd (drop (Suc k) segs')) = concat (map snd (drop (Suc k) segs)) @ d"
      using pre \<open>k < w\<close> by (simp add: s'_def)
    ultimately show ?thesis
      using keep(3) [of k] False w len by (simp add: unsent_def)
  qed
  ultimately show ?thesis
    using kw by (simp add: segs'_def s'_def)
qed

text \<open>A new segment of \<open>n\<close> bytes claims the next cache.\<close>

lemma ring_claim:
  assumes ring: "ring_ok hb segs k" "length segs < k + 3" and n: "0 < n" "n < 2 ^ 32"
    and full: "segs = [] \<or> length (snd (last segs)) = fst (last segs)" and W: "W = length segs"
    and c: "hb_cache hb ! (W mod 3) = Some c"
    and hb': "hb_cache hb' = (hb_cache hb)[W mod 3 := Some (cache_reset c)]" "cache_size hb' = (cache_size hb)[W mod 3 := of_nat n]"
      "cache_write_ready hb' = (cache_write_ready hb)[W mod 3 := False]" "cache_discont hb' = cache_discont hb" "cache_read_index hb' = cache_read_index hb"
  shows "ring_ok hb' (segs @ [(n, [])]) k \<and> unsent hb' (segs @ [(n, [])]) k = unsent hb segs k"
proof -
  note r = ring_okD [OF ring(1)]
  have ix: "W mod 3 < length (hb_cache hb)" "W mod 3 < length (cache_size hb)" "W mod 3 < length (cache_write_ready hb)"
    using ring_index [OF ring(1), of W] by simp_all
  have "is_free hb W"
    using r(5) [of W] r(2) ring(2) W by simp
  then have "cache_ok c"
    using c by (auto simp: is_free_def queue_ok_def)
  then have rc: "queue_ok (cache_reset c)" "stored (cache_reset c) = []" "pending (cache_reset c) = []"
    using cache_reset_ok [of c] by (simp_all add: queue_ok_def)
  have other: "j mod 3 \<noteq> W mod 3" if "k \<le> j" "j < k + 3" "j \<noteq> W" for j
    using mod3_window [of k j W] that r(2) ring(2) W by auto
  have keep: "in_use hb' j s = in_use hb j s" "is_free hb' j = is_free hb j" "unread hb' (j mod 3) = unread hb (j mod 3)" if "k \<le> j" "j < k + 3" "j \<noteq> W" for j s
    using other [OF that] by (simp_all add: hb' in_use_def is_free_def unread_def)
  have iu: "in_use hb' W (n, [])" "unread hb' (W mod 3) = []"
    using ix rc n by (simp_all add: in_use_def unread_def hb')
  have all: "length (snd (segs ! j)) = fst (segs ! j)" if "j < length segs" for j
  proof (cases "j = length segs - 1")
    case True
    moreover have "segs \<noteq> []"
      using that by auto
    ultimately show ?thesis
      using full by (simp add: last_conv_nth)
  next
    case False
    then have "j < length segs - 1"
      using that by linarith
    then show ?thesis
      using r(6) [of j] that by simp
  qed
  have "ring_ok hb' (segs @ [(n, [])]) k"
  proof (rule ring_okI)
    show "length (hb_cache hb') = 3 \<and> length (cache_size hb') = 3 \<and> length (cache_write_ready hb') = 3 \<and> length (cache_discont hb') = 3"
        "k \<le> length (segs @ [(n, [])])" "length (segs @ [(n, [])]) \<le> k + 3" "cache_read_index hb' = k mod 3"
      using r(1-4) hb' ring(2) by simp_all
    show "if j < length (segs @ [(n, [])]) then in_use hb' j ((segs @ [(n, [])]) ! j) else is_free hb' j" if "k \<le> j" "j < k + 3" for j
      using r(5) [OF that] keep [OF that] iu(1) W by (cases "j = W") (auto simp: nth_append)
    show "length (snd ((segs @ [(n, [])]) ! j)) = fst ((segs @ [(n, [])]) ! j)" if "j < length (segs @ [(n, [])])" "j < k \<or> j < length (segs @ [(n, [])]) - 1" for j
      using all [of j] r(2) that by (auto simp: nth_append)
    show "unread hb' (j mod 3) = snd ((segs @ [(n, [])]) ! j)" if "k < j" "j < length (segs @ [(n, [])])" for j
      using r(7) [of j] keep(3) [of j] iu(2) that W ring(2) by (cases "j = W") (auto simp: nth_append)
    show "length (unread hb' (k mod 3)) + fst ((segs @ [(n, [])]) ! k) > length (snd ((segs @ [(n, [])]) ! k))" if "k < length (segs @ [(n, [])])"
      using r(8) keep(3) [of k] iu(2) n that W by (cases "k = W") (auto simp: nth_append)
  qed
  moreover have "unsent hb' (segs @ [(n, [])]) k = unsent hb segs k"
    using keep(3) [of k] iu(2) r(2) W by (cases "k = W") (auto simp: unsent_def)
  ultimately show ?thesis
    by simp
qed

subsection \<open>The invariant of a configuration\<close>

text \<open>How many bytes of the segment claimed last are still to come.\<close>

definition missing :: "(nat \<times> octet list) list \<Rightarrow> nat" where
  "missing segs = (if segs = [] then 0 else fst (last segs) - length (snd (last segs)))"

definition write_index_ok :: "HLSProgressBuffer \<Rightarrow> (nat \<times> octet list) list \<Rightarrow> bool" where
  "write_index_ok hb segs \<longleftrightarrow>
     cache_write_index hb = (if waiting_segment hb \<noteq> None then int (length segs mod 3)
                             else if segs = [] then - 1 else int ((length segs - 1) mod 3))"

fun items_ok :: "GstSegment option \<Rightarrow> nat \<Rightarrow> pad_item list \<Rightarrow> bool" where
  "items_ok None n items \<longleftrightarrow> well_formed n items"
| "items_ok (Some segment) n items \<longleftrightarrow> well_formed n (PadEvent (Segment segment) # items)"

text \<open>The stream is under way, or it has ended with everything sent.\<close>

definition live :: "pad_item list \<Rightarrow> HLSProgressBuffer \<Rightarrow> (nat \<times> octet list) list \<Rightarrow> bool" where
  "live items hb segs \<longleftrightarrow> hb_srcresult hb = GST_FLOW_OK \<and> hb_task hb = TASK_STARTED \<and> PadEvent Eos \<notin> set (hb_out hb) \<and>
     (is_eos hb \<longrightarrow> items = [] \<and> missing segs = 0 \<and> waiting_segment hb = None)"

definition ended :: "octet list \<Rightarrow> pad_item list \<Rightarrow> HLSProgressBuffer \<Rightarrow> bool" where
  "ended media items hb \<longleftrightarrow> hb_srcresult hb = GST_FLOW_FLUSHING \<and> hb_task hb = TASK_PAUSED \<and> items = [] \<and> waiting_segment hb = None \<and>
     payload (hb_out hb) = media \<and> hb_out hb \<noteq> [] \<and> last (hb_out hb) = PadEvent Eos"

definition hls_inv :: "octet list \<Rightarrow> hls_config \<Rightarrow> (nat \<times> octet list) list \<Rightarrow> nat \<Rightarrow> bool" where
  "hls_inv media = (\<lambda>(items, hb) segs k. ring_ok hb segs k \<and> write_index_ok hb segs \<and> items_ok (waiting_segment hb) (missing segs) items \<and>
     \<not> is_flushing hb \<and> (segs = [] \<longrightarrow> k = 0) \<and> payload (hb_out hb) @ unsent hb segs k @ payload items = media \<and> live items hb segs)"

lemma missing_0:
  assumes "ring_ok hb segs k" "missing segs = 0"
  shows "segs = [] \<or> length (snd (last segs)) = fst (last segs)"
proof (cases "segs = []")
  case False
  then have l: "last segs = segs ! (length segs - 1)" "length segs - 1 < length segs"
    by (simp_all add: last_conv_nth)
  have "length (snd (last segs)) \<le> fst (last segs)"
  proof (cases "k < length segs")
    case True
    then have "in_use hb (length segs - 1) (last segs)"
      using ring_okD(3) [OF assms(1)] ring_okD(5) [OF assms(1), of "length segs - 1"] l by auto
    then show ?thesis
      by (simp add: in_use_def)
  next
    case False
    then show ?thesis
      using ring_okD(6) [OF assms(1), of "length segs - 1"] l by simp
  qed
  with assms(2) False show ?thesis
    by (simp add: missing_def)
qed simp

text \<open>The writer finds the next cache free, or it waits.\<close>

lemma await_ok:
  assumes "ring_ok hb segs k" "hb_srcresult hb = GST_FLOW_OK" "cache_write_index hb = int (length segs mod 3)" "missing segs = 0"
    "0 < unat (sg_stop sg)" "unat (sg_stop sg) < 2 ^ 32"
  shows "\<exists>hb' segs' b. await_cache sg hb = Returns hb' \<and> ring_ok hb' segs' k \<and> unsent hb' segs' k = unsent hb segs k \<and>
    hb' = hb\<lparr>hb_cache := hb_cache hb', cache_size := cache_size hb', cache_write_ready := cache_write_ready hb', hb_bus := b, waiting_segment := waiting_segment hb'\<rparr> \<and>
    (if length segs < k + 3 then waiting_segment hb' = None \<and> segs' = segs @ [(unat (sg_stop sg), [])]
     else waiting_segment hb' = Some sg \<and> segs' = segs)"
proof -
  note r = ring_okD [OF assms(1)]
  have i: "nat (cache_write_index hb) = length segs mod 3" "\<not> cache_write_index hb < 0"
    using assms(3) by simp_all
  show ?thesis
  proof (cases "length segs < k + 3")
    case True
    then have free: "is_free hb (length segs)"
      using r(5) [of "length segs"] r(2) by simp
    then obtain c where c: "hb_cache hb ! (length segs mod 3) = Some c"
      by (auto simp: is_free_def)
    define hb' where "hb' = hb\<lparr>cache_size := (cache_size hb)[length segs mod 3 := ucast (sg_stop sg)],
                        cache_write_ready := (cache_write_ready hb)[length segs mod 3 := False],
                        hb_cache := (hb_cache hb)[length segs mod 3 := Some (cache_reset c)], waiting_segment := None, hb_bus := hb_bus hb @ [HlsResume]\<rparr>"
    have w: "(ucast (sg_stop sg) :: u32) = of_nat (unat (sg_stop sg))"
      by simp
    have "await_cache sg hb = Returns hb'"
      using free assms(2) i c by (simp add: await_cache_def claim_cache_def is_free_def hb_post_def hb'_def Let_def)
    moreover have "ring_ok hb' (segs @ [(unat (sg_stop sg), [])]) k \<and> unsent hb' (segs @ [(unat (sg_stop sg), [])]) k = unsent hb segs k"
      using missing_0 [OF assms(1,4)] assms(5,6) c True w
      by (intro ring_claim [OF assms(1) True assms(5,6) _ refl c]) (simp_all add: hb'_def)
    ultimately show ?thesis
      using True by (intro exI [of _ hb'] exI [of _ "segs @ [(unat (sg_stop sg), [])]"] exI [of _ "hb_bus hb'"]) (simp add: hb'_def)
  next
    case False
    then have "length segs = k + 3"
      using r(3) by simp
    then have "in_use hb k (segs ! k)" "length segs mod 3 = k mod 3"
      using r(5) [of k] by simp_all
    then have busy: "\<not> cache_write_ready hb ! (length segs mod 3)"
      by (simp add: in_use_def)
    define hb' where "hb' = hb\<lparr>waiting_segment := Some sg, hb_bus := hb_bus hb @ [HlsFull]\<rparr>"
    have "await_cache sg hb = Returns hb'"
      using busy assms(2) i by (simp add: await_cache_def hb_post_def hb'_def)
    moreover have "ring_ok hb' segs k" "unsent hb' segs k = unsent hb segs k"
      using ring_cong [of hb' hb] assms(1) by (simp_all add: hb'_def)
    ultimately show ?thesis
      using False by (intro exI [of _ hb'] exI [of _ segs] exI [of _ "hb_bus hb'"]) (simp add: hb'_def)
  qed
qed

end
