(* ===== verification/HLS_Streams.thy ===== *)
theory HLS_Streams
  imports HLS_Ring
begin

text \<open>
  Under every schedule of the thread of the source and the task of the buffer the bytes of the play list come out in order and no
  segment is overwritten before it has been read; a fair schedule delivers everything.  Then the composition with the source, and what
  \<^verbatim>\<open>hlsprogressbuffer.c\<close> gets wrong.
\<close>

subsection \<open>The turns\<close>

lemma missing_append [simp]: "missing (segs @ [(n, [])]) = n"
  by (simp add: missing_def)

lemma items_ok_segment:
  "well_formed n (PadEvent (Segment sg) # items) \<longleftrightarrow> n = 0 \<and> 0 < unat (sg_stop sg) \<and> unat (sg_stop sg) < 2 ^ 32 \<and> well_formed (unat (sg_stop sg)) items"
  by simp

text \<open>The end of the handler of a segment event keeps the invariant.\<close>

lemma inv_await:
  assumes "ring_ok hb segs k" "cache_write_index hb = int (length segs mod 3)" "well_formed (missing segs) (PadEvent (Segment sg) # items)"
    "\<not> is_flushing hb" "\<not> is_eos hb" "segs = [] \<longrightarrow> k = 0" "payload (hb_out hb) @ unsent hb segs k @ payload items = media"
    "hb_srcresult hb = GST_FLOW_OK" "hb_task hb = TASK_STARTED" "PadEvent Eos \<notin> set (hb_out hb)"
  shows "\<exists>hb' segs'. await_cache sg hb = Returns hb' \<and> hls_inv media (items, hb') segs' k \<and> hb_out hb' = hb_out hb \<and> \<not> is_eos hb' \<and>
    (if length segs < k + 3 then waiting_segment hb' = None else waiting_segment hb' = Some sg \<and> segs' = segs)"
proof -
  have sg: "missing segs = 0" "0 < unat (sg_stop sg)" "unat (sg_stop sg) < 2 ^ 32" "well_formed (unat (sg_stop sg)) items"
    using assms(3) by simp_all
  obtain hb' segs' b where a: "await_cache sg hb = Returns hb'" "ring_ok hb' segs' k" "unsent hb' segs' k = unsent hb segs k"
      "hb' = hb\<lparr>hb_cache := hb_cache hb', cache_size := cache_size hb', cache_write_ready := cache_write_ready hb', hb_bus := b, waiting_segment := waiting_segment hb'\<rparr>"
      "if length segs < k + 3 then waiting_segment hb' = None \<and> segs' = segs @ [(unat (sg_stop sg), [])] else waiting_segment hb' = Some sg \<and> segs' = segs"
    using await_ok [OF assms(1,8,2) sg(1-3)] by blast
  have f: "is_flushing hb' = is_flushing hb" "is_eos hb' = is_eos hb" "hb_out hb' = hb_out hb" "hb_srcresult hb' = hb_srcresult hb" "hb_task hb' = hb_task hb"
      "cache_write_index hb' = cache_write_index hb"
    by (subst a(4), simp)+
  have "hls_inv media (items, hb') segs' k"
    using a(2,3,5) f assms sg ring_okD(2) [OF assms(1)]
    by (cases "length segs < k + 3") (auto simp: hls_inv_def write_index_ok_def live_def)
  then show ?thesis
    using a(1,5) f assms(5) by (intro exI [of _ hb'] exI [of _ segs']) auto
qed

lemma mod3_next: "(int (n mod 3) + 1) mod 3 = int (Suc n mod 3)"
  by (metis mod_Suc_eq of_nat_Suc of_nat_mod of_nat_numeral add.commute)

lemma inv_source:
  assumes "hls_smooth E" "hls_inv media (items, hb) segs k"
  shows "\<exists>items' hb' segs'. source_turn E (items, hb) = Returns (items', hb') \<and> hls_inv media (items', hb') segs' k \<and>
    payload (hb_out hb') = payload (hb_out hb) \<and>
    (case waiting_segment hb of
       None \<Rightarrow> items' = tl items \<and> (is_eos hb' \<longleftrightarrow> is_eos hb \<or> (\<exists>xs. items = PadEvent Eos # xs))
     | Some sg \<Rightarrow> items' = items \<and> is_eos hb' = is_eos hb \<and>
         (if length segs < k + 3 then waiting_segment hb' = None else waiting_segment hb' = Some sg \<and> segs' = segs))"
proof -
  from assms(2) have ring: "ring_ok hb segs k" and wi: "write_index_ok hb segs" and it: "items_ok (waiting_segment hb) (missing segs) items"
    and fl: "\<not> is_flushing hb" and z: "segs = [] \<longrightarrow> k = 0" and med: "payload (hb_out hb) @ unsent hb segs k @ payload items = media"
    and lv: "hb_srcresult hb = GST_FLOW_OK" "hb_task hb = TASK_STARTED" "is_eos hb \<longrightarrow> items = [] \<and> missing segs = 0 \<and> waiting_segment hb = None"
      "PadEvent Eos \<notin> set (hb_out hb)"
    by (auto simp: hls_inv_def live_def)
  show ?thesis
  proof (cases "waiting_segment hb")
    case (Some sg)
    then have wn: "cache_write_index hb = int (length segs mod 3)" and ne: "\<not> is_eos hb"
      using wi lv(3) by (auto simp: write_index_ok_def)
    have "well_formed (missing segs) (PadEvent (Segment sg) # items)"
      using it unfolding Some items_ok.simps .
    then obtain hb' segs' where "await_cache sg hb = Returns hb'" "hls_inv media (items, hb') segs' k" "hb_out hb' = hb_out hb" "\<not> is_eos hb'"
        "if length segs < k + 3 then waiting_segment hb' = None else waiting_segment hb' = Some sg \<and> segs' = segs"
      using inv_await [OF ring wn _ fl ne z med lv(1,2,4)] by metis
    with Some lv(1) ne show ?thesis
      by (intro exI [of _ items] exI [of _ hb'] exI [of _ segs']) (simp add: source_turn_def resume_writer_def)
  next
    case None
    show ?thesis
    proof (cases items)
      case Nil
      with None assms(2) show ?thesis
        by (intro exI [of _ items] exI [of _ hb] exI [of _ segs]) (simp add: source_turn_def)
    next
      case (Cons item items')
      then have ne: "\<not> is_eos hb"
        using lv(3) by auto
      show ?thesis
      proof (cases item)
        case (PadBuffer b)
        then have b: "b_data b \<noteq> []" "length (b_data b) \<le> missing segs" "well_formed (missing segs - length (b_data b)) items'"
          using it None Cons by simp_all
        then have segs: "segs \<noteq> []"
          by (auto simp: missing_def)
        define w where "w = length segs - 1"
        have lw: "last segs = segs ! w"
          using segs by (simp add: w_def last_conv_nth)
        have i: "nat (cache_write_index hb) = w mod 3" "\<not> cache_write_index hb < 0"
          using wi None segs by (simp_all add: write_index_ok_def w_def)
        have fit: "length (snd (segs ! w)) + length (b_data b) \<le> fst (segs ! w)"
          using b(1,2) segs lw by (cases "b_data b") (auto simp: missing_def)
        have kw: "k \<le> w"
        proof (rule ccontr)
          assume "\<not> k \<le> w"
          then have "length (snd (segs ! w)) = fst (segs ! w)"
            using ring_okD(6) [OF ring, of w] segs by (simp add: w_def)
          with fit b(1) show False
            by simp
        qed
        then have "in_use hb w (segs ! w)"
          using ring_okD(3) [OF ring] ring_okD(5) [OF ring, of w] segs by (simp add: w_def)
        then obtain c where c: "hb_cache hb ! (w mod 3) = Some c" "queue_ok c"
          by (auto simp: in_use_def)
        have wk: "works (he_cache E)"
          using assms(1) by (simp add: hls_smooth_def)
        define c' where "c' = cache_write_buffer (he_cache E) (b_data b) c"
        define dd where "dd = (if b_discont b then (cache_discont hb)[w mod 3 := True] else cache_discont hb)"
        define hb' where "hb' = hb\<lparr>hb_cache := (hb_cache hb)[w mod 3 := Some c'], cache_discont := dd\<rparr>"
        define segs' where "segs' = segs[w := (fst (segs ! w), snd (segs ! w) @ b_data b)]"
        have q: "queue_ok c'" "pending c' = pending c @ b_data b" "stored c' = stored c @ b_data b"
          using queue_put [OF wk c(2), of "b_data b"] write_ok(2) [of c "he_cache E" "b_data b"] works_write [OF wk] c(2) wk
          by (auto simp: c'_def queue_ok_def works_def)
        have dd: "length dd = 3"
          using ring_okD(1) [OF ring] by (simp add: dd_def)
        have rw: "ring_ok hb' segs' k" "unsent hb' segs' k = unsent hb segs k @ b_data b"
          using ring_write [OF ring segs w_def fit b(1) c(1) q(1,3,2) hb'_def dd] by (simp_all add: segs'_def)
        have ls: "length segs' = length segs" "segs' \<noteq> []" "last segs' = (fst (segs ! w), snd (segs ! w) @ b_data b)"
          using segs by (simp_all add: segs'_def w_def last_list_update)
        have "source_turn E (items, hb) = Returns (items', hb')"
          using None Cons PadBuffer fl ne lv(1) i c(1)
          by (auto simp: source_turn_def hls_progress_buffer_chain_def Let_def hb'_def dd_def c'_def)
        moreover have "missing segs' = missing segs - length (b_data b)"
          using segs ls lw by (simp add: missing_def)
        then have "hls_inv media (items', hb') segs' k"
          using rw ls None wi b(3) fl z med Cons PadBuffer lv ne segs
          by (simp add: hls_inv_def write_index_ok_def live_def hb'_def)
        ultimately show ?thesis
          using None Cons PadBuffer by (intro exI [of _ items'] exI [of _ hb'] exI [of _ segs']) (simp add: hb'_def)
      next
        case (PadEvent ev)
        have wf: "well_formed (missing segs) (PadEvent ev # items')"
          using it None Cons PadEvent by simp
        have pass: ?thesis if "well_formed (missing segs) items'" "hls_progress_buffer_sink_event E ev hb = Returns (hb_send (PadEvent ev) hb)" "ev \<noteq> Eos"
        proof -
          define hb' where "hb' = hb_send (PadEvent ev) hb"
          have "ring_ok hb' segs k" "unsent hb' segs k = unsent hb segs k"
            using ring_cong [of hb' hb] ring by (simp_all add: hb'_def hb_send_def)
          then have "hls_inv media (items', hb') segs k"
            using that(1,3) None wi fl z med Cons PadEvent lv ne by (auto simp add: hls_inv_def write_index_ok_def live_def hb'_def hb_send_def)
          moreover have "source_turn E (items, hb) = Returns (items', hb')"
            using None Cons PadEvent that(2) by (simp add: source_turn_def hb'_def)
          ultimately show ?thesis
            using None Cons PadEvent that(3) by (intro exI [of _ items'] exI [of _ hb'] exI [of _ segs]) (simp add: hb'_def hb_send_def)
        qed
        show ?thesis
        proof (cases ev)
          case (Segment sg)
          define hb1 where "hb1 = (if send_new_segment hb
                     then hb_send (PadEvent (Segment (time_segment sg))) (hb\<lparr>buffer_pts := clock_time (sg_position sg), send_new_segment := False\<rparr>)
                     else hb)\<lparr>cache_write_index := int (length segs mod 3)\<rparr>"
          have "(cache_write_index hb + 1) mod 3 = int (length segs mod 3)"
            using wi None mod3_next [of "length segs - 1"] by (cases segs) (simp_all add: write_index_ok_def)
          then have ev: "hls_progress_buffer_sink_event E ev hb = await_cache sg hb1"
            using Segment lv(1) ne
            by (simp add: hls_progress_buffer_sink_event_def segment_event_def hb1_def NUM_OF_CACHED_SEGMENTS_def hb_send_def)
          have f: "payload (hb_out hb1) = payload (hb_out hb)" "hb_srcresult hb1 = hb_srcresult hb" "hb_task hb1 = hb_task hb" "is_eos hb1 = is_eos hb"
              "is_flushing hb1 = is_flushing hb" "cache_write_index hb1 = int (length segs mod 3)"
            by (simp_all add: hb1_def hb_send_def)
          have out1: "PadEvent Eos \<notin> set (hb_out hb1)"
            using lv(4) by (simp add: hb1_def hb_send_def)
          have r1: "ring_ok hb1 segs k" "unsent hb1 segs k = unsent hb segs k"
            using ring_cong [of hb1 hb] ring by (simp_all add: hb1_def hb_send_def)
          have med1: "payload (hb_out hb1) @ unsent hb1 segs k @ payload items' = media"
            using med Cons PadEvent by (simp add: f r1)
          obtain hb' segs' where "await_cache sg hb1 = Returns hb'" "hls_inv media (items', hb') segs' k" "hb_out hb' = hb_out hb1" "\<not> is_eos hb'"
            using inv_await [OF r1(1) f(6) wf [unfolded Segment] _ _ z med1 _ _ out1] f fl ne lv by metis
          then show ?thesis
            using None Cons PadEvent ev Segment ne f(1)
            by (intro exI [of _ items'] exI [of _ hb'] exI [of _ segs']) (simp add: source_turn_def)
        next
          case Eos
          define hb' where "hb' = (hb_post HlsEos hb)\<lparr>is_eos := True\<rparr>"
          have "ring_ok hb' segs k" "unsent hb' segs k = unsent hb segs k"
            using ring_cong [of hb' hb] ring by (simp_all add: hb'_def hb_post_def)
          then have "hls_inv media (items', hb') segs k"
            using wf Eos None wi fl z med Cons PadEvent lv by (simp add: hls_inv_def write_index_ok_def live_def hb'_def hb_post_def)
          moreover have "source_turn E (items, hb) = Returns (items', hb')"
            using None Cons PadEvent Eos by (simp add: source_turn_def hls_progress_buffer_sink_event_def hb'_def)
          ultimately show ?thesis
            using None Cons PadEvent Eos by (intro exI [of _ items'] exI [of _ hb'] exI [of _ segs]) (simp add: hb'_def hb_post_def)
        qed (use wf pass in \<open>auto simp: hls_progress_buffer_sink_event_def\<close>)
      qed
    qed
  qed
qed

lemma position_test:
  assumes "queue_ok c" "n < 2 ^ 32" "length (stored c) \<le> n"
  shows "(word_of_int (read_position c) :: u64) = ucast (of_nat n :: u32) \<longleftrightarrow> length (pending c) + n = length (stored c)"
proof -
  have r: "0 \<le> read_position c" "nat (read_position c) \<le> length (stored c)" "length (stored c) = nat (write_position c)"
    using assms(1) length_stored [of c] by (auto simp: queue_ok_def cache_ok_def)
  have "(word_of_int (read_position c) :: u64) = of_nat (nat (read_position c))"
    using r(1) by (metis nat_0_le of_int_of_nat_eq)
  moreover have "unat (of_nat (nat (read_position c)) :: u64) = nat (read_position c)"
    using r(2) assms(2,3) by (intro u64_of_nat_small) simp
  moreover have "unat (ucast (of_nat n :: u32) :: u64) = n"
    using assms(2) by (simp add: unsigned_of_nat take_bit_nat_eq_self)
  ultimately have "(word_of_int (read_position c) :: u64) = ucast (of_nat n :: u32) \<longleftrightarrow> nat (read_position c) = n"
    by (simp add: word_unat_eq_iff)
  also have "\<dots> \<longleftrightarrow> length (pending c) + n = length (stored c)"
    using r assms(3) by (auto simp: pending_def)
  finally show ?thesis .
qed

lemma inv_task:
  assumes "hls_smooth E" "hls_inv media (items, hb) segs k"
  shows "\<exists>hb'. task_turn E (items, hb) = Returns (items, hb') \<and> waiting_segment hb' = waiting_segment hb \<and> is_eos hb' = is_eos hb \<and>
    (if unread hb (k mod 3) \<noteq> [] then length (payload (hb_out hb)) < length (payload (hb_out hb')) \<and> (\<exists>k' \<ge> k. hls_inv media (items, hb') segs k')
     else if is_eos hb then ended media items hb' else hb' = hb)"
proof -
  from assms(2) have ring: "ring_ok hb segs k" and wi: "write_index_ok hb segs" and it: "items_ok (waiting_segment hb) (missing segs) items"
    and fl: "\<not> is_flushing hb" and z: "segs = [] \<longrightarrow> k = 0" and med: "payload (hb_out hb) @ unsent hb segs k @ payload items = media"
    and lv: "hb_srcresult hb = GST_FLOW_OK" "hb_task hb = TASK_STARTED" "is_eos hb \<longrightarrow> items = [] \<and> missing segs = 0 \<and> waiting_segment hb = None"
      "PadEvent Eos \<notin> set (hb_out hb)"
    by (auto simp: hls_inv_def live_def)
  note r = ring_okD [OF ring]
  obtain c where c: "hb_cache hb ! (k mod 3) = Some c" "queue_ok c" "unread hb (k mod 3) = pending c"
      "k < length segs \<Longrightarrow> stored c = snd (segs ! k)"
    using ring_read_cache [OF ring] by metis
  have data: "cache_has_enough_data c \<longleftrightarrow> pending c \<noteq> []"
    using c(2) by (simp add: has_data_pending queue_ok_def)
  show ?thesis
  proof (cases "pending c = []")
    case none: True
    show ?thesis
    proof (cases "is_eos hb")
      case False
      then have "task_turn E (items, hb) = Returns (items, hb)"
        using lv c(1) data none r(4) by (simp add: task_turn_def hls_progress_buffer_loop_def)
      with False none c(3) show ?thesis
        by simp
    next
      case True
      define hb' where "hb' = hb\<lparr>hb_out := hb_out hb @ [PadEvent Eos], hb_srcresult := GST_FLOW_FLUSHING, hb_task := TASK_PAUSED\<rparr>"
      have "task_turn E (items, hb) = Returns (items, hb')"
        using lv c(1) data none r(4) True fl by (simp add: task_turn_def hls_progress_buffer_loop_def hls_pause_def hb_send_def hb'_def)
      moreover have "\<not> k < length segs"
      proof
        assume k: "k < length segs"
        then have "segs \<noteq> []"
          by auto
        then have "last segs = segs ! (length segs - 1)"
          by (rule last_conv_nth)
        then have "length (snd (segs ! k)) = fst (segs ! k)"
          using r(6) [of k] missing_0 [OF ring] lv(3) True \<open>segs \<noteq> []\<close> k by (cases "k = length segs - 1") auto
        then show False
          using r(8) k c(3) none by simp
      qed
      then have "ended media items hb'"
        using med lv(3) True by (simp add: ended_def hb'_def unsent_def)
      ultimately show ?thesis
        using True none c(3) by (intro exI [of _ hb']) (simp add: hb'_def)
    qed
  next
    case some: False
    have wk: "works (he_cache E)" and push: "\<And>b. he_push E b = GST_FLOW_OK" and mw: "he_meanwhile E = (\<lambda>hb. hb)"
      using assms(1) by (simp_all add: hls_smooth_def)
    obtain xs c' where get: "cache_get (he_cache E) c = (xs, c')"
      by (cases "cache_get (he_cache E) c")
    note g = queue_get [OF wk c(2) some get]
    define hb1 where "hb1 = hb\<lparr>hb_cache := (hb_cache hb)[k mod 3 := Some c'], cache_discont := (cache_discont hb)[k mod 3 := False]\<rparr>"
    have ld: "length ((cache_discont hb)[k mod 3 := False]) = 3"
      using r(1) by simp
    note rr = ring_read [OF ring c(1) g(3,2,1,7) hb1_def ld]
    have st: "stored c = snd (segs ! k)" and iu: "in_use hb k (segs ! k)"
      using rr(1) c(4) r(5) [of k] by simp_all
    have test: "(word_of_int (read_position c') :: u64) = ucast (cache_size hb ! (k mod 3)) \<longleftrightarrow>
        length (pending c') + fst (segs ! k) = length (snd (segs ! k))"
      using position_test [OF g(1), of "fst (segs ! k)"] iu g(7) st by (simp add: in_use_def)
    define hb2 where "hb2 = release_cache (read_position c') hb1"
    obtain k' where k': "ring_ok hb2 segs k'" "unsent hb segs k = xs @ unsent hb2 segs k'" "segs = [] \<longrightarrow> k' = 0" "k \<le> k'"
    proof (cases "length (pending c') + fst (segs ! k) = length (snd (segs ! k))")
      case True
      define hb3 where "hb3 = hb1\<lparr>cache_write_ready := (cache_write_ready hb)[k mod 3 := True], cache_read_index := Suc k mod 3\<rparr>"
      have "hb2 = hb3\<lparr>hb_bus := hb_bus hb @ [HlsNotFull]\<rparr>"
        using True test r(4) by (simp add: hb2_def release_cache_def hb1_def hb3_def hb_post_def NUM_OF_CACHED_SEGMENTS_def mod_Suc_eq)
      then have "ring_ok hb2 segs (Suc k) = ring_ok hb3 segs (Suc k)" "unsent hb2 segs (Suc k) = unsent hb3 segs (Suc k)"
        using ring_cong [of hb2 hb3] by simp_all
      moreover have "segs \<noteq> []"
        using rr(1) by auto
      ultimately show ?thesis
        using that [of "Suc k"] rr(4) [OF True] by (simp add: hb3_def)
    next
      case False
      then have "hb2 = hb1"
        using test r(4) by (simp add: hb2_def release_cache_def hb1_def)
      with False show ?thesis
        using that [of k] rr(2,3) z by simp
    qed
    have f: "hb_out hb2 = hb_out hb" "hb_srcresult hb2 = hb_srcresult hb" "hb_task hb2 = hb_task hb" "is_eos hb2 = is_eos hb" "is_flushing hb2 = is_flushing hb"
        "waiting_segment hb2 = waiting_segment hb" "cache_write_index hb2 = cache_write_index hb" "buffer_pts hb2 = buffer_pts hb"
      by (simp_all add: hb2_def release_cache_def hb1_def hb_post_def)
    define b where "b = (let b = new_buffer xs (word_of_int (read_position c));
        b = (if cache_discont hb ! (k mod 3) then b\<lparr>b_discont := True\<rparr> else b)
        in if buffer_pts hb \<noteq> None then b\<lparr>b_pts := buffer_pts hb\<rparr> else b)"
    have bd: "b_data b = xs"
      by (simp add: b_def Let_def)
    define hb' where "hb' = hb2\<lparr>buffer_pts := None, hb_out := hb_out hb @ [PadBuffer b]\<rparr>"
    have "hls_progress_buffer_loop E hb = HEnds hb'"
      using lv(1) c(1) data some r(4) f g(6)
      by (simp add: hls_progress_buffer_loop_def read_and_push_def push_result_def hls_pause_def hb_send_def push mw Let_def
          hb1_def [symmetric] hb2_def [symmetric] b_def hb'_def)
    then have t: "task_turn E (items, hb) = Returns (items, hb')"
      using lv(2) by (simp add: task_turn_def)
    have "ring_ok hb' segs k'" "unsent hb' segs k' = unsent hb2 segs k'"
      using ring_cong [of hb' hb2] k'(1) by (simp_all add: hb'_def)
    then have "hls_inv media (items, hb') segs k'"
      using k' f wi it fl med lv bd by (simp add: hls_inv_def write_index_ok_def live_def hb'_def)
    moreover have "length (payload (hb_out hb)) < length (payload (hb_out hb'))"
      using bd g(2) by (simp add: hb'_def)
    ultimately show ?thesis
      using t some c(3) f k'(4) by (intro exI [of _ hb']) (auto simp: hb'_def)
  qed
qed

subsection \<open>Every schedule\<close>

definition hls_state :: "octet list \<Rightarrow> hls_config \<Rightarrow> bool" where
  "hls_state media cf \<longleftrightarrow> (\<exists>segs k. hls_inv media cf segs k) \<or> ended media (fst cf) (snd cf)"

lemma ended_turns: "ended media items hb \<Longrightarrow> source_turn E (items, hb) = Returns (items, hb) \<and> task_turn E (items, hb) = Returns (items, hb)"
  by (simp add: ended_def source_turn_def task_turn_def)

lemma state_turn:
  assumes "hls_smooth E" "hls_state media cf"
  shows "\<exists>cf'. (case t of SourceTurn \<Rightarrow> source_turn E cf | TaskTurn \<Rightarrow> task_turn E cf) = Returns cf' \<and> hls_state media cf'"
proof (cases "ended media (fst cf) (snd cf)")
  case True
  with ended_turns [of media "fst cf" "snd cf" E] assms(2) show ?thesis
    by (cases t) auto
next
  case False
  then obtain items hb segs k where inv: "cf = (items, hb)" "hls_inv media (items, hb) segs k"
    using assms(2) by (cases cf) (auto simp: hls_state_def)
  show ?thesis
  proof (cases t)
    case SourceTurn
    with inv_source [OF assms(1) inv(2)] inv(1) show ?thesis
      by (fastforce simp: hls_state_def)
  next
    case TaskTurn
    obtain hb' where hb': "task_turn E (items, hb) = Returns (items, hb')"
      and res: "if unread hb (k mod 3) \<noteq> [] then length (payload (hb_out hb)) < length (payload (hb_out hb')) \<and> (\<exists>k' \<ge> k. hls_inv media (items, hb') segs k')
        else if is_eos hb then ended media items hb' else hb' = hb"
      using inv_task [OF assms(1) inv(2)] by blast
    from res inv(2) have "hls_state media (items, hb')"
      unfolding hls_state_def by (cases "unread hb (k mod 3) \<noteq> []"; cases "is_eos hb") auto
    with TaskTurn inv(1) hb' show ?thesis
      by simp
  qed
qed

lemma state_prefix:
  assumes "hls_state media cf"
  shows "prefix (payload (hb_out (snd cf))) media \<and> (PadEvent Eos \<in> set (hb_out (snd cf)) \<longrightarrow> payload (hb_out (snd cf)) = media)"
proof (cases "ended media (fst cf) (snd cf)")
  case True
  then show ?thesis
    by (simp add: ended_def)
next
  case False
  then obtain segs k where "hls_inv media cf segs k"
    using assms by (auto simp: hls_state_def)
  then have "payload (hb_out (snd cf)) @ (unsent (snd cf) segs k @ payload (fst cf)) = media" "PadEvent Eos \<notin> set (hb_out (snd cf))"
    by (cases cf; simp add: hls_inv_def live_def)+
  then show ?thesis
    by (metis prefixI)
qed

lemma state_run: "hls_smooth E \<Longrightarrow> hls_state media cf \<Longrightarrow> \<exists>cf'. hls_run E ts cf = Returns cf' \<and> hls_state media cf'"
proof (induction ts arbitrary: cf)
  case (Cons t ts)
  obtain cf1 where "(case t of SourceTurn \<Rightarrow> source_turn E cf | TaskTurn \<Rightarrow> task_turn E cf) = Returns cf1" "hls_state media cf1"
    using state_turn [OF Cons.prems] by blast
  with Cons.IH [OF Cons.prems(1), of cf1] show ?case
    by (cases t) auto
qed simp

text \<open>The element as it is created on a machine where the caches can be made, its pad activated.\<close>

definition hls_new :: "hls_env \<Rightarrow> HLSProgressBuffer" where
  "hls_new E = snd (hls_progress_buffer_activatemode E GST_PAD_MODE_PUSH True
     (hls_progress_buffer_init (replicate NUM_OF_CACHED_SEGMENTS (Some empty_cache))))"

lemma hls_new_inv:
  assumes "hls_smooth E" "well_formed 0 items"
  shows "hls_inv (payload items) (items, hls_new E) [] 0"
proof -
  have nth: "replicate 3 x ! (j mod 3) = x" for x :: 'a and j :: nat
    by simp
  have "ring_ok (hls_new E) [] 0"
    using demo_disk_works
    by (intro ring_okI) (simp_all add: hls_new_def hls_progress_buffer_init_def hls_progress_buffer_activatepush_src_def NUM_OF_CACHED_SEGMENTS_def
        is_free_def nth Let_def del: replicate.simps)
  then show ?thesis
    using assms
    by (simp add: hls_inv_def hls_new_def hls_progress_buffer_init_def hls_progress_buffer_activatepush_src_def hls_smooth_def write_index_ok_def
        missing_def unsent_def live_def Let_def)
qed

text \<open>C7: Under every schedule of the thread of the source and the task of the element, for every play list, what has been sent
  is a prefix of the bytes of the play list, across all segments and although only three of them are kept at a time; end of
  stream has been sent only if all of them have.  No schedule makes the element crash.\<close>

theorem hls_buffer_faithful:
  assumes "hls_smooth E" "well_formed 0 items"
  shows "\<exists>items' hb. hls_run E ts (items, hls_new E) = Returns (items', hb) \<and> prefix (payload (hb_out hb)) (payload items) \<and>
    (PadEvent Eos \<in> set (hb_out hb) \<longrightarrow> payload (hb_out hb) = payload items)"
proof -
  have "hls_state (payload items) (items, hls_new E)"
    using hls_new_inv [OF assms] by (auto simp: hls_state_def)
  then obtain items' hb where "hls_run E ts (items, hls_new E) = Returns (items', hb)" and st: "hls_state (payload items) (items', hb)"
    using state_run [OF assms(1)] by (metis surj_pair)
  then show ?thesis
    using state_prefix [OF st] by auto
qed

subsection \<open>Fair schedules\<close>

text \<open>What is left to do: items to push, a wait to end, bytes to send, and end of stream.\<close>

definition hls_rank :: "octet list \<Rightarrow> hls_config \<Rightarrow> nat" where
  "hls_rank media = (\<lambda>(items, hb).
     if hb_srcresult hb \<noteq> GST_FLOW_OK then 0
     else 1 + 2 * length items + (if waiting_segment hb \<noteq> None then 1 else 0) + (length media - length (payload (hb_out hb))))"

definition source_ready :: "octet list \<Rightarrow> hls_config \<Rightarrow> bool" where
  "source_ready media = (\<lambda>(items, hb). \<exists>segs k. hls_inv media (items, hb) segs k \<and>
     (if waiting_segment hb = None then items \<noteq> [] else length segs < k + 3))"

definition task_ready :: "octet list \<Rightarrow> hls_config \<Rightarrow> bool" where
  "task_ready media = (\<lambda>(items, hb). (\<exists>segs k. hls_inv media (items, hb) segs k) \<and>
     (is_eos hb \<or> length (payload (hb_out hb)) + length (payload items) < length media))"

definition eos_comes :: "hls_config \<Rightarrow> bool" where
  "eos_comes = (\<lambda>(items, hb). is_eos hb \<or> (items \<noteq> [] \<and> last items = PadEvent Eos))"

lemma unread_if_unsent:
  assumes "ring_ok hb segs k" "unsent hb segs k \<noteq> []"
  shows "unread hb (k mod 3) \<noteq> []"
proof -
  have k: "k < length segs"
    using assms(2) by (auto simp: unsent_def split: if_splits)
  show ?thesis
  proof (cases "k < length segs - 1")
    case True
    then have "length (snd (segs ! k)) = fst (segs ! k)"
      using ring_okD(6) [OF assms(1) k] by simp
    then show ?thesis
      using ring_okD(8) [OF assms(1) k] by auto
  next
    case False
    then show ?thesis
      using assms(2) k by (simp add: unsent_def)
  qed
qed

lemma inv_lengths: "hls_inv media (items, hb) segs k \<Longrightarrow>
    length (payload (hb_out hb)) + length (unsent hb segs k) + length (payload items) = length media"
  by (auto simp: hls_inv_def)

text \<open>Somebody can always go on.\<close>

lemma somebody_ready:
  assumes "hls_inv media (items, hb) segs k" "eos_comes (items, hb)"
  shows "source_ready media (items, hb) \<or> task_ready media (items, hb)"
proof (cases "waiting_segment hb = None \<or> length segs < k + 3")
  case True
  show ?thesis
  proof (cases "waiting_segment hb = None \<and> items = []")
    case True
    then show ?thesis
      using assms by (auto simp: task_ready_def eos_comes_def)
  next
    case False
    with True assms(1) have "source_ready media (items, hb)"
      unfolding source_ready_def prod.case by (intro exI [of _ segs] exI [of _ k]) auto
    then show ?thesis ..
  qed
next
  case False
  have ring: "ring_ok hb segs k"
    using assms(1) by (simp add: hls_inv_def)
  note r = ring_okD [OF ring]
  have "length segs = k + 3"
    using False r(3) by simp
  then have "unread hb (k mod 3) \<noteq> []" "k < length segs"
    using r(6) [of k] r(8) by auto
  then have "unsent hb segs k \<noteq> []"
    by (simp add: unsent_def)
  then have "length (payload (hb_out hb)) + length (payload items) < length media"
    using inv_lengths [OF assms(1)] by (cases "unsent hb segs k") auto
  then show ?thesis
    using assms(1) by (auto simp: task_ready_def)
qed

lemma source_progress:
  assumes "hls_smooth E" "hls_inv media (items, hb) segs k" "source_turn E (items, hb) = Returns cf'" "eos_comes (items, hb)"
  shows "eos_comes cf'" "hls_rank media cf' \<le> hls_rank media (items, hb)"
    "source_ready media (items, hb) \<Longrightarrow> hls_rank media cf' < hls_rank media (items, hb)"
    "task_ready media (items, hb) \<Longrightarrow> task_ready media cf'"
proof -
  have main: "eos_comes cf' \<and> hls_rank media cf' \<le> hls_rank media (items, hb) \<and>
      ((if waiting_segment hb = None then items \<noteq> [] else length segs < k + 3) \<longrightarrow> hls_rank media cf' < hls_rank media (items, hb)) \<and>
      (task_ready media (items, hb) \<longrightarrow> task_ready media cf')"
    if inv: "hls_inv media (items, hb) segs k" for segs k
  proof -
    obtain items' hb' segs' where s: "source_turn E (items, hb) = Returns (items', hb')" "hls_inv media (items', hb') segs' k"
        "payload (hb_out hb') = payload (hb_out hb)"
      and w: "case waiting_segment hb of
         None \<Rightarrow> items' = tl items \<and> (is_eos hb' \<longleftrightarrow> is_eos hb \<or> (\<exists>xs. items = PadEvent Eos # xs))
       | Some sg \<Rightarrow> items' = items \<and> is_eos hb' = is_eos hb \<and>
           (if length segs < k + 3 then waiting_segment hb' = None else waiting_segment hb' = Some sg \<and> segs' = segs)"
      using inv_source [OF assms(1) inv] by blast
    have cf: "cf' = (items', hb')"
      using s(1) assms(3) by simp
    have ok: "hb_srcresult hb = GST_FLOW_OK" "hb_srcresult hb' = GST_FLOW_OK"
      using inv s(2) by (auto simp: hls_inv_def live_def)
    have shrink: "length (payload items') \<le> length (payload items)"
      using w by (cases items rule: payload.cases) (auto split: option.splits)
    have e: "eos_comes (items', hb')"
      using w assms(4) by (cases items) (auto simp: eos_comes_def split: option.splits if_splits)
    moreover have "hls_rank media (items', hb') \<le> hls_rank media (items, hb) \<and>
        ((if waiting_segment hb = None then items \<noteq> [] else length segs < k + 3) \<longrightarrow> hls_rank media (items', hb') < hls_rank media (items, hb))"
    proof (cases "waiting_segment hb")
      case None
      show ?thesis
      proof (cases items)
        case Nil
        with None s(1) w ok show ?thesis
          by (auto simp: hls_rank_def source_turn_def)
      next
        case (Cons a list)
        with None w ok s(3) show ?thesis
          by (auto simp: hls_rank_def)
      qed
    next
      case (Some sg)
      with w ok s(3) show ?thesis
        by (auto simp: hls_rank_def split: if_splits)
    qed
    moreover have "task_ready media (items', hb')" if "task_ready media (items, hb)"
    proof -
      have "is_eos hb \<longrightarrow> is_eos hb'"
        using w by (auto split: option.splits)
      then show ?thesis
        using that s(2,3) shrink by (auto simp: task_ready_def)
    qed
    ultimately show ?thesis
      unfolding cf by blast
  qed
  show "eos_comes cf'" "hls_rank media cf' \<le> hls_rank media (items, hb)" "task_ready media (items, hb) \<Longrightarrow> task_ready media cf'"
    using main [OF assms(2)] by blast+
  show "hls_rank media cf' < hls_rank media (items, hb)" if "source_ready media (items, hb)"
    using that main by (auto simp: source_ready_def)
qed

lemma task_progress:
  assumes "hls_smooth E" "hls_inv media (items, hb) segs k" "task_turn E (items, hb) = Returns cf'" "eos_comes (items, hb)"
  shows "eos_comes cf'" "hls_rank media cf' \<le> hls_rank media (items, hb)"
    "task_ready media (items, hb) \<Longrightarrow> hls_rank media cf' < hls_rank media (items, hb)"
    "source_ready media (items, hb) \<Longrightarrow> source_ready media cf' \<or> hls_rank media cf' < hls_rank media (items, hb)"
proof -
  have main: "\<exists>hb'. cf' = (items, hb') \<and> waiting_segment hb' = waiting_segment hb \<and> is_eos hb' = is_eos hb \<and>
      ((\<exists>k' \<ge> k. hls_inv media (items, hb') segs k' \<and> hls_rank media (items, hb') < hls_rank media (items, hb)) \<or>
       (hls_rank media (items, hb') < hls_rank media (items, hb)) \<or> (hb' = hb \<and> \<not> task_ready media (items, hb)))"
    if inv: "hls_inv media (items, hb) segs k" for segs k
  proof -
    obtain hb' where t: "task_turn E (items, hb) = Returns (items, hb')" "waiting_segment hb' = waiting_segment hb" "is_eos hb' = is_eos hb"
      and res: "if unread hb (k mod 3) \<noteq> [] then length (payload (hb_out hb)) < length (payload (hb_out hb')) \<and> (\<exists>k' \<ge> k. hls_inv media (items, hb') segs k')
        else if is_eos hb then ended media items hb' else hb' = hb"
      using inv_task [OF assms(1) inv] by blast
    have cf: "cf' = (items, hb')"
      using t(1) assms(3) by simp
    have ok: "hb_srcresult hb = GST_FLOW_OK"
      using inv by (auto simp: hls_inv_def live_def)
    consider "unread hb (k mod 3) \<noteq> []" | "unread hb (k mod 3) = []" "is_eos hb" | "unread hb (k mod 3) = []" "\<not> is_eos hb"
      by blast
    then show ?thesis
    proof cases
      case 1
      with res obtain k' where k': "k \<le> k'" "hls_inv media (items, hb') segs k'" "length (payload (hb_out hb)) < length (payload (hb_out hb'))"
        by auto
      have "length (payload (hb_out hb')) \<le> length media" "hb_srcresult hb' = GST_FLOW_OK"
        using inv_lengths [OF k'(2)] k'(2) by (auto simp: hls_inv_def live_def)
      then have "hls_rank media (items, hb') < hls_rank media (items, hb)"
        using ok t(2) k'(3) by (auto simp: hls_rank_def)
      with k' t cf show ?thesis
        by blast
    next
      case 2
      then have "hls_rank media (items, hb') < hls_rank media (items, hb)"
        using res ok by (simp add: hls_rank_def ended_def)
      with t cf show ?thesis
        by blast
    next
      case 3
      then have "unsent hb segs k = []"
        using unread_if_unsent [of hb segs k] inv by (auto simp: hls_inv_def)
      then have "\<not> task_ready media (items, hb)"
        using inv_lengths [OF inv] 3(2) by (auto simp: task_ready_def)
      with 3 res t cf show ?thesis
        by auto
    qed
  qed
  from main [OF assms(2)] obtain hb' where hb': "cf' = (items, hb')" "waiting_segment hb' = waiting_segment hb" "is_eos hb' = is_eos hb"
    and d: "hls_rank media (items, hb') < hls_rank media (items, hb) \<or> (hb' = hb \<and> \<not> task_ready media (items, hb))"
    by blast
  show "eos_comes cf'"
    using assms(4) hb' by (simp add: eos_comes_def)
  show "hls_rank media cf' \<le> hls_rank media (items, hb)"
    using d hb'(1) by auto
  show "hls_rank media cf' < hls_rank media (items, hb)" if "task_ready media (items, hb)"
    using d that hb'(1) by auto
  show "source_ready media cf' \<or> hls_rank media cf' < hls_rank media (items, hb)" if "source_ready media (items, hb)"
    using d that hb'(1) by auto
qed

text \<open>A round of a fair schedule gives both a turn, in any order and any number of times.\<close>

definition fair_round :: "hls_turn list \<Rightarrow> bool" where
  "fair_round ts \<longleftrightarrow> SourceTurn \<in> set ts \<and> TaskTurn \<in> set ts"

lemma rank_run:
  assumes "hls_smooth E"
  shows "hls_state media cf \<Longrightarrow> eos_comes cf \<or> ended media (fst cf) (snd cf) \<Longrightarrow> hls_run E ts cf = Returns cf' \<Longrightarrow>
    hls_state media cf' \<and> (eos_comes cf' \<or> ended media (fst cf') (snd cf')) \<and> hls_rank media cf' \<le> hls_rank media cf \<and>
    (source_ready media cf \<and> SourceTurn \<in> set ts \<or> task_ready media cf \<and> TaskTurn \<in> set ts \<longrightarrow> hls_rank media cf' < hls_rank media cf)"
proof (induction ts arbitrary: cf)
  case (Cons t ts)
  obtain items hb where cf: "cf = (items, hb)"
    by (cases cf)
  obtain cf1 where turn: "(case t of SourceTurn \<Rightarrow> source_turn E cf | TaskTurn \<Rightarrow> task_turn E cf) = Returns cf1" and st1: "hls_state media cf1"
    using state_turn [OF assms Cons.prems(1)] by blast
  then have run1: "hls_run E ts cf1 = Returns cf'"
    using Cons.prems(3) by (cases t) auto
  show ?case
  proof (cases "ended media (fst cf) (snd cf)")
    case True
    then have "cf1 = cf" "\<not> source_ready media cf" "\<not> task_ready media cf"
      using ended_turns [of media items hb E] turn cf
      by (cases t; auto simp: source_ready_def task_ready_def ended_def hls_inv_def live_def)+
    then show ?thesis
      using Cons.IH [OF st1 _ run1] Cons.prems(2) by auto
  next
    case False
    then obtain segs k where inv: "hls_inv media (items, hb) segs k" and ec: "eos_comes (items, hb)"
      using Cons.prems(1,2) cf by (auto simp: hls_state_def)
    show ?thesis
    proof (cases t)
      case SourceTurn
      then have "source_turn E (items, hb) = Returns cf1"
        using turn cf by simp
      note p = source_progress [OF assms inv this ec]
      show ?thesis
        using Cons.IH [OF st1 _ run1] p SourceTurn cf by auto
    next
      case TaskTurn
      then have "task_turn E (items, hb) = Returns cf1"
        using turn cf by simp
      note p = task_progress [OF assms inv this ec]
      show ?thesis
        using Cons.IH [OF st1 _ run1] p TaskTurn cf by auto
    qed
  qed
qed simp

lemma fair_rounds:
  assumes "hls_smooth E"
  shows "hls_state media cf \<Longrightarrow> eos_comes cf \<or> ended media (fst cf) (snd cf) \<Longrightarrow> (\<forall>ts \<in> set rounds. fair_round ts) \<Longrightarrow> hls_rank media cf \<le> length rounds \<Longrightarrow>
    \<exists>cf'. hls_run E (concat rounds) cf = Returns cf' \<and> ended media (fst cf') (snd cf')"
proof (induction rounds arbitrary: cf)
  case Nil
  then have "hb_srcresult (snd cf) \<noteq> GST_FLOW_OK"
    by (cases cf) (auto simp: hls_rank_def split: if_splits)
  then have "ended media (fst cf) (snd cf)"
    using Nil(1) by (cases cf) (auto simp: hls_state_def hls_inv_def live_def)
  then show ?case
    by simp
next
  case (Cons ts rounds)
  obtain cf1 where run1: "hls_run E ts cf = Returns cf1"
    using state_run [OF assms Cons.prems(1)] by blast
  note p = rank_run [OF assms Cons.prems(1,2) run1]
  have "hls_rank media cf1 \<le> length rounds"
  proof (cases "ended media (fst cf) (snd cf)")
    case True
    then have "hls_rank media cf = 0"
      by (cases cf) (simp add: hls_rank_def ended_def)
    then show ?thesis
      using p by simp
  next
    case False
    then obtain segs k where "hls_inv media cf segs k" "eos_comes cf"
      using Cons.prems(1,2) by (auto simp: hls_state_def)
    then have "source_ready media cf \<or> task_ready media cf"
      using somebody_ready by (cases cf) blast
    then have "hls_rank media cf1 < hls_rank media cf"
      using p Cons.prems(3) by (auto simp: fair_round_def)
    then show ?thesis
      using Cons.prems(4) by simp
  qed
  with Cons.IH [of cf1] p Cons.prems(3) obtain cf' where "hls_run E (concat rounds) cf1 = Returns cf'" "ended media (fst cf') (snd cf')"
    by auto
  then show ?case
    using run1 by (auto simp: hls_run_append)
qed

text \<open>C16: Every fair schedule delivers the whole play list: if the two threads get a turn often enough, in any order, neither waits
  for the other for ever.  After a number of rounds that depends only on the size of the stream, all bytes have been sent,
  followed by end of stream, and the task has stopped.\<close>

theorem hls_buffer_delivers:
  assumes "hls_smooth E" "well_formed 0 items" "items \<noteq> []" "last items = PadEvent Eos" "\<forall>ts \<in> set rounds. fair_round ts"
    "1 + 2 * length items + length (payload items) \<le> length rounds"
  shows "\<exists>hb. hls_run E (concat rounds) (items, hls_new E) = Returns ([], hb) \<and> payload (hb_out hb) = payload items \<and>
    last (hb_out hb) = PadEvent Eos \<and> hb_task hb = TASK_PAUSED"
proof -
  have st: "hls_state (payload items) (items, hls_new E)" "eos_comes (items, hls_new E)"
    using hls_new_inv [OF assms(1,2)] assms(3,4) by (auto simp: hls_state_def eos_comes_def)
  have "hls_rank (payload items) (items, hls_new E) \<le> length rounds"
    using assms(1,6)
    by (simp add: hls_rank_def hls_new_def hls_progress_buffer_init_def hls_progress_buffer_activatepush_src_def hls_smooth_def Let_def)
  then obtain cf where "hls_run E (concat rounds) (items, hls_new E) = Returns cf" "ended (payload items) (fst cf) (snd cf)"
    using fair_rounds [OF assms(1) st(1) _ assms(5)] st(2) by blast
  then show ?thesis
    by (cases cf) (auto simp: ended_def)
qed

definition demo_hls_env :: hls_env where
  "demo_hls_env = \<lparr>he_cache = demo_disk, he_linked = True, he_push = (\<lambda>_. GST_FLOW_OK), he_meanwhile = (\<lambda>hb. hb)\<rparr>"

lemma demo_hls_smooth: "hls_smooth demo_hls_env"
  by (simp add: hls_smooth_def demo_hls_env_def demo_disk_works)

definition demo_hls_items :: "pad_item list" where
  "demo_hls_items = [PadEvent (Segment ((gst_segment_init GST_FORMAT_BYTES)\<lparr>sg_stop := 2\<rparr>)), PadBuffer (new_buffer [1, 2] 0), PadEvent Eos]"

theorem hls_buffer_faithful_witness:
  "\<exists>items' hb. hls_run demo_hls_env [SourceTurn, TaskTurn, SourceTurn, TaskTurn] (demo_hls_items, hls_new demo_hls_env) = Returns (items', hb) \<and>
    prefix (payload (hb_out hb)) [1, 2]"
  using hls_buffer_faithful [OF demo_hls_smooth, of demo_hls_items "[SourceTurn, TaskTurn, SourceTurn, TaskTurn]"]
  by (auto simp: demo_hls_items_def)

theorem hls_buffer_delivers_witness:
  "\<exists>hb. hls_run demo_hls_env (concat (replicate 9 [TaskTurn, SourceTurn])) (demo_hls_items, hls_new demo_hls_env) = Returns ([], hb) \<and>
    payload (hb_out hb) = [1, 2]"
  using hls_buffer_delivers [OF demo_hls_smooth, of demo_hls_items "replicate 9 [TaskTurn, SourceTurn]"]
  by (auto simp: demo_hls_items_def fair_round_def)

subsection \<open>From the source through the ring\<close>

definition playlist_ok :: "hls_segment list \<Rightarrow> bool" where
  "playlist_ok segs \<longleftrightarrow> (\<forall>(n, t, bs) \<in> set segs. n \<noteq> - 1 \<and> bs \<noteq> [] \<and> [] \<notin> set bs \<and> \<bar>n\<bar> = int (length (concat bs)) \<and> length (concat bs) < 2 ^ 32)"

definition playlist_bytes :: "hls_segment list \<Rightarrow> octet list" where
  "playlist_bytes segs = concat (map (\<lambda>(n, t, bs). concat bs) segs)"

lemma well_formed_stamped:
  "[] \<notin> set bs \<Longrightarrow> well_formed (length (concat bs) + r) (stamped pos d bs @ rest) = well_formed r rest \<and> payload (stamped pos d bs @ rest) = concat bs @ payload rest"
  by (induction bs arbitrary: pos d) (auto simp: add.assoc)

lemma well_formed_caps: "well_formed n (caps_items el @ rest) = well_formed n rest \<and> payload (caps_items el) = []"
  by (simp add: caps_items_def split: option.split)

lemma hls_items_well_formed:
  "playlist_ok segs \<Longrightarrow> well_formed 0 (hls_items el segs) \<and> payload (hls_items el segs) = playlist_bytes segs \<and> hls_items el segs \<noteq> [] \<and>
    last (hls_items el segs) = PadEvent Eos"
proof (induction segs arbitrary: el)
  case (Cons seg segs)
  obtain n t bs where seg: "seg = (n, t, bs)"
    by (rule prod_cases3)
  have ok: "bs \<noteq> []" "[] \<notin> set bs" "\<bar>n\<bar> = int (length (concat bs))" "length (concat bs) < 2 ^ 32" "playlist_ok segs"
    using Cons.prems by (auto simp: playlist_ok_def seg)
  have ne: "concat bs \<noteq> []"
    using ok(1,2) by (cases bs) auto
  have stop: "unat (sg_stop (hls_segment_event el n t)) = length (concat bs)"
    using ok(3,4) by (simp add: hls_segment_event_def unsigned_of_nat take_bit_nat_eq_self)
  define rest where "rest = hls_items (el\<lparr>js_position := js_position el + int (length (concat bs)), js_discont := False, mimetype := None\<rparr>) segs"
  have rest: "well_formed 0 rest" "payload rest = playlist_bytes segs" "rest \<noteq> []" "last rest = PadEvent Eos"
    using Cons.IH [OF ok(5)] by (simp_all add: rest_def)
  have items: "hls_items el (seg # segs) = PadEvent (Segment (hls_segment_event el n t)) # caps_items el @ stamped (js_position el) (n < 0 \<or> js_discont el) bs @ rest"
    by (simp add: seg rest_def)
  show ?case
    unfolding items using rest stop ne ok(4) well_formed_stamped [OF ok(2), of 0 "js_position el" "n < 0 \<or> js_discont el" rest]
    by (simp add: well_formed_caps playlist_bytes_def seg)
qed (simp add: playlist_bytes_def)

text \<open>C3: Source and buffer together in HTTP live streaming: for any play list and any division of its segments into blocks, every fair
  schedule of the two threads delivers downstream exactly the bytes of all segments in order, and then end of stream.\<close>

theorem playlist_through_hls_buffer:
  assumes "undisturbed E" "js_mode el = MODE_HLS" "srcpad_out el = []" "playlist_ok segs" "hls_smooth F"
    "items = srcpad_out (js_run (E # hls_envs E segs) (start_streaming el))" "\<forall>ts \<in> set rounds. fair_round ts"
    "1 + 2 * length items + length (playlist_bytes segs) \<le> length rounds"
  shows "\<exists>hb. hls_run F (concat rounds) (items, hls_new F) = Returns ([], hb) \<and> payload (hb_out hb) = playlist_bytes segs \<and>
    last (hb_out hb) = PadEvent Eos"
proof -
  define el0 where "el0 = el\<lparr>js_position := 0, position_time := 0, js_discont := False, js_update := False\<rparr>"
  have "\<forall>(n, t, bs) \<in> set segs. n \<noteq> - 1 \<and> bs \<noteq> [] \<and> [] \<notin> set bs"
    using assms(4) by (auto simp: playlist_ok_def)
  then have items: "items = PadEvent StreamStart # hls_items el0 segs"
    using hls_stream_from_start [OF assms(1,2)] assms(3,6) by (simp add: el0_def Let_def)
  have "well_formed 0 items" "items \<noteq> []" "last items = PadEvent Eos" "payload items = playlist_bytes segs"
    using hls_items_well_formed [OF assms(4), of el0] by (simp_all add: items)
  moreover have "hls_state (payload items) (items, hls_new F)" "eos_comes (items, hls_new F)"
    using hls_new_inv [OF assms(5) calculation(1)] calculation(2,3) by (auto simp: hls_state_def eos_comes_def)
  moreover have "hls_rank (payload items) (items, hls_new F) \<le> length rounds"
    using assms(5,8) calculation(4)
    by (simp add: hls_rank_def hls_new_def hls_progress_buffer_init_def hls_progress_buffer_activatepush_src_def hls_smooth_def Let_def)
  ultimately obtain cf where "hls_run F (concat rounds) (items, hls_new F) = Returns cf" "ended (payload items) (fst cf) (snd cf)" "payload items = playlist_bytes segs"
    using fair_rounds [OF assms(5) _ _ assms(7)] by blast
  then show ?thesis
    by (cases cf) (auto simp: ended_def)
qed

theorem playlist_through_hls_buffer_witness:
  "\<exists>hb. hls_run demo_hls_env (concat (replicate 20 [SourceTurn, TaskTurn]))
      (srcpad_out (js_run (demo_env # hls_envs demo_env demo_playlist) (start_streaming (java_source_init\<lparr>js_mode := MODE_HLS\<rparr>))), hls_new demo_hls_env) =
      Returns ([], hb) \<and> payload (hb_out hb) = [1, 2, 3, 4, 5]"
proof -
  define el where "el = java_source_init\<lparr>js_mode := MODE_HLS\<rparr>"
  define items where "items = srcpad_out (js_run (demo_env # hls_envs demo_env demo_playlist) (start_streaming el))"
  have ok: "playlist_ok demo_playlist" "playlist_bytes demo_playlist = [1, 2, 3, 4, 5]" "js_mode el = MODE_HLS" "srcpad_out el = []"
    by (auto simp: playlist_ok_def demo_playlist_def playlist_bytes_def el_def java_source_init_def)
  have "length items = 7"
    using hls_stream_from_start [OF demo_env_undisturbed ok(3), of demo_playlist] ok(4)
    by (simp add: items_def demo_playlist_def Let_def caps_items_def el_def java_source_init_def)
  then show ?thesis
    using playlist_through_hls_buffer [OF demo_env_undisturbed ok(3,4,1) demo_hls_smooth items_def, of "replicate 20 [SourceTurn, TaskTurn]"] ok(2)
    by (auto simp: fair_round_def items_def el_def)
qed

subsection \<open>What goes wrong\<close>

text \<open>A buffer before the first segment is written outside the ring.\<close>

theorem hls_early_buffer_faults:
  "hls_progress_buffer_chain E b (hls_new E) = Faults"
  by (simp add: hls_progress_buffer_chain_def hls_new_def hls_progress_buffer_init_def hls_progress_buffer_activatepush_src_def Let_def)

text \<open>A read of the disk that fails when the first buffer of a stream is due ends in a null pointer.\<close>

theorem hls_failed_read_crashes:
  assumes "hb_cache hb ! cache_read_index hb = Some c" "cache_has_enough_data c" "hb_srcresult hb = GST_FLOW_OK" "buffer_pts hb = Some t"
    "\<And>n. ce_read (he_cache E) n = - 1"
  shows "hls_progress_buffer_loop E hb = HCrashes"
  using assms
  by (simp add: hls_progress_buffer_loop_def read_and_push_def cache_read_buffer_def posix_read_def transferred_def release_cache_def hb_post_def Let_def)

text \<open>An empty segment is never given back: the task waits at its cache for ever, whatever arrives in the other ones.\<close>

theorem hls_empty_segment_stalls:
  assumes "claim_cache segment hb = Returns hb1" "sg_stop segment = 0" "nat (cache_write_index hb) = cache_read_index hb"
    "cache_read_index hb < length (hb_cache hb)" "\<And>c. hb_cache hb ! cache_read_index hb = Some c \<Longrightarrow> cache_ok c"
    "cache_read_index hb2 = cache_read_index hb" "hb_cache hb2 ! cache_read_index hb = hb_cache hb1 ! cache_read_index hb"
    "hb_srcresult hb2 = GST_FLOW_OK" "\<not> is_eos hb2"
  shows "hls_progress_buffer_loop E hb2 = HWaits hb2"
proof -
  obtain c where c: "hb_cache hb ! cache_read_index hb = Some c" "hb_cache hb1 ! cache_read_index hb = Some (cache_reset c)"
    using assms(1,3,4) by (auto simp: claim_cache_def hb_post_def Let_def split: if_splits option.splits)
  have "\<not> cache_has_enough_data (cache_reset c)"
    using cache_reset_ok [OF assms(5) [OF c(1)]] by (simp add: cache_has_enough_data_def)
  then show ?thesis
    using assms(6-9) c(2) by (simp add: hls_progress_buffer_loop_def)
qed

text \<open>Once end of stream has been sent, a new segment is dropped, although its handler has code to leave the end of the stream.\<close>

theorem hls_segment_after_eos_dropped:
  assumes "hb_srcresult hb = GST_FLOW_FLUSHING" "is_eos hb"
  shows "hls_progress_buffer_sink_event E (Segment segment) hb = Returns hb"
  using assms by (simp add: hls_progress_buffer_sink_event_def segment_event_def)

end
