(* ===== verification/Ts_Demuxer.thy ===== *)
theory Ts_Demuxer
  imports Java_Source
begin

text \<open>
  \<^verbatim>\<open>gstreamer/plugins/av/mpegtsdemuxer.c\<close>: the demultiplexer for HTTP live streaming.  The streaming thread hands buffers to an
  adapter; a reader thread lets libav parse them through the callbacks \<^verbatim>\<open>read_packet\<close> and \<^verbatim>\<open>seek\<close>, and pushes the packets libav
  returns to the audio and the video pad.  Each definition is what the code does under the lock of the element; libav, which decides
  when it calls back and what it returns, is an argument.  The build is the one for the newest libav (\<^verbatim>\<open>CODEC_PAR\<close>).
\<close>

subsection \<open>Time stamps\<close>

definition AV_NOPTS_VALUE :: u64 where "AV_NOPTS_VALUE = 2 ^ 63"

definition NO_TIME :: u64 where "NO_TIME = - 1"

definition MAX_PTS :: u64 where "MAX_PTS = drop_bit 31 (- 1)"

text \<open>\<^verbatim>\<open>gst_util_uint64_scale\<close> computes in full precision and saturates.\<close>

definition gst_util_uint64_scale :: "u64 \<Rightarrow> nat \<Rightarrow> nat \<Rightarrow> u64" where
  "gst_util_uint64_scale val num denom = (let q = unat val * num div denom in if q < 2 ^ 64 then of_nat q else - 1)"

definition CLOCK_BASE :: nat where "CLOCK_BASE = 9"

definition PTS_TO_GSTTIME :: "u64 \<Rightarrow> u64" where
  "PTS_TO_GSTTIME time = gst_util_uint64_scale time (1000000 div 10) CLOCK_BASE"

subsection \<open>The element\<close>

datatype AVCodecID = AV_CODEC_ID_NONE | AV_CODEC_ID_H264 | AV_CODEC_ID_AAC | AV_CODEC_ID_OTHER

datatype AVMediaType = AVMEDIA_TYPE_VIDEO | AVMEDIA_TYPE_AUDIO | AVMEDIA_TYPE_OTHER

record AVStream =
  av_codec_type :: AVMediaType
  av_codec_id :: AVCodecID
  av_channels :: int
  av_sample_rate :: int
  av_bit_rate :: int
  av_extradata :: "octet list option"

record AVFormatContext =
  av_streams :: "AVStream list"
  context_bit_rate :: int

record AVPacket =
  packet_stream_index :: int
  packet_data :: "octet list"
  packet_pts :: u64
  packet_duration :: u64

definition NO_STREAM :: int where "NO_STREAM = - 1"

record TsStream =
  ts_sourcepad :: bool
  ts_discont :: bool
  ts_segment :: GstSegment
  last_time :: u64
  offset_time :: u64
  stream_index :: int
  codec_id :: AVCodecID

datatype LimitType = UNLIMITED | LIMITED

datatype ParseAction = PA_INIT | PA_READ_FRAME | PA_STOP

text \<open>Where the reader thread is: at the head of its loop, or in a call of libav.\<close>

datatype reader_pc = NotStarted | AtLoop ParseAction | InOpen | InProbe | InReadFrame | Ended

datatype ts_pad = AudioPad | VideoPad

record TsBuffer = GstBuffer +
  b_duration :: "u64 option"

datatype ts_item = TsEvent GstEvent | TsBuffer TsBuffer

record ts_caps =
  tc_audio :: "(int \<times> int \<times> int) option"
  tc_codec_data :: "octet list option"

datatype ts_message = PadAdded ts_pad nat ts_caps | NoMorePads | SendPacketFailed | StreamParseError int | DemuxerError int | AllocError

record MpegTSDemuxer =
  sink_adapter :: "octet list"
  td_offset :: u32
  flush_adapter :: bool
  sink_result :: GstFlowReturn
  adapter_limit_size :: int
  adapter_limit_type :: LimitType
  video :: TsStream
  audio :: TsStream
  td_eos :: bool
  is_last_buffer_send :: bool
  is_reading :: bool
  td_flushing :: bool
  is_closing :: bool
  td_update :: bool
  av_context :: "AVFormatContext option"
  reader_thread :: bool
  numpads :: nat
  base_pts :: u64
  td_pc :: reader_pc
  td_out :: "(ts_pad \<times> ts_item) list"
  td_bus :: "ts_message list"

record ts_env =
  te_alloc_io :: bool
  te_alloc_context :: bool
  te_alloc_packet :: bool
  te_push_event :: "ts_pad \<Rightarrow> GstEvent \<Rightarrow> bool"
  te_push :: "ts_pad \<Rightarrow> TsBuffer \<Rightarrow> GstFlowReturn"

definition BUFFER_SIZE :: nat where "BUFFER_SIZE = 4096"

definition ADAPTER_LIMIT :: int where "ADAPTER_LIMIT = 40 * int BUFFER_SIZE"

definition LIMIT_STEP :: int where "LIMIT_STEP = 10 * int BUFFER_SIZE"

lemmas ts_limits = BUFFER_SIZE_def ADAPTER_LIMIT_def LIMIT_STEP_def

definition init_stream :: "TsStream \<Rightarrow> TsStream" where
  "init_stream stream = stream\<lparr>stream_index := NO_STREAM, ts_discont := False, ts_segment := gst_segment_init GST_FORMAT_TIME\<rparr>"

definition mpegts_demuxer_flush :: "MpegTSDemuxer \<Rightarrow> MpegTSDemuxer" where
  "mpegts_demuxer_flush dm =
     dm\<lparr>sink_adapter := [], td_offset := 0, flush_adapter := False,
        audio := (audio dm)\<lparr>last_time := 0, offset_time := 0\<rparr>, video := (video dm)\<lparr>last_time := 0, offset_time := 0\<rparr>\<rparr>"

definition mpegts_demuxer_init_state :: "MpegTSDemuxer \<Rightarrow> MpegTSDemuxer" where
  "mpegts_demuxer_init_state dm = mpegts_demuxer_flush
     (dm\<lparr>td_eos := False, is_last_buffer_send := False, td_flushing := False, is_reading := True, is_closing := False, av_context := None,
         td_update := False, adapter_limit_type := UNLIMITED, adapter_limit_size := ADAPTER_LIMIT,
         video := init_stream (video dm), audio := init_stream (audio dm)\<rparr>)"

text \<open>The structure is cleared before the initialiser runs.\<close>

definition mpegts_demuxer_init :: MpegTSDemuxer where
  "mpegts_demuxer_init =
     (let cleared = \<lparr>ts_sourcepad = False, ts_discont = False, ts_segment = (gst_segment_init GST_FORMAT_OTHER)\<lparr>sg_rate := 0, sg_stop := 0\<rparr>,
                     last_time = 0, offset_time = 0, stream_index = 0, codec_id = AV_CODEC_ID_NONE\<rparr>
      in \<lparr>sink_adapter = [], td_offset = 0, flush_adapter = False, sink_result = GST_FLOW_OK, adapter_limit_size = 0,
          adapter_limit_type = UNLIMITED, video = cleared, audio = cleared, td_eos = False, is_last_buffer_send = False,
          is_reading = False, td_flushing = False, is_closing = False, td_update = False, av_context = None, reader_thread = False,
          numpads = 0, base_pts = NO_TIME, td_pc = NotStarted, td_out = [], td_bus = []\<rparr>)"

fun mpegts_demuxer_activatemode :: "pad_mode \<Rightarrow> bool \<Rightarrow> MpegTSDemuxer \<Rightarrow> bool \<times> MpegTSDemuxer" where
  "mpegts_demuxer_activatemode GST_PAD_MODE_PUSH active dm =
     (True, dm\<lparr>sink_result := if active then GST_FLOW_OK else GST_FLOW_FLUSHING\<rparr>)"
| "mpegts_demuxer_activatemode GST_PAD_MODE_PULL active dm = (True, dm)"
| "mpegts_demuxer_activatemode GST_PAD_MODE_NONE active dm = (False, dm)"

definition ts_send :: "ts_pad \<Rightarrow> ts_item \<Rightarrow> MpegTSDemuxer \<Rightarrow> MpegTSDemuxer" where
  "ts_send pad item dm = dm\<lparr>td_out := td_out dm @ [(pad, item)]\<rparr>"

definition ts_post :: "ts_message \<Rightarrow> MpegTSDemuxer \<Rightarrow> MpegTSDemuxer" where
  "ts_post m dm = dm\<lparr>td_bus := td_bus dm @ [m]\<rparr>"

subsection \<open>Receiving\<close>

definition get_locked_result :: "MpegTSDemuxer \<Rightarrow> GstFlowReturn" where
  "get_locked_result dm = (if td_flushing dm then GST_FLOW_FLUSHING else if td_eos dm then GST_FLOW_EOS else sink_result dm)"

text \<open>\<open>None\<close>: the thread waits for \<^verbatim>\<open>del_cond\<close>.\<close>

definition mpegts_demuxer_chain :: "GstBuffer \<Rightarrow> MpegTSDemuxer \<Rightarrow> (GstFlowReturn \<times> MpegTSDemuxer) option" where
  "mpegts_demuxer_chain b dm =
     (let result = get_locked_result dm
      in if int (length (sink_adapter dm)) + int (length (b_data b)) \<ge> adapter_limit_size dm \<and> result = GST_FLOW_OK then None
         else if result = GST_FLOW_OK then Some (result, dm\<lparr>sink_adapter := sink_adapter dm @ b_data b\<rparr>)
         else Some (result, dm))"

definition push_to_pad :: "ts_pad \<Rightarrow> TsStream \<Rightarrow> GstEvent \<Rightarrow> MpegTSDemuxer \<Rightarrow> MpegTSDemuxer" where
  "push_to_pad pad stream ev dm = (if ts_sourcepad stream then ts_send pad (TsEvent ev) dm else dm)"

definition mpegts_demuxer_push_to_sources :: "ts_env \<Rightarrow> GstEvent \<Rightarrow> MpegTSDemuxer \<Rightarrow> bool \<times> MpegTSDemuxer" where
  "mpegts_demuxer_push_to_sources E ev dm =
     ((ts_sourcepad (audio dm) \<longrightarrow> te_push_event E AudioPad ev) \<and> (ts_sourcepad (video dm) \<longrightarrow> te_push_event E VideoPad ev),
      push_to_pad VideoPad (video dm) ev (push_to_pad AudioPad (audio dm) ev dm))"

definition ts_segment_event :: "GstSegment \<Rightarrow> MpegTSDemuxer \<Rightarrow> MpegTSDemuxer" where
  "ts_segment_event segment dm =
     (if is_closing dm then dm
      else let dm = (if sg_format segment = GST_FORMAT_TIME
                     then dm\<lparr>audio := (audio dm)\<lparr>ts_segment := segment\<rparr>, video := (video dm)\<lparr>ts_segment := segment\<rparr>\<rparr> else dm);
               dm = dm\<lparr>audio := (audio dm)\<lparr>ts_discont := True\<rparr>, video := (video dm)\<lparr>ts_discont := True\<rparr>, td_eos := False,
                       is_last_buffer_send := False, is_reading := True\<rparr>
           in if \<not> reader_thread dm then dm\<lparr>reader_thread := True, td_pc := AtLoop PA_INIT\<rparr> else dm)"

text \<open>The handler of the start of a flush sends the event on, wakes both threads and then waits for the end of the reader;
  \<open>join_reader\<close> is what it does once that thread has ended, \<open>None\<close> while it has not.  The boolean result of the handler is
  left out.\<close>

definition mpegts_demuxer_sink_event :: "ts_env \<Rightarrow> GstEvent \<Rightarrow> MpegTSDemuxer \<Rightarrow> MpegTSDemuxer" where
  "mpegts_demuxer_sink_event E ev dm =
     (case ev of
        Eos \<Rightarrow> dm\<lparr>td_eos := True\<rparr>
      | FlushStart \<Rightarrow> (snd (mpegts_demuxer_push_to_sources E ev dm))\<lparr>td_flushing := True\<rparr>
      | FlushStop \<Rightarrow> snd (mpegts_demuxer_push_to_sources E ev ((mpegts_demuxer_flush dm)\<lparr>td_flushing := False\<rparr>))
      | Segment segment \<Rightarrow> ts_segment_event segment dm
      | _ \<Rightarrow> snd (mpegts_demuxer_push_to_sources E ev dm))"

definition join_reader :: "MpegTSDemuxer \<Rightarrow> MpegTSDemuxer option" where
  "join_reader dm = (if \<not> reader_thread dm then Some dm
     else if td_pc dm = Ended then Some (dm\<lparr>reader_thread := False\<rparr>) else None)"

subsection \<open>The callbacks of libav\<close>

text \<open>While the adapter is not limited, a reader that needs more data raises the limit so far that the data fit.\<close>

function grow_limit :: "int \<Rightarrow> int \<Rightarrow> int" where
  "grow_limit need limit = (if limit - LIMIT_STEP < need then grow_limit need (limit + LIMIT_STEP) else limit)"
  by pat_completeness auto

termination
  by (relation "measure (\<lambda>(need, limit). nat (need + LIMIT_STEP - limit))") (auto simp: ts_limits)

declare grow_limit.simps [simp del]

text \<open>The reader waits for \<^verbatim>\<open>add_cond\<close>; or it copies bytes; or it copies outside of what the adapter holds, which
  \<^verbatim>\<open>gst_adapter_copy\<close> does not allow.\<close>

datatype read_result = ReadWaits MpegTSDemuxer | Reads "octet list" MpegTSDemuxer | ReadsOutside

definition copy_from_adapter :: "nat \<Rightarrow> MpegTSDemuxer \<Rightarrow> read_result" where
  "copy_from_adapter n dm =
     (if n = 0 then Reads [] dm
      else if unat (td_offset dm) + n > length (sink_adapter dm) then ReadsOutside
      else Reads (take n (drop (unat (td_offset dm)) (sink_adapter dm)))
             (if flush_adapter dm then dm\<lparr>sink_adapter := drop n (sink_adapter dm)\<rparr>
              else dm\<lparr>td_offset := td_offset dm + of_nat n\<rparr>))"

definition mpegts_demuxer_read_packet :: "nat \<Rightarrow> MpegTSDemuxer \<Rightarrow> read_result" where
  "mpegts_demuxer_read_packet n dm =
     (let available = length (sink_adapter dm)
      in if of_nat available < td_offset dm + of_nat n \<and> \<not> td_eos dm \<and> \<not> td_flushing dm \<and> is_reading dm
         then ReadWaits (if adapter_limit_type dm = UNLIMITED
                         then dm\<lparr>adapter_limit_size := grow_limit (uint (td_offset dm + of_nat n)) (adapter_limit_size dm)\<rparr> else dm)
         else if is_reading dm \<and> \<not> td_flushing dm
         then if td_eos dm \<and> available \<le> n then copy_from_adapter available (dm\<lparr>is_last_buffer_send := True\<rparr>)
              else copy_from_adapter n dm
         else Reads [] dm)"

datatype seek_whence = SEEK_SET | SEEK_CUR | SEEK_END | SEEK_OTHER

definition mpegts_demuxer_seek :: "int \<Rightarrow> seek_whence \<Rightarrow> MpegTSDemuxer \<Rightarrow> int \<times> MpegTSDemuxer" where
  "mpegts_demuxer_seek offset whence dm =
     (let available = int (length (sink_adapter dm))
      in if whence = SEEK_SET \<and> offset \<ge> 0 \<and> offset < available
         then (uint (word_of_int offset :: u32), dm\<lparr>td_offset := word_of_int offset\<rparr>)
         else if whence = SEEK_END \<and> offset = - 1
         then (uint (word_of_int (available + offset) :: u32), dm\<lparr>td_offset := word_of_int (available + offset)\<rparr>)
         else (- 1, dm))"

subsection \<open>Pads and packets\<close>

definition mpegts_demuxer_expect_more_pads :: "MpegTSDemuxer \<Rightarrow> bool outcome" where
  "mpegts_demuxer_expect_more_pads dm =
     (case av_context dm of None \<Rightarrow> Faults | Some c \<Rightarrow> Returns (numpads dm < length (av_streams c)))"

definition mpegts_demuxer_add_pad :: "ts_pad \<Rightarrow> nat \<Rightarrow> ts_caps \<Rightarrow> MpegTSDemuxer \<Rightarrow> MpegTSDemuxer" where
  "mpegts_demuxer_add_pad pad i caps dm =
     ts_post (PadAdded pad i caps) (ts_send pad (TsEvent (Caps (case pad of AudioPad \<Rightarrow> ''audio/mpeg'' | VideoPad \<Rightarrow> ''video/x-h264''))) dm)"

definition add_numbered_pad :: "ts_pad \<Rightarrow> nat \<Rightarrow> ts_caps \<Rightarrow> MpegTSDemuxer \<Rightarrow> MpegTSDemuxer" where
  "add_numbered_pad pad i caps dm = (mpegts_demuxer_add_pad pad i caps dm)\<lparr>numpads := numpads dm + 1\<rparr>"

definition check_stream :: "nat \<Rightarrow> AVStream \<Rightarrow> MpegTSDemuxer \<Rightarrow> MpegTSDemuxer" where
  "check_stream i st dm =
     (if av_codec_type st = AVMEDIA_TYPE_VIDEO \<and> stream_index (video dm) < 0 \<and> av_codec_id st = AV_CODEC_ID_H264
      then add_numbered_pad VideoPad i \<lparr>tc_audio = None, tc_codec_data = av_extradata st\<rparr>
             (dm\<lparr>video := (video dm)\<lparr>stream_index := int i, codec_id := av_codec_id st, ts_sourcepad := True\<rparr>\<rparr>)
      else if av_codec_type st = AVMEDIA_TYPE_AUDIO \<and> stream_index (audio dm) < 0 \<and> av_codec_id st = AV_CODEC_ID_AAC
      then add_numbered_pad AudioPad i
             \<lparr>tc_audio = Some (av_channels st, av_sample_rate st, av_bit_rate st), tc_codec_data = av_extradata st\<rparr>
             (dm\<lparr>audio := (audio dm)\<lparr>stream_index := int i, codec_id := av_codec_id st, ts_sourcepad := True\<rparr>\<rparr>)
      else dm)"

text \<open>The streams are those of the context.\<close>

definition mpegts_demuxer_check_streams :: "MpegTSDemuxer \<Rightarrow> MpegTSDemuxer outcome" where
  "mpegts_demuxer_check_streams dm =
     (case av_context dm of
        None \<Rightarrow> Faults
      | Some c \<Rightarrow>
          let dm = fold (\<lambda>(i, st). check_stream i st) (enumerate 0 (av_streams c)) dm
          in Returns (if numpads dm < length (av_streams c) then dm else ts_post NoMorePads dm))"

definition same_stream :: "MpegTSDemuxer \<Rightarrow> TsStream \<Rightarrow> AVPacket \<Rightarrow> bool outcome" where
  "same_stream dm stream packet =
     (case av_context dm of
        None \<Rightarrow> Faults
      | Some c \<Rightarrow>
          if packet_stream_index packet < 0 \<or> packet_stream_index packet \<ge> int (length (av_streams c)) then Faults
          else Returns (av_codec_id (av_streams c ! nat (packet_stream_index packet)) = codec_id stream))"

text \<open>The time of a packet relative to the first one, not below zero.  The additions are those of \<^verbatim>\<open>guint64\<close>, the comparisons those
  of \<^verbatim>\<open>gint64\<close>.\<close>

definition rebase :: "u64 \<Rightarrow> u64 \<Rightarrow> TsStream \<Rightarrow> u64 \<times> u64" where
  "rebase pts base stream =
     (let base = (if base = NO_TIME then PTS_TO_GSTTIME pts + offset_time stream else base);
          time = PTS_TO_GSTTIME pts + offset_time stream - base
      in (if sint time < 0 then 0 else time, base))"

definition wrapped :: "u64 \<Rightarrow> TsStream \<Rightarrow> bool" where
  "wrapped time stream \<longleftrightarrow> last_time stream > 0 \<and> sint time < sint (last_time stream - PTS_TO_GSTTIME 0xFFFFFFFF)"

definition video_time :: "u64 \<Rightarrow> u64 \<Rightarrow> TsStream \<Rightarrow> u64 \<times> u64 \<times> TsStream" where
  "video_time pts base stream =
     (case rebase pts base stream of (time, base) \<Rightarrow>
        let diff = PTS_TO_GSTTIME (MAX_PTS + 1);
            (time, stream) =
              (if wrapped time stream
               then (time + diff,
                     if sint time < sint (last_time stream) - sint (PTS_TO_GSTTIME MAX_PTS)
                     then stream\<lparr>offset_time := offset_time stream + diff\<rparr> else stream)
               else (time, stream))
        in (time, base, stream\<lparr>last_time := time\<rparr>))"

definition audio_time :: "u64 \<Rightarrow> u64 \<Rightarrow> TsStream \<Rightarrow> u64 \<times> u64 \<times> TsStream" where
  "audio_time pts base stream =
     (case rebase pts base stream of (time, base) \<Rightarrow>
        let (time, stream) =
              (if wrapped time stream
               then let stream = stream\<lparr>offset_time := offset_time stream + PTS_TO_GSTTIME (MAX_PTS + 1)\<rparr>
                    in (PTS_TO_GSTTIME pts + offset_time stream, stream)
               else (time, stream))
        in (time, base, stream\<lparr>last_time := time\<rparr>))"

text \<open>What both kinds of packets have in common: the buffer, and a segment event before the first buffer of a segment.\<close>

definition packet_buffer :: "u64 option \<Rightarrow> bool \<Rightarrow> AVPacket \<Rightarrow> TsBuffer" where
  "packet_buffer pts discont packet =
     \<lparr>b_data = packet_data packet, b_offset = - 1, b_discont = discont, b_pts = pts,
      b_duration = (if packet_duration packet \<noteq> 0 then Some (PTS_TO_GSTTIME (packet_duration packet)) else None)\<rparr>"

definition packet_segment :: "GstSegment \<Rightarrow> GstSegment" where
  "packet_segment seg = (gst_segment_init GST_FORMAT_TIME)
     \<lparr>sg_update := sg_update seg, sg_rate := sg_rate seg, sg_start := sg_time seg, sg_stop := sg_stop seg, sg_time := sg_time seg,
      sg_position := sg_position seg\<rparr>"

definition push_packet :: "ts_env \<Rightarrow> ts_pad \<Rightarrow> TsBuffer \<Rightarrow> GstSegment option \<Rightarrow> MpegTSDemuxer \<Rightarrow> GstFlowReturn \<times> MpegTSDemuxer" where
  "push_packet E pad buffer newsegment dm =
     (let (ok, dm) = (case newsegment of
                        None \<Rightarrow> (True, dm)
                      | Some seg \<Rightarrow> (te_push_event E pad (Segment seg), ts_send pad (TsEvent (Segment seg)) dm))
      in if ok then (te_push E pad buffer, ts_send pad (TsBuffer buffer) dm) else (GST_FLOW_FLUSHING, dm))"

definition stamp_packet :: "(u64 \<Rightarrow> u64 \<Rightarrow> TsStream \<Rightarrow> u64 \<times> u64 \<times> TsStream) \<Rightarrow> AVPacket \<Rightarrow> u64 \<Rightarrow> TsStream \<Rightarrow> u64 option \<times> u64 \<times> TsStream" where
  "stamp_packet time_of packet base stream =
     (if packet_pts packet = AV_NOPTS_VALUE then (None, base, stream)
      else case time_of (packet_pts packet) base stream of (time, base, stream) \<Rightarrow> (Some time, base, stream))"

definition packet_item :: "u64 option \<Rightarrow> AVPacket \<Rightarrow> TsStream \<Rightarrow> TsBuffer \<times> GstSegment option \<times> TsStream" where
  "packet_item pts packet stream =
     (let seg = (ts_segment stream)\<lparr>sg_position := (case pts of None \<Rightarrow> NO_TIME | Some t \<Rightarrow> t)\<rparr>
      in (packet_buffer pts (ts_discont stream) packet, if ts_discont stream then Some (packet_segment seg) else None,
          stream\<lparr>ts_segment := seg, ts_discont := False\<rparr>))"

definition process_video_packet :: "ts_env \<Rightarrow> AVPacket \<Rightarrow> MpegTSDemuxer \<Rightarrow> (GstFlowReturn \<times> MpegTSDemuxer) outcome" where
  "process_video_packet E packet dm =
     (case same_stream dm (video dm) packet of
        Faults \<Rightarrow> Faults
      | Returns False \<Rightarrow> Returns (GST_FLOW_OK, dm)
      | Returns True \<Rightarrow>
          if \<not> te_alloc_packet E then Returns (GST_FLOW_ERROR, dm)
          else case stamp_packet video_time packet (base_pts dm) (video dm) of (pts, base, stream) \<Rightarrow>
               case packet_item pts packet stream of (buffer, newsegment, stream) \<Rightarrow>
                 Returns (push_packet E VideoPad buffer newsegment (dm\<lparr>video := stream, base_pts := base\<rparr>)))"

definition process_audio_packet :: "ts_env \<Rightarrow> AVPacket \<Rightarrow> MpegTSDemuxer \<Rightarrow> (GstFlowReturn \<times> MpegTSDemuxer) outcome" where
  "process_audio_packet E packet dm =
     (case same_stream dm (audio dm) packet of
        Faults \<Rightarrow> Faults
      | Returns False \<Rightarrow> Returns (GST_FLOW_OK, dm)
      | Returns True \<Rightarrow>
          if \<not> te_alloc_packet E then Returns (GST_FLOW_ERROR, dm)
          else case stamp_packet audio_time packet (base_pts dm) (audio dm) of (pts, base, stream) \<Rightarrow>
               case packet_item pts packet stream of (buffer, newsegment, stream) \<Rightarrow>
                 Returns (push_packet E AudioPad buffer newsegment (dm\<lparr>audio := stream, base_pts := base\<rparr>)))"

subsection \<open>The reader thread\<close>

text \<open>What libav does next in the call the reader is in: it calls one of the callbacks, or it returns.  \<open>AvStreams\<close> is the result of
  \<^verbatim>\<open>avformat_find_stream_info\<close> with the streams it has found, \<open>AvFrame\<close> that of \<^verbatim>\<open>av_read_frame\<close> with its packet.\<close>

datatype av_act = AvRead nat | AvSeek int seek_whence | AvOpened int | AvStreams int "AVStream list" int | AvFrame int AVPacket

text \<open>What libav sees.\<close>

datatype av_obs = ObsRead "octet list" | ObsSeek int

definition get_init_action :: "MpegTSDemuxer \<Rightarrow> int \<Rightarrow> (ParseAction \<times> MpegTSDemuxer) outcome" where
  "get_init_action dm ret =
     (if ret < 0 then
        if \<not> td_flushing dm \<and> av_context dm = None
        then case mpegts_demuxer_expect_more_pads dm of
               Faults \<Rightarrow> Faults
             | Returns expected \<Rightarrow> Returns (PA_STOP, if expected then ts_post (DemuxerError ret) dm else dm)
        else Returns (PA_STOP, dm)
      else Returns (PA_READ_FRAME, dm))"

text \<open>The first part of the case \<^verbatim>\<open>PA_INIT\<close>, up to the call of \<^verbatim>\<open>avformat_open_input\<close>; \<^verbatim>\<open>avformat_alloc_context\<close> succeeds.\<close>

definition begin_init :: "ts_env \<Rightarrow> MpegTSDemuxer \<Rightarrow> MpegTSDemuxer" where
  "begin_init E dm =
     (if \<not> te_alloc_io E \<or> \<not> te_alloc_context E then (ts_post AllocError dm)\<lparr>td_pc := Ended\<rparr>
      else dm\<lparr>av_context := Some \<lparr>av_streams = [], context_bit_rate = 0\<rparr>, adapter_limit_type := UNLIMITED,
              adapter_limit_size := ADAPTER_LIMIT, td_pc := InOpen\<rparr>)"

text \<open>When \<^verbatim>\<open>avformat_open_input\<close> fails it frees the context and clears the pointer.\<close>

definition opened :: "int \<Rightarrow> MpegTSDemuxer \<Rightarrow> MpegTSDemuxer outcome" where
  "opened ret dm =
     (let dm = (if ret < 0 then dm\<lparr>av_context := None\<rparr> else dm)
      in case get_init_action dm ret of
           Faults \<Rightarrow> Faults
         | Returns (action, dm) \<Rightarrow> Returns (dm\<lparr>td_pc := if action = PA_READ_FRAME then InProbe else AtLoop action\<rparr>))"

text \<open>What was read while probing is taken out of the adapter, which from now on is flushed as it is read.\<close>

definition end_probe :: "MpegTSDemuxer \<Rightarrow> MpegTSDemuxer" where
  "end_probe dm =
     (let available = length (sink_adapter dm)
      in dm\<lparr>adapter_limit_type := LIMITED,
            sink_adapter := drop (if (of_nat available :: u32) > td_offset dm then unat (td_offset dm) else available) (sink_adapter dm),
            flush_adapter := True, td_offset := 0\<rparr>)"

definition probed :: "int \<Rightarrow> AVStream list \<Rightarrow> int \<Rightarrow> MpegTSDemuxer \<Rightarrow> MpegTSDemuxer outcome" where
  "probed ret streams bit_rate dm =
     (let dm = dm\<lparr>av_context := map_option (\<lambda>_. \<lparr>av_streams = streams, context_bit_rate = bit_rate\<rparr>) (av_context dm)\<rparr>
      in case get_init_action dm ret of
           Faults \<Rightarrow> Faults
         | Returns (action, dm) \<Rightarrow>
             (case mpegts_demuxer_check_streams (end_probe dm) of
                Faults \<Rightarrow> Faults
              | Returns dm \<Rightarrow> Returns (dm\<lparr>td_pc := AtLoop action\<rparr>)))"

definition mpegts_demuxer_read_frame :: "ts_env \<Rightarrow> int \<Rightarrow> AVPacket \<Rightarrow> MpegTSDemuxer \<Rightarrow> (ParseAction \<times> MpegTSDemuxer) outcome" where
  "mpegts_demuxer_read_frame E ret packet dm =
     (if ret = 0 then
        case (if packet_stream_index packet = stream_index (video dm) then process_video_packet E packet dm
              else if packet_stream_index packet = stream_index (audio dm) then process_audio_packet E packet dm
              else Returns (GST_FLOW_OK, dm)) of
          Faults \<Rightarrow> Faults
        | Returns (flow_result, dm) \<Rightarrow>
            Returns (if flow_result \<noteq> GST_FLOW_OK
                     then (PA_STOP, if flow_result \<noteq> GST_FLOW_FLUSHING then ts_post SendPacketFailed dm else dm)
                     else (PA_READ_FRAME, dm))
      else Returns (PA_STOP, if td_eos dm \<and> is_last_buffer_send dm then snd (mpegts_demuxer_push_to_sources E Eos dm)
                             else ts_post (StreamParseError ret) dm))"

text \<open>One turn of the loop of \<^verbatim>\<open>process_input\<close>, up to the next call of libav.\<close>

definition loop_turn :: "ts_env \<Rightarrow> ParseAction \<Rightarrow> MpegTSDemuxer \<Rightarrow> MpegTSDemuxer" where
  "loop_turn E action dm =
     (if \<not> is_reading dm then dm\<lparr>td_pc := Ended\<rparr>
      else case action of
             PA_INIT \<Rightarrow> begin_init E dm
           | PA_READ_FRAME \<Rightarrow> dm\<lparr>td_pc := InReadFrame\<rparr>
           | PA_STOP \<Rightarrow> dm\<lparr>is_reading := False, av_context := None, td_pc := AtLoop PA_STOP\<rparr>)"

datatype ts_step = Steps "av_obs list" MpegTSDemuxer | Blocks MpegTSDemuxer | Crashes

definition callback :: "av_act \<Rightarrow> MpegTSDemuxer \<Rightarrow> ts_step" where
  "callback a dm =
     (case a of
        AvRead n \<Rightarrow>
          (case mpegts_demuxer_read_packet n dm of
             ReadWaits dm \<Rightarrow> Blocks dm | Reads data dm \<Rightarrow> Steps [ObsRead data] dm | ReadsOutside \<Rightarrow> Crashes)
      | AvSeek offset whence \<Rightarrow> (case mpegts_demuxer_seek offset whence dm of (r, dm) \<Rightarrow> Steps [ObsSeek r] dm)
      | _ \<Rightarrow> Steps [] dm)"

definition no_obs :: "MpegTSDemuxer outcome \<Rightarrow> ts_step" where
  "no_obs r = (case r of Faults \<Rightarrow> Crashes | Returns dm \<Rightarrow> Steps [] dm)"

definition mpegts_demuxer_process_input :: "ts_env \<Rightarrow> av_act \<Rightarrow> MpegTSDemuxer \<Rightarrow> ts_step" where
  "mpegts_demuxer_process_input E a dm =
     (case td_pc dm of
        AtLoop action \<Rightarrow> Steps [] (loop_turn E action dm)
      | InOpen \<Rightarrow> (case a of AvOpened ret \<Rightarrow> no_obs (opened ret dm) | _ \<Rightarrow> callback a dm)
      | InProbe \<Rightarrow> (case a of AvStreams ret streams rate \<Rightarrow> no_obs (probed ret streams rate dm) | _ \<Rightarrow> callback a dm)
      | InReadFrame \<Rightarrow>
          (case a of
             AvFrame ret packet \<Rightarrow>
               (case mpegts_demuxer_read_frame E ret packet dm of
                  Faults \<Rightarrow> Crashes | Returns (action, dm) \<Rightarrow> Steps [] (dm\<lparr>td_pc := AtLoop action\<rparr>))
           | _ \<Rightarrow> callback a dm)
      | _ \<Rightarrow> Steps [] dm)"

subsection \<open>Closing, queries and state changes\<close>

text \<open>\<^verbatim>\<open>close\<close> tells the reader to end and waits for it; \<open>close_joined\<close> is what follows.\<close>

definition mpegts_demuxer_close :: "MpegTSDemuxer \<Rightarrow> MpegTSDemuxer" where
  "mpegts_demuxer_close dm = dm\<lparr>is_reading := False, is_closing := True\<rparr>"

definition close_joined :: "MpegTSDemuxer \<Rightarrow> MpegTSDemuxer option" where
  "close_joined dm = map_option (\<lambda>dm. mpegts_demuxer_flush (dm\<lparr>av_context := None\<rparr>)) (join_reader dm)"

definition gint64_times :: "int \<Rightarrow> int \<Rightarrow> int" where
  "gint64_times a b = sint (word_of_int a * word_of_int b :: u64)"

text \<open>The answer to a duration query; the product is one of \<^verbatim>\<open>gint64\<close>.  \<open>peer\<close> is the answer of the element upstream to a query in time format, which is also
  used for the approximation in bytes.\<close>

datatype ts_query_answer = PeerAnswers | DurationBytes int | QueryRefused | NotAnswered

definition mpegts_demuxer_sink_query :: "GstFormat \<Rightarrow> int option \<Rightarrow> MpegTSDemuxer \<Rightarrow> ts_query_answer" where
  "mpegts_demuxer_sink_query format peer dm =
     (if format = GST_FORMAT_BYTES then
        let bit_rate = (case av_context dm of None \<Rightarrow> 0 | Some c \<Rightarrow> context_bit_rate c)
        in if bit_rate > 0 then
             case peer of
               None \<Rightarrow> QueryRefused
             | Some duration \<Rightarrow>
                 DurationBytes (if duration \<noteq> - 1 then trunc_int (real_of_int (gint64_times duration bit_rate) / real_of_int GST_SECOND_ns / 8) else duration)
           else PeerAnswers
      else if format = GST_FORMAT_TIME then PeerAnswers else NotAnswered)"

definition mpegts_demuxer_change_state ::
  "(MpegTSDemuxer \<Rightarrow> bool \<times> MpegTSDemuxer) \<Rightarrow> state_change \<Rightarrow> MpegTSDemuxer \<Rightarrow> bool \<times> MpegTSDemuxer" where
  "mpegts_demuxer_change_state parent transition dm =
     (case parent (if transition = NULL_TO_READY then mpegts_demuxer_init_state dm else dm) of (ok, dm) \<Rightarrow>
        if ok \<and> transition = READY_TO_NULL then (ok, mpegts_demuxer_close dm) else (ok, dm))"

end
