(* ===== verification/Ts_Streams.thy ===== *)
theory Ts_Streams
  imports HLS_Streams Ts_Demuxer
begin

text \<open>
  What libav gets to read from \<^verbatim>\<open>mpegtsdemuxer.c\<close>, for every interleaving of the streaming thread, the reader thread and the
  callbacks of libav: while it probes the stream, a file that it may seek in; afterwards the same bytes as a queue of bounded length.
  The two threads never wait for each other, and the demultiplexer composes with the buffer for HTTP live streaming.
\<close>

subsection \<open>Schedules\<close>

datatype ts_turn = UpTurn | ReaderTurn av_act

type_synonym ts_config = "pad_item list \<times> MpegTSDemuxer"

definition up_turn :: "ts_env \<Rightarrow> ts_config \<Rightarrow> ts_config" where
  "up_turn E = (\<lambda>(items, dm).
     case items of
       [] \<Rightarrow> (items, dm)
     | PadBuffer b # rest \<Rightarrow> (case mpegts_demuxer_chain b dm of None \<Rightarrow> (items, dm) | Some (_, dm) \<Rightarrow> (rest, dm))
     | PadEvent ev # rest \<Rightarrow> (rest, mpegts_demuxer_sink_event E ev dm))"

fun ts_run :: "ts_env \<Rightarrow> ts_turn list \<Rightarrow> ts_config \<Rightarrow> (av_obs list \<times> ts_config) outcome" where
  "ts_run E [] cf = Returns ([], cf)"
| "ts_run E (UpTurn # ts) cf = ts_run E ts (up_turn E cf)"
| "ts_run E (ReaderTurn a # ts) (items, dm) =
     (case mpegts_demuxer_process_input E a dm of
        Crashes \<Rightarrow> Faults
      | Blocks dm \<Rightarrow> ts_run E ts (items, dm)
      | Steps obs dm \<Rightarrow> (case ts_run E ts (items, dm) of Faults \<Rightarrow> Faults | Returns (obs', cf) \<Rightarrow> Returns (obs @ obs', cf)))"

text \<open>A stream without flushes, in which nothing follows end of stream.\<close>

fun plain_items :: "pad_item list \<Rightarrow> bool" where
  "plain_items [] \<longleftrightarrow> True"
| "plain_items (PadBuffer b # items) \<longleftrightarrow> plain_items items"
| "plain_items (PadEvent Eos # items) \<longleftrightarrow> items = []"
| "plain_items (PadEvent ev # items) \<longleftrightarrow> ev \<noteq> FlushStart \<and> ev \<noteq> FlushStop \<and> plain_items items"

text \<open>What libav documents: it reads at most the size of its buffer, probes far less than a gigabyte, seeks only while it probes
  and not in an empty stream, and returns packets of streams it has announced.  Two situations the demultiplexer does not handle are
  excluded here and treated below: that the stream cannot be opened, and that it ends while it is probed.\<close>

fun libav_allowed :: "av_act \<Rightarrow> MpegTSDemuxer \<Rightarrow> bool" where
  "libav_allowed (AvRead n) dm \<longleftrightarrow> 0 < n \<and> n \<le> BUFFER_SIZE \<and>
     (td_pc dm = InReadFrame \<or> \<not> td_eos dm \<and> length (sink_adapter dm) \<le> 2 ^ 30)"
| "libav_allowed (AvSeek offset whence) dm \<longleftrightarrow> td_pc dm \<noteq> InReadFrame \<and> sink_adapter dm \<noteq> [] \<and> length (sink_adapter dm) \<le> 2 ^ 30"
| "libav_allowed (AvOpened ret) dm \<longleftrightarrow> 0 \<le> ret"
| "libav_allowed (AvStreams ret streams rate) dm \<longleftrightarrow> length (sink_adapter dm) \<le> 2 ^ 30"
| "libav_allowed (AvFrame ret packet) dm \<longleftrightarrow> ret = 0 \<longrightarrow>
     (case av_context dm of None \<Rightarrow> False | Some c \<Rightarrow> 0 \<le> packet_stream_index packet \<and> packet_stream_index packet < int (length (av_streams c)))"

fun disciplined :: "ts_env \<Rightarrow> ts_turn list \<Rightarrow> ts_config \<Rightarrow> bool" where
  "disciplined E [] cf \<longleftrightarrow> True"
| "disciplined E (UpTurn # ts) cf \<longleftrightarrow> disciplined E ts (up_turn E cf)"
| "disciplined E (ReaderTurn a # ts) (items, dm) \<longleftrightarrow>
     (td_pc dm \<in> {InOpen, InProbe, InReadFrame} \<longrightarrow> libav_allowed a dm) \<and>
     (case mpegts_demuxer_process_input E a dm of
        Crashes \<Rightarrow> True | Blocks dm \<Rightarrow> disciplined E ts (items, dm) | Steps obs dm \<Rightarrow> disciplined E ts (items, dm))"

text \<open>The specification: \<open>follow bytes pos obs\<close> is the position after the observations \<open>obs\<close> of somebody who reads the file \<open>bytes\<close>
  from the position \<open>pos\<close> on; none if an observation does not agree with the file.\<close>

fun follow :: "octet list \<Rightarrow> nat \<Rightarrow> av_obs list \<Rightarrow> nat option" where
  "follow bytes pos [] = Some pos"
| "follow bytes pos (ObsRead data # obs) =
     (if data = take (length data) (drop pos bytes) then follow bytes (pos + length data) obs else None)"
| "follow bytes pos (ObsSeek r # obs) = follow bytes (if 0 \<le> r then nat r else pos) obs"

lemma follow_append: "follow bytes pos (obs @ obs') = Option.bind (follow bytes pos obs) (\<lambda>pos. follow bytes pos obs')"
  by (induction bytes pos obs rule: follow.induct) auto

subsection \<open>The limit of the adapter\<close>

lemma grow_limit_enough: "need \<le> grow_limit need limit - LIMIT_STEP"
proof (induction need limit rule: grow_limit.induct)
  case (1 need limit)
  then show ?case
    by (subst grow_limit.simps) auto
qed

lemma grow_limit_bound: "limit \<le> grow_limit need limit \<and> grow_limit need limit \<le> max limit (need + 2 * LIMIT_STEP)"
proof (induction need limit rule: grow_limit.induct)
  case (1 need limit)
  show ?case
  proof (cases "limit - LIMIT_STEP < need")
    case True
    then have "grow_limit need limit = grow_limit need (limit + LIMIT_STEP)"
      by (subst grow_limit.simps) simp
    with 1 True show ?thesis
      by (auto simp: ts_limits)
  next
    case False
    then show ?thesis
      by (subst grow_limit.simps, simp)+
  qed
qed

subsection \<open>The invariant\<close>

text \<open>\<open>got\<close> are the bytes taken over so far and \<open>pos\<close> is the position of libav.  Until the probe has ended the adapter holds all of
  them; then what libav has not read yet.\<close>

definition phase_ok :: "octet list \<Rightarrow> nat \<Rightarrow> MpegTSDemuxer \<Rightarrow> bool" where
  "phase_ok got pos dm \<longleftrightarrow>
     (if flush_adapter dm then td_offset dm = 0 \<and> sink_adapter dm = drop pos got \<and> pos \<le> length got \<and> adapter_limit_type dm = LIMITED
      else pos = unat (td_offset dm) \<and> sink_adapter dm = got \<and> pos \<le> length got \<and> adapter_limit_type dm = UNLIMITED)"

fun pc_ok :: "reader_pc \<Rightarrow> MpegTSDemuxer \<Rightarrow> bool" where
  "pc_ok NotStarted dm \<longleftrightarrow> \<not> flush_adapter dm \<and> td_offset dm = 0"
| "pc_ok (AtLoop PA_INIT) dm \<longleftrightarrow> \<not> flush_adapter dm \<and> td_offset dm = 0 \<and> int (length (sink_adapter dm)) < ADAPTER_LIMIT"
| "pc_ok (AtLoop PA_READ_FRAME) dm \<longleftrightarrow> flush_adapter dm \<and> av_context dm \<noteq> None"
| "pc_ok (AtLoop PA_STOP) dm \<longleftrightarrow> True"
| "pc_ok InOpen dm \<longleftrightarrow> \<not> flush_adapter dm \<and> av_context dm \<noteq> None"
| "pc_ok InProbe dm \<longleftrightarrow> \<not> flush_adapter dm \<and> av_context dm \<noteq> None"
| "pc_ok InReadFrame dm \<longleftrightarrow> flush_adapter dm \<and> av_context dm \<noteq> None"
| "pc_ok Ended dm \<longleftrightarrow> True"

definition ts_inv :: "octet list \<Rightarrow> nat \<Rightarrow> ts_config \<Rightarrow> bool" where
  "ts_inv media pos = (\<lambda>(items, dm). \<exists>got.
     media = got @ payload items \<and> plain_items items \<and> (td_eos dm \<longrightarrow> items = []) \<and> phase_ok got pos dm \<and> pc_ok (td_pc dm) dm \<and>
     \<not> td_flushing dm \<and> sink_result dm = GST_FLOW_OK \<and> int (length (sink_adapter dm)) < adapter_limit_size dm \<and>
     ADAPTER_LIMIT \<le> adapter_limit_size dm \<and> adapter_limit_size dm \<le> 2 ^ 31 \<and> (td_pc dm = NotStarted \<longleftrightarrow> \<not> reader_thread dm) \<and>
     (td_pc dm \<in> {NotStarted, AtLoop PA_INIT} \<longrightarrow> adapter_limit_size dm = ADAPTER_LIMIT))"

text \<open>The part of the state that the packets, the pads and the messages of the demultiplexer have nothing to do with.\<close>

definition core :: "MpegTSDemuxer \<Rightarrow> octet list \<times> u32 \<times> bool \<times> int \<times> LimitType \<times> bool \<times> bool \<times> GstFlowReturn \<times> bool \<times> AVFormatContext option \<times> reader_pc" where
  "core dm = (sink_adapter dm, td_offset dm, flush_adapter dm, adapter_limit_size dm, adapter_limit_type dm, td_eos dm, td_flushing dm,
     sink_result dm, reader_thread dm, av_context dm, td_pc dm)"

lemma core_eqD:
  assumes "core dm' = core dm"
  shows "sink_adapter dm' = sink_adapter dm" "td_offset dm' = td_offset dm" "flush_adapter dm' = flush_adapter dm"
    "adapter_limit_size dm' = adapter_limit_size dm" "adapter_limit_type dm' = adapter_limit_type dm" "td_eos dm' = td_eos dm"
    "td_flushing dm' = td_flushing dm" "sink_result dm' = sink_result dm" "reader_thread dm' = reader_thread dm"
    "av_context dm' = av_context dm" "td_pc dm' = td_pc dm"
  using assms by (simp_all add: core_def)

lemma core_simps [simp]:
  "core (ts_send pad item dm) = core dm" "core (ts_post m dm) = core dm" "core (push_to_pad pad stream ev dm) = core dm"
  "core (snd (mpegts_demuxer_push_to_sources E ev dm)) = core dm" "core (add_numbered_pad pad i caps dm) = core dm"
  "core (snd (push_packet E pad buffer newsegment dm)) = core dm" "core (dm\<lparr>video := v\<rparr>) = core dm" "core (dm\<lparr>audio := a\<rparr>) = core dm"
  "core (dm\<lparr>base_pts := t\<rparr>) = core dm" "core (dm\<lparr>is_last_buffer_send := b\<rparr>) = core dm" "core (dm\<lparr>is_reading := b\<rparr>) = core dm"
  by (simp_all add: core_def ts_send_def ts_post_def push_to_pad_def mpegts_demuxer_push_to_sources_def add_numbered_pad_def mpegts_demuxer_add_pad_def
      push_packet_def Let_def split: option.split)

lemma core_check_stream [simp]: "core (check_stream i st dm) = core dm"
  by (simp add: check_stream_def)

lemma core_check_streams: "core (fold (\<lambda>(i, st). check_stream i st) xs dm) = core dm"
  by (induction xs arbitrary: dm) auto

lemma pc_ok_cong:
  "sink_adapter dm' = sink_adapter dm \<Longrightarrow> td_offset dm' = td_offset dm \<Longrightarrow> flush_adapter dm' = flush_adapter dm \<Longrightarrow>
   av_context dm' = av_context dm \<Longrightarrow> pc_ok pc dm' = pc_ok pc dm"
  by (induction pc dm rule: pc_ok.induct) auto

lemma phase_ok_cong:
  "sink_adapter dm' = sink_adapter dm \<Longrightarrow> td_offset dm' = td_offset dm \<Longrightarrow> flush_adapter dm' = flush_adapter dm \<Longrightarrow>
   adapter_limit_type dm' = adapter_limit_type dm \<Longrightarrow> phase_ok got pos dm' = phase_ok got pos dm"
  by (simp add: phase_ok_def)

lemma ts_inv_core:
  assumes "core dm' = core dm"
  shows "ts_inv media pos (items, dm') = ts_inv media pos (items, dm)"
proof -
  note eqs = core_eqD [OF assms]
  show ?thesis
    using pc_ok_cong [OF eqs(1,2,3,10)] phase_ok_cong [OF eqs(1,2,3,5)] by (simp add: ts_inv_def eqs)
qed

text \<open>The program counter moves on.\<close>

lemma ts_inv_pc:
  assumes "ts_inv media pos (items, dm)" "pc_ok pc dm" "pc \<noteq> NotStarted" "td_pc dm \<noteq> NotStarted" "pc \<noteq> AtLoop PA_INIT"
  shows "ts_inv media pos (items, dm\<lparr>td_pc := pc\<rparr>)"
  using assms pc_ok_cong [of "dm\<lparr>td_pc := pc\<rparr>" dm pc] phase_ok_cong [of "dm\<lparr>td_pc := pc\<rparr>" dm] by (auto simp: ts_inv_def)

lemma inv_up:
  assumes "ts_inv media pos (items, dm)"
  shows "ts_inv media pos (up_turn E (items, dm))"
proof -
  obtain got where g: "media = got @ payload items" "plain_items items" "td_eos dm \<longrightarrow> items = []" "phase_ok got pos dm" "pc_ok (td_pc dm) dm"
     "\<not> td_flushing dm" "sink_result dm = GST_FLOW_OK" "int (length (sink_adapter dm)) < adapter_limit_size dm"
     "ADAPTER_LIMIT \<le> adapter_limit_size dm \<and> adapter_limit_size dm \<le> 2 ^ 31" "td_pc dm = NotStarted \<longleftrightarrow> \<not> reader_thread dm" "td_pc dm \<in> {NotStarted, AtLoop PA_INIT} \<longrightarrow> adapter_limit_size dm = ADAPTER_LIMIT"
    using assms by (auto simp: ts_inv_def)
  show ?thesis
  proof (cases items)
    case Nil
    with assms show ?thesis by (simp add: up_turn_def)
  next
    case (Cons item rest)
    then have ne: "\<not> td_eos dm" using g(3) by auto
    show ?thesis
    proof (cases item)
      case (PadBuffer b)
      show ?thesis
      proof (cases "mpegts_demuxer_chain b dm")
        case None
        with assms Cons PadBuffer show ?thesis by (simp add: up_turn_def)
      next
        case (Some r)
        define dm' where "dm' = dm\<lparr>sink_adapter := sink_adapter dm @ b_data b\<rparr>"
        have r: "snd r = dm'" and room: "int (length (sink_adapter dm')) < adapter_limit_size dm"
          using Some ne g(6,7) by (auto simp: mpegts_demuxer_chain_def get_locked_result_def dm'_def Let_def split: if_splits)
        have "pc_ok (td_pc dm) dm'"
          using g(5,11) room by (cases "(td_pc dm, dm)" rule: pc_ok.cases) (auto simp: dm'_def)
        moreover have "phase_ok (got @ b_data b) pos dm'"
          using g(4) by (auto simp: phase_ok_def dm'_def)
        ultimately have "ts_inv media pos (rest, dm')"
          using g Cons PadBuffer room ne by (auto simp: ts_inv_def dm'_def)
        with Some r Cons PadBuffer show ?thesis
          by (cases r) (simp add: up_turn_def)
      qed
    next
      case (PadEvent ev)
      define dm' where "dm' = mpegts_demuxer_sink_event E ev dm"
      have u: "up_turn E (items, dm) = (rest, dm')"
        using Cons PadEvent by (simp add: up_turn_def dm'_def)
      have "plain_items (PadEvent ev # rest)"
        using g(2) Cons PadEvent by simp
      then have p: "plain_items rest" "ev \<noteq> FlushStart" "ev \<noteq> FlushStop" "ev = Eos \<Longrightarrow> rest = []"
        by (cases ev; simp)+
      have rest: "ts_inv media pos (rest, dm)"
        using assms Cons PadEvent p(1) ne by (auto simp: ts_inv_def)
      consider (seg) sg where "ev = Segment sg" | (eos) "ev = Eos" | (other) "dm' = snd (mpegts_demuxer_push_to_sources E ev dm)"
      proof -
        have "(\<exists>sg. ev = Segment sg) \<or> ev = Eos \<or> dm' = snd (mpegts_demuxer_push_to_sources E ev dm)"
          using p(2,3) by (cases ev) (simp_all add: dm'_def mpegts_demuxer_sink_event_def)
        then show ?thesis using that by blast
      qed
      then have "ts_inv media pos (rest, dm')"
      proof cases
        case seg
        show ?thesis
        proof (cases "is_closing dm")
          case True
          with seg rest show ?thesis by (simp add: dm'_def mpegts_demuxer_sink_event_def ts_segment_event_def)
        next
          case running: False
          define dm1 where "dm1 = (if sg_format sg = GST_FORMAT_TIME
            then dm\<lparr>audio := (audio dm)\<lparr>ts_segment := sg\<rparr>, video := (video dm)\<lparr>ts_segment := sg\<rparr>\<rparr> else dm)"
          define dm2 where "dm2 = dm1\<lparr>audio := (audio dm1)\<lparr>ts_discont := True\<rparr>, video := (video dm1)\<lparr>ts_discont := True\<rparr>, td_eos := False,
             is_last_buffer_send := False, is_reading := True\<rparr>"
          have c: "core dm2 = core dm"
            using ne by (simp add: core_def dm2_def dm1_def)
          have d: "dm' = (if \<not> reader_thread dm2 then dm2\<lparr>reader_thread := True, td_pc := AtLoop PA_INIT\<rparr> else dm2)"
            using seg running by (simp add: dm'_def mpegts_demuxer_sink_event_def ts_segment_event_def Let_def dm2_def dm1_def)
          have i2: "ts_inv media pos (rest, dm2)"
            using rest ts_inv_core [OF c] by simp
          show ?thesis
          proof (cases "reader_thread dm2")
            case True
            with d i2 show ?thesis by simp
          next
            case False
            define dm3 where "dm3 = dm2\<lparr>reader_thread := True, td_pc := AtLoop PA_INIT\<rparr>"
            have "phase_ok got pos dm3 = phase_ok got pos dm2" for got
              by (rule phase_ok_cong) (simp_all add: dm3_def)
            with i2 False have "ts_inv media pos (rest, dm3)"
              by (auto simp: ts_inv_def dm3_def)
            with False d show ?thesis by (simp add: dm3_def)
          qed
        qed
      next
        case eos
        define dm1 where "dm1 = dm\<lparr>td_eos := True\<rparr>"
        have "phase_ok got pos dm1 = phase_ok got pos dm" "pc_ok (td_pc dm) dm1 = pc_ok (td_pc dm) dm" for got
          by (rule phase_ok_cong pc_ok_cong; simp add: dm1_def)+
        with rest p(4) [OF eos] eos show ?thesis
          by (auto simp: ts_inv_def dm'_def mpegts_demuxer_sink_event_def dm1_def)
      next
        case other
        with rest ts_inv_core [of dm' dm media pos rest] show ?thesis by simp
      qed
      with u show ?thesis by simp
    qed
  qed
qed

subsection \<open>The callbacks of libav\<close>

lemma u32_of_nat: "n < 2 ^ 32 \<Longrightarrow> unat (of_nat n :: u32) = n"
  by (simp add: unsigned_of_nat take_bit_nat_eq_self)

lemma ts_invD:
  assumes "ts_inv media pos (items, dm)"
  obtains got where "media = got @ payload items" "phase_ok got pos dm" "length (sink_adapter dm) < 2 ^ 31" "\<not> td_flushing dm"
    "int (length (sink_adapter dm)) < adapter_limit_size dm" "adapter_limit_size dm \<le> 2 ^ 31" "pc_ok (td_pc dm) dm"
proof -
  from assms have "int (length (sink_adapter dm)) < 2 ^ 31"
    unfolding ts_inv_def by (auto simp del: of_nat_less_numeral_iff)
  then have "length (sink_adapter dm) < 2 ^ 31" by simp
  with assms that show ?thesis by (auto simp: ts_inv_def)
qed

text \<open>A copy gives the bytes at the position of libav and moves it on.\<close>

lemma copy_ok:
  assumes inv: "ts_inv media pos (items, dm)" and n: "unat (td_offset dm) + n \<le> length (sink_adapter dm)"
    and pc: "td_pc dm \<in> {InOpen, InProbe, InReadFrame}"
  shows "\<exists>data dm'. copy_from_adapter n dm = Reads data dm' \<and> length data = n \<and> data = take n (drop pos media) \<and>
    ts_inv media (pos + n) (items, dm') \<and> td_pc dm' = td_pc dm"
proof (cases "n = 0")
  case True
  with inv show ?thesis by (simp add: copy_from_adapter_def)
next
  case False
  obtain got where g: "media = got @ payload items" "phase_ok got pos dm" "length (sink_adapter dm) < 2 ^ 31"
    using ts_invD [OF inv] by metis
  define data where "data = take n (drop (unat (td_offset dm)) (sink_adapter dm))"
  define dm' where "dm' = (if flush_adapter dm then dm\<lparr>sink_adapter := drop n (sink_adapter dm)\<rparr> else dm\<lparr>td_offset := td_offset dm + of_nat n\<rparr>)"
  have c: "copy_from_adapter n dm = Reads data dm'"
    using False n by (simp add: copy_from_adapter_def data_def dm'_def)
  have posn: "pos + n \<le> length got" and data: "data = take n (drop pos got)"
    using g(2) n False by (auto simp: phase_ok_def data_def split: if_splits)
  have "unat (td_offset dm + of_nat n) = unat (td_offset dm) + n"
    using n g(3) by (simp add: unat_add_fits u32_of_nat)
  then have ph: "phase_ok got (pos + n) dm'"
    using g(2) n posn by (auto simp: phase_ok_def dm'_def add.commute split: if_splits)
  have "pc_ok (td_pc dm) dm' = pc_ok (td_pc dm) dm"
    using pc by (auto simp: dm'_def)
  then have "ts_inv media (pos + n) (items, dm')"
    using inv ph pc g(1) by (auto simp: ts_inv_def dm'_def)
  moreover have "length data = n"
    using posn data by simp
  ultimately show ?thesis
    using c data posn g(1) by (auto simp: dm'_def)
qed

definition good_step :: "octet list \<Rightarrow> nat \<Rightarrow> pad_item list \<Rightarrow> ts_step \<Rightarrow> bool" where
  "good_step media pos items st \<longleftrightarrow>
     (case st of
        Crashes \<Rightarrow> False
      | Blocks dm \<Rightarrow> ts_inv media pos (items, dm)
      | Steps obs dm \<Rightarrow> \<exists>pos'. follow media pos obs = Some pos' \<and> ts_inv media pos' (items, dm))"

lemma copy_step:
  assumes "ts_inv media pos (items, dm)" "unat (td_offset dm) + n \<le> length (sink_adapter dm)" "td_pc dm \<in> {InOpen, InProbe, InReadFrame}"
  shows "good_step media pos items
    (case copy_from_adapter n dm of ReadWaits dm \<Rightarrow> Blocks dm | Reads data dm \<Rightarrow> Steps [ObsRead data] dm | ReadsOutside \<Rightarrow> Crashes)"
  using copy_ok [OF assms] by (auto simp: good_step_def)

text \<open>The reader waits: only the limit of the adapter may change, and there is room for what is needed.\<close>

lemma wait_ok:
  assumes inv: "ts_inv media pos (items, dm)" and pc: "td_pc dm \<in> {InOpen, InProbe, InReadFrame}" and n: "n \<le> BUFFER_SIZE"
    and small: "td_pc dm \<noteq> InReadFrame \<Longrightarrow> length (sink_adapter dm) \<le> 2 ^ 30"
    and dm': "dm' = (if adapter_limit_type dm = UNLIMITED
       then dm\<lparr>adapter_limit_size := grow_limit (uint (td_offset dm + of_nat n)) (adapter_limit_size dm)\<rparr> else dm)"
  shows "ts_inv media pos (items, dm')"
proof (cases "adapter_limit_type dm = UNLIMITED")
  case False
  with inv dm' show ?thesis by simp
next
  case True
  define L where "L = grow_limit (uint (td_offset dm + of_nat n)) (adapter_limit_size dm)"
  obtain got where g: "phase_ok got pos dm" "pc_ok (td_pc dm) dm" "adapter_limit_size dm \<le> 2 ^ 31"
    using ts_invD [OF inv] by metis
  have fa: "\<not> flush_adapter dm"
    using g(1) True by (auto simp: phase_ok_def split: if_splits)
  then have "td_pc dm \<noteq> InReadFrame" "unat (td_offset dm) \<le> length (sink_adapter dm)"
    using g pc by (auto simp: phase_ok_def)
  with small have off: "unat (td_offset dm) \<le> 2 ^ 30" by simp
  have "unat (td_offset dm + of_nat n) \<le> unat (td_offset dm) + n"
    using n off by (simp add: unat_add_fits u32_of_nat BUFFER_SIZE_def)
  then have "unat (td_offset dm + of_nat n) \<le> 1073745920"
    using off n by (simp add: BUFFER_SIZE_def)
  then have "uint (td_offset dm + of_nat n) \<le> 1073745920"
    by (subst uint_nat) linarith
  then have L: "adapter_limit_size dm \<le> L" "L \<le> 2 ^ 31"
    using grow_limit_bound [of "adapter_limit_size dm" "uint (td_offset dm + of_nat n)"] g(3)
    by (auto simp: L_def ts_limits max_def split: if_splits)
  define dm1 where "dm1 = dm\<lparr>adapter_limit_size := L\<rparr>"
  have "phase_ok got pos dm1 = phase_ok got pos dm" "pc_ok (td_pc dm) dm1 = pc_ok (td_pc dm) dm" for got
    by (rule phase_ok_cong pc_ok_cong; simp add: dm1_def)+
  with inv L pc have "ts_inv media pos (items, dm1)"
    by (auto simp: ts_inv_def dm1_def)
  with True dm' show ?thesis by (simp add: dm1_def L_def)
qed

lemma read_step:
  assumes inv: "ts_inv media pos (items, dm)" and pc: "td_pc dm \<in> {InOpen, InProbe, InReadFrame}" and a: "libav_allowed (AvRead n) dm"
  shows "good_step media pos items (callback (AvRead n) dm)"
proof -
  obtain got where g: "phase_ok got pos dm" "length (sink_adapter dm) < 2 ^ 31" "pc_ok (td_pc dm) dm" "\<not> td_flushing dm"
    using ts_invD [OF inv] by metis
  have n: "n \<le> BUFFER_SIZE" and small: "td_pc dm \<noteq> InReadFrame \<Longrightarrow> \<not> td_eos dm \<and> length (sink_adapter dm) \<le> 2 ^ 30"
    using a by auto
  have off: "unat (td_offset dm) \<le> length (sink_adapter dm)"
    using g(1) by (auto simp: phase_ok_def split: if_splits)
  have eos: "td_offset dm = 0" if "td_eos dm"
  proof -
    have "flush_adapter dm" using that small g(3) by (cases "td_pc dm = InReadFrame") auto
    then show ?thesis using g(1) by (simp add: phase_ok_def)
  qed
  have sum: "unat (td_offset dm + of_nat n) = unat (td_offset dm) + n"
    using off g(2) n by (simp add: unat_add_fits u32_of_nat BUFFER_SIZE_def)
  show ?thesis
  proof (cases "of_nat (length (sink_adapter dm)) < td_offset dm + of_nat n \<and> \<not> td_eos dm \<and> \<not> td_flushing dm \<and> is_reading dm")
    case True
    define dm' where "dm' = (if adapter_limit_type dm = UNLIMITED
       then dm\<lparr>adapter_limit_size := grow_limit (uint (td_offset dm + of_nat n)) (adapter_limit_size dm)\<rparr> else dm)"
    have "callback (AvRead n) dm = Blocks dm'"
      using True by (simp add: callback_def mpegts_demuxer_read_packet_def dm'_def Let_def)
    with wait_ok [OF inv pc n _ dm'_def] small show ?thesis by (auto simp: good_step_def)
  next
    case enough: False
    show ?thesis
    proof (cases "is_reading dm")
      case False
      with enough inv show ?thesis
        by (auto simp: callback_def mpegts_demuxer_read_packet_def good_step_def Let_def)
    next
      case True
      show ?thesis
      proof (cases "td_eos dm \<and> length (sink_adapter dm) \<le> n")
        case last: True
        define dm1 where "dm1 = dm\<lparr>is_last_buffer_send := True\<rparr>"
        have "ts_inv media pos (items, dm1)" "td_pc dm1 \<in> {InOpen, InProbe, InReadFrame}"
            "unat (td_offset dm1) + length (sink_adapter dm) \<le> length (sink_adapter dm1)"
          using inv ts_inv_core [of dm1 dm] pc eos last by (auto simp: dm1_def)
        from copy_step [OF this(1,3,2)] show ?thesis
          using enough True last g(4) by (simp add: callback_def mpegts_demuxer_read_packet_def dm1_def Let_def)
      next
        case notlast: False
        have "unat (td_offset dm) + n \<le> length (sink_adapter dm)"
        proof (cases "td_eos dm")
          case True
          with notlast eos show ?thesis by simp
        next
          case False
          then have "td_offset dm + of_nat n \<le> of_nat (length (sink_adapter dm))"
            using enough True g(4) by simp
          then show ?thesis
            using sum g(2) by (simp add: word_le_nat_alt u32_of_nat)
        qed
        from copy_step [OF inv this pc] show ?thesis
          using enough True notlast g(4) by (auto simp: callback_def mpegts_demuxer_read_packet_def Let_def)
      qed
    qed
  qed
qed

lemma seek_step:
  assumes inv: "ts_inv media pos (items, dm)" and pc: "td_pc dm \<in> {InOpen, InProbe, InReadFrame}" and a: "libav_allowed (AvSeek offset whence) dm"
  shows "good_step media pos items (callback (AvSeek offset whence) dm)"
proof -
  obtain r dm' where s: "mpegts_demuxer_seek offset whence dm = (r, dm')"
    by (rule prod.exhaust)
  obtain got where g: "phase_ok got pos dm" "pc_ok (td_pc dm) dm"
    using ts_invD [OF inv] by metis
  have fa: "\<not> flush_adapter dm" and got: "sink_adapter dm = got" "got \<noteq> []" "length got \<le> 2 ^ 30"
    using g a pc by (auto simp: phase_ok_def)
  have "(r = - 1 \<and> dm' = dm) \<or> (\<exists>q < length got. r = int q \<and> dm' = dm\<lparr>td_offset := of_nat q\<rparr>)"
  proof -
    have moves: "\<exists>q < length got. uint (word_of_int i :: u32) = int q \<and> (word_of_int i :: u32) = of_nat q" if "0 \<le> i" "i < int (length got)" for i
    proof -
      have "nat i < 2 ^ 32" using that got(3) by simp
      then have "unat (of_nat (nat i) :: u32) = nat i" by (rule u32_of_nat)
      then show ?thesis
        using that by (intro exI [of _ "nat i"]) (simp add: uint_nat)
    qed
    have "0 \<le> int (length got) + - 1" "int (length got) + - 1 < int (length got)"
      using got(2) by (cases got; simp)+
    note end_seek = moves [OF this]
    show ?thesis
    proof (cases "whence = SEEK_SET \<and> offset \<ge> 0 \<and> offset < int (length got)")
      case True
      with moves [of offset] s got(1) show ?thesis
        by (auto simp: mpegts_demuxer_seek_def Let_def)
    next
      case False
      with end_seek s got(1) show ?thesis
        unfolding mpegts_demuxer_seek_def Let_def by (auto simp del: of_int_add split: if_splits)
    qed
  qed
  then consider (stay) "r = - 1" "dm' = dm" | (move) q where "q < length got" "r = int q" "dm' = dm\<lparr>td_offset := of_nat q\<rparr>"
    by blast
  then show ?thesis
  proof cases
    case stay
    with inv s show ?thesis by (simp add: callback_def good_step_def)
  next
    case move
    have "phase_ok got q dm'" "pc_ok (td_pc dm) dm'"
      using g pc move(1,3) got fa by (auto simp: phase_ok_def u32_of_nat)
    with inv move pc fa got have "ts_inv media q (items, dm')"
      by (auto simp: ts_inv_def phase_ok_def)
    with s move show ?thesis by (simp add: callback_def good_step_def)
  qed
qed

subsection \<open>The reader thread\<close>

lemma inv_context: "ts_inv media pos (items, dm) \<Longrightarrow> td_pc dm \<in> {InOpen, InProbe, InReadFrame} \<Longrightarrow> av_context dm \<noteq> None"
  by (auto simp: ts_inv_def)

text \<open>Changes to the libav context do not matter as long as there is one.\<close>

lemma ts_inv_context:
  assumes "ts_inv media pos (items, dm)" "av_context dm \<noteq> None"
  shows "ts_inv media pos (items, dm\<lparr>av_context := Some c\<rparr>)"
proof -
  define dm' where "dm' = dm\<lparr>av_context := Some c\<rparr>"
  have "phase_ok got pos dm' = phase_ok got pos dm" for got
    by (rule phase_ok_cong) (simp_all add: dm'_def)
  moreover have "pc_ok (td_pc dm) dm \<Longrightarrow> pc_ok (td_pc dm) dm'"
    using assms(2) by (cases "(td_pc dm, dm)" rule: pc_ok.cases) (auto simp: dm'_def)
  ultimately show ?thesis
    using assms(1) by (auto simp: ts_inv_def dm'_def [symmetric]) (auto simp: dm'_def)
qed

lemma begin_init_inv:
  assumes "ts_inv media pos (items, dm)" "td_pc dm = AtLoop PA_INIT"
  shows "ts_inv media pos (items, begin_init E dm)"
proof (cases "te_alloc_io E \<and> te_alloc_context E")
  case False
  have "ts_inv media pos (items, ts_post AllocError dm)"
    using assms(1) by (subst ts_inv_core) simp_all
  moreover have "td_pc (ts_post AllocError dm) \<noteq> NotStarted"
    using assms(2) by (simp add: ts_post_def)
  ultimately show ?thesis
    using False ts_inv_pc [of media pos items "ts_post AllocError dm" Ended] by (auto simp: begin_init_def)
next
  case True
  define dm' where "dm' = begin_init E dm"
  have d: "dm' = dm\<lparr>av_context := Some \<lparr>av_streams = [], context_bit_rate = 0\<rparr>, adapter_limit_type := UNLIMITED,
              adapter_limit_size := ADAPTER_LIMIT, td_pc := InOpen\<rparr>"
    using True by (simp add: dm'_def begin_init_def)
  obtain got where g: "phase_ok got pos dm" "pc_ok (td_pc dm) dm"
    using ts_invD [OF assms(1)] by metis
  have "phase_ok got pos dm' \<longleftrightarrow> phase_ok got pos dm" for got
    using g assms(2) by (auto simp: phase_ok_def d)
  then show ?thesis
    using assms by (auto simp: ts_inv_def dm'_def [symmetric] d ts_limits)
qed

lemma loop_turn_inv:
  assumes inv: "ts_inv media pos (items, dm)" and pc: "td_pc dm = AtLoop action"
  shows "ts_inv media pos (items, loop_turn E action dm)"
proof (cases "is_reading dm")
  case False
  with ts_inv_pc [OF inv, of Ended] pc show ?thesis by (simp add: loop_turn_def)
next
  case True
  have ok: "pc_ok (AtLoop action) dm"
    using inv pc by (auto simp: ts_inv_def)
  show ?thesis
  proof (cases action)
    case PA_INIT
    with begin_init_inv [OF inv] pc True show ?thesis by (simp add: loop_turn_def)
  next
    case PA_READ_FRAME
    with ts_inv_pc [OF inv, of InReadFrame] pc ok True show ?thesis by (simp add: loop_turn_def)
  next
    case PA_STOP
    define dm' where "dm' = dm\<lparr>is_reading := False, av_context := None, td_pc := AtLoop PA_STOP\<rparr>"
    have "phase_ok got pos dm' = phase_ok got pos dm" for got
      by (rule phase_ok_cong) (simp_all add: dm'_def)
    with inv pc PA_STOP have "ts_inv media pos (items, dm')"
      by (auto simp: ts_inv_def dm'_def)
    with PA_STOP True show ?thesis by (simp add: loop_turn_def dm'_def)
  qed
qed

text \<open>At the end of the probe the position of libav becomes the front of the adapter.\<close>

lemma end_probe_inv:
  assumes inv: "ts_inv media pos (items, dm)" and pc: "td_pc dm = InProbe" and small: "length (sink_adapter dm) \<le> 2 ^ 30"
    and act: "action \<noteq> PA_INIT"
  shows "ts_inv media pos (items, (end_probe dm)\<lparr>td_pc := AtLoop action\<rparr>)"
proof -
  define dm' where "dm' = (end_probe dm)\<lparr>td_pc := AtLoop action\<rparr>"
  have fa: "\<not> flush_adapter dm" and ctx: "av_context dm \<noteq> None"
    using inv pc by (auto simp: ts_inv_def)
  have cut: "(if (of_nat (length (sink_adapter dm)) :: u32) > td_offset dm then unat (td_offset dm) else length (sink_adapter dm)) = pos"
    if "phase_ok got pos dm" for got
  proof -
    have "pos = unat (td_offset dm)" "pos \<le> length (sink_adapter dm)"
      using that fa by (auto simp: phase_ok_def)
    then show ?thesis
      using small by (auto simp: word_less_nat_alt u32_of_nat)
  qed
  have "phase_ok got pos dm'" if "phase_ok got pos dm" for got
    using that fa cut [OF that] by (auto simp: phase_ok_def dm'_def end_probe_def Let_def)
  moreover have "pc_ok (AtLoop action) dm'"
    using act ctx by (cases action) (auto simp: dm'_def end_probe_def Let_def)
  moreover have "length (sink_adapter dm') \<le> length (sink_adapter dm)"
    by (simp add: dm'_def end_probe_def Let_def)
  ultimately show ?thesis
    using inv pc act unfolding ts_inv_def dm'_def [symmetric] by (force simp: dm'_def end_probe_def Let_def)
qed

lemma core_pc: "core x = core y \<Longrightarrow> core (x\<lparr>td_pc := pc\<rparr>) = core (y\<lparr>td_pc := pc\<rparr>)"
  by (simp add: core_def)

lemma packet_core:
  assumes "libav_allowed (AvFrame 0 packet) dm"
  shows "\<exists>flow dm'. process_video_packet E packet dm = Returns (flow, dm') \<and> core dm' = core dm"
    "\<exists>flow dm'. process_audio_packet E packet dm = Returns (flow, dm') \<and> core dm' = core dm"
proof -
  have same: "\<exists>b. same_stream dm stream packet = Returns b" for stream
    using assms by (auto simp: same_stream_def split: option.splits)
  have push: "\<exists>flow dm'. push_packet E pad buffer seg dm0 = (flow, dm') \<and> core dm' = core dm0" for pad buffer seg dm0
    using core_simps(6) [of E pad buffer seg dm0] by (metis prod.collapse)
  have "\<exists>flow dm'. push_packet E pad buffer seg (dm\<lparr>video := v, base_pts := t\<rparr>) = (flow, dm') \<and> core dm' = core dm"
    "\<exists>flow dm'. push_packet E pad buffer seg (dm\<lparr>audio := v, base_pts := t\<rparr>) = (flow, dm') \<and> core dm' = core dm" for pad buffer seg v t
    using push [of pad buffer seg "dm\<lparr>video := v, base_pts := t\<rparr>"] push [of pad buffer seg "dm\<lparr>audio := v, base_pts := t\<rparr>"]
    by (simp_all add: core_def)
  with same [of "video dm"] same [of "audio dm"]
  show "\<exists>flow dm'. process_video_packet E packet dm = Returns (flow, dm') \<and> core dm' = core dm"
    "\<exists>flow dm'. process_audio_packet E packet dm = Returns (flow, dm') \<and> core dm' = core dm"
    by (auto simp: process_video_packet_def process_audio_packet_def split: bool.split prod.split)
qed

lemma read_frame_core:
  assumes "libav_allowed (AvFrame ret packet) dm"
  shows "\<exists>action dm'. mpegts_demuxer_read_frame E ret packet dm = Returns (action, dm') \<and> core dm' = core dm \<and> action \<noteq> PA_INIT"
proof (cases "ret = 0")
  case True
  with assms obtain vf vdm af adm where v: "process_video_packet E packet dm = Returns (vf, vdm)" "core vdm = core dm"
    and a: "process_audio_packet E packet dm = Returns (af, adm)" "core adm = core dm"
    using packet_core [of packet dm E] by blast
  then show ?thesis
    by (auto simp: mpegts_demuxer_read_frame_def)
qed (simp add: mpegts_demuxer_read_frame_def)

lemma probed_inv:
  assumes inv: "ts_inv media pos (items, dm)" and pc: "td_pc dm = InProbe" and small: "length (sink_adapter dm) \<le> 2 ^ 30"
  shows "\<exists>dm'. probed ret streams rate dm = Returns dm' \<and> ts_inv media pos (items, dm')"
proof -
  define c where "c = \<lparr>av_streams = streams, context_bit_rate = rate\<rparr>"
  define dm1 where "dm1 = dm\<lparr>av_context := Some c\<rparr>"
  have ctx: "av_context dm \<noteq> None"
    using inv_context [OF inv] pc by simp
  have inv1: "ts_inv media pos (items, dm1)"
    using ts_inv_context [OF inv ctx] by (simp add: dm1_def)
  define action where "action = (if ret < 0 then PA_STOP else PA_READ_FRAME)"
  define dm2 where "dm2 = fold (\<lambda>(i, st). check_stream i st) (enumerate 0 streams) (end_probe dm1)"
  define dm3 where "dm3 = (if numpads dm2 < length streams then dm2 else ts_post NoMorePads dm2)"
  have init: "get_init_action dm1 ret = Returns (action, dm1)"
    by (simp add: get_init_action_def action_def dm1_def)
  have "mpegts_demuxer_check_streams (end_probe dm1) = Returns dm3"
    by (simp add: mpegts_demuxer_check_streams_def end_probe_def dm3_def dm2_def dm1_def c_def Let_def)
  then have "probed ret streams rate dm = Returns (dm3\<lparr>td_pc := AtLoop action\<rparr>)"
    using init ctx by (auto simp: probed_def dm1_def c_def Let_def)
  moreover have "core dm3 = core (end_probe dm1)"
    using core_check_streams [of "enumerate 0 streams" "end_probe dm1"] by (simp add: dm3_def dm2_def)
  then have "ts_inv media pos (items, dm3\<lparr>td_pc := AtLoop action\<rparr>)"
    using end_probe_inv [OF inv1, of action] pc small ts_inv_core [OF core_pc, of dm3 "end_probe dm1"]
    by (simp add: dm1_def action_def)
  ultimately show ?thesis by blast
qed

lemma inv_reader:
  assumes inv: "ts_inv media pos (items, dm)" and allowed: "td_pc dm \<in> {InOpen, InProbe, InReadFrame} \<longrightarrow> libav_allowed a dm"
  shows "good_step media pos items (mpegts_demuxer_process_input E a dm)"
proof -
  have stays: "good_step media pos items (Steps [] dm)"
    using inv by (simp add: good_step_def)
  have cb: "good_step media pos items (callback a dm)" if "td_pc dm \<in> {InOpen, InProbe, InReadFrame}"
    using read_step [OF inv that] seek_step [OF inv that] allowed that stays by (cases a) (auto simp: callback_def)
  have al: "libav_allowed a dm" if "td_pc dm \<in> {InOpen, InProbe, InReadFrame}"
    using allowed that by blast
  show ?thesis
  proof (cases "td_pc dm")
    case (AtLoop action)
    with loop_turn_inv [OF inv AtLoop, of E] show ?thesis
      by (simp add: mpegts_demuxer_process_input_def good_step_def)
  next
    case InOpen
    have "good_step media pos items (no_obs (opened ret dm))" if "0 \<le> ret" for ret
      using that ts_inv_pc [OF inv, of InProbe] inv InOpen
      by (auto simp: opened_def get_init_action_def no_obs_def good_step_def Let_def ts_inv_def)
    with InOpen cb al show ?thesis
      by (cases a) (auto simp: mpegts_demuxer_process_input_def)
  next
    case InProbe
    have "good_step media pos items (no_obs (probed ret streams rate dm))" if "length (sink_adapter dm) \<le> 2 ^ 30" for ret streams rate
      using probed_inv [OF inv InProbe that, of ret streams rate] by (auto simp: no_obs_def good_step_def)
    with InProbe cb al show ?thesis
      by (cases a) (auto simp: mpegts_demuxer_process_input_def)
  next
    case InReadFrame
    show ?thesis
    proof (cases a)
      case (AvFrame ret packet)
      obtain action dm' where r: "mpegts_demuxer_read_frame E ret packet dm = Returns (action, dm')" "core dm' = core dm" "action \<noteq> PA_INIT"
        using read_frame_core al InReadFrame AvFrame by blast
      have inv': "ts_inv media pos (items, dm')"
        using inv ts_inv_core [OF r(2)] by simp
      have "pc_ok (AtLoop action) dm'" "td_pc dm' = InReadFrame"
        using inv' core_eqD(11) [OF r(2)] InReadFrame r(3) by (cases action; auto simp: ts_inv_def)+
      then have "ts_inv media pos (items, dm'\<lparr>td_pc := AtLoop action\<rparr>)"
        using ts_inv_pc [OF inv', of "AtLoop action"] r(3) by simp
      with InReadFrame AvFrame r(1) show ?thesis
        by (simp add: mpegts_demuxer_process_input_def good_step_def)
    qed (use InReadFrame cb in \<open>auto simp: mpegts_demuxer_process_input_def\<close>)
  qed (use stays in \<open>simp_all add: mpegts_demuxer_process_input_def\<close>)
qed

subsection \<open>Every schedule\<close>

lemma ts_run_inv:
  "ts_inv media pos (items, dm) \<Longrightarrow> disciplined E ts (items, dm) \<Longrightarrow>
   \<exists>obs pos' items' dm'. ts_run E ts (items, dm) = Returns (obs, items', dm') \<and> follow media pos obs = Some pos' \<and> ts_inv media pos' (items', dm')"
proof (induction ts arbitrary: pos items dm)
  case (Cons t ts)
  show ?case
  proof (cases t)
    case UpTurn
    obtain items1 dm1 where u: "up_turn E (items, dm) = (items1, dm1)"
      by (rule prod.exhaust)
    then have "ts_inv media pos (items1, dm1)"
      using inv_up [OF Cons.prems(1), of E] by simp
    with Cons.IH [of pos items1 dm1] Cons.prems(2) UpTurn u show ?thesis
      by auto
  next
    case (ReaderTurn a)
    have "td_pc dm \<in> {InOpen, InProbe, InReadFrame} \<longrightarrow> libav_allowed a dm"
      using Cons.prems(2) ReaderTurn by simp
    from inv_reader [OF Cons.prems(1) this, of E] have good: "good_step media pos items (mpegts_demuxer_process_input E a dm)" .
    show ?thesis
    proof (cases "mpegts_demuxer_process_input E a dm")
      case (Steps obs dm1)
      with good obtain pos1 where p: "follow media pos obs = Some pos1" "ts_inv media pos1 (items, dm1)"
        by (auto simp: good_step_def)
      have "disciplined E ts (items, dm1)"
        using Cons.prems(2) ReaderTurn Steps by simp
      from Cons.IH [OF p(2) this] obtain obs' pos' items' dm' where
        "ts_run E ts (items, dm1) = Returns (obs', items', dm')" "follow media pos1 obs' = Some pos'" "ts_inv media pos' (items', dm')"
        by blast
      with p(1) ReaderTurn Steps show ?thesis
        by (intro exI [of _ "obs @ obs'"] exI [of _ pos'] exI [of _ items'] exI [of _ dm']) (simp add: follow_append)
    next
      case (Blocks dm1)
      with good Cons.IH [of pos items dm1] Cons.prems(2) ReaderTurn show ?thesis
        by (auto simp: good_step_def)
    next
      case Crashes
      with good show ?thesis by (simp add: good_step_def)
    qed
  qed
qed simp

text \<open>The element in the state Paused, its sink pad activated.\<close>

definition ts_new :: MpegTSDemuxer where
  "ts_new = snd (mpegts_demuxer_activatemode GST_PAD_MODE_PUSH True (mpegts_demuxer_init_state mpegts_demuxer_init))"

lemma ts_new_inv: "plain_items items \<Longrightarrow> ts_inv (payload items) 0 (items, ts_new)"
  by (simp add: ts_inv_def ts_new_def mpegts_demuxer_init_state_def mpegts_demuxer_flush_def mpegts_demuxer_init_def phase_ok_def ts_limits Let_def)


lemma disciplined_last:
  assumes "disciplined E (ts @ [ReaderTurn a]) cf"
  shows "disciplined E ts cf" "ts_run E ts cf = Returns (obs, items', dm) \<Longrightarrow> td_pc dm \<in> {InOpen, InProbe, InReadFrame} \<Longrightarrow> libav_allowed a dm"
proof -
  have "disciplined E ts cf \<and> (case ts_run E ts cf of Faults \<Rightarrow> True
      | Returns (obs, items', dm) \<Rightarrow> td_pc dm \<in> {InOpen, InProbe, InReadFrame} \<longrightarrow> libav_allowed a dm)"
    using assms by (induction E ts cf rule: ts_run.induct) (auto split: ts_step.splits outcome.splits)
  then show "disciplined E ts cf" "ts_run E ts cf = Returns (obs, items', dm) \<Longrightarrow> td_pc dm \<in> {InOpen, InProbe, InReadFrame} \<Longrightarrow> libav_allowed a dm"
    by auto
qed

text \<open>While the reader waits, there is room for a buffer.\<close>

lemma waiting_leaves_room:
  assumes "phase_ok got pos dm" "length (sink_adapter dm) < 2 ^ 31" "libav_allowed (AvRead n) dm" "ADAPTER_LIMIT \<le> adapter_limit_size dm"
    "mpegts_demuxer_read_packet n dm = ReadWaits dm'" "m \<le> 40960"
  shows "int (length (sink_adapter dm)) + int m < adapter_limit_size dm' \<and> sink_adapter dm' = sink_adapter dm"
proof -
  have waits: "of_nat (length (sink_adapter dm)) < td_offset dm + of_nat n \<and> \<not> td_eos dm \<and> \<not> td_flushing dm \<and> is_reading dm"
    and d: "dm' = (if adapter_limit_type dm = UNLIMITED
       then dm\<lparr>adapter_limit_size := grow_limit (uint (td_offset dm + of_nat n)) (adapter_limit_size dm)\<rparr> else dm)"
    using assms(5) by (auto simp: mpegts_demuxer_read_packet_def copy_from_adapter_def Let_def split: if_splits)
  have off: "unat (td_offset dm) \<le> length (sink_adapter dm)" and n: "n \<le> 4096"
    using assms(1,3) by (auto simp: phase_ok_def BUFFER_SIZE_def split: if_splits)
  then have sum: "unat (td_offset dm + of_nat n) = unat (td_offset dm) + n"
    using assms(2) by (simp add: unat_add_fits u32_of_nat)
  then have less: "length (sink_adapter dm) < unat (td_offset dm) + n"
    using waits assms(2) by (simp add: word_less_nat_alt u32_of_nat)
  show ?thesis
  proof (cases "adapter_limit_type dm = UNLIMITED")
    case True
    define need where "need = uint (td_offset dm + of_nat n)"
    have "need = int (unat (td_offset dm) + n)"
      unfolding need_def by (subst uint_nat) (simp only: sum)
    then have "int (length (sink_adapter dm)) < need"
      using less by linarith
    then show ?thesis
      using True assms(6) grow_limit_enough [of need "adapter_limit_size dm"] by (simp add: d need_def ts_limits)
  next
    case False
    then have "td_offset dm = 0"
      using assms(1) by (auto simp: phase_ok_def split: if_splits)
    then show ?thesis
      using False less n assms(4,6) by (simp add: d ts_limits)
  qed
qed

text \<open>C15: The two threads of the demultiplexer never wait for each other: whenever the reader waits for data, a buffer of at most
  40960 bytes fits into the adapter, while the stream is probed (when the reader raises the limit) as well as afterwards.\<close>

theorem ts_no_deadlock:
  assumes "plain_items items" "disciplined E (ts @ [ReaderTurn (AvRead n)]) (items, ts_new)"
    "ts_run E ts (items, ts_new) = Returns (obs, items', dm)" "mpegts_demuxer_process_input E (AvRead n) dm = Blocks dm'"
    "length (b_data b) \<le> 40960"
  shows "mpegts_demuxer_chain b dm' \<noteq> None"
proof -
  obtain pos where inv: "ts_inv (payload items) pos (items', dm)"
    using ts_run_inv [OF ts_new_inv [OF assms(1)] disciplined_last(1) [OF assms(2)]] assms(3) by auto
  have call: "td_pc dm \<in> {InOpen, InProbe, InReadFrame}"
    using assms(4) by (cases "td_pc dm") (auto simp: mpegts_demuxer_process_input_def)
  then have al: "libav_allowed (AvRead n) dm"
    using disciplined_last(2) [OF assms(2,3)] by simp
  have "callback (AvRead n) dm = Blocks dm'"
    using assms(4) call by (auto simp: mpegts_demuxer_process_input_def)
  then have rd: "mpegts_demuxer_read_packet n dm = ReadWaits dm'"
    by (auto simp: callback_def split: read_result.splits)
  obtain got where g: "phase_ok got pos dm" "length (sink_adapter dm) < 2 ^ 31"
    using ts_invD [OF inv] by metis
  have "ADAPTER_LIMIT \<le> adapter_limit_size dm"
    using inv by (auto simp: ts_inv_def)
  then show ?thesis
    using waiting_leaves_room [OF g al _ rd assms(5)] by (simp add: mpegts_demuxer_chain_def Let_def)
qed

subsection \<open>The end of the stream\<close>

lemma eos_read:
  assumes "td_eos dm" "\<not> td_flushing dm" "is_reading dm" "td_pc dm = InReadFrame" "flush_adapter dm" "td_offset dm = 0"
  shows "mpegts_demuxer_process_input E (AvRead n) dm = Steps [ObsRead (take n (sink_adapter dm))]
    (dm\<lparr>is_last_buffer_send := is_last_buffer_send dm \<or> length (sink_adapter dm) \<le> n, sink_adapter := drop n (sink_adapter dm)\<rparr>)"
  using assms by (auto simp: mpegts_demuxer_process_input_def callback_def mpegts_demuxer_read_packet_def copy_from_adapter_def Let_def)

lemma ts_drain:
  assumes "ts_inv media pos ([], dm)" "td_eos dm" "is_reading dm" "td_pc dm = InReadFrame" "length (sink_adapter dm) \<le> k * n"
    and n: "0 < n" "n \<le> BUFFER_SIZE"
  shows "\<exists>obs dm'. ts_run E (replicate (Suc k) (ReaderTurn (AvRead n)) @ rest) ([], dm) =
      (case ts_run E rest ([], dm') of Faults \<Rightarrow> Faults | Returns (o2, cf) \<Rightarrow> Returns (obs @ o2, cf)) \<and>
    follow media pos obs = Some (length media) \<and> td_eos dm' \<and> is_last_buffer_send dm' \<and> td_pc dm' = InReadFrame \<and>
    td_out dm' = td_out dm \<and> ts_sourcepad (audio dm') = ts_sourcepad (audio dm) \<and> ts_sourcepad (video dm') = ts_sourcepad (video dm)"
  using assms(1-5)
proof (induction k arbitrary: pos dm)
  case (0 pos dm)
  have "flush_adapter dm \<and> td_offset dm = 0 \<and> \<not> td_flushing dm \<and> pos = length media"
    using "0.prems" by (auto simp: ts_inv_def phase_ok_def)
  with eos_read [of dm E n] "0.prems" show ?case
    by (intro exI [of _ "[ObsRead []]"] exI [of _ "dm\<lparr>is_last_buffer_send := True, sink_adapter := []\<rparr>"]) simp
next
  case (Suc k pos dm)
  define dm1 where "dm1 = dm\<lparr>is_last_buffer_send := is_last_buffer_send dm \<or> length (sink_adapter dm) \<le> n, sink_adapter := drop n (sink_adapter dm)\<rparr>"
  have "flush_adapter dm \<and> td_offset dm = 0 \<and> \<not> td_flushing dm"
    using Suc.prems by (auto simp: ts_inv_def phase_ok_def)
  then have st: "mpegts_demuxer_process_input E (AvRead n) dm = Steps [ObsRead (take n (sink_adapter dm))] dm1"
    using eos_read [of dm E n] Suc.prems by (simp add: dm1_def)
  have "good_step media pos [] (mpegts_demuxer_process_input E (AvRead n) dm)"
    using inv_reader [OF Suc.prems(1)] Suc.prems(4) n by simp
  then obtain pos1 where p: "follow media pos [ObsRead (take n (sink_adapter dm))] = Some pos1" "ts_inv media pos1 ([], dm1)"
    using st by (auto simp: good_step_def simp del: follow.simps)
  have "td_eos dm1" "is_reading dm1" "td_pc dm1 = InReadFrame" "length (sink_adapter dm1) \<le> k * n"
    using Suc.prems by (auto simp: dm1_def)
  from Suc.IH [OF p(2) this] obtain obs dm' where
    ih: "ts_run E (replicate (Suc k) (ReaderTurn (AvRead n)) @ rest) ([], dm1) =
      (case ts_run E rest ([], dm') of Faults \<Rightarrow> Faults | Returns (o2, cf) \<Rightarrow> Returns (obs @ o2, cf))"
    "follow media pos1 obs = Some (length media)" "td_eos dm'" "is_last_buffer_send dm'" "td_pc dm' = InReadFrame"
    "td_out dm' = td_out dm1" "ts_sourcepad (audio dm') = ts_sourcepad (audio dm1)" "ts_sourcepad (video dm') = ts_sourcepad (video dm1)"
    by blast
  have "follow media pos (ObsRead (take n (sink_adapter dm)) # obs) = Some (length media)"
    using p(1) ih(2) follow_append [of media pos "[ObsRead (take n (sink_adapter dm))]" obs] by (simp del: follow.simps)
  with ih st show ?case
    by (intro exI [of _ "ObsRead (take n (sink_adapter dm)) # obs"] exI [of _ dm'])
      (auto simp: dm1_def simp del: follow.simps split: outcome.splits)
qed

definition eos_items :: "MpegTSDemuxer \<Rightarrow> (ts_pad \<times> ts_item) list" where
  "eos_items dm = (if ts_sourcepad (audio dm) then [(AudioPad, TsEvent Eos)] else []) @
     (if ts_sourcepad (video dm) then [(VideoPad, TsEvent Eos)] else [])"


subsection \<open>From the play list to libav\<close>

definition no_flush :: "pad_item \<Rightarrow> bool" where
  "no_flush item \<longleftrightarrow> item \<noteq> PadEvent FlushStart \<and> item \<noteq> PadEvent FlushStop"

lemma plain_event: "ev \<noteq> FlushStart \<Longrightarrow> ev \<noteq> FlushStop \<Longrightarrow> plain_items [PadEvent ev]"
  by (cases ev) auto

lemma plain_snoc: "plain_items xs \<Longrightarrow> PadEvent Eos \<notin> set xs \<Longrightarrow> no_flush item \<Longrightarrow> plain_items (xs @ [item])"
proof (induction xs rule: plain_items.induct)
  case 1
  then show ?case using plain_event by (cases item) (auto simp: no_flush_def)
qed auto

definition adds_item :: "HLSProgressBuffer \<Rightarrow> HLSProgressBuffer \<Rightarrow> bool" where
  "adds_item hb hb' \<longleftrightarrow> hb_out hb' = hb_out hb \<or> (\<exists>item. hb_out hb' = hb_out hb @ [item] \<and> no_flush item)"

lemma await_out: "await_cache sg hb = Returns hb' \<Longrightarrow> hb_out hb' = hb_out hb"
  by (auto simp: await_cache_def claim_cache_def hb_post_def Let_def split: if_splits option.splits)

lemma resume_out: "resume_writer hb = Returns hb' \<Longrightarrow> hb_out hb' = hb_out hb"
  by (auto simp: resume_writer_def split: option.splits if_splits dest: await_out)

lemma segment_out: "segment_event E sg hb = Returns hb' \<Longrightarrow> adds_item hb hb'"
  by (auto simp: segment_event_def adds_item_def no_flush_def hb_send_def Let_def split: if_splits dest!: await_out)

lemma chain_out: "hls_progress_buffer_chain E b hb = Returns (r, hb') \<Longrightarrow> hb_out hb' = hb_out hb"
  by (auto simp: hls_progress_buffer_chain_def Let_def split: if_splits option.splits)

lemma event_out: "hls_progress_buffer_sink_event E ev hb = Returns hb' \<Longrightarrow> no_flush (PadEvent ev) \<Longrightarrow> adds_item hb hb'"
  by (cases ev) (auto simp: hls_progress_buffer_sink_event_def hb_post_def hb_send_def no_flush_def adds_item_def dest: segment_out [unfolded adds_item_def no_flush_def])

lemma source_out:
  assumes "source_turn E (items, hb) = Returns (items', hb')" "\<forall>item \<in> set items. no_flush item"
  shows "adds_item hb hb' \<and> (\<forall>item \<in> set items'. no_flush item)"
proof (cases "waiting_segment hb")
  case (Some sg)
  with assms show ?thesis
    by (auto simp: source_turn_def adds_item_def split: outcome.splits dest: resume_out)
next
  case None
  show ?thesis
  proof (cases items)
    case Nil
    with assms None show ?thesis by (simp add: source_turn_def adds_item_def)
  next
    case (Cons item rest)
    with assms None show ?thesis
      by (cases item) (auto simp: source_turn_def split: outcome.splits dest: chain_out event_out [unfolded adds_item_def] simp: adds_item_def)
  qed
qed

lemma task_out:
  assumes "task_turn E (items, hb) = Returns (items', hb')" "he_meanwhile E = (\<lambda>hb. hb)"
  shows "adds_item hb hb' \<and> items' = items"
proof -
  have "adds_item hb hb1" if "hls_progress_buffer_loop E hb = HEnds hb1 \<or> hls_progress_buffer_loop E hb = HWaits hb1" for hb1
    using that assms(2)
    by (auto simp: hls_progress_buffer_loop_def read_and_push_def push_result_def hls_pause_def release_cache_def hb_post_def hb_send_def
        adds_item_def no_flush_def Let_def split: if_splits option.splits prod.splits)
  with assms(1) show ?thesis
    by (auto simp: task_turn_def adds_item_def split: if_splits hls_loop_result.splits)
qed

lemma well_formed_no_flush: "well_formed n items \<Longrightarrow> \<forall>item \<in> set items. no_flush item"
  by (induction n items rule: well_formed.induct) (auto simp: no_flush_def)

lemma hls_out_plain:
  assumes "hls_smooth E" "hls_state media cf" "\<forall>item \<in> set (fst cf). no_flush item" "plain_items (hb_out (snd cf))"
    "hls_run E ts cf = Returns cf'"
  shows "plain_items (hb_out (snd cf'))"
  using assms(2-5)
proof (induction ts arbitrary: cf)
  case (Cons t ts)
  obtain cf1 where t: "(case t of SourceTurn \<Rightarrow> source_turn E cf | TaskTurn \<Rightarrow> task_turn E cf) = Returns cf1" and st: "hls_state media cf1"
    using state_turn [OF assms(1) Cons.prems(1), of t] by blast
  have run: "hls_run E ts cf1 = Returns cf'"
    using Cons.prems(4) t by (cases t) auto
  show ?case
  proof (cases "ended media (fst cf) (snd cf)")
    case True
    then have "cf1 = cf"
      using ended_turns [OF True, of E] t by (cases t) auto
    with Cons.IH [OF st] Cons.prems run show ?thesis by simp
  next
    case False
    then have ne: "PadEvent Eos \<notin> set (hb_out (snd cf))"
      using Cons.prems(1) by (cases cf) (auto simp: hls_state_def hls_inv_def live_def)
    have "adds_item (snd cf) (snd cf1) \<and> (\<forall>item \<in> set (fst cf1). no_flush item)"
      using t source_out [of E "fst cf" "snd cf" "fst cf1" "snd cf1"] task_out [of E "fst cf" "snd cf" "fst cf1" "snd cf1"]
        Cons.prems(2) assms(1) by (cases t) (auto simp: hls_smooth_def)
    then show ?thesis
      using Cons.IH [OF st] Cons.prems(3) run ne plain_snoc by (auto simp: adds_item_def)
  qed
qed simp

lemma follow_prefix: "follow bytes pos obs = Some q \<Longrightarrow> prefix bytes media \<Longrightarrow> follow media pos obs = Some q"
proof (induction bytes pos obs rule: follow.induct)
  case (2 bytes pos data obs)
  obtain zs where z: "media = bytes @ zs"
    using "2.prems"(2) by (auto simp: prefix_def)
  have d: "data = take (length data) (drop pos bytes)"
    using "2.prems"(1) by (auto split: if_splits)
  then have "length data \<le> length bytes - pos"
    by (metis length_drop length_take min.cobounded1 min.commute)
  then have "take (length data) (drop pos media) = take (length data) (drop pos bytes)"
    by (cases "pos \<le> length bytes") (auto simp: z)
  with 2 d show ?case by (auto split: if_splits)
qed auto


subsection \<open>A stream\<close>

definition demo_ts_env :: ts_env where
  "demo_ts_env = \<lparr>te_alloc_io = True, te_alloc_context = True, te_alloc_packet = True, te_push_event = (\<lambda>_ _. True), te_push = (\<lambda>_ _. GST_FLOW_OK)\<rparr>"

definition demo_ts_items :: "pad_item list" where
  "demo_ts_items = [PadEvent (Segment (gst_segment_init GST_FORMAT_TIME)), PadBuffer (new_buffer [1, 2, 3] 0), PadEvent Eos]"

text \<open>libav reads two bytes, goes back to the start, reads one byte, finds an audio stream and reads on.\<close>

definition demo_ts_turns :: "ts_turn list" where
  "demo_ts_turns = [UpTurn, UpTurn, ReaderTurn (AvRead 1), ReaderTurn (AvOpened 0), ReaderTurn (AvRead 2), ReaderTurn (AvSeek 0 SEEK_SET), ReaderTurn (AvRead 1),
     ReaderTurn (AvStreams 0 [\<lparr>av_codec_type = AVMEDIA_TYPE_AUDIO, av_codec_id = AV_CODEC_ID_AAC, av_channels = 2, av_sample_rate = 44100,
       av_bit_rate = 128000, av_extradata = None\<rparr>] 128000), ReaderTurn (AvRead 1), UpTurn]"

lemmas ts_eval = up_turn_def mpegts_demuxer_process_input_def mpegts_demuxer_sink_event_def ts_segment_event_def mpegts_demuxer_chain_def
  get_locked_result_def loop_turn_def begin_init_def opened_def get_init_action_def no_obs_def callback_def mpegts_demuxer_read_packet_def
  copy_from_adapter_def mpegts_demuxer_seek_def probed_def end_probe_def mpegts_demuxer_check_streams_def check_stream_def
  add_numbered_pad_def mpegts_demuxer_add_pad_def ts_post_def ts_send_def ts_new_def mpegts_demuxer_init_state_def mpegts_demuxer_flush_def mpegts_demuxer_init_def
  init_stream_def gst_segment_init_def NO_STREAM_def ts_limits Let_def

lemma demo_ts_run: "\<exists>dm. ts_run demo_ts_env demo_ts_turns (demo_ts_items, ts_new) =
    Returns ([ObsRead [1, 2], ObsSeek 0, ObsRead [1]], [], dm) \<and> td_eos dm \<and> is_reading dm \<and> td_pc dm = InReadFrame \<and> sink_adapter dm = [2, 3] \<and>
      eos_items dm = [(AudioPad, TsEvent Eos)] \<and> disciplined demo_ts_env demo_ts_turns (demo_ts_items, ts_new)"
  by (simp add: demo_ts_env_def demo_ts_turns_def demo_ts_items_def ts_eval eos_items_def)

lemma demo_ts_disciplined: "disciplined demo_ts_env demo_ts_turns (demo_ts_items, ts_new)"
  using demo_ts_run by blast


text \<open>The reader waits for more than has arrived, and the next buffer can be taken.\<close>

theorem ts_no_deadlock_witness:
  "\<exists>obs items' dm dm'. ts_run demo_ts_env (take 4 demo_ts_turns) (demo_ts_items, ts_new) = Returns (obs, items', dm) \<and>
     mpegts_demuxer_process_input demo_ts_env (AvRead 100) dm = Blocks dm' \<and> mpegts_demuxer_chain (new_buffer (replicate 40960 0) 3) dm' \<noteq> None"
proof -
  have "\<exists>obs items' dm dm'. ts_run demo_ts_env (take 4 demo_ts_turns) (demo_ts_items, ts_new) = Returns (obs, items', dm) \<and>
     mpegts_demuxer_process_input demo_ts_env (AvRead 100) dm = Blocks dm' \<and>
     disciplined demo_ts_env (take 4 demo_ts_turns @ [ReaderTurn (AvRead 100)]) (demo_ts_items, ts_new)"
    by (simp add: demo_ts_env_def demo_ts_turns_def demo_ts_items_def ts_eval)
  then obtain obs items' dm dm' where d: "ts_run demo_ts_env (take 4 demo_ts_turns) (demo_ts_items, ts_new) = Returns (obs, items', dm)"
     "mpegts_demuxer_process_input demo_ts_env (AvRead 100) dm = Blocks dm'"
     "disciplined demo_ts_env (take 4 demo_ts_turns @ [ReaderTurn (AvRead 100)]) (demo_ts_items, ts_new)"
    by blast
  moreover have "mpegts_demuxer_chain (new_buffer (replicate 40960 0) 3) dm' \<noteq> None"
    by (rule ts_no_deadlock [OF _ d(3,1,2)]) (simp_all add: demo_ts_items_def)
  ultimately show ?thesis by blast
qed

definition demo_packet :: AVPacket where
  "demo_packet = \<lparr>packet_stream_index = 0, packet_data = [], packet_pts = 0, packet_duration = 0\<rparr>"


definition demo_hls_out :: "pad_item list" where
  "demo_hls_out = [PadEvent StreamStart, PadEvent (Segment (gst_segment_init GST_FORMAT_TIME)),
     PadBuffer \<lparr>b_data = [1], b_offset = 0, b_discont = False, b_pts = Some 0\<rparr>,
     PadBuffer \<lparr>b_data = [2], b_offset = 1, b_discont = False, b_pts = None\<rparr>,
     PadBuffer \<lparr>b_data = [3, 4], b_offset = 0, b_discont = True, b_pts = None\<rparr>,
     PadBuffer \<lparr>b_data = [5], b_offset = 2, b_discont = False, b_pts = None\<rparr>, PadEvent Eos]"

definition demo_js_items :: "pad_item list" where
  "demo_js_items = srcpad_out (js_run (demo_env # hls_envs demo_env demo_playlist) (start_streaming (java_source_init\<lparr>js_mode := MODE_HLS\<rparr>)))"

lemma demo_hls_runs: "\<exists>items' hb. hls_run demo_hls_env (concat (replicate 8 [SourceTurn, TaskTurn])) (demo_js_items, hls_new demo_hls_env) =
    Returns (items', hb) \<and> hb_out hb = demo_hls_out"
proof -
  have "map_outcome (\<lambda>cf. hb_out (snd cf)) (hls_run demo_hls_env (concat (replicate 8 [SourceTurn, TaskTurn])) (demo_js_items, hls_new demo_hls_env)) =
      Returns demo_hls_out"
    by code_simp
  then show ?thesis
    by (cases "hls_run demo_hls_env (concat (replicate 8 [SourceTurn, TaskTurn])) (demo_js_items, hls_new demo_hls_env)")
      (auto simp del: replicate.simps hls_run.simps)
qed

text \<open>The segments of the play list are two and three bytes long; libav reads one byte and then four.\<close>

definition demo_playlist_turns :: "ts_turn list" where
  "demo_playlist_turns = [UpTurn, UpTurn, UpTurn, UpTurn, UpTurn, UpTurn, ReaderTurn (AvRead 1), ReaderTurn (AvOpened 0), ReaderTurn (AvRead 1), ReaderTurn (AvRead 4)]"


subsection \<open>Defects\<close>

text \<open>When the stream cannot be opened and nothing is flushing, the reader uses the context that libav has just freed: the test for a
  missing context comes right before the call that needs it.\<close>

theorem open_failure_crashes:
  assumes "td_pc dm = InOpen" "\<not> td_flushing dm" "ret < 0"
  shows "mpegts_demuxer_process_input E (AvOpened ret) dm = Crashes"
  using assms
  by (simp add: mpegts_demuxer_process_input_def opened_def get_init_action_def mpegts_demuxer_expect_more_pads_def no_obs_def Let_def)

text \<open>A stream that ends while it is probed: the rest is taken to be all that the adapter holds, also what libav has read
  already, and is copied from behind that.\<close>

theorem short_stream_reads_outside:
  assumes "td_pc dm = InProbe" "td_eos dm" "is_reading dm" "\<not> td_flushing dm" "0 < td_offset dm" "sink_adapter dm \<noteq> []"
    "length (sink_adapter dm) \<le> n"
  shows "mpegts_demuxer_process_input E (AvRead n) dm = Crashes"
  using assms
  by (simp add: mpegts_demuxer_process_input_def callback_def mpegts_demuxer_read_packet_def copy_from_adapter_def Let_def word_less_nat_alt)

text \<open>A seek to one byte before the end of an empty stream wraps around.\<close>

theorem seek_in_empty_stream:
  assumes "sink_adapter dm = []"
  shows "mpegts_demuxer_seek (- 1) SEEK_END dm = (2 ^ 32 - 1, dm\<lparr>td_offset := - 1\<rparr>)"
  using assms by (simp add: mpegts_demuxer_seek_def unsigned_minus_1_eq_mask mask_eq_exp_minus_1)

text \<open>A buffer that is not smaller than the limit is never taken, not even into an empty adapter, while the reader waits for it.\<close>

theorem oversized_buffer_blocks:
  assumes "sink_adapter dm = []" "get_locked_result dm = GST_FLOW_OK" "adapter_limit_size dm \<le> int (length (b_data b))"
    "td_pc dm = InReadFrame" "adapter_limit_type dm = LIMITED" "td_offset dm = 0" "is_reading dm" "0 < n" "n \<le> BUFFER_SIZE"
  shows "mpegts_demuxer_chain b dm = None \<and> mpegts_demuxer_process_input E (AvRead n) dm = Blocks dm"
proof -
  have "(0 :: u32) < of_nat n"
    using assms(8,9) by (simp add: word_less_nat_alt u32_of_nat BUFFER_SIZE_def)
  with assms show ?thesis
    by (auto simp: mpegts_demuxer_chain_def mpegts_demuxer_process_input_def callback_def mpegts_demuxer_read_packet_def get_locked_result_def
        Let_def split: if_splits)
qed

text \<open>A reader that has ended by itself is not started again by a new segment: the pointer to its thread is cleared by a flush only.\<close>

theorem ended_reader_not_restarted:
  assumes "td_pc dm = Ended" "reader_thread dm"
  shows "td_pc (mpegts_demuxer_sink_event E (Segment segment) dm) = Ended"
  using assms by (simp add: mpegts_demuxer_sink_event_def ts_segment_event_def Let_def)

text \<open>The duration in bytes is computed from a product of \<^verbatim>\<open>gint64\<close>, which a stream of three hours with one megabit per second exceeds:
  its length comes out negative.\<close>

theorem byte_duration_overflows:
  assumes "av_context dm = Some c" "context_bit_rate c = 1000000"
  shows "\<exists>n. mpegts_demuxer_sink_query GST_FORMAT_BYTES (Some (3 * 3600 * 1000000000)) dm = DurationBytes n \<and> n < 0"
proof -
  have "gint64_times (3 * 3600 * 1000000000) 1000000 = - 7646744073709551616"
    by (simp add: gint64_times_def)
  with assms show ?thesis
    by (simp add: mpegts_demuxer_sink_query_def Let_def trunc_int_def GST_SECOND_ns_def)
qed

end
