(* ===== verification/Ts_Times.thy ===== *)
theory Ts_Times
  imports Ts_Demuxer
begin

text \<open>
  The time stamps of \<^verbatim>\<open>mpegtsdemuxer.c\<close>: a transport stream counts time with 33 bits in units of 1/90000 second, the pipeline in
  nanoseconds from the start of the stream.  Times are exact as long as the counter does not wrap around, and across a wrap around when the
  stream starts at zero; audio and video then agree.  For other streams the wrap around is handled wrongly.
\<close>

subsection \<open>Nanoseconds\<close>

definition ns :: "nat \<Rightarrow> int" where
  "ns p = int (p * 100000 div 9)"

lemma ns_mono: "p \<le> q \<Longrightarrow> ns p \<le> ns q"
  by (simp add: ns_def div_le_mono)

lemma ns_nonneg: "0 \<le> ns p"
  by (simp add: ns_def)

lemma ns_add: "ns p + ns q \<le> ns (p + q) \<and> ns (p + q) \<le> ns p + ns q + 1"
proof -
  define r where "r = (p * 100000 mod 9 + q * 100000 mod 9) div 9"
  have "p * 100000 mod 9 < 9" "q * 100000 mod 9 < 9"
    by simp_all
  then have "r \<le> 1"
    unfolding r_def by linarith
  moreover have "(p + q) * 100000 div 9 = p * 100000 div 9 + q * 100000 div 9 + r"
    unfolding r_def add_mult_distrib by (rule div_add1_eq)
  ultimately show ?thesis
    by (simp add: ns_def)
qed

lemma ns_0 [simp]: "ns 0 = 0"
  by (simp add: ns_def)

lemma ns_bound: "p < 2 ^ 34 \<Longrightarrow> ns p < 2 ^ 48"
proof -
  assume "p < 2 ^ 34"
  then have "p * 100000 div 9 \<le> (2 ^ 34 * 100000) div 9"
    by (intro div_le_mono) simp
  then show ?thesis by (simp add: ns_def)
qed

text \<open>Numbers that are far from the ends of the range of \<^verbatim>\<open>gint64\<close> behave as integers.\<close>

lemma sint_time: "- (2 ^ 62) \<le> i \<Longrightarrow> i < 2 ^ 62 \<Longrightarrow> sint (word_of_int i :: u64) = i"
  by (simp add: signed_of_int signed_take_bit_int_eq_self)

lemma word_eq_small: "0 \<le> i \<Longrightarrow> i < 2 ^ 62 \<Longrightarrow> (word_of_int i :: u64) = 0 \<longleftrightarrow> i = 0"
  using sint_time [of i] by force

lemma PTS_small: "p < 2 ^ 34 \<Longrightarrow> PTS_TO_GSTTIME (of_nat p) = word_of_int (ns p)"
proof -
  assume p: "p < 2 ^ 34"
  then have u: "unat (of_nat p :: u64) = p"
    by (simp add: unsigned_of_nat take_bit_nat_eq_self)
  have "p * 100000 div 9 < 2 ^ 64"
    using ns_bound [OF p] by (simp add: ns_def)
  then show ?thesis
    using u by (simp add: PTS_TO_GSTTIME_def gst_util_uint64_scale_def CLOCK_BASE_def ns_def Let_def)
qed

lemma PTS_constants:
  "PTS_TO_GSTTIME 0xFFFFFFFF = word_of_int (ns (2 ^ 32 - 1))" "PTS_TO_GSTTIME MAX_PTS = word_of_int (ns (2 ^ 33 - 1))"
  "PTS_TO_GSTTIME (MAX_PTS + 1) = word_of_int (ns (2 ^ 33))"
proof -
  have m: "MAX_PTS + 1 = of_nat (2 ^ 33)" "(0xFFFFFFFF :: u64) = of_nat (2 ^ 32 - 1)" and m1: "MAX_PTS = of_nat (2 ^ 33 - 1)"
    by (simp_all add: MAX_PTS_def mask_eq_exp_minus_1)
  show "PTS_TO_GSTTIME 0xFFFFFFFF = word_of_int (ns (2 ^ 32 - 1))" "PTS_TO_GSTTIME MAX_PTS = word_of_int (ns (2 ^ 33 - 1))"
    "PTS_TO_GSTTIME (MAX_PTS + 1) = word_of_int (ns (2 ^ 33))"
    unfolding m by ((rule PTS_small, simp) | (unfold m1, rule PTS_small, simp))+
qed

lemmas ns_range = ns_bound ns_nonneg

subsection \<open>The computation in integers\<close>

text \<open>\<open>clock s L off\<close>: the stream was last at the time \<open>L\<close> and adds the offset \<open>off\<close>.\<close>

definition clock :: "TsStream \<Rightarrow> int \<Rightarrow> int \<Rightarrow> bool" where
  "clock s L off \<longleftrightarrow> last_time s = word_of_int L \<and> offset_time s = word_of_int off \<and> 0 \<le> L \<and> L < 2 ^ 50 \<and> 0 \<le> off \<and> off < 2 ^ 50"

definition elapsed :: "nat \<Rightarrow> int \<Rightarrow> int \<Rightarrow> int" where
  "elapsed p B off = max 0 (ns p + off - B)"

lemma elapsed_bounds: "p < 2 ^ 34 \<Longrightarrow> 0 \<le> B \<Longrightarrow> 0 \<le> off \<Longrightarrow> off < 2 ^ 50 \<Longrightarrow> 0 \<le> elapsed p B off \<and> elapsed p B off < 2 ^ 51"
  using ns_bound [of p] by (simp add: elapsed_def)

lemma rebase_known:
  assumes "clock s L off" "p < 2 ^ 34" "0 \<le> B" "B < 2 ^ 50"
  shows "rebase (of_nat p) (word_of_int B) s = (word_of_int (elapsed p B off), word_of_int B)"
proof -
  have "(word_of_int B :: u64) \<noteq> NO_TIME"
  proof
    assume "(word_of_int B :: u64) = NO_TIME"
    then have "sint (word_of_int B :: u64) = - 1"
      by (simp add: NO_TIME_def)
    with sint_time [of B] assms(3,4) show False by simp
  qed
  moreover have "PTS_TO_GSTTIME (of_nat p) + offset_time s - word_of_int B = word_of_int (ns p + off - B)"
    using assms(1) PTS_small [OF assms(2)] by (simp add: clock_def)
  moreover have "sint (word_of_int (ns p + off - B) :: u64) = ns p + off - B"
    using assms ns_bound [OF assms(2)] ns_nonneg [of p] unfolding clock_def by (intro sint_time) simp_all
  ultimately show ?thesis
    by (simp add: rebase_def elapsed_def max_def Let_def del: of_int_add of_int_diff)
qed

text \<open>The first packet sets the base.\<close>

lemma rebase_first:
  assumes "clock s L 0" "p < 2 ^ 34"
  shows "rebase (of_nat p) NO_TIME s = (0, word_of_int (ns p))"
  using assms PTS_small [OF assms(2)] by (simp add: rebase_def clock_def Let_def)

lemma wrapped_small:
  assumes "clock s L off" "0 \<le> T" "T < 2 ^ 51"
  shows "wrapped (word_of_int T) s \<longleftrightarrow> 0 < L \<and> T < L - ns (2 ^ 32 - 1)"
proof -
  have "sint (last_time s - PTS_TO_GSTTIME 0xFFFFFFFF) = L - ns (2 ^ 32 - 1)"
  proof -
    have "last_time s - PTS_TO_GSTTIME 0xFFFFFFFF = word_of_int (L - ns (2 ^ 32 - 1))"
      using assms(1) PTS_constants(1) by (simp add: clock_def)
    then show ?thesis
      using assms(1) ns_bound [of "2 ^ 32 - 1"] ns_nonneg [of "2 ^ 32 - 1"] sint_time [of "L - ns (2 ^ 32 - 1)"] by (simp add: clock_def)
  qed
  moreover have "last_time s > 0 \<longleftrightarrow> 0 < L"
    using assms(1) word_eq_small [of L] by (auto simp: clock_def word_gt_0)
  moreover have "sint (word_of_int T :: u64) = T"
    using assms by (intro sint_time) simp_all
  ultimately show ?thesis
    by (simp add: wrapped_def)
qed

abbreviation full_turn :: int where "full_turn \<equiv> ns (2 ^ 33)"

lemma video_time_known:
  assumes c: "clock s L off" and p: "p < 2 ^ 34" and B: "0 \<le> B" "B < 2 ^ 50" and T: "T = elapsed p B off"
  shows "video_time (of_nat p) (word_of_int B) s =
    (if 0 < L \<and> T < L - ns (2 ^ 32 - 1)
     then (word_of_int (T + full_turn), word_of_int B,
       s\<lparr>last_time := word_of_int (T + full_turn), offset_time := word_of_int (if T < L - ns (2 ^ 33 - 1) then off + full_turn else off)\<rparr>)
     else (word_of_int T, word_of_int B, s\<lparr>last_time := word_of_int T, offset_time := word_of_int off\<rparr>))"
proof -
  have t: "0 \<le> T" "T < 2 ^ 51"
    using elapsed_bounds [OF p B(1)] c by (simp_all add: T clock_def)
  have s: "sint (word_of_int T :: u64) = T" "sint (last_time s) = L"
    using t c by (auto simp: clock_def intro!: sint_time)
  have m: "sint (PTS_TO_GSTTIME MAX_PTS) = ns (2 ^ 33 - 1)"
    unfolding PTS_constants using ns_bound [of "2 ^ 33 - 1"] ns_nonneg [of "2 ^ 33 - 1"] by (intro sint_time) simp_all
  have o: "s\<lparr>last_time := t, offset_time := word_of_int off\<rparr> = s\<lparr>last_time := t\<rparr>" for t
    using c by (simp add: clock_def)
  show ?thesis
    unfolding video_time_def rebase_known [OF c p B] T [symmetric] prod.case wrapped_small [OF c t] m s PTS_constants(3) Let_def
    using c o by (simp add: clock_def)
qed

lemma audio_time_known:
  assumes c: "clock s L off" and p: "p < 2 ^ 34" and B: "0 \<le> B" "B < 2 ^ 50" and T: "T = elapsed p B off"
  shows "audio_time (of_nat p) (word_of_int B) s =
    (if 0 < L \<and> T < L - ns (2 ^ 32 - 1)
     then (word_of_int (ns p + off + full_turn), word_of_int B,
       s\<lparr>last_time := word_of_int (ns p + off + full_turn), offset_time := word_of_int (off + full_turn)\<rparr>)
     else (word_of_int T, word_of_int B, s\<lparr>last_time := word_of_int T, offset_time := word_of_int off\<rparr>))"
proof -
  have t: "0 \<le> T" "T < 2 ^ 51"
    using elapsed_bounds [OF p B(1)] c by (simp_all add: T clock_def)
  have o: "s\<lparr>last_time := t, offset_time := word_of_int off\<rparr> = s\<lparr>last_time := t\<rparr>" for t
    using c by (simp add: clock_def)
  show ?thesis
    unfolding audio_time_def rebase_known [OF c p B] T [symmetric] prod.case wrapped_small [OF c t] PTS_constants(3) Let_def
    using c o PTS_small [OF p] by (simp add: clock_def add.assoc)
qed

subsection \<open>Streams\<close>

fun packet_times :: "(u64 \<Rightarrow> u64 \<Rightarrow> TsStream \<Rightarrow> u64 \<times> u64 \<times> TsStream) \<Rightarrow> u64 list \<Rightarrow> u64 \<Rightarrow> TsStream \<Rightarrow> u64 list" where
  "packet_times time_of [] base stream = []"
| "packet_times time_of (pts # ptss) base stream =
     (case time_of pts base stream of (time, base, stream) \<Rightarrow> time # packet_times time_of ptss base stream)"

text \<open>Packets that stay within the range of the counter, not before the first one, and never fall back by half of the range.\<close>

fun steady :: "nat \<Rightarrow> nat \<Rightarrow> nat list \<Rightarrow> bool" where
  "steady p0 prev [] \<longleftrightarrow> True"
| "steady p0 prev (p # ps) \<longleftrightarrow> p0 \<le> p \<and> p < 2 ^ 33 \<and> prev \<le> p + (2 ^ 32 - 2) \<and> steady p0 p ps"

lemma steady_not_wrapped: "p0 \<le> p \<Longrightarrow> prev \<le> p + (2 ^ 32 - 2) \<Longrightarrow> \<not> ns p - ns p0 < ns prev - ns p0 - ns (2 ^ 32 - 1)"
proof -
  assume "prev \<le> p + (2 ^ 32 - 2)"
  then have "ns prev \<le> ns (p + (2 ^ 32 - 2))"
    by (rule ns_mono)
  also have "\<dots> \<le> ns p + ns (2 ^ 32 - 2) + 1"
    using ns_add [of p "2 ^ 32 - 2"] by simp
  finally have "ns prev \<le> ns p + ns (2 ^ 32 - 2) + 1" .
  moreover have "ns (2 ^ 32 - 2) + 1 \<le> ns (2 ^ 32 - 1)"
    by (simp add: ns_def)
  ultimately show ?thesis by linarith
qed

text \<open>A stream that runs on evenly for up to two turns of the counter, and its time when the turns are counted.\<close>

fun smooth_from :: "nat \<Rightarrow> nat list \<Rightarrow> bool" where
  "smooth_from prev [] \<longleftrightarrow> True"
| "smooth_from prev (t # ts) \<longleftrightarrow> prev \<le> t \<and> t < prev + 2 ^ 30 \<and> t < 2 ^ 34 \<and> smooth_from t ts"

definition unwrapped :: "nat \<Rightarrow> int" where
  "unwrapped t = (if t < 2 ^ 33 then ns t else ns (t - 2 ^ 33) + ns (2 ^ 33))"

lemma unwrapped_mono: "t \<le> t' \<Longrightarrow> unwrapped t \<le> unwrapped t'"
  using ns_mono [of t t'] ns_mono [of "t - 2 ^ 33" "t' - 2 ^ 33"] ns_mono [of t "2 ^ 33"] ns_nonneg [of "t' - 2 ^ 33"]
  by (auto simp: unwrapped_def)

lemma unwrapped_range: "t < 2 ^ 34 \<Longrightarrow> 0 \<le> unwrapped t \<and> unwrapped t < 2 ^ 50"
proof -
  assume t: "t < 2 ^ 34"
  then have "ns t < 2 ^ 48" "ns (t - 2 ^ 33) < 2 ^ 48" "ns (2 ^ 33) < 2 ^ 48"
    by (intro ns_bound; simp)+
  then show ?thesis
    using ns_nonneg [of t] ns_nonneg [of "t - 2 ^ 33"] ns_nonneg [of "2 ^ 33"] by (auto simp: unwrapped_def)
qed

text \<open>Counting the turns is exact up to a nanosecond.\<close>

lemma unwrapped_ns: "unwrapped t \<le> ns t \<and> ns t \<le> unwrapped t + 1"
  using ns_add [of "t - 2 ^ 33" "2 ^ 33"] by (auto simp: unwrapped_def)

lemma wrap_seen:
  assumes "t < prev + 2 ^ 30" "2 ^ 33 \<le> t"
  shows "0 < unwrapped prev \<and> ns (t - 2 ^ 33) < unwrapped prev - ns (2 ^ 32 - 1)"
proof (cases "prev < 2 ^ 33")
  case True
  have "ns (2 ^ 33 - 2 ^ 30) \<le> ns prev" "ns (t - 2 ^ 33) \<le> ns (2 ^ 30)"
    using assms True by (intro ns_mono; simp)+
  moreover have "ns (2 ^ 30) < ns (2 ^ 33 - 2 ^ 30) - ns (2 ^ 32 - 1)" "0 \<le> ns (2 ^ 32 - 1)" "0 \<le> ns (2 ^ 30)"
    by (simp_all add: ns_def)
  ultimately show ?thesis
    using True by (simp add: unwrapped_def)
next
  case False
  have "ns (t - 2 ^ 33) \<le> ns ((prev - 2 ^ 33) + 2 ^ 30)"
    using assms False by (intro ns_mono) simp
  moreover have "ns ((prev - 2 ^ 33) + 2 ^ 30) \<le> ns (prev - 2 ^ 33) + ns (2 ^ 30) + 1"
    using ns_add [of "prev - 2 ^ 33" "2 ^ 30"] by simp
  moreover have "ns (2 ^ 30) + 1 < ns (2 ^ 33) - ns (2 ^ 32 - 1)" "0 < ns (2 ^ 33)" "0 \<le> ns (2 ^ 32 - 1)"
    by (simp_all add: ns_def)
  ultimately show ?thesis
    using False ns_nonneg [of "prev - 2 ^ 33"] by (simp add: unwrapped_def)
qed

text \<open>Both kinds of streams, whatever they do at a wrap around.\<close>

locale stream_clock =
  fixes time_of :: "u64 \<Rightarrow> u64 \<Rightarrow> TsStream \<Rightarrow> u64 \<times> u64 \<times> TsStream"
  assumes plain: "clock s L off \<Longrightarrow> p < 2 ^ 34 \<Longrightarrow> 0 \<le> B \<Longrightarrow> B < 2 ^ 50 \<Longrightarrow> \<not> (0 < L \<and> elapsed p B off < L - ns (2 ^ 32 - 1)) \<Longrightarrow>
      time_of (of_nat p) (word_of_int B) s =
        (word_of_int (elapsed p B off), word_of_int B, s\<lparr>last_time := word_of_int (elapsed p B off), offset_time := word_of_int off\<rparr>)"
    and first: "clock s 0 0 \<Longrightarrow> p < 2 ^ 34 \<Longrightarrow>
      time_of (of_nat p) NO_TIME s = (0, word_of_int (ns p), s\<lparr>last_time := 0, offset_time := 0\<rparr>)"
    and turn: "clock s L 0 \<Longrightarrow> p < 2 ^ 34 \<Longrightarrow> 0 < L \<Longrightarrow> ns p < L - ns (2 ^ 32 - 1) \<Longrightarrow>
      \<exists>off. time_of (of_nat p) 0 s = (word_of_int (ns p + full_turn), 0, s\<lparr>last_time := word_of_int (ns p + full_turn), offset_time := word_of_int off\<rparr>) \<and>
        (off = 0 \<or> off = full_turn)"
begin

lemma times_steady:
  assumes "p0 < 2 ^ 33" "p0 \<le> prev" "prev < 2 ^ 33" "steady p0 prev ps" "clock s (ns prev - ns p0) 0"
  shows "packet_times time_of (map of_nat ps) (word_of_int (ns p0)) s = map (\<lambda>p. word_of_int (ns p - ns p0)) ps"
  using assms(2-5)
proof (induction ps arbitrary: prev s)
  case (Cons p ps)
  have p: "p0 \<le> p" "p < 2 ^ 33" "prev \<le> p + (2 ^ 32 - 2)" "steady p0 p ps"
    using Cons.prems(3) by simp_all
  have e: "elapsed p (ns p0) 0 = ns p - ns p0"
    using ns_mono [OF p(1)] by (simp add: elapsed_def)
  have B: "0 \<le> ns p0" "ns p0 < 2 ^ 50" "ns p < 2 ^ 48"
    using ns_bound [of p0] ns_bound [of p] ns_nonneg [of p0] assms(1) p(2) by simp_all
  have t: "time_of (of_nat p) (word_of_int (ns p0)) s =
      (word_of_int (ns p - ns p0), word_of_int (ns p0), s\<lparr>last_time := word_of_int (ns p - ns p0), offset_time := word_of_int 0\<rparr>)"
    using plain [OF Cons.prems(4) _ B(1,2), of p] steady_not_wrapped [OF p(1,3)] p(2) by (simp add: e)
  have "clock (s\<lparr>last_time := word_of_int (ns p - ns p0), offset_time := word_of_int 0\<rparr>) (ns p - ns p0) 0"
    using B ns_mono [OF p(1)] by (simp add: clock_def)
  from Cons.IH [OF p(1,2,4) this] t show ?case
    by simp
qed simp

text \<open>Times are exact without a wrap around.\<close>

lemma times_exact:
  assumes "p0 < 2 ^ 33" "steady p0 p0 ps" "clock s 0 0"
  shows "packet_times time_of (map of_nat (p0 # ps)) NO_TIME s = map (\<lambda>p. word_of_int (ns p - ns p0)) (p0 # ps)"
proof -
  have "clock (s\<lparr>last_time := 0, offset_time := 0\<rparr>) (ns p0 - ns p0) 0"
    by (simp add: clock_def)
  from times_steady [OF assms(1) order_refl assms(1,2) this] first [OF assms(3), of p0] assms(1) show ?thesis
    by simp
qed

text \<open>Times go on across a wrap around of a stream that starts at zero.\<close>

lemma times_unwrapped_from:
  assumes "smooth_from prev ts" "prev < 2 ^ 34" "clock s (unwrapped prev) off" "off = 0 \<or> off = full_turn \<and> 2 ^ 33 \<le> prev"
  shows "packet_times time_of (map (\<lambda>t. of_nat (t mod 2 ^ 33)) ts) 0 s = map (\<lambda>t. word_of_int (unwrapped t)) ts"
  using assms
proof (induction ts arbitrary: prev s off)
  case (Cons t ts)
  have t: "prev \<le> t" "t < prev + 2 ^ 30" "t < 2 ^ 34" "smooth_from t ts"
    using Cons.prems(1) by simp_all
  define p where "p = t mod 2 ^ 33"
  have p: "p < 2 ^ 34" "p < 2 ^ 33"
    by (simp_all add: p_def order_less_trans [OF mod_less_divisor])
  have L: "unwrapped prev \<le> unwrapped t"
    using unwrapped_mono [OF t(1)] .
  have "\<exists>off'. time_of (of_nat p) 0 s = (word_of_int (unwrapped t), 0, s\<lparr>last_time := word_of_int (unwrapped t), offset_time := word_of_int off'\<rparr>) \<and>
      (off' = 0 \<or> off' = full_turn \<and> 2 ^ 33 \<le> t)"
  proof (cases "off = 0 \<and> 2 ^ 33 \<le> t")
    case True
    then have "p = t - 2 ^ 33"
      using t(3) by (simp add: p_def mod_if)
    then have u: "unwrapped t = ns p + full_turn"
      using True by (simp add: unwrapped_def)
    have "0 < unwrapped prev \<and> ns p < unwrapped prev - ns (2 ^ 32 - 1)"
      using wrap_seen [OF t(2)] True \<open>p = t - 2 ^ 33\<close> by simp
    then show ?thesis
      using turn [of s "unwrapped prev" p] Cons.prems(3) True p(1) u by auto
  next
    case False
    have e: "elapsed p 0 off = unwrapped t"
    proof (cases "off = 0")
      case True
      with False have "p = t" by (simp add: p_def)
      with True False ns_nonneg [of t] show ?thesis by (simp add: elapsed_def unwrapped_def)
    next
      case nz: False
      with Cons.prems(4) t have "p = t - 2 ^ 33" "2 ^ 33 \<le> t"
        by (simp_all add: p_def mod_if)
      with nz Cons.prems(4) ns_nonneg [of p] ns_nonneg [of "2 ^ 33"] show ?thesis by (simp add: elapsed_def unwrapped_def)
    qed
    have "\<not> elapsed p 0 off < unwrapped prev - ns (2 ^ 32 - 1)"
      using e L ns_nonneg [of "2 ^ 32 - 1"] by linarith
    then have "time_of (of_nat p) 0 s = (word_of_int (unwrapped t), 0, s\<lparr>last_time := word_of_int (unwrapped t), offset_time := word_of_int off\<rparr>)"
      using plain [OF Cons.prems(3) p(1), of 0] e by simp
    moreover have "off = 0 \<or> off = full_turn \<and> 2 ^ 33 \<le> t"
      using Cons.prems(4) t(1) by auto
    ultimately show ?thesis by blast
  qed
  then obtain off' where o: "time_of (of_nat p) 0 s = (word_of_int (unwrapped t), 0, s\<lparr>last_time := word_of_int (unwrapped t), offset_time := word_of_int off'\<rparr>)"
      "off' = 0 \<or> off' = full_turn \<and> 2 ^ 33 \<le> t"
    by blast
  have "clock (s\<lparr>last_time := word_of_int (unwrapped t), offset_time := word_of_int off'\<rparr>) (unwrapped t) off'"
    using o(2) unwrapped_range [OF t(3)] ns_bound [of "2 ^ 33"] ns_nonneg [of "2 ^ 33"] by (auto simp: clock_def)
  from Cons.IH [OF t(4,3) this o(2)] o(1) show ?case
    by (simp add: p_def)
qed simp

lemma times_unwrapped:
  assumes "smooth_from 0 ts" "clock s 0 0"
  shows "packet_times time_of (map (\<lambda>t. of_nat (t mod 2 ^ 33)) (0 # ts)) NO_TIME s = map (\<lambda>t. word_of_int (unwrapped t)) (0 # ts)"
proof -
  have "clock (s\<lparr>last_time := 0, offset_time := 0\<rparr>) (unwrapped 0) 0"
    by (simp add: clock_def unwrapped_def)
  from times_unwrapped_from [OF assms(1) _ this] first [OF assms(2), of 0] show ?thesis
    by (simp add: unwrapped_def)
qed

end

lemma audio_first: "clock s 0 0 \<Longrightarrow> p < 2 ^ 34 \<Longrightarrow> audio_time (of_nat p) NO_TIME s = (0, word_of_int (ns p), s\<lparr>last_time := 0, offset_time := 0\<rparr>)"
  and video_first: "clock s 0 0 \<Longrightarrow> p < 2 ^ 34 \<Longrightarrow> video_time (of_nat p) NO_TIME s = (0, word_of_int (ns p), s\<lparr>last_time := 0, offset_time := 0\<rparr>)"
  using rebase_first [of s 0 p] wrapped_small [of s 0 0 0] by (auto simp: audio_time_def video_time_def clock_def Let_def)

interpretation audio_clock: stream_clock audio_time
proof
  show "\<exists>off. audio_time (of_nat p) 0 s = (word_of_int (ns p + full_turn), 0, s\<lparr>last_time := word_of_int (ns p + full_turn), offset_time := word_of_int off\<rparr>) \<and>
      (off = 0 \<or> off = full_turn)"
    if "clock s L 0" "p < 2 ^ 34" "0 < L" "ns p < L - ns (2 ^ 32 - 1)" for s L p
    using audio_time_known [OF that(1,2), of 0 "ns p"] that(3,4) ns_nonneg [of p] by (intro exI [of _ full_turn]) (simp add: elapsed_def)
qed (simp_all only: audio_first audio_time_known if_False)

interpretation video_clock: stream_clock video_time
proof
  show "\<exists>off. video_time (of_nat p) 0 s = (word_of_int (ns p + full_turn), 0, s\<lparr>last_time := word_of_int (ns p + full_turn), offset_time := word_of_int off\<rparr>) \<and>
      (off = 0 \<or> off = full_turn)"
    if "clock s L 0" "p < 2 ^ 34" "0 < L" "ns p < L - ns (2 ^ 32 - 1)" for s L p
    using video_time_known [OF that(1,2), of 0 "ns p"] that(3,4) ns_nonneg [of p]
    by (intro exI [of _ "if ns p < L - ns (2 ^ 33 - 1) then full_turn else 0"]) (simp add: elapsed_def)
qed (simp_all only: video_first video_time_known if_False)

subsection \<open>Audio and video\<close>

definition fresh_stream :: TsStream where
  "fresh_stream = video (mpegts_demuxer_init_state mpegts_demuxer_init)"

lemma fresh_clock: "clock fresh_stream 0 0"
  by (simp add: fresh_stream_def clock_def mpegts_demuxer_init_state_def mpegts_demuxer_flush_def mpegts_demuxer_init_def init_stream_def Let_def)



text \<open>C24: A stream that starts at zero and runs on evenly is stamped correctly across the wrap around of its counter, for almost 53 hours:
  audio and video, although they handle the wrap around in different ways, get the same times, which are right up to a nanosecond.\<close>

theorem timestamps_unwrapped:
  assumes "smooth_from 0 ts" "time_of \<in> {audio_time, video_time}"
  shows "packet_times time_of (map (\<lambda>t. of_nat (t mod 2 ^ 33)) (0 # ts)) NO_TIME fresh_stream = map (\<lambda>t. word_of_int (unwrapped t)) (0 # ts) \<and>
    (\<forall>t. unwrapped t \<le> ns t \<and> ns t \<le> unwrapped t + 1)"
  using assms(2) audio_clock.times_unwrapped [OF assms(1) fresh_clock] video_clock.times_unwrapped [OF assms(1) fresh_clock] unwrapped_ns by blast

theorem timestamps_unwrapped_witness:
  "packet_times audio_time (map (\<lambda>t. of_nat (t mod 2 ^ 33)) (0 # map (\<lambda>k. k * 1000000000) [1..<12])) NO_TIME fresh_stream =
     map (\<lambda>t. word_of_int (unwrapped t)) (0 # map (\<lambda>k. k * 1000000000) [1..<12])"
proof -
  have "smooth_from 0 (map (\<lambda>k. k * 1000000000) [1..<12])"
    by (simp add: upt_rec)
  then show ?thesis
    using timestamps_unwrapped [of "map (\<lambda>k. k * 1000000000) [1..<12]" audio_time] by (simp del: upt_rec_numeral)
qed

lemmas time_eval = fresh_stream_def mpegts_demuxer_init_state_def mpegts_demuxer_flush_def mpegts_demuxer_init_def init_stream_def video_time_def
  audio_time_def rebase_def wrapped_def PTS_TO_GSTTIME_def gst_util_uint64_scale_def CLOCK_BASE_def MAX_PTS_def NO_TIME_def ns_def
  mask_eq_exp_minus_1 Let_def

text \<open>For a stream that does not start at zero the times after a wrap around are wrong.  Audio is not put in relation to the start of the
  stream any more and lags behind video, here by one second.\<close>

theorem audio_late_after_wraparound:
  "packet_times video_time [90000, 5000000000, 8589934591, 180000] NO_TIME fresh_stream ! 3 = word_of_int (full_turn + 1000000000) \<and>
   packet_times audio_time [90000, 5000000000, 8589934591, 180000] NO_TIME fresh_stream ! 3 = word_of_int (full_turn + 2000000000)"
  by (simp add: time_eval)

text \<open>A wrap around soon after the start is not noticed: the time goes back to zero and stays there.\<close>

theorem early_wraparound_missed:
  "packet_times video_time [8589844592, 8589934591, 90000, 180000] NO_TIME fresh_stream = [0, 999988889, 0, 0]"
  by (simp add: time_eval)

end
