(* ===== verification/Jni_Env.thy ===== *)
theory Jni_Env
  imports Stream_Types "HOL-Library.State_Monad"
begin

text \<open>
  \<^verbatim>\<open>jni/JniUtils.cpp\<close> and \<^verbatim>\<open>jni/Logger.cpp\<close>: how native threads get at the virtual machine.  A thread is a record with what the virtual
  machine keeps for it: whether it is attached, the pending exception, the live local and global references, and a log of the calls made.
  The field \<open>j_broken\<close> tells whether a rule of JNI was broken: a call from a thread that is not attached or with a pending exception,
  a reference used or deleted that is not live, a method looked up without success and called, \<^verbatim>\<open>NULL\<close> where an object is needed.
  The answers of the virtual machine are the parameter \<open>jworld\<close>; they may depend on all calls made before.
\<close>

subsection \<open>The virtual machine as a thread sees it\<close>

type_synonym jobject = "nat option"

text \<open>A string argument carries its reference and what it says.\<close>

datatype jvalue = JInt int | JReal real | JBool bool | JString jobject string

datatype jfun =
    AttachCurrentThread | DetachCurrentThread
  | NewLocalRef jobject | DeleteLocalRef jobject | NewGlobalRef jobject | DeleteGlobalRef jobject
  | NewStringUTF string | GetStringUTFChars jobject | ReleaseStringUTFChars jobject
  | FindClass string | GetObjectClass jobject | GetMethodID string | GetStaticMethodID string | GetFieldID string
  | CallMethod jobject string "jvalue list" | CallStaticMethod string "jvalue list"
  | GetObjectField jobject string | GetDirectBufferAddress jobject | SetFloatArrayRegion jobject int
  | NewDirectByteBuffer nat int | NewIntArray int | SetIntArrayRegion jobject "int list" | ThrowNew jobject string
  | NewJavaObject string "jvalue list"

type_synonym jhistory = "jfun list"

record jthread =
  j_attached :: bool
  j_pending :: bool
  j_locals :: "nat list"
  j_globals :: "nat list"
  j_next :: nat
  j_log :: jhistory
  j_broken :: bool

text \<open>The state of the logger, which \<^verbatim>\<open>reportException\<close> writes to.\<close>

record CLogger =
  lg_jvm :: bool
  m_currentLevel :: int
  m_areJMethodIDsInitialized :: bool

record jworld =
  jw_ok :: "jhistory \<Rightarrow> jfun \<Rightarrow> bool"
  jw_throws :: "jhistory \<Rightarrow> jfun \<Rightarrow> bool"
  jw_int :: "jhistory \<Rightarrow> jfun \<Rightarrow> int"
  jw_text :: "jhistory \<Rightarrow> string"
  jw_bytes :: "jhistory \<Rightarrow> octet list"
  jw_logger :: "CLogger option"

type_synonym 'a jm = "(jthread, 'a) state"

abbreviation jret :: "'a \<Rightarrow> 'a jm" where "jret \<equiv> State_Monad.return"

definition jgets :: "(jthread \<Rightarrow> 'a) \<Rightarrow> 'a jm" where
  "jgets f = State (\<lambda>s. (f s, s))"

definition jmodify :: "(jthread \<Rightarrow> jthread) \<Rightarrow> unit jm" where
  "jmodify f = State (\<lambda>s. ((), f s))"

definition jwhen :: "bool \<Rightarrow> unit jm \<Rightarrow> unit jm" where
  "jwhen c m = (if c then m else jret ())"

text \<open>What may be called while an exception is pending.\<close>

fun pending_safe :: "jfun \<Rightarrow> bool" where
  "pending_safe (DeleteLocalRef _) = True"
| "pending_safe (DeleteGlobalRef _) = True"
| "pending_safe (ReleaseStringUTFChars _) = True"
| "pending_safe _ = False"

definition live :: "jthread \<Rightarrow> jobject \<Rightarrow> bool" where
  "live s r \<longleftrightarrow> (case r of None \<Rightarrow> True | Some i \<Rightarrow> i \<in> set (j_locals s) \<or> i \<in> set (j_globals s))"

text \<open>A call of a JNI function: \<open>legal\<close> says what the call needs beside an attached thread without pending exception.\<close>

definition enter_jni :: "jworld \<Rightarrow> bool \<Rightarrow> jfun \<Rightarrow> jthread \<Rightarrow> jthread" where
  "enter_jni W legal f s = s\<lparr>j_log := f # j_log s, j_pending := j_pending s \<or> jw_throws W (j_log s) f,
     j_broken := j_broken s \<or> \<not> j_attached s \<or> j_pending s \<and> \<not> pending_safe f \<or> \<not> legal\<rparr>"

definition jcall :: "jworld \<Rightarrow> jfun \<Rightarrow> bool jm" where
  "jcall W f = State (\<lambda>s. (jw_ok W (j_log s) f, enter_jni W True f s))"

text \<open>A call that returns a new local reference, or \<^verbatim>\<open>NULL\<close> when it fails or throws.\<close>

definition jnew :: "jworld \<Rightarrow> bool \<Rightarrow> jfun \<Rightarrow> jobject jm" where
  "jnew W legal f = State (\<lambda>s.
     let t = enter_jni W legal f s
     in if jw_ok W (j_log s) f \<and> \<not> jw_throws W (j_log s) f
        then (Some (j_next s), t\<lparr>j_locals := j_next s # j_locals s, j_next := Suc (j_next s)\<rparr>) else (None, t))"

definition new_local_ref :: "jworld \<Rightarrow> jobject \<Rightarrow> jobject jm" where
  "new_local_ref W r = do {
     l \<leftarrow> jgets (\<lambda>s. live s r);
     if r = None then do { jcall W (NewLocalRef r); jret None } else jnew W l (NewLocalRef r)
   }"

definition delete_local_ref :: "jworld \<Rightarrow> jobject \<Rightarrow> unit jm" where
  "delete_local_ref W r = jmodify (\<lambda>s.
     (enter_jni W (r = None \<or> the r \<in> set (j_locals s)) (DeleteLocalRef r) s)
       \<lparr>j_pending := j_pending s, j_locals := (case r of None \<Rightarrow> j_locals s | Some i \<Rightarrow> remove1 i (j_locals s))\<rparr>)"

definition new_global_ref :: "jworld \<Rightarrow> jobject \<Rightarrow> jobject jm" where
  "new_global_ref W r = State (\<lambda>s.
     let t = enter_jni W (live s r) (NewGlobalRef r) s
     in if r \<noteq> None \<and> jw_ok W (j_log s) (NewGlobalRef r) \<and> \<not> jw_throws W (j_log s) (NewGlobalRef r)
        then (Some (j_next s), t\<lparr>j_globals := j_next s # j_globals s, j_next := Suc (j_next s)\<rparr>) else (None, t))"

definition delete_global_ref :: "jworld \<Rightarrow> jobject \<Rightarrow> unit jm" where
  "delete_global_ref W r = jmodify (\<lambda>s.
     (enter_jni W (r = None \<or> the r \<in> set (j_globals s)) (DeleteGlobalRef r) s)
       \<lparr>j_pending := j_pending s, j_globals := (case r of None \<Rightarrow> j_globals s | Some i \<Rightarrow> remove1 i (j_globals s))\<rparr>)"

text \<open>The object must be there, and \<open>mid\<close> says whether the method has been looked up.\<close>

definition call_method :: "jworld \<Rightarrow> bool \<Rightarrow> jobject \<Rightarrow> string \<Rightarrow> jvalue list \<Rightarrow> int jm" where
  "call_method W mid r name args = State (\<lambda>s.
     (jw_int W (j_log s) (CallMethod r name args), enter_jni W (mid \<and> r \<noteq> None \<and> live s r) (CallMethod r name args) s))"

subsection \<open>Environments\<close>

text \<open>\<^verbatim>\<open>GetJavaEnvironment\<close>: whether there is an environment, and whether the thread was attached for it.  \<open>jvm\<close> says whether the pointer
  to the virtual machine is set.\<close>

definition GetJavaEnvironment :: "jworld \<Rightarrow> bool \<Rightarrow> (bool \<times> bool) jm" where
  "GetJavaEnvironment W jvm =
     (if \<not> jvm then jret (False, False)
      else State (\<lambda>s.
        if j_attached s then ((True, False), s)
        else let ok = jw_ok W (j_log s) AttachCurrentThread
             in ((ok, True), s\<lparr>j_log := AttachCurrentThread # j_log s, j_attached := ok\<rparr>)))"

definition CJavaEnvironment_new :: "jworld \<Rightarrow> bool \<Rightarrow> (bool \<times> bool) jm" where
  "CJavaEnvironment_new W jvm = (if jvm then GetJavaEnvironment W jvm else jret (False, False))"

text \<open>A thread that is detached loses its local references.\<close>

definition CJavaEnvironment_delete :: "bool \<times> bool \<Rightarrow> unit jm" where
  "CJavaEnvironment_delete e = (case e of (environment, attached) \<Rightarrow>
     jwhen (attached \<and> environment)
       (jmodify (\<lambda>s. s\<lparr>j_log := DetachCurrentThread # j_log s, j_attached := False, j_pending := False, j_locals := []\<rparr>)))"

text \<open>The scope of a variable of type \<^verbatim>\<open>CJavaEnvironment\<close>.\<close>

definition with_env :: "jworld \<Rightarrow> bool \<Rightarrow> (bool \<Rightarrow> 'a jm) \<Rightarrow> 'a jm" where
  "with_env W jvm body = do {
     e \<leftarrow> CJavaEnvironment_new W jvm;
     r \<leftarrow> body (fst e);
     CJavaEnvironment_delete e;
     jret r
   }"

definition hasException :: "bool \<Rightarrow> bool jm" where
  "hasException environment = (if environment then jgets j_pending else jret False)"

definition clearException :: "bool \<Rightarrow> bool jm" where
  "clearException environment = (if environment
     then do { p \<leftarrow> jgets j_pending; if p then do { jmodify (\<lambda>s. s\<lparr>j_pending := False\<rparr>); jret True } else jret False } else jret False)"

subsection \<open>The logger\<close>

definition canLog :: "int \<Rightarrow> CLogger \<Rightarrow> bool" where
  "canLog level lg \<longleftrightarrow> \<not> level < m_currentLevel lg"

definition logMsg :: "jworld \<Rightarrow> CLogger \<Rightarrow> int \<Rightarrow> string \<Rightarrow> unit jm" where
  "logMsg W lg level msg = with_env W (lg_jvm lg) (\<lambda>env.
     if \<not> env \<or> level < m_currentLevel lg \<or> \<not> m_areJMethodIDsInitialized lg then jret ()
     else do {
       jmsg \<leftarrow> jnew W True (NewStringUTF msg);
       c \<leftarrow> clearException env;
       if c \<and> jmsg \<noteq> None then jret ()
       else do {
         jcall W (CallStaticMethod ''logMsg'' [JInt level, JString jmsg msg]);
         delete_local_ref W jmsg;
         clearException env;
         jret ()
       }
     })"

text \<open>With the class and the method the message comes from; each string that could be made is deleted.\<close>

definition logMsg_CM :: "jworld \<Rightarrow> CLogger \<Rightarrow> int \<Rightarrow> string \<Rightarrow> string \<Rightarrow> string \<Rightarrow> unit jm" where
  "logMsg_CM W lg level sourceClass sourceMethod msg = with_env W (lg_jvm lg) (\<lambda>env.
     if \<not> env \<or> level < m_currentLevel lg \<or> \<not> m_areJMethodIDsInitialized lg then jret ()
     else do {
       jsourceClass \<leftarrow> jnew W True (NewStringUTF sourceClass);
       c \<leftarrow> clearException env;
       let failed = (c \<or> jsourceClass = None);
       (jsourceMethod, failed) \<leftarrow>
         (if failed then jret (None, failed)
          else do { j \<leftarrow> jnew W True (NewStringUTF sourceMethod); c \<leftarrow> clearException env; jret (j, c \<or> j = None) });
       (jmsg, failed) \<leftarrow>
         (if failed then jret (None, failed)
          else do { j \<leftarrow> jnew W True (NewStringUTF msg); c \<leftarrow> clearException env; jret (j, c \<or> j = None) });
       jwhen (\<not> failed) (do {
         jcall W (CallStaticMethod ''logMsg'' [JInt level, JString jsourceClass sourceClass, JString jsourceMethod sourceMethod, JString jmsg msg]);
         clearException env;
         jret ()
       });
       jwhen (jsourceClass \<noteq> None) (delete_local_ref W jsourceClass);
       jwhen (jsourceMethod \<noteq> None) (delete_local_ref W jsourceMethod);
       jwhen (jmsg \<noteq> None) (delete_local_ref W jmsg)
     })"

text \<open>\<open>weak\<close> says whether a weak reference to the class could be made.\<close>

definition CLogger_init :: "jworld \<Rightarrow> bool \<Rightarrow> bool \<Rightarrow> CLogger \<Rightarrow> (bool \<times> CLogger) jm" where
  "CLogger_init W weak cls lg = do {
     env \<leftarrow> jgets j_attached;
     if \<not> env \<or> \<not> cls then jret (False, lg)
     else do {
       c \<leftarrow> clearException env;
       let lg = lg\<lparr>lg_jvm := True\<rparr>;
       if c then jret (False, lg)
       else if m_areJMethodIDsInitialized lg then jret (True, lg)
       else do {
         local_cls \<leftarrow> jnew W True (FindClass ''com/sun/media/jfxmedia/logging/Logger'');
         c \<leftarrow> clearException env;
         if c \<or> local_cls = None then jret (False, lg)
         else do {
           delete_local_ref W local_cls;
           if \<not> weak then jret (False, lg)
           else do {
             m1 \<leftarrow> jcall W (GetStaticMethodID ''logMsg'');
             c \<leftarrow> clearException env;
             if c then jret (False, lg)
             else do {
               m2 \<leftarrow> jcall W (GetStaticMethodID ''logMsg'');
               c \<leftarrow> clearException env;
               if c then jret (False, lg)
               else if m1 \<and> m2 then jret (True, lg\<lparr>m_areJMethodIDsInitialized := True\<rparr>)
               else jret (False, lg)
             }
           }
         }
       }
     }
   }"

definition setLevel :: "int \<Rightarrow> CLogger \<Rightarrow> CLogger" where
  "setLevel level lg = lg\<lparr>m_currentLevel := level\<rparr>"

text \<open>The logger is created at its first use, with all members zero.  Two native methods of the Java class \<^verbatim>\<open>Logger\<close> set it up.\<close>

definition CLogger_CreateInstance :: CLogger where
  "CLogger_CreateInstance = \<lparr>lg_jvm = False, m_currentLevel = 0, m_areJMethodIDsInitialized = False\<rparr>"

definition getLogger :: "CLogger option \<Rightarrow> CLogger" where
  "getLogger lgr = (case lgr of None \<Rightarrow> CLogger_CreateInstance | Some lg \<Rightarrow> lg)"

definition Logger_nativeInit :: "jworld \<Rightarrow> bool \<Rightarrow> bool \<Rightarrow> CLogger option \<Rightarrow> (bool \<times> CLogger) jm" where
  "Logger_nativeInit W weak cls lgr = CLogger_init W weak cls (getLogger lgr)"

definition Logger_nativeSetNativeLevel :: "int \<Rightarrow> CLogger option \<Rightarrow> CLogger" where
  "Logger_nativeSetNativeLevel level lgr = setLevel level (getLogger lgr)"

definition LOGGER_ERROR :: int where "LOGGER_ERROR = 4"

definition LOGGER_WARNING :: int where "LOGGER_WARNING = 3"

definition LOGGER_DEBUG :: int where "LOGGER_DEBUG = 1"

definition logWarningMsg :: "jworld \<Rightarrow> CLogger \<Rightarrow> string \<Rightarrow> unit jm" where
  "logWarningMsg W lg msg = logMsg W lg LOGGER_DEBUG msg"

definition log_error :: "jworld \<Rightarrow> string \<Rightarrow> unit jm" where
  "log_error W msg = (case jw_logger W of None \<Rightarrow> jret () | Some lg \<Rightarrow> logMsg W lg LOGGER_ERROR msg)"

subsection \<open>Reporting an exception\<close>

text \<open>The text of the exception; its reference is not deleted.\<close>

definition report_text :: "jworld \<Rightarrow> bool \<Rightarrow> jobject \<Rightarrow> unit jm" where
  "report_text W environment exc = do {
     mid \<leftarrow> jcall W (GetMethodID ''toString'');
     c2 \<leftarrow> clearException environment;
     if c2 then jret ()
     else do {
       l \<leftarrow> jgets (\<lambda>s. mid \<and> exc \<noteq> None \<and> live s exc);
       jmsg \<leftarrow> jnew W l (CallMethod exc ''toString'' []);
       c3 \<leftarrow> clearException environment;
       if c3 then jret ()
       else do {
         jmodify (enter_jni W (jmsg \<noteq> None) (GetStringUTFChars jmsg));
         text \<leftarrow> jgets (\<lambda>s. jw_text W (j_log s));
         log_error W text;
         jmodify (\<lambda>s. (enter_jni W True (ReleaseStringUTFChars jmsg) s)\<lparr>j_pending := j_pending s\<rparr>);
         jret ()
       }
     }
   }"

definition reportException :: "jworld \<Rightarrow> bool \<Rightarrow> bool jm" where
  "reportException W environment = do {
     p \<leftarrow> jgets (\<lambda>s. environment \<and> j_pending s);
     if \<not> p then jret False
     else do {
       exc \<leftarrow> State (\<lambda>s. (Some (j_next s), s\<lparr>j_locals := j_next s # j_locals s, j_next := Suc (j_next s), j_pending := False\<rparr>));
       cid \<leftarrow> jnew W True (FindClass ''java/lang/Throwable'');
       c1 \<leftarrow> clearException environment;
       jwhen (\<not> c1 \<and> cid \<noteq> None) (do { report_text W environment exc; delete_local_ref W cid });
       delete_local_ref W exc;
       jret True
     }
   }"

text \<open>A chain of look-ups, which ends at the first that fails: whether one did, and the identifiers that are set.\<close>

fun look_up :: "jworld \<Rightarrow> jfun list \<Rightarrow> bool \<Rightarrow> jfun list \<Rightarrow> (bool \<times> jfun list) jm" where
  "look_up W [] failed ids = jret (failed, ids)"
| "look_up W (f # fs) failed ids = (if failed then jret (True, ids) else do {
     ok \<leftarrow> jcall W f;
     e \<leftarrow> reportException W True;
     look_up W fs (e \<or> \<not> ok) (if e \<or> \<not> ok then removeAll f ids else f # ids)
   })"

text \<open>The class falls back to \<^verbatim>\<open>java.lang.Exception\<close>.\<close>

definition ThrowJavaException :: "jworld \<Rightarrow> bool \<Rightarrow> string option \<Rightarrow> string \<Rightarrow> unit jm" where
  "ThrowJavaException W env type message = do {
     p \<leftarrow> jgets j_pending;
     if \<not> env \<or> p then jret ()
     else do {
       klass \<leftarrow> (case type of
                   None \<Rightarrow> jret None
                 | Some t \<Rightarrow> do { k \<leftarrow> jnew W True (FindClass t); clearException env; jret k });
       klass \<leftarrow> (if klass = None then jnew W True (FindClass ''java/lang/Exception'') else jret klass);
       p \<leftarrow> jgets j_pending;
       if p \<or> klass = None then do { clearException env; jret () }
       else do { jmodify (\<lambda>s. (enter_jni W (live s klass) (ThrowNew klass message) s)\<lparr>j_pending := True\<rparr>); jret () }
     }
   }"

subsection \<open>Running a program\<close>

lemma run_bind [simp]: "run_state (State_Monad.bind m f) s = (case run_state m s of (a, t) \<Rightarrow> run_state (f a) t)"
  by (simp add: split_beta)

lemma run_basic [simp]:
  "run_state (jret a) s = (a, s)" "run_state (jgets f) s = (f s, s)" "run_state (jmodify g) s = ((), g s)"
  "run_state (jwhen c m) s = (if c then run_state m s else ((), s))"
  "run_state (if c then m else m') s = (if c then run_state m s else run_state m' s)"
  by (simp_all add: jgets_def jmodify_def jwhen_def)

lemma run_clear [simp]: "run_state (clearException e) s = (e \<and> j_pending s, if e then s\<lparr>j_pending := False\<rparr> else s)"
  by (simp add: clearException_def)

lemma pending_same [simp]: "\<not> j_pending s \<Longrightarrow> s\<lparr>j_pending := False\<rparr> = s"
  by (cases s) simp

text \<open>A thread that keeps the rules so far: references are older than the counter, and a thread that is not attached has none.\<close>

definition thread_ok :: "jthread \<Rightarrow> bool" where
  "thread_ok s \<longleftrightarrow> \<not> j_broken s \<and> (\<forall>i \<in> set (j_locals s) \<union> set (j_globals s). i < j_next s) \<and> (\<not> j_attached s \<longrightarrow> j_locals s = [] \<and> \<not> j_pending s)"

text \<open>What is documented: a method that is looked up is found or an exception is thrown, \<^verbatim>\<open>toString\<close> returns a string, and making a
  local reference, reading a field or asking for a class throws nothing; and there is memory for the characters of a string, which the code does not test.\<close>

definition documented :: "jworld \<Rightarrow> bool" where
  "documented W \<longleftrightarrow> (\<forall>h name. jw_ok W h (GetMethodID name) \<or> jw_throws W h (GetMethodID name)) \<and>
     (\<forall>h r. jw_ok W h (CallMethod r ''toString'' []) \<or> jw_throws W h (CallMethod r ''toString'' [])) \<and>
     (\<forall>h r name. \<not> jw_throws W h (GetStringUTFChars r) \<and> \<not> jw_throws W h (NewLocalRef r) \<and> \<not> jw_throws W h (GetObjectField r name) \<and>
        \<not> jw_throws W h (GetDirectBufferAddress r) \<and> \<not> jw_throws W h (GetObjectClass r))"

text \<open>What Java sees of an argument.\<close>

fun by_value :: "jvalue \<Rightarrow> jvalue" where
  "by_value (JString r t) = JString None t"
| "by_value v = v"

text \<open>The calls of Java methods in a log, oldest first, except the text of an exception.\<close>

fun java_calls :: "jhistory \<Rightarrow> (string \<times> jvalue list) list" where
  "java_calls [] = []"
| "java_calls (CallMethod r name args # h) = (if name = ''toString'' then java_calls h else java_calls h @ [(name, map by_value args)])"
| "java_calls (_ # h) = java_calls h"

lemma java_calls_append [simp]: "java_calls (h @ h') = java_calls h' @ java_calls h"
  by (induction h rule: java_calls.induct) auto

text \<open>\<open>calm L s t\<close>: between \<open>s\<close> and \<open>t\<close> no Java method was called, no rule was broken, no reference was lost, and the new local references
  are those in \<open>L\<close>.\<close>

definition calm :: "nat list \<Rightarrow> jthread \<Rightarrow> jthread \<Rightarrow> bool" where
  "calm L s t \<longleftrightarrow> java_calls (j_log t) = java_calls (j_log s) \<and> j_attached t = j_attached s \<and> j_globals t = j_globals s \<and>
     j_broken t = j_broken s \<and> j_next s \<le> j_next t \<and> j_locals t = L @ j_locals s \<and> (\<forall>i \<in> set L. j_next s \<le> i \<and> i < j_next t)"

lemma calm_refl: "calm [] s s"
  by (simp add: calm_def)

lemma calm_trans: "calm L s t \<Longrightarrow> calm M t u \<Longrightarrow> calm (M @ L) s u"
  by (fastforce simp: calm_def)

lemma calm_ok: "calm L s t \<Longrightarrow> thread_ok s \<Longrightarrow> j_attached s \<Longrightarrow> thread_ok t"
  unfolding calm_def thread_ok_def by (auto simp: ball_Un)

lemmas env_simps = with_env_def CJavaEnvironment_new_def GetJavaEnvironment_def CJavaEnvironment_delete_def

lemma with_env_attached: "j_attached s \<Longrightarrow> run_state (with_env W jvm body) s = run_state (body jvm) s"
  by (simp add: env_simps split: prod.splits)

lemma logMsg_calm:
  assumes "j_attached s" "\<not> j_pending s"
  shows "calm [] s (snd (run_state (logMsg W lg level msg) s)) \<and> \<not> j_pending (snd (run_state (logMsg W lg level msg) s))"
  using assms by (simp add: logMsg_def with_env_attached jnew_def jcall_def enter_jni_def delete_local_ref_def calm_def Let_def)

lemma log_error_calm:
  assumes "j_attached s" "\<not> j_pending s"
  shows "calm [] s (snd (run_state (log_error W msg) s)) \<and> \<not> j_pending (snd (run_state (log_error W msg) s))"
  using assms logMsg_calm by (simp add: log_error_def calm_refl split: option.split)

text \<open>Of the text of an exception one local reference remains.\<close>

lemma report_text_calm:
  assumes "documented W" "j_attached s" "\<not> j_pending s" "exc \<noteq> None" "live s exc" "run_state (report_text W True exc) s = (u, t)"
  shows "\<exists>L. length L \<le> 1 \<and> calm L s t \<and> \<not> j_pending t"
proof -
  define s1 where "s1 = enter_jni W True (GetMethodID ''toString'') s"
  have s1: "j_attached s1" "calm [] s s1" "j_pending s1 = jw_throws W (j_log s) (GetMethodID ''toString'')"
      "jw_ok W (j_log s) (GetMethodID ''toString'') \<or> j_pending s1" "live s1 exc" "live (s1\<lparr>j_pending := False\<rparr>) exc"
    using assms(1-3,5) by (auto simp: s1_def enter_jni_def calm_def documented_def live_def split: option.splits)
  have clr: "calm L a b \<Longrightarrow> calm L a (b\<lparr>j_pending := p\<rparr>)" for L a b p
    by (simp add: calm_def)
  show ?thesis
  proof (cases "j_pending s1")
    case True
    then have "t = s1\<lparr>j_pending := False\<rparr>"
      using assms(6) by (simp add: report_text_def jcall_def flip: s1_def)
    then show ?thesis
      using clr [OF s1(2)] by (intro exI [of _ "[]"]) simp
  next
    case False
    define f where "f = CallMethod exc ''toString'' []"
    define s2 where "s2 = snd (run_state (jnew W True f) s1)"
    define jmsg where "jmsg = fst (run_state (jnew W True f) s1)"
    have s2: "j_pending s2 \<and> calm [] s1 s2 \<or> \<not> j_pending s2 \<and> jmsg \<noteq> None \<and> calm [j_next s1] s1 s2"
      using assms(1) s1(1) False by (auto simp: s2_def jmsg_def jnew_def enter_jni_def calm_def Let_def documented_def f_def)
    have run: "run_state (jnew W True (CallMethod exc ''toString'' [])) s1 = (jmsg, s2)"
      by (simp add: s2_def jmsg_def f_def)
    show ?thesis
    proof (cases "j_pending s2")
      case True
      then have "t = s2\<lparr>j_pending := False\<rparr>"
        using assms(4,6) s1(4,5,6) False run by (simp add: report_text_def jcall_def flip: s1_def)
      then show ?thesis
        using clr [OF calm_trans [OF s1(2)]] s2 True by (intro exI [of _ "[]"]) auto
    next
      case False
      define s3 where "s3 = enter_jni W True (GetStringUTFChars jmsg) s2"
      define s4 where "s4 = snd (run_state (log_error W (jw_text W (j_log s3))) s3)"
      have s3: "j_attached s3" "\<not> j_pending s3" "calm [] s2 s3"
        using assms(1) s1(1) s2 False by (auto simp: s3_def enter_jni_def calm_def documented_def)
      have s4: "calm [] s3 s4" "\<not> j_pending s4"
        using log_error_calm [of s3 W] s3(1,2) unfolding s4_def by auto
      have "run_state (log_error W (jw_text W (j_log s3))) s3 = ((), s4)"
        by (simp add: s4_def prod_eq_iff)
      then have "t = (enter_jni W True (ReleaseStringUTFChars jmsg) s4)\<lparr>j_pending := False\<rparr>"
        using assms(4,6) s1(4,5,6) s2 s4(2) run False \<open>\<not> j_pending s1\<close>
        by (auto simp add: report_text_def jcall_def simp flip: s1_def s3_def)
      then have end_: "calm [] s4 t" "\<not> j_pending t"
        using s4(1) s3(1) by (auto simp: enter_jni_def calm_def)
      have "calm [j_next s1] s1 s2"
        using s2 False by blast
      then show ?thesis
        using calm_trans [OF s1(2) calm_trans [OF _ calm_trans [OF s3(3) calm_trans [OF s4(1) end_(1)]]]] end_(2)
        by (intro exI [of _ "[j_next s1]"]) simp
    qed
  qed
qed

lemma report_spec:
  assumes "documented W" "j_attached s" "run_state (reportException W True) s = (r, t)"
  shows "(r \<longleftrightarrow> j_pending s) \<and> \<not> j_pending t \<and> (\<exists>L. length L \<le> (if r then 1 else 0) \<and> calm L s t)"
proof (cases "j_pending s")
  case False
  then show ?thesis
    using assms(3) by (auto simp: reportException_def calm_refl)
next
  case True
  define s1 where "s1 = s\<lparr>j_locals := j_next s # j_locals s, j_next := Suc (j_next s), j_pending := False\<rparr>"
  define f where "f = FindClass ''java/lang/Throwable''"
  define cid where "cid = fst (run_state (jnew W True f) s1)"
  define s2 where "s2 = (snd (run_state (jnew W True f) s1))\<lparr>j_pending := False\<rparr>"
  define s3 where "s3 = (if cid = None then s2 else snd (run_state (delete_local_ref W cid) (snd (run_state (report_text W True (Some (j_next s))) s2))))"
  have run: "r" "t = snd (run_state (delete_local_ref W (Some (j_next s))) s3)"
    using assms(3) True
    by (auto simp: reportException_def s1_def s2_def s3_def cid_def f_def jnew_def enter_jni_def Let_def split_beta split: if_splits)
  have s2: "calm [j_next s] s s2 \<and> cid = None \<or> calm [Suc (j_next s), j_next s] s s2 \<and> cid = Some (Suc (j_next s))" "\<not> j_pending s2"
    using assms(2) by (auto simp: s1_def s2_def cid_def f_def jnew_def enter_jni_def Let_def calm_def)
  have "\<exists>L. length L \<le> 1 \<and> calm (L @ [j_next s]) s s3 \<and> \<not> j_pending s3 \<and> j_next s \<notin> set L"
  proof (cases cid)
    case None
    then show ?thesis
      using s2 by (intro exI [of _ "[]"]) (auto simp: s3_def)
  next
    case (Some c)
    then have c: "c = Suc (j_next s)" "calm [Suc (j_next s), j_next s] s s2"
      using s2 by auto
    obtain u where u: "run_state (report_text W True (Some (j_next s))) s2 = ((), u)"
      by (metis old.unit.exhaust surj_pair)
    have "j_attached s2" "live s2 (Some (j_next s))"
      using c(2) assms(2) by (auto simp: calm_def live_def)
    then obtain L where L: "length L \<le> 1" "calm L s2 u" "\<not> j_pending u"
      using report_text_calm [OF assms(1) _ s2(2) _ _ u] by auto
    then have "calm (L @ [j_next s]) s s3 \<and> \<not> j_pending s3 \<and> j_next s \<notin> set L"
      using c assms(2) Some by (auto simp: s3_def u delete_local_ref_def enter_jni_def calm_def remove1_append)
    then show ?thesis
      using L(1) by blast
  qed
  then obtain L where L: "length L \<le> 1" "calm (L @ [j_next s]) s s3" "\<not> j_pending s3" "j_next s \<notin> set L"
    by blast
  then have "calm L s t" "\<not> j_pending t"
    using assms(2) run(2) by (auto simp: delete_local_ref_def enter_jni_def calm_def remove1_append)
  then show ?thesis
    using True run(1) L(1) by auto
qed

lemma look_up_failed: "run_state (look_up W fs True ids) s = ((True, ids), s)"
  by (cases fs) simp_all

lemma look_up_found:
  assumes "run_state (look_up W fs failed ids) s = ((False, ids'), t)" "j_attached s" "\<not> j_pending s" "\<forall>f \<in> set fs. java_calls [f] = []"
  shows "\<not> failed \<and> calm [] s t \<and> \<not> j_pending t \<and> set ids' = set fs \<union> set ids"
  using assms
proof (induction W fs failed ids arbitrary: s rule: look_up.induct)
  case (2 W f fs failed ids)
  define s1 where "s1 = enter_jni W True f s"
  have s1: "calm [] s s1" "j_attached s1"
    using 2(3-5) java_calls_append [of "[f]" "j_log s"] by (auto simp: s1_def enter_jni_def calm_def)
  show ?case
  proof (cases failed)
    case False
    define ok where "ok = jw_ok W (j_log s) f"
    obtain e u where e: "run_state (reportException W True) s1 = (e, u)"
        "run_state (look_up W fs (e \<or> \<not> ok) (if e \<or> \<not> ok then removeAll f ids else f # ids)) u = ((False, ids'), t)"
      using 2(2) False by (auto simp: jcall_def s1_def ok_def split: prod.splits)
    have n: "\<not> (e \<or> \<not> ok)"
      using e(2) look_up_failed [of W fs] by (cases "e \<or> \<not> ok") auto
    then have u: "\<not> j_pending s1" "u = s1"
      using e(1) by (auto simp: reportException_def split: if_splits prod.splits)
    have "calm [] s1 t \<and> \<not> j_pending t \<and> set ids' = set fs \<union> set (f # ids)"
      using 2(1) [OF False, of e ok s1] e(2) 2(5) s1(2) u n by simp
    then show ?thesis
      using False calm_trans [OF s1(1)] by fastforce
  qed (use 2(2) in simp)
qed (auto simp: calm_refl)

text \<open>Threads can be attached, and there is memory for a local reference.\<close>

definition can_call :: "jworld \<Rightarrow> bool" where
  "can_call W \<longleftrightarrow> (\<forall>h r. jw_ok W h AttachCurrentThread \<and> jw_ok W h (NewLocalRef r))"

subsection \<open>Operations as a whole\<close>

text \<open>\<open>served n cs s t\<close>: an operation has made the Java calls \<open>cs\<close> and left the thread as it was: attached or not, with the same
  references but at most \<open>n\<close> new local ones, nothing pending, no rule broken.\<close>

definition served :: "nat \<Rightarrow> (string \<times> jvalue list) list \<Rightarrow> jthread \<Rightarrow> jthread \<Rightarrow> bool" where
  "served n cs s t \<longleftrightarrow> java_calls (j_log t) = java_calls (j_log s) @ cs \<and> j_attached t = j_attached s \<and> j_globals t = j_globals s \<and>
     j_broken t = j_broken s \<and> j_next s \<le> j_next t \<and> \<not> j_pending t \<and>
     (\<exists>L. length L \<le> n \<and> j_locals t = L @ j_locals s \<and> (\<forall>i \<in> set L. j_next s \<le> i \<and> i < j_next t))"

lemma served_refl: "\<not> j_pending s \<Longrightarrow> served n [] s s"
  by (simp add: served_def)

lemma calm_served: "calm L s t \<Longrightarrow> length L \<le> n \<Longrightarrow> \<not> j_pending t \<Longrightarrow> served n [] s t"
  by (auto simp: served_def calm_def)

lemma served_trans: "served m cs s t \<Longrightarrow> served n ds t u \<Longrightarrow> served (m + n) (cs @ ds) s u"
  unfolding served_def by (elim conjE exE, intro conjI exI) (auto intro: order_trans less_le_trans)

lemma served_mono: "served m cs s t \<Longrightarrow> m \<le> n \<Longrightarrow> served n cs s t"
  unfolding served_def by (meson order_trans)

lemma served_ok: "served n cs s t \<Longrightarrow> thread_ok s \<Longrightarrow> n = 0 \<or> j_attached s \<Longrightarrow> thread_ok t"
  unfolding served_def thread_ok_def by (auto simp: ball_Un intro: less_le_trans)

text \<open>A native thread is attached for the operation and detached after it.\<close>

lemma with_env_served:
  assumes ok: "thread_ok s" "\<not> j_pending s"
    and body: "\<And>s'. thread_ok s' \<Longrightarrow> j_attached s' \<Longrightarrow> \<not> j_pending s' \<Longrightarrow> j_globals s' = j_globals s \<Longrightarrow>
      \<exists>r cs t. run_state (body True) s' = (r, t) \<and> served n cs s' t \<and> Q r cs"
    and none: "\<And>s'. run_state (body False) s' = (d, s')" "\<not> jvm \<or> \<not> j_attached s \<and> (\<exists>h. \<not> jw_ok W h AttachCurrentThread) \<Longrightarrow> Q d []"
  shows "\<exists>r cs t. run_state (with_env W jvm body) s = (r, t) \<and> served (if j_attached s then n else 0) cs s t \<and> Q r cs"
proof (cases "jvm \<and> \<not> j_attached s \<and> jw_ok W (j_log s) AttachCurrentThread")
  case True
  define s' where "s' = s\<lparr>j_log := AttachCurrentThread # j_log s, j_attached := True\<rparr>"
  have s': "thread_ok s'" "j_attached s'" "\<not> j_pending s'" "j_globals s' = j_globals s"
    using ok by (auto simp: s'_def thread_ok_def)
  obtain r cs t where b: "run_state (body True) s' = (r, t)" "served n cs s' t" "Q r cs"
    using body [OF s'] by blast
  define u where "u = t\<lparr>j_log := DetachCurrentThread # j_log t, j_attached := False, j_pending := False, j_locals := []\<rparr>"
  have "run_state (with_env W jvm body) s = (r, u)"
    using True b(1) by (simp add: env_simps s'_def u_def)
  moreover have "served 0 cs s u"
    using True ok b(2) by (auto simp: served_def u_def s'_def thread_ok_def)
  ultimately show ?thesis
    using True b(3) by auto
next
  case False
  show ?thesis
  proof (cases "jvm \<and> j_attached s")
    case True
    then show ?thesis
      using body [OF ok(1) _ ok(2) refl] by (auto simp: with_env_attached)
  next
    case no: False
    define u where "u = (if jvm then s\<lparr>j_log := AttachCurrentThread # j_log s, j_attached := False\<rparr> else s)"
    have "run_state (with_env W jvm body) s = (d, u)"
      using False no none(1) by (auto simp: env_simps u_def)
    moreover have "served 0 [] s u"
      using no ok by (auto simp: served_def u_def)
    ultimately show ?thesis
      using False no none(2) served_mono [of 0 "[]" s u "if j_attached s then n else 0"] by auto
  qed
qed

lemmas with_env_served0 = with_env_served [where n = 0, unfolded if_cancel]

text \<open>Single calls from a thread in order.\<close>

lemma run_new_local_ref:
  assumes "documented W" "j_attached s" "\<not> j_pending s" "\<not> j_broken s" "\<forall>i. r = Some i \<longrightarrow> i \<in> set (j_locals s) \<union> set (j_globals s)"
  shows "run_state (new_local_ref W r) s =
    (if r \<noteq> None \<and> jw_ok W (j_log s) (NewLocalRef r)
     then (Some (j_next s), s\<lparr>j_log := NewLocalRef r # j_log s, j_locals := j_next s # j_locals s, j_next := Suc (j_next s)\<rparr>)
     else (None, s\<lparr>j_log := NewLocalRef r # j_log s\<rparr>))"
  using assms by (cases s) (auto simp: new_local_ref_def jnew_def jcall_def enter_jni_def documented_def live_def Let_def)

lemma run_call_method:
  assumes "j_attached s" "\<not> j_pending s" "\<not> j_broken s" "mid" "i \<in> set (j_locals s) \<union> set (j_globals s)"
  shows "run_state (call_method W mid (Some i) name args) s =
    (jw_int W (j_log s) (CallMethod (Some i) name args),
     s\<lparr>j_log := CallMethod (Some i) name args # j_log s, j_pending := jw_throws W (j_log s) (CallMethod (Some i) name args)\<rparr>)"
  using assms by (cases s) (auto simp: call_method_def enter_jni_def live_def)

lemma run_delete_local_ref:
  assumes "j_attached s" "\<not> j_broken s" "i \<in> set (j_locals s)"
  shows "run_state (delete_local_ref W (Some i)) s = ((), s\<lparr>j_log := DeleteLocalRef (Some i) # j_log s, j_locals := remove1 i (j_locals s)\<rparr>)"
  using assms by (cases s) (simp add: delete_local_ref_def enter_jni_def)

lemmas run_calls = run_new_local_ref run_call_method run_delete_local_ref

subsection \<open>Setting up the logger\<close>

text \<open>A successful \<^verbatim>\<open>nativeInit\<close> keeps the level, breaks no rule and leaves no reference; from then on a message of the level is passed to Java,
  and one below it is not.\<close>

lemma logger_initialised:
  assumes "run_state (Logger_nativeInit W weak cls i) s = ((True, lg), t)" "j_attached s" "\<not> j_broken s" "\<not> j_pending s"
  shows "calm [] s t \<and> \<not> j_pending t \<and> lg_jvm lg \<and> m_areJMethodIDsInitialized lg \<and> m_currentLevel lg = m_currentLevel (getLogger i)"
  using assms
  by (auto simp: Logger_nativeInit_def CLogger_init_def jnew_def jcall_def enter_jni_def delete_local_ref_def calm_def Let_def split: if_splits)

theorem log_level_respected:
  assumes "run_state (Logger_nativeInit W weak cls i) s = ((True, lg), t)" "j_attached s" "\<not> j_broken s" "\<not> j_pending s"
    "\<And>h. jw_ok W h (NewStringUTF msg) \<and> \<not> jw_throws W h (NewStringUTF msg)"
  shows "j_log (snd (run_state (logMsg W lg level msg) t)) =
    (if canLog level lg
     then [DeleteLocalRef (Some (j_next t)), CallStaticMethod ''logMsg'' [JInt level, JString (Some (j_next t)) msg], NewStringUTF msg] else []) @ j_log t"
proof -
  have "j_attached t" "\<not> j_pending t" "lg_jvm lg" "m_areJMethodIDsInitialized lg"
    using logger_initialised [OF assms(1-4)] assms(2) by (auto simp: calm_def)
  then show ?thesis
    using assms(5) by (auto simp: logMsg_def with_env_attached jnew_def jcall_def enter_jni_def delete_local_ref_def canLog_def Let_def)
qed

subsection \<open>Defects\<close>

text \<open>A message that cannot be converted is logged as a null string, because the test asks for a failure and a result at once.\<close>

theorem failed_string_logged:
  assumes "j_attached s" "\<not> j_pending s" "lg_jvm lg" "\<not> level < m_currentLevel lg" "m_areJMethodIDsInitialized lg" "jw_throws W (j_log s) (NewStringUTF msg)"
  shows "CallStaticMethod ''logMsg'' [JInt level, JString None msg] \<in> set (j_log (snd (run_state (logMsg W lg level msg) s)))"
  using assms by (simp add: logMsg_def with_env_attached jnew_def jcall_def enter_jni_def delete_local_ref_def Let_def)

text \<open>A warning is logged with the level of debug messages: at the level of warnings it is lost.\<close>

theorem warnings_lost:
  assumes "m_currentLevel lg = LOGGER_WARNING"
  shows "j_log (snd (run_state (logWarningMsg W lg msg) (s\<lparr>j_attached := True\<rparr>))) = j_log s"
  using assms by (simp add: logWarningMsg_def logMsg_def with_env_attached LOGGER_WARNING_def LOGGER_DEBUG_def)

text \<open>The reference to the text of a reported exception is not deleted.\<close>

theorem reported_text_kept:
  assumes "j_attached s" "j_pending s" "jw_logger W = None" "\<And>h f. jw_ok W h f \<and> \<not> jw_throws W h f"
  shows "length (j_locals (snd (run_state (reportException W True) s))) = Suc (length (j_locals s))"
  using assms by (simp add: reportException_def report_text_def log_error_def jnew_def jcall_def enter_jni_def delete_local_ref_def Let_def)

end
