(* ===== verification/Java_Peers.thy ===== *)
theory Java_Peers
  imports Jni_Env
begin

text \<open>
  Native objects that stand for a Java object: they hold a global reference to it, every operation calls the object through a local
  reference, from whatever thread it comes, and one operation gives the global reference back.  The locale \<open>java_peer\<close> states this contract
  and proves what it means for a whole life of such an object.
\<close>

subsection \<open>Operations of several threads\<close>

text \<open>The operations come from different threads, each attached or not and with local references of its own.\<close>

type_synonym caller = "bool \<times> nat list"

definition switch_thread :: "caller \<Rightarrow> jthread \<Rightarrow> jthread" where
  "switch_thread th s = s\<lparr>j_attached := fst th, j_pending := False, j_locals := snd th\<rparr>"

definition caller_ok :: "nat \<Rightarrow> caller \<Rightarrow> bool" where
  "caller_ok n th \<longleftrightarrow> (\<not> fst th \<longrightarrow> snd th = []) \<and> (\<forall>i \<in> set (snd th). i < n)"

definition machine_ok :: "nat \<Rightarrow> jthread \<Rightarrow> bool" where
  "machine_ok n s \<longleftrightarrow> \<not> j_broken s \<and> (\<forall>i \<in> set (j_globals s). i < j_next s) \<and> n \<le> j_next s"

fun peer_run :: "('op \<Rightarrow> 'st \<Rightarrow> ('ans \<times> 'st) jm) \<Rightarrow> (caller \<times> 'op) list \<Rightarrow> 'st \<Rightarrow> jthread \<Rightarrow> 'ans list \<times> 'st \<times> jthread" where
  "peer_run step [] st s = ([], st, s)"
| "peer_run step ((th, op) # ops) st s =
     (case run_state (step op st) (switch_thread th s) of ((a, st), t) \<Rightarrow>
      case peer_run step ops st t of (as, st, u) \<Rightarrow> (a # as, st, u))"

lemma switch_ok: "machine_ok n s \<Longrightarrow> caller_ok n th \<Longrightarrow> thread_ok (switch_thread th s) \<and> \<not> j_pending (switch_thread th s)"
  by (auto simp: machine_ok_def caller_ok_def thread_ok_def switch_thread_def)

lemma switch_simps [simp]: "j_globals (switch_thread th s) = j_globals s" "j_log (switch_thread th s) = j_log s"
  by (simp_all add: switch_thread_def)

lemma served_machine:
  assumes "served n cs (switch_thread th s) t" "machine_ok m s"
  shows "machine_ok m t \<and> j_globals t = j_globals s \<and> java_calls (j_log t) = java_calls (j_log s) @ cs"
  using assms by (auto simp: served_def machine_ok_def switch_thread_def)

lemma peer_run_append:
  "peer_run step (ops @ ops') st s =
     (case peer_run step ops st s of (as, st, t) \<Rightarrow> case peer_run step ops' st t of (bs, st, u) \<Rightarrow> (as @ bs, st, u))"
  by (induction step ops st s rule: peer_run.induct) (auto split: prod.splits)

text \<open>A machine in which native code can work: what is documented, with memory for what the operations need.\<close>

definition roomy :: "jworld \<Rightarrow> bool" where
  "roomy W \<longleftrightarrow> documented W \<and> can_call W \<and> (\<forall>h t. jw_ok W h (NewStringUTF t) \<and> \<not> jw_throws W h (NewStringUTF t))"

subsection \<open>The contract\<close>

text \<open>\<open>calls\<close> is what an operation calls while the object is there, \<open>closed_answer\<close> what it answers when it is not.\<close>

locale java_peer =
  fixes step :: "jworld \<Rightarrow> 'op \<Rightarrow> 'st \<Rightarrow> ('ans \<times> 'st) jm"
    and fits :: "jworld \<Rightarrow> 'op \<Rightarrow> bool"
    and close :: 'op
    and holder :: "'st \<Rightarrow> jobject"
    and cleared :: "'st \<Rightarrow> 'st"
    and ready :: "'st \<Rightarrow> bool"
    and calls :: "'op \<Rightarrow> (string \<times> jvalue list) list"
    and closed_answer :: "'op \<Rightarrow> 'ans"
  assumes open_step: "roomy W \<Longrightarrow> fits W op \<Longrightarrow> op \<noteq> close \<Longrightarrow> thread_ok s \<Longrightarrow> \<not> j_pending s \<Longrightarrow> ready st \<Longrightarrow>
      holder st = Some i \<Longrightarrow> i \<in> set (j_globals s) \<Longrightarrow>
      \<exists>a t. run_state (step W op st) s = ((a, st), t) \<and> served 1 (calls op) s t"
    and close_step: "roomy W \<Longrightarrow> thread_ok s \<Longrightarrow> \<not> j_pending s \<Longrightarrow> ready st \<Longrightarrow> holder st = Some i \<Longrightarrow> i \<in> set (j_globals s) \<Longrightarrow>
      \<exists>a t. run_state (step W close st) s = ((a, cleared st), t) \<and> served 1 (calls close) s (t\<lparr>j_globals := j_globals s\<rparr>) \<and>
        j_globals t = remove1 i (j_globals s)"
    and closed_step: "documented W \<Longrightarrow> fits W op \<Longrightarrow> thread_ok s \<Longrightarrow> \<not> j_pending s \<Longrightarrow> holder st = None \<Longrightarrow>
      \<exists>t. run_state (step W op st) s = ((closed_answer op, st), t) \<and> served 1 [] s t"
    and cleared_none: "holder (cleared st) = None"
begin

lemma run_open:
  assumes "roomy W" "machine_ok n s" "ready st" "holder st = Some i" "i \<in> set (j_globals s)"
    "\<forall>(th, op) \<in> set ops. caller_ok n th \<and> fits W op \<and> op \<noteq> close"
  shows "\<exists>as t. peer_run (step W) ops st s = (as, st, t) \<and> length as = length ops \<and> machine_ok n t \<and> j_globals t = j_globals s \<and>
    java_calls (j_log t) = java_calls (j_log s) @ concat (map (calls \<circ> snd) ops)"
  using assms(2,5,6)
proof (induction ops arbitrary: s)
  case (Cons x ops)
  obtain th op where x: "x = (th, op)" by fastforce
  have sw: "thread_ok (switch_thread th s)" "\<not> j_pending (switch_thread th s)"
    using switch_ok [OF Cons(2)] Cons(4) x by auto
  obtain a t where t: "run_state (step W op st) (switch_thread th s) = ((a, st), t)" "served 1 (calls op) (switch_thread th s) t"
    using open_step [OF assms(1) _ _ sw assms(3,4), of op] Cons(3,4) x by auto
  have "machine_ok n t \<and> j_globals t = j_globals s \<and> java_calls (j_log t) = java_calls (j_log s) @ calls op"
    using served_machine [OF t(2) Cons(2)] .
  then show ?case
    using Cons(1) [of t] Cons(3,4) t(1) x by auto
qed simp

lemma run_closed:
  assumes "documented W" "machine_ok n s" "holder st = None" "\<forall>(th, op) \<in> set ops. caller_ok n th \<and> fits W op"
  shows "\<exists>t. peer_run (step W) ops st s = (map (closed_answer \<circ> snd) ops, st, t) \<and> machine_ok n t \<and> j_globals t = j_globals s \<and>
    java_calls (j_log t) = java_calls (j_log s)"
  using assms(2,4)
proof (induction ops arbitrary: s)
  case (Cons x ops)
  obtain th op where x: "x = (th, op)" by fastforce
  have sw: "thread_ok (switch_thread th s)" "\<not> j_pending (switch_thread th s)"
    using switch_ok [OF Cons(2)] Cons(3) x by auto
  obtain t where t: "run_state (step W op st) (switch_thread th s) = ((closed_answer op, st), t)" "served 1 [] (switch_thread th s) t"
    using closed_step [OF assms(1) _ sw assms(3), of op] Cons(3) x by auto
  then show ?case
    using Cons(1) [of t] Cons(3) served_machine [OF t(2) Cons(2)] x by auto
qed simp

text \<open>A whole life: the calls of the operations in their order, the one of the closing operation as the last; the neutral answers
  afterwards; no rule broken, and the global reference given back.\<close>

lemma life:
  assumes "roomy W" "machine_ok n s" "ready st" "holder st = Some i" "j_globals s = i # gs"
    "\<forall>(th, op) \<in> set (ops @ ops'). caller_ok n th \<and> fits W op" "\<forall>(th, op) \<in> set ops. op \<noteq> close" "caller_ok n th"
  shows "\<exists>as t. peer_run (step W) (ops @ (th, close) # ops') st s = (as @ map (closed_answer \<circ> snd) ops', cleared st, t) \<and>
    length as = Suc (length ops) \<and> java_calls (j_log t) = java_calls (j_log s) @ concat (map (calls \<circ> snd) ops) @ calls close \<and>
    \<not> j_broken t \<and> j_globals t = gs"
proof -
  have o: "\<forall>(th, op) \<in> set ops. caller_ok n th \<and> fits W op \<and> op \<noteq> close" and i: "i \<in> set (j_globals s)"
    using assms(5-7) by auto
  obtain as t where t: "peer_run (step W) ops st s = (as, st, t)" "length as = length ops" "machine_ok n t" "j_globals t = j_globals s"
      "java_calls (j_log t) = java_calls (j_log s) @ concat (map (calls \<circ> snd) ops)"
    using run_open [OF assms(1-4) i o] by blast
  obtain a u where u: "run_state (step W close st) (switch_thread th t) = ((a, cleared st), u)"
      "served 1 (calls close) (switch_thread th t) (u\<lparr>j_globals := j_globals t\<rparr>)" "j_globals u = gs"
    using close_step [OF assms(1) _ _ assms(3,4), of "switch_thread th t"] switch_ok [OF t(3) assms(8)] t(4) assms(5) by auto
  have m: "machine_ok n u" "java_calls (j_log u) = java_calls (j_log t) @ calls close"
    using served_machine [OF u(2) t(3)] u(3) assms(5) t(4) by (auto simp: machine_ok_def)
  obtain v where "peer_run (step W) ops' (cleared st) u = (map (closed_answer \<circ> snd) ops', cleared st, v)" "machine_ok n v" "j_globals v = gs"
      "java_calls (j_log v) = java_calls (j_log u)"
    using run_closed [OF _ m(1) cleared_none, of W ops' st] assms(1,6) u(3) by (auto simp: roomy_def)
  then show ?thesis
    using t u(1) m(2) by (intro exI [of _ "as @ [a]"] exI [of _ v]) (simp add: peer_run_append machine_ok_def)
qed

end

subsection \<open>A concrete machine\<close>

text \<open>A virtual machine in which every call succeeds and every method returns 7.\<close>

definition demo_jworld :: jworld where
  "demo_jworld = \<lparr>jw_ok = \<lambda>h f. True, jw_throws = \<lambda>h f. False, jw_int = \<lambda>h f. 7, jw_text = \<lambda>h. [], jw_bytes = \<lambda>h. [1, 2, 3], jw_logger = None\<rparr>"

definition demo_jthread :: jthread where
  "demo_jthread = \<lparr>j_attached = True, j_pending = False, j_locals = [0], j_globals = [], j_next = 1, j_log = [], j_broken = False\<rparr>"

lemma demo_jworld: "roomy demo_jworld"
  by (simp add: roomy_def documented_def can_call_def demo_jworld_def)

lemma demo_jthread: "thread_ok demo_jthread" "j_attached demo_jthread" "\<not> j_pending demo_jthread" "live demo_jthread (Some 0)"
  by (simp_all add: demo_jthread_def thread_ok_def live_def)

end
