(* ===== verification/Java_Callbacks.thy ===== *)
theory Java_Callbacks
  imports Java_Peers Java_Streams
begin

text \<open>
  \<^verbatim>\<open>jni/JavaInputStreamCallbacks.cpp\<close>: the callbacks of a media stream, each a call of a method of the Java object
  \<^verbatim>\<open>ConnectionHolder\<close>.  The object is kept as a global reference, which \<^verbatim>\<open>CloseConnection\<close> gives back; every operation works on a
  local reference to it, from whatever thread it is called.
\<close>

record JavaInputStreamCallbacks =
  m_jvm :: bool
  m_ConnectionHolder :: jobject
  methodIDsInitialized :: bool

definition JavaInputStreamCallbacks_new :: "bool \<Rightarrow> JavaInputStreamCallbacks" where
  "JavaInputStreamCallbacks_new ids = \<lparr>m_jvm = False, m_ConnectionHolder = None, methodIDsInitialized = ids\<rparr>"

definition connection_members :: "jfun list" where
  "connection_members = GetFieldID ''buffer'' # map GetMethodID [''needBuffer'', ''readNextBlock'', ''readBlock'', ''isSeekable'',
     ''isRandomAccess'', ''seek'', ''closeConnection'', ''property'']"

text \<open>\<^verbatim>\<open>Init\<close> is called by a thread of Java.\<close>

definition callbacks_Init :: "jworld \<Rightarrow> jobject \<Rightarrow> JavaInputStreamCallbacks \<Rightarrow> (bool \<times> JavaInputStreamCallbacks) jm" where
  "callbacks_Init W jConnectionHolder cb =
     (if jConnectionHolder = None then jret (False, cb)
      else do {
        c \<leftarrow> clearException True;
        if c then jret (False, cb\<lparr>m_jvm := False\<rparr>)
        else with_env W True (\<lambda>env. do {
          r \<leftarrow> new_global_ref W jConnectionHolder;
          let cb = cb\<lparr>m_jvm := True, m_ConnectionHolder := r\<rparr>;
          if r = None then do { reportException W env; jret (False, cb) }
          else if methodIDsInitialized cb then jret (True, cb)
          else do {
            klass \<leftarrow> jnew W True (FindClass ''com/sun/media/jfxmedia/locator/ConnectionHolder'');
            e \<leftarrow> reportException W env;
            (failed, ids) \<leftarrow> look_up W connection_members (e \<or> klass = None) [];
            jwhen (klass \<noteq> None) (delete_local_ref W klass);
            jret (\<not> failed, cb\<lparr>methodIDsInitialized := \<not> failed\<rparr>)
          }
        })
      })"

definition on_connection :: "jworld \<Rightarrow> JavaInputStreamCallbacks \<Rightarrow> 'a \<Rightarrow> (jobject \<Rightarrow> 'a jm) \<Rightarrow> 'a jm" where
  "on_connection W cb result body = with_env W (m_jvm cb) (\<lambda>env.
     if \<not> env then jret result
     else do {
       connection \<leftarrow> new_local_ref W (m_ConnectionHolder cb);
       if connection = None then jret result else body connection
     })"

definition NeedBuffer :: "jworld \<Rightarrow> JavaInputStreamCallbacks \<Rightarrow> bool jm" where
  "NeedBuffer W cb = with_env W (m_jvm cb) (\<lambda>env.
     if \<not> env then jret False
     else do {
       connection \<leftarrow> new_local_ref W (m_ConnectionHolder cb);
       result \<leftarrow> (if connection = None then jret False
         else do {
           r \<leftarrow> call_method W (methodIDsInitialized cb) connection ''needBuffer'' [];
           delete_local_ref W connection;
           jret (r = 1)
         });
       clearException env;
       jret result
     })"

text \<open>The common form of the other callbacks: \<open>answer\<close> makes the result from whether the method has thrown and what it has
  returned.\<close>

definition ask_connection :: "jworld \<Rightarrow> JavaInputStreamCallbacks \<Rightarrow> string \<Rightarrow> jvalue list \<Rightarrow> 'a \<Rightarrow> (bool \<Rightarrow> int \<Rightarrow> 'a) \<Rightarrow> 'a jm" where
  "ask_connection W cb name args result answer = on_connection W cb result (\<lambda>connection. do {
     r \<leftarrow> call_method W (methodIDsInitialized cb) connection name args;
     c \<leftarrow> clearException True;
     delete_local_ref W connection;
     jret (answer c r)
   })"

definition ReadNextBlock :: "jworld \<Rightarrow> JavaInputStreamCallbacks \<Rightarrow> int jm" where
  "ReadNextBlock W cb = ask_connection W cb ''readNextBlock'' [] (- 1) (\<lambda>c r. if c then - 2 else r)"

definition ReadBlock :: "jworld \<Rightarrow> JavaInputStreamCallbacks \<Rightarrow> int \<Rightarrow> int \<Rightarrow> int jm" where
  "ReadBlock W cb position len = ask_connection W cb ''readBlock'' [JInt position, JInt len] (- 1) (\<lambda>c r. if c then - 2 else r)"

text \<open>The direct buffer must be there and hold as many bytes as are copied.\<close>

definition CopyBlock :: "jworld \<Rightarrow> JavaInputStreamCallbacks \<Rightarrow> nat \<Rightarrow> octet list option jm" where
  "CopyBlock W cb len = on_connection W cb None (\<lambda>connection. do {
     l \<leftarrow> jgets (\<lambda>s. methodIDsInitialized cb \<and> live s connection);
     buffer \<leftarrow> jnew W l (GetObjectField connection ''buffer'');
     data \<leftarrow> jgets (\<lambda>s. jw_bytes W (j_log s));
     jmodify (enter_jni W (buffer \<noteq> None \<and> len \<le> length data) (GetDirectBufferAddress buffer));
     delete_local_ref W buffer;
     delete_local_ref W connection;
     jret (Some (take len data))
   })"

definition IsSeekable :: "jworld \<Rightarrow> JavaInputStreamCallbacks \<Rightarrow> bool jm" where
  "IsSeekable W cb = ask_connection W cb ''isSeekable'' [] False (\<lambda>c r. r = 1)"

definition IsRandomAccess :: "jworld \<Rightarrow> JavaInputStreamCallbacks \<Rightarrow> bool jm" where
  "IsRandomAccess W cb = ask_connection W cb ''isRandomAccess'' [] False (\<lambda>c r. r = 1)"

definition callbacks_Seek :: "jworld \<Rightarrow> JavaInputStreamCallbacks \<Rightarrow> int \<Rightarrow> int jm" where
  "callbacks_Seek W cb position = ask_connection W cb ''seek'' [JInt position] (- 1) (\<lambda>c r. r)"

definition CloseConnection :: "jworld \<Rightarrow> JavaInputStreamCallbacks \<Rightarrow> JavaInputStreamCallbacks jm" where
  "CloseConnection W cb = with_env W (m_jvm cb) (\<lambda>env.
     if \<not> env then jret cb
     else do {
       connection \<leftarrow> new_local_ref W (m_ConnectionHolder cb);
       jwhen (connection \<noteq> None) (do {
         call_method W (methodIDsInitialized cb) connection ''closeConnection'' [];
         clearException env;
         delete_local_ref W connection
       });
       delete_global_ref W (m_ConnectionHolder cb);
       jret (cb\<lparr>m_ConnectionHolder := None\<rparr>)
     })"

definition callbacks_Property :: "jworld \<Rightarrow> JavaInputStreamCallbacks \<Rightarrow> int \<Rightarrow> int \<Rightarrow> int jm" where
  "callbacks_Property W cb prop value = ask_connection W cb ''property'' [JInt prop, JInt value] 0 (\<lambda>c r. r)"

subsection \<open>What a callback does\<close>

text \<open>The callbacks as a stream uses them: the global reference is live until it is given back.\<close>

definition callbacks_ok :: "JavaInputStreamCallbacks \<Rightarrow> jthread \<Rightarrow> bool" where
  "callbacks_ok cb s \<longleftrightarrow> (\<forall>i. m_ConnectionHolder cb = Some i \<longrightarrow> i \<in> set (j_globals s) \<and> m_jvm cb \<and> methodIDsInitialized cb)"

text \<open>\<open>answered W cb name args d f r cs\<close>: either the method was called, and \<open>r\<close> is made from what it did; or no call was
  possible, and \<open>r\<close> is the default.\<close>

definition answered :: "jworld \<Rightarrow> JavaInputStreamCallbacks \<Rightarrow> string \<Rightarrow> jvalue list \<Rightarrow> 'a \<Rightarrow> (bool \<Rightarrow> int \<Rightarrow> 'a) \<Rightarrow> 'a \<Rightarrow> (string \<times> jvalue list) list \<Rightarrow> bool" where
  "answered W cb name args d f r cs \<longleftrightarrow>
     cs = [(name, map by_value args)] \<and> m_ConnectionHolder cb \<noteq> None \<and>
       (\<exists>h c. r = f (jw_throws W h (CallMethod c name args)) (jw_int W h (CallMethod c name args))) \<or>
     cs = [] \<and> r = d \<and> (m_ConnectionHolder cb = None \<or> \<not> can_call W)"

lemma ask_body:
  assumes "documented W" "name \<noteq> ''toString''" "thread_ok s" "j_attached s" "\<not> j_pending s" "callbacks_ok cb s"
  shows "\<exists>r cs t. run_state (do {
       connection \<leftarrow> new_local_ref W (m_ConnectionHolder cb);
       if connection = None then jret d
       else do {
         r \<leftarrow> call_method W (methodIDsInitialized cb) connection name args;
         c \<leftarrow> clearException True;
         delete_local_ref W connection;
         jret (f c r)
       }
     }) s = (r, t) \<and> served 0 cs s t \<and> answered W cb name args d f r cs"
proof -
  have h: "\<forall>i. m_ConnectionHolder cb = Some i \<longrightarrow> i \<in> set (j_locals s) \<union> set (j_globals s)" "\<not> j_broken s"
    using assms(3,6) by (auto simp: callbacks_ok_def thread_ok_def)
  show ?thesis
  proof (cases "m_ConnectionHolder cb \<noteq> None \<and> jw_ok W (j_log s) (NewLocalRef (m_ConnectionHolder cb))")
    case True
    then have "methodIDsInitialized cb"
      using assms(6) by (auto simp: callbacks_ok_def)
    with True show ?thesis
      using assms(2-5) h by (simp add: run_new_local_ref [OF assms(1,4,5)] run_call_method run_delete_local_ref served_def answered_def) blast
  next
    case False
    then show ?thesis
      using assms(2-5) h by (auto simp: run_new_local_ref [OF assms(1,4,5)] served_def answered_def can_call_def)
  qed
qed

lemma callbacks_ok_globals: "j_globals s' = j_globals s \<Longrightarrow> callbacks_ok cb s' = callbacks_ok cb s"
  by (simp add: callbacks_ok_def)

lemma served_None:
  assumes "thread_ok s" "\<not> j_pending s" "callbacks_ok cb s"
    and "\<And>s'. thread_ok s' \<Longrightarrow> j_attached s' \<Longrightarrow> \<not> j_pending s' \<Longrightarrow> callbacks_ok cb s' \<Longrightarrow>
      \<exists>r cs t. run_state (body True) s' = (r, t) \<and> served 0 cs s' t \<and> answered W cb name args d f r cs"
    and "\<And>s'. run_state (body False) s' = (d, s')"
  shows "\<exists>r cs t. run_state (with_env W (m_jvm cb) body) s = (r, t) \<and> served 0 cs s t \<and> answered W cb name args d f r cs"
proof (rule with_env_served0 [OF assms(1,2)])
  show "answered W cb name args d f d []" if "\<not> m_jvm cb \<or> \<not> j_attached s \<and> (\<exists>h. \<not> jw_ok W h AttachCurrentThread)"
    using that assms(3) by (auto simp: answered_def callbacks_ok_def can_call_def)
  show "\<exists>r cs t. run_state (body True) s' = (r, t) \<and> served 0 cs s' t \<and> answered W cb name args d f r cs"
    if "thread_ok s'" "j_attached s'" "\<not> j_pending s'" "j_globals s' = j_globals s" for s'
    using assms(3) callbacks_ok_globals [OF that(4)] by (intro assms(4) that) simp
qed (rule assms(5))

lemma ask_connection_answered:
  assumes "documented W" "name \<noteq> ''toString''" "thread_ok s" "\<not> j_pending s" "callbacks_ok cb s"
  shows "\<exists>r cs t. run_state (ask_connection W cb name args d f) s = (r, t) \<and> served 0 cs s t \<and> answered W cb name args d f r cs"
  unfolding ask_connection_def on_connection_def
  by (rule served_None [OF assms(3-5)]) (use ask_body [OF assms(1,2)] in simp_all)

lemma NeedBuffer_answered:
  assumes "documented W" "thread_ok s" "\<not> j_pending s" "callbacks_ok cb s"
  shows "\<exists>r cs t. run_state (NeedBuffer W cb) s = (r, t) \<and> served 0 cs s t \<and> answered W cb ''needBuffer'' [] False (\<lambda>c r. r = 1) r cs"
  unfolding NeedBuffer_def
proof (rule served_None [OF assms(2-4)], goal_cases)
  case (1 s')
  then have h: "\<forall>i. m_ConnectionHolder cb = Some i \<longrightarrow> i \<in> set (j_locals s') \<union> set (j_globals s')" "\<not> j_broken s'"
    by (auto simp: callbacks_ok_def thread_ok_def)
  show ?case
  proof (cases "m_ConnectionHolder cb \<noteq> None \<and> jw_ok W (j_log s') (NewLocalRef (m_ConnectionHolder cb))")
    case True
    then have "methodIDsInitialized cb"
      using 1 by (auto simp: callbacks_ok_def)
    with True show ?thesis
      using 1 h by (simp add: run_new_local_ref [OF assms(1)] run_call_method run_delete_local_ref served_def answered_def) blast
  next
    case False
    then show ?thesis
      using 1 h by (auto simp: run_new_local_ref [OF assms(1)] served_def answered_def can_call_def)
  qed
qed simp

text \<open>The buffer of the connection is there and large enough for what is copied.\<close>

definition buffer_holds :: "jworld \<Rightarrow> nat \<Rightarrow> bool" where
  "buffer_holds W len \<longleftrightarrow> (\<forall>h r. jw_ok W h (GetObjectField r ''buffer'') \<and> len \<le> length (jw_bytes W h))"

lemma CopyBlock_served:
  assumes "documented W" "buffer_holds W len" "thread_ok s" "\<not> j_pending s" "callbacks_ok cb s"
  shows "\<exists>r cs t. run_state (CopyBlock W cb len) s = (r, t) \<and> served 0 cs s t \<and>
    cs = [] \<and> (m_ConnectionHolder cb = None \<longrightarrow> r = None) \<and> (\<forall>d. r = Some d \<longrightarrow> length d = len)"
  unfolding CopyBlock_def on_connection_def
proof (rule with_env_served0 [where d = None, OF assms(3,4)], goal_cases)
  case (1 s')
  then have h: "\<forall>i. m_ConnectionHolder cb = Some i \<longrightarrow> i \<in> set (j_locals s') \<union> set (j_globals s') \<and> methodIDsInitialized cb" "\<not> j_broken s'"
    using assms(5) by (auto simp: callbacks_ok_def thread_ok_def)
  show ?case
    using 1 h assms(1,2)
    by (auto simp: run_new_local_ref [OF assms(1)] jnew_def enter_jni_def delete_local_ref_def served_def buffer_holds_def documented_def live_def Let_def)
qed simp_all

subsection \<open>The life of a connection\<close>

datatype stream_op = OpNeedBuffer | OpReadNextBlock | OpReadBlock int int | OpCopyBlock nat | OpIsSeekable | OpIsRandomAccess
  | OpSeek int | OpCloseConnection | OpProperty int int

datatype stream_answer = IsTrue bool | Number int | Data "octet list option" | Done

definition stream_step :: "jworld \<Rightarrow> stream_op \<Rightarrow> JavaInputStreamCallbacks \<Rightarrow> (stream_answer \<times> JavaInputStreamCallbacks) jm" where
  "stream_step W op cb = (case op of
     OpNeedBuffer \<Rightarrow> do { r \<leftarrow> NeedBuffer W cb; jret (IsTrue r, cb) }
   | OpReadNextBlock \<Rightarrow> do { r \<leftarrow> ReadNextBlock W cb; jret (Number r, cb) }
   | OpReadBlock position len \<Rightarrow> do { r \<leftarrow> ReadBlock W cb position len; jret (Number r, cb) }
   | OpCopyBlock len \<Rightarrow> do { r \<leftarrow> CopyBlock W cb len; jret (Data r, cb) }
   | OpIsSeekable \<Rightarrow> do { r \<leftarrow> IsSeekable W cb; jret (IsTrue r, cb) }
   | OpIsRandomAccess \<Rightarrow> do { r \<leftarrow> IsRandomAccess W cb; jret (IsTrue r, cb) }
   | OpSeek position \<Rightarrow> do { r \<leftarrow> callbacks_Seek W cb position; jret (Number r, cb) }
   | OpCloseConnection \<Rightarrow> do { cb \<leftarrow> CloseConnection W cb; jret (Done, cb) }
   | OpProperty prop v \<Rightarrow> do { r \<leftarrow> callbacks_Property W cb prop v; jret (Number r, cb) })"

text \<open>What an operation calls while the connection is open, and what it answers when it is closed.\<close>

fun java_call :: "stream_op \<Rightarrow> (string \<times> jvalue list) list" where
  "java_call OpNeedBuffer = [(''needBuffer'', [])]"
| "java_call OpReadNextBlock = [(''readNextBlock'', [])]"
| "java_call (OpReadBlock position len) = [(''readBlock'', [JInt position, JInt len])]"
| "java_call (OpCopyBlock len) = []"
| "java_call OpIsSeekable = [(''isSeekable'', [])]"
| "java_call OpIsRandomAccess = [(''isRandomAccess'', [])]"
| "java_call (OpSeek position) = [(''seek'', [JInt position])]"
| "java_call OpCloseConnection = [(''closeConnection'', [])]"
| "java_call (OpProperty prop v) = [(''property'', [JInt prop, JInt v])]"

fun closed_answer :: "stream_op \<Rightarrow> stream_answer" where
  "closed_answer OpNeedBuffer = IsTrue False"
| "closed_answer OpReadNextBlock = Number (- 1)"
| "closed_answer (OpReadBlock position len) = Number (- 1)"
| "closed_answer (OpCopyBlock len) = Data None"
| "closed_answer OpIsSeekable = IsTrue False"
| "closed_answer OpIsRandomAccess = IsTrue False"
| "closed_answer (OpSeek position) = Number (- 1)"
| "closed_answer OpCloseConnection = Done"
| "closed_answer (OpProperty prop v) = Number 0"

fun op_fits :: "jworld \<Rightarrow> stream_op \<Rightarrow> bool" where
  "op_fits W (OpCopyBlock len) = buffer_holds W len"
| "op_fits W _ = True"

lemma answered_closed: "m_ConnectionHolder cb = None \<Longrightarrow> answered W cb name args d f r cs \<Longrightarrow> r = d \<and> cs = []"
  by (simp add: answered_def)

lemma answered_open: "m_ConnectionHolder cb = Some i \<Longrightarrow> can_call W \<Longrightarrow> answered W cb name args d f r cs \<Longrightarrow> cs = [(name, map by_value args)]"
  by (simp add: answered_def)

lemmas stream_defs = ReadNextBlock_def ReadBlock_def IsSeekable_def IsRandomAccess_def callbacks_Seek_def callbacks_Property_def

lemma ask_op:
  assumes "documented W" "name \<noteq> ''toString''" "calls = [(name, map by_value args)]" "thread_ok s" "\<not> j_pending s" "callbacks_ok cb s"
  shows "\<exists>a cs t. run_state (do { r \<leftarrow> ask_connection W cb name args d f; jret (g r, cb) }) s = ((a, cb), t) \<and> served 0 cs s t \<and>
    (m_ConnectionHolder cb = None \<longrightarrow> a = g d \<and> cs = []) \<and> (can_call W \<and> m_ConnectionHolder cb \<noteq> None \<longrightarrow> cs = calls)"
  using ask_connection_answered [OF assms(1,2,4-6), of args d f] assms(3) by (auto simp: answered_def)

lemma step_served:
  assumes "documented W" "op_fits W op" "op \<noteq> OpCloseConnection" "thread_ok s" "\<not> j_pending s" "callbacks_ok cb s"
  shows "\<exists>a cs t. run_state (stream_step W op cb) s = ((a, cb), t) \<and> served 0 cs s t \<and>
    (m_ConnectionHolder cb = None \<longrightarrow> a = closed_answer op \<and> cs = []) \<and> (can_call W \<and> m_ConnectionHolder cb \<noteq> None \<longrightarrow> cs = java_call op)"
proof (cases op)
  case OpNeedBuffer
  then show ?thesis
    using NeedBuffer_answered [OF assms(1,4-6)] by (auto simp: stream_step_def answered_def)
next
  case (OpCopyBlock len)
  then show ?thesis
    using CopyBlock_served [OF assms(1) _ assms(4-6), of len] assms(2) by (fastforce simp: stream_step_def)
next
  case OpCloseConnection
  with assms(3) show ?thesis by simp
qed (simp only: stream_step_def stream_defs stream_op.case closed_answer.simps java_call.simps, rule ask_op [OF assms(1) _ _ assms(4-6)], simp, simp)+

text \<open>\<^verbatim>\<open>CloseConnection\<close> calls Java once and gives the global reference back.\<close>

lemma close_served:
  assumes "documented W" "can_call W" "thread_ok s" "\<not> j_pending s" "callbacks_ok cb s" "m_ConnectionHolder cb = Some i"
  shows "\<exists>t. run_state (stream_step W OpCloseConnection cb) s = ((Done, cb\<lparr>m_ConnectionHolder := None\<rparr>), t) \<and>
    served 0 (java_call OpCloseConnection) s (t\<lparr>j_globals := j_globals s\<rparr>) \<and> j_globals t = remove1 i (j_globals s)"
proof -
  have i: "i \<in> set (j_globals s)" "m_jvm cb" "methodIDsInitialized cb"
    using assms(5,6) by (auto simp: callbacks_ok_def)
  note run = run_new_local_ref [OF assms(1)] run_call_method run_delete_local_ref
  have can: "jw_ok W h AttachCurrentThread" "jw_ok W h (NewLocalRef r)" for h r
    using assms(2) by (auto simp: can_call_def)
  show ?thesis
  proof (cases "j_attached s")
    case True
    then show ?thesis
      using assms(3,4,6) i can
      by (simp add: stream_step_def CloseConnection_def with_env_attached run delete_global_ref_def enter_jni_def served_def thread_ok_def)
  next
    case False
    then show ?thesis
      using assms(3,4,6) i can
      by (simp add: stream_step_def CloseConnection_def env_simps run delete_global_ref_def enter_jni_def served_def thread_ok_def)
  qed
qed

lemma closed_served:
  assumes "documented W" "op_fits W op" "thread_ok s" "\<not> j_pending s" "m_ConnectionHolder cb = None"
  shows "\<exists>t. run_state (stream_step W op cb) s = ((closed_answer op, cb), t) \<and> served 0 [] s t"
proof (cases "op = OpCloseConnection")
  case True
  have same: "cb\<lparr>m_ConnectionHolder := None\<rparr> = cb"
    using assms(5) by simp
  have "\<exists>r cs t. run_state (CloseConnection W cb) s = (r, t) \<and> served 0 cs s t \<and> r = cb \<and> cs = []"
    unfolding CloseConnection_def
    by (rule with_env_served0 [where d = cb, OF assms(3,4)])
       (use assms same in \<open>auto simp: run_new_local_ref delete_global_ref_def enter_jni_def served_def thread_ok_def\<close>)
  with True show ?thesis
    by (auto simp: stream_step_def)
next
  case False
  have "callbacks_ok cb s"
    using assms(5) by (simp add: callbacks_ok_def)
  then show ?thesis
    using step_served [OF assms(1,2) False assms(3,4)] assms(5) by metis
qed

text \<open>A successful \<^verbatim>\<open>Init\<close> makes one global reference.\<close>

lemma Init_found:
  assumes "run_state (callbacks_Init W (Some r) cb0) s = ((True, cb), t)" "thread_ok s" "j_attached s" "\<not> j_pending s" "live s (Some r)"
  shows "m_jvm cb \<and> methodIDsInitialized cb \<and> m_ConnectionHolder cb = Some (j_next s) \<and> j_globals t = j_next s # j_globals s \<and>
    java_calls (j_log t) = java_calls (j_log s) \<and> \<not> j_broken t \<and> j_next s < j_next t \<and> j_locals t = j_locals s \<and> j_attached t \<and> \<not> j_pending t"
proof -
  define f where "f = NewGlobalRef (Some r)"
  define s1 where "s1 = s\<lparr>j_log := f # j_log s, j_globals := j_next s # j_globals s, j_next := Suc (j_next s)\<rparr>"
  have ok: "jw_ok W (j_log s) f" "\<not> jw_throws W (j_log s) f"
    using assms(1,3,4) by (auto simp: callbacks_Init_def with_env_attached new_global_ref_def f_def Let_def split: if_splits prod.splits)
  have g: "run_state (new_global_ref W (Some r)) s = (Some (j_next s), s1)"
    using ok assms(2-5) by (cases s) (simp add: new_global_ref_def s1_def f_def enter_jni_def thread_ok_def Let_def)
  have s1: "j_attached s1" "\<not> j_pending s1" "\<not> j_broken s1"
    using assms(2-4) by (auto simp: s1_def thread_ok_def)
  show ?thesis
  proof (cases "methodIDsInitialized cb0")
    case True
    then show ?thesis
      using assms g s1 by (auto simp: callbacks_Init_def with_env_attached s1_def f_def)
  next
    case False
    define c where "c = FindClass ''com/sun/media/jfxmedia/locator/ConnectionHolder''"
    obtain klass s2 where k: "run_state (jnew W True c) s1 = (klass, s2)"
      by fastforce
    obtain e s3 where e: "run_state (reportException W True) s2 = (e, s3)"
      by fastforce
    obtain failed ids s4 where l: "run_state (look_up W connection_members (e \<or> klass = None) []) s3 = ((failed, ids), s4)"
      by (metis surj_pair)
    have fin: "\<not> failed" "cb = cb0\<lparr>m_jvm := True, m_ConnectionHolder := Some (j_next s), methodIDsInitialized := True\<rparr>"
        "t = (if klass = None then s4 else snd (run_state (delete_local_ref W klass) s4))"
      using assms(1,3,4) False g k e l by (auto simp: callbacks_Init_def with_env_attached c_def split: if_splits prod.splits)
    have "\<not> (e \<or> klass = None)"
      using l fin(1) look_up_failed [of W connection_members "[]" s3] by (metis prod.inject)
    then have k2: "klass = Some (j_next s1)" "calm [j_next s1] s1 s2" "\<not> j_pending s2" "s3 = s2"
      using k e s1 by (auto simp: jnew_def enter_jni_def calm_def Let_def c_def reportException_def split: if_splits prod.splits)
    have "calm [] s3 s4" "\<not> j_pending s4"
      using look_up_found [of W connection_members _ "[]" s3 ids s4] l fin(1) k2 s1(1) by (auto simp: connection_members_def calm_def)
    then show ?thesis
      using fin k2 s1 by (auto simp: calm_def delete_local_ref_def enter_jni_def s1_def f_def)
  qed
qed

text \<open>The callbacks are such an object.\<close>

definition callbacks_ready :: "JavaInputStreamCallbacks \<Rightarrow> bool" where
  "callbacks_ready cb \<longleftrightarrow> m_jvm cb \<and> methodIDsInitialized cb"

definition without_connection :: "JavaInputStreamCallbacks \<Rightarrow> JavaInputStreamCallbacks" where
  "without_connection cb = cb\<lparr>m_ConnectionHolder := None\<rparr>"

interpretation connection: java_peer stream_step op_fits OpCloseConnection m_ConnectionHolder without_connection callbacks_ready java_call
  closed_answer
proof
  fix W op s cb i
  assume "roomy W" "thread_ok s" "\<not> j_pending s" "callbacks_ready cb" "m_ConnectionHolder cb = Some i" "i \<in> set (j_globals s)"
  note a = this
  have ok: "documented W" "can_call W" "callbacks_ok cb s"
    using a by (auto simp: roomy_def callbacks_ready_def callbacks_ok_def)
  show "\<exists>a t. run_state (stream_step W op cb) s = ((a, cb), t) \<and> served 1 (java_call op) s t"
    if "op_fits W op" "op \<noteq> OpCloseConnection"
    using step_served [OF ok(1) that a(2,3) ok(3)] ok(2) a(5) served_mono [of 0 _ _ _ 1] by fastforce
  show "\<exists>a t. run_state (stream_step W OpCloseConnection cb) s = ((a, without_connection cb), t) \<and>
      served 1 (java_call OpCloseConnection) s (t\<lparr>j_globals := j_globals s\<rparr>) \<and> j_globals t = remove1 i (j_globals s)"
    using close_served [OF ok(1,2) a(2,3) ok(3) a(5)] served_mono [of 0 _ _ _ 1] by (fastforce simp: without_connection_def)
next
  fix W op s and cb :: JavaInputStreamCallbacks
  assume "documented W" "op_fits W op" "thread_ok s" "\<not> j_pending s" "m_ConnectionHolder cb = None"
  from closed_served [OF this] show "\<exists>t. run_state (stream_step W op cb) s = ((closed_answer op, cb), t) \<and> served 1 [] s t"
    using served_mono [of 0 "[]" s _ 1] by auto
qed (simp add: without_connection_def)


lemma demo_buffer: "len \<le> 3 \<Longrightarrow> buffer_holds demo_jworld len"
  by (simp add: buffer_holds_def demo_jworld_def)

definition demo_opened :: jthread where
  "demo_opened = demo_jthread\<lparr>j_globals := [1], j_next := 3, j_log := DeleteLocalRef (Some 2) # rev connection_members @
     [FindClass ''com/sun/media/jfxmedia/locator/ConnectionHolder'', NewGlobalRef (Some 0)]\<rparr>"

lemma demo_Init:
  "run_state (callbacks_Init demo_jworld (Some 0) (JavaInputStreamCallbacks_new False)) demo_jthread =
     ((True, \<lparr>m_jvm = True, m_ConnectionHolder = Some 1, methodIDsInitialized = True\<rparr>), demo_opened)"
  by (simp add: callbacks_Init_def JavaInputStreamCallbacks_new_def env_simps new_global_ref_def jnew_def jcall_def enter_jni_def delete_local_ref_def
      reportException_def connection_members_def demo_jworld_def demo_jthread_def demo_opened_def live_def Let_def)


text \<open>What \<^verbatim>\<open>Init\<close> has made is not given back when a look-up fails, and the destructor does nothing.\<close>

theorem failed_Init_leaks:
  assumes "j_attached s" "\<not> j_pending s" "r \<noteq> None" "jw_ok W (j_log s) (NewGlobalRef r)" "\<not> jw_throws W (j_log s) (NewGlobalRef r)"
    "\<And>h name. \<not> jw_ok W h (FindClass name) \<and> \<not> jw_throws W h (FindClass name)"
  shows "\<exists>cb t. run_state (callbacks_Init W r (JavaInputStreamCallbacks_new False)) s = ((False, cb), t) \<and> j_globals t = j_next s # j_globals s"
  using assms look_up_failed [of W connection_members "[]"]
  by (auto simp: callbacks_Init_def JavaInputStreamCallbacks_new_def with_env_attached new_global_ref_def jnew_def enter_jni_def reportException_def Let_def)

text \<open>An exception in Java is not told apart from an answer: the result of a seek is then whatever the virtual machine left behind.\<close>

theorem Seek_ignores_exception:
  assumes "documented W" "thread_ok s" "\<not> j_pending s" "callbacks_ok cb s" "can_call W" "m_ConnectionHolder cb \<noteq> None"
    "\<And>h r. jw_throws W h (CallMethod r ''seek'' [JInt position]) \<and> jw_int W h (CallMethod r ''seek'' [JInt position]) = position"
  shows "\<exists>t. run_state (callbacks_Seek W cb position) s = (position, t)"
  using ask_connection_answered [OF assms(1) _ assms(2-4), of "''seek''" "[JInt position]" "- 1" "\<lambda>c r. r"] assms(5-7)
  by (auto simp: callbacks_Seek_def answered_def)



end
