(* ===== verification/Java_Events.thy ===== *)
theory Java_Events
  imports Java_Peers Track_Probes
begin

text \<open>
  \<^verbatim>\<open>jni/JavaPlayerEventDispatcher.cpp\<close>: the events of a player as calls of methods of the Java object \<^verbatim>\<open>NativeMediaPlayer\<close>, from
  whatever thread of the pipeline they come.  A method that was looked up with success is in \<open>m_SendMethods\<close>.
\<close>

subsection \<open>The dispatcher\<close>

record JavaPlayerEventDispatcher =
  m_PlayerVM :: bool
  m_PlayerInstance :: jobject
  m_MediaReference :: int
  areJMethodIDsInitialized :: bool
  m_SendMethods :: "jfun list"

definition JavaPlayerEventDispatcher_new :: "bool \<Rightarrow> jfun list \<Rightarrow> JavaPlayerEventDispatcher" where
  "JavaPlayerEventDispatcher_new inited ids =
     \<lparr>m_PlayerVM = False, m_PlayerInstance = None, m_MediaReference = 0, areJMethodIDsInitialized = inited, m_SendMethods = ids\<rparr>"

definition player_methods :: "string list" where
  "player_methods = [''sendWarning'', ''sendPlayerMediaErrorEvent'', ''sendPlayerHaltEvent'', ''sendPlayerStateEvent'', ''sendNewFrameEvent'',
     ''sendFrameSizeChangedEvent'', ''sendAudioTrack'', ''sendVideoTrack'', ''sendSubtitleTrack'', ''sendMarkerEvent'',
     ''sendBufferProgressEvent'', ''sendDurationUpdateEvent'', ''sendAudioSpectrumEvent'']"

text \<open>\<open>vm\<close> says whether \<^verbatim>\<open>GetJavaVM\<close> succeeds.\<close>

definition dispatcher_Init :: "jworld \<Rightarrow> bool \<Rightarrow> jobject \<Rightarrow> int \<Rightarrow> JavaPlayerEventDispatcher \<Rightarrow> JavaPlayerEventDispatcher jm" where
  "dispatcher_Init W vm PlayerInstance pMedia ed =
     (if \<not> vm then do { clearException True; jret ed }
      else do {
        r \<leftarrow> new_global_ref W PlayerInstance;
        let ed = ed\<lparr>m_PlayerVM := True, m_PlayerInstance := r, m_MediaReference := pMedia\<rparr>;
        if areJMethodIDsInitialized ed then jret ed
        else do {
          l \<leftarrow> jgets (\<lambda>s. r \<noteq> None \<and> live s r);
          klass \<leftarrow> jnew W l (GetObjectClass r);
          (failed, ids) \<leftarrow> look_up W (map GetMethodID player_methods) False (m_SendMethods ed);
          delete_local_ref W klass;
          jret (ed\<lparr>areJMethodIDsInitialized := \<not> failed, m_SendMethods := ids\<rparr>)
        }
      })"

definition dispatcher_Dispose :: "jworld \<Rightarrow> JavaPlayerEventDispatcher \<Rightarrow> JavaPlayerEventDispatcher jm" where
  "dispatcher_Dispose W ed = with_env W (m_PlayerVM ed) (\<lambda>env.
     if \<not> env then jret ed
     else do { delete_global_ref W (m_PlayerInstance ed); jret (ed\<lparr>m_PlayerInstance := None\<rparr>) })"

subsection \<open>Sending\<close>

definition with_player :: "jworld \<Rightarrow> JavaPlayerEventDispatcher \<Rightarrow> (jobject \<Rightarrow> bool jm) \<Rightarrow> bool jm" where
  "with_player W ed body = with_env W (m_PlayerVM ed) (\<lambda>env.
     if \<not> env then jret False
     else do {
       localPlayer \<leftarrow> new_local_ref W (m_PlayerInstance ed);
       if localPlayer = None then jret False else body localPlayer
     })"

definition call_player :: "jworld \<Rightarrow> JavaPlayerEventDispatcher \<Rightarrow> jobject \<Rightarrow> string \<Rightarrow> jvalue list \<Rightarrow> unit jm" where
  "call_player W ed localPlayer name args = do {
     call_method W (GetMethodID name \<in> set (m_SendMethods ed)) localPlayer name args;
     jret ()
   }"

text \<open>The events without a string have one form.\<close>

definition send_plain :: "jworld \<Rightarrow> JavaPlayerEventDispatcher \<Rightarrow> string \<Rightarrow> jvalue list \<Rightarrow> bool jm" where
  "send_plain W ed name args = with_player W ed (\<lambda>localPlayer. do {
     call_player W ed localPlayer name args;
     delete_local_ref W localPlayer;
     e \<leftarrow> reportException W True;
     jret (\<not> e)
   })"

definition SendPlayerMediaError :: "jworld \<Rightarrow> JavaPlayerEventDispatcher \<Rightarrow> int \<Rightarrow> bool jm" where
  "SendPlayerMediaError W ed errorCode = send_plain W ed ''sendPlayerMediaErrorEvent'' [JInt errorCode]"

text \<open>A string argument: \<open>body\<close> runs when the string could be made.\<close>

definition with_string :: "jworld \<Rightarrow> string \<Rightarrow> (jobject \<Rightarrow> bool jm) \<Rightarrow> bool jm" where
  "with_string W text body = do {
     j \<leftarrow> jnew W True (NewStringUTF text);
     e \<leftarrow> reportException W True;
     if \<not> e \<and> j \<noteq> None then body j else jret False
   }"

definition SendWarning :: "jworld \<Rightarrow> JavaPlayerEventDispatcher \<Rightarrow> int \<Rightarrow> string option \<Rightarrow> unit jm" where
  "SendWarning W ed warningCode warningMessage = do {
     with_player W ed (\<lambda>localPlayer. do {
       (case warningMessage of
          None \<Rightarrow> jret False
        | Some m \<Rightarrow> with_string W m (\<lambda>jmessage. do {
            call_player W ed localPlayer ''sendWarning'' [JInt warningCode, JString jmessage m];
            e \<leftarrow> reportException W True;
            delete_local_ref W jmessage;
            jret True
          }));
       delete_local_ref W localPlayer;
       jret True
     });
     jret ()
   }"

definition SendPlayerHalt :: "jworld \<Rightarrow> JavaPlayerEventDispatcher \<Rightarrow> string \<Rightarrow> real \<Rightarrow> bool jm" where
  "SendPlayerHalt W ed message time = with_player W ed (\<lambda>localPlayer. do {
     b \<leftarrow> with_string W message (\<lambda>jmessage. do {
       call_player W ed localPlayer ''sendPlayerHaltEvent'' [JString jmessage message, JReal time];
       delete_local_ref W jmessage;
       e \<leftarrow> reportException W True;
       jret (\<not> e)
     });
     delete_local_ref W localPlayer;
     jret b
   })"

text \<open>The states as Java numbers them; the native ones are the numbers of \<^verbatim>\<open>CPipeline::PlayerState\<close>.\<close>

fun java_player_state :: "PlayerState \<Rightarrow> int" where
  "java_player_state Unknown = 100"
| "java_player_state Ready = 101"
| "java_player_state Playing = 102"
| "java_player_state Paused = 103"
| "java_player_state Stopped = 104"
| "java_player_state Stalled = 105"
| "java_player_state Finished = 106"
| "java_player_state Error = 107"

definition SendPlayerState :: "jworld \<Rightarrow> JavaPlayerEventDispatcher \<Rightarrow> PlayerState option \<Rightarrow> real \<Rightarrow> bool jm" where
  "SendPlayerState W ed newState presentTime =
     (case newState of
        None \<Rightarrow> jret False
      | Some st \<Rightarrow> send_plain W ed ''sendPlayerStateEvent'' [JInt (java_player_state st), JReal presentTime])"

definition SendNewFrame :: "jworld \<Rightarrow> JavaPlayerEventDispatcher \<Rightarrow> int \<Rightarrow> bool jm" where
  "SendNewFrame W ed pVideoFrame = send_plain W ed ''sendNewFrameEvent'' [JInt pVideoFrame]"

definition SendFrameSizeChanged :: "jworld \<Rightarrow> JavaPlayerEventDispatcher \<Rightarrow> int \<Rightarrow> int \<Rightarrow> bool jm" where
  "SendFrameSizeChanged W ed width height = send_plain W ed ''sendFrameSizeChangedEvent'' [JInt width, JInt height]"

text \<open>The bits of the channel mask are translated one by one; the bit \<^verbatim>\<open>UNKNOWN\<close> is zero on both sides.\<close>

definition REAR_CENTER :: int where "REAR_CENTER = 0x20"

definition translate_bit :: "int \<Rightarrow> int \<Rightarrow> int \<Rightarrow> int \<Rightarrow> int" where
  "translate_bit nativeChannelMask native java m = (if nativeChannelMask AND native \<noteq> 0 then m OR java else m)"

definition javaChannelMask :: "int \<Rightarrow> int" where
  "javaChannelMask m = translate_bit m REAR_CENTER 0x20 (translate_bit m REAR_RIGHT 0x10 (translate_bit m REAR_LEFT 0x08
     (translate_bit m FRONT_CENTER 0x04 (translate_bit m FRONT_RIGHT 0x02 (translate_bit m FRONT_LEFT 0x01 (translate_bit m 0 0 0))))))"

fun encoding_code :: "Encoding \<Rightarrow> int" where
  "encoding_code NONE = 0"
| "encoding_code PCM = 1"
| "encoding_code MPEG1AUDIO = 2"
| "encoding_code MPEG1LAYER3 = 3"
| "encoding_code AAC = 4"
| "encoding_code H264 = 5"
| "encoding_code H265 = 6"
| "encoding_code CUSTOM = 7"

definition SendAudioTrack :: "jworld \<Rightarrow> JavaPlayerEventDispatcher \<Rightarrow> CAudioTrack \<Rightarrow> bool jm" where
  "SendAudioTrack W ed pTrack = with_player W ed (\<lambda>localPlayer. do {
     b \<leftarrow> with_string W (at_name pTrack) (\<lambda>name. do {
       b \<leftarrow> with_string W (at_language pTrack) (\<lambda>language. do {
         call_player W ed localPlayer ''sendAudioTrack''
           [JBool (at_enabled pTrack), JInt (at_id pTrack), JString name (at_name pTrack), JInt (encoding_code (at_encoding pTrack)),
            JString language (at_language pTrack), JInt (at_channels pTrack), JInt (javaChannelMask (at_channelMask pTrack)),
            JReal (of_int (at_sampleRate pTrack))];
         e \<leftarrow> reportException W True;
         delete_local_ref W language;
         jret (\<not> e)
       });
       delete_local_ref W name;
       jret b
     });
     delete_local_ref W localPlayer;
     jret b
   })"

definition SendVideoTrack :: "jworld \<Rightarrow> JavaPlayerEventDispatcher \<Rightarrow> CVideoTrack \<Rightarrow> bool jm" where
  "SendVideoTrack W ed pTrack = with_player W ed (\<lambda>localPlayer. do {
     b \<leftarrow> with_string W (vt_name pTrack) (\<lambda>name. do {
       call_player W ed localPlayer ''sendVideoTrack''
         [JBool (vt_enabled pTrack), JInt (vt_id pTrack), JString name (vt_name pTrack), JInt (encoding_code (vt_encoding pTrack)),
          JInt (vt_width pTrack), JInt (vt_height pTrack), JReal (vt_frameRate pTrack), JBool (vt_hasAlpha pTrack)];
       e \<leftarrow> reportException W True;
       delete_local_ref W name;
       jret (\<not> e)
     });
     delete_local_ref W localPlayer;
     jret b
   })"

record CSubtitleTrack =
  sub_id :: int
  sub_name :: string
  sub_encoding :: Encoding
  sub_enabled :: bool
  m_language :: string

definition SendSubtitleTrack :: "jworld \<Rightarrow> JavaPlayerEventDispatcher \<Rightarrow> CSubtitleTrack \<Rightarrow> bool jm" where
  "SendSubtitleTrack W ed pTrack = with_player W ed (\<lambda>localPlayer. do {
     b \<leftarrow> with_string W (sub_name pTrack) (\<lambda>name. do {
       b \<leftarrow> with_string W (m_language pTrack) (\<lambda>language. do {
         call_player W ed localPlayer ''sendSubtitleTrack''
           [JBool (sub_enabled pTrack), JInt (sub_id pTrack), JString name (sub_name pTrack), JInt (encoding_code (sub_encoding pTrack)),
            JString language (m_language pTrack)];
         e \<leftarrow> reportException W True;
         delete_local_ref W language;
         jret (\<not> e)
       });
       delete_local_ref W name;
       jret b
     });
     delete_local_ref W localPlayer;
     jret b
   })"

definition SendMarker :: "jworld \<Rightarrow> JavaPlayerEventDispatcher \<Rightarrow> string \<Rightarrow> real \<Rightarrow> bool jm" where
  "SendMarker W ed name time = with_player W ed (\<lambda>localPlayer. do {
     b \<leftarrow> with_string W name (\<lambda>jname. do {
       call_player W ed localPlayer ''sendMarkerEvent'' [JString jname name, JReal time];
       e \<leftarrow> reportException W True;
       delete_local_ref W jname;
       jret (\<not> e)
     });
     delete_local_ref W localPlayer;
     jret b
   })"

definition SendBufferProgress :: "jworld \<Rightarrow> JavaPlayerEventDispatcher \<Rightarrow> real \<Rightarrow> int \<Rightarrow> int \<Rightarrow> int \<Rightarrow> bool jm" where
  "SendBufferProgress W ed clipDuration start stop position =
     send_plain W ed ''sendBufferProgressEvent'' [JReal clipDuration, JInt start, JInt stop, JInt position]"

definition SendDurationUpdate :: "jworld \<Rightarrow> JavaPlayerEventDispatcher \<Rightarrow> real \<Rightarrow> bool jm" where
  "SendDurationUpdate W ed time = send_plain W ed ''sendDurationUpdateEvent'' [JReal time]"

definition SendAudioSpectrum :: "jworld \<Rightarrow> JavaPlayerEventDispatcher \<Rightarrow> real \<Rightarrow> real \<Rightarrow> bool \<Rightarrow> bool jm" where
  "SendAudioSpectrum W ed time duration queryTimestamp = send_plain W ed ''sendAudioSpectrumEvent'' [JReal time, JReal duration, JBool queryTimestamp]"

subsection \<open>What a thread has done\<close>

text \<open>\<open>acts cs L s t\<close>: since \<open>s\<close> the Java calls \<open>cs\<close> were made, the local references \<open>L\<close> are new, nothing else has changed but the
  pending exception.\<close>

definition acts :: "(string \<times> jvalue list) list \<Rightarrow> nat list \<Rightarrow> jthread \<Rightarrow> jthread \<Rightarrow> bool" where
  "acts cs L s t \<longleftrightarrow> java_calls (j_log t) = java_calls (j_log s) @ cs \<and> j_attached s \<and> j_attached t \<and> j_globals t = j_globals s \<and>
     \<not> j_broken s \<and> \<not> j_broken t \<and> j_next s \<le> j_next t \<and> j_locals t = L @ j_locals s \<and> (\<forall>i \<in> set L. j_next s \<le> i \<and> i < j_next t)"

lemma acts_calm: "acts cs L s t \<Longrightarrow> calm M t u \<Longrightarrow> acts cs (M @ L) s u"
  by (fastforce simp: acts_def calm_def)

lemma acts_served: "acts cs L s t \<Longrightarrow> length L \<le> n \<Longrightarrow> \<not> j_pending t \<Longrightarrow> served n cs s t"
  by (auto simp: acts_def served_def)

definition jwp :: "'a jm \<Rightarrow> ('a \<Rightarrow> jthread \<Rightarrow> bool) \<Rightarrow> jthread \<Rightarrow> bool" where
  "jwp m Q s \<longleftrightarrow> (case run_state m s of (a, t) \<Rightarrow> Q a t)"

lemma jwp_simps [simp]:
  "jwp (State_Monad.bind m f) Q s = jwp m (\<lambda>a. jwp (f a) Q) s" "jwp (jret a) Q s = Q a s"
  by (simp_all add: jwp_def split: prod.split)

lemma jwp_run: "jwp m Q s \<Longrightarrow> \<exists>a t. run_state m s = (a, t) \<and> Q a t"
  by (auto simp: jwp_def split: prod.splits)

lemma jwp_call:
  assumes "acts cs L s t" "\<not> j_pending t" "x \<in> set L" "GetMethodID name \<in> set (m_SendMethods ed)" "name \<noteq> ''toString''"
    "\<And>u. acts (cs @ [(name, map by_value args)]) L s u \<Longrightarrow> j_pending u = jw_throws W (j_log t) (CallMethod (Some x) name args) \<Longrightarrow> Q () u"
  shows "jwp (call_player W ed (Some x) name args) Q t"
proof -
  have x: "x \<in> set (j_locals t) \<union> set (j_globals t)" "j_attached t" "\<not> j_broken t"
    using assms(1,3) by (auto simp: acts_def)
  show ?thesis
    using assms(1) by (auto simp: call_player_def jwp_def run_call_method [OF x(2) assms(2) x(3) assms(4) x(1)] acts_def assms(5) intro!: assms(6))
qed

lemma jwp_delete:
  assumes "acts cs L s t" "x \<in> set L" "\<And>u. acts cs (remove1 x L) s u \<Longrightarrow> j_pending u = j_pending t \<Longrightarrow> Q () u"
  shows "jwp (delete_local_ref W (Some x)) Q t"
proof -
  have t: "j_attached t" "\<not> j_broken t" "x \<in> set (j_locals t)" "\<forall>i \<in> set (remove1 x L). j_next s \<le> i \<and> i < j_next t"
    using assms(1,2) set_remove1_subset [of x L] by (auto simp: acts_def)
  show ?thesis
    using assms(1,2) by (auto simp: jwp_def run_delete_local_ref [OF t(1-3)] acts_def remove1_append t(4) intro!: assms(3))
qed

lemma jwp_report:
  assumes "documented W" "acts cs L s t"
    "\<And>M u. acts cs (M @ L) s u \<Longrightarrow> length M \<le> (if j_pending t then 1 else 0) \<Longrightarrow> set M \<inter> set L = {} \<Longrightarrow> \<not> j_pending u \<Longrightarrow> Q (j_pending t) u"
  shows "jwp (reportException W True) Q t"
proof -
  obtain r u where u: "run_state (reportException W True) t = (r, u)"
    by fastforce
  then obtain M where "r = j_pending t" "\<not> j_pending u" "length M \<le> (if r then 1 else 0)" "calm M t u"
    using report_spec [OF assms(1) _ u] assms(2) by (auto simp: acts_def)
  then show ?thesis
    using assms(2) u by (auto simp: jwp_def intro!: assms(3) acts_calm) (fastforce simp: calm_def acts_def)
qed

lemma jwp_string:
  assumes "roomy W" "acts cs L s t" "\<not> j_pending t"
    "\<And>u. acts cs (j_next t # L) s u \<Longrightarrow> \<not> j_pending u \<Longrightarrow> j_next t \<notin> set L \<Longrightarrow> jwp (body (Some (j_next t))) Q u"
  shows "jwp (with_string W text body) Q t"
proof -
  define u where "u = t\<lparr>j_log := NewStringUTF text # j_log t, j_broken := False, j_locals := j_next t # j_locals t, j_next := Suc (j_next t)\<rparr>"
  have "acts cs (j_next t # L) s u" "\<not> j_pending u" "j_next t \<notin> set L"
    using assms(2,3) by (auto simp: acts_def u_def)
  moreover have "jwp (with_string W text body) Q t = jwp (body (Some (j_next t))) Q u"
    using assms(1-3) by (simp add: with_string_def jwp_def jnew_def enter_jni_def roomy_def acts_def Let_def reportException_def u_def)
  ultimately show ?thesis
    using assms(4) by simp
qed

lemma jwp_player:
  assumes "roomy W" "thread_ok s" "j_attached s" "\<not> j_pending s" "m_PlayerInstance ed = Some i" "i \<in> set (j_globals s)"
    "\<And>t. acts [] [j_next s] s t \<Longrightarrow> \<not> j_pending t \<Longrightarrow> jwp (body (Some (j_next s))) Q t"
  shows "jwp (do { localPlayer \<leftarrow> new_local_ref W (m_PlayerInstance ed); if localPlayer = None then jret False else body localPlayer }) Q s"
proof -
  define t where "t = s\<lparr>j_log := NewLocalRef (Some i) # j_log s, j_locals := j_next s # j_locals s, j_next := Suc (j_next s)\<rparr>"
  have "run_state (new_local_ref W (Some i)) s = (Some (j_next s), t)"
    using assms by (subst run_new_local_ref) (auto simp: roomy_def can_call_def thread_ok_def t_def)
  moreover have "acts [] [j_next s] s t" "\<not> j_pending t"
    using assms(2-4) by (auto simp: t_def acts_def thread_ok_def)
  ultimately show ?thesis
    using assms(5) assms(7) [of t] by (simp add: jwp_def)
qed

text \<open>\<open>reported W name args b cs\<close>: the method was called with these arguments, and \<open>b\<close> says that it did not throw.\<close>

definition reported :: "jworld \<Rightarrow> string \<Rightarrow> jvalue list \<Rightarrow> bool \<Rightarrow> (string \<times> jvalue list) list \<Rightarrow> bool" where
  "reported W name args b cs \<longleftrightarrow> cs = [(name, args)] \<and>
     (\<exists>h r as. map by_value as = args \<and> (b \<longleftrightarrow> \<not> jw_throws W h (CallMethod r name as)))"

definition dispatcher_ready :: "JavaPlayerEventDispatcher \<Rightarrow> bool" where
  "dispatcher_ready ed \<longleftrightarrow> m_PlayerVM ed \<and> set (map GetMethodID player_methods) \<subseteq> set (m_SendMethods ed)"

lemma player_methods_found:
  "dispatcher_ready ed \<Longrightarrow> name \<in> set player_methods \<Longrightarrow> GetMethodID name \<in> set (m_SendMethods ed) \<and> name \<noteq> ''toString''"
  by (auto simp: dispatcher_ready_def player_methods_def)

lemma with_player_open:
  assumes "roomy W" "thread_ok s" "\<not> j_pending s" "dispatcher_ready ed" "m_PlayerInstance ed = Some i" "i \<in> set (j_globals s)"
    "\<And>s x t. acts [] [x] s t \<Longrightarrow> \<not> j_pending t \<Longrightarrow> jwp (body (Some x)) (\<lambda>b u. \<exists>cs L. acts cs L s u \<and> length L \<le> 1 \<and> \<not> j_pending u \<and> Q b cs) t"
  shows "\<exists>b cs t. run_state (with_player W ed body) s = (b, t) \<and> served 1 cs s t \<and> Q b cs"
proof -
  have "\<exists>r cs t. run_state (with_player W ed body) s = (r, t) \<and> served (if j_attached s then 1 else 0) cs s t \<and> Q r cs"
    unfolding with_player_def
  proof (rule with_env_served [where d = False, OF assms(2,3)], goal_cases)
    case (1 s')
    have "jwp (do { localPlayer \<leftarrow> new_local_ref W (m_PlayerInstance ed); if localPlayer = None then jret False else body localPlayer })
        (\<lambda>b u. \<exists>cs L. acts cs L s' u \<and> length L \<le> 1 \<and> \<not> j_pending u \<and> Q b cs) s'"
      using 1 assms(6) by (intro jwp_player [OF assms(1) _ _ _ assms(5)] assms(7)) auto
    from jwp_run [OF this] show ?case
      using 1(2) by auto (use acts_served in blast)
  qed (use assms(1,4) in \<open>auto simp: roomy_def can_call_def dispatcher_ready_def\<close>)
  then show ?thesis
    using served_mono [of "if j_attached s then 1 else 0" _ s _ 1] by (metis le_numeral_extra(4) zero_le)
qed

lemma with_player_reported:
  assumes "roomy W" "thread_ok s" "\<not> j_pending s" "dispatcher_ready ed" "m_PlayerInstance ed = Some i" "i \<in> set (j_globals s)"
    "\<And>s x t. acts [] [x] s t \<Longrightarrow> \<not> j_pending t \<Longrightarrow> jwp (body (Some x)) (\<lambda>b u. \<exists>cs L. acts cs L s u \<and> length L \<le> 1 \<and> \<not> j_pending u \<and> reported W name args b cs) t"
  shows "\<exists>b t. run_state (with_player W ed body) s = (b, t) \<and> served 1 [(name, args)] s t \<and> reported W name args b [(name, args)]"
proof -
  obtain b cs t where "run_state (with_player W ed body) s = (b, t)" "served 1 cs s t" "reported W name args b cs"
    using with_player_open [where Q = "reported W name args" and body = body, OF assms] by blast
  moreover from this have "cs = [(name, args)]"
    by (simp add: reported_def)
  ultimately show ?thesis
    by auto
qed

text \<open>How each form of an event ends.\<close>

lemma reported_end:
  assumes "acts ([] @ [(name, map by_value as)]) L s u" "length L \<le> 1" "\<not> j_pending u" "map by_value as = vs" "p = jw_throws W h (CallMethod r name as)"
  shows "\<exists>cs L. acts cs L s u \<and> length L \<le> 1 \<and> \<not> j_pending u \<and> reported W name vs (\<not> p) cs"
  using assms unfolding reported_def by auto

lemma remove_fresh: "set M \<inter> set L = {} \<Longrightarrow> x \<in> set L \<Longrightarrow> remove1 x (M @ L) = M @ remove1 x L"
  by (induction M) auto

lemma string_event:
  assumes "roomy W" "thread_ok s" "\<not> j_pending s" "dispatcher_ready ed" "m_PlayerInstance ed = Some i" "i \<in> set (j_globals s)"
    "name \<in> set player_methods" "\<And>j. map by_value (args j) = vs"
  shows "\<exists>b t. run_state (with_player W ed (\<lambda>p. do {
      b \<leftarrow> with_string W text (\<lambda>j. do { call_player W ed p name (args j); e \<leftarrow> reportException W True; delete_local_ref W j; jret (\<not> e) });
      delete_local_ref W p;
      jret b
    })) s = (b, t) \<and> served 1 [(name, vs)] s t \<and> reported W name vs b [(name, vs)]"
proof (rule with_player_reported [OF assms(1-6)], goal_cases)
  case (1 s x t)
  have doc: "documented W"
    using assms(1) by (simp add: roomy_def)
  note m = player_methods_found [OF assms(4,7)]
  show ?case
    unfolding jwp_simps
  proof (rule jwp_string [OF assms(1) 1], unfold jwp_simps, rule jwp_call [OF _ _ _ m [THEN conjunct1] m [THEN conjunct2]], assumption, assumption, simp, goal_cases)
    case (1 u v)
    note c = 1
    show ?case
    proof (rule jwp_report [OF doc 1(4)], rule jwp_delete, assumption, simp, rule jwp_delete, assumption, goal_cases)
      case (1 M w w')
      then show ?case
        using c(3) by (simp add: remove_fresh)
    next
      case (2 M w w' w'')
      then have "acts ([] @ [(name, map by_value (args (Some (j_next t))))]) M s w''"
        using c(3) by (simp add: remove_fresh)
      then show ?case
        using 2 c(5) by (intro reported_end [OF _ _ _ assms(8)]) (auto split: if_splits)
    qed
  qed
qed

lemma plain_sent:
  assumes "roomy W" "thread_ok s" "\<not> j_pending s" "dispatcher_ready ed" "m_PlayerInstance ed = Some i" "i \<in> set (j_globals s)"
    "name \<in> set player_methods" "map by_value args = vs"
  shows "\<exists>b t. run_state (send_plain W ed name args) s = (b, t) \<and> served 1 [(name, vs)] s t \<and> reported W name vs b [(name, vs)]"
  unfolding send_plain_def
proof (rule with_player_reported [OF assms(1-6)], goal_cases)
  case (1 s x t)
  have doc: "documented W"
    using assms(1) by (simp add: roomy_def)
  note m = player_methods_found [OF assms(4,7)]
  show ?case
    unfolding jwp_simps
  proof (rule jwp_call [OF 1 _ m [THEN conjunct1] m [THEN conjunct2]], simp, rule jwp_delete, assumption, simp, rule jwp_report [OF doc], assumption, goal_cases)
    case (1 u v M w)
    then show ?case
      by (intro reported_end [OF _ _ _ assms(8)]) (auto split: if_splits)
  qed
qed

text \<open>\<^verbatim>\<open>SendPlayerHaltEvent\<close> deletes its string before it looks for an exception.\<close>

lemma halt_event:
  assumes "roomy W" "thread_ok s" "\<not> j_pending s" "dispatcher_ready ed" "m_PlayerInstance ed = Some i" "i \<in> set (j_globals s)"
  shows "\<exists>b t. run_state (SendPlayerHalt W ed message time) s = (b, t) \<and> served 1 [(''sendPlayerHaltEvent'', [JString None message, JReal time])] s t \<and>
    reported W ''sendPlayerHaltEvent'' [JString None message, JReal time] b [(''sendPlayerHaltEvent'', [JString None message, JReal time])]"
  unfolding SendPlayerHalt_def
proof (rule with_player_reported [OF assms(1-6)], goal_cases)
  case (1 s x t)
  have doc: "documented W"
    using assms(1) by (simp add: roomy_def)
  have m: "GetMethodID ''sendPlayerHaltEvent'' \<in> set (m_SendMethods ed)" "''sendPlayerHaltEvent'' \<noteq> ''toString''"
    using player_methods_found [OF assms(4), of "''sendPlayerHaltEvent''"] by (simp_all add: player_methods_def)
  show ?case
    unfolding jwp_simps
  proof (rule jwp_string [OF assms(1) 1], unfold jwp_simps, rule jwp_call [OF _ _ _ m], assumption, assumption, simp,
      rule jwp_delete, assumption, simp, rule jwp_report [OF doc], assumption, rule jwp_delete, assumption, simp, goal_cases)
    case (1 u v w M w' w'')
    then have "acts ([] @ [(''sendPlayerHaltEvent'', map by_value [JString (Some (j_next t)) message, JReal time])]) M s w''"
      by (simp add: remove_fresh)
    then show ?case
      using 1 by (intro reported_end) (auto split: if_splits)
  qed
qed

text \<open>The events of audio and subtitle tracks have two strings.\<close>

lemma strings_event:
  assumes "roomy W" "thread_ok s" "\<not> j_pending s" "dispatcher_ready ed" "m_PlayerInstance ed = Some i" "i \<in> set (j_globals s)"
    "name \<in> set player_methods" "\<And>j j'. map by_value (args j j') = vs"
  shows "\<exists>b t. run_state (with_player W ed (\<lambda>p. do {
      b \<leftarrow> with_string W text (\<lambda>j. do {
        b \<leftarrow> with_string W text' (\<lambda>j'. do { call_player W ed p name (args j j'); e \<leftarrow> reportException W True; delete_local_ref W j'; jret (\<not> e) });
        delete_local_ref W j;
        jret b
      });
      delete_local_ref W p;
      jret b
    })) s = (b, t) \<and> served 1 [(name, vs)] s t \<and> reported W name vs b [(name, vs)]"
proof (rule with_player_reported [OF assms(1-6)], goal_cases)
  case (1 s x t)
  have doc: "documented W"
    using assms(1) by (simp add: roomy_def)
  note m = player_methods_found [OF assms(4,7)]
  show ?case
    unfolding jwp_simps
  proof (rule jwp_string [OF assms(1) 1], unfold jwp_simps, rule jwp_string [OF assms(1)], assumption, assumption, unfold jwp_simps,
      rule jwp_call [OF _ _ _ m [THEN conjunct1] m [THEN conjunct2]], assumption, assumption, simp, goal_cases)
    case (1 u v w)
    note c = 1
    show ?case
    proof (rule jwp_report [OF doc c(7)], rule jwp_delete, assumption, simp, rule jwp_delete, assumption, goal_cases)
      case (1 M w w')
      then show ?case
        using c(3,6) by (simp add: remove_fresh)
    next
      case (2 M w w' w'')
      then have w'': "acts ([] @ [(name, map by_value (args (Some (j_next t)) (Some (j_next u))))]) (M @ [x]) s w''"
        using c(3,6) by (simp add: remove_fresh)
      show ?case
      proof (rule jwp_delete [OF w''], simp, goal_cases)
        case (1 z)
        then show ?case
          using 2 c(8) by (intro reported_end [OF _ _ _ assms(8)]) (auto simp: remove_fresh split: if_splits)
      qed
    qed
  qed
qed

lemma with_player_closed:
  assumes "documented W" "thread_ok s" "\<not> j_pending s" "m_PlayerInstance ed = None"
  shows "\<exists>t. run_state (with_player W ed body) s = (False, t) \<and> served 0 [] s t"
proof -
  have "\<exists>r cs t. run_state (with_player W ed body) s = (r, t) \<and> served 0 cs s t \<and> r = False \<and> cs = []"
    unfolding with_player_def
    by (rule with_env_served0 [where d = False, OF assms(2,3)])
       (use assms in \<open>auto simp: run_new_local_ref [OF assms(1)] served_def thread_ok_def\<close>)
  then show ?thesis
    by auto
qed

lemma warning_event:
  assumes "roomy W" "thread_ok s" "\<not> j_pending s" "dispatcher_ready ed" "m_PlayerInstance ed = Some i" "i \<in> set (j_globals s)"
  shows "\<exists>t. run_state (SendWarning W ed code message) s = ((), t) \<and>
    served 1 (case message of None \<Rightarrow> [] | Some m \<Rightarrow> [(''sendWarning'', [JInt code, JString None m])]) s t"
proof (cases message)
  case None
  have "\<exists>b cs t. run_state (with_player W ed (\<lambda>p. do { jret False; delete_local_ref W p; jret True })) s = (b, t) \<and> served 1 cs s t \<and> cs = []"
  proof (rule with_player_open [OF assms], goal_cases)
    case (1 s x t)
    show ?case
      unfolding jwp_simps by (rule jwp_delete [OF 1(1)], simp) (use 1(2) in auto)
  qed
  with None show ?thesis
    by (auto simp: SendWarning_def)
next
  case (Some m)
  have doc: "documented W"
    using assms(1) by (simp add: roomy_def)
  have mid: "GetMethodID ''sendWarning'' \<in> set (m_SendMethods ed)" "''sendWarning'' \<noteq> ''toString''"
    using player_methods_found [OF assms(4), of "''sendWarning''"] by (simp_all add: player_methods_def)
  have "\<exists>b cs t. run_state (with_player W ed (\<lambda>p. do {
       with_string W m (\<lambda>j. do {
         call_player W ed p ''sendWarning'' [JInt code, JString j m];
         e \<leftarrow> reportException W True;
         delete_local_ref W j;
         jret True
       });
       delete_local_ref W p;
       jret True
     })) s = (b, t) \<and> served 1 cs s t \<and> cs = [(''sendWarning'', [JInt code, JString None m])]"
  proof (rule with_player_open [OF assms], goal_cases)
    case (1 s x t)
    show ?case
      unfolding jwp_simps
    proof (rule jwp_string [OF assms(1) 1], unfold jwp_simps, rule jwp_call [OF _ _ _ mid], assumption, assumption, simp,
        rule jwp_report [OF doc], assumption, rule jwp_delete, assumption, simp, goal_cases)
      case (1 u v M w w')
      then have w': "acts [(''sendWarning'', [JInt code, JString None m])] (M @ [x]) s w'"
        by (simp add: remove_fresh)
      show ?case
        by (rule jwp_delete [OF w'], simp) (use 1 in \<open>auto simp: remove_fresh split: if_splits\<close>)
    qed
  qed
  with Some show ?thesis
    by (auto simp: SendWarning_def)
qed

subsection \<open>The life of a dispatcher\<close>

datatype player_event = MediaError int | Halt string real | StateChange "PlayerState option" real | NewFrame int | FrameSize int int
  | AudioTrack CAudioTrack | VideoTrack CVideoTrack | SubtitleTrack CSubtitleTrack | Marker string real | BufferProgress real int int int
  | DurationUpdate real | AudioSpectrum real real bool

definition send_event :: "jworld \<Rightarrow> JavaPlayerEventDispatcher \<Rightarrow> player_event \<Rightarrow> bool jm" where
  "send_event W ed ev = (case ev of
     MediaError code \<Rightarrow> SendPlayerMediaError W ed code
   | Halt message time \<Rightarrow> SendPlayerHalt W ed message time
   | StateChange st time \<Rightarrow> SendPlayerState W ed st time
   | NewFrame pVideoFrame \<Rightarrow> SendNewFrame W ed pVideoFrame
   | FrameSize width height \<Rightarrow> SendFrameSizeChanged W ed width height
   | AudioTrack track \<Rightarrow> SendAudioTrack W ed track
   | VideoTrack track \<Rightarrow> SendVideoTrack W ed track
   | SubtitleTrack track \<Rightarrow> SendSubtitleTrack W ed track
   | Marker name time \<Rightarrow> SendMarker W ed name time
   | BufferProgress clipDuration start stop position \<Rightarrow> SendBufferProgress W ed clipDuration start stop position
   | DurationUpdate time \<Rightarrow> SendDurationUpdate W ed time
   | AudioSpectrum time duration query \<Rightarrow> SendAudioSpectrum W ed time duration query)"

text \<open>What Java is told of an event.  The bits of a channel mask have the same meaning on both sides.\<close>

fun java_message :: "player_event \<Rightarrow> (string \<times> jvalue list) list" where
  "java_message (MediaError code) = [(''sendPlayerMediaErrorEvent'', [JInt code])]"
| "java_message (Halt message time) = [(''sendPlayerHaltEvent'', [JString None message, JReal time])]"
| "java_message (StateChange None time) = []"
| "java_message (StateChange (Some st) time) = [(''sendPlayerStateEvent'', [JInt (java_player_state st), JReal time])]"
| "java_message (NewFrame pVideoFrame) = [(''sendNewFrameEvent'', [JInt pVideoFrame])]"
| "java_message (FrameSize width height) = [(''sendFrameSizeChangedEvent'', [JInt width, JInt height])]"
| "java_message (AudioTrack tr) = [(''sendAudioTrack'', [JBool (at_enabled tr), JInt (at_id tr), JString None (at_name tr),
     JInt (encoding_code (at_encoding tr)), JString None (at_language tr), JInt (at_channels tr), JInt (at_channelMask tr AND 0x3F),
     JReal (of_int (at_sampleRate tr))])]"
| "java_message (VideoTrack tr) = [(''sendVideoTrack'', [JBool (vt_enabled tr), JInt (vt_id tr), JString None (vt_name tr),
     JInt (encoding_code (vt_encoding tr)), JInt (vt_width tr), JInt (vt_height tr), JReal (vt_frameRate tr), JBool (vt_hasAlpha tr)])]"
| "java_message (SubtitleTrack tr) = [(''sendSubtitleTrack'', [JBool (sub_enabled tr), JInt (sub_id tr), JString None (sub_name tr),
     JInt (encoding_code (sub_encoding tr)), JString None (m_language tr)])]"
| "java_message (Marker name time) = [(''sendMarkerEvent'', [JString None name, JReal time])]"
| "java_message (BufferProgress d start stop position) = [(''sendBufferProgressEvent'', [JReal d, JInt start, JInt stop, JInt position])]"
| "java_message (DurationUpdate time) = [(''sendDurationUpdateEvent'', [JReal time])]"
| "java_message (AudioSpectrum time d query) = [(''sendAudioSpectrumEvent'', [JReal time, JReal d, JBool query])]"

lemma translate_same: "translate_bit m (2 ^ k) (2 ^ k) a = a OR (m AND 2 ^ k)"
proof -
  have "m AND 2 ^ k = (if bit m k then 2 ^ k else 0)"
    by (rule bit_eqI) (auto simp: bit_simps)
  then show ?thesis
    by (auto simp: translate_bit_def split: if_splits)
qed

lemma channel_mask_same: "javaChannelMask m = m AND 0x3F"
proof -
  note part = translate_same [of m 0] translate_same [of m 1] translate_same [of m 2] translate_same [of m 3] translate_same [of m 4]
    translate_same [of m 5]
  have "javaChannelMask m = (((((m AND 1) OR (m AND 2)) OR (m AND 4)) OR (m AND 8)) OR (m AND 16)) OR (m AND 32)"
    using part
    by (simp add: javaChannelMask_def FRONT_LEFT_def FRONT_RIGHT_def FRONT_CENTER_def REAR_LEFT_def REAR_RIGHT_def REAR_CENTER_def)
       (simp add: translate_bit_def)
  also have "\<dots> = m AND 0x3F"
    by (simp flip: bit.conj_disj_distrib)
  finally show ?thesis .
qed

lemmas event_defs = send_event_def SendPlayerMediaError_def SendPlayerState_def SendNewFrame_def SendFrameSizeChanged_def SendBufferProgress_def
  SendDurationUpdate_def SendAudioSpectrum_def

text \<open>Every event is one call, and the answer tells whether Java took it.\<close>

lemma event_sent:
  assumes "roomy W" "thread_ok s" "\<not> j_pending s" "dispatcher_ready ed" "m_PlayerInstance ed = Some i" "i \<in> set (j_globals s)"
  shows "\<exists>b t. run_state (send_event W ed ev) s = (b, t) \<and> served 1 (java_message ev) s t \<and>
    (\<forall>name args. java_message ev = [(name, args)] \<longrightarrow> reported W name args b [(name, args)]) \<and> (java_message ev = [] \<longrightarrow> \<not> b)"
proof -
  note plain = plain_sent [OF assms] and one = string_event [OF assms] and two = strings_event [OF assms] and halt = halt_event [OF assms]
  note names = player_methods_def and refl' = served_refl [OF assms(3)]
  show ?thesis
  proof (cases ev)
    case (StateChange st time)
    show ?thesis
    proof (cases st)
      case None
      with StateChange show ?thesis
        using refl' by (intro exI [of _ False]) (simp add: event_defs)
    next
      case (Some a)
      with StateChange show ?thesis
        using plain [of "''sendPlayerStateEvent''" "[JInt (java_player_state a), JReal time]"] by (simp add: event_defs names)
    qed
  next
    case (Halt message time)
    then show ?thesis
      using halt [of message time] by (simp add: event_defs)
  next
    case (AudioTrack tr)
    then show ?thesis
      unfolding event_defs SendAudioTrack_def
      using two [of "''sendAudioTrack''" "\<lambda>j j'. [JBool (at_enabled tr), JInt (at_id tr), JString j (at_name tr), JInt (encoding_code (at_encoding tr)),
            JString j' (at_language tr), JInt (at_channels tr), JInt (javaChannelMask (at_channelMask tr)), JReal (of_int (at_sampleRate tr))]" _ "at_name tr" "at_language tr"]
      by (simp add: names channel_mask_same)
  next
    case (SubtitleTrack tr)
    then show ?thesis
      unfolding event_defs SendSubtitleTrack_def
      using two [of "''sendSubtitleTrack''" "\<lambda>j j'. [JBool (sub_enabled tr), JInt (sub_id tr), JString j (sub_name tr), JInt (encoding_code (sub_encoding tr)),
            JString j' (m_language tr)]" _ "sub_name tr" "m_language tr"]
      by (simp add: names)
  next
    case (VideoTrack tr)
    then show ?thesis
      unfolding event_defs SendVideoTrack_def
      using one [of "''sendVideoTrack''" "\<lambda>j. [JBool (vt_enabled tr), JInt (vt_id tr), JString j (vt_name tr), JInt (encoding_code (vt_encoding tr)),
          JInt (vt_width tr), JInt (vt_height tr), JReal (vt_frameRate tr), JBool (vt_hasAlpha tr)]" _ "vt_name tr"]
      by (simp add: names)
  next
    case (Marker name time)
    then show ?thesis
      unfolding event_defs SendMarker_def using one [of "''sendMarkerEvent''" "\<lambda>j. [JString j name, JReal time]" _ name] by (simp add: names)
  qed (simp_all add: event_defs plain [unfolded One_nat_def] names)
qed

text \<open>After \<^verbatim>\<open>Dispose\<close> nothing is sent.\<close>

lemma event_closed:
  assumes "documented W" "thread_ok s" "\<not> j_pending s" "m_PlayerInstance ed = None"
  shows "\<exists>t. run_state (send_event W ed ev) s = (False, t) \<and> served 0 [] s t"
  using with_player_closed [OF assms] served_refl [OF assms(3)]
  by (cases ev) (auto simp: event_defs send_plain_def SendPlayerHalt_def SendAudioTrack_def SendVideoTrack_def SendSubtitleTrack_def SendMarker_def
      split: option.split)

lemma warning_closed:
  assumes "documented W" "thread_ok s" "\<not> j_pending s" "m_PlayerInstance ed = None"
  shows "\<exists>t. run_state (SendWarning W ed code message) s = ((), t) \<and> served 0 [] s t"
proof -
  obtain t where "run_state (with_player W ed (\<lambda>localPlayer. do {
       (case message of
          None \<Rightarrow> jret False
        | Some m \<Rightarrow> with_string W m (\<lambda>jmessage. do {
            call_player W ed localPlayer ''sendWarning'' [JInt code, JString jmessage m];
            e \<leftarrow> reportException W True;
            delete_local_ref W jmessage;
            jret True
          }));
       delete_local_ref W localPlayer;
       jret True
     })) s = (False, t)" "served 0 [] s t"
    using with_player_closed [OF assms] by blast
  then show ?thesis
    by (simp add: SendWarning_def)
qed

datatype dispatcher_op = SendEvent player_event | Warn int "string option" | DisposeDispatcher

definition dispatcher_step :: "jworld \<Rightarrow> dispatcher_op \<Rightarrow> JavaPlayerEventDispatcher \<Rightarrow> (bool \<times> JavaPlayerEventDispatcher) jm" where
  "dispatcher_step W op ed = (case op of
     SendEvent ev \<Rightarrow> do { b \<leftarrow> send_event W ed ev; jret (b, ed) }
   | Warn code message \<Rightarrow> do { SendWarning W ed code message; jret (False, ed) }
   | DisposeDispatcher \<Rightarrow> do { ed \<leftarrow> dispatcher_Dispose W ed; jret (False, ed) })"

fun dispatcher_calls :: "dispatcher_op \<Rightarrow> (string \<times> jvalue list) list" where
  "dispatcher_calls (SendEvent ev) = java_message ev"
| "dispatcher_calls (Warn code None) = []"
| "dispatcher_calls (Warn code (Some m)) = [(''sendWarning'', [JInt code, JString None m])]"
| "dispatcher_calls DisposeDispatcher = []"

definition without_player :: "JavaPlayerEventDispatcher \<Rightarrow> JavaPlayerEventDispatcher" where
  "without_player ed = ed\<lparr>m_PlayerInstance := None\<rparr>"

lemma dispose_served:
  assumes "roomy W" "thread_ok s" "\<not> j_pending s" "dispatcher_ready ed" "m_PlayerInstance ed = Some i" "i \<in> set (j_globals s)"
  shows "\<exists>t. run_state (dispatcher_step W DisposeDispatcher ed) s = ((False, without_player ed), t) \<and>
    served 1 [] s (t\<lparr>j_globals := j_globals s\<rparr>) \<and> j_globals t = remove1 i (j_globals s)"
proof -
  have "m_PlayerVM ed" "jw_ok W (j_log s) AttachCurrentThread"
    using assms(1,4) by (auto simp: dispatcher_ready_def roomy_def can_call_def)
  with assms show ?thesis
    by (cases "j_attached s") (auto simp: dispatcher_step_def dispatcher_Dispose_def env_simps delete_global_ref_def enter_jni_def served_def
        thread_ok_def without_player_def)
qed

lemma dispose_closed:
  assumes "documented W" "thread_ok s" "\<not> j_pending s" "m_PlayerInstance ed = None"
  shows "\<exists>t. run_state (dispatcher_step W DisposeDispatcher ed) s = ((False, ed), t) \<and> served 0 [] s t"
proof -
  have same: "ed\<lparr>m_PlayerInstance := None\<rparr> = ed"
    using assms(4) by simp
  have "\<exists>r cs t. run_state (dispatcher_Dispose W ed) s = (r, t) \<and> served 0 cs s t \<and> r = ed \<and> cs = []"
    unfolding dispatcher_Dispose_def
    by (rule with_env_served0 [where d = ed, OF assms(2,3)])
       (use assms same in \<open>auto simp: delete_global_ref_def enter_jni_def served_def thread_ok_def\<close>)
  then show ?thesis
    by (auto simp: dispatcher_step_def)
qed

interpretation listener: java_peer dispatcher_step "\<lambda>W op. True" DisposeDispatcher m_PlayerInstance without_player dispatcher_ready
  dispatcher_calls "\<lambda>op. False"
proof
  fix W op s ed i
  assume "roomy W" "thread_ok s" "\<not> j_pending s" "dispatcher_ready ed" "m_PlayerInstance ed = Some i" "i \<in> set (j_globals s)"
  note a = this
  show "\<exists>a t. run_state (dispatcher_step W op ed) s = ((a, ed), t) \<and> served 1 (dispatcher_calls op) s t" if "op \<noteq> DisposeDispatcher"
  proof (cases op)
    case (SendEvent ev)
    then show ?thesis
      using event_sent [OF a, of ev] by (auto simp: dispatcher_step_def)
  next
    case (Warn code message)
    then show ?thesis
      using warning_event [OF a, of code message] by (cases message) (auto simp: dispatcher_step_def)
  qed (use that in simp)
  show "\<exists>a t. run_state (dispatcher_step W DisposeDispatcher ed) s = ((a, without_player ed), t) \<and>
      served 1 (dispatcher_calls DisposeDispatcher) s (t\<lparr>j_globals := j_globals s\<rparr>) \<and> j_globals t = remove1 i (j_globals s)"
    using dispose_served [OF a] by auto
next
  fix W op s and ed :: JavaPlayerEventDispatcher
  assume "documented W" "thread_ok s" "\<not> j_pending s" "m_PlayerInstance ed = None"
  note a = this
  have one: "served 0 [] s t \<Longrightarrow> served 1 [] s t" for t
    using served_mono [of 0 "[]" s t 1] by simp
  show "\<exists>t. run_state (dispatcher_step W op ed) s = ((False, ed), t) \<and> served 1 [] s t"
  proof (cases op)
    case (SendEvent ev)
    then show ?thesis
      using event_closed [OF a, of ev] one by (auto simp: dispatcher_step_def)
  next
    case (Warn code message)
    then show ?thesis
      using warning_closed [OF a, of code message] one by (auto simp: dispatcher_step_def)
  next
    case DisposeDispatcher
    then show ?thesis
      using dispose_closed [OF a] one by auto
  qed
qed (simp add: without_player_def)

lemma dispatcher_Init_found:
  assumes "documented W" "thread_ok s" "j_attached s" "\<not> j_pending s" "live s (Some r)" "inited \<longrightarrow> set (map GetMethodID player_methods) \<subseteq> set ids"
    "run_state (dispatcher_Init W True (Some r) pMedia (JavaPlayerEventDispatcher_new inited ids)) s = (ed, t)"
    "areJMethodIDsInitialized ed" "m_PlayerInstance ed \<noteq> None"
  shows "dispatcher_ready ed \<and> m_PlayerInstance ed = Some (j_next s) \<and> m_MediaReference ed = pMedia \<and> j_globals t = j_next s # j_globals s \<and>
    java_calls (j_log t) = java_calls (j_log s) \<and> \<not> j_broken t \<and> j_next s < j_next t \<and> j_locals t = j_locals s \<and> j_attached t \<and> \<not> j_pending t"
proof -
  define f where "f = NewGlobalRef (Some r)"
  define s1 where "s1 = s\<lparr>j_log := f # j_log s, j_globals := j_next s # j_globals s, j_next := Suc (j_next s)\<rparr>"
  have ok: "jw_ok W (j_log s) f" "\<not> jw_throws W (j_log s) f"
    using assms(7,9) by (auto simp: dispatcher_Init_def JavaPlayerEventDispatcher_new_def new_global_ref_def f_def Let_def split: if_splits prod.splits)
  have g: "run_state (new_global_ref W (Some r)) s = (Some (j_next s), s1)"
    using ok assms(2-5) by (cases s) (simp add: new_global_ref_def s1_def f_def enter_jni_def thread_ok_def Let_def)
  have s1: "j_attached s1" "\<not> j_pending s1" "\<not> j_broken s1" "live s1 (Some (j_next s))"
    using assms(2-4) by (auto simp: s1_def thread_ok_def live_def)
  show ?thesis
  proof (cases inited)
    case True
    then show ?thesis
      using assms(6,7) g s1 by (auto simp: dispatcher_Init_def JavaPlayerEventDispatcher_new_def dispatcher_ready_def s1_def f_def)
  next
    case False
    define c where "c = GetObjectClass (Some (j_next s))"
    obtain klass s2 where k: "run_state (jnew W True c) s1 = (klass, s2)"
      by fastforce
    obtain failed ids' s3 where l: "run_state (look_up W (map GetMethodID player_methods) False ids) s2 = ((failed, ids'), s3)"
      by (metis surj_pair)
    have fin: "\<not> failed" "ed = \<lparr>m_PlayerVM = True, m_PlayerInstance = Some (j_next s), m_MediaReference = pMedia, areJMethodIDsInitialized = True,
          m_SendMethods = ids'\<rparr>" "t = snd (run_state (delete_local_ref W klass) s3)"
      using assms(7,8) False g k l s1(4)
      by (auto simp: dispatcher_Init_def JavaPlayerEventDispatcher_new_def c_def split: if_splits prod.splits)
    have k2: "klass = None \<and> calm [] s1 s2 \<or> klass = Some (j_next s1) \<and> calm [j_next s1] s1 s2" "\<not> j_pending s2"
      using assms(1) k s1 by (auto simp: jnew_def enter_jni_def calm_def Let_def c_def documented_def split: if_splits)
    have "calm [] s2 s3" "\<not> j_pending s3" "set ids' = set (map GetMethodID player_methods) \<union> set ids"
      using look_up_found [of W "map GetMethodID player_methods" False ids s2 ids' s3] l fin(1) k2 s1(1) by (auto simp: calm_def)
    then show ?thesis
      using fin k2 s1 by (auto simp: calm_def delete_local_ref_def enter_jni_def s1_def f_def dispatcher_ready_def)
  qed
qed


text \<open>A sender learns the truth: an event that has a message for Java is answered with true exactly when the call of its method has
  not thrown.\<close>

theorem event_answer_true:
  assumes "roomy W" "thread_ok s" "\<not> j_pending s" "dispatcher_ready ed" "m_PlayerInstance ed = Some i" "i \<in> set (j_globals s)"
    "java_message ev = [(name, args)]" "run_state (send_event W ed ev) s = (b, t)"
  shows "\<exists>h r as. map by_value as = args \<and> (b \<longleftrightarrow> \<not> jw_throws W h (CallMethod r name as)) \<and>
    java_calls (j_log t) = java_calls (j_log s) @ [(name, args)]"
  using event_sent [OF assms(1-6), of ev] assms(7,8) by (auto simp: reported_def served_def)

definition demo_dispatcher :: JavaPlayerEventDispatcher where
  "demo_dispatcher = \<lparr>m_PlayerVM = True, m_PlayerInstance = Some 1, m_MediaReference = 5, areJMethodIDsInitialized = True,
     m_SendMethods = rev (map GetMethodID player_methods)\<rparr>"

definition demo_listening :: jthread where
  "demo_listening = demo_jthread\<lparr>j_globals := [1], j_next := 3, j_log := DeleteLocalRef (Some 2) # rev (map GetMethodID player_methods) @
     [GetObjectClass (Some 1), NewGlobalRef (Some 0)]\<rparr>"

lemma demo_dispatcher_Init:
  "run_state (dispatcher_Init demo_jworld True (Some 0) 5 (JavaPlayerEventDispatcher_new False [])) demo_jthread = (demo_dispatcher, demo_listening)"
  by (simp add: dispatcher_Init_def JavaPlayerEventDispatcher_new_def new_global_ref_def jnew_def jcall_def enter_jni_def delete_local_ref_def
      reportException_def player_methods_def demo_jworld_def demo_jthread_def demo_dispatcher_def demo_listening_def live_def Let_def)


text \<open>A machine whose methods throw.\<close>

theorem event_answer_true_witness:
  "\<not> fst (run_state (send_event (demo_jworld\<lparr>jw_throws := \<lambda>h f. case f of CallMethod r name args \<Rightarrow> True | _ \<Rightarrow> False\<rparr>) demo_dispatcher (DurationUpdate 4)) demo_listening)"
proof -
  define W where "W = demo_jworld\<lparr>jw_throws := \<lambda>h f. case f of CallMethod r name args \<Rightarrow> True | _ \<Rightarrow> False\<rparr>"
  have W: "roomy W" "jw_throws W h (CallMethod r name as)" for h r name as
    by (auto simp: W_def roomy_def documented_def can_call_def demo_jworld_def)
  have d: "thread_ok demo_listening" "\<not> j_pending demo_listening" "dispatcher_ready demo_dispatcher" "m_PlayerInstance demo_dispatcher = Some 1"
      "1 \<in> set (j_globals demo_listening)" "java_message (DurationUpdate 4) = [(''sendDurationUpdateEvent'', [JReal 4])]"
    by (simp_all add: demo_listening_def demo_jthread_def demo_dispatcher_def thread_ok_def dispatcher_ready_def)
  obtain b t where r: "run_state (send_event W demo_dispatcher (DurationUpdate 4)) demo_listening = (b, t)"
    by fastforce
  have "\<not> b"
    using event_answer_true [OF W(1) d r] W(2) by auto
  then show ?thesis
    using r by (simp add: W_def)
qed

subsection \<open>Objects for Java\<close>

text \<open>\<^verbatim>\<open>CreateObject\<close> keeps the constructor in a static variable of its caller: \<open>cid\<close> says whether it is set.\<close>

definition CreateObject :: "jworld \<Rightarrow> bool \<Rightarrow> string \<Rightarrow> jvalue list \<Rightarrow> (jobject \<times> bool) jm" where
  "CreateObject W cid class_name args = do {
     classe \<leftarrow> jnew W True (FindClass class_name);
     e \<leftarrow> reportException W True;
     if e \<or> classe = None then jret (None, cid)
     else do {
       cid \<leftarrow> (if cid then jret True
               else do { m \<leftarrow> jcall W (GetMethodID ''<init>''); e \<leftarrow> reportException W True; jret (m \<and> \<not> e) });
       if \<not> cid then do { delete_local_ref W classe; jret (None, cid) }
       else do {
         result \<leftarrow> jnew W True (NewJavaObject class_name args);
         e \<leftarrow> reportException W True;
         delete_local_ref W classe;
         jret (result, cid)
       }
     }
   }"

definition CreateBoolean :: "jworld \<Rightarrow> bool \<Rightarrow> bool \<Rightarrow> (jobject \<times> bool) jm" where
  "CreateBoolean W cid boolean_value = CreateObject W cid ''java/lang/Boolean'' [JBool boolean_value]"

definition CreateInteger :: "jworld \<Rightarrow> bool \<Rightarrow> int \<Rightarrow> (jobject \<times> bool) jm" where
  "CreateInteger W cid int_value = CreateObject W cid ''java/lang/Integer'' [JInt int_value]"

definition CreateLong :: "jworld \<Rightarrow> bool \<Rightarrow> int \<Rightarrow> (jobject \<times> bool) jm" where
  "CreateLong W cid long_value = CreateObject W cid ''java/lang/Long'' [JInt long_value]"

definition CreateDouble :: "jworld \<Rightarrow> bool \<Rightarrow> real \<Rightarrow> (jobject \<times> bool) jm" where
  "CreateDouble W cid double_value = CreateObject W cid ''java/lang/Double'' [JReal double_value]"

text \<open>\<^verbatim>\<open>CreateDuration\<close> has the same steps; it turns nanoseconds into milliseconds.\<close>

definition CreateDuration :: "jworld \<Rightarrow> bool \<Rightarrow> int \<Rightarrow> (jobject \<times> bool) jm" where
  "CreateDuration W cid duration = CreateObject W cid ''javafx/util/Duration'' [JReal (of_int duration / 1000000)]"

lemma jwp_new:
  assumes "acts cs L s t" "\<not> j_pending t" "java_calls [f] = []"
    "\<And>u. acts cs (j_next t # L) s u \<Longrightarrow> \<not> j_pending u \<Longrightarrow> j_next t \<notin> set L \<Longrightarrow> Q (Some (j_next t)) u" "\<And>u. acts cs L s u \<Longrightarrow> Q None u"
  shows "jwp (jnew W True f) Q t"
proof -
  define u where "u = enter_jni W True f t"
  have "java_calls (f # j_log t) = java_calls (j_log t)"
    using java_calls_append [of "[f]" "j_log t"] assms(3) by simp
  then have "acts cs L s u" "\<not> jw_throws W (j_log t) f \<Longrightarrow> acts cs (j_next t # L) s (u\<lparr>j_locals := j_next t # j_locals t, j_next := Suc (j_next t)\<rparr>)"
      "j_next t \<notin> set L" "j_pending u = jw_throws W (j_log t) f"
    using assms(1,2) by (auto simp: u_def enter_jni_def acts_def)
  then show ?thesis
    using assms(4,5) by (auto simp: jwp_def jnew_def Let_def simp flip: u_def)
qed

lemma jwp_find:
  assumes "acts cs L s t" "\<not> j_pending t" "java_calls [f] = []" "\<And>ok u. acts cs L s u \<Longrightarrow> Q ok u"
  shows "jwp (jcall W f) Q t"
proof -
  have "java_calls (f # j_log t) = java_calls (j_log t)"
    using java_calls_append [of "[f]" "j_log t"] assms(3) by simp
  then show ?thesis
    using assms(1,2) by (auto simp: jwp_def jcall_def enter_jni_def acts_def intro!: assms(4))
qed

text \<open>What remains of the creation of an object: the object itself, or at most the text of one exception.\<close>

definition one_object :: "jthread \<Rightarrow> jobject \<times> bool \<Rightarrow> jthread \<Rightarrow> bool" where
  "one_object s a t \<longleftrightarrow> \<not> j_pending t \<and> (\<exists>L. acts [] L s t \<and> length L \<le> 1 \<and> (\<forall>x. fst a = Some x \<longrightarrow> L = [x]))"

lemma jwp_ret: "jwp (jret a) Q = Q a"
  by (rule ext) simp

lemma make_object:
  assumes "documented W" "acts [] [x] s u" "\<not> j_pending u"
  shows "jwp (do { result \<leftarrow> jnew W True (NewJavaObject class_name args); e \<leftarrow> reportException W True; delete_local_ref W (Some x); jret (result, True) })
    (one_object s) u"
  unfolding jwp_simps
proof (rule jwp_new [OF assms(2,3)], simp, rule jwp_report [OF assms(1)], assumption, rule jwp_delete, assumption, simp, goal_cases)
  case (1 v M w w')
  then show ?case
    by (auto simp: one_object_def remove_fresh)
next
  case (2 v)
  show ?case
  proof (rule jwp_report [OF assms(1) 2], rule jwp_delete, assumption, simp, goal_cases)
    case (1 M w w')
    then show ?case
      by (auto simp: one_object_def remove_fresh split: if_splits)
  qed
qed

lemma find_constructor:
  assumes "documented W" "acts [] [x] s u" "\<not> j_pending u"
  shows "jwp (do {
      cid \<leftarrow> (do { m \<leftarrow> jcall W (GetMethodID ''<init>''); e \<leftarrow> reportException W True; jret (m \<and> \<not> e) });
      if \<not> cid then do { delete_local_ref W (Some x); jret (None, cid) }
      else do { result \<leftarrow> jnew W True (NewJavaObject class_name args); e \<leftarrow> reportException W True; delete_local_ref W (Some x); jret (result, cid) }
    }) (one_object s) u"
  unfolding jwp_simps
proof (rule jwp_find [OF assms(2,3)], simp, rule jwp_report [OF assms(1)], assumption, goal_cases)
  case (1 ok w M w')
  show ?case
  proof (cases "ok \<and> \<not> j_pending w")
    case True
    then show ?thesis
      using 1 make_object [OF assms(1), of x s w'] by simp
  next
    case False
    have "jwp (delete_local_ref W (Some x)) (\<lambda>_. one_object s (None, False)) w'"
      by (rule jwp_delete [OF 1(2)], simp) (use 1 in \<open>auto simp: one_object_def remove_fresh split: if_splits\<close>)
    with False show ?thesis
      by (auto simp: jwp_ret)
  qed
qed

theorem created_object_only:
  assumes "documented W" "thread_ok s" "j_attached s" "\<not> j_pending s" "run_state (CreateObject W cid class_name args) s = (a, t)"
  shows "one_object s a t"
proof -
  have start: "acts [] [] s s"
    using assms(2,3) by (simp add: acts_def thread_ok_def)
  have "jwp (CreateObject W cid class_name args) (one_object s) s"
    unfolding CreateObject_def jwp_simps
  proof (rule jwp_new [OF start assms(4)], simp, goal_cases)
    case (1 u)
    note u = this
    show ?case
    proof (rule jwp_report [OF assms(1) u(1)], goal_cases)
      case (1 M v)
      then show ?case
        using u(2) make_object [OF assms(1), of "j_next s" s v] find_constructor [OF assms(1), of "j_next s" s v] by (cases cid) simp_all
    qed
  next
    case (2 u)
    show ?case
      by (rule jwp_report [OF assms(1) 2]) (auto simp: one_object_def split: if_splits)
  qed
  then show ?thesis
    using assms(5) by (simp add: jwp_def)
qed

subsection \<open>Defects\<close>

text \<open>When a method of the player cannot be found, \<^verbatim>\<open>Init\<close> reports nothing to its caller, and the event that needs the method is sent
  through a null identifier.\<close>

theorem missing_method_called:
  assumes "j_attached s" "\<not> j_pending s" "m_PlayerVM ed" "m_PlayerInstance ed = Some i" "i \<in> set (j_globals s)" "roomy W" "\<not> j_broken s"
    "GetMethodID ''sendDurationUpdateEvent'' \<notin> set (m_SendMethods ed)" "\<And>h r name args. \<not> jw_throws W h (CallMethod r name args)"
  shows "j_broken (snd (run_state (send_event W ed (DurationUpdate time)) s))"
  using assms
  by (simp add: event_defs send_plain_def with_player_def with_env_attached run_new_local_ref roomy_def can_call_def call_player_def call_method_def
      enter_jni_def delete_local_ref_def reportException_def)

end
