(* ===== verification/Java_Natives.thy ===== *)
theory Java_Natives
  imports Java_Events Frame_Convert Audio_Equalizer Audio_Spectrum
begin

text \<open>
  Native methods of Java classes and their helpers: \<^verbatim>\<open>jni/NativeVideoBuffer.cpp\<close> (frames), \<^verbatim>\<open>jni/NativeAudioEqualizer.cpp\<close> (bands),
  \<^verbatim>\<open>jni/JavaBandsHolder.cpp\<close> with \<^verbatim>\<open>jni/NativeAudioSpectrum.cpp\<close> (spectrum), \<^verbatim>\<open>jni/JavaMediaWarningListener.cpp\<close>.  A handle Java
  passes is the address of a native object, zero for none; a table says what is there.
\<close>

subsection \<open>Frames\<close>

type_synonym frame_table = "int \<Rightarrow> CGstVideoFrame option"

definition on_frame :: "frame_table \<Rightarrow> int \<Rightarrow> 'a \<Rightarrow> (CGstVideoFrame \<Rightarrow> 'a) \<Rightarrow> 'a outcome" where
  "on_frame frames nativeHandle none f =
     (if nativeHandle = 0 then Returns none else case frames nativeHandle of None \<Rightarrow> Faults | Some frame \<Rightarrow> Returns (f frame))"

definition nativeDisposeBuffer :: "int \<Rightarrow> frame_table \<Rightarrow> frame_table outcome" where
  "nativeDisposeBuffer nativeHandle frames = on_frame frames nativeHandle frames (\<lambda>frame. frames(nativeHandle := None))"

definition nativeGetTimestamp :: "frame_table \<Rightarrow> int \<Rightarrow> real outcome" where
  "nativeGetTimestamp frames nativeHandle = on_frame frames nativeHandle 0 m_dTime"

definition nativeGetBufferForPlane :: "jworld \<Rightarrow> frame_table \<Rightarrow> int \<Rightarrow> int \<Rightarrow> jobject jm outcome" where
  "nativeGetBufferForPlane W frames nativeHandle plane = on_frame frames nativeHandle (jret None) (\<lambda>frame. do {
     buffer \<leftarrow> jnew W True (NewDirectByteBuffer (case GetDataForPlane (word_of_int plane) frame of None \<Rightarrow> 0 | Some a \<Rightarrow> a)
                (sint (GetSizeForPlane (word_of_int plane) frame)));
     c \<leftarrow> clearException True;
     jret (if c then None else buffer)
   })"

definition nativeGetWidth :: "frame_table \<Rightarrow> int \<Rightarrow> int outcome" where
  "nativeGetWidth frames nativeHandle = on_frame frames nativeHandle 0 (\<lambda>frame. sint (m_uiWidth frame))"

definition nativeGetHeight :: "frame_table \<Rightarrow> int \<Rightarrow> int outcome" where
  "nativeGetHeight frames nativeHandle = on_frame frames nativeHandle 0 (\<lambda>frame. sint (m_uiHeight frame))"

definition nativeGetEncodedWidth :: "frame_table \<Rightarrow> int \<Rightarrow> int outcome" where
  "nativeGetEncodedWidth frames nativeHandle = on_frame frames nativeHandle 0 (\<lambda>frame. sint (m_uiEncodedWidth frame))"

definition nativeGetEncodedHeight :: "frame_table \<Rightarrow> int \<Rightarrow> int outcome" where
  "nativeGetEncodedHeight frames nativeHandle = on_frame frames nativeHandle 0 (\<lambda>frame. sint (m_uiEncodedHeight frame))"

text \<open>The numbers of the formats.\<close>

fun frame_type_code :: "FrameType \<Rightarrow> int" where
  "frame_type_code UNKNOWN = 0"
| "frame_type_code ARGB = 1"
| "frame_type_code BGRA_PRE = 2"
| "frame_type_code YCbCr_420p = 100"
| "frame_type_code YCbCr_422 = 101"
| "frame_type_code YCbCr_422_rev = 102"

definition nativeGetFormat :: "frame_table \<Rightarrow> int \<Rightarrow> int outcome" where
  "nativeGetFormat frames nativeHandle = on_frame frames nativeHandle 0 (\<lambda>frame. frame_type_code (m_typeFrame frame))"

definition nativeHasAlpha :: "frame_table \<Rightarrow> int \<Rightarrow> bool outcome" where
  "nativeHasAlpha frames nativeHandle = on_frame frames nativeHandle False HasAlpha"

definition nativeGetPlaneCount :: "frame_table \<Rightarrow> int \<Rightarrow> int outcome" where
  "nativeGetPlaneCount frames nativeHandle = on_frame frames nativeHandle 0 (\<lambda>frame. sint (m_uiPlaneCount frame))"

text \<open>\<open>alloc\<close> says whether there is memory for the temporary array.\<close>

definition plane_strides :: "jworld \<Rightarrow> bool \<Rightarrow> CGstVideoFrame \<Rightarrow> jobject jm" where
  "plane_strides W alloc frame =
     (let count = sint (m_uiPlaneCount frame)
      in if count > 4 \<or> count < 1 then jret None
         else do {
           strides \<leftarrow> jnew W True (NewIntArray count);
           if strides = None \<or> \<not> alloc then jret None
           else do {
             jmodify (\<lambda>s. enter_jni W (live s strides) (SetIntArrayRegion strides (map (\<lambda>ii. sint (GetStrideForPlane (of_nat ii) frame)) [0..<nat count])) s);
             c \<leftarrow> clearException True;
             jret (if c then None else strides)
           }
         })"

definition nativeGetPlaneStrides :: "jworld \<Rightarrow> bool \<Rightarrow> frame_table \<Rightarrow> int \<Rightarrow> jobject jm outcome" where
  "nativeGetPlaneStrides W alloc frames nativeHandle = on_frame frames nativeHandle (jret None) (plane_strides W alloc)"

text \<open>A frame that has the format already is returned itself; another one gets the address \<open>fresh\<close>.\<close>

definition nativeConvertToFormat :: "frame_env \<Rightarrow> u32 list \<Rightarrow> u32 list \<Rightarrow> int \<Rightarrow> frame_table \<Rightarrow> int \<Rightarrow> FrameType \<Rightarrow> (int \<times> frame_table) outcome" where
  "nativeConvertToFormat E src dst0 fresh frames nativeHandle newFormat =
     (if nativeHandle = 0 then Returns (0, frames)
      else case frames nativeHandle of
             None \<Rightarrow> Faults
           | Some frame \<Rightarrow>
               (case ConvertToFormat E newFormat src dst0 frame of
                  Faults \<Rightarrow> Faults
                | Returns r \<Rightarrow>
                    Returns (if newFormat = m_typeFrame frame then (nativeHandle, frames)
                             else case cr_frame r of None \<Rightarrow> (0, frames) | Some new \<Rightarrow> (fresh, frames(fresh \<mapsto> new)))))"

definition nativeSetDirty :: "int \<Rightarrow> frame_table \<Rightarrow> frame_table outcome" where
  "nativeSetDirty nativeHandle frames =
     on_frame frames nativeHandle frames (\<lambda>frame. frames(nativeHandle \<mapsto> frame\<lparr>m_FrameDirty := True\<rparr>))"

subsection \<open>Bands of the equalizer\<close>

text \<open>\<open>band\<close> is the address of the band \<^verbatim>\<open>AddBand\<close> returns.\<close>

definition nativeAddBand ::
  "jworld \<Rightarrow> (nat list \<Rightarrow> nat \<Rightarrow> nat list) \<Rightarrow> bool \<Rightarrow> int \<Rightarrow> real \<Rightarrow> real \<Rightarrow> real \<Rightarrow> CGstAudioEqualizer option \<Rightarrow>
     ((jobject \<times> bool) \<times> CGstAudioEqualizer option) jm" where
  "nativeAddBand W resize cid band centerFrequency bandWidth gain pEqualizer =
     (case pEqualizer of
        None \<Rightarrow> jret ((None, cid), None)
      | Some eq \<Rightarrow>
          (case AddBand resize centerFrequency bandWidth gain eq of
             (False, eq) \<Rightarrow> jret ((None, cid), Some eq)
           | (True, eq) \<Rightarrow> do { r \<leftarrow> CreateObject W cid ''com/sun/media/jfxmediaimpl/NativeEqualizerBand'' [JInt band]; jret (r, Some eq) }))"

subsection \<open>The holder of the spectrum\<close>

record JavaBandsHolder =
  bh_jvm :: bool
  m_Bands :: int
  m_Magnitudes :: jobject
  m_Phases :: jobject

definition JavaBandsHolder_Init :: "jworld \<Rightarrow> int \<Rightarrow> jobject \<Rightarrow> jobject \<Rightarrow> JavaBandsHolder \<Rightarrow> (bool \<times> JavaBandsHolder) jm" where
  "JavaBandsHolder_Init W bands magnitudes phases h = do {
     c \<leftarrow> clearException True;
     if c then jret (False, h\<lparr>bh_jvm := False\<rparr>)
     else do {
       m \<leftarrow> new_global_ref W magnitudes;
       p \<leftarrow> new_global_ref W phases;
       jret (True, \<lparr>bh_jvm = True, m_Bands = bands, m_Magnitudes = m, m_Phases = p\<rparr>)
     }
   }"

definition JavaBandsHolder_delete :: "jworld \<Rightarrow> JavaBandsHolder \<Rightarrow> JavaBandsHolder jm" where
  "JavaBandsHolder_delete W h =
     (if \<not> bh_jvm h then jret h
      else with_env W True (\<lambda>env.
        if \<not> env then jret h
        else do {
          jwhen (m_Magnitudes h \<noteq> None) (delete_global_ref W (m_Magnitudes h));
          jwhen (m_Phases h \<noteq> None) (delete_global_ref W (m_Phases h));
          jret (h\<lparr>m_Magnitudes := None, m_Phases := None\<rparr>)
        }))"

definition set_float_region :: "jworld \<Rightarrow> jobject \<Rightarrow> int \<Rightarrow> unit jm" where
  "set_float_region W r n = jmodify (\<lambda>s. enter_jni W (r \<noteq> None \<and> live s r) (SetFloatArrayRegion r n) s)"

definition JavaBandsHolder_UpdateBands :: "jworld \<Rightarrow> int \<Rightarrow> JavaBandsHolder \<Rightarrow> unit jm" where
  "JavaBandsHolder_UpdateBands W n h =
     (if m_Bands h \<noteq> n \<or> \<not> bh_jvm h then jret ()
      else with_env W True (\<lambda>env.
        if \<not> env then jret ()
        else do {
          localMagnitudes \<leftarrow> new_local_ref W (m_Magnitudes h);
          localPhases \<leftarrow> new_local_ref W (m_Phases h);
          jwhen (localMagnitudes \<noteq> None \<and> localPhases \<noteq> None) (do {
            set_float_region W localMagnitudes n;
            c \<leftarrow> clearException True;
            jwhen (\<not> c) (do { set_float_region W localPhases n; clearException True; jret () })
          });
          delete_local_ref W localMagnitudes;
          delete_local_ref W localPhases
        }))"

text \<open>The native method.  The holder gets the address \<open>holder\<close> and one reference, and goes to the spectrum when there is one; \<open>alloc\<close> says whether it
  could be allocated.\<close>

definition nativeSetBands ::
  "jworld \<Rightarrow> bool \<Rightarrow> nat \<Rightarrow> int \<Rightarrow> jobject \<Rightarrow> jobject \<Rightarrow> CGstAudioSpectrum option \<Rightarrow> (JavaBandsHolder option \<times> CGstAudioSpectrum option) jm" where
  "nativeSetBands W alloc holder bands magnitudes phases pSpectrum =
     (if \<not> alloc then jret (None, pSpectrum)
      else do {
        (ok, h) \<leftarrow> JavaBandsHolder_Init W bands magnitudes phases \<lparr>bh_jvm = False, m_Bands = 0, m_Magnitudes = None, m_Phases = None\<rparr>;
        if \<not> ok then do { JavaBandsHolder_delete W h; jret (None, pSpectrum) }
        else jret (Some h, map_option (\<lambda>spectrum. SetBands bands (Some holder) (InitRef holder spectrum)) pSpectrum)
      })"

subsection \<open>Settings of the effects\<close>

text \<open>The remaining methods of the two effects forward to the object, when there is one.\<close>

definition on_effect :: "'e option \<Rightarrow> 'a \<Rightarrow> ('e \<Rightarrow> 'a) \<Rightarrow> 'a" where
  "on_effect p none f = (case p of None \<Rightarrow> none | Some e \<Rightarrow> f e)"

definition equalizer_nativeGetEnabled :: "CGstAudioEqualizer option \<Rightarrow> bool" where
  "equalizer_nativeGetEnabled pEqualizer = on_effect pEqualizer False eq_IsEnabled"

definition equalizer_nativeSetEnabled :: "bool \<Rightarrow> CGstAudioEqualizer option \<Rightarrow> CGstAudioEqualizer option" where
  "equalizer_nativeSetEnabled enabled pEqualizer = map_option (eq_SetEnabled enabled) pEqualizer"

definition nativeGetNumBands :: "CGstAudioEqualizer option \<Rightarrow> int" where
  "nativeGetNumBands pEqualizer = on_effect pEqualizer 0 GetNumBands"

definition nativeRemoveBand :: "(nat list \<Rightarrow> nat \<Rightarrow> nat list) \<Rightarrow> real \<Rightarrow> CGstAudioEqualizer option \<Rightarrow> bool \<times> CGstAudioEqualizer option" where
  "nativeRemoveBand resize centerFrequency pEqualizer =
     on_effect pEqualizer (False, None) (\<lambda>e. case RemoveBand resize centerFrequency e of (r, e) \<Rightarrow> (r, Some e))"

definition spectrum_nativeGetEnabled :: "CGstAudioSpectrum option \<Rightarrow> bool" where
  "spectrum_nativeGetEnabled pSpectrum = on_effect pSpectrum False sp_IsEnabled"

definition spectrum_nativeSetEnabled :: "bool \<Rightarrow> CGstAudioSpectrum option \<Rightarrow> CGstAudioSpectrum option" where
  "spectrum_nativeSetEnabled enabled pSpectrum = map_option (sp_SetEnabled enabled) pSpectrum"

definition nativeGetInterval :: "CGstAudioSpectrum option \<Rightarrow> real" where
  "nativeGetInterval pSpectrum = on_effect pSpectrum 0 GetInterval"

definition nativeSetInterval :: "real \<Rightarrow> CGstAudioSpectrum option \<Rightarrow> CGstAudioSpectrum option" where
  "nativeSetInterval interval pSpectrum = map_option (SetInterval interval) pSpectrum"

definition nativeGetThreshold :: "CGstAudioSpectrum option \<Rightarrow> int" where
  "nativeGetThreshold pSpectrum = on_effect pSpectrum 0 GetThreshold"

definition nativeSetThreshold :: "int \<Rightarrow> CGstAudioSpectrum option \<Rightarrow> CGstAudioSpectrum option" where
  "nativeSetThreshold threshold pSpectrum = map_option (SetThreshold threshold) pSpectrum"

text \<open>The methods of a band do not test the handle: the band must be in the map of the equalizer, here under the key \<open>k\<close>.\<close>

definition with_band :: "real \<Rightarrow> CGstAudioEqualizer \<Rightarrow> (CGstEqualizerBand \<Rightarrow> 'a) \<Rightarrow> 'a outcome" where
  "with_band k e f = (case bm_find (m_BandMap e) k of None \<Rightarrow> Faults | Some b \<Rightarrow> Returns (f b))"

definition nativeGetCenterFrequency :: "real \<Rightarrow> CGstAudioEqualizer \<Rightarrow> real option outcome" where
  "nativeGetCenterFrequency k e = with_band k e (\<lambda>b. GetCenterFrequency b e)"

definition nativeSetCenterFrequency :: "real \<Rightarrow> real \<Rightarrow> CGstAudioEqualizer \<Rightarrow> CGstAudioEqualizer outcome" where
  "nativeSetCenterFrequency centerFrequency k e = with_band k e (\<lambda>b. on_band k (SetCenterFrequency centerFrequency) e)"

definition nativeGetBandwidth :: "real \<Rightarrow> CGstAudioEqualizer \<Rightarrow> real outcome" where
  "nativeGetBandwidth k e = with_band k e m_Bandwidth"

definition nativeSetBandwidth :: "real \<Rightarrow> real \<Rightarrow> CGstAudioEqualizer \<Rightarrow> CGstAudioEqualizer outcome" where
  "nativeSetBandwidth bandwidth k e = with_band k e (\<lambda>b. on_band k (SetBandwidth bandwidth) e)"

definition nativeGetGain :: "real \<Rightarrow> CGstAudioEqualizer \<Rightarrow> real outcome" where
  "nativeGetGain k e = with_band k e m_Gain"

definition nativeSetGain :: "real \<Rightarrow> real \<Rightarrow> CGstAudioEqualizer \<Rightarrow> CGstAudioEqualizer outcome" where
  "nativeSetGain gain k e = with_band k e (\<lambda>b. on_band k (SetGain gain) e)"

subsection \<open>Warnings\<close>

definition JavaMediaWarningListener_Warning :: "jworld \<Rightarrow> bool \<Rightarrow> int \<Rightarrow> string option \<Rightarrow> unit jm" where
  "JavaMediaWarningListener_Warning W jvm warningCode warningMessage = with_env W jvm (\<lambda>env.
     if \<not> env then jret ()
     else do {
       mediaUtilsClass \<leftarrow> jnew W True (FindClass ''com/sun/media/jfxmediaimpl/MediaUtils'');
       c \<leftarrow> clearException env;
       jwhen (\<not> c \<and> mediaUtilsClass \<noteq> None) (do {
         mid \<leftarrow> jcall W (GetStaticMethodID ''nativeWarning'');
         c \<leftarrow> clearException env;
         jwhen (\<not> c) (do {
           let message = (case warningMessage of None \<Rightarrow> [] | Some m \<Rightarrow> m);
           jmessage \<leftarrow> jnew W True (NewStringUTF message);
           c \<leftarrow> clearException env;
           jwhen (\<not> c \<and> jmessage \<noteq> None) (do {
             jmodify (enter_jni W mid (CallStaticMethod ''nativeWarning'' [JInt warningCode, JString jmessage message]));
             clearException env;
             delete_local_ref W jmessage
           })
         });
         delete_local_ref W mediaUtilsClass
       })
     })"

subsection \<open>Memory Java gets to see\<close>

lemma sint_of_nat_ulong: "n < 2 ^ 63 \<Longrightarrow> sint (of_nat n :: ulong) = int n"
  by (simp add: signed_of_nat signed_take_bit_int_eq_self)

lemma sint_of_small: "unat (w :: ulong) < 2 ^ 63 \<Longrightarrow> sint w = int (unat w)"
  using sint_of_nat_ulong [of "unat w"] by simp

text \<open>C12: The memory behind a direct buffer lies in the frame.  For a frame that \<^verbatim>\<open>SetFrameCaps\<close> has accepted, whatever its caps said, and every
  plane it has, the buffer \<^verbatim>\<open>nativeGetBufferForPlane\<close> makes for Java starts and ends within the memory that is mapped for the frame.\<close>

theorem plane_buffers_in_bounds:
  assumes "frames h = Some (SetFrameCaps str f)" "h \<noteq> 0" "IsValid (SetFrameCaps str f)" "0 \<le> plane" "plane < 4"
    "plane < uint (m_uiPlaneCount (SetFrameCaps str f))" "j_attached s" "\<not> j_pending s" "m_ulBufferSize (SetFrameCaps str f) < 2 ^ 63"
    "nativeGetBufferForPlane W frames h plane = Returns p" "run_state p s = (r, t)"
  shows "\<exists>a n. j_log t = NewDirectByteBuffer a n # j_log s \<and> 0 \<le> n \<and> m_pvBufferBaseAddress (SetFrameCaps str f) \<le> a \<and>
    a + nat n \<le> m_pvBufferBaseAddress (SetFrameCaps str f) + unat (m_ulBufferSize (SetFrameCaps str f)) \<and> \<not> j_pending t"
proof -
  define g where "g = SetFrameCaps str f"
  have u: "uint (word_of_int plane :: u32) = plane"
    using assms(4,5) by (simp add: uint_word_of_int)
  have i: "unat (word_of_int plane :: u32) = nat plane" "(word_of_int plane :: u32) < of_nat MAX_PLANE_COUNT"
    using assms(5) unfolding unat_eq_nat_uint word_less_def u by simp_all
  have "nat plane < unat (m_uiPlaneCount g)"
    using assms(4,6) unfolding g_def unat_eq_nat_uint by (simp only: nat_less_eq_zless)
  then obtain a where a: "m_pvPlaneData g ! nat plane = Some a" "m_pvBufferBaseAddress g \<le> a"
      "a + unat (m_pulPlaneSize g ! nat plane) \<le> m_pvBufferBaseAddress g + unat (m_ulBufferSize g)"
    using SetFrameCaps_planes [of str f "nat plane"] assms(3) by (auto simp: IsValid_def plane_in_buffer_def g_def)
  have "unat (m_ulBufferSize g) < 2 ^ 63"
    using assms(9) unfolding g_def by (simp add: word_less_nat_alt)
  then have "unat (m_pulPlaneSize g ! nat plane) < 2 ^ 63"
    using a(2,3) by linarith
  then have n: "sint (m_pulPlaneSize g ! nat plane) = int (unat (m_pulPlaneSize g ! nat plane))"
    by (rule sint_of_small)
  have "j_log t = NewDirectByteBuffer a (sint (m_pulPlaneSize g ! nat plane)) # j_log s" "\<not> j_pending t"
    using assms(1,2,7,8,10,11) i a(1)
    by (auto simp: nativeGetBufferForPlane_def on_frame_def GetDataForPlane_def GetSizeForPlane_def jnew_def enter_jni_def Let_def
        simp flip: g_def split: if_splits)
  then show ?thesis
    using a(2,3) unfolding n g_def [symmetric] by auto
qed

theorem plane_buffers_in_bounds_witness:
  "\<exists>p r t a n. nativeGetBufferForPlane demo_jworld [7 \<mapsto> SetFrameCaps demo_yuv demo_frame] 7 2 = Returns p \<and> run_state p demo_jthread = (r, t) \<and>
    j_log t = [NewDirectByteBuffer a n] \<and> 0 \<le> n \<and> 4096 \<le> a \<and> a + nat n \<le> 4108"
proof -
  have f: "IsValid (SetFrameCaps demo_yuv demo_frame)" "2 < uint (m_uiPlaneCount (SetFrameCaps demo_yuv demo_frame))"
      "m_pvBufferBaseAddress (SetFrameCaps demo_yuv demo_frame) = 4096" "m_ulBufferSize (SetFrameCaps demo_yuv demo_frame) = 12"
    by (simp_all add: IsValid_def demo_yuv_def demo_frame_def frame_eval)
  obtain p where p: "nativeGetBufferForPlane demo_jworld [7 \<mapsto> SetFrameCaps demo_yuv demo_frame] 7 2 = Returns p"
    by (auto simp: nativeGetBufferForPlane_def on_frame_def)
  obtain r t where t: "run_state p demo_jthread = (r, t)"
    by fastforce
  have "j_attached demo_jthread" "\<not> j_pending demo_jthread" "j_log demo_jthread = []"
    by (simp_all add: demo_jthread_def)
  then show ?thesis
    using plane_buffers_in_bounds [of "[7 \<mapsto> SetFrameCaps demo_yuv demo_frame]" 7 demo_yuv demo_frame 2 demo_jthread, OF _ _ f(1) _ _ f(2) _ _ _ p t] f(3,4) p t
    by fastforce
qed

text \<open>There is memory for a global reference.\<close>

definition room_for_globals :: "jworld \<Rightarrow> bool" where
  "room_for_globals W \<longleftrightarrow> (\<forall>h r. jw_ok W h (NewGlobalRef r) \<and> \<not> jw_throws W h (NewGlobalRef r))"

lemma run_new_global_ref:
  assumes "room_for_globals W" "j_attached s" "\<not> j_pending s" "\<not> j_broken s" "live s r" "r \<noteq> None"
  shows "run_state (new_global_ref W r) s =
    (Some (j_next s), s\<lparr>j_log := NewGlobalRef r # j_log s, j_globals := j_next s # j_globals s, j_next := Suc (j_next s)\<rparr>)"
  using assms by (cases s) (simp add: new_global_ref_def enter_jni_def room_for_globals_def Let_def)

lemma UpdateBands_served:
  assumes "roomy W" "thread_ok s" "\<not> j_pending s" "m_Magnitudes h = Some i" "m_Phases h = Some j" "i \<in> set (j_globals s)" "j \<in> set (j_globals s)"
  shows "\<exists>t. run_state (JavaBandsHolder_UpdateBands W n h) s = ((), t) \<and> served 0 [] s t"
proof (cases "m_Bands h \<noteq> n \<or> \<not> bh_jvm h")
  case True
  then show ?thesis
    using served_refl [OF assms(3)] by (auto simp: JavaBandsHolder_UpdateBands_def)
next
  case False
  have W: "documented W" "jw_ok W h AttachCurrentThread" "jw_ok W h (NewLocalRef r)" for h r
    using assms(1) by (auto simp: roomy_def can_call_def)
  have "\<exists>r cs t. run_state (JavaBandsHolder_UpdateBands W n h) s = (r, t) \<and> served 0 cs s t \<and> cs = []"
    unfolding JavaBandsHolder_UpdateBands_def if_not_P [OF False]
  proof (rule with_env_served0 [where d = "()", OF assms(2,3)], goal_cases)
    case (1 s')
    then show ?case
      using assms(4-7) W
      by (auto simp: run_new_local_ref [OF W(1)] set_float_region_def enter_jni_def delete_local_ref_def served_def live_def thread_ok_def)
  qed auto
  then show ?thesis
    by auto
qed

subsection \<open>The life of a holder\<close>

definition bands_step :: "jworld \<Rightarrow> int \<Rightarrow> JavaBandsHolder \<Rightarrow> (unit \<times> JavaBandsHolder) jm" where
  "bands_step W n h = do { JavaBandsHolder_UpdateBands W n h; jret ((), h) }"

lemma bands_run:
  assumes "roomy W" "machine_ok k s" "m_Magnitudes h = Some i" "m_Phases h = Some j" "{i, j} \<subseteq> set (j_globals s)" "\<forall>(th, n) \<in> set ops. caller_ok k th"
  shows "\<exists>as t. peer_run (bands_step W) ops h s = (as, h, t) \<and> machine_ok k t \<and> j_globals t = j_globals s \<and> java_calls (j_log t) = java_calls (j_log s)"
  using assms(2,5,6)
proof (induction ops arbitrary: s)
  case (Cons x ops)
  obtain th n where x: "x = (th, n)" by fastforce
  have sw: "thread_ok (switch_thread th s)" "\<not> j_pending (switch_thread th s)"
    using switch_ok [OF Cons(2)] Cons(4) x by auto
  obtain t where t: "run_state (JavaBandsHolder_UpdateBands W n h) (switch_thread th s) = ((), t)" "served 0 [] (switch_thread th s) t"
    using UpdateBands_served [OF assms(1) sw assms(3,4)] Cons(3) by auto
  then show ?case
    using Cons(1) [of t] Cons(3,4) served_machine [OF t(2) Cons(2)] x by (auto simp: bands_step_def)
qed simp

lemma delete_holder:
  assumes "roomy W" "thread_ok s" "\<not> j_pending s" "bh_jvm h" "m_Magnitudes h = Some i" "m_Phases h = Some j" "j_globals s = j # i # gs" "i \<noteq> j"
  shows "\<exists>t. run_state (JavaBandsHolder_delete W h) s = (h\<lparr>m_Magnitudes := None, m_Phases := None\<rparr>, t) \<and> \<not> j_broken t \<and> j_globals t = gs"
proof -
  have "jw_ok W (j_log s) AttachCurrentThread"
    using assms(1) by (simp add: roomy_def can_call_def)
  with assms(2-8) show ?thesis
    by (cases "j_attached s") (auto simp: JavaBandsHolder_delete_def env_simps delete_global_ref_def enter_jni_def thread_ok_def)
qed

text \<open>The holder of the spectrum keeps the rules.  Once it is initialised with the two arrays of Java, updates from any threads and the
  deletion by the last owner break no rule of JNI, call no Java method and in the end give back exactly the two global references.\<close>

theorem bands_holder_life:
  assumes "roomy W" "room_for_globals W" "thread_ok s" "j_attached s" "\<not> j_pending s" "live s (Some r)" "live s (Some q)"
    "run_state (JavaBandsHolder_Init W bands (Some r) (Some q) h0) s = ((ok, h), s1)"
    "\<forall>(th, n) \<in> set ops. caller_ok (j_next s1) th" "caller_ok (j_next s1) th"
  shows "ok \<and> (\<exists>as t u. peer_run (bands_step W) ops h s1 = (as, h, t) \<and>
    run_state (JavaBandsHolder_delete W h) (switch_thread th t) = (h\<lparr>m_Magnitudes := None, m_Phases := None\<rparr>, u) \<and>
    \<not> j_broken u \<and> j_globals u = j_globals s \<and> java_calls (j_log t) = java_calls (j_log s))"
proof -
  define s0 where "s0 = s\<lparr>j_log := NewGlobalRef (Some r) # j_log s, j_globals := j_next s # j_globals s, j_next := Suc (j_next s)\<rparr>"
  have s0: "j_attached s0" "\<not> j_pending s0" "\<not> j_broken s0" "live s0 (Some q)" "\<not> j_broken s"
    using assms(3-5,7) by (auto simp: s0_def thread_ok_def live_def)
  have i: "ok" "h = \<lparr>bh_jvm = True, m_Bands = bands, m_Magnitudes = Some (j_next s), m_Phases = Some (Suc (j_next s))\<rparr>"
      "s1 = s0\<lparr>j_log := NewGlobalRef (Some q) # j_log s0, j_globals := j_next s0 # j_globals s0, j_next := Suc (j_next s0)\<rparr>"
    using assms(8) run_new_global_ref [OF assms(2,4,5) s0(5) assms(6)] run_new_global_ref [OF assms(2) s0(1-4)] assms(5)
    by (auto simp: JavaBandsHolder_Init_def s0_def)
  have m: "machine_ok (j_next s1) s1"
    using assms(3) by (auto simp: i(3) s0_def machine_ok_def thread_ok_def intro: less_SucI)
  obtain as t where t: "peer_run (bands_step W) ops h s1 = (as, h, t)" "machine_ok (j_next s1) t" "j_globals t = j_globals s1"
      "java_calls (j_log t) = java_calls (j_log s1)"
    using bands_run [OF assms(1) m, of h "j_next s" "Suc (j_next s)" ops] assms(9) by (auto simp: i s0_def)
  have sw: "thread_ok (switch_thread th t)" "\<not> j_pending (switch_thread th t)"
    using switch_ok [OF t(2) assms(10)] by auto
  show ?thesis
    using delete_holder [OF assms(1) sw, of h "j_next s" "Suc (j_next s)" "j_globals s"] t i(1) by (auto simp: i(2,3) s0_def)
qed

theorem bands_holder_life_witness:
  "\<exists>as t u. peer_run (bands_step demo_jworld) [((False, []), 2), ((False, []), 3)]
      \<lparr>bh_jvm = True, m_Bands = 2, m_Magnitudes = Some 1, m_Phases = Some 2\<rparr>
      (demo_jthread\<lparr>j_log := [NewGlobalRef (Some 0), NewGlobalRef (Some 0)], j_globals := [2, 1], j_next := 3\<rparr>) = (as, \<lparr>bh_jvm = True, m_Bands = 2, m_Magnitudes = Some 1, m_Phases = Some 2\<rparr>, t) \<and>
    run_state (JavaBandsHolder_delete demo_jworld \<lparr>bh_jvm = True, m_Bands = 2, m_Magnitudes = Some 1, m_Phases = Some 2\<rparr>) (switch_thread (False, []) t) =
      (\<lparr>bh_jvm = True, m_Bands = 2, m_Magnitudes = None, m_Phases = None\<rparr>, u) \<and> \<not> j_broken u \<and> j_globals u = []"
proof -
  have i: "run_state (JavaBandsHolder_Init demo_jworld 2 (Some 0) (Some 0) \<lparr>bh_jvm = False, m_Bands = 0, m_Magnitudes = None, m_Phases = None\<rparr>) demo_jthread =
      ((True, \<lparr>bh_jvm = True, m_Bands = 2, m_Magnitudes = Some 1, m_Phases = Some 2\<rparr>),
       demo_jthread\<lparr>j_log := [NewGlobalRef (Some 0), NewGlobalRef (Some 0)], j_globals := [2, 1], j_next := 3\<rparr>)"
    by (simp add: JavaBandsHolder_Init_def new_global_ref_def enter_jni_def demo_jworld_def demo_jthread_def live_def Let_def)
  have "room_for_globals demo_jworld" "j_globals demo_jthread = []"
    by (simp_all add: room_for_globals_def demo_jworld_def demo_jthread_def)
  then show ?thesis
    using bands_holder_life [OF demo_jworld _ demo_jthread demo_jthread(4) i, of "[((False, []), 2), ((False, []), 3)]" "(False, [])"]
    by (auto simp: caller_ok_def simp del: peer_run.simps)
qed

subsection \<open>Warnings reach Java\<close>

text \<open>The listener for warnings keeps the rules for every outcome of the look-ups, gives back all references, and calls Java when class and
  method are there.\<close>

theorem warning_reaches_java:
  assumes "roomy W" "thread_ok s" "\<not> j_pending s"
    "\<And>h. jw_ok W h (GetStaticMethodID ''nativeWarning'') \<or> jw_throws W h (GetStaticMethodID ''nativeWarning'')"
    "run_state (JavaMediaWarningListener_Warning W True code msg) s = ((), t)"
  shows "served 0 [] s t"
    "(\<And>h f. f \<in> {FindClass ''com/sun/media/jfxmediaimpl/MediaUtils'', GetStaticMethodID ''nativeWarning''} \<Longrightarrow> jw_ok W h f \<and> \<not> jw_throws W h f) \<Longrightarrow>
       \<exists>r. CallStaticMethod ''nativeWarning'' [JInt code, JString r (case msg of None \<Rightarrow> [] | Some m \<Rightarrow> m)] \<in> set (j_log t)"
proof -
  have W: "jw_ok W h AttachCurrentThread" "jw_ok W h (NewStringUTF x)" "\<not> jw_throws W h (NewStringUTF x)" for h x
    using assms(1) by (auto simp: roomy_def can_call_def)
  note defs = JavaMediaWarningListener_Warning_def jnew_def jcall_def enter_jni_def delete_local_ref_def Let_def
  have "\<exists>r cs t. run_state (JavaMediaWarningListener_Warning W True code msg) s = (r, t) \<and> served 0 cs s t \<and> cs = []"
    unfolding JavaMediaWarningListener_Warning_def
  proof (rule with_env_served0 [where d = "()", OF assms(2,3)], goal_cases)
    case (1 s')
    then show ?case
      using assms(4) [of "FindClass ''com/sun/media/jfxmediaimpl/MediaUtils'' # j_log s'"] W
      by (auto simp: defs served_def thread_ok_def)
  qed auto
  then show "served 0 [] s t"
    using assms(5) by auto
  show "\<exists>r. CallStaticMethod ''nativeWarning'' [JInt code, JString r (case msg of None \<Rightarrow> [] | Some m \<Rightarrow> m)] \<in> set (j_log t)"
    if "\<And>h f. f \<in> {FindClass ''com/sun/media/jfxmediaimpl/MediaUtils'', GetStaticMethodID ''nativeWarning''} \<Longrightarrow> jw_ok W h f \<and> \<not> jw_throws W h f"
    using assms(3,5) that W by (cases "j_attached s") (auto simp: defs env_simps)
qed

subsection \<open>Defects\<close>

text \<open>A frame that is converted to the format it has is returned itself.  Java wraps the handle as a frame of its own, and when both are
  disposed of, the frame is deleted twice.\<close>

theorem same_format_aliases:
  assumes "frames h = Some f" "h \<noteq> 0"
  shows "nativeConvertToFormat E src dst0 fresh frames h (m_typeFrame f) = Returns (h, frames)"
    "nativeDisposeBuffer h frames = Returns (frames(h := None))" "nativeDisposeBuffer h (frames(h := None)) = Faults"
  using assms by (auto simp: nativeConvertToFormat_def ConvertToFormat_def nativeDisposeBuffer_def on_frame_def)

text \<open>A band that Java still refers to after it was removed is used through a dangling pointer: its methods do not test the handle.\<close>

theorem removed_band_faults:
  assumes "nativeRemoveBand resize k (Some e) = (True, Some e')"
  shows "nativeGetGain k e' = Faults" "nativeSetGain gain k e' = Faults"
proof -
  have "band_settings e' k = None"
    using assms band_settings_find [of e k]
    by (auto simp: nativeRemoveBand_def on_effect_def RemoveBand_def band_settings_upd split: option.splits prod.splits)
  then have "bm_find (m_BandMap e') k = None"
    by (simp add: band_settings_find)
  then show "nativeGetGain k e' = Faults" "nativeSetGain gain k e' = Faults"
    by (simp_all add: nativeGetGain_def nativeSetGain_def with_band_def)
qed

text \<open>Without a spectrum the new holder is neither stored nor deleted, and its two references stay.\<close>

theorem bands_without_spectrum_leak:
  assumes "room_for_globals W" "j_attached s" "\<not> j_pending s" "\<not> j_broken s" "live s (Some r)" "live s (Some q)"
  shows "\<exists>h t. run_state (nativeSetBands W True holder bands (Some r) (Some q) None) s = ((Some h, None), t) \<and> length (j_globals t) = length (j_globals s) + 2"
proof -
  have q: "live (s\<lparr>j_log := l, j_globals := k # j_globals s, j_next := m\<rparr>) (Some q)" for l k m
    using assms(6) by (auto simp: live_def)
  show ?thesis
    using assms q by (simp add: nativeSetBands_def JavaBandsHolder_Init_def run_new_global_ref [OF assms(1)])
qed

text \<open>When Java cannot make the object for a new band, the band stays in the equalizer although the caller is told that there is none.\<close>

theorem band_without_object:
  assumes "AddBand resize f w g eq = (True, eq')" "j_attached s" "\<not> j_pending s" "\<And>h name. \<not> jw_ok W h (FindClass name) \<and> \<not> jw_throws W h (FindClass name)"
  shows "\<exists>t. run_state (nativeAddBand W resize cid band f w g (Some eq)) s = (((None, cid), Some eq'), t)"
  using assms by (simp add: nativeAddBand_def CreateObject_def jnew_def enter_jni_def reportException_def Let_def)

end
