(* ===== verification/Spec2Isabelle.thy ===== *)
theory Spec2Isabelle
  imports Frame_Pixels Audio_Equalizer Audio_Spectrum Factory_Links Player_Api Progress_Pull Ts_Streams Ts_Times Java_Callbacks Java_Natives
begin

text \<open>
  This development verifies the native media engine of OpenJFX: the C++ code under
  \<^verbatim>\<open>src/modules/javafx.media/src/main/native/jfxmedia\<close> that plays media for the class \<^verbatim>\<open>MediaPlayer\<close> of JavaFX on top of
  GStreamer, and the GStreamer elements of its own under \<^verbatim>\<open>src/modules/javafx.media/src/main/native/gstreamer/plugins\<close> that fetch
  and buffer the data.  Paths below are relative to these two directories.  The rest of this header says which theory models
  which part, how the parts interact, what is shown, where the model idealises, and what is left out.

  \<^bold>\<open>The program.\<close>  A Java thread creates a player with \<^verbatim>\<open>gstInitNativeMedia\<close> and \<^verbatim>\<open>gstInitPlayer\<close> (\<^verbatim>\<open>jni\<close>-facing files of
  \<^verbatim>\<open>platform/gstreamer\<close>): the media manager (\<^verbatim>\<open>MediaManagement/MediaManager.cpp\<close>, a singleton, which starts the thread of the main
  loop, \<^verbatim>\<open>platform/gstreamer/GstMediaManager.cpp\<close>) asks the pipeline factory (\<^verbatim>\<open>platform/gstreamer/GstPipelineFactory.cpp\<close>) for a
  pipeline for the locator.  The factory connects GStreamer elements, from the source \<^verbatim>\<open>javasource\<close> over a progress buffer and a
  demultiplexer to the audio and video sinks, and wraps them in a pipeline object
  (\<^verbatim>\<open>GstAudioPlaybackPipeline.cpp\<close>, derived from it \<^verbatim>\<open>GstAVPlaybackPipeline.cpp\<close>).  From then on three kinds of threads work on that object: Java threads
  through the native methods of \<^verbatim>\<open>GstMediaPlayer.cpp\<close>, the thread of the main loop through the bus callback, and the streaming
  threads through pad callbacks, probes, queue signals and the callbacks of the video sink.  The object reports to Java through the
  event dispatcher (\<^verbatim>\<open>jni/JavaPlayerEventDispatcher.cpp\<close>).  Meanwhile \<^verbatim>\<open>javasource.c\<close> asks Java for data, through the callbacks of \<^verbatim>\<open>jni/JavaInputStreamCallbacks.cpp\<close>,
  and pushes it into \<^verbatim>\<open>progressbuffer.c\<close> (plain streams) or \<^verbatim>\<open>hlsprogressbuffer.c\<close> (HTTP live streaming), which keep it in temporary files (\<^verbatim>\<open>filecache.c\<close>)
  and feed it to the demultiplexer: one of GStreamer, or for live streaming \<^verbatim>\<open>mpegtsdemuxer.c\<close>, which lets libav parse the stream in a thread of its own.

  \<^bold>\<open>Theories of the engine.\<close>
  \<^item> \<open>Jfx_Prelude\<close> machine integers, strings and conversions of C and C++, the collections of rules; \<open>Media_Types\<close> error codes,
    states, content types, \<^verbatim>\<open>GstElementContainer.cpp\<close> and \<^verbatim>\<open>PipelineManagement/PipelineOptions.h\<close>.
  \<^item> \<open>Video_Frame\<close> \<^verbatim>\<open>PipelineManagement/VideoFrame.cpp\<close>, overflow-checked sizes and plane pointers on 32 and 64 bit words, with the contract of the checked
    operations as the locale \<open>checked_chain\<close>; \<open>Gst_Video_Frame\<close> and \<open>Frame_Convert\<close> \<^verbatim>\<open>GstVideoFrame.cpp\<close>: classification of caps, plane
    layout, allocation and conversion; \<open>Color_Tables\<close>, \<open>Color_Converter\<close>, \<open>Color_Images\<close> \<^verbatim>\<open>Utils/ColorConverter.c\<close>, portable variant:
    tables, pixel loops over memory, and their equality with a reference image (locale \<open>pixel_writer\<close>, interpreted for each loop);
    \<open>Frame_Pixels\<close> a frame conversion with this converter.
  \<^item> \<open>Pipeline_Object\<close> the records of \<^verbatim>\<open>CPipeline\<close>, \<^verbatim>\<open>CGstAudioPlaybackPipeline\<close> and \<^verbatim>\<open>CGstAVPlaybackPipeline\<close>, the state monad the
    methods are written in, and the locales \<open>transition\<close>, \<open>quiet\<close> and \<open>field\<close> by which invariants and frames are carried from the
    primitives to whole methods.
  \<^item> \<open>Player_State\<close> \<^verbatim>\<open>SetPlayerState\<close> and \<^verbatim>\<open>UpdatePlayerState\<close>; \<open>AV_Queues\<close> overrun and underrun; \<open>Playback_Control\<close>
    play, pause, stop, finish, seek, rate, volume, balance, delay, duration and stream time; \<open>Buffering\<close> stalls; \<open>Dynamic_Pads\<close> codec
    checks and the pads that appear late; \<open>Track_Probes\<close>; \<open>Video_Sink\<close>; \<open>Bus_Callback\<close> every message the bus callback handles;
    \<open>Pipeline_Lifecycle\<close> \<^verbatim>\<open>Init\<close>, \<^verbatim>\<open>Dispose\<close>, destructors and the block shared with GLib.
  \<^item> \<open>Audio_Equalizer\<close> and \<open>Audio_Spectrum\<close> the two audio effects, the first as a refinement of a finite map (locale \<open>ordered_map\<close>).
  \<^item> \<open>Pipeline_Factory\<close>, \<open>Factory_Results\<close>, \<open>Factory_Links\<close> the factory: its programs, what it returns, what it connects.
  \<^item> \<open>Run_Loop\<close> \<^verbatim>\<open>GstMediaManager.cpp\<close> as three interleaved threads; \<open>Media_Manager\<close> singletons (locale \<open>instance_provider\<close>), locators, media objects
    and their creation; \<open>Player_Runs\<close> all entry points of a pipeline in any order; \<open>Player_Api\<close> the native methods and their runs.

  \<^bold>\<open>Theories of the plugins.\<close>
  \<^item> \<open>Stream_Types\<close> buffers, segments, events and flow returns; \<open>File_Cache\<close> \<^verbatim>\<open>progressbuffer/posix/filecache.c\<close>, with the locale
    \<open>byte_queue\<close> as its contract.
  \<^item> \<open>Java_Source\<close> \<^verbatim>\<open>javasource/javasource.c\<close>: properties, activation, seeking, the loop, pull mode; \<open>Java_Streams\<close> the whole output of
    its loop.
  \<^item> \<open>Progress_Buffer\<close> \<^verbatim>\<open>progressbuffer/progressbuffer.c\<close>; \<open>Progress_Streams\<close> push mode under every interleaving, and the source and
    the buffer together; \<open>Progress_Pull\<close> pull mode and defects.
  \<^item> \<open>HLS_Buffer\<close> \<^verbatim>\<open>progressbuffer/hlsprogressbuffer.c\<close>; \<open>HLS_Ring\<close> the ring of caches as a bounded queue; \<open>HLS_Streams\<close> both threads under every
    schedule, the source and the buffer together, and defects.

  \<^item> \<open>Ts_Demuxer\<close> \<^verbatim>\<open>av/mpegtsdemuxer.c\<close>: receiving, the reader thread with the functions it offers to libav, pads, packets, queries, flushing, closing;
    \<open>Ts_Streams\<close> the two threads under every schedule and the chain from the source over the ring to libav; \<open>Ts_Times\<close> time stamps and their wrap-around.

  \<^bold>\<open>Theories of the border to Java.\<close>
  \<^item> \<open>Jni_Env\<close> \<^verbatim>\<open>jni/JniUtils.cpp\<close> and \<^verbatim>\<open>jni/Logger.cpp\<close>: a thread as the virtual machine sees it, with a flag that records every breach of a rule of JNI (a call
    with a pending exception, a dead reference, a method that was not found), exceptions and the logger.
  \<^item> \<open>Java_Peers\<close> native objects that stand for a Java object, used by any threads: the locale \<open>java_peer\<close> states what one operation does with the
    reference and proves what this means for a whole life; \<open>Java_Callbacks\<close> \<^verbatim>\<open>jni/JavaInputStreamCallbacks.cpp\<close> and \<open>Java_Events\<close>
    \<^verbatim>\<open>jni/JavaPlayerEventDispatcher.cpp\<close> interpret it.
  \<^item> \<open>Java_Natives\<close> \<^verbatim>\<open>jni/NativeVideoBuffer.cpp\<close>, \<^verbatim>\<open>jni/NativeAudioEqualizer.cpp\<close>, \<^verbatim>\<open>jni/NativeEqualizerBand.cpp\<close>, \<^verbatim>\<open>jni/NativeAudioSpectrum.cpp\<close>,
    \<^verbatim>\<open>jni/JavaBandsHolder.cpp\<close>, \<^verbatim>\<open>jni/JavaMediaWarningListener.cpp\<close>.

  \<^bold>\<open>How code becomes definitions.\<close>  A method is a function with the name of the method.  State is a record with the members
  of the class.  Methods of the pipeline and the factory are programs of the state monad; operations of the plugins return their
  new state with the list of what they sent.  What is outside of the sources (GStreamer, GLib, the operating system, the Java side)
  is a parameter, a \<open>world\<close> or an environment, whose answers may depend on all calls made before; a theorem quantifies over it, and
  where it must behave, the hypothesis says how (\<open>works\<close>, \<open>smooth\<close>, \<open>willing\<close> and the like) and a witness gives an instance.  Uses of null
  pointers, dangling blocks and addresses outside of a buffer are values of the model (\<open>crashed\<close>, \<open>Faults\<close>, \<open>misused\<close>), so that their absence can
  be proved.  Where several threads meet, the unit of interleaving is what the code does under one lock, and the lock is a ghost field whose
  order is checked (\<open>lock_rel\<close>).  Code under \<^verbatim>\<open>ENABLE_PROGRESS_BUFFER\<close>, \<^verbatim>\<open>ENABLE_APP_SINK\<close>, \<^verbatim>\<open>ENABLE_LOGGING\<close>, \<^verbatim>\<open>ENABLE_PULL_MODE\<close> and
  \<^verbatim>\<open>ENABLE_SOURCE_SEEKING\<close> is compiled in, code under \<^verbatim>\<open>JFXMEDIA_DEBUG\<close> and \<^verbatim>\<open>ENABLE_LOWLEVELPERF\<close> is not; the target platform is a parameter.

  \<^bold>\<open>What is shown.\<close>
  \<^item> The player: from its creation on, and for every order of calls and callbacks and all answers of GStreamer, the handle keeps its
    pipeline, locks are taken in order and given back, and the listener was last told the state the player is in, except after an error and for \<^verbatim>\<open>Playing\<close>
    after a seek out of \<^verbatim>\<open>Finished\<close>; the state moves along the edges of a
    fixed graph only; each entry point leads to its own target states; a burst of errors shuts the pipeline down once; the clock is set at most once; playback is not resumed against a request of the user; the
    block shared with GLib is deleted exactly once.
  \<^item> Creation: a pipeline object has every element its methods use, every medium the factory supports gets a pipeline when
    GStreamer does not fail, the audio bin is one chain, handlers of the source are released with it, and the native method reports an error
    if and only if there is no player.  The thread of the main loop and \<^verbatim>\<open>Init\<close> synchronise without lost wake-ups.
  \<^item> Frames: planes lie within the buffer; a converted frame is the reference image, whose channels are within a stated distance
    of the real conversion; swapping bytes twice gives back the frame.
  \<^item> Effects: the equalizer refines a finite map and the element mirrors it; holders of the spectrum are balanced.
  \<^item> Data: the file cache is a queue of bytes.  In push mode the source sends exactly the bytes of the connection, from any position after a seek; a
    request in pull mode returns and gives the bytes of the file.  For every interleaving the progress buffer
    sends a prefix of what it received, with the right offsets, and all of it in the end; the ring for live streaming never
    overwrites a segment that was not read, and a fair schedule delivers all.  Composed with the source: the demultiplexer
    receives the media as Java handed it out.  The reader of the demultiplexer gives libav exactly the bytes that arrived, whatever it probes and
    seeks; neither thread waits for ever as long as buffers fit under the limit of the adapter; the end of the stream reaches all pads; time stamps are
    exact as long as the counter of the stream does not wrap around, and right up to a nanosecond across a wrap-around of a steady stream that starts at zero.
  \<^item> Java: for every order of calls from any threads, with or without exceptions, each event is one call of its Java method, in order, and each
    callback of a connection one call of its own; nothing is sent after disposal; no rule of JNI is broken and every global reference is given back.
    A connection that is closed or throws ends or pauses the source.  The memory behind a buffer handed to Java lies within the frame.
  \<^item> Defects: theorems named after what goes wrong (such as \<open>SetRate_never_resumes\<close>, \<open>java_source_getrange_spins\<close>,
    \<open>truncated_stream_never_ends\<close>, \<open>hls_empty_segment_stalls\<close>, \<open>Init_hangs_without_loop\<close>) show on the definitions where the code does not do what it
    means to.

  \<^bold>\<open>Loops, bounds and fuel.\<close>  Loops over data are structural.  The loop of \<^verbatim>\<open>getrange\<close> in \<open>Java_Source\<close> may not end, as it does not when
  the connection keeps failing; it is a partial function into the option type, and that it returns is proved under the documented answers of a
  connection.  The loop that skips items of the progress buffer has a termination proof: each round takes an item.  Delivery of the progress buffers is stated for schedules: a
  bound on the number of rounds of the task is part of the theorem, derived from the number of items and bytes that wait; it is enough because each
  round delivers an event, at least one byte, or ends the stream.  The loop that raises the limit of the adapter in \<open>Ts_Demuxer\<close> has a termination proof:
  each round adds a positive step.  The loop of the reader runs as often as libav answers, and its answers are a parameter.  No other fuel is used.

  \<^bold>\<open>Idealisations.\<close>  \<^verbatim>\<open>float\<close> and \<^verbatim>\<open>double\<close> are reals, so NaN and rounding are not seen; \<^verbatim>\<open>gint64\<close> and \<^verbatim>\<open>gint\<close> are unbounded where the code
  only adds lengths and positions of files; \<^verbatim>\<open>guint\<close> and \<^verbatim>\<open>guint64\<close> keep their width.  Strides and sizes of an image are integers whose products fit.  Division
  by zero in the percentage that \<^verbatim>\<open>send_position_message\<close> computes has the value of HOL.  The result of the event handlers of the plugins
  (whether an event was handled) is left out.  Text that is only logged is left out.

  \<^bold>\<open>Not modelled.\<close>
  \<^item> \<^verbatim>\<open>jni/com_sun_media_jfxmediaimpl_NativeVideoConverter.cpp\<close>: unfinished, it does not compile and nothing calls it; the one-line log methods that
    differ in the level only.
  \<^item> The SSE2 variants of \<^verbatim>\<open>ColorConverter.c\<close>, written in compiler intrinsics.
  \<^item> \<^verbatim>\<open>platform/osx\<close>, \<^verbatim>\<open>platform/ios\<close>: other players, in Objective-C on AVFoundation.
  \<^item> the decoders of \<^verbatim>\<open>plugins/av\<close>, \<^verbatim>\<open>dshowwrapper\<close>, \<^verbatim>\<open>mfwrapper\<close>: decoders whose results libav, DirectShow and Media Foundation decide;
    \<^verbatim>\<open>fxplugins.c\<close> and \<^verbatim>\<open>marshal.c\<close> register and marshal; the file cache for Windows is the one for POSIX over other system calls.
  \<^item> Class registration and finalisers of GObject in the plugins.
  \<^item> Outside of the media engine: GStreamer and GLib themselves, the windowing toolkit, the rendering back ends, fonts and image codecs, and
    the web engine, which are vendored code, bindings to system libraries or input and output.
\<close>

end
